(* ===== verification/Prelude.thy ===== *)
theory Prelude
  imports Complex_Main "HOL-Library.Word" "HOL-Library.Multiset"
begin

text \<open>
  Shared vocabulary of the development: results with explicit errors, saturating and
  wrapping machine arithmetic, insertion-ordered maps (the \<open>IndexMap\<close> and \<open>HashMap\<close> of the
  Rust sources), and a generic transition-system interface whose invariant rule every
  stateful component instantiates.
\<close>

named_theorems im_simps \<open>rewriting of insertion-ordered map operations\<close>
named_theorems fc_simps \<open>rewriting of changed-field bitmasks\<close>
named_theorems chan_defs \<open>definitions of the channel operations\<close>

section \<open>Results\<close>

text \<open>A fallible operation returns \<open>Inl e\<close> for \<open>Err(e)\<close> and \<open>Inr v\<close> for \<open>Ok(v)\<close>.\<close>

type_synonym ('e, 'a) result = "'e + 'a"

abbreviation Err :: "'e \<Rightarrow> ('e, 'a) result" where
  "Err \<equiv> Inl"

abbreviation Ok :: "'a \<Rightarrow> ('e, 'a) result" where
  "Ok \<equiv> Inr"

definition is_Ok :: "('e, 'a) result \<Rightarrow> bool" where
  "is_Ok r = (case r of Inl _ \<Rightarrow> False | Inr _ \<Rightarrow> True)"

lemma is_Ok_simps [simp]: "is_Ok (Inr v)" "\<not> is_Ok (Inl e)"
  by (simp_all add: is_Ok_def)

lemma is_Ok_iff: "is_Ok r \<longleftrightarrow> (\<exists>v. r = Inr v)"
  by (auto simp: is_Ok_def split: sum.splits)

text \<open>The \<open>?\<close> operator: continue with the value or return the error.\<close>

definition try_bind :: "('e, 'a) result \<Rightarrow> ('a \<Rightarrow> ('e, 'b) result) \<Rightarrow> ('e, 'b) result" where
  "try_bind r k = (case r of Inl e \<Rightarrow> Inl e | Inr v \<Rightarrow> k v)"

lemma try_bind_simps [simp]:
  "try_bind (Inl e) k = Inl e"
  "try_bind (Inr v) k = k v"
  by (simp_all add: try_bind_def)

lemma try_bind_OkD:
  "try_bind r k = Inr w \<Longrightarrow> \<exists>v. r = Inr v \<and> k v = Inr w"
  by (cases r) auto

lemma try_bind_ErrD:
  "try_bind r k = Inl e \<Longrightarrow> r = Inl e \<or> (\<exists>v. r = Inr v \<and> k v = Inl e)"
  by (cases r) auto

text \<open>A loop that stops at the first error, over a list of checks.\<close>

fun first_err :: "('a \<Rightarrow> 'e option) \<Rightarrow> 'a list \<Rightarrow> ('e, unit) result" where
  "first_err f [] = Ok ()"
| "first_err f (x # xs) = (case f x of Some e \<Rightarrow> Err e | None \<Rightarrow> first_err f xs)"

lemma first_err_Ok_iff: "first_err f xs = Inr u \<longleftrightarrow> (\<forall>x \<in> set xs. f x = None)"
  by (induction xs) (auto split: option.splits)

lemma first_err_None_iff:
  "(case first_err f xs of Inl e \<Rightarrow> Some e | Inr _ \<Rightarrow> None) = None \<longleftrightarrow> (\<forall>x \<in> set xs. f x = None)"
  by (induction xs) (auto split: option.splits)

lemma first_err_ErrD: "first_err f xs = Inl e \<Longrightarrow> \<exists>x \<in> set xs. f x = Some e"
  by (induction xs) (auto split: option.splits)

section \<open>Machine integers\<close>

text \<open>
  \<open>u64\<close>, \<open>usize\<close> and \<open>u32\<close> counters are naturals with the saturation or the
  wrap-around of the Rust operation written out; bit masks are words.
\<close>

definition u64_max :: nat where
  "u64_max = 2 ^ 64 - 1"

definition sat_add :: "nat \<Rightarrow> nat \<Rightarrow> nat" where
  "sat_add a b = min (a + b) u64_max"

lemma sat_add_le [simp]: "sat_add a b \<le> u64_max"
  by (simp add: sat_add_def)

lemma sat_add_mono: "a \<le> u64_max \<Longrightarrow> a \<le> sat_add a b"
  by (simp add: sat_add_def)

lemma sat_add_exact: "a + b \<le> u64_max \<Longrightarrow> sat_add a b = a + b"
  by (simp add: sat_add_def)

text \<open>\<open>fetch_add\<close> on an atomic wraps around.\<close>

definition wrap_add64 :: "nat \<Rightarrow> nat \<Rightarrow> nat" where
  "wrap_add64 a b = (a + b) mod 2 ^ 64"

lemma wrap_add64_less [simp]: "wrap_add64 a b < 2 ^ 64"
  by (simp add: wrap_add64_def)

lemma wrap_add64_exact: "a + b < 2 ^ 64 \<Longrightarrow> wrap_add64 a b = a + b"
  by (simp add: wrap_add64_def)

definition wrap_add32 :: "nat \<Rightarrow> nat \<Rightarrow> nat" where
  "wrap_add32 a b = (a + b) mod 2 ^ 32"

lemma wrap_add32_exact: "a + b < 2 ^ 32 \<Longrightarrow> wrap_add32 a b = a + b"
  by (simp add: wrap_add32_def)

section \<open>Insertion-ordered maps\<close>

text \<open>
  An \<open>IndexMap\<close> is a list of key/value pairs in insertion order; inserting an existing
  key replaces the value in place.  A \<open>HashMap\<close> is represented the same way, the list
  order standing for its unspecified iteration order: a theorem about such a map that
  holds for every list holds for every iteration order.
\<close>

type_synonym ('k, 'v) imap = "('k \<times> 'v) list"

definition im_get :: "('k, 'v) imap \<Rightarrow> 'k \<Rightarrow> 'v option" where
  "im_get m k = map_of m k"

fun im_insert :: "'k \<Rightarrow> 'v \<Rightarrow> ('k, 'v) imap \<Rightarrow> ('k, 'v) imap" where
  "im_insert k v [] = [(k, v)]"
| "im_insert k v ((k', v') # m) = (if k' = k then (k, v) # m else (k', v') # im_insert k v m)"

definition im_keys :: "('k, 'v) imap \<Rightarrow> 'k list" where
  "im_keys m = map fst m"

definition im_contains :: "('k, 'v) imap \<Rightarrow> 'k \<Rightarrow> bool" where
  "im_contains m k = (k \<in> set (im_keys m))"

text \<open>\<open>entry(k).or_default()\<close> followed by a modification of the entry.\<close>

definition im_modify :: "'k \<Rightarrow> 'v \<Rightarrow> ('v \<Rightarrow> 'v) \<Rightarrow> ('k, 'v) imap \<Rightarrow> ('k, 'v) imap" where
  "im_modify k dflt f m = im_insert k (f (case im_get m k of Some v \<Rightarrow> v | None \<Rightarrow> dflt)) m"

abbreviation im_wf :: "('k, 'v) imap \<Rightarrow> bool" where
  "im_wf m \<equiv> distinct (im_keys m)"

lemma im_get_Nil [simp, im_simps]: "im_get [] k = None"
  by (simp add: im_get_def)

lemma im_get_Cons [im_simps]: "im_get ((k', v) # m) k = (if k' = k then Some v else im_get m k)"
  by (simp add: im_get_def)

lemma im_keys_simps [simp, im_simps]:
  "im_keys [] = []" "im_keys ((k, v) # m) = k # im_keys m" "im_keys (m @ m') = im_keys m @ im_keys m'"
  by (simp_all add: im_keys_def)

lemma im_get_insert [simp, im_simps]:
  "im_get (im_insert k v m) k' = (if k' = k then Some v else im_get m k')"
  by (induction k v m rule: im_insert.induct) (auto simp: im_get_def)

lemma im_keys_insert [im_simps]:
  "im_keys (im_insert k v m) = (if im_contains m k then im_keys m else im_keys m @ [k])"
  by (induction k v m rule: im_insert.induct) (auto simp: im_contains_def)

lemma set_im_keys_insert [simp, im_simps]: "set (im_keys (im_insert k v m)) = insert k (set (im_keys m))"
  by (auto simp: im_keys_insert im_contains_def)

lemma im_wf_insert [simp, intro]: "im_wf m \<Longrightarrow> im_wf (im_insert k v m)"
  by (auto simp: im_keys_insert im_contains_def)

lemma im_contains_iff: "im_contains m k \<longleftrightarrow> (\<exists>v. im_get m k = Some v)"
  by (auto simp: im_contains_def im_keys_def im_get_def domI dest: map_of_SomeD
      intro: weak_map_of_SomeI) (metis fst_conv imageI map_of_SomeD)

lemma im_get_None_iff: "im_get m k = None \<longleftrightarrow> \<not> im_contains m k"
  by (simp add: im_contains_iff)

lemma im_contains_insert [simp]: "im_contains (im_insert k v m) k' \<longleftrightarrow> k' = k \<or> im_contains m k'"
  by (auto simp: im_contains_def)

lemma im_get_modify [simp, im_simps]:
  "im_get (im_modify k d f m) k' =
     (if k' = k then Some (f (case im_get m k of Some v \<Rightarrow> v | None \<Rightarrow> d)) else im_get m k')"
  by (simp add: im_modify_def)

lemma set_im_keys_modify [simp, im_simps]: "set (im_keys (im_modify k d f m)) = insert k (set (im_keys m))"
  by (simp add: im_modify_def)

lemma set_im_insert_subset: "set (im_insert k v m) \<subseteq> insert (k, v) (set m)"
  by (induction k v m rule: im_insert.induct) auto

lemma im_get_SomeD: "im_get m k = Some v \<Longrightarrow> (k, v) \<in> set m"
  by (simp add: im_get_def map_of_SomeD)

lemma im_get_mem: "im_wf m \<Longrightarrow> (k, v) \<in> set m \<Longrightarrow> im_get m k = Some v"
  by (simp add: im_get_def im_keys_def)

text \<open>\<open>remove\<close>, and \<open>get_mut\<close> followed by a modification of the value.\<close>

definition im_remove :: "'k \<Rightarrow> ('k, 'v) imap \<Rightarrow> ('k, 'v) imap" where
  "im_remove k m = filter (\<lambda>p. fst p \<noteq> k) m"

definition im_update :: "'k \<Rightarrow> ('v \<Rightarrow> 'v) \<Rightarrow> ('k, 'v) imap \<Rightarrow> ('k, 'v) imap" where
  "im_update k f m = map (\<lambda>(k', v). (k', if k' = k then f v else v)) m"

lemma im_get_remove [simp, im_simps]: "im_get (im_remove k m) k' = (if k' = k then None else im_get m k')"
  by (induction m) (auto simp: im_get_def im_remove_def)

lemma im_wf_remove [simp, intro]: "im_wf m \<Longrightarrow> im_wf (im_remove k m)"
  by (simp add: im_keys_def im_remove_def distinct_map_filter)

lemma set_im_keys_remove [simp]: "set (im_keys (im_remove k m)) = set (im_keys m) - {k}"
  by (auto simp: im_keys_def im_remove_def)

lemma im_get_update [simp, im_simps]:
  "im_get (im_update k f m) k' = (if k' = k then map_option f (im_get m k) else im_get m k')"
  by (induction m) (auto simp: im_get_def im_update_def)

lemma im_keys_update [simp]: "im_keys (im_update k f m) = im_keys m"
  by (induction m) (auto simp: im_keys_def im_update_def)

section \<open>Hash sets\<close>

text \<open>
  A \<open>HashSet\<close> is a list without repetitions in its (unspecified) iteration order.
\<close>

definition hs_insert :: "'a \<Rightarrow> 'a list \<Rightarrow> 'a list" where
  "hs_insert x xs = (if x \<in> set xs then xs else xs @ [x])"

definition hs_of_list :: "'a list \<Rightarrow> 'a list" where
  "hs_of_list xs = fold hs_insert xs []"

lemma set_hs_insert [simp]: "set (hs_insert x xs) = insert x (set xs)"
  by (auto simp: hs_insert_def)

lemma distinct_hs_insert [simp]: "distinct (hs_insert x xs) = distinct xs"
  by (auto simp: hs_insert_def)

lemma set_fold_hs_insert: "set (fold hs_insert xs acc) = set xs \<union> set acc"
  by (induction xs arbitrary: acc) auto

lemma set_hs_of_list [simp]: "set (hs_of_list xs) = set xs"
  by (simp add: hs_of_list_def set_fold_hs_insert)

lemma distinct_hs_of_list [simp]: "distinct (hs_of_list xs)"
proof -
  have "distinct acc \<Longrightarrow> distinct (fold hs_insert xs acc)" for acc :: "'a list"
    by (induction xs arbitrary: acc) auto
  then show ?thesis by (simp add: hs_of_list_def)
qed

section \<open>Suffixes of bounded length\<close>

definition take_last :: "nat \<Rightarrow> 'a list \<Rightarrow> 'a list" where
  "take_last n xs = drop (length xs - n) xs"

lemma length_take_last [simp]: "length (take_last n xs) = min n (length xs)"
  by (simp add: take_last_def)

lemma take_last_id [simp]: "length xs \<le> n \<Longrightarrow> take_last n xs = xs"
  by (simp add: take_last_def)

lemma take_last_append: "take_last n (take_last n xs @ ys) = take_last n (xs @ ys)"
proof (cases "length xs \<le> n")
  case False
  then have "length xs - n + (n + length ys - n) = length xs + length ys - n" by simp
  then show ?thesis using False
    by (simp add: take_last_def drop_append add.commute)
qed simp

section \<open>Comparison and stable sorting\<close>

datatype ordering = Less | Equal | Greater

definition nat_cmp :: "nat \<Rightarrow> nat \<Rightarrow> ordering" where
  "nat_cmp a b = (if a < b then Less else if a = b then Equal else Greater)"

text \<open>\<open>sort_by\<close> is a stable sort; a stable insertion sort computes the same list.\<close>

fun insert_by :: "('a \<Rightarrow> 'a \<Rightarrow> ordering) \<Rightarrow> 'a \<Rightarrow> 'a list \<Rightarrow> 'a list" where
  "insert_by cmp x [] = [x]"
| "insert_by cmp x (y # ys) = (if cmp x y = Greater then y # insert_by cmp x ys else x # y # ys)"

definition sort_by :: "('a \<Rightarrow> 'a \<Rightarrow> ordering) \<Rightarrow> 'a list \<Rightarrow> 'a list" where
  "sort_by cmp xs = foldr (insert_by cmp) xs []"

lemma sort_by_Nil [simp]: "sort_by cmp [] = []"
  by (simp add: sort_by_def)

lemma sort_by_key:
  assumes "\<And>a b. cmp a b = Greater \<longleftrightarrow> \<not> key a \<le> (key b :: 'k::linorder)"
  shows "sort_by cmp xs = sort_key key xs"
proof -
  have "insert_by cmp x ys = insort_key key x ys" for x ys
    by (induction ys) (auto simp: assms)
  then show ?thesis
    unfolding sort_by_def by (induction xs) simp_all
qed

lemma mset_insert_by [simp]: "mset (insert_by cmp x ys) = add_mset x (mset ys)"
  by (induction ys) auto

lemma mset_sort_by [simp]: "mset (sort_by cmp xs) = mset xs"
  unfolding sort_by_def by (induction xs) simp_all

lemma set_insert_by [simp]: "set (insert_by cmp x ys) = insert x (set ys)"
  by (induction ys) auto

lemma sort_by_sorted:
  assumes "\<And>a b. cmp a b \<noteq> Greater \<or> cmp b a \<noteq> Greater"
    and "\<And>a b c. cmp a b \<noteq> Greater \<Longrightarrow> cmp b c \<noteq> Greater \<Longrightarrow> cmp a c \<noteq> Greater"
  shows "sorted_wrt (\<lambda>a b. cmp a b \<noteq> Greater) (sort_by cmp xs)"
proof -
  have "sorted_wrt (\<lambda>a b. cmp a b \<noteq> Greater) (insert_by cmp x ys)"
    if "sorted_wrt (\<lambda>a b. cmp a b \<noteq> Greater) ys" for x ys
    using that
  proof (induction ys)
    case (Cons y ys)
    show ?case
    proof (cases "cmp x y = Greater")
      case True
      then have "cmp y x \<noteq> Greater" using assms(1) [of x y] by blast
      with True Cons show ?thesis by simp
    next
      case False
      then have "\<forall>z \<in> set ys. cmp x z \<noteq> Greater" using Cons.prems assms(2) [of x y] by simp
      with False Cons.prems show ?thesis by simp
    qed
  qed simp
  then show ?thesis
    unfolding sort_by_def by (induction xs) simp_all
qed

section \<open>JSON values\<close>

text \<open>
  The values of \<open>serde_json\<close>.  A number is a natural, a negative integer or a float, as in its
  \<open>Number\<close> type; two numbers of different kinds are different values.
\<close>

datatype json =
    JNull
  | JBool bool
  | JNum nat
  | JNeg int
  | JFlt rat
  | JStr string
  | JArr "json list"
  | JObj "(string \<times> json) list"

fun as_object :: "json \<Rightarrow> (string \<times> json) list option" where
  "as_object (JObj kvs) = Some kvs"
| "as_object _ = None"

text \<open>A number above \<open>u64::MAX\<close> is parsed as a float, which \<open>as_u64\<close> rejects.\<close>

fun as_u64 :: "json \<Rightarrow> nat option" where
  "as_u64 (JNum n) = (if n \<le> u64_max then Some n else None)"
| "as_u64 _ = None"

fun as_str :: "json \<Rightarrow> string option" where
  "as_str (JStr s) = Some s"
| "as_str _ = None"

definition json_member :: "string \<Rightarrow> json \<Rightarrow> json option" where
  "json_member k v = Option.bind (as_object v) (\<lambda>m. map_of m k)"

definition as_array :: "json \<Rightarrow> json list option" where
  "as_array v = (case v of JArr vs \<Rightarrow> Some vs | _ \<Rightarrow> None)"

section \<open>Transition systems\<close>

text \<open>
  The interface every stateful component offers: a set of initial states, an operation
  per event, and an invariant that the operations keep.  The reachable states are the
  least set closed under the operations; the invariant rule is proved once here.
\<close>

inductive reach :: "('s \<Rightarrow> bool) \<Rightarrow> ('e \<Rightarrow> 's \<Rightarrow> 's) \<Rightarrow> 's \<Rightarrow> bool" for init step where
  reach_init: "init s \<Longrightarrow> reach init step s"
| reach_step: "reach init step s \<Longrightarrow> reach init step (step e s)"

locale transition_system =
  fixes init :: "'s \<Rightarrow> bool"
    and step :: "'e \<Rightarrow> 's \<Rightarrow> 's"
    and inv :: "'s \<Rightarrow> bool"
  assumes inv_init: "init s \<Longrightarrow> inv s"
    and inv_step: "inv s \<Longrightarrow> inv (step e s)"
begin

lemma inv_reach: "reach init step s \<Longrightarrow> inv s"
  by (induction rule: reach.induct) (auto intro: inv_init inv_step)

lemma inv_run: "inv s \<Longrightarrow> inv (fold step es s)"
  by (induction es arbitrary: s) (auto intro: inv_step)

lemma reach_run: "reach init step s \<Longrightarrow> reach init step (fold step es s)"
  by (induction es arbitrary: s) (auto intro: reach_step)

end

section \<open>Key-value stores\<close>

text \<open>
  The interface of a component that keeps values under keys.  Whatever a provider does internally, its
  client sees a partial map: the outcome of any sequence of writes and deletions is that of the map.
\<close>

datatype ('k, 'v) kv_op = KvPut 'k 'v | KvDel 'k

primrec kv_spec :: "('k, 'v) kv_op \<Rightarrow> ('k \<Rightarrow> 'v option) \<Rightarrow> 'k \<Rightarrow> 'v option" where
  "kv_spec (KvPut k v) m = m(k := Some v)"
| "kv_spec (KvDel k) m = m(k := None)"

locale kv_store =
  fixes view :: "'s \<Rightarrow> 'k \<Rightarrow> 'v option"
    and save :: "'k \<Rightarrow> 'v \<Rightarrow> 's \<Rightarrow> 's"
    and erase :: "'k \<Rightarrow> 's \<Rightarrow> 's"
  assumes view_save: "view (save k v s) k' = (if k' = k then Some v else view s k')"
    and view_erase: "view (erase k s) k' = (if k' = k then None else view s k')"
begin

primrec run_op :: "('k, 'v) kv_op \<Rightarrow> 's \<Rightarrow> 's" where
  "run_op (KvPut k v) s = save k v s"
| "run_op (KvDel k) s = erase k s"

lemma view_run_op: "view (run_op p s) = kv_spec p (view s)"
  by (cases p) (auto simp: view_save view_erase)

lemma view_run: "view (fold run_op ops s) = fold kv_spec ops (view s)"
  by (induction ops arbitrary: s) (simp_all add: view_run_op)

end

interpretation imap_kv: kv_store "im_get :: ('k, 'v) imap \<Rightarrow> 'k \<Rightarrow> 'v option" im_insert im_remove
  by unfold_locales simp_all

end
