(* ===== verification/Store.thy ===== *)
theory Store
  imports Strings "HOL-Library.Char_ord" "HOL-Library.List_Lexorder"
begin

text \<open>
  \<open>juncture-core/src/store.rs\<close>, the in-memory part: items under a namespace and a key, filters, search,
  time-to-live, sweeping and batches.  Clock readings are arguments.  Parameters for code outside the
  repository: \<open>add\<close>, the date arithmetic of \<open>chrono\<close> (\<open>None\<close> for its overflow panic), \<open>render\<close>, the text
  of a JSON value, and the user's embedding function.  \<open>f32\<close> values are rationals, rounding is not modelled.
\<close>

section \<open>Data\<close>

datatype store_error = SerializeError string | StorageError string | VectorSearchError string

record item =
  it_namespace :: string
  it_key :: string
  it_value :: json
  it_created_at :: nat
  it_updated_at :: nat
  it_expires_at :: "nat option"
  it_embedding :: "rat list option"

definition is_expired :: "nat \<Rightarrow> item \<Rightarrow> bool" where
  "is_expired now it = (case it_expires_at it of Some e \<Rightarrow> now > e | None \<Rightarrow> False)"

record search_item =
  si_item :: item
  si_score :: "rat option"

datatype filter_expr =
    FEq string json
  | FNe string json
  | FGt string json
  | FGte string json
  | FLt string json
  | FLte string json
  | FAnd "filter_expr list"
  | FOr "filter_expr list"
  | FNot filter_expr

record search_query =
  sq_namespace_prefix :: string
  sq_filter :: "filter_expr option"
  sq_query :: "string option"
  sq_limit :: nat
  sq_offset :: nat

definition search_query_default :: search_query where
  "search_query_default = \<lparr>sq_namespace_prefix = [], sq_filter = None, sq_query = None, sq_limit = 0, sq_offset = 0\<rparr>"

record search_result =
  res_items :: "search_item list"
  res_total_count :: nat

datatype store_op =
    OpGet string string
  | OpPut string string json "string list option"
  | OpDelete string string
  | OpSearch search_query
  | OpListNamespaces "string option" "string option" "nat option" "nat option"

datatype store_result =
    ResItem "item option"
  | ResItems search_result
  | ResNamespaces "string list"
  | ResNone

record ttl_config =
  default_ttl :: "nat option"
  refresh_on_read :: bool
  sweep_interval :: nat
  sweep_max_items :: nat

definition ttl_config_default :: ttl_config where
  "ttl_config_default = \<lparr>default_ttl = None, refresh_on_read = False, sweep_interval = 300 * 10 ^ 9, sweep_max_items = 1000\<rparr>"

record index_config =
  ix_dims :: nat
  ix_embed :: "string list \<Rightarrow> (store_error, rat list list) result"
  ix_fields :: "string list option"

record memory_store =
  mst_data :: "(string, (string, item) imap) imap"
  mst_index_config :: "index_config option"
  mst_ttl_config :: ttl_config

definition memory_store_new :: memory_store where
  "memory_store_new = \<lparr>mst_data = [], mst_index_config = None, mst_ttl_config = ttl_config_default\<rparr>"

definition with_vector_search :: "index_config \<Rightarrow> memory_store \<Rightarrow> memory_store" where
  "with_vector_search c s = s\<lparr>mst_index_config := Some c\<rparr>"

definition with_ttl_config :: "ttl_config \<Rightarrow> memory_store \<Rightarrow> memory_store" where
  "with_ttl_config c s = s\<lparr>mst_ttl_config := c\<rparr>"

section \<open>Filters\<close>

fun get_path :: "json \<Rightarrow> string list \<Rightarrow> json option" where
  "get_path v [] = Some v"
| "get_path v (p # ps) = (case v of
       JObj m \<Rightarrow> (case map_of m p of Some w \<Rightarrow> get_path w ps | None \<Rightarrow> None)
     | _ \<Rightarrow> None)"

definition get_field :: "json \<Rightarrow> string \<Rightarrow> json option" where
  "get_field v path = get_path v (split_on CHR ''.'' path)"

text \<open>\<open>Number::as_f64\<close>; rounding to the nearest double is not modelled.\<close>

fun as_f64 :: "json \<Rightarrow> rat option" where
  "as_f64 (JNum n) = Some (of_nat n)"
| "as_f64 (JNeg i) = Some (of_int i)"
| "as_f64 (JFlt r) = Some r"
| "as_f64 _ = None"

definition compare_numbers :: "json \<Rightarrow> string \<Rightarrow> json \<Rightarrow> (rat \<Rightarrow> rat \<Rightarrow> bool) \<Rightarrow> bool" where
  "compare_numbers v field expected cmp = (case (Option.bind (get_field v field) as_f64, as_f64 expected) of
       (Some a, Some b) \<Rightarrow> cmp a b
     | _ \<Rightarrow> False)"

fun evaluate_filter :: "filter_expr \<Rightarrow> json \<Rightarrow> bool" where
  "evaluate_filter (FEq f e) v = (case get_field v f of Some w \<Rightarrow> w = e | None \<Rightarrow> False)"
| "evaluate_filter (FNe f e) v = (case get_field v f of Some w \<Rightarrow> w \<noteq> e | None \<Rightarrow> True)"
| "evaluate_filter (FGt f e) v = compare_numbers v f e (>)"
| "evaluate_filter (FGte f e) v = compare_numbers v f e (\<ge>)"
| "evaluate_filter (FLt f e) v = compare_numbers v f e (<)"
| "evaluate_filter (FLte f e) v = compare_numbers v f e (\<le>)"
| "evaluate_filter (FAnd es) v = list_all (\<lambda>e. evaluate_filter e v) es"
| "evaluate_filter (FOr es) v = list_ex (\<lambda>e. evaluate_filter e v) es"
| "evaluate_filter (FNot e) v = (\<not> evaluate_filter e v)"

section \<open>Embeddings\<close>

definition extract_index_text :: "(json \<Rightarrow> string) \<Rightarrow> json \<Rightarrow> string list \<Rightarrow> string" where
  "extract_index_text render v fs =
     join_with '' '' (List.map_filter (\<lambda>f. map_option (\<lambda>w. case as_str w of Some t \<Rightarrow> t | None \<Rightarrow> render w) (get_field v f)) fs)"

text \<open>\<open>embeddings.pop()\<close> after embedding one text.\<close>

definition embed_one :: "index_config \<Rightarrow> string \<Rightarrow> (store_error, rat list option) result" where
  "embed_one c text = try_bind (ix_embed c [text]) (\<lambda>es. Ok (if es = [] then None else Some (last es)))"

definition put_embedding ::
    "(json \<Rightarrow> string) \<Rightarrow> index_config option \<Rightarrow> json \<Rightarrow> string list option \<Rightarrow> (store_error, rat list option) result" where
  "put_embedding render ixc v index = (case (ixc, index) of
       (Some c, Some fs) \<Rightarrow>
         (if fs = [] then Ok None
          else let text = extract_index_text render v fs in if text = [] then Ok None else embed_one c text)
     | _ \<Rightarrow> Ok None)"

definition query_embedding :: "index_config option \<Rightarrow> search_query \<Rightarrow> (store_error, rat list option) result" where
  "query_embedding ixc q = (case (ixc, sq_query q) of
       (Some c, Some text) \<Rightarrow> (if text = [] then Ok None else embed_one c text)
     | _ \<Rightarrow> Ok None)"

text \<open>The square fsqrt of \<open>f32\<close> is the parameter \<open>fsqrt\<close>.\<close>

definition cosine_similarity :: "(rat \<Rightarrow> rat) \<Rightarrow> rat list \<Rightarrow> rat list \<Rightarrow> rat" where
  "cosine_similarity fsqrt a b = (let len = min (length a) (length b) in
     if len = 0 then 0
     else let a = take len a; b = take len b;
            dot_product = sum_list (map2 (*) a b);
            norm_a = fsqrt (sum_list (map (\<lambda>x. x * x) a));
            norm_b = fsqrt (sum_list (map (\<lambda>x. x * x) b))
       in if norm_a = 0 \<or> norm_b = 0 then 0 else dot_product / (norm_a * norm_b))"

section \<open>Single items\<close>

definition lookup_item :: "memory_store \<Rightarrow> string \<Rightarrow> string \<Rightarrow> item option" where
  "lookup_item s ns key = Option.bind (im_get (mst_data s) ns) (\<lambda>m. im_get m key)"

text \<open>
  \<open>get\<close> takes the lock twice.  The first, shared, phase decides what to do; between the phases other
  operations may run.  The second phase may panic in the date arithmetic.
\<close>

datatype get_plan = GetMissing | GetExpired | GetRefresh nat | GetPlain

definition get_check :: "nat \<Rightarrow> string \<Rightarrow> string \<Rightarrow> memory_store \<Rightarrow> get_plan" where
  "get_check now ns key s = (case lookup_item s ns key of
       None \<Rightarrow> GetMissing
     | Some it \<Rightarrow>
         if is_expired now it then GetExpired
         else (case (refresh_on_read (mst_ttl_config s), default_ttl (mst_ttl_config s)) of
             (True, Some ttl) \<Rightarrow> GetRefresh ttl
           | _ \<Rightarrow> GetPlain))"

definition get_finish ::
    "(nat \<Rightarrow> nat \<Rightarrow> nat option) \<Rightarrow> nat \<Rightarrow> get_plan \<Rightarrow> string \<Rightarrow> string \<Rightarrow> memory_store \<Rightarrow> (memory_store \<times> item option) option" where
  "get_finish add now plan ns key s = (case plan of
       GetMissing \<Rightarrow> Some (s, None)
     | GetExpired \<Rightarrow> Some (s\<lparr>mst_data := im_update ns (im_remove key) (mst_data s)\<rparr>, None)
     | GetRefresh ttl \<Rightarrow> (case add now ttl of
         None \<Rightarrow> None
       | Some e \<Rightarrow> let s' = s\<lparr>mst_data := im_update ns (im_update key (\<lambda>it. it\<lparr>it_expires_at := Some e, it_updated_at := now\<rparr>)) (mst_data s)\<rparr>
                   in Some (s', lookup_item s' ns key))
     | GetPlain \<Rightarrow> Some (s, lookup_item s ns key))"

definition store_get ::
    "(nat \<Rightarrow> nat \<Rightarrow> nat option) \<Rightarrow> nat \<Rightarrow> nat \<Rightarrow> string \<Rightarrow> string \<Rightarrow> memory_store \<Rightarrow> (memory_store \<times> item option) option" where
  "store_get add t1 t2 ns key s = get_finish add t2 (get_check t1 ns key s) ns key s"

definition expiry :: "(nat \<Rightarrow> nat \<Rightarrow> nat option) \<Rightarrow> nat \<Rightarrow> ttl_config \<Rightarrow> nat option option" where
  "expiry add now c = (case default_ttl c of None \<Rightarrow> Some None | Some ttl \<Rightarrow> map_option Some (add now ttl))"

definition new_item :: "nat \<Rightarrow> string \<Rightarrow> string \<Rightarrow> json \<Rightarrow> nat option \<Rightarrow> rat list option \<Rightarrow> item option \<Rightarrow> item" where
  "new_item now ns key v ex emb existing = \<lparr>it_namespace = ns, it_key = key, it_value = v,
     it_created_at = (case existing of Some i \<Rightarrow> it_created_at i | None \<Rightarrow> now), it_updated_at = now,
     it_expires_at = ex, it_embedding = emb\<rparr>"

definition put_item :: "string \<Rightarrow> string \<Rightarrow> item \<Rightarrow> memory_store \<Rightarrow> memory_store" where
  "put_item ns key it s = s\<lparr>mst_data := im_modify ns [] (im_insert key it) (mst_data s)\<rparr>"

definition store_put ::
    "(json \<Rightarrow> string) \<Rightarrow> (nat \<Rightarrow> nat \<Rightarrow> nat option) \<Rightarrow> nat \<Rightarrow> string \<Rightarrow> string \<Rightarrow> json \<Rightarrow> string list option \<Rightarrow> memory_store
       \<Rightarrow> (memory_store \<times> (store_error, unit) result) option" where
  "store_put render add now ns key v index s = (case put_embedding render (mst_index_config s) v index of
       Inl e \<Rightarrow> Some (s, Err e)
     | Inr emb \<Rightarrow> (case expiry add now (mst_ttl_config s) of
         None \<Rightarrow> None
       | Some ex \<Rightarrow>
           Some (put_item ns key (new_item now ns key v ex emb (lookup_item s ns key)) s, Ok ())))"

definition store_delete :: "string \<Rightarrow> string \<Rightarrow> memory_store \<Rightarrow> memory_store" where
  "store_delete ns key s = s\<lparr>mst_data := im_update ns (im_remove key) (mst_data s)\<rparr>"

section \<open>Search\<close>

definition score_of :: "(rat \<Rightarrow> rat) \<Rightarrow> rat list option \<Rightarrow> item \<Rightarrow> rat option" where
  "score_of fsqrt qe it = (case (qe, it_embedding it) of
       (Some q, Some e) \<Rightarrow> Some (cosine_similarity fsqrt q e)
     | _ \<Rightarrow> None)"

definition item_matches :: "nat \<Rightarrow> search_query \<Rightarrow> item \<Rightarrow> bool" where
  "item_matches now q it \<longleftrightarrow> \<not> is_expired now it \<and>
     (case sq_filter q of Some f \<Rightarrow> evaluate_filter f (it_value it) | None \<Rightarrow> True)"

definition gather :: "(rat \<Rightarrow> rat) \<Rightarrow> nat \<Rightarrow> search_query \<Rightarrow> rat list option \<Rightarrow> memory_store \<Rightarrow> search_item list" where
  "gather fsqrt now q qe s = concat (map (\<lambda>(ns, m).
     if starts_with (sq_namespace_prefix q) ns
     then map (\<lambda>it. \<lparr>si_item = it, si_score = score_of fsqrt qe it\<rparr>) (filter (item_matches now q) (map snd m))
     else []) (mst_data s))"

text \<open>\<open>partial_cmp\<close> on optional scores: a missing score is the least.\<close>

fun score_cmp :: "rat option \<Rightarrow> rat option \<Rightarrow> ordering" where
  "score_cmp None None = Equal"
| "score_cmp None (Some _) = Less"
| "score_cmp (Some _) None = Greater"
| "score_cmp (Some a) (Some b) = (if a < b then Less else if a = b then Equal else Greater)"

text \<open>
  \<open>drain(start..end)\<close>.  If \<open>start + limit\<close> does not fit a \<open>usize\<close>, the addition panics when overflow checks are
  compiled in, and otherwise wraps to an end before the start, on which \<open>drain\<close> panics.
\<close>

definition paginate :: "search_query \<Rightarrow> 'a list \<Rightarrow> 'a list option" where
  "paginate q items = (let start = min (sq_offset q) (length items) in
     if start + sq_limit q > u64_max then None
     else Some (take (min (start + sq_limit q) (length items) - start) (drop start items)))"

definition rank :: "rat list option \<Rightarrow> search_item list \<Rightarrow> search_item list" where
  "rank qe items = (if qe \<noteq> None then sort_by (\<lambda>a b. score_cmp (si_score b) (si_score a)) items else items)"

definition store_search ::
    "(rat \<Rightarrow> rat) \<Rightarrow> nat \<Rightarrow> search_query \<Rightarrow> memory_store \<Rightarrow> (store_error, search_result) result option" where
  "store_search fsqrt now q s = (case query_embedding (mst_index_config s) q of
       Inl e \<Rightarrow> Some (Err e)
     | Inr qe \<Rightarrow> (let items = gather fsqrt now q qe s in
         map_option (\<lambda>page. Ok \<lparr>res_items = page, res_total_count = length items\<rparr>) (paginate q (rank qe items))))"

definition truncate_namespace :: "nat \<Rightarrow> string \<Rightarrow> string" where
  "truncate_namespace depth ns = join_with ''/'' (take depth (split_on CHR ''/'' ns))"

definition list_namespaces ::
    "string option \<Rightarrow> string option \<Rightarrow> nat option \<Rightarrow> nat option \<Rightarrow> nat option \<Rightarrow> memory_store \<Rightarrow> string list" where
  "list_namespaces prefix suffix max_depth limit offset s = (let
     n0 = im_keys (mst_data s);
     n1 = (case prefix of Some p \<Rightarrow> filter (starts_with p) n0 | None \<Rightarrow> n0);
     n2 = (case suffix of Some p \<Rightarrow> filter (ends_with p) n1 | None \<Rightarrow> n1);
     n3 = (case max_depth of Some d \<Rightarrow> remdups_adj (sort (map (truncate_namespace d) n2)) | None \<Rightarrow> n2);
     n4 = (case offset of Some k \<Rightarrow> drop (min k (length n3)) n3 | None \<Rightarrow> n3)
     in (case limit of Some k \<Rightarrow> take k n4 | None \<Rightarrow> n4))"

section \<open>Batches\<close>

text \<open>The clock readings of the \<open>k\<close>-th operation are \<open>clock k\<close>.\<close>

record store_env =
  env_render :: "json \<Rightarrow> string"
  env_add :: "nat \<Rightarrow> nat \<Rightarrow> nat option"
  env_root :: "rat \<Rightarrow> rat"

definition run_store_op :: "store_env \<Rightarrow> nat \<times> nat \<Rightarrow> store_op \<Rightarrow> memory_store \<Rightarrow> (memory_store \<times> (store_error, store_result) result) option" where
  "run_store_op E t op s = (case op of
       OpGet ns key \<Rightarrow> map_option (\<lambda>(s', r). (s', Ok (ResItem r))) (store_get (env_add E) (fst t) (snd t) ns key s)
     | OpPut ns key v index \<Rightarrow>
         map_option (\<lambda>(s', r). (s', try_bind r (\<lambda>_. Ok ResNone))) (store_put (env_render E) (env_add E) (fst t) ns key v index s)
     | OpDelete ns key \<Rightarrow> Some (store_delete ns key s, Ok ResNone)
     | OpSearch q \<Rightarrow> map_option (\<lambda>r. (s, try_bind r (\<lambda>x. Ok (ResItems x)))) (store_search (env_root E) (fst t) q s)
     | OpListNamespaces p sf d l \<Rightarrow> Some (s, Ok (ResNamespaces (list_namespaces p sf d l None s))))"

fun store_batch ::
    "store_env \<Rightarrow> (nat \<Rightarrow> nat \<times> nat) \<Rightarrow> nat \<Rightarrow> store_op list \<Rightarrow> memory_store
       \<Rightarrow> (memory_store \<times> (store_error, store_result list) result) option" where
  "store_batch E clock k [] s = Some (s, Ok [])"
| "store_batch E clock k (op # ops) s = (case run_store_op E (clock k) op s of
       None \<Rightarrow> None
     | Some (s', Inl e) \<Rightarrow> Some (s', Err e)
     | Some (s', Inr r) \<Rightarrow>
         map_option (\<lambda>(s'', rs). (s'', try_bind rs (\<lambda>rs. Ok (r # rs)))) (store_batch E clock (k + 1) ops s'))"

section \<open>Sweeping\<close>

text \<open>The scan stops as soon as the number of collected keys reaches \<open>sweep_max_items\<close>.\<close>

fun sweep_namespace ::
    "nat \<Rightarrow> nat \<Rightarrow> string \<Rightarrow> (string, item) imap \<Rightarrow> (string \<times> string) list \<Rightarrow> (string \<times> string) list" where
  "sweep_namespace now mx ns [] acc = acc"
| "sweep_namespace now mx ns ((key, it) # m) acc =
     (if is_expired now it
      then let acc' = acc @ [(ns, key)] in if length acc' \<ge> mx then acc' else sweep_namespace now mx ns m acc'
      else sweep_namespace now mx ns m acc)"

fun sweep_collect ::
    "nat \<Rightarrow> nat \<Rightarrow> (string, (string, item) imap) imap \<Rightarrow> (string \<times> string) list \<Rightarrow> (string \<times> string) list" where
  "sweep_collect now mx [] acc = acc"
| "sweep_collect now mx ((ns, m) # data) acc =
     (let acc' = sweep_namespace now mx ns m acc in
      if length acc' \<ge> mx then acc' else sweep_collect now mx data acc')"

definition sweep_expired_items :: "nat \<Rightarrow> memory_store \<Rightarrow> memory_store \<times> nat" where
  "sweep_expired_items now s = (let keys = sweep_collect now (sweep_max_items (mst_ttl_config s)) (mst_data s) [] in
     (fold (\<lambda>(ns, key). store_delete ns key) keys s, length keys))"

section \<open>Lookup after each operation\<close>

lemma lookup_put_item [simp]:
  "lookup_item (put_item ns key it s) ns' key' = (if ns' = ns \<and> key' = key then Some it else lookup_item s ns' key')"
  by (auto simp: lookup_item_def put_item_def split: option.splits)

lemma lookup_delete [simp]:
  "lookup_item (store_delete ns key s) ns' key' = (if ns' = ns \<and> key' = key then None else lookup_item s ns' key')"
  by (cases "im_get (mst_data s) ns") (auto simp: lookup_item_def store_delete_def)

lemma lookup_refresh:
  "lookup_item (s\<lparr>mst_data := im_update ns (im_update key f) (mst_data s)\<rparr>) ns' key' =
     (if ns' = ns \<and> key' = key then map_option f (lookup_item s ns key) else lookup_item s ns' key')"
  by (cases "im_get (mst_data s) ns") (auto simp: lookup_item_def)

interpretation items: kv_store "\<lambda>s (ns, key). lookup_item s ns key" "\<lambda>(ns, key). put_item ns key" "\<lambda>(ns, key). store_delete ns key"
  by unfold_locales (auto split: if_splits)

lemma configs [simp]:
  "mst_index_config (put_item ns key it s) = mst_index_config s" "mst_ttl_config (put_item ns key it s) = mst_ttl_config s"
  "mst_index_config (store_delete ns key s) = mst_index_config s" "mst_ttl_config (store_delete ns key s) = mst_ttl_config s"
  by (simp_all add: put_item_def store_delete_def)

text \<open>Keys are unique at both levels, and an item carries the names it is stored under.\<close>

definition items_named :: "string \<Rightarrow> (string, item) imap \<Rightarrow> bool" where
  "items_named ns m \<longleftrightarrow> im_wf m \<and> (\<forall>p \<in> set m. it_namespace (snd p) = ns \<and> it_key (snd p) = fst p)"

definition store_wf :: "memory_store \<Rightarrow> bool" where
  "store_wf s \<longleftrightarrow> im_wf (mst_data s) \<and> (\<forall>p \<in> set (mst_data s). items_named (fst p) (snd p))"

lemma set_im_update: "set (im_update k f m) = (\<lambda>p. (fst p, if fst p = k then f (snd p) else snd p)) ` set m"
  by (simp add: im_update_def case_prod_beta)

lemma items_named_remove: "items_named ns m \<Longrightarrow> items_named ns (im_remove key m)"
  using im_wf_remove [of m key] by (simp add: items_named_def) (simp add: im_remove_def)

lemma items_named_insert:
  "items_named ns m \<Longrightarrow> it_namespace it = ns \<Longrightarrow> it_key it = key \<Longrightarrow> items_named ns (im_insert key it m)"
  using set_im_insert_subset [of key it m] by (auto simp: items_named_def)

lemma items_named_update:
  "items_named ns m \<Longrightarrow> (\<And>it. it_namespace (f it) = it_namespace it \<and> it_key (f it) = it_key it) \<Longrightarrow>
     items_named ns (im_update key f m)"
  by (simp add: items_named_def set_im_update)

lemma store_wf_update:
  "store_wf s \<Longrightarrow> (\<And>m. items_named ns m \<Longrightarrow> items_named ns (f m)) \<Longrightarrow>
     store_wf (s\<lparr>mst_data := im_update ns f (mst_data s)\<rparr>)"
  by (auto simp: store_wf_def set_im_update)

lemma store_wf_put_item:
  assumes "store_wf s" "it_namespace it = ns" "it_key it = key"
  shows "store_wf (put_item ns key it s)"
proof -
  let ?m = "case im_get (mst_data s) ns of Some v \<Rightarrow> v | None \<Rightarrow> []"
  have "items_named ns ?m"
    using assms(1) by (fastforce simp: store_wf_def items_named_def [of _ "[]"] dest!: im_get_SomeD split: option.splits)
  then have "items_named ns (im_insert key it ?m)"
    using assms by (blast intro: items_named_insert)
  then show ?thesis
    using assms(1) set_im_insert_subset [of ns "im_insert key it ?m" "mst_data s"]
    by (fastforce simp: store_wf_def put_item_def im_modify_def)
qed

lemma store_wf_delete: "store_wf s \<Longrightarrow> store_wf (store_delete ns key s)"
  unfolding store_delete_def by (rule store_wf_update) (auto intro: items_named_remove)

lemma store_wf_new: "mst_data s = [] \<Longrightarrow> store_wf s"
  by (simp add: store_wf_def)

lemma lookup_item_iff:
  "store_wf s \<Longrightarrow> lookup_item s ns key = Some it \<longleftrightarrow> (\<exists>m. (ns, m) \<in> set (mst_data s) \<and> (key, it) \<in> set m)"
  by (auto simp: store_wf_def items_named_def lookup_item_def bind_eq_Some_conv dest!: im_get_SomeD)
    (fastforce intro!: im_get_mem)

section \<open>The store as a timed map\<close>

text \<open>
  What a client sees: a value under each key with the time until which it lives.  Lazy removal, sweeping and
  the order of hash maps are invisible.
\<close>

type_synonym timed_map = "string \<times> string \<Rightarrow> (json \<times> nat option) option"

definition expired_at :: "nat \<Rightarrow> nat option \<Rightarrow> bool" where
  "expired_at t e = (case e of Some x \<Rightarrow> t > x | None \<Rightarrow> False)"

definition live :: "nat \<Rightarrow> (json \<times> nat option) option \<Rightarrow> json option" where
  "live t x = (case x of Some (v, e) \<Rightarrow> if expired_at t e then None else Some v | None \<Rightarrow> None)"

datatype store_event = EvOp store_op | EvSweep

fun spec_event :: "ttl_config \<Rightarrow> nat \<times> store_event \<Rightarrow> timed_map \<Rightarrow> timed_map" where
  "spec_event c (t, EvOp (OpPut ns key v _)) m = m((ns, key) := Some (v, map_option ((+) t) (default_ttl c)))"
| "spec_event c (t, EvOp (OpDelete ns key)) m = m((ns, key) := None)"
| "spec_event c (t, EvOp (OpGet ns key)) m = (case (refresh_on_read c, default_ttl c, live t (m (ns, key))) of
       (True, Some ttl, Some v) \<Rightarrow> m((ns, key) := Some (v, Some (t + ttl)))
     | _ \<Rightarrow> m)"
| "spec_event c (t, _) m = m"

text \<open>An operation that panics leaves the store as it was.\<close>

definition store_event_step :: "store_env \<Rightarrow> nat \<times> store_event \<Rightarrow> memory_store \<Rightarrow> memory_store" where
  "store_event_step E te s = (case te of
       (t, EvOp op) \<Rightarrow> (case run_store_op E (t, t) op s of None \<Rightarrow> s | Some (s', _) \<Rightarrow> s')
     | (t, EvSweep) \<Rightarrow> fst (sweep_expired_items t s))"

definition live_value :: "nat \<Rightarrow> memory_store \<Rightarrow> string \<times> string \<Rightarrow> json option" where
  "live_value t s k = live t (map_option (\<lambda>it. (it_value it, it_expires_at it)) (lookup_item s (fst k) (snd k)))"

lemma is_expired_at: "is_expired t it = expired_at t (it_expires_at it)"
  by (simp add: is_expired_def expired_at_def)

lemma live_simps [simp]:
  "live t None = None" "live t (Some (v, e)) = (if expired_at t e then None else Some v)"
  by (simp_all add: live_def)

lemma expired_at_mono: "expired_at t e \<Longrightarrow> t \<le> t' \<Longrightarrow> expired_at t' e"
  by (auto simp: expired_at_def split: option.splits)

lemma live_mono: "live t x = None \<Longrightarrow> t \<le> t' \<Longrightarrow> live t' x = None"
  by (auto simp: live_def split: option.splits if_splits dest: expired_at_mono)

lemma live_SomeD: "live t x = Some v \<Longrightarrow> \<exists>e. x = Some (v, e) \<and> \<not> expired_at t e"
  by (auto simp: live_def split: option.splits if_splits)

text \<open>The simulation relation: from time \<open>T\<close> on the store and the map show the same live values.\<close>

definition simulates :: "nat \<Rightarrow> memory_store \<Rightarrow> timed_map \<Rightarrow> bool" where
  "simulates T s m \<longleftrightarrow> store_wf s \<and> (\<forall>t \<ge> T. \<forall>k. live_value t s k = live t (m k))"

lemma simulates_later: "simulates T s m \<Longrightarrow> T \<le> T' \<Longrightarrow> simulates T' s m"
  by (simp add: simulates_def)

lemma simulatesI:
  assumes "simulates T s m" "store_wf s'"
    and "\<And>t ns key. T \<le> t \<Longrightarrow> live_value t s' (ns, key) = live_value t s (ns, key) \<and> live t (m' (ns, key)) = live t (m (ns, key))
           \<or> live_value t s' (ns, key) = live t (m' (ns, key))"
  shows "simulates T s' m'"
  using assms unfolding simulates_def by (metis prod.collapse)

lemma simulates_put:
  "simulates t s m \<Longrightarrow> simulates t (put_item ns key (new_item t ns key v ex emb old) s) (m((ns, key) := Some (v, ex)))"
  by (rule simulatesI, assumption)
    (auto simp: simulates_def new_item_def live_value_def intro: store_wf_put_item)

lemma simulates_delete: "simulates t s m \<Longrightarrow> simulates t (store_delete ns key s) (m((ns, key) := None))"
  by (rule simulatesI, assumption) (auto simp: simulates_def live_value_def intro: store_wf_delete)

text \<open>Removing an item that has expired is not observable.\<close>

definition gone :: "nat \<Rightarrow> memory_store \<Rightarrow> string \<times> string \<Rightarrow> bool" where
  "gone t s k \<longleftrightarrow> (\<forall>it. lookup_item s (fst k) (snd k) = Some it \<longrightarrow> is_expired t it)"

lemma simulates_drop:
  assumes "simulates t s m" "gone t s (ns, key)"
  shows "simulates t (store_delete ns key s) m"
proof (rule simulatesI [OF assms(1)])
  show "store_wf (store_delete ns key s)" using assms(1) by (simp add: simulates_def store_wf_delete)
next
  fix t' ns' key'
  assume "t \<le> t'"
  then have "live_value t' s (ns, key) = None"
    using assms(2) expired_at_mono
    by (cases "lookup_item s ns key") (auto simp: gone_def live_value_def is_expired_at)
  then show "live_value t' (store_delete ns key s) (ns', key') = live_value t' s (ns', key') \<and> live t' (m (ns', key')) = live t' (m (ns', key'))
      \<or> live_value t' (store_delete ns key s) (ns', key') = live t' (m (ns', key'))"
    by (auto simp: live_value_def)
qed

lemma simulates_drops:
  "simulates t s m \<Longrightarrow> \<forall>k \<in> set ks. gone t s k \<Longrightarrow> simulates t (fold (\<lambda>(ns, key). store_delete ns key) ks s) m"
proof (induction ks arbitrary: s)
  case (Cons k ks)
  then have "simulates t (store_delete (fst k) (snd k) s) m" by (auto intro: simulates_drop)
  moreover have "\<forall>k' \<in> set ks. gone t (store_delete (fst k) (snd k) s) k'"
    using Cons.prems(2) by (auto simp: gone_def)
  ultimately show ?case using Cons.IH by (simp add: case_prod_beta)
qed simp

lemma simulates_refresh:
  assumes "simulates t s m" "lookup_item s ns key = Some it"
  shows "simulates t (s\<lparr>mst_data := im_update ns (im_update key (\<lambda>it. it\<lparr>it_expires_at := Some e, it_updated_at := t\<rparr>)) (mst_data s)\<rparr>)
     (m((ns, key) := Some (it_value it, Some e)))"
  using assms
  by (intro simulatesI [OF assms(1)])
    (auto simp: simulates_def live_value_def lookup_refresh intro!: store_wf_update items_named_update)

section \<open>Sweeping\<close>

lemma sweep_namespace_sound:
  "p \<in> set (sweep_namespace now mx ns m acc) \<Longrightarrow>
     p \<in> set acc \<or> (\<exists>key it. p = (ns, key) \<and> (key, it) \<in> set m \<and> is_expired now it)"
  by (induction now mx ns m acc rule: sweep_namespace.induct) (fastforce simp: Let_def split: if_splits)+

lemma sweep_collect_sound:
  "p \<in> set (sweep_collect now mx data acc) \<Longrightarrow>
     p \<in> set acc \<or> (\<exists>m it. (fst p, m) \<in> set data \<and> (snd p, it) \<in> set m \<and> is_expired now it)"
proof (induction now mx data acc rule: sweep_collect.induct)
  case (2 now mx ns m data acc)
  then show ?case using sweep_namespace_sound [of p now mx ns m acc]
    by (fastforce simp: Let_def split: if_splits)
qed simp

lemma sweep_namespace_bound:
  "length acc < max 1 mx \<Longrightarrow> length (sweep_namespace now mx ns m acc) \<le> max 1 mx"
  by (induction now mx ns m acc rule: sweep_namespace.induct) (auto simp: Let_def)

lemma sweep_collect_bound:
  "length acc < max 1 mx \<Longrightarrow> length (sweep_collect now mx data acc) \<le> max 1 mx"
proof (induction now mx data acc rule: sweep_collect.induct)
  case (2 now mx ns m data acc)
  then show ?case using sweep_namespace_bound [of acc mx now ns m] by (auto simp: Let_def)
qed simp

lemma sweep_namespace_complete:
  "length (sweep_namespace now mx ns m acc) < mx \<Longrightarrow>
     set acc \<subseteq> set (sweep_namespace now mx ns m acc) \<and>
     (\<forall>(key, it) \<in> set m. is_expired now it \<longrightarrow> (ns, key) \<in> set (sweep_namespace now mx ns m acc))"
  by (induction now mx ns m acc rule: sweep_namespace.induct) (auto simp: Let_def split: if_splits)

lemma sweep_collect_complete:
  "length (sweep_collect now mx data acc) < mx \<Longrightarrow>
     set acc \<subseteq> set (sweep_collect now mx data acc) \<and>
     (\<forall>(ns, m) \<in> set data. \<forall>(key, it) \<in> set m. is_expired now it \<longrightarrow> (ns, key) \<in> set (sweep_collect now mx data acc))"
proof (induction now mx data acc rule: sweep_collect.induct)
  case (2 now mx ns m data acc)
  let ?acc = "sweep_namespace now mx ns m acc"
  have lt: "length ?acc < mx" using 2(2) by (auto simp: Let_def split: if_splits)
  with 2 sweep_namespace_complete [OF lt] show ?case by (fastforce simp: Let_def)
qed simp

lemma lookup_deletes:
  "lookup_item (fold (\<lambda>(ns, key). store_delete ns key) ks s) ns key =
     (if (ns, key) \<in> set ks then None else lookup_item s ns key)"
  by (induction ks arbitrary: s) (auto simp: case_prod_beta)

lemma swept_gone: "store_wf s \<Longrightarrow> p \<in> set (sweep_collect t mx (mst_data s) []) \<Longrightarrow> \<exists>it. lookup_item s (fst p) (snd p) = Some it \<and> is_expired t it"
  using sweep_collect_sound [of p t mx "mst_data s" "[]"] by (auto simp: lookup_item_iff)

lemma simulates_sweep: "simulates t s m \<Longrightarrow> simulates t (fst (sweep_expired_items t s)) m"
  unfolding sweep_expired_items_def Let_def fst_conv
  by (rule simulates_drops) (fastforce simp: simulates_def gone_def dest: swept_gone)+

section \<open>Runs\<close>

definition embeds :: "memory_store \<Rightarrow> bool" where
  "embeds s \<longleftrightarrow> (\<forall>c. mst_index_config s = Some c \<longrightarrow> (\<forall>x. is_Ok (ix_embed c x)))"

lemma embed_one_Ok: "is_Ok (ix_embed c [text]) \<Longrightarrow> \<exists>e. embed_one c text = Ok e"
  by (auto simp: embed_one_def is_Ok_iff)

lemma put_embedding_Ok:
  assumes "embeds s" shows "\<exists>emb. put_embedding r (mst_index_config s) v index = Ok emb"
proof (cases "mst_index_config s")
  case (Some c)
  then have "\<exists>e. embed_one c tx = Ok e" for tx
    using assms embed_one_Ok by (simp add: embeds_def)
  with Some show ?thesis by (auto simp: put_embedding_def Let_def split: option.splits)
qed (simp add: put_embedding_def)

lemma live_value_lookup:
  "live_value t s (ns, key) = (case lookup_item s ns key of
     Some it \<Rightarrow> if is_expired t it then None else Some (it_value it) | None \<Rightarrow> None)"
  by (auto simp: live_value_def is_expired_at split: option.splits)

lemma event_get:
  assumes "simulates t s m" "\<And>t d. env_add E t d = Some (t + d)"
  shows "simulates t (store_event_step E (t, EvOp (OpGet ns key)) s) (spec_event (mst_ttl_config s) (t, EvOp (OpGet ns key)) m)"
proof -
  have l: "live t (m (ns, key)) = live_value t s (ns, key)" using assms(1) by (simp add: simulates_def)
  show ?thesis
  proof (cases "lookup_item s ns key")
    case None
    with assms(1) l show ?thesis
      by (auto simp: live_value_lookup store_event_step_def run_store_op_def store_get_def get_check_def get_finish_def
          split: option.splits bool.splits)
  next
    case (Some it)
    note l = l [unfolded live_value_lookup Some option.case]
    show ?thesis
    proof (cases "is_expired t it")
      case True
      with Some have "gone t s (ns, key)" by (simp add: gone_def)
      from simulates_drop [OF assms(1) this] True Some l show ?thesis
        by (simp add: store_event_step_def run_store_op_def store_get_def get_check_def get_finish_def store_delete_def
            split: option.splits bool.splits)
    next
      case False
      with Some l simulates_refresh [OF assms(1) Some] assms(1) show ?thesis
        by (cases "refresh_on_read (mst_ttl_config s)"; cases "default_ttl (mst_ttl_config s)")
          (simp_all add: store_event_step_def run_store_op_def store_get_def get_check_def get_finish_def Let_def assms(2))
    qed
  qed
qed

lemma event_put:
  assumes "simulates t s m" "\<And>t d. env_add E t d = Some (t + d)" "embeds s"
  shows "simulates t (store_event_step E (t, EvOp (OpPut ns key v ix)) s) (spec_event (mst_ttl_config s) (t, EvOp (OpPut ns key v ix)) m)"
proof -
  obtain emb where "put_embedding (env_render E) (mst_index_config s) v ix = Ok emb" using put_embedding_Ok [OF assms(3)] by blast
  then show ?thesis
    using simulates_put [OF assms(1), of ns key v "map_option ((+) t) (default_ttl (mst_ttl_config s))" emb "lookup_item s ns key"]
    by (auto simp: store_event_step_def run_store_op_def store_put_def expiry_def assms(2) split: option.splits)
qed

lemma config_deletes:
  "mst_ttl_config (fold (\<lambda>(ns, key). store_delete ns key) ks s) = mst_ttl_config s"
  "mst_index_config (fold (\<lambda>(ns, key). store_delete ns key) ks s) = mst_index_config s"
  by (induction ks arbitrary: s) (simp_all add: case_prod_beta)

lemma event_config:
  "mst_ttl_config (store_event_step E te s) = mst_ttl_config s \<and> mst_index_config (store_event_step E te s) = mst_index_config s"
  by (auto simp: store_event_step_def run_store_op_def sweep_expired_items_def store_get_def get_check_def
      get_finish_def store_put_def Let_def config_deletes split: prod.splits store_event.splits store_op.splits option.splits sum.splits get_plan.splits)

lemma event_simulates:
  assumes "simulates t s m" "\<And>t d. env_add E t d = Some (t + d)" "embeds s"
  shows "simulates t (store_event_step E (t, ev) s) (spec_event (mst_ttl_config s) (t, ev) m)"
proof (cases ev)
  case (EvOp op)
  then show ?thesis
    using assms event_get [OF assms(1,2)] event_put [OF assms] simulates_delete [OF assms(1)]
    by (cases op) (auto simp: store_event_step_def run_store_op_def split: option.splits)
next
  case EvSweep
  then show ?thesis using assms(1) simulates_sweep by (simp add: store_event_step_def)
qed

lemma run_simulates:
  assumes "\<And>t d. env_add E t d = Some (t + d)" "embeds s" "simulates T s m"
    "sorted_wrt (\<le>) (map fst evs)" "\<forall>te \<in> set evs. T \<le> fst te" "\<forall>te \<in> set evs. fst te \<le> T'" "T \<le> T'"
  shows "simulates T' (fold (store_event_step E) evs s) (fold (spec_event (mst_ttl_config s)) evs m)"
  using assms(2-)
proof (induction evs arbitrary: s m T)
  case Nil
  then show ?case by (simp add: simulates_later)
next
  case (Cons te evs)
  obtain t ev where te: "te = (t, ev)" by (cases te)
  have "simulates t s m" using Cons.prems te by (auto intro: simulates_later)
  then have "simulates t (store_event_step E te s) (spec_event (mst_ttl_config s) te m)"
    unfolding te using assms(1) Cons.prems(1) by (rule event_simulates)
  moreover have "embeds (store_event_step E te s)" using Cons.prems(1) by (simp add: embeds_def event_config)
  ultimately show ?case
    using Cons.IH [of "store_event_step E te s" t "spec_event (mst_ttl_config s) te m"] Cons.prems te
    by (simp add: event_config)
qed

section \<open>Search\<close>

lemma gather_items:
  "map si_item (gather fsqrt now q qe s) =
     concat (map (\<lambda>(ns, m). if starts_with (sq_namespace_prefix q) ns then filter (item_matches now q) (map snd m) else []) (mst_data s))"
  unfolding gather_def map_concat by (rule arg_cong [of _ _ concat]) (auto simp: comp_def)

lemma gather_set:
  assumes "store_wf s"
  shows "set (map si_item (gather fsqrt now q qe s)) =
    {it. \<exists>ns key. lookup_item s ns key = Some it \<and> starts_with (sq_namespace_prefix q) ns \<and> item_matches now q it}"
  by (force simp: gather_items lookup_item_iff [OF assms] split: if_splits)

definition item_id :: "item \<Rightarrow> string \<times> string" where
  "item_id it = (it_namespace it, it_key it)"

lemma map_item_id: "items_named ns m \<Longrightarrow> map (item_id \<circ> snd) m = map (Pair ns) (im_keys m)"
  by (auto simp: items_named_def item_id_def im_keys_def)

lemma gather_distinct:
  assumes "store_wf s"
  shows "distinct (map item_id (map si_item (gather fsqrt now q qe s)))"
proof -
  have "distinct (concat (map (\<lambda>(ns, m). map item_id (if starts_with p ns then filter P (map snd m) else [])) data))"
    if "im_wf data" "\<forall>p \<in> set data. items_named (fst p) (snd p)" for data and p :: string and P
    using that
  proof (induction data)
    case (Cons x data)
    obtain ns m where x: "x = (ns, m)" by (cases x)
    have "items_named ns m" using Cons.prems x by simp
    then have "distinct (map (item_id \<circ> snd) m)"
      unfolding map_item_id [OF \<open>items_named ns m\<close>] by (simp add: distinct_map inj_on_def items_named_def)
    then have "distinct (map item_id (filter P (map snd m)))" by (simp add: distinct_map_filter)
    moreover have "item_id it \<noteq> item_id it'"
      if "(ns', m') \<in> set data" "it' \<in> snd ` set m'" "it \<in> snd ` set m" for ns' m' it it'
      using that Cons.prems x by (auto simp: items_named_def item_id_def im_keys_def) (metis fst_conv image_eqI snd_conv)
    ultimately show ?case
      using Cons x by (auto simp: image_iff split: if_splits) (metis snd_conv)+
  qed simp
  from this [of "mst_data s" "sq_namespace_prefix q" "item_matches now q"] assms show ?thesis
    by (simp add: store_wf_def gather_items map_concat comp_def case_prod_unfold)
qed

lemma score_cmp_le: "score_cmp a b \<noteq> Greater \<longleftrightarrow> (case (a, b) of (None, _) \<Rightarrow> True | (Some _, None) \<Rightarrow> False | (Some x, Some y) \<Rightarrow> x \<le> y)"
  by (cases a; cases b) auto

lemma rank_sorted: "qe \<noteq> None \<Longrightarrow> sorted_wrt (\<lambda>a b. score_cmp (si_score b) (si_score a) \<noteq> Greater) (rank qe items)"
  unfolding rank_def
  by (simp only: if_True not_False_eq_True, rule sort_by_sorted)
    (auto simp: score_cmp_le split: option.splits)

lemma rank_mset [simp]: "mset (rank qe items) = mset items"
  by (simp add: rank_def)

lemma paginate_Some:
  "min (sq_offset q) (length items) + sq_limit q \<le> u64_max \<Longrightarrow>
     paginate q items = Some (take (sq_limit q) (drop (sq_offset q) items))"
  by (cases "sq_offset q \<le> length items") (auto simp: paginate_def Let_def min_def)

lemma pages_concat: "concat (map (\<lambda>i. take l (drop (i * l) xs)) [0..<n]) = take (n * l) xs"
proof (induction n)
  case (Suc n)
  have "take (n * l) xs @ take l (drop (n * l) xs) = take (n * l + l) xs" by (simp add: take_add)
  with Suc show ?case by (simp add: add.commute)
qed simp

section \<open>Similarity\<close>

lemma cauchy_schwarz_list:
  fixes xs ys :: "rat list"
  shows "(sum_list (map2 (*) xs ys))\<^sup>2 \<le> sum_list (map (\<lambda>x. x * x) xs) * sum_list (map (\<lambda>x. x * x) ys)"
proof -
  have nonneg: "0 \<le> sum_list (map (\<lambda>x. x * x) zs)" for zs :: "rat list" by (induction zs) auto
  show ?thesis
  proof (induction xs ys rule: list_induct2')
    case (4 x xs y ys)
    let ?a = "sum_list (map2 (*) xs ys)" and ?b = "sum_list (map (\<lambda>x. x * x) xs)" and ?c = "sum_list (map (\<lambda>x. x * x) ys)"
    have b: "0 \<le> ?b" and c: "0 \<le> ?c" by (rule nonneg)+
    have "(2 * ?a * x * y)\<^sup>2 = 4 * ?a\<^sup>2 * (x * y)\<^sup>2" by (simp add: power2_eq_square)
    also have "\<dots> \<le> 4 * (?b * ?c) * (x * y)\<^sup>2" using 4 by (intro mult_right_mono mult_left_mono) auto
    also have "\<dots> \<le> (?b * y\<^sup>2 + ?c * x\<^sup>2)\<^sup>2"
    proof -
      have "0 \<le> (?b * y\<^sup>2 - ?c * x\<^sup>2)\<^sup>2" by simp
      also have "\<dots> = (?b * y\<^sup>2 + ?c * x\<^sup>2)\<^sup>2 - 4 * (?b * ?c) * (x * y)\<^sup>2"
        by (simp add: power2_eq_square algebra_simps)
      finally show ?thesis by simp
    qed
    finally have "2 * ?a * x * y \<le> ?b * y\<^sup>2 + ?c * x\<^sup>2"
      using b c by (intro power2_le_imp_le [of "2 * ?a * x * y"]) auto
    with 4 show ?case by (simp add: power2_eq_square algebra_simps)
  qed (auto simp: nonneg)
qed

section \<open>Properties\<close>



text \<open>
  A read is not atomic: between finding an expired item and removing it another client may put a fresh
  value under the same key, and the removal then discards the fresh value.
\<close>

theorem get_race_loses_put:
  assumes "lookup_item s ns key = Some it" and "is_expired t it" and "store_put r add t ns key v ix s = Some (s', Ok ())"
  shows "get_check t ns key s = GetExpired \<and>
     (\<exists>s''. get_finish add t' (get_check t ns key s) ns key s' = Some (s'', None) \<and> lookup_item s'' ns key = None)"
  using assms lookup_delete [of ns key s' ns key]
  by (simp add: get_check_def get_finish_def store_delete_def)



text \<open>
  A sweep removes only expired items and at most \<open>sweep_max_items\<close> of them, except that a limit
  of zero still allows one; when it removes fewer than the limit, no expired item is left.
\<close>

theorem sweep_exact:
  assumes "store_wf s" and "sweep_expired_items now s = (s', n)"
  shows "n \<le> max 1 (sweep_max_items (mst_ttl_config s)) \<and>
     (\<forall>ns key. lookup_item s' ns key = lookup_item s ns key \<or>
        (lookup_item s' ns key = None \<and> (\<exists>it. lookup_item s ns key = Some it \<and> is_expired now it))) \<and>
     (n < sweep_max_items (mst_ttl_config s) \<longrightarrow> (\<forall>ns key it. lookup_item s' ns key = Some it \<longrightarrow> \<not> is_expired now it))"
proof -
  let ?mx = "sweep_max_items (mst_ttl_config s)"
  let ?ks = "sweep_collect now ?mx (mst_data s) []"
  have s': "s' = fold (\<lambda>(ns, key). store_delete ns key) ?ks s" and n: "n = length ?ks"
    using assms(2) by (auto simp: sweep_expired_items_def Let_def)
  have "n \<le> max 1 ?mx" unfolding n by (rule sweep_collect_bound) simp
  moreover have "lookup_item s' ns key = lookup_item s ns key \<or>
      (lookup_item s' ns key = None \<and> (\<exists>it. lookup_item s ns key = Some it \<and> is_expired now it))" for ns key
    using swept_gone [OF assms(1), of "(ns, key)"] by (auto simp: s' lookup_deletes)
  moreover have "\<not> is_expired now it" if "n < ?mx" "lookup_item s' ns key = Some it" for ns key it
    using that sweep_collect_complete [of now ?mx "mst_data s" "[]"] n
    by (auto simp: s' lookup_deletes lookup_item_iff [OF assms(1)] split: if_splits)
  ultimately show ?thesis by blast
qed

text \<open>
  When the square roots of the two squared norms are exact, the similarity of two vectors lies between
  minus one and one.
\<close>

theorem cosine_bounded:
  fixes a b :: "rat list"
  defines "sq \<equiv> \<lambda>v. sum_list (map (\<lambda>x. x * x) (take (min (length a) (length b)) v))"
  assumes "0 \<le> fsqrt (sq a)" and "(fsqrt (sq a))\<^sup>2 = sq a" and "0 \<le> fsqrt (sq b)" and "(fsqrt (sq b))\<^sup>2 = sq b"
  shows "\<bar>cosine_similarity fsqrt a b\<bar> \<le> 1"
proof -
  let ?n = "min (length a) (length b)"
  let ?d = "sum_list (map2 (*) (take ?n a) (take ?n b))"
  have "?d\<^sup>2 \<le> (fsqrt (sq a) * fsqrt (sq b))\<^sup>2"
    using cauchy_schwarz_list [of "take ?n a" "take ?n b"] assms(3,5) by (simp add: power_mult_distrib sq_def)
  moreover have nn: "0 \<le> fsqrt (sq a) * fsqrt (sq b)" using assms(2,4) by simp
  ultimately have "\<bar>?d\<bar> \<le> fsqrt (sq a) * fsqrt (sq b)" by (simp add: power2_le_iff_abs_le)
  moreover have "cosine_similarity fsqrt a b = (if ?n = 0 \<or> fsqrt (sq a) = 0 \<or> fsqrt (sq b) = 0 then 0 else ?d / (fsqrt (sq a) * fsqrt (sq b)))"
    by (simp add: cosine_similarity_def Let_def sq_def)
  ultimately show ?thesis using nn assms(2,4) by (auto simp: divide_le_eq abs_mult)
qed

end
