(* ===== verification/Store_Sql.thy ===== *)
theory Store_Sql
  imports Store
begin

text \<open>
  \<open>juncture-core/src/store.rs\<close>, the SQL-backed stores: translation of filters to SQL text with bind
  parameters, placeholder numbering, the vector codec, and the processing of the rows a search gets back.  The
  database itself is a parameter: the answers to a query, or an error message.
\<close>

unbundle bit_operations_syntax

section \<open>Filters as SQL\<close>

abbreviation quote :: string where
  "quote \<equiv> [CHR 0x27]"

definition sqlite_path :: "string \<Rightarrow> string" where
  "sqlite_path field = ''json_extract(value, '' @ quote @ ''$.'' @ field @ quote @ '')''"

definition sqlite_real :: "string \<Rightarrow> string \<Rightarrow> string" where
  "sqlite_real field rel = ''CAST('' @ sqlite_path field @ '' AS REAL) '' @ rel @ '' CAST(? AS REAL)''"

definition paren :: "string \<Rightarrow> string" where
  "paren c = ''('' @ c @ '')''"

fun filter_to_sql_sqlite :: "filter_expr \<Rightarrow> string \<times> json list" where
  "filter_to_sql_sqlite (FEq f v) = (sqlite_path f @ '' = ?'', [v])"
| "filter_to_sql_sqlite (FNe f v) = (sqlite_path f @ '' != ?'', [v])"
| "filter_to_sql_sqlite (FGt f v) = (sqlite_real f ''>'', [v])"
| "filter_to_sql_sqlite (FGte f v) = (sqlite_real f ''>='', [v])"
| "filter_to_sql_sqlite (FLt f v) = (sqlite_real f ''<'', [v])"
| "filter_to_sql_sqlite (FLte f v) = (sqlite_real f ''<='', [v])"
| "filter_to_sql_sqlite (FAnd es) =
     (join_with '' AND '' (map (\<lambda>e. paren (fst (filter_to_sql_sqlite e))) es), concat (map (\<lambda>e. snd (filter_to_sql_sqlite e)) es))"
| "filter_to_sql_sqlite (FOr es) =
     (join_with '' OR '' (map (\<lambda>e. paren (fst (filter_to_sql_sqlite e))) es), concat (map (\<lambda>e. snd (filter_to_sql_sqlite e)) es))"
| "filter_to_sql_sqlite (FNot e) = (''NOT '' @ paren (fst (filter_to_sql_sqlite e)), snd (filter_to_sql_sqlite e))"

definition pg_path :: "string \<Rightarrow> string" where
  "pg_path field = quote @ ''{'' @ join_with '','' (split_on CHR ''.'' field) @ ''}'' @ quote"

definition pg_text :: "string \<Rightarrow> string \<Rightarrow> string" where
  "pg_text field rel = ''value #>> '' @ pg_path field @ '' '' @ rel @ '' ?''"

definition pg_numeric :: "string \<Rightarrow> string \<Rightarrow> string" where
  "pg_numeric field rel = ''(value #> '' @ pg_path field @ '')::numeric '' @ rel @ '' CAST(? AS numeric)''"

fun filter_to_sql_postgres :: "filter_expr \<Rightarrow> string \<times> json list" where
  "filter_to_sql_postgres (FEq f v) = (pg_text f ''='', [v])"
| "filter_to_sql_postgres (FNe f v) = (pg_text f ''!='', [v])"
| "filter_to_sql_postgres (FGt f v) = (pg_numeric f ''>'', [v])"
| "filter_to_sql_postgres (FGte f v) = (pg_numeric f ''>='', [v])"
| "filter_to_sql_postgres (FLt f v) = (pg_numeric f ''<'', [v])"
| "filter_to_sql_postgres (FLte f v) = (pg_numeric f ''<='', [v])"
| "filter_to_sql_postgres (FAnd es) =
     (join_with '' AND '' (map (\<lambda>e. paren (fst (filter_to_sql_postgres e))) es), concat (map (\<lambda>e. snd (filter_to_sql_postgres e)) es))"
| "filter_to_sql_postgres (FOr es) =
     (join_with '' OR '' (map (\<lambda>e. paren (fst (filter_to_sql_postgres e))) es), concat (map (\<lambda>e. snd (filter_to_sql_postgres e)) es))"
| "filter_to_sql_postgres (FNot e) = (''NOT '' @ paren (fst (filter_to_sql_postgres e)), snd (filter_to_sql_postgres e))"

text \<open>The loop that turns each \<open>?\<close> into the next numbered placeholder.\<close>

fun renumber :: "nat \<Rightarrow> string \<Rightarrow> string \<times> nat" where
  "renumber i [] = ([], i)"
| "renumber i (c # cs) =
     (if c = CHR ''?'' then (case renumber (i + 1) cs of (r, j) \<Rightarrow> (''$'' @ nat_to_string i @ r, j))
      else (case renumber i cs of (r, j) \<Rightarrow> (c # r, j)))"

definition sqlite_param_from_value :: "(json \<Rightarrow> string) \<Rightarrow> json \<Rightarrow> string" where
  "sqlite_param_from_value render v = (case v of
       JBool True \<Rightarrow> ''1'' | JBool False \<Rightarrow> ''0'' | JStr s \<Rightarrow> s | _ \<Rightarrow> render v)"

definition select_items :: "string \<Rightarrow> string" where
  "select_items where_clause =
     ''SELECT namespace, key, value, created_at, updated_at FROM store_items WHERE '' @ where_clause @ '' ORDER BY namespace, key''"

definition sqlite_search_sql :: "(json \<Rightarrow> string) \<Rightarrow> search_query \<Rightarrow> string \<times> string list" where
  "sqlite_search_sql render q = (case sq_filter q of
       None \<Rightarrow> (select_items ''namespace LIKE ?'', [sq_namespace_prefix q @ ''%''])
     | Some f \<Rightarrow> (case filter_to_sql_sqlite f of (clause, ps) \<Rightarrow>
         (select_items (join_with '' AND '' [''namespace LIKE ?'', paren clause]),
          (sq_namespace_prefix q @ ''%'') # map (sqlite_param_from_value render) ps)))"

definition postgres_search_sql :: "(json \<Rightarrow> string) \<Rightarrow> search_query \<Rightarrow> string \<times> string list" where
  "postgres_search_sql render q = (case sq_filter q of
       None \<Rightarrow> (select_items ''namespace LIKE $1'', [sq_namespace_prefix q @ ''%''])
     | Some f \<Rightarrow> (case filter_to_sql_postgres f of (clause, ps) \<Rightarrow>
         (select_items (join_with '' AND '' [''namespace LIKE $1'', paren (fst (renumber 2 clause))]),
          (sq_namespace_prefix q @ ''%'') # map render ps)))"

section \<open>Listing namespaces\<close>

definition limit_offset :: "nat option \<Rightarrow> nat option \<Rightarrow> string" where
  "limit_offset limit offset =
     (case limit of Some l \<Rightarrow> '' LIMIT '' @ nat_to_string l | None \<Rightarrow> []) @
     (case offset of Some k \<Rightarrow> '' OFFSET '' @ nat_to_string k | None \<Rightarrow> [])"

definition sqlite_list_sql :: "string option \<Rightarrow> string option \<Rightarrow> nat option \<Rightarrow> nat option \<Rightarrow> string \<times> string list" where
  "sqlite_list_sql prefix suffix limit offset =
     (''SELECT DISTINCT namespace FROM store_items WHERE 1=1'' @
      (case prefix of Some _ \<Rightarrow> '' AND namespace LIKE ?'' | None \<Rightarrow> []) @
      (case suffix of Some _ \<Rightarrow> '' AND namespace LIKE ?'' | None \<Rightarrow> []) @ limit_offset limit offset,
      (case prefix of Some p \<Rightarrow> [p @ ''%''] | None \<Rightarrow> []) @ (case suffix of Some p \<Rightarrow> [''%'' @ p] | None \<Rightarrow> []))"

definition postgres_list_sql :: "string option \<Rightarrow> string option \<Rightarrow> nat option \<Rightarrow> nat option \<Rightarrow> string \<times> string list" where
  "postgres_list_sql prefix suffix limit offset = (let
     i0 = 1;
     i1 = (if prefix \<noteq> None then i0 + 1 else i0);
     i2 = (if suffix \<noteq> None then i1 + 1 else i1)
     in (''SELECT DISTINCT namespace FROM store_items WHERE 1=1'' @
      (case prefix of Some _ \<Rightarrow> '' AND namespace LIKE $'' @ nat_to_string i1 | None \<Rightarrow> []) @
      (case suffix of Some _ \<Rightarrow> '' AND namespace LIKE $'' @ nat_to_string i2 | None \<Rightarrow> []) @ limit_offset limit offset,
      (case prefix of Some p \<Rightarrow> [p @ ''%''] | None \<Rightarrow> []) @ (case suffix of Some p \<Rightarrow> [''%'' @ p] | None \<Rightarrow> [])))"

text \<open>Truncation to a depth happens after the database applied limit and offset.\<close>

definition sql_list_finish :: "nat option \<Rightarrow> string list \<Rightarrow> string list" where
  "sql_list_finish max_depth namespaces = (case max_depth of
       Some d \<Rightarrow> remdups_adj (sort (map (truncate_namespace d) namespaces)) | None \<Rightarrow> namespaces)"

section \<open>Vectors as bytes\<close>

text \<open>\<open>to_le_bytes\<close> and \<open>from_le_bytes\<close> on the bits of an \<open>f32\<close>.\<close>

definition to_le_bytes :: "32 word \<Rightarrow> 8 word list" where
  "to_le_bytes w = [ucast w, ucast (drop_bit 8 w), ucast (drop_bit 16 w), ucast (drop_bit 24 w)]"

fun from_le_bytes :: "8 word list \<Rightarrow> 32 word" where
  "from_le_bytes [b0, b1, b2, b3] = ucast b0 OR push_bit 8 (ucast b1) OR push_bit 16 (ucast b2) OR push_bit 24 (ucast b3)"
| "from_le_bytes _ = 0"

fun chunks4 :: "'a list \<Rightarrow> 'a list list" where
  "chunks4 (a # b # c # d # r) = [a, b, c, d] # chunks4 r"
| "chunks4 _ = []"

definition vector_to_blob :: "32 word list \<Rightarrow> 8 word list" where
  "vector_to_blob v = concat (map to_le_bytes v)"

definition blob_to_vector :: "8 word list \<Rightarrow> (store_error, 32 word list) result" where
  "blob_to_vector bs = (if length bs mod 4 \<noteq> 0 then Err (VectorSearchError ''Invalid BLOB length for vector data'')
     else Ok (map from_le_bytes (chunks4 bs)))"

definition vector_to_bytea :: "32 word list \<Rightarrow> 8 word list" where
  "vector_to_bytea v = concat (map to_le_bytes v)"

definition bytea_to_vector :: "8 word list \<Rightarrow> (store_error, 32 word list) result" where
  "bytea_to_vector bs = (if length bs mod 4 \<noteq> 0 then Err (VectorSearchError ''Invalid BYTEA length for vector data'')
     else Ok (map from_le_bytes (chunks4 bs)))"

section \<open>Rows\<close>

record sql_row =
  row_namespace :: string
  row_key :: string
  row_value :: string
  row_created_at :: string
  row_updated_at :: string

text \<open>
  The answers of the database and the parsers of \<open>serde_json\<close> and \<open>chrono\<close>; \<open>Inl\<close> carries the text of the error.
  \<open>sdb_float\<close> reads the bits of an \<open>f32\<close>.
\<close>

record sqlite_db =
  sdb_rows :: "string \<Rightarrow> string list \<Rightarrow> (string, sql_row list) result"
  sdb_vector :: "string \<Rightarrow> string \<Rightarrow> (string, 8 word list option) result"
  sdb_json :: "string \<Rightarrow> (string, json) result"
  sdb_time :: "string \<Rightarrow> (string, nat) result"
  sdb_float :: "32 word \<Rightarrow> rat"

definition map_err :: "('e \<Rightarrow> 'f) \<Rightarrow> ('e, 'a) result \<Rightarrow> ('f, 'a) result" where
  "map_err f r = (case r of Inl e \<Rightarrow> Inl (f e) | Inr v \<Rightarrow> Inr v)"

definition load_embedding :: "sqlite_db \<Rightarrow> bool \<Rightarrow> string \<Rightarrow> string \<Rightarrow> (store_error, rat list option) result" where
  "load_embedding db wanted ns key = (if \<not> wanted then Ok None
     else try_bind (map_err (\<lambda>e. StorageError (''Failed to load embedding: '' @ e)) (sdb_vector db ns key)) (\<lambda>bs.
       case bs of None \<Rightarrow> Ok None
         | Some b \<Rightarrow> try_bind (blob_to_vector b) (\<lambda>v. Ok (Some (map (sdb_float db) v)))))"

definition parse_time :: "sqlite_db \<Rightarrow> string \<Rightarrow> (store_error, nat) result" where
  "parse_time db s = map_err (\<lambda>e. StorageError (''invalid timestamp: '' @ e)) (sdb_time db s)"

definition row_item :: "sqlite_db \<Rightarrow> bool \<Rightarrow> sql_row \<Rightarrow> (store_error, item) result" where
  "row_item db wanted row =
     try_bind (map_err SerializeError (sdb_json db (row_value row))) (\<lambda>v.
     try_bind (load_embedding db wanted (row_namespace row) (row_key row)) (\<lambda>emb.
     try_bind (parse_time db (row_created_at row)) (\<lambda>c.
     try_bind (parse_time db (row_updated_at row)) (\<lambda>u.
     Ok \<lparr>it_namespace = row_namespace row, it_key = row_key row, it_value = v, it_created_at = c, it_updated_at = u,
         it_expires_at = None, it_embedding = emb\<rparr>))))"

fun rows_items :: "sqlite_db \<Rightarrow> bool \<Rightarrow> sql_row list \<Rightarrow> (store_error, item list) result" where
  "rows_items db wanted [] = Ok []"
| "rows_items db wanted (r # rs) = try_bind (row_item db wanted r) (\<lambda>it. try_bind (rows_items db wanted rs) (\<lambda>its. Ok (it # its)))"

definition sqlite_search ::
    "(rat \<Rightarrow> rat) \<Rightarrow> (json \<Rightarrow> string) \<Rightarrow> index_config option \<Rightarrow> sqlite_db option \<Rightarrow> search_query \<Rightarrow> (store_error, search_result) result option" where
  "sqlite_search fsqrt render ixc pool q = (case pool of
       None \<Rightarrow> Some (Err (StorageError ''Store not initialized''))
     | Some db \<Rightarrow> (case query_embedding ixc q of
         Inl e \<Rightarrow> Some (Err e)
       | Inr qe \<Rightarrow> (case map_err (\<lambda>e. StorageError (''Search query failed: '' @ e)) (case sqlite_search_sql render q of (sql, ps) \<Rightarrow> sdb_rows db sql ps) of
           Inl e \<Rightarrow> Some (Err e)
         | Inr rows \<Rightarrow> (case rows_items db (qe \<noteq> None) rows of
             Inl e \<Rightarrow> Some (Err e)
           | Inr its \<Rightarrow> (let hits = map (\<lambda>it. \<lparr>si_item = it, si_score = score_of fsqrt qe it\<rparr>) its in
               map_option (\<lambda>page. Ok \<lparr>res_items = page, res_total_count = length hits\<rparr>) (paginate q (rank qe hits)))))))"

section \<open>Placeholders\<close>

fun filter_fields :: "filter_expr \<Rightarrow> string list" where
  "filter_fields (FEq f _) = [f]"
| "filter_fields (FNe f _) = [f]"
| "filter_fields (FGt f _) = [f]"
| "filter_fields (FGte f _) = [f]"
| "filter_fields (FLt f _) = [f]"
| "filter_fields (FLte f _) = [f]"
| "filter_fields (FAnd es) = concat (map filter_fields es)"
| "filter_fields (FOr es) = concat (map filter_fields es)"
| "filter_fields (FNot e) = filter_fields e"

abbreviation marks :: "string \<Rightarrow> nat" where
  "marks s \<equiv> count_list s CHR ''?''"

lemma marks_append [simp]: "marks (a @ b) = marks a + marks b"
  by (induction a) auto

lemma marks_join: "marks sep = 0 \<Longrightarrow> marks (join_with sep xs) = sum_list (map marks xs)"
  by (induction sep xs rule: join_with.induct) auto

lemma marks_0 [simp]: "marks s = 0 \<longleftrightarrow> CHR ''?'' \<notin> set s"
  by (simp add: count_list_0_iff)

lemma set_join_subset: "set (join_with sep xs) \<subseteq> set sep \<union> \<Union> (set ` set xs)"
  by (induction sep xs rule: join_with.induct) auto

lemma set_split_on: "p \<in> set (split_on c s) \<Longrightarrow> set p \<subseteq> set s"
  by (induction s arbitrary: p) (fastforce split: list.splits if_splits)+

lemma marks_path: "CHR ''?'' \<notin> set f \<Longrightarrow> CHR ''?'' \<notin> set (join_with '','' (split_on CHR ''.'' f))"
  using set_join_subset [of "'',''" "split_on CHR ''.'' f"] set_split_on [of _ "CHR ''.''" f] by fastforce

lemma marks_paren [simp]: "marks (paren c) = marks c"
  by (simp add: paren_def)

lemma marks_clauses:
  assumes "\<forall>e \<in> set es. marks (fst (g e)) = length (snd (g e))" and "CHR ''?'' \<notin> set sep"
  shows "marks (join_with sep (map (\<lambda>e. paren (fst (g e))) es)) = length (concat (map (\<lambda>e. snd (g e)) es))"
proof -
  have "marks (paren (fst (g e))) = length (snd (g e))" if "e \<in> set es" for e
    using assms(1) that by simp
  then have "map (\<lambda>e. marks (paren (fst (g e)))) es = map (\<lambda>e. length (snd (g e))) es" by simp
  then show ?thesis using assms(2) by (simp add: marks_join length_concat comp_def del: map_eq_conv)
qed

lemma sqlite_marks:
  "\<forall>f \<in> set (filter_fields e). CHR ''?'' \<notin> set f \<Longrightarrow> marks (fst (filter_to_sql_sqlite e)) = length (snd (filter_to_sql_sqlite e))"
  by (induction e rule: filter_to_sql_sqlite.induct)
    (simp_all add: marks_clauses sqlite_path_def sqlite_real_def count_list_0_iff)

lemma postgres_marks:
  "\<forall>f \<in> set (filter_fields e). CHR ''?'' \<notin> set f \<Longrightarrow> marks (fst (filter_to_sql_postgres e)) = length (snd (filter_to_sql_postgres e))"
  by (induction e rule: filter_to_sql_postgres.induct)
    (simp_all add: marks_clauses pg_path_def pg_text_def pg_numeric_def count_list_0_iff marks_path)

lemma same_params: "snd (filter_to_sql_postgres e) = snd (filter_to_sql_sqlite e)"
  by (induction e rule: filter_to_sql_postgres.induct) (auto intro!: arg_cong [of _ _ concat])

text \<open>Text with the pieces between placeholders joined by consecutively numbered ones.\<close>

fun number_pieces :: "nat \<Rightarrow> string list \<Rightarrow> string" where
  "number_pieces i [] = []"
| "number_pieces i [p] = p"
| "number_pieces i (p # q # ps) = p @ ''$'' @ nat_to_string i @ number_pieces (i + 1) (q # ps)"

lemma number_pieces_Cons: "ps \<noteq> [] \<Longrightarrow> number_pieces i (p # ps) = p @ ''$'' @ nat_to_string i @ number_pieces (i + 1) ps"
  by (cases ps) auto

lemma renumber_pieces: "renumber i s = (number_pieces i (split_on CHR ''?'' s), i + marks s)"
proof (induction s arbitrary: i)
  case (Cons c s)
  obtain p ps where sp: "split_on CHR ''?'' s = p # ps" by (cases "split_on CHR ''?'' s") auto
  then show ?case using Cons by (cases ps) (auto simp: number_pieces_Cons)
qed simp

lemma length_split_on: "length (split_on c s) = Suc (count_list s c)"
  by (induction s) (auto split: list.splits)

section \<open>Vectors\<close>

lemma le_bytes_roundtrip [simp]: "from_le_bytes (to_le_bytes w) = w"
  unfolding to_le_bytes_def from_le_bytes.simps
proof (rule bit_word_eqI)
  fix n assume "n < LENGTH(32)"
  then consider "n < 8" | "8 \<le> n" "n < 16" | "16 \<le> n" "n < 24" | "24 \<le> n" "n < 32" by fastforce
  then show "bit ((ucast (ucast w :: 8 word) :: 32 word) OR push_bit 8 (ucast (ucast (drop_bit 8 w) :: 8 word) :: 32 word) OR
      push_bit 16 (ucast (ucast (drop_bit 16 w) :: 8 word) :: 32 word) OR push_bit 24 (ucast (ucast (drop_bit 24 w) :: 8 word) :: 32 word)) n = bit w n"
    by cases (auto simp: bit_simps)
qed

lemma chunks4_le_bytes: "chunks4 (to_le_bytes w @ bs) = to_le_bytes w # chunks4 bs"
  by (simp add: to_le_bytes_def)

lemma vector_bytes: "map from_le_bytes (chunks4 (concat (map to_le_bytes v))) = v \<and> length (concat (map to_le_bytes v)) mod 4 = 0"
proof (induction v)
  case (Cons w v)
  have "length (to_le_bytes w) = 4" by (simp add: to_le_bytes_def)
  with Cons show ?case by (simp add: chunks4_le_bytes)
qed simp

section \<open>Properties\<close>

text \<open>
  A vector written to either database reads back unchanged, and bytes whose number is not a multiple of
  four are rejected.
\<close>

theorem vector_blob_roundtrip:
  "blob_to_vector (vector_to_blob v) = Ok v \<and> bytea_to_vector (vector_to_bytea v) = Ok v \<and>
   (is_Ok (blob_to_vector bs) \<longleftrightarrow> 4 dvd length bs) \<and> (is_Ok (bytea_to_vector bs) \<longleftrightarrow> 4 dvd length bs)"
  using vector_bytes [of v]
  by (simp add: blob_to_vector_def bytea_to_vector_def vector_to_blob_def vector_to_bytea_def is_Ok_def dvd_eq_mod_eq_0)

text \<open>
  For a filter whose field names contain no question mark, both SQL translations have exactly one
  placeholder per bind parameter, in the same order of parameters; for Postgres the search numbers them
  consecutively from two on, right after the namespace pattern.
\<close>

theorem sql_placeholders_match:
  assumes "\<forall>f \<in> set (filter_fields e). CHR ''?'' \<notin> set f" and "sq_filter q = Some e"
  shows "count_list (fst (filter_to_sql_sqlite e)) CHR ''?'' = length (snd (filter_to_sql_sqlite e)) \<and>
     snd (filter_to_sql_postgres e) = snd (filter_to_sql_sqlite e) \<and>
     (\<exists>pieces. length pieces = length (snd (postgres_search_sql render q)) \<and>
        fst (postgres_search_sql render q) = select_items (''namespace LIKE $1 AND ('' @ number_pieces 2 pieces @ '')''))"
proof -
  let ?c = "fst (filter_to_sql_postgres e)"
  have "length (split_on CHR ''?'' ?c) = length (snd (postgres_search_sql render q))"
    using postgres_marks [OF assms(1)]
    by (simp add: length_split_on postgres_search_sql_def assms(2) case_prod_beta)
  moreover have "fst (postgres_search_sql render q) = select_items (''namespace LIKE $1 AND ('' @ number_pieces 2 (split_on CHR ''?'' ?c) @ '')'')"
    by (simp add: postgres_search_sql_def assms(2) case_prod_beta renumber_pieces paren_def)
  ultimately show ?thesis
    using sqlite_marks [OF assms(1)] same_params [of e] by blast
qed

theorem sql_placeholders_match_witness:
  "count_list (fst (filter_to_sql_sqlite (FAnd [FEq ''a'' JNull, FNot (FGt ''b.c'' (JNum 1))]))) CHR ''?'' = 2"
  using sql_placeholders_match [of "FAnd [FEq ''a'' JNull, FNot (FGt ''b.c'' (JNum 1))]"
      "search_query_default\<lparr>sq_filter := Some (FAnd [FEq ''a'' JNull, FNot (FGt ''b.c'' (JNum 1))])\<rparr>"]
  by simp

text \<open>
  Listing namespaces on Postgres numbers its placeholders from two, while the first bound value is number
  one: a query with a prefix asks for a parameter that is not there.
\<close>

theorem postgres_list_misnumbered:
  "\<exists>rest. postgres_list_sql (Some p) None l k =
     (''SELECT DISTINCT namespace FROM store_items WHERE 1=1 AND namespace LIKE $2'' @ rest, [p @ ''%''])"
proof -
  have "nat_to_string 2 = ''2''" by code_simp
  then show ?thesis by (simp add: postgres_list_sql_def Let_def numeral_2_eq_2)
qed

text \<open>
  Given the rows the database answers with, a SQL search ranks and pages the decoded items exactly as the
  in-memory search does; a row that does not decode fails the search with that row's error.
\<close>

theorem sql_search_pages:
  assumes "query_embedding ixc q = Ok qe" and "sdb_rows db (fst (sqlite_search_sql render q)) (snd (sqlite_search_sql render q)) = Ok rows"
    and "sq_offset q + sq_limit q \<le> u64_max"
  shows "sqlite_search fsqrt render ixc (Some db) q = (case rows_items db (qe \<noteq> None) rows of
      Inl e \<Rightarrow> Some (Err e)
    | Inr its \<Rightarrow> Some (Ok \<lparr>res_items = take (sq_limit q) (drop (sq_offset q)
          (rank qe (map (\<lambda>it. \<lparr>si_item = it, si_score = score_of fsqrt qe it\<rparr>) its))), res_total_count = length rows\<rparr>)) \<and>
     (\<forall>its. rows_items db (qe \<noteq> None) rows = Ok its \<longrightarrow> map item_id its = map (\<lambda>r. (row_namespace r, row_key r)) rows)"
proof -
  have ids: "rows_items db w rows = Ok its \<Longrightarrow> map item_id its = map (\<lambda>r. (row_namespace r, row_key r)) rows" for w its rows
  proof (induction rows arbitrary: its)
    case (Cons r rows)
    from Cons.prems show ?case
      by (auto dest!: try_bind_OkD Cons.IH simp: row_item_def item_id_def)
  qed simp
  have len: "length its = length rows" if "rows_items db w rows = Ok its" for w its
    using arg_cong [OF ids [OF that], of length] by simp
  show ?thesis
    using assms ids by (auto simp: sqlite_search_def map_err_def case_prod_beta Let_def paginate_Some len split: sum.splits)
qed

end
