(* ===== verification/Store_Db.thy ===== *)
theory Store_Db
  imports Store_Sql
begin

text \<open>
  \<open>juncture-core/src/store.rs\<close>, the operations of \<open>SqliteStore\<close> and \<open>PostgresStore\<close> on the tables \<open>store_items\<close> and
  \<open>store_vectors\<close>: reading, writing, deleting, searching, listing and batches.  The tables are part of the model; how the
  database evaluates a query text, which statements fail and how values and times are written to cells are parameters.
  The locale \<open>point_store\<close> says what reading, writing and deleting single items promise; it is interpreted on the
  store in memory and on both database stores, which gives their agreement.
\<close>

section \<open>Tables\<close>

record ('v, 't) item_row =
  ir_value :: 'v
  ir_created_at :: 't
  ir_updated_at :: 't

record ('v, 't) store_tables =
  store_items :: "(string \<times> string, ('v, 't) item_row) imap"
  store_vectors :: "((string \<times> string) \<times> string, 8 word list) imap"

text \<open>\<open>INSERT \<dots> ON CONFLICT DO UPDATE\<close> keeps the creation time of a row that is there.\<close>

definition upsert_item :: "string \<times> string \<Rightarrow> 'v \<Rightarrow> 't \<Rightarrow> ('v, 't) store_tables \<Rightarrow> ('v, 't) store_tables" where
  "upsert_item k v now T = T\<lparr>store_items := im_insert k
     (case im_get (store_items T) k of
        Some r \<Rightarrow> r\<lparr>ir_value := v, ir_updated_at := now\<rparr>
      | None \<Rightarrow> \<lparr>ir_value = v, ir_created_at = now, ir_updated_at = now\<rparr>) (store_items T)\<rparr>"

definition upsert_vector :: "string \<times> string \<Rightarrow> 8 word list \<Rightarrow> ('v, 't) store_tables \<Rightarrow> ('v, 't) store_tables" where
  "upsert_vector k bytes T = T\<lparr>store_vectors := im_insert (k, ''default'') bytes (store_vectors T)\<rparr>"

text \<open>The first row of a key, whatever its field.\<close>

definition select_vector :: "string \<times> string \<Rightarrow> ('v, 't) store_tables \<Rightarrow> 8 word list option" where
  "select_vector k T = map_option snd (find (\<lambda>p. fst (fst p) = k) (store_vectors T))"

text \<open>The foreign key of \<open>store_vectors\<close> cascades when the connection enforces foreign keys.\<close>

definition delete_item :: "bool \<Rightarrow> string \<times> string \<Rightarrow> ('v, 't) store_tables \<Rightarrow> ('v, 't) store_tables" where
  "delete_item foreign_keys k T = T\<lparr>store_items := im_remove k (store_items T),
     store_vectors := (if foreign_keys then filter (\<lambda>p. fst (fst p) \<noteq> k) (store_vectors T) else store_vectors T)\<rparr>"

text \<open>The failures of the statements of one operation: of the statement on the items, and of the one on the vector of a key.\<close>

record store_faults =
  f_items :: "string option"
  f_vectors :: "string \<times> string \<Rightarrow> string option"

definition no_faults :: store_faults where
  "no_faults = \<lparr>f_items = None, f_vectors = (\<lambda>_. None)\<rparr>"

definition statement :: "string \<Rightarrow> string option \<Rightarrow> (store_error, unit) result" where
  "statement what fault = (case fault of Some e \<Rightarrow> Err (StorageError (what @ e)) | None \<Rightarrow> Ok ())"

abbreviation not_initialized :: "(store_error, 'a) result" where
  "not_initialized \<equiv> Err (StorageError ''Store not initialized'')"

section \<open>Opening\<close>

text \<open>
  Connecting gives the tables the database has already or the text of an error; \<open>f1\<close> and \<open>f2\<close> are failures of the two
  \<open>CREATE TABLE IF NOT EXISTS\<close> statements.  Both stores open in the same way.
\<close>

type_synonym ('v, 't) connection =
  "(string, (string \<times> string, ('v, 't) item_row) imap option \<times> ((string \<times> string) \<times> string, 8 word list) imap option) result"

definition create_table :: "('k, 'r) imap option \<Rightarrow> ('k, 'r) imap" where
  "create_table existing = (case existing of Some rows \<Rightarrow> rows | None \<Rightarrow> [])"

definition open_tables :: "('v, 't) connection \<Rightarrow> string option \<Rightarrow> string option \<Rightarrow> (store_error, ('v, 't) store_tables) result" where
  "open_tables conn f1 f2 =
     try_bind (map_err (\<lambda>e. StorageError (''Failed to connect to database: '' @ e)) conn) (\<lambda>(items, vectors).
     try_bind (statement ''Failed to create table: '' f1) (\<lambda>_.
     try_bind (statement ''Failed to create vectors table: '' f2) (\<lambda>_.
     Ok \<lparr>store_items = create_table items, store_vectors = create_table vectors\<rparr>)))"

section \<open>The SQLite store\<close>

text \<open>
  Values and times are text.  \<open>sb_query\<close> and \<open>sb_distinct\<close> answer a query text with its parameters on the tables.
\<close>

record sqlite_backend =
  sb_write_json :: "json \<Rightarrow> (string, string) result"
  sb_read_json :: "string \<Rightarrow> (string, json) result"
  sb_write_time :: "nat \<Rightarrow> string"
  sb_read_time :: "string \<Rightarrow> (string, nat) result"
  sb_bits :: "rat \<Rightarrow> 32 word"
  sb_float :: "32 word \<Rightarrow> rat"
  sb_sqrt :: "rat \<Rightarrow> rat"
  sb_render :: "json \<Rightarrow> string"
  sb_foreign_keys :: bool
  sb_query :: "(string, string) store_tables \<Rightarrow> string \<Rightarrow> string list \<Rightarrow> (string, sql_row list) result"
  sb_distinct :: "(string, string) store_tables \<Rightarrow> string \<Rightarrow> string list \<Rightarrow> (string, string list) result"

record sqlite_store =
  ss_pool :: "(string, string) store_tables option"
  ss_index_config :: "index_config option"

definition sqlite_new :: "(string, string) connection \<Rightarrow> string option \<Rightarrow> string option \<Rightarrow> (store_error, sqlite_store) result" where
  "sqlite_new conn f1 f2 = try_bind (open_tables conn f1 f2) (\<lambda>T. Ok \<lparr>ss_pool = Some T, ss_index_config = None\<rparr>)"

definition sqlite_with_vector_search ::
    "(string, string) connection \<Rightarrow> string option \<Rightarrow> string option \<Rightarrow> index_config \<Rightarrow> (store_error, sqlite_store) result" where
  "sqlite_with_vector_search conn f1 f2 config = try_bind (sqlite_new conn f1 f2) (\<lambda>st. Ok (st\<lparr>ss_index_config := Some config\<rparr>))"

definition fault_or :: "string option \<Rightarrow> (string, 'a) result \<Rightarrow> (string, 'a) result" where
  "fault_or fault r = (case fault of Some e \<Rightarrow> Inl e | None \<Rightarrow> r)"

text \<open>What an operation sees of the database.\<close>

definition table_db :: "sqlite_backend \<Rightarrow> store_faults \<Rightarrow> (string, string) store_tables \<Rightarrow> sqlite_db" where
  "table_db B flt T = \<lparr>sdb_rows = (\<lambda>sql ps. fault_or (f_items flt) (sb_query B T sql ps)),
     sdb_vector = (\<lambda>ns key. fault_or (f_vectors flt (ns, key)) (Inr (select_vector (ns, key) T))),
     sdb_json = sb_read_json B, sdb_time = sb_read_time B, sdb_float = sb_float B\<rparr>"

definition sqlite_get :: "sqlite_backend \<Rightarrow> store_faults \<Rightarrow> string \<Rightarrow> string \<Rightarrow> sqlite_store \<Rightarrow> (store_error, item option) result" where
  "sqlite_get B flt ns key st = (case ss_pool st of
       None \<Rightarrow> not_initialized
     | Some T \<Rightarrow> try_bind (statement ''Failed to get item: '' (f_items flt)) (\<lambda>_.
         case im_get (store_items T) (ns, key) of
           None \<Rightarrow> Ok None
         | Some r \<Rightarrow> try_bind (row_item (table_db B flt T) (ss_index_config st \<noteq> None)
             \<lparr>row_namespace = ns, row_key = key, row_value = ir_value r, row_created_at = ir_created_at r, row_updated_at = ir_updated_at r\<rparr>)
             (\<lambda>it. Ok (Some it))))"

text \<open>
  The item is written before its vector and outside a transaction: when the second statement fails the first one stays.
\<close>

definition sqlite_put ::
    "sqlite_backend \<Rightarrow> store_faults \<Rightarrow> nat \<Rightarrow> string \<Rightarrow> string \<Rightarrow> json \<Rightarrow> string list option \<Rightarrow> sqlite_store
       \<Rightarrow> sqlite_store \<times> (store_error, unit) result" where
  "sqlite_put B flt now ns key v index st = (case ss_pool st of
       None \<Rightarrow> (st, not_initialized)
     | Some T \<Rightarrow> (case put_embedding (sb_render B) (ss_index_config st) v index of
         Inl e \<Rightarrow> (st, Err e)
       | Inr embedding \<Rightarrow> (case map_err SerializeError (sb_write_json B v) of
           Inl e \<Rightarrow> (st, Err e)
         | Inr value_str \<Rightarrow> (case statement ''Failed to put item: '' (f_items flt) of
             Inl e \<Rightarrow> (st, Err e)
           | Inr _ \<Rightarrow> (let T1 = upsert_item (ns, key) value_str (sb_write_time B now) T; st1 = st\<lparr>ss_pool := Some T1\<rparr> in
               (case embedding of
                  None \<Rightarrow> (st1, Ok ())
                | Some vec \<Rightarrow> (case statement ''Failed to store embedding: '' (f_vectors flt (ns, key)) of
                    Inl e \<Rightarrow> (st1, Err e)
                  | Inr _ \<Rightarrow> (st\<lparr>ss_pool := Some (upsert_vector (ns, key) (vector_to_blob (map (sb_bits B) vec)) T1)\<rparr>, Ok ()))))))))"

definition sqlite_delete ::
    "sqlite_backend \<Rightarrow> store_faults \<Rightarrow> string \<Rightarrow> string \<Rightarrow> sqlite_store \<Rightarrow> sqlite_store \<times> (store_error, unit) result" where
  "sqlite_delete B flt ns key st = (case ss_pool st of
       None \<Rightarrow> (st, not_initialized)
     | Some T \<Rightarrow> (case statement ''Failed to delete item: '' (f_items flt) of
         Inl e \<Rightarrow> (st, Err e)
       | Inr _ \<Rightarrow> (st\<lparr>ss_pool := Some (delete_item (sb_foreign_keys B) (ns, key) T)\<rparr>, Ok ())))"

definition sqlite_list_namespaces ::
    "sqlite_backend \<Rightarrow> store_faults \<Rightarrow> string option \<Rightarrow> string option \<Rightarrow> nat option \<Rightarrow> nat option \<Rightarrow> nat option \<Rightarrow> sqlite_store
       \<Rightarrow> (store_error, string list) result" where
  "sqlite_list_namespaces B flt prefix suffix max_depth limit offset st = (case ss_pool st of
       None \<Rightarrow> not_initialized
     | Some T \<Rightarrow> (case sqlite_list_sql prefix suffix limit offset of (sql, ps) \<Rightarrow>
         try_bind (map_err (\<lambda>e. StorageError (''Failed to list namespaces: '' @ e)) (fault_or (f_items flt) (sb_distinct B T sql ps)))
           (\<lambda>namespaces. Ok (sql_list_finish max_depth namespaces))))"

definition run_sqlite_op ::
    "sqlite_backend \<Rightarrow> store_faults \<Rightarrow> nat \<Rightarrow> store_op \<Rightarrow> sqlite_store \<Rightarrow> (sqlite_store \<times> (store_error, store_result) result) option" where
  "run_sqlite_op B flt now op st = (case op of
       OpGet ns key \<Rightarrow> Some (st, try_bind (sqlite_get B flt ns key st) (\<lambda>it. Ok (ResItem it)))
     | OpPut ns key v index \<Rightarrow> (case sqlite_put B flt now ns key v index st of (st', r) \<Rightarrow> Some (st', try_bind r (\<lambda>_. Ok ResNone)))
     | OpDelete ns key \<Rightarrow> (case sqlite_delete B flt ns key st of (st', r) \<Rightarrow> Some (st', try_bind r (\<lambda>_. Ok ResNone)))
     | OpSearch q \<Rightarrow> map_option (\<lambda>r. (st, try_bind r (\<lambda>x. Ok (ResItems x))))
         (sqlite_search (sb_sqrt B) (sb_render B) (ss_index_config st) (map_option (table_db B flt) (ss_pool st)) q)
     | OpListNamespaces p sf d l \<Rightarrow>
         Some (st, try_bind (sqlite_list_namespaces B flt p sf d l None st) (\<lambda>x. Ok (ResNamespaces x))))"

text \<open>The \<open>k\<close>-th operation of a batch reads the clock \<open>clock k\<close> and meets the failures \<open>flt k\<close>.\<close>

fun sqlite_batch ::
    "sqlite_backend \<Rightarrow> (nat \<Rightarrow> store_faults) \<Rightarrow> (nat \<Rightarrow> nat) \<Rightarrow> nat \<Rightarrow> store_op list \<Rightarrow> sqlite_store
       \<Rightarrow> (sqlite_store \<times> (store_error, store_result list) result) option" where
  "sqlite_batch B flt clock k [] st = Some (st, Ok [])"
| "sqlite_batch B flt clock k (op # ops) st = (case run_sqlite_op B (flt k) (clock k) op st of
       None \<Rightarrow> None
     | Some (st', Inl e) \<Rightarrow> Some (st', Err e)
     | Some (st', Inr r) \<Rightarrow>
         map_option (\<lambda>(st'', rs). (st'', try_bind rs (\<lambda>rs. Ok (r # rs)))) (sqlite_batch B flt clock (k + 1) ops st'))"

section \<open>The PostgreSQL store\<close>

text \<open>
  Values are \<open>JSONB\<close> cells and times \<open>TIMESTAMPTZ\<close> cells, whose types are parameters with what the driver writes into them and
  reads from them.  A row of a query comes with its namespace and key.
\<close>

record ('v, 't) pg_backend =
  pb_write_json :: "json \<Rightarrow> 'v"
  pb_read_json :: "'v \<Rightarrow> (string, json) result"
  pb_write_time :: "nat \<Rightarrow> 't"
  pb_read_time :: "'t \<Rightarrow> (string, nat) result"
  pb_bits :: "rat \<Rightarrow> 32 word"
  pb_float :: "32 word \<Rightarrow> rat"
  pb_sqrt :: "rat \<Rightarrow> rat"
  pb_render :: "json \<Rightarrow> string"
  pb_query :: "('v, 't) store_tables \<Rightarrow> string \<Rightarrow> string list \<Rightarrow> (string, ((string \<times> string) \<times> ('v, 't) item_row) list) result"
  pb_distinct :: "('v, 't) store_tables \<Rightarrow> string \<Rightarrow> string list \<Rightarrow> (string, string list) result"

record ('v, 't) pg_store =
  pgs_pool :: "('v, 't) store_tables option"
  pgs_index_config :: "index_config option"

definition pg_new :: "('v, 't) connection \<Rightarrow> string option \<Rightarrow> string option \<Rightarrow> (store_error, ('v, 't) pg_store) result" where
  "pg_new conn f1 f2 = try_bind (open_tables conn f1 f2) (\<lambda>T. Ok \<lparr>pgs_pool = Some T, pgs_index_config = None\<rparr>)"

definition pg_with_vector_search ::
    "('v, 't) connection \<Rightarrow> string option \<Rightarrow> string option \<Rightarrow> index_config \<Rightarrow> (store_error, ('v, 't) pg_store) result" where
  "pg_with_vector_search conn f1 f2 config = try_bind (pg_new conn f1 f2) (\<lambda>st. Ok (st\<lparr>pgs_index_config := Some config\<rparr>))"

definition pg_load_embedding ::
    "('v, 't) pg_backend \<Rightarrow> store_faults \<Rightarrow> ('v, 't) store_tables \<Rightarrow> bool \<Rightarrow> string \<times> string \<Rightarrow> (store_error, rat list option) result" where
  "pg_load_embedding B flt T wanted k = (if \<not> wanted then Ok None
     else try_bind (statement ''Failed to load embedding: '' (f_vectors flt k)) (\<lambda>_.
       case select_vector k T of
         None \<Rightarrow> Ok None
       | Some bytes \<Rightarrow> try_bind (bytea_to_vector bytes) (\<lambda>v. Ok (Some (map (pb_float B) v)))))"

text \<open>The cells are read before the embedding, unlike in the SQLite store, which parses the times last.\<close>

definition pg_row_item ::
    "('v, 't) pg_backend \<Rightarrow> store_faults \<Rightarrow> ('v, 't) store_tables \<Rightarrow> bool \<Rightarrow> string \<times> string \<Rightarrow> ('v, 't) item_row \<Rightarrow> (store_error, item) result" where
  "pg_row_item B flt T wanted k r =
     try_bind (map_err StorageError (pb_read_json B (ir_value r))) (\<lambda>v.
     try_bind (map_err StorageError (pb_read_time B (ir_created_at r))) (\<lambda>c.
     try_bind (map_err StorageError (pb_read_time B (ir_updated_at r))) (\<lambda>u.
     try_bind (pg_load_embedding B flt T wanted k) (\<lambda>emb.
     Ok \<lparr>it_namespace = fst k, it_key = snd k, it_value = v, it_created_at = c, it_updated_at = u,
         it_expires_at = None, it_embedding = emb\<rparr>))))"

definition pg_get ::
    "('v, 't) pg_backend \<Rightarrow> store_faults \<Rightarrow> string \<Rightarrow> string \<Rightarrow> ('v, 't) pg_store \<Rightarrow> (store_error, item option) result" where
  "pg_get B flt ns key st = (case pgs_pool st of
       None \<Rightarrow> not_initialized
     | Some T \<Rightarrow> try_bind (statement ''Failed to get item: '' (f_items flt)) (\<lambda>_.
         case im_get (store_items T) (ns, key) of
           None \<Rightarrow> Ok None
         | Some r \<Rightarrow> try_bind (pg_row_item B flt T (pgs_index_config st \<noteq> None) (ns, key) r) (\<lambda>it. Ok (Some it))))"

definition pg_put ::
    "('v, 't) pg_backend \<Rightarrow> store_faults \<Rightarrow> nat \<Rightarrow> string \<Rightarrow> string \<Rightarrow> json \<Rightarrow> string list option \<Rightarrow> ('v, 't) pg_store
       \<Rightarrow> ('v, 't) pg_store \<times> (store_error, unit) result" where
  "pg_put B flt now ns key v index st = (case pgs_pool st of
       None \<Rightarrow> (st, not_initialized)
     | Some T \<Rightarrow> (case put_embedding (pb_render B) (pgs_index_config st) v index of
         Inl e \<Rightarrow> (st, Err e)
       | Inr embedding \<Rightarrow> (case statement ''Failed to put item: '' (f_items flt) of
           Inl e \<Rightarrow> (st, Err e)
         | Inr _ \<Rightarrow> (let T1 = upsert_item (ns, key) (pb_write_json B v) (pb_write_time B now) T; st1 = st\<lparr>pgs_pool := Some T1\<rparr> in
             (case embedding of
                None \<Rightarrow> (st1, Ok ())
              | Some vec \<Rightarrow> (case statement ''Failed to store embedding: '' (f_vectors flt (ns, key)) of
                  Inl e \<Rightarrow> (st1, Err e)
                | Inr _ \<Rightarrow> (st\<lparr>pgs_pool := Some (upsert_vector (ns, key) (vector_to_bytea (map (pb_bits B) vec)) T1)\<rparr>, Ok ())))))))"

definition pg_delete ::
    "store_faults \<Rightarrow> string \<Rightarrow> string \<Rightarrow> ('v, 't) pg_store \<Rightarrow> ('v, 't) pg_store \<times> (store_error, unit) result" where
  "pg_delete flt ns key st = (case pgs_pool st of
       None \<Rightarrow> (st, not_initialized)
     | Some T \<Rightarrow> (case statement ''Failed to delete item: '' (f_items flt) of
         Inl e \<Rightarrow> (st, Err e)
       | Inr _ \<Rightarrow> (st\<lparr>pgs_pool := Some (delete_item True (ns, key) T)\<rparr>, Ok ())))"

fun pg_rows_items ::
    "('v, 't) pg_backend \<Rightarrow> store_faults \<Rightarrow> ('v, 't) store_tables \<Rightarrow> bool \<Rightarrow> ((string \<times> string) \<times> ('v, 't) item_row) list \<Rightarrow> (store_error, item list) result" where
  "pg_rows_items B flt T wanted [] = Ok []"
| "pg_rows_items B flt T wanted ((k, r) # rows) =
     try_bind (pg_row_item B flt T wanted k r) (\<lambda>it. try_bind (pg_rows_items B flt T wanted rows) (\<lambda>its. Ok (it # its)))"

definition pg_search ::
    "('v, 't) pg_backend \<Rightarrow> store_faults \<Rightarrow> search_query \<Rightarrow> ('v, 't) pg_store \<Rightarrow> (store_error, search_result) result option" where
  "pg_search B flt q st = (case pgs_pool st of
       None \<Rightarrow> Some not_initialized
     | Some T \<Rightarrow> (case query_embedding (pgs_index_config st) q of
         Inl e \<Rightarrow> Some (Err e)
       | Inr qe \<Rightarrow> (case map_err (\<lambda>e. StorageError (''Search query failed: '' @ e))
             (case postgres_search_sql (pb_render B) q of (sql, ps) \<Rightarrow> fault_or (f_items flt) (pb_query B T sql ps)) of
           Inl e \<Rightarrow> Some (Err e)
         | Inr rows \<Rightarrow> (case pg_rows_items B flt T (qe \<noteq> None) rows of
             Inl e \<Rightarrow> Some (Err e)
           | Inr its \<Rightarrow> (let hits = map (\<lambda>it. \<lparr>si_item = it, si_score = score_of (pb_sqrt B) qe it\<rparr>) its in
               map_option (\<lambda>page. Ok \<lparr>res_items = page, res_total_count = length hits\<rparr>) (paginate q (rank qe hits)))))))"

definition pg_list_namespaces ::
    "('v, 't) pg_backend \<Rightarrow> store_faults \<Rightarrow> string option \<Rightarrow> string option \<Rightarrow> nat option \<Rightarrow> nat option \<Rightarrow> nat option \<Rightarrow> ('v, 't) pg_store
       \<Rightarrow> (store_error, string list) result" where
  "pg_list_namespaces B flt prefix suffix max_depth limit offset st = (case pgs_pool st of
       None \<Rightarrow> not_initialized
     | Some T \<Rightarrow> (case postgres_list_sql prefix suffix limit offset of (sql, ps) \<Rightarrow>
         try_bind (map_err (\<lambda>e. StorageError (''Failed to list namespaces: '' @ e)) (fault_or (f_items flt) (pb_distinct B T sql ps)))
           (\<lambda>namespaces. Ok (sql_list_finish max_depth namespaces))))"

definition run_pg_op ::
    "('v, 't) pg_backend \<Rightarrow> store_faults \<Rightarrow> nat \<Rightarrow> store_op \<Rightarrow> ('v, 't) pg_store
       \<Rightarrow> (('v, 't) pg_store \<times> (store_error, store_result) result) option" where
  "run_pg_op B flt now op st = (case op of
       OpGet ns key \<Rightarrow> Some (st, try_bind (pg_get B flt ns key st) (\<lambda>it. Ok (ResItem it)))
     | OpPut ns key v index \<Rightarrow> (case pg_put B flt now ns key v index st of (st', r) \<Rightarrow> Some (st', try_bind r (\<lambda>_. Ok ResNone)))
     | OpDelete ns key \<Rightarrow> (case pg_delete flt ns key st of (st', r) \<Rightarrow> Some (st', try_bind r (\<lambda>_. Ok ResNone)))
     | OpSearch q \<Rightarrow> map_option (\<lambda>r. (st, try_bind r (\<lambda>x. Ok (ResItems x)))) (pg_search B flt q st)
     | OpListNamespaces p sf d l \<Rightarrow>
         Some (st, try_bind (pg_list_namespaces B flt p sf d l None st) (\<lambda>x. Ok (ResNamespaces x))))"

fun pg_batch ::
    "('v, 't) pg_backend \<Rightarrow> (nat \<Rightarrow> store_faults) \<Rightarrow> (nat \<Rightarrow> nat) \<Rightarrow> nat \<Rightarrow> store_op list \<Rightarrow> ('v, 't) pg_store
       \<Rightarrow> (('v, 't) pg_store \<times> (store_error, store_result list) result) option" where
  "pg_batch B flt clock k [] st = Some (st, Ok [])"
| "pg_batch B flt clock k (op # ops) st = (case run_pg_op B (flt k) (clock k) op st of
       None \<Rightarrow> None
     | Some (st', Inl e) \<Rightarrow> Some (st', Err e)
     | Some (st', Inr r) \<Rightarrow>
         map_option (\<lambda>(st'', rs). (st'', try_bind rs (\<lambda>rs. Ok (r # rs)))) (pg_batch B flt clock (k + 1) ops st'))"

section \<open>What single items promise\<close>

text \<open>
  The specification: a map from keys to items.  \<open>rnd\<close> is what a time becomes when it is stored.
\<close>

type_synonym item_map = "string \<times> string \<Rightarrow> item option"

fun spec_op :: "(nat \<Rightarrow> nat) \<Rightarrow> nat \<Rightarrow> store_op \<Rightarrow> item_map \<Rightarrow> item_map \<times> store_result" where
  "spec_op rnd now (OpGet ns key) m = (m, ResItem (m (ns, key)))"
| "spec_op rnd now (OpPut ns key v index) m = (m((ns, key) \<mapsto> new_item (rnd now) ns key v None None (m (ns, key))), ResNone)"
| "spec_op rnd now (OpDelete ns key) m = (m((ns, key) := None), ResNone)"
| "spec_op rnd now _ m = (m, ResNone)"

fun spec_batch :: "(nat \<Rightarrow> nat) \<Rightarrow> (nat \<Rightarrow> nat) \<Rightarrow> nat \<Rightarrow> store_op list \<Rightarrow> item_map \<Rightarrow> store_result list" where
  "spec_batch rnd clock k [] m = []"
| "spec_batch rnd clock k (op # ops) m = (case spec_op rnd (clock k) op m of (m', r) \<Rightarrow> r # spec_batch rnd clock (k + 1) ops m')"

text \<open>The operations on single items; \<open>storable\<close> values survive being stored.\<close>

fun point_op :: "(json \<Rightarrow> bool) \<Rightarrow> store_op \<Rightarrow> bool" where
  "point_op storable (OpGet _ _) = True"
| "point_op storable (OpPut _ _ v _) = storable v"
| "point_op storable (OpDelete _ _) = True"
| "point_op storable _ = False"

locale point_store =
  fixes reading :: "'c \<Rightarrow> nat"
    and step :: "'c \<Rightarrow> store_op \<Rightarrow> 's \<Rightarrow> ('s \<times> (store_error, store_result) result) option"
    and run :: "(nat \<Rightarrow> 'c) \<Rightarrow> nat \<Rightarrow> store_op list \<Rightarrow> 's \<Rightarrow> ('s \<times> (store_error, store_result list) result) option"
    and good :: "'s \<Rightarrow> bool"
    and view :: "'s \<Rightarrow> item_map"
    and storable :: "json \<Rightarrow> bool"
    and rnd :: "nat \<Rightarrow> nat"
  assumes run_Nil: "run clock k [] s = Some (s, Ok [])"
    and run_Cons: "step (clock k) op s = Some (s', Ok r) \<Longrightarrow>
      run clock k (op # ops) s = map_option (\<lambda>(s'', rs). (s'', try_bind rs (\<lambda>rs. Ok (r # rs)))) (run clock (k + 1) ops s')"
    and step_point: "good s \<Longrightarrow> point_op storable op \<Longrightarrow>
      \<exists>s'. step t op s = Some (s', Ok (snd (spec_op rnd (reading t) op (view s)))) \<and> good s' \<and>
        view s' = fst (spec_op rnd (reading t) op (view s))"
begin

lemma run_refines:
  assumes "good s" "\<forall>op \<in> set ops. point_op storable op"
  shows "map_option snd (run clock k ops s) = Some (Ok (spec_batch rnd (reading \<circ> clock) k ops (view s)))"
  using assms
proof (induction ops arbitrary: s k)
  case (Cons op ops)
  let ?r = "spec_op rnd (reading (clock k)) op (view s)"
  obtain s' where s': "step (clock k) op s = Some (s', Ok (snd ?r))" "good s'" "view s' = fst ?r"
    using step_point [of s op "clock k"] Cons.prems by auto
  have "map_option snd (run clock (k + 1) ops s') = Some (Ok (spec_batch rnd (reading \<circ> clock) (k + 1) ops (view s')))"
    by (rule Cons.IH) (use s'(2) Cons.prems in auto)
  then show ?case
    by (auto simp: run_Cons [where clock = clock and k = k, OF s'(1)] s'(3) case_prod_beta comp_def)
qed (simp add: run_Nil)

end

section \<open>The three stores keep the promise\<close>

definition memory_plain :: "memory_store \<Rightarrow> bool" where
  "memory_plain s \<longleftrightarrow> mst_index_config s = None \<and> default_ttl (mst_ttl_config s) = None \<and>
     (\<forall>ns key it. lookup_item s ns key = Some it \<longrightarrow> it_expires_at it = None)"

lemma memory_plain_put:
  assumes "memory_plain s"
  shows "store_put render add now ns key v index s =
     Some (put_item ns key (new_item now ns key v None None (lookup_item s ns key)) s, Ok ())"
    "memory_plain (put_item ns key (new_item now ns key v None None (lookup_item s ns key)) s)"
    "memory_plain (store_delete ns key s)"
    "store_get add t1 t2 ns key s = Some (s, lookup_item s ns key)"
  using assms
  by (auto simp: memory_plain_def store_put_def put_embedding_def expiry_def new_item_def store_get_def get_check_def
      get_finish_def is_expired_def split: option.splits if_splits bool.splits)

lemma memory_point:
  assumes "memory_plain s" "point_op (\<lambda>_. True) op"
  shows "\<exists>s'. run_store_op E t op s = Some (s', Ok (snd (spec_op id (fst t) op (\<lambda>(ns, key). lookup_item s ns key)))) \<and>
     memory_plain s' \<and> (\<lambda>(ns, key). lookup_item s' ns key) = fst (spec_op id (fst t) op (\<lambda>(ns, key). lookup_item s ns key))"
  using assms(2)
  by (cases op) (auto simp: run_store_op_def memory_plain_put [OF assms(1)] assms(1) fun_eq_iff)

interpretation memory_items: point_store fst "run_store_op E" "store_batch E" memory_plain
    "\<lambda>s (ns, key). lookup_item s ns key" "\<lambda>_. True" id for E
  by unfold_locales (simp_all add: memory_point)

text \<open>
  Both database stores, without index and faults, decode the row of a key; \<open>rj\<close> and \<open>rt\<close> read the cells.
\<close>

definition plain_row ::
    "('v \<Rightarrow> (store_error, json) result) \<Rightarrow> ('t \<Rightarrow> (store_error, nat) result) \<Rightarrow> string \<times> string \<Rightarrow> ('v, 't) item_row \<Rightarrow> (store_error, item) result" where
  "plain_row rj rt k r = try_bind (rj (ir_value r)) (\<lambda>v. try_bind (rt (ir_created_at r)) (\<lambda>c. try_bind (rt (ir_updated_at r)) (\<lambda>u.
     Ok \<lparr>it_namespace = fst k, it_key = snd k, it_value = v, it_created_at = c, it_updated_at = u, it_expires_at = None, it_embedding = None\<rparr>)))"

definition readable :: "('v \<Rightarrow> (store_error, json) result) \<Rightarrow> ('t \<Rightarrow> (store_error, nat) result) \<Rightarrow> ('v, 't) store_tables \<Rightarrow> bool" where
  "readable rj rt T \<longleftrightarrow> (\<forall>k r. im_get (store_items T) k = Some r \<longrightarrow> is_Ok (plain_row rj rt k r))"

definition table_view :: "('v \<Rightarrow> (store_error, json) result) \<Rightarrow> ('t \<Rightarrow> (store_error, nat) result) \<Rightarrow> ('v, 't) store_tables \<Rightarrow> item_map" where
  "table_view rj rt T k = Option.bind (im_get (store_items T) k) (\<lambda>r. case plain_row rj rt k r of Inr it \<Rightarrow> Some it | Inl _ \<Rightarrow> None)"

lemma readableD: "readable rj rt T \<Longrightarrow> im_get (store_items T) k = Some r \<Longrightarrow> \<exists>it. plain_row rj rt k r = Ok it"
  unfolding readable_def is_Ok_iff by blast

lemma plain_row_view:
  assumes "readable rj rt T"
  shows "(case im_get (store_items T) k of None \<Rightarrow> Ok None | Some r \<Rightarrow> try_bind (plain_row rj rt k r) (\<lambda>it. Ok (Some it))) = Ok (table_view rj rt T k)"
  using readableD [OF assms, of k] by (cases "im_get (store_items T) k") (auto simp: table_view_def)

lemma plain_row_OkD: "plain_row rj rt k r = Ok it \<Longrightarrow> rt (ir_created_at r) = Ok (it_created_at it)"
  by (auto simp: plain_row_def dest!: try_bind_OkD)

lemma im_get_upsert [simp]: "im_get (store_items (upsert_item k v now T)) k' = (if k' = k then Some
     (case im_get (store_items T) k of Some r \<Rightarrow> r\<lparr>ir_value := v, ir_updated_at := now\<rparr>
      | None \<Rightarrow> \<lparr>ir_value = v, ir_created_at = now, ir_updated_at = now\<rparr>) else im_get (store_items T) k')"
  by (simp add: upsert_item_def)

lemma plain_row_upsert:
  assumes "readable rj rt T" "rj cell = Ok v" "rt stamp = Ok now"
  shows "plain_row rj rt k (case im_get (store_items T) k of Some r \<Rightarrow> r\<lparr>ir_value := cell, ir_updated_at := stamp\<rparr>
      | None \<Rightarrow> \<lparr>ir_value = cell, ir_created_at = stamp, ir_updated_at = stamp\<rparr>) =
    Ok (new_item now (fst k) (snd k) v None None (table_view rj rt T k))"
proof (cases "im_get (store_items T) k")
  case None
  then show ?thesis by (simp add: plain_row_def table_view_def new_item_def assms)
next
  case (Some r)
  then obtain it where it: "plain_row rj rt k r = Ok it"
    using readableD [OF assms(1)] by blast
  then have "table_view rj rt T k = Some it" by (simp add: table_view_def Some)
  then show ?thesis using plain_row_OkD [OF it] by (simp add: Some plain_row_def new_item_def assms)
qed

lemma table_view_upsert:
  assumes "readable rj rt T" "rj cell = Ok v" "rt stamp = Ok now"
  shows "readable rj rt (upsert_item k cell stamp T)"
    "table_view rj rt (upsert_item k cell stamp T) =
      (table_view rj rt T)(k \<mapsto> new_item now (fst k) (snd k) v None None (table_view rj rt T k))"
proof -
  note new = plain_row_upsert [OF assms, of k]
  show "readable rj rt (upsert_item k cell stamp T)"
    unfolding readable_def
  proof (intro allI impI)
    fix k' r
    assume "im_get (store_items (upsert_item k cell stamp T)) k' = Some r"
    then show "is_Ok (plain_row rj rt k' r)"
      using new readableD [OF assms(1), of k' r] by (cases "k' = k") (auto simp: is_Ok_iff)
  qed
  show "table_view rj rt (upsert_item k cell stamp T) =
      (table_view rj rt T)(k \<mapsto> new_item now (fst k) (snd k) v None None (table_view rj rt T k))"
  proof
    fix k'
    show "table_view rj rt (upsert_item k cell stamp T) k' =
        ((table_view rj rt T)(k \<mapsto> new_item now (fst k) (snd k) v None None (table_view rj rt T k))) k'"
      by (cases "k' = k") (simp_all add: table_view_def [of _ _ "upsert_item k cell stamp T"] new, simp add: table_view_def)
  qed
qed

lemma table_view_delete:
  "readable rj rt T \<Longrightarrow> readable rj rt (delete_item fk k T)"
  "table_view rj rt (delete_item fk k T) = (table_view rj rt T)(k := None)"
  by (auto simp: readable_def delete_item_def table_view_def fun_eq_iff split: if_splits)

lemma map_err_simps [simp]: "map_err f (Inl e) = Inl (f e)" "map_err f (Inr v) = Inr v"
  by (simp_all add: map_err_def)

lemma statement_ok [simp]:
  "statement what (f_items no_faults) = Ok ()" "statement what (f_vectors no_faults k) = Ok ()"
  by (simp_all add: statement_def no_faults_def)

text \<open>The SQLite store.\<close>

definition sqlite_rj :: "sqlite_backend \<Rightarrow> string \<Rightarrow> (store_error, json) result" where
  "sqlite_rj B s = map_err SerializeError (sb_read_json B s)"

definition sqlite_rt :: "sqlite_backend \<Rightarrow> string \<Rightarrow> (store_error, nat) result" where
  "sqlite_rt B s = map_err (\<lambda>e. StorageError (''invalid timestamp: '' @ e)) (sb_read_time B s)"

definition sqlite_storable :: "sqlite_backend \<Rightarrow> json \<Rightarrow> bool" where
  "sqlite_storable B v \<longleftrightarrow> (case sb_write_json B v of Inr cell \<Rightarrow> sb_read_json B cell = Ok v | Inl _ \<Rightarrow> False)"

definition sqlite_times :: "sqlite_backend \<Rightarrow> bool" where
  "sqlite_times B \<longleftrightarrow> (\<forall>t. sb_read_time B (sb_write_time B t) = Ok t)"

definition sqlite_plain :: "sqlite_backend \<Rightarrow> sqlite_store \<Rightarrow> bool" where
  "sqlite_plain B st \<longleftrightarrow> sqlite_times B \<and> ss_index_config st = None \<and>
     (case ss_pool st of Some T \<Rightarrow> readable (sqlite_rj B) (sqlite_rt B) T | None \<Rightarrow> False)"

definition sqlite_view :: "sqlite_backend \<Rightarrow> sqlite_store \<Rightarrow> item_map" where
  "sqlite_view B st = (case ss_pool st of Some T \<Rightarrow> table_view (sqlite_rj B) (sqlite_rt B) T | None \<Rightarrow> (\<lambda>_. None))"

lemma sqlite_get_plain:
  assumes "sqlite_plain B st"
  shows "sqlite_get B no_faults ns key st = Ok (sqlite_view B st (ns, key))"
proof -
  obtain T where T: "ss_pool st = Some T" "ss_index_config st = None" "readable (sqlite_rj B) (sqlite_rt B) T"
    using assms by (auto simp: sqlite_plain_def split: option.splits)
  show ?thesis
    using plain_row_view [OF T(3), of "(ns, key)"]
    by (cases "im_get (store_items T) (ns, key)") (simp_all add: sqlite_get_def sqlite_view_def T row_item_def plain_row_def load_embedding_def table_db_def parse_time_def
        sqlite_rj_def sqlite_rt_def)
qed

lemma sqlite_point:
  assumes "sqlite_plain B st" "point_op (sqlite_storable B) op"
  shows "\<exists>st'. run_sqlite_op B no_faults now op st = Some (st', Ok (snd (spec_op id now op (sqlite_view B st)))) \<and>
     sqlite_plain B st' \<and> sqlite_view B st' = fst (spec_op id now op (sqlite_view B st))"
proof -
  obtain T where T: "ss_pool st = Some T" "ss_index_config st = None" "readable (sqlite_rj B) (sqlite_rt B) T" and time: "sqlite_times B"
    using assms(1) by (auto simp: sqlite_plain_def split: option.splits)
  show ?thesis
  proof (cases op)
    case (OpPut ns key v index)
    then obtain cell where cell: "sb_write_json B v = Ok cell" "sb_read_json B cell = Ok v"
      using assms(2) by (auto simp: sqlite_storable_def split: sum.splits)
    have "sqlite_rj B cell = Ok v" "sqlite_rt B (sb_write_time B now) = Ok now"
      using cell time by (simp_all add: sqlite_times_def sqlite_rj_def sqlite_rt_def)
    from table_view_upsert [OF T(3) this, of "(ns, key)"] show ?thesis
      using time by (simp add: OpPut run_sqlite_op_def sqlite_put_def T put_embedding_def cell sqlite_plain_def sqlite_view_def)
  next
    case (OpDelete ns key)
    then show ?thesis using table_view_delete(1) [OF T(3)] time
      by (simp add: run_sqlite_op_def sqlite_delete_def T sqlite_plain_def sqlite_view_def table_view_delete(2))
  qed (use assms in \<open>simp_all add: run_sqlite_op_def sqlite_get_plain\<close>)
qed

interpretation sqlite_items: point_store "\<lambda>t. t" "run_sqlite_op B no_faults" "sqlite_batch B (\<lambda>_. no_faults)" "sqlite_plain B"
    "sqlite_view B" "sqlite_storable B" id for B
  by unfold_locales (simp_all add: sqlite_point)

text \<open>The PostgreSQL store.\<close>

definition pg_rj :: "('v, 't) pg_backend \<Rightarrow> 'v \<Rightarrow> (store_error, json) result" where
  "pg_rj B s = map_err StorageError (pb_read_json B s)"

definition pg_rt :: "('v, 't) pg_backend \<Rightarrow> 't \<Rightarrow> (store_error, nat) result" where
  "pg_rt B s = map_err StorageError (pb_read_time B s)"

definition pg_storable :: "('v, 't) pg_backend \<Rightarrow> json \<Rightarrow> bool" where
  "pg_storable B v \<longleftrightarrow> pb_read_json B (pb_write_json B v) = Ok v"

text \<open>A time column keeps times up to its precision.\<close>

definition pg_times :: "('v, 't) pg_backend \<Rightarrow> (nat \<Rightarrow> nat) \<Rightarrow> bool" where
  "pg_times B rnd \<longleftrightarrow> (\<forall>t. pb_read_time B (pb_write_time B t) = Ok (rnd t))"

definition pg_plain :: "('v, 't) pg_backend \<Rightarrow> (nat \<Rightarrow> nat) \<Rightarrow> ('v, 't) pg_store \<Rightarrow> bool" where
  "pg_plain B rnd st \<longleftrightarrow> pg_times B rnd \<and> pgs_index_config st = None \<and>
     (case pgs_pool st of Some T \<Rightarrow> readable (pg_rj B) (pg_rt B) T | None \<Rightarrow> False)"

definition pg_view :: "('v, 't) pg_backend \<Rightarrow> ('v, 't) pg_store \<Rightarrow> item_map" where
  "pg_view B st = (case pgs_pool st of Some T \<Rightarrow> table_view (pg_rj B) (pg_rt B) T | None \<Rightarrow> (\<lambda>_. None))"

lemma pg_get_plain:
  assumes "pg_plain B rnd st"
  shows "pg_get B no_faults ns key st = Ok (pg_view B st (ns, key))"
proof -
  obtain T where T: "pgs_pool st = Some T" "pgs_index_config st = None" "readable (pg_rj B) (pg_rt B) T"
    using assms by (auto simp: pg_plain_def split: option.splits)
  show ?thesis
    using plain_row_view [OF T(3), of "(ns, key)"]
    by (cases "im_get (store_items T) (ns, key)")
      (simp_all add: pg_get_def pg_view_def T pg_row_item_def plain_row_def pg_load_embedding_def pg_rj_def pg_rt_def)
qed

lemma pg_point:
  assumes "pg_plain B rnd st" "point_op (pg_storable B) op"
  shows "\<exists>st'. run_pg_op B no_faults now op st = Some (st', Ok (snd (spec_op rnd now op (pg_view B st)))) \<and>
     pg_plain B rnd st' \<and> pg_view B st' = fst (spec_op rnd now op (pg_view B st))"
proof -
  obtain T where T: "pgs_pool st = Some T" "pgs_index_config st = None" "readable (pg_rj B) (pg_rt B) T" and time: "pg_times B rnd"
    using assms(1) by (auto simp: pg_plain_def split: option.splits)
  show ?thesis
  proof (cases op)
    case (OpPut ns key v index)
    have "pg_rj B (pb_write_json B v) = Ok v" "pg_rt B (pb_write_time B now) = Ok (rnd now)"
      using assms(2) time by (simp_all add: OpPut pg_storable_def pg_times_def pg_rj_def pg_rt_def)
    from table_view_upsert [OF T(3) this, of "(ns, key)"] show ?thesis
      using time by (simp add: OpPut run_pg_op_def pg_put_def T put_embedding_def pg_plain_def pg_view_def)
  next
    case (OpDelete ns key)
    then show ?thesis using table_view_delete(1) [OF T(3)] time
      by (simp add: run_pg_op_def pg_delete_def T pg_plain_def pg_view_def table_view_delete(2))
  qed (use assms in \<open>simp_all add: run_pg_op_def pg_get_plain\<close>)
qed

interpretation pg_items: point_store "\<lambda>t. t" "run_pg_op B no_faults" "pg_batch B (\<lambda>_. no_faults)" "pg_plain B rnd"
    "pg_view B" "pg_storable B" rnd for B rnd
  by unfold_locales (simp_all add: pg_point)

section \<open>The stores agree\<close>

text \<open>What the precision of the time column changes in a result.\<close>

definition round_item :: "(nat \<Rightarrow> nat) \<Rightarrow> item \<Rightarrow> item" where
  "round_item rnd it = it\<lparr>it_created_at := rnd (it_created_at it), it_updated_at := rnd (it_updated_at it)\<rparr>"

fun round_result :: "(nat \<Rightarrow> nat) \<Rightarrow> store_result \<Rightarrow> store_result" where
  "round_result rnd (ResItem it) = ResItem (map_option (round_item rnd) it)"
| "round_result rnd r = r"

lemma spec_op_round:
  "spec_op rnd now op (map_option (round_item rnd) \<circ> m) =
     (map_option (round_item rnd) \<circ> fst (spec_op id now op m), round_result rnd (snd (spec_op id now op m)))"
  by (cases op) (auto simp: fun_eq_iff new_item_def round_item_def split: option.split)

lemma spec_batch_round:
  "spec_batch rnd clock k ops (map_option (round_item rnd) \<circ> m) = map (round_result rnd) (spec_batch id clock k ops m)"
  by (induction ops arbitrary: k m) (simp_all add: spec_op_round case_prod_beta)

lemma fresh_memory:
  "memory_plain memory_store_new" "(\<lambda>(ns, key). lookup_item memory_store_new ns key) = (\<lambda>_. None)"
  by (simp_all add: memory_plain_def memory_store_new_def ttl_config_default_def lookup_item_def fun_eq_iff)

lemma fresh_sqlite:
  assumes "sqlite_new (Ok (None, None)) f1 f2 = Ok st" "sqlite_times B"
  shows "sqlite_plain B st" "sqlite_view B st = (\<lambda>_. None)"
  using assms by (auto simp: sqlite_new_def open_tables_def create_table_def sqlite_plain_def readable_def sqlite_view_def
      table_view_def fun_eq_iff dest!: try_bind_OkD)

lemma fresh_pg:
  assumes "pg_new (Ok (None, None)) f1 f2 = Ok st" "pg_times P rnd"
  shows "pg_plain P rnd st" "pg_view P st = (\<lambda>_. None)"
  using assms by (auto simp: pg_new_def open_tables_def create_table_def pg_plain_def readable_def pg_view_def
      table_view_def fun_eq_iff dest!: try_bind_OkD)

text \<open>
  C24: The three stores agree on single items.  A batch of reads, writes and deletions of storable values, run without database
  failures on newly opened empty stores without an index and without expiry, succeeds in memory, in SQLite and in PostgreSQL; SQLite gives
  the results of the store in memory exactly, with creation times kept through overwrites, and PostgreSQL the same up
  to the precision of its time column.
\<close>

theorem stores_agree:
  assumes "\<forall>op \<in> set ops. point_op (\<lambda>v. sqlite_storable B v \<and> pg_storable P v) op"
    and "sqlite_times B" and "pg_times P rnd"
    and "sqlite_new (Ok (None, None)) f1 f2 = Ok lite" and "pg_new (Ok (None, None)) f3 f4 = Ok pg"
  shows "\<exists>rs. map_option snd (store_batch E clock 0 ops memory_store_new) = Some (Ok rs) \<and>
     map_option snd (sqlite_batch B (\<lambda>_. no_faults) (fst \<circ> clock) 0 ops lite) = Some (Ok rs) \<and>
     map_option snd (pg_batch P (\<lambda>_. no_faults) (fst \<circ> clock) 0 ops pg) = Some (Ok (map (round_result rnd) rs))"
proof -
  have ops: "\<forall>op \<in> set ops. point_op (\<lambda>_. True) op" "\<forall>op \<in> set ops. point_op (sqlite_storable B) op"
    "\<forall>op \<in> set ops. point_op (pg_storable P) op"
    using assms(1) by (auto elim!: point_op.elims)
  have "(\<lambda>_. None) = map_option (round_item rnd) \<circ> (\<lambda>_. None)" by (simp add: fun_eq_iff)
  then have "spec_batch rnd (fst \<circ> clock) 0 ops (\<lambda>_. None) = map (round_result rnd) (spec_batch id (fst \<circ> clock) 0 ops (\<lambda>_. None))"
    using spec_batch_round by metis
  then show ?thesis
    using memory_items.run_refines [OF fresh_memory(1) ops(1), of E clock 0]
      sqlite_items.run_refines [OF fresh_sqlite(1) [OF assms(4,2)] ops(2), of "fst \<circ> clock" 0]
      pg_items.run_refines [OF fresh_pg(1) [OF assms(5,3)] ops(3), of "fst \<circ> clock" 0]
    by (simp only: fresh_memory(2) fresh_sqlite(2) [OF assms(4,2)] fresh_pg(2) [OF assms(5,3)] comp_def) blast
qed

text \<open>Strings stored as they are, times in unary; a time column of microseconds for times in nanoseconds.\<close>

definition sample_sqlite :: sqlite_backend where
  "sample_sqlite = \<lparr>sb_write_json = (\<lambda>v. case v of JStr s \<Rightarrow> Ok s | _ \<Rightarrow> Err ''unsupported''), sb_read_json = (\<lambda>s. Ok (JStr s)),
     sb_write_time = (\<lambda>t. replicate t CHR ''i''), sb_read_time = (\<lambda>s. Ok (length s)), sb_bits = (\<lambda>_. 0), sb_float = (\<lambda>_. 0),
     sb_sqrt = (\<lambda>x. x), sb_render = (\<lambda>_. []), sb_foreign_keys = True, sb_query = (\<lambda>_ _ _. Ok []), sb_distinct = (\<lambda>_ _ _. Ok [])\<rparr>"

definition sample_pg :: "(json, nat) pg_backend" where
  "sample_pg = \<lparr>pb_write_json = (\<lambda>v. v), pb_read_json = Ok, pb_write_time = (\<lambda>t. t div 1000), pb_read_time = (\<lambda>t. Ok (t * 1000)),
     pb_bits = (\<lambda>_. 0), pb_float = (\<lambda>_. 0), pb_sqrt = (\<lambda>x. x), pb_render = (\<lambda>_. []), pb_query = (\<lambda>_ _ _. Ok []), pb_distinct = (\<lambda>_ _ _. Ok [])\<rparr>"

definition sample_ops :: "store_op list" where
  "sample_ops = [OpPut ''n'' ''k'' (JStr ''x'') None, OpPut ''n'' ''k'' (JStr ''y'') None, OpGet ''n'' ''k'', OpDelete ''n'' ''k'', OpGet ''n'' ''k'']"

theorem stores_agree_witness:
  "list_all (point_op (\<lambda>v. sqlite_storable sample_sqlite v \<and> pg_storable sample_pg v)) sample_ops \<and>
   sqlite_times sample_sqlite \<and> pg_times sample_pg (\<lambda>t. t div 1000 * 1000) \<and>
   (\<exists>rs. map_option snd (store_batch \<lparr>env_render = (\<lambda>_. []), env_add = (\<lambda>_ _. None), env_root = (\<lambda>x. x)\<rparr> (\<lambda>k. (1500 + k, 0 :: nat)) 0
       sample_ops memory_store_new) = Some (Ok rs) \<and>
     map_option snd (sqlite_batch sample_sqlite (\<lambda>_. no_faults) (fst \<circ> (\<lambda>k. (1500 + k, 0 :: nat))) 0 sample_ops (projr (sqlite_new (Ok (None, None)) None None))) = Some (Ok rs) \<and>
     map_option snd (pg_batch sample_pg (\<lambda>_. no_faults) (fst \<circ> (\<lambda>k. (1500 + k, 0 :: nat))) 0 sample_ops (projr (pg_new (Ok (None, None)) None None))) =
       Some (Ok (map (round_result (\<lambda>t. t div 1000 * 1000)) rs)))"
proof -
  have a: "\<forall>op \<in> set sample_ops. point_op (\<lambda>v. sqlite_storable sample_sqlite v \<and> pg_storable sample_pg v) op"
    by (simp add: sample_ops_def sqlite_storable_def pg_storable_def sample_sqlite_def sample_pg_def)
  have b: "sqlite_times sample_sqlite" "pg_times sample_pg (\<lambda>t. t div 1000 * 1000)"
    by (simp_all add: sqlite_times_def pg_times_def sample_sqlite_def sample_pg_def)
  have c: "sqlite_new (Ok (None, None)) None None = Ok (projr (sqlite_new (Ok (None, None)) None None))"
    "pg_new (Ok (None, None)) None None = Ok (projr (pg_new (Ok (None, None)) None None :: (_, (json, nat) pg_store) result))"
    by (simp_all add: sqlite_new_def pg_new_def open_tables_def statement_def)
  have "list_all (point_op (\<lambda>v. sqlite_storable sample_sqlite v \<and> pg_storable sample_pg v)) sample_ops"
    using a by (simp only: list_all_iff)
  then show ?thesis by (intro conjI b stores_agree [OF a b c])
qed

section \<open>With an index\<close>

text \<open>
  Overwriting an item without naming index fields keeps the vector of the old value in the database, so a read and every
  search still see the embedding of a value that is gone; the store in memory drops it.
\<close>

lemma put_keeps_embedding:
  assumes "ss_pool st = Some T" "sqlite_get B no_faults ns key st = Ok (Some it)" "sqlite_storable B v" "sqlite_times B"
  shows "\<exists>st'. sqlite_put B no_faults now ns key v None st = (st', Ok ()) \<and>
     sqlite_get B no_faults ns key st' = Ok (Some (it\<lparr>it_value := v, it_updated_at := now\<rparr>))"
proof -
  obtain cell where cell: "sb_write_json B v = Ok cell" "sb_read_json B cell = Ok v"
    using assms(3) by (auto simp: sqlite_storable_def split: sum.splits)
  obtain r where r: "im_get (store_items T) (ns, key) = Some r"
    using assms(1,2) by (auto simp: sqlite_get_def split: option.splits)
  define T' where "T' = upsert_item (ns, key) cell (sb_write_time B now) T"
  have vec: "load_embedding (table_db B no_faults T') w ns key = load_embedding (table_db B no_faults T) w ns key" for w
  proof -
    have "sdb_vector (table_db B no_faults T') = sdb_vector (table_db B no_faults T)" "sdb_float (table_db B no_faults T') = sdb_float (table_db B no_faults T)"
      by (simp_all add: table_db_def select_vector_def T'_def upsert_item_def)
    then show ?thesis by (simp only: load_embedding_def)
  qed
  have put: "sqlite_put B no_faults now ns key v None st = (st\<lparr>ss_pool := Some T'\<rparr>, Ok ())"
    by (simp add: sqlite_put_def assms(1) put_embedding_def cell T'_def split: option.split)
  obtain emb c u where
      emb: "load_embedding (table_db B no_faults T) (ss_index_config st \<noteq> None) ns key = Ok emb"
        "parse_time (table_db B no_faults T) (ir_created_at r) = Ok c"
      and it: "it_namespace it = ns" "it_key it = key" "it_created_at it = c" "it_expires_at it = None" "it_embedding it = emb"
    using assms(2) by (auto simp: sqlite_get_def assms(1) r row_item_def dest!: try_bind_OkD)
  have time: "parse_time (table_db B no_faults T') s = parse_time (table_db B no_faults T) s" for s
    by (simp add: parse_time_def table_db_def)
  have now: "parse_time (table_db B no_faults T) (sb_write_time B now) = Ok now"
    using assms(4) by (simp add: parse_time_def table_db_def sqlite_times_def)
  have row: "im_get (store_items T') (ns, key) = Some (r\<lparr>ir_value := cell, ir_updated_at := sb_write_time B now\<rparr>)"
    by (simp add: T'_def r)
  have "sqlite_get B no_faults ns key (st\<lparr>ss_pool := Some T'\<rparr>) = Ok (Some (it\<lparr>it_value := v, it_updated_at := now\<rparr>))"
    by (cases it) (use it emb cell in \<open>simp add: sqlite_get_def row row_item_def vec time now, simp add: table_db_def\<close>)
  then show ?thesis using put by blast
qed

lemma memory_put_drops_embedding:
  assumes "store_put render add now ns key v None s = Some (s', r)"
  shows "\<exists>it. lookup_item s' ns key = Some it \<and> it_embedding it = None"
  using assms by (auto simp: store_put_def put_embedding_def new_item_def split: option.splits)

text \<open>A failing vector statement reports an error after the new value has been stored.\<close>

lemma put_not_atomic:
  assumes "ss_pool st = Some T" "put_embedding (sb_render B) (ss_index_config st) v index = Ok (Some vec)"
    and "sb_write_json B v = Ok cell" "f_items flt = None" "f_vectors flt (ns, key) = Some e"
  shows "sqlite_put B flt now ns key v index st =
      (st\<lparr>ss_pool := Some (upsert_item (ns, key) cell (sb_write_time B now) T)\<rparr>, Err (StorageError (''Failed to store embedding: '' @ e)))"
  using assms by (simp add: sqlite_put_def statement_def)

end
