(* ===== verification/Remote.thy ===== *)
theory Remote
  imports Strings
begin

text \<open>
  Remote graphs (\<open>juncture-core/src/client.rs\<close>, \<open>graph/remote.rs\<close>).  A call builds one HTTP request and reads the reply; the network is a function from
  requests to a failure or to a status with a text, and the readers of JSON are parameters.  A request the HTTP library refuses to build fails when it is sent and belongs to
  the network here.
\<close>

section \<open>Requests and replies\<close>

datatype auth_config = AuthNone | AuthToken string | AuthApiKey string string

record http_request =
  hr_verb :: string
  hr_url :: string
  hr_headers :: "(string \<times> string) list"
  hr_query :: "(string \<times> string) list"
  hr_body :: "json option"

type_synonym network = "http_request \<Rightarrow> (string, nat \<times> string) result"

datatype client_error =
    ClConnection string
  | ClThreadNotFound string
  | ClRunNotFound string
  | ClSerialize string
  | ClRequest string
  | ClServer nat string

definition apply_auth :: "auth_config \<Rightarrow> http_request \<Rightarrow> http_request" where
  "apply_auth auth rq = (case auth of
       AuthNone \<Rightarrow> rq
     | AuthToken token \<Rightarrow> rq\<lparr>hr_headers := hr_headers rq @ [(''authorization'', ''Bearer '' @ token)]\<rparr>
     | AuthApiKey header key \<Rightarrow> rq\<lparr>hr_headers := hr_headers rq @ [(header, key)]\<rparr>)"

definition http_request_new :: "string \<Rightarrow> string \<Rightarrow> http_request" where
  "http_request_new verb url = \<lparr>hr_verb = verb, hr_url = url, hr_headers = [], hr_query = [], hr_body = None\<rparr>"

definition send_request :: "network \<Rightarrow> http_request \<Rightarrow> (client_error, nat \<times> string) result" where
  "send_request net rq = map_sum ClConnection id (net rq)"

definition is_success :: "nat \<Rightarrow> bool" where
  "is_success status \<longleftrightarrow> 200 \<le> status \<and> status < 300"

text \<open>The reply of a call: \<open>missing\<close> is the error a 404 stands for, if any, and \<open>read\<close> reads the text of a success.\<close>

definition read_reply :: "client_error option \<Rightarrow> (string \<Rightarrow> (string, 'a) result) \<Rightarrow> nat \<times> string \<Rightarrow> (client_error, 'a) result" where
  "read_reply missing read reply = (case reply of (status, body) \<Rightarrow>
     if is_success status then map_sum ClRequest id (read body)
     else if status = 404 then (case missing of Some e \<Rightarrow> Err e | None \<Rightarrow> Err (ClServer status body))
     else Err (ClServer status body))"

definition call :: "network \<Rightarrow> auth_config \<Rightarrow> client_error option \<Rightarrow> (string \<Rightarrow> (string, 'a) result) \<Rightarrow> http_request \<Rightarrow> (client_error, 'a) result" where
  "call net auth missing read rq = try_bind (send_request net (apply_auth auth rq)) (read_reply missing read)"

definition done_reader :: "string \<Rightarrow> (string, unit) result" where
  "done_reader body = Ok ()"

definition with_limit :: "nat option \<Rightarrow> http_request \<Rightarrow> http_request" where
  "with_limit limit rq = (case limit of Some n \<Rightarrow> rq\<lparr>hr_query := hr_query rq @ [(''limit'', nat_to_string n)]\<rparr> | None \<Rightarrow> rq)"

section \<open>The client of a server\<close>

record juncture_client =
  jc_endpoint :: string
  jc_auth :: auth_config

record graph_client =
  gc_endpoint :: string
  gc_auth :: auth_config

record remote_thread =
  rt_id :: string
  rt_created_at :: string
  rt_metadata :: "(string \<times> json) list option"

record graph_info =
  gi_id :: string
  gi_name :: string
  gi_created_at :: string

record 't remote_snapshot =
  rsn_values :: 't
  rsn_next :: "string option"
  rsn_metadata :: "(string \<times> json) list option"
  rsn_created_at :: "string option"

definition client_new :: "string \<Rightarrow> juncture_client" where
  "client_new endpoint = \<lparr>jc_endpoint = endpoint, jc_auth = AuthNone\<rparr>"

definition with_auth :: "auth_config \<Rightarrow> juncture_client \<Rightarrow> juncture_client" where
  "with_auth auth c = c\<lparr>jc_auth := auth\<rparr>"

definition list_graphs :: "network \<Rightarrow> (string \<Rightarrow> (string, graph_info list) result) \<Rightarrow> juncture_client \<Rightarrow> (client_error, graph_info list) result" where
  "list_graphs net read c = call net (jc_auth c) None read (http_request_new ''GET'' (jc_endpoint c @ ''/graphs''))"

definition client_graph :: "string \<Rightarrow> juncture_client \<Rightarrow> graph_client" where
  "client_graph graph_id c = \<lparr>gc_endpoint = jc_endpoint c @ ''/graphs/'' @ graph_id, gc_auth = jc_auth c\<rparr>"

definition json_map :: "(string \<times> json) list option \<Rightarrow> json" where
  "json_map m = (case m of Some kvs \<Rightarrow> JObj kvs | None \<Rightarrow> JNull)"

definition create_thread :: "network \<Rightarrow> (string \<Rightarrow> (string, remote_thread) result) \<Rightarrow> (string \<times> json) list option \<Rightarrow> juncture_client \<Rightarrow> (client_error, remote_thread) result" where
  "create_thread net read metadata c = call net (jc_auth c) None read
     ((http_request_new ''POST'' (jc_endpoint c @ ''/threads''))\<lparr>hr_body := Some (JObj [(''metadata'', json_map metadata)])\<rparr>)"

definition get_thread :: "network \<Rightarrow> (string \<Rightarrow> (string, remote_thread) result) \<Rightarrow> string \<Rightarrow> juncture_client \<Rightarrow> (client_error, remote_thread) result" where
  "get_thread net read i c = call net (jc_auth c) (Some (ClThreadNotFound i)) read (http_request_new ''GET'' (jc_endpoint c @ ''/threads/'' @ i))"

definition list_threads :: "network \<Rightarrow> (string \<Rightarrow> (string, remote_thread list) result) \<Rightarrow> nat option \<Rightarrow> juncture_client \<Rightarrow> (client_error, remote_thread list) result" where
  "list_threads net read limit c = call net (jc_auth c) None read (with_limit limit (http_request_new ''GET'' (jc_endpoint c @ ''/threads'')))"

definition delete_thread :: "network \<Rightarrow> string \<Rightarrow> juncture_client \<Rightarrow> (client_error, unit) result" where
  "delete_thread net i c = call net (jc_auth c) (Some (ClThreadNotFound i)) done_reader (http_request_new ''DELETE'' (jc_endpoint c @ ''/threads/'' @ i))"

section \<open>The client of a graph\<close>

record invoke_config =
  ic_thread_id :: "string option"
  ic_checkpoint_id :: "string option"
  ic_recursion_limit :: "nat option"
  ic_metadata :: "(string \<times> json) list option"
  ic_tags :: "string list option"
  ic_interrupt_before :: "string list option"
  ic_interrupt_after :: "string list option"

definition json_text :: "string option \<Rightarrow> json" where
  "json_text v = (case v of Some s \<Rightarrow> JStr s | None \<Rightarrow> JNull)"

definition json_texts :: "string list option \<Rightarrow> json" where
  "json_texts v = (case v of Some ss \<Rightarrow> JArr (map JStr ss) | None \<Rightarrow> JNull)"

definition invoke_config_json :: "invoke_config option \<Rightarrow> json" where
  "invoke_config_json cfg = (case cfg of None \<Rightarrow> JNull | Some g \<Rightarrow> JObj [(''thread_id'', json_text (ic_thread_id g)), (''checkpoint_id'', json_text (ic_checkpoint_id g)),
     (''recursion_limit'', (case ic_recursion_limit g of Some n \<Rightarrow> JNum n | None \<Rightarrow> JNull)), (''metadata'', json_map (ic_metadata g)), (''tags'', json_texts (ic_tags g)),
     (''interrupt_before'', json_texts (ic_interrupt_before g)), (''interrupt_after'', json_texts (ic_interrupt_after g))])"

definition thread_url :: "graph_client \<Rightarrow> string \<Rightarrow> string \<Rightarrow> string" where
  "thread_url g i rest = gc_endpoint g @ ''/threads/'' @ i @ rest"

definition graph_invoke :: "network \<Rightarrow> (string \<Rightarrow> (string, 's) result) \<Rightarrow> json \<Rightarrow> invoke_config option \<Rightarrow> graph_client \<Rightarrow> (client_error, 's) result" where
  "graph_invoke net read input cfg g = call net (gc_auth g) None read
     ((http_request_new ''POST'' (gc_endpoint g @ ''/invoke''))\<lparr>hr_body := Some (JObj [(''input'', input), (''config'', invoke_config_json cfg)])\<rparr>)"

definition graph_get_state :: "network \<Rightarrow> (string \<Rightarrow> (string, 't remote_snapshot) result) \<Rightarrow> string \<Rightarrow> graph_client \<Rightarrow> (client_error, 't remote_snapshot) result" where
  "graph_get_state net read i g = call net (gc_auth g) (Some (ClThreadNotFound i)) read (http_request_new ''GET'' (thread_url g i ''/state''))"

definition graph_get_state_history :: "network \<Rightarrow> (string \<Rightarrow> (string, 't remote_snapshot list) result) \<Rightarrow> string \<Rightarrow> nat option \<Rightarrow> graph_client \<Rightarrow> (client_error, 't remote_snapshot list) result" where
  "graph_get_state_history net read i limit g = call net (gc_auth g) (Some (ClThreadNotFound i)) read (with_limit limit (http_request_new ''GET'' (thread_url g i ''/history'')))"

definition graph_update_state :: "network \<Rightarrow> string \<Rightarrow> json \<Rightarrow> string option \<Rightarrow> graph_client \<Rightarrow> (client_error, unit) result" where
  "graph_update_state net i update as_node g = call net (gc_auth g) (Some (ClThreadNotFound i)) done_reader
     ((http_request_new ''POST'' (thread_url g i ''/state''))\<lparr>hr_body := Some (JObj [(''update'', update), (''as_node'', json_text as_node)])\<rparr>)"

definition graph_resume :: "network \<Rightarrow> (string \<Rightarrow> (string, json) result) \<Rightarrow> string \<Rightarrow> json list \<Rightarrow> graph_client \<Rightarrow> (client_error, json) result" where
  "graph_resume net read i values g = call net (gc_auth g) (Some (ClThreadNotFound i)) read
     ((http_request_new ''POST'' (thread_url g i ''/resume''))\<lparr>hr_body := Some (JObj [(''values'', JArr values)])\<rparr>)"

definition graph_cancel :: "network \<Rightarrow> string \<Rightarrow> string \<Rightarrow> graph_client \<Rightarrow> (client_error, unit) result" where
  "graph_cancel net i run g = call net (gc_auth g) (Some (ClRunNotFound run)) done_reader (http_request_new ''POST'' (thread_url g i (''/runs/'' @ run @ ''/cancel'')))"

section \<open>Remote graphs\<close>

record remote_graph =
  rg_endpoint :: string
  rg_graph_id :: string
  rg_client :: graph_client

definition remote_new :: "string \<Rightarrow> string \<Rightarrow> remote_graph" where
  "remote_new endpoint graph_id = \<lparr>rg_endpoint = endpoint, rg_graph_id = graph_id,
     rg_client = \<lparr>gc_endpoint = endpoint @ ''/graphs/'' @ graph_id, gc_auth = AuthNone\<rparr>\<rparr>"

definition remote_clone :: "remote_graph \<Rightarrow> remote_graph" where
  "remote_clone r = \<lparr>rg_endpoint = rg_endpoint r, rg_graph_id = rg_graph_id r,
     rg_client = \<lparr>gc_endpoint = gc_endpoint (rg_client r), gc_auth = gc_auth (rg_client r)\<rparr>\<rparr>"

definition remote_invoke :: "network \<Rightarrow> ('s \<Rightarrow> (string, json) result) \<Rightarrow> (string \<Rightarrow> (string, 's) result) \<Rightarrow> 's \<Rightarrow> invoke_config option \<Rightarrow> remote_graph \<Rightarrow> (client_error, 's) result" where
  "remote_invoke net to_value read input cfg r = try_bind (map_sum ClSerialize id (to_value input)) (\<lambda>v. graph_invoke net read v cfg (rg_client r))"

definition remote_get_state :: "network \<Rightarrow> (string \<Rightarrow> (string, 't remote_snapshot) result) \<Rightarrow> string \<Rightarrow> remote_graph \<Rightarrow> (client_error, 't remote_snapshot) result" where
  "remote_get_state net read i r = graph_get_state net read i (rg_client r)"

definition remote_get_state_history :: "network \<Rightarrow> (string \<Rightarrow> (string, 't remote_snapshot list) result) \<Rightarrow> string \<Rightarrow> nat option \<Rightarrow> remote_graph \<Rightarrow> (client_error, 't remote_snapshot list) result" where
  "remote_get_state_history net read i limit r = graph_get_state_history net read i limit (rg_client r)"

definition remote_update_state :: "network \<Rightarrow> string \<Rightarrow> json \<Rightarrow> string option \<Rightarrow> remote_graph \<Rightarrow> (client_error, unit) result" where
  "remote_update_state net i update as_node r = graph_update_state net i update as_node (rg_client r)"

definition remote_resume :: "network \<Rightarrow> (string \<Rightarrow> (string, json) result) \<Rightarrow> string \<Rightarrow> json list \<Rightarrow> remote_graph \<Rightarrow> (client_error, json) result" where
  "remote_resume net read i values r = graph_resume net read i values (rg_client r)"

section \<open>What the calls answer\<close>

text \<open>A call succeeds exactly when the server answers with a success that reads; the error tells which step failed.\<close>

lemma call_cases:
  "call net auth missing read rq = (case net (apply_auth auth rq) of
       Inl e \<Rightarrow> Err (ClConnection e)
     | Inr (status, body) \<Rightarrow>
         if is_success status then (case read body of Inr v \<Rightarrow> Ok v | Inl e \<Rightarrow> Err (ClRequest e))
         else if status = 404 \<and> missing \<noteq> None then Err (the missing) else Err (ClServer status body))"
  by (auto simp: call_def send_request_def read_reply_def split: sum.split option.split)

lemma call_ok_iff:
  "call net auth missing read rq = Ok v \<longleftrightarrow> (\<exists>status body. net (apply_auth auth rq) = Ok (status, body) \<and> is_success status \<and> read body = Ok v)"
  by (auto simp: call_cases split: sum.splits prod.splits if_splits)

text \<open>A server that wants credentials.\<close>

definition guarded :: "(string \<times> string) \<Rightarrow> network \<Rightarrow> network" where
  "guarded cred net rq = (if cred \<in> set (hr_headers rq) then net rq else Ok (401, ''Unauthorized''))"

lemma call_without_credentials: "hr_headers rq = [] \<Longrightarrow> call (guarded cred net) AuthNone missing read rq = Err (ClServer 401 ''Unauthorized'')"
  by (simp add: call_cases apply_auth_def guarded_def is_success_def)

lemma call_with_token:
  "call (guarded (''authorization'', ''Bearer '' @ token) net) (AuthToken token) missing read rq = call net (AuthToken token) missing read rq"
  by (simp add: call_cases apply_auth_def guarded_def)

text \<open>
  A remote graph cannot authenticate.  It is always built without credentials and has no operation to set them, so a server that wants a token answers
  each of its operations with 401, while the graph of a client with that token gets the answer of the server.
\<close>

theorem remote_graph_unauthenticated:
  assumes "r \<in> {remote_new endpoint gid, remote_clone (remote_new endpoint gid)}" and "net' = guarded (''authorization'', ''Bearer '' @ token) net"
    and "to_value input = Ok v"
  shows "remote_invoke net' to_value read input cfg r = Err (ClServer 401 ''Unauthorized'') \<and>
     remote_get_state net' read1 i r = Err (ClServer 401 ''Unauthorized'') \<and> remote_get_state_history net' read2 i limit r = Err (ClServer 401 ''Unauthorized'') \<and>
     remote_update_state net' i update as_node r = Err (ClServer 401 ''Unauthorized'') \<and> remote_resume net' read3 i vs r = Err (ClServer 401 ''Unauthorized'') \<and>
     graph_invoke net' read v cfg (client_graph gid (with_auth (AuthToken token) (client_new endpoint))) =
       graph_invoke net read v cfg (client_graph gid (with_auth (AuthToken token) (client_new endpoint)))"
proof -
  have "gc_auth (rg_client r) = AuthNone" using assms(1) by (auto simp: remote_new_def remote_clone_def)
  then show ?thesis
    using assms(3)
    by (simp add: assms(2) remote_invoke_def remote_get_state_def remote_get_state_history_def remote_update_state_def remote_resume_def graph_invoke_def graph_get_state_def
        graph_get_state_history_def graph_update_state_def graph_resume_def call_without_credentials call_with_token [simplified] http_request_new_def with_limit_def
        client_graph_def with_auth_def split: option.split)
qed

theorem remote_graph_unauthenticated_witness:
  "remote_invoke (guarded (''authorization'', ''Bearer t'') (\<lambda>_. Ok (200, ''1''))) (\<lambda>s. Ok (JStr s)) Inr ''x'' None (remote_new ''http://h'' ''g'') = Err (ClServer 401 ''Unauthorized'')"
  using remote_graph_unauthenticated [OF insertI1 refl, of "\<lambda>s. Ok (JStr s)" "''x''" "JStr ''x''" "''t''" "\<lambda>_. Ok (200, ''1'')" Inr None "''http://h''" "''g''", THEN conjunct1] by simp

end
