(* ===== verification/Checkpoint_Cache.thy ===== *)
theory Checkpoint_Cache
  imports Strings "HOL-Library.AList"
begin

text \<open>
  The cache of checkpoint data in memory (\<open>juncture-checkpoint/src/cache.rs\<close>).  Its table is an LRU table of the crate \<open>lru\<close>, a parameter of the
  model: \<open>lru_ops\<close> has the methods the cache calls and \<open>lru_laws\<close> what their documentation says of them.  The clock and the addition of a
  duration to an instant, which panics on overflow (\<open>None\<close>), are parameters too.  No operation fails, so results are given without \<open>Ok\<close>.
\<close>

section \<open>The table\<close>

record cache_entry =
  ce_data :: string
  ce_expires_at :: "nat option"

definition is_expired :: "nat \<Rightarrow> cache_entry \<Rightarrow> bool" where
  "is_expired now e = (case ce_expires_at e of Some t \<Rightarrow> now \<ge> t | None \<Rightarrow> False)"

record 'c lru_ops =
  lru_new :: "nat \<Rightarrow> 'c"
  lru_get_mut :: "string \<Rightarrow> 'c \<Rightarrow> 'c \<times> cache_entry option"
  lru_put :: "string \<Rightarrow> cache_entry \<Rightarrow> 'c \<Rightarrow> 'c"
  lru_pop :: "string \<Rightarrow> 'c \<Rightarrow> 'c"
  lru_clear :: "'c \<Rightarrow> 'c"
  lru_iter :: "'c \<Rightarrow> (string \<times> cache_entry) list"
  lru_cap :: "'c \<Rightarrow> nat"

abbreviation entries :: "'c lru_ops \<Rightarrow> 'c \<Rightarrow> string \<rightharpoonup> cache_entry" where
  "entries L c \<equiv> map_of (lru_iter L c)"

text \<open>A lookup only changes the order; an insertion may evict other entries, but not while there is room; the capacity is kept.\<close>

definition lru_laws :: "'c lru_ops \<Rightarrow> bool" where
  "lru_laws L \<longleftrightarrow>
     (\<forall>c. distinct (map fst (lru_iter L c))) \<and> (\<forall>n. lru_iter L (lru_new L n) = [] \<and> lru_cap L (lru_new L n) = n) \<and>
     (\<forall>k c. snd (lru_get_mut L k c) = entries L c k \<and> entries L (fst (lru_get_mut L k c)) = entries L c \<and>
        length (lru_iter L (fst (lru_get_mut L k c))) = length (lru_iter L c) \<and> lru_cap L (fst (lru_get_mut L k c)) = lru_cap L c) \<and>
     (\<forall>k e c. lru_cap L c > 0 \<longrightarrow> entries L (lru_put L k e c) k = Some e \<and> entries L (lru_put L k e c) \<subseteq>\<^sub>m (entries L c)(k \<mapsto> e) \<and>
        length (lru_iter L (lru_put L k e c)) \<le> lru_cap L c \<and> lru_cap L (lru_put L k e c) = lru_cap L c \<and>
        (length (lru_iter L c) < lru_cap L c \<longrightarrow> entries L (lru_put L k e c) = (entries L c)(k \<mapsto> e))) \<and>
     (\<forall>k c. entries L (lru_pop L k c) = (entries L c)(k := None) \<and> length (lru_iter L (lru_pop L k c)) \<le> length (lru_iter L c) \<and>
        lru_cap L (lru_pop L k c) = lru_cap L c) \<and>
     (\<forall>c. lru_iter L (lru_clear L c) = [] \<and> lru_cap L (lru_clear L c) = lru_cap L c)"

section \<open>The cache\<close>

record 'c memory_cache =
  mc_entries :: 'c
  mc_default_ttl :: "nat option"

definition DEFAULT_CAPACITY :: nat where
  "DEFAULT_CAPACITY = 1000"

definition cache_new :: "'c lru_ops \<Rightarrow> nat \<Rightarrow> 'c memory_cache" where
  "cache_new L capacity = \<lparr>mc_entries = lru_new L capacity, mc_default_ttl = None\<rparr>"

definition cache_with_ttl :: "'c lru_ops \<Rightarrow> nat \<Rightarrow> nat \<Rightarrow> 'c memory_cache" where
  "cache_with_ttl L capacity ttl = \<lparr>mc_entries = lru_new L capacity, mc_default_ttl = Some ttl\<rparr>"

definition cache_default :: "'c lru_ops \<Rightarrow> 'c memory_cache" where
  "cache_default L = cache_new L DEFAULT_CAPACITY"

definition build_key :: "string \<Rightarrow> string \<Rightarrow> string" where
  "build_key ns key = ns @ '':'' @ key"

definition pop_all :: "'c lru_ops \<Rightarrow> string list \<Rightarrow> 'c \<Rightarrow> 'c" where
  "pop_all L ks c = fold (lru_pop L) ks c"

definition purge_expired :: "'c lru_ops \<Rightarrow> nat \<Rightarrow> 'c memory_cache \<Rightarrow> 'c memory_cache" where
  "purge_expired L now m = m\<lparr>mc_entries := pop_all L (map fst (filter (\<lambda>(_, e). is_expired now e) (lru_iter L (mc_entries m)))) (mc_entries m)\<rparr>"

definition cache_stats :: "'c lru_ops \<Rightarrow> 'c memory_cache \<Rightarrow> nat \<times> nat" where
  "cache_stats L m = (length (lru_iter L (mc_entries m)), lru_cap L (mc_entries m))"

text \<open>The two instants are those of the purge and of the check of the entry.\<close>

definition cache_get :: "'c lru_ops \<Rightarrow> nat \<Rightarrow> nat \<Rightarrow> string \<Rightarrow> string \<Rightarrow> 'c memory_cache \<Rightarrow> 'c memory_cache \<times> string option" where
  "cache_get L now1 now2 ns key m = (let m1 = purge_expired L now1 m; k = build_key ns key in
     case lru_get_mut L k (mc_entries m1) of
       (c, Some e) \<Rightarrow> if is_expired now2 e then (m1\<lparr>mc_entries := lru_pop L k c\<rparr>, None) else (m1\<lparr>mc_entries := c\<rparr>, Some (ce_data e))
     | (c, None) \<Rightarrow> (m1\<lparr>mc_entries := c\<rparr>, None))"

definition entry_for :: "(nat \<Rightarrow> nat \<Rightarrow> nat option) \<Rightarrow> nat \<Rightarrow> nat option \<Rightarrow> nat option \<Rightarrow> string \<Rightarrow> cache_entry option" where
  "entry_for add now default_ttl ttl v = (case (case ttl of Some d \<Rightarrow> Some d | None \<Rightarrow> default_ttl) of
       None \<Rightarrow> Some \<lparr>ce_data = v, ce_expires_at = None\<rparr>
     | Some d \<Rightarrow> map_option (\<lambda>t. \<lparr>ce_data = v, ce_expires_at = Some t\<rparr>) (add now d))"

definition cache_set :: "'c lru_ops \<Rightarrow> (nat \<Rightarrow> nat \<Rightarrow> nat option) \<Rightarrow> nat \<Rightarrow> string \<Rightarrow> string \<Rightarrow> string \<Rightarrow> nat option \<Rightarrow> 'c memory_cache \<Rightarrow> 'c memory_cache option" where
  "cache_set L add now ns key v ttl m = map_option (\<lambda>e. m\<lparr>mc_entries := lru_put L (build_key ns key) e (mc_entries m)\<rparr>) (entry_for add now (mc_default_ttl m) ttl v)"

definition cache_delete :: "'c lru_ops \<Rightarrow> string \<Rightarrow> string \<Rightarrow> 'c memory_cache \<Rightarrow> 'c memory_cache" where
  "cache_delete L ns key m = m\<lparr>mc_entries := lru_pop L (build_key ns key) (mc_entries m)\<rparr>"

definition cache_clear :: "'c lru_ops \<Rightarrow> string option \<Rightarrow> 'c memory_cache \<Rightarrow> 'c memory_cache" where
  "cache_clear L ns m = (case ns of
       Some n \<Rightarrow> m\<lparr>mc_entries := pop_all L (filter (starts_with (n @ '':'')) (map fst (lru_iter L (mc_entries m)))) (mc_entries m)\<rparr>
     | None \<Rightarrow> m\<lparr>mc_entries := lru_clear L (mc_entries m)\<rparr>)"

section \<open>What the cache may answer\<close>

lemma lru_lawsD:
  assumes "lru_laws L"
  shows "lru_iter L (lru_new L n) = []" "lru_cap L (lru_new L n) = n"
    "snd (lru_get_mut L k c) = entries L c k" "entries L (fst (lru_get_mut L k c)) = entries L c" "lru_cap L (fst (lru_get_mut L k c)) = lru_cap L c"
    "length (lru_iter L (fst (lru_get_mut L k c))) = length (lru_iter L c)"
    "entries L (lru_pop L k c) = (entries L c)(k := None)" "lru_cap L (lru_pop L k c) = lru_cap L c" "length (lru_iter L (lru_pop L k c)) \<le> length (lru_iter L c)"
    "lru_iter L (lru_clear L c) = []" "lru_cap L (lru_clear L c) = lru_cap L c"
    "lru_cap L c > 0 \<Longrightarrow> entries L (lru_put L k e c) k = Some e" "lru_cap L c > 0 \<Longrightarrow> entries L (lru_put L k e c) \<subseteq>\<^sub>m (entries L c)(k \<mapsto> e)"
    "lru_cap L c > 0 \<Longrightarrow> lru_cap L (lru_put L k e c) = lru_cap L c" "lru_cap L c > 0 \<Longrightarrow> length (lru_iter L (lru_put L k e c)) \<le> lru_cap L c"
    "distinct (map fst (lru_iter L c))"
  using assms by (simp_all add: lru_laws_def)

lemma pop_all_entries:
  assumes "lru_laws L"
  shows "entries L (pop_all L ks c) = (\<lambda>k. if k \<in> set ks then None else entries L c k) \<and> lru_cap L (pop_all L ks c) = lru_cap L c \<and>
     length (lru_iter L (pop_all L ks c)) \<le> length (lru_iter L c)"
proof (induction ks arbitrary: c)
  case (Cons k ks)
  have "length (lru_iter L (lru_pop L k c)) \<le> length (lru_iter L c)" by (rule lru_lawsD(9) [OF assms])
  then show ?case using Cons [of "lru_pop L k c"] by (auto simp: pop_all_def lru_lawsD(7,8) [OF assms] fun_eq_iff intro: order_trans)
qed (simp add: pop_all_def)

text \<open>A lossy map: what was set last under a slot and not deleted or cleared since.\<close>

type_synonym cache_spec = "string \<rightharpoonup> cache_entry"

datatype cache_event =
    CeGet nat nat string string
  | CeSet nat string string string "nat option"
  | CeDelete string string
  | CeClear "string option"

fun cache_step :: "'c lru_ops \<Rightarrow> (nat \<Rightarrow> nat \<Rightarrow> nat option) \<Rightarrow> cache_event \<Rightarrow> 'c memory_cache \<Rightarrow> 'c memory_cache" where
  "cache_step L add (CeGet now1 now2 ns key) m = fst (cache_get L now1 now2 ns key m)"
| "cache_step L add (CeSet now ns key v ttl) m = (case cache_set L add now ns key v ttl m of Some m' \<Rightarrow> m' | None \<Rightarrow> m)"
| "cache_step L add (CeDelete ns key) m = cache_delete L ns key m"
| "cache_step L add (CeClear ns) m = cache_clear L ns m"

fun spec_step :: "(nat \<Rightarrow> nat \<Rightarrow> nat option) \<Rightarrow> nat option \<Rightarrow> cache_event \<Rightarrow> cache_spec \<Rightarrow> cache_spec" where
  "spec_step add dflt (CeGet _ _ _ _) M = M"
| "spec_step add dflt (CeSet now ns key v ttl) M = (case entry_for add now dflt ttl v of Some e \<Rightarrow> M(build_key ns key \<mapsto> e) | None \<Rightarrow> M)"
| "spec_step add dflt (CeDelete ns key) M = M(build_key ns key := None)"
| "spec_step add dflt (CeClear None) M = Map.empty"
| "spec_step add dflt (CeClear (Some ns)) M = (\<lambda>k. if starts_with (ns @ '':'') k then None else M k)"

definition spec_get :: "nat \<Rightarrow> string \<Rightarrow> string \<Rightarrow> cache_spec \<Rightarrow> string option" where
  "spec_get now ns key M = Option.bind (M (build_key ns key)) (\<lambda>e. if is_expired now e then None else Some (ce_data e))"

text \<open>The cache holds a part of the map, within its capacity.\<close>

definition cache_holds :: "'c lru_ops \<Rightarrow> nat \<Rightarrow> nat option \<Rightarrow> 'c memory_cache \<Rightarrow> cache_spec \<Rightarrow> bool" where
  "cache_holds L n dflt m M \<longleftrightarrow> entries L (mc_entries m) \<subseteq>\<^sub>m M \<and> lru_cap L (mc_entries m) = n \<and> length (lru_iter L (mc_entries m)) \<le> n \<and> mc_default_ttl m = dflt"

lemma purge_entries:
  assumes "lru_laws L"
  shows "entries L (mc_entries (purge_expired L now m)) = (\<lambda>k. Option.bind (entries L (mc_entries m) k) (\<lambda>e. if is_expired now e then None else Some e))"
proof
  fix k
  let ?c = "mc_entries m"
  have "k \<in> set (map fst (filter (\<lambda>(_, e). is_expired now e) (lru_iter L ?c))) \<longleftrightarrow> (\<exists>e. entries L ?c k = Some e \<and> is_expired now e)"
    using lru_lawsD(16) [OF assms, of ?c] by (force simp: map_of_eq_Some_iff)
  then show "entries L (mc_entries (purge_expired L now m)) k = Option.bind (entries L ?c k) (\<lambda>e. if is_expired now e then None else Some e)"
    using pop_all_entries [OF assms, of _ ?c] by (cases "entries L ?c k") (auto simp: purge_expired_def)
qed

lemma purge_holds:
  assumes "lru_laws L" "cache_holds L n dflt m M"
  shows "cache_holds L n dflt (purge_expired L now m) M"
proof -
  have "entries L (mc_entries (purge_expired L now m)) \<subseteq>\<^sub>m entries L (mc_entries m)"
    unfolding purge_entries [OF assms(1)] by (auto simp: map_le_def bind_eq_Some_conv dom_def split: if_splits)
  moreover have "entries L (mc_entries m) \<subseteq>\<^sub>m M" using assms(2) by (simp add: cache_holds_def)
  ultimately have "entries L (mc_entries (purge_expired L now m)) \<subseteq>\<^sub>m M" by (rule map_le_trans)
  moreover have "lru_cap L (mc_entries (purge_expired L now m)) = n" "length (lru_iter L (mc_entries (purge_expired L now m))) \<le> n"
    "mc_default_ttl (purge_expired L now m) = dflt"
    using assms(2) pop_all_entries [OF assms(1), of _ "mc_entries m"] by (auto simp: purge_expired_def cache_holds_def intro: order_trans)
  ultimately show ?thesis by (simp add: cache_holds_def)
qed

lemma cache_get_exact:
  assumes "lru_laws L"
  shows "snd (cache_get L t1 t2 ns key m) = Option.bind (entries L (mc_entries m) (build_key ns key))
     (\<lambda>e. if is_expired t1 e \<or> is_expired t2 e then None else Some (ce_data e))"
proof -
  let ?m = "purge_expired L t1 m" and ?k = "build_key ns key"
  have "snd (lru_get_mut L ?k (mc_entries ?m)) = Option.bind (entries L (mc_entries m) ?k) (\<lambda>e. if is_expired t1 e then None else Some e)"
    unfolding lru_lawsD(3) [OF assms] purge_entries [OF assms] ..
  then show ?thesis
    by (cases "lru_get_mut L ?k (mc_entries ?m)"; cases "entries L (mc_entries m) ?k") (auto simp: cache_get_def Let_def split: option.split)
qed

lemma step_holds:
  assumes L: "lru_laws L" and n: "n > 0" and h: "cache_holds L n dflt m M"
  shows "cache_holds L n dflt (cache_step L add ev m) (spec_step add dflt ev M)"
proof (cases ev)
  case (CeGet t1 t2 ns key)
  note p = purge_holds [OF L h, of t1]
  let ?c = "mc_entries (purge_expired L t1 m)"
  have "entries L ?c \<subseteq>\<^sub>m M" using p by (simp add: cache_holds_def)
  moreover from this have "(entries L ?c)(k := None) \<subseteq>\<^sub>m M" for k by (auto simp: map_le_def)
  ultimately have "entries L (fst (lru_get_mut L (build_key ns key) ?c)) \<subseteq>\<^sub>m M" "entries L (lru_pop L (build_key ns key) (fst (lru_get_mut L (build_key ns key) ?c))) \<subseteq>\<^sub>m M"
    by (simp_all only: lru_lawsD(4,7) [OF L])
  moreover have "length (lru_iter L (lru_pop L k (fst (lru_get_mut L k ?c)))) \<le> n" for k
    using lru_lawsD(9) [OF L, of k "fst (lru_get_mut L k ?c)"] p by (simp add: cache_holds_def lru_lawsD(6) [OF L])
  ultimately show ?thesis using p
    by (auto simp: CeGet cache_get_def cache_holds_def Let_def lru_lawsD(5,6,8) [OF L] case_prod_beta split: option.split)
next
  case (CeSet now ns key v ttl)
  have c: "lru_cap L (mc_entries m) > 0" using h n by (simp add: cache_holds_def)
  have "entries L (lru_put L k e (mc_entries m)) \<subseteq>\<^sub>m M(k \<mapsto> e)" for k e
    using lru_lawsD(13) [OF L c, of k e] h by (auto simp: cache_holds_def map_le_def dom_def split: if_splits)
  moreover have "mc_default_ttl m = dflt" using h by (simp add: cache_holds_def)
  ultimately show ?thesis using h lru_lawsD(14,15) [OF L c]
    by (auto simp: CeSet cache_set_def cache_holds_def split: option.split)
next
  case (CeDelete ns key)
  have "(entries L (mc_entries m))(k := None) \<subseteq>\<^sub>m M(k := None)" for k using h by (auto simp: cache_holds_def map_le_def)
  then show ?thesis using h lru_lawsD(9) [OF L, of "build_key ns key" "mc_entries m"]
    by (simp add: CeDelete cache_delete_def cache_holds_def lru_lawsD(7,8) [OF L])
next
  case (CeClear ns)
  show ?thesis
  proof (cases ns)
    case None
    then show ?thesis using h by (simp add: CeClear cache_clear_def cache_holds_def lru_lawsD(10,11) [OF L])
  next
    case (Some x)
    note pop = pop_all_entries [OF L, of "filter (starts_with (x @ '':'')) (map fst (lru_iter L (mc_entries m)))" "mc_entries m"]
    have gone: "k \<in> fst ` set (lru_iter L (mc_entries m))" if "entries L (mc_entries m) k = Some e" for k e using map_of_SomeD [OF that] by force
    have "entries L (mc_entries (cache_clear L ns m)) \<subseteq>\<^sub>m (\<lambda>k. if starts_with (x @ '':'') k then None else M k)"
      using h gone pop by (auto simp: Some cache_clear_def cache_holds_def map_le_def dom_def split: if_splits)
    then show ?thesis using h pop by (simp add: CeClear Some cache_clear_def cache_holds_def)
  qed
qed

lemma run_holds:
  assumes "lru_laws L" "n > 0"
  shows "cache_holds L n dflt (fold (cache_step L add) es \<lparr>mc_entries = lru_new L n, mc_default_ttl = dflt\<rparr>) (fold (spec_step add dflt) es Map.empty)"
proof (induction es rule: rev_induct)
  case (snoc ev es)
  then show ?case by (simp add: step_holds [OF assms])
qed (simp add: cache_holds_def lru_lawsD(1,2) [OF assms(1)])


text \<open>A table with these laws: entries in a list, the most recent first.\<close>

type_synonym list_lru = "nat \<times> (string \<times> cache_entry) list"

definition list_lru_ops :: "list_lru lru_ops" where
  "list_lru_ops = \<lparr>lru_new = (\<lambda>n. (n, [])),
     lru_get_mut = (\<lambda>k (n, xs). (case map_of xs k of None \<Rightarrow> ((n, xs), None) | Some e \<Rightarrow> ((n, (k, e) # AList.delete k xs), Some e))),
     lru_put = (\<lambda>k e (n, xs). (n, take n ((k, e) # AList.delete k (AList.clearjunk xs)))),
     lru_pop = (\<lambda>k (n, xs). (n, AList.delete k xs)), lru_clear = (\<lambda>(n, xs). (n, [])), lru_iter = (\<lambda>(n, xs). AList.clearjunk xs), lru_cap = fst\<rparr>"

lemma map_of_take_le: "distinct (map fst xs) \<Longrightarrow> map_of (take n xs) \<subseteq>\<^sub>m map_of xs"
proof -
  assume "distinct (map fst xs)"
  then have "distinct (map fst (take n xs @ drop n xs))" by simp
  then have "dom (map_of (take n xs)) \<inter> dom (map_of (drop n xs)) = {}" unfolding map_append distinct_append dom_map_of_conv_image_fst by auto
  then have "map_of (take n xs) \<subseteq>\<^sub>m map_of (drop n xs) ++ map_of (take n xs)" by (simp add: map_le_map_add)
  then show ?thesis by (metis append_take_drop_id map_of_append)
qed

lemma length_clearjunk_card: "length (AList.clearjunk xs) = card (fst ` set xs)"
  by (metis AList.distinct_clearjunk AList.dom_clearjunk distinct_card length_map list.set_map)

lemma list_lru_put:
  fixes xs :: "(string \<times> cache_entry) list" and k e
  defines "ys \<equiv> (k, e) # AList.delete k (AList.clearjunk xs)"
  shows "distinct (map fst ys)" "AList.clearjunk (take n ys) = take n ys" "map_of ys = (map_of xs)(k \<mapsto> e)" "length ys \<le> Suc (length (AList.clearjunk xs))"
proof -
  show d: "distinct (map fst ys)"
    unfolding ys_def list.map fst_conv AList.delete_keys by (simp add: distinct_removeAll)
  have "distinct (map fst (take n ys))" using d by (metis distinct_take take_map)
  then show "AList.clearjunk (take n ys) = take n ys" by simp
  show "map_of ys = (map_of xs)(k \<mapsto> e)" by (simp add: ys_def AList.delete_conv AList.map_of_clearjunk fun_eq_iff)
  show "length ys \<le> Suc (length (AList.clearjunk xs))" by (simp add: ys_def AList.length_delete_le)
qed

lemma list_lru_promote:
  assumes "map_of xs k = Some e"
  shows "map_of ((k, e) # AList.delete k xs) = map_of xs" "length (AList.clearjunk ((k, e) # AList.delete k xs)) = length (AList.clearjunk xs)"
proof -
  show "map_of ((k, e) # AList.delete k xs) = map_of xs" using assms by (simp add: AList.delete_conv fun_eq_iff)
  then have "fst ` set ((k, e) # AList.delete k xs) = fst ` set xs" by (metis dom_map_of_conv_image_fst)
  then show "length (AList.clearjunk ((k, e) # AList.delete k xs)) = length (AList.clearjunk xs)" unfolding length_clearjunk_card by simp
qed

lemma list_lru_laws: "lru_laws list_lru_ops"
proof -
  have get: "\<forall>k (c :: list_lru). snd (lru_get_mut list_lru_ops k c) = entries list_lru_ops c k \<and> entries list_lru_ops (fst (lru_get_mut list_lru_ops k c)) = entries list_lru_ops c \<and>
      length (lru_iter list_lru_ops (fst (lru_get_mut list_lru_ops k c))) = length (lru_iter list_lru_ops c) \<and>
      lru_cap list_lru_ops (fst (lru_get_mut list_lru_ops k c)) = lru_cap list_lru_ops c"
    using list_lru_promote by (auto simp: list_lru_ops_def AList.map_of_clearjunk simp del: map_of.simps AList.clearjunk.simps split: option.split)
  have put: "\<forall>k e (c :: list_lru). lru_cap list_lru_ops c > 0 \<longrightarrow> entries list_lru_ops (lru_put list_lru_ops k e c) k = Some e \<and>
      entries list_lru_ops (lru_put list_lru_ops k e c) \<subseteq>\<^sub>m (entries list_lru_ops c)(k \<mapsto> e) \<and>
      length (lru_iter list_lru_ops (lru_put list_lru_ops k e c)) \<le> lru_cap list_lru_ops c \<and> lru_cap list_lru_ops (lru_put list_lru_ops k e c) = lru_cap list_lru_ops c \<and>
      (length (lru_iter list_lru_ops c) < lru_cap list_lru_ops c \<longrightarrow> entries list_lru_ops (lru_put list_lru_ops k e c) = (entries list_lru_ops c)(k \<mapsto> e))"
  proof (intro allI impI)
    fix k e and c :: list_lru
    obtain n xs where c: "c = (n, xs)" by fastforce
    let ?ys = "(k, e) # AList.delete k (AList.clearjunk xs)"
    assume "lru_cap list_lru_ops c > 0"
    then have "map_of (take n ?ys) k = Some e" by (cases n) (simp_all add: c list_lru_ops_def)
    moreover have "map_of (take n ?ys) \<subseteq>\<^sub>m (map_of xs)(k \<mapsto> e)" using map_of_take_le [OF list_lru_put(1) [of k e xs], of n] unfolding list_lru_put(3) .
    moreover have "length (AList.clearjunk xs) < n \<Longrightarrow> take n ?ys = ?ys" using list_lru_put(4) [of k e xs] by simp
    moreover have "length (take n ?ys) \<le> n" by simp
    ultimately show "entries list_lru_ops (lru_put list_lru_ops k e c) k = Some e \<and>
      entries list_lru_ops (lru_put list_lru_ops k e c) \<subseteq>\<^sub>m (entries list_lru_ops c)(k \<mapsto> e) \<and>
      length (lru_iter list_lru_ops (lru_put list_lru_ops k e c)) \<le> lru_cap list_lru_ops c \<and> lru_cap list_lru_ops (lru_put list_lru_ops k e c) = lru_cap list_lru_ops c \<and>
      (length (lru_iter list_lru_ops c) < lru_cap list_lru_ops c \<longrightarrow> entries list_lru_ops (lru_put list_lru_ops k e c) = (entries list_lru_ops c)(k \<mapsto> e))"
      unfolding c list_lru_ops_def using list_lru_put(2) [where k = k and e = e and xs = xs and n = n] list_lru_put(3) [of k e xs]
      by (simp add: AList.map_of_clearjunk del: map_of.simps take_Cons AList.clearjunk.simps length_take)
  qed
  have rest: "(\<forall>c :: list_lru. distinct (map fst (lru_iter list_lru_ops c))) \<and> (\<forall>n. lru_iter list_lru_ops (lru_new list_lru_ops n) = [] \<and> lru_cap list_lru_ops (lru_new list_lru_ops n) = n)"
    "\<forall>k (c :: list_lru). entries list_lru_ops (lru_pop list_lru_ops k c) = (entries list_lru_ops c)(k := None) \<and>
       length (lru_iter list_lru_ops (lru_pop list_lru_ops k c)) \<le> length (lru_iter list_lru_ops c) \<and> lru_cap list_lru_ops (lru_pop list_lru_ops k c) = lru_cap list_lru_ops c"
    "\<forall>c :: list_lru. lru_iter list_lru_ops (lru_clear list_lru_ops c) = [] \<and> lru_cap list_lru_ops (lru_clear list_lru_ops c) = lru_cap list_lru_ops c"
    by (auto simp: list_lru_ops_def AList.map_of_clearjunk AList.delete_conv AList.clearjunk_delete AList.length_delete_le)
  show ?thesis unfolding lru_laws_def using rest get put by blast
qed


text \<open>
  The slots of the cache do not separate namespaces.  A namespace and a key are joined by a colon without escaping: a value set for one pair is found under every pair with the
  same joined text, and clearing a namespace also clears every namespace that extends it by a colon.
\<close>

theorem cache_namespaces_overlap:
  assumes "lru_laws L" and "lru_cap L (mc_entries m) > 0" and "cache_set L add now (a @ '':'' @ b) key v None m = Some m'" and "mc_default_ttl m = None"
  shows "snd (cache_get L t1 t2 a (b @ '':'' @ key) m') = Some v \<and> snd (cache_get L t1 t2 (a @ '':'' @ b) key (cache_clear L (Some a) m')) = None"
proof -
  let ?k = "build_key (a @ '':'' @ b) key"
  let ?e = "\<lparr>ce_data = v, ce_expires_at = None\<rparr>"
  have same: "build_key a (b @ '':'' @ key) = ?k" by (simp add: build_key_def)
  have "m' = m\<lparr>mc_entries := lru_put L ?k ?e (mc_entries m)\<rparr>" using assms(3,4) by (simp add: cache_set_def entry_for_def)
  then have found: "entries L (mc_entries m') ?k = Some ?e" using lru_lawsD(12) [OF assms(1,2)] by simp
  have "?k \<in> set (map fst (lru_iter L (mc_entries m')))" using map_of_SomeD [OF found] by force
  moreover have "starts_with (a @ '':'') ?k" unfolding starts_with_iff build_key_def by simp
  ultimately have "entries L (mc_entries (cache_clear L (Some a) m')) ?k = None"
    using pop_all_entries [OF assms(1), of "filter (starts_with (a @ '':'')) (map fst (lru_iter L (mc_entries m')))" "mc_entries m'"] by (simp add: cache_clear_def)
  then show ?thesis unfolding cache_get_exact [OF assms(1)] same using found by (simp add: is_expired_def)
qed

theorem cache_namespaces_overlap_witness:
  "snd (cache_get list_lru_ops 0 0 ''a'' ''b:k'' (the (cache_set list_lru_ops (\<lambda>a b. Some (a + b)) 0 ''a:b'' ''k'' ''v'' None (cache_new list_lru_ops 3)))) = Some ''v''"
proof -
  obtain m' where m': "cache_set list_lru_ops (\<lambda>a b. Some (a + b)) 0 (''a'' @ '':'' @ ''b'') ''k'' ''v'' None (cache_new list_lru_ops 3) = Some m'"
    by (simp add: cache_set_def entry_for_def cache_new_def)
  have "lru_cap list_lru_ops (mc_entries (cache_new list_lru_ops 3)) > 0" "mc_default_ttl (cache_new list_lru_ops 3) = None"
    by (simp_all add: cache_new_def lru_lawsD(2) [OF list_lru_laws])
  from cache_namespaces_overlap [OF list_lru_laws this(1) m' this(2), of 0 0] show ?thesis using m' by simp
qed

end
