(* ===== verification/Errors.thy ===== *)
theory Errors
  imports Strings
begin

text \<open>
  The error values of \<open>juncture-core/src/error.rs\<close>: \<open>JunctureError\<close> (its kind; the backtrace
  carries no behaviour), the public \<open>ErrorCode\<close> it is classified by, and the
  predicates callers branch on.
\<close>

section \<open>Error kinds\<close>

datatype node_timeout_error =
    RunTimeout (nte_node: string) (nte_timeout: nat)
  | IdleTimeout (nte_node: string) (nte_timeout: nat)

datatype invalid_update_error =
    IUMultipleWriters string "string list"
  | IUMultipleOverwrite string
  | IUInvalidValue string string

datatype juncture_error =
    GraphError string
  | ExecutionError string
  | CheckpointError string
  | InterruptError string
  | Interrupted nat
  | SubgraphError string
  | InvalidUpdate string
  | EmptyChannel
  | EmptyInput
  | TaskNotFound string
  | TimeoutError string
  | RecursionLimit nat nat
  | Cancelled
  | MultipleWriters nat "string list"
  | TaskPanicked string
  | NodeTimeout node_timeout_error
  | ParentCommandError string
  | MissingResumeValue "string list"

datatype error_code =
    CodeGraph | CodeExecution | CodeCheckpoint | CodeInterrupt | CodeInterrupted
  | CodeSubgraph | CodeInvalidUpdate | CodeEmptyChannel | CodeEmptyInput | CodeTaskNotFound
  | CodeTimeout | CodeRecursionLimit | CodeCancelled | CodeMultipleWriters | CodeTaskPanicked
  | CodeNodeTimeout | CodeParentCommand | CodeMissingResumeValue

fun error_code_of :: "juncture_error \<Rightarrow> error_code" where
  "error_code_of (GraphError _) = CodeGraph"
| "error_code_of (ExecutionError _) = CodeExecution"
| "error_code_of (CheckpointError _) = CodeCheckpoint"
| "error_code_of (InterruptError _) = CodeInterrupt"
| "error_code_of (Interrupted _) = CodeInterrupted"
| "error_code_of (SubgraphError _) = CodeSubgraph"
| "error_code_of (InvalidUpdate _) = CodeInvalidUpdate"
| "error_code_of EmptyChannel = CodeEmptyChannel"
| "error_code_of EmptyInput = CodeEmptyInput"
| "error_code_of (TaskNotFound _) = CodeTaskNotFound"
| "error_code_of (TimeoutError _) = CodeTimeout"
| "error_code_of (RecursionLimit _ _) = CodeRecursionLimit"
| "error_code_of Cancelled = CodeCancelled"
| "error_code_of (MultipleWriters _ _) = CodeMultipleWriters"
| "error_code_of (TaskPanicked _) = CodeTaskPanicked"
| "error_code_of (NodeTimeout _) = CodeNodeTimeout"
| "error_code_of (ParentCommandError _) = CodeParentCommand"
| "error_code_of (MissingResumeValue _) = CodeMissingResumeValue"

section \<open>Predicates\<close>

definition is_interrupt :: "juncture_error \<Rightarrow> bool" where
  "is_interrupt e = (case e of InterruptError _ \<Rightarrow> True | Interrupted _ \<Rightarrow> True | _ \<Rightarrow> False)"

definition is_cancelled :: "juncture_error \<Rightarrow> bool" where
  "is_cancelled e = (case e of Cancelled \<Rightarrow> True | _ \<Rightarrow> False)"

definition is_timeout :: "juncture_error \<Rightarrow> bool" where
  "is_timeout e = (case e of TimeoutError _ \<Rightarrow> True | _ \<Rightarrow> False)"

definition is_budget_exceeded :: "juncture_error \<Rightarrow> bool" where
  "is_budget_exceeded e = is_timeout e"

definition is_execution :: "juncture_error \<Rightarrow> bool" where
  "is_execution e = (case e of ExecutionError _ \<Rightarrow> True | _ \<Rightarrow> False)"

definition is_recursion_limit :: "juncture_error \<Rightarrow> bool" where
  "is_recursion_limit e = (case e of RecursionLimit _ _ \<Rightarrow> True | _ \<Rightarrow> False)"

definition is_multiple_writers :: "juncture_error \<Rightarrow> bool" where
  "is_multiple_writers e = (case e of MultipleWriters _ _ \<Rightarrow> True | _ \<Rightarrow> False)"

fun missing_resume_ids :: "juncture_error \<Rightarrow> string list option" where
  "missing_resume_ids (MissingResumeValue ids) = Some ids"
| "missing_resume_ids _ = None"

fun parent_command_target :: "juncture_error \<Rightarrow> string option" where
  "parent_command_target (ParentCommandError t) = Some t"
| "parent_command_target _ = None"

lemmas error_preds = is_interrupt_def is_cancelled_def is_timeout_def is_budget_exceeded_def
  is_execution_def is_recursion_limit_def is_multiple_writers_def

lemma is_interrupt_code:
  "is_interrupt e \<longleftrightarrow> error_code_of e \<in> {CodeInterrupt, CodeInterrupted}"
  by (cases e) (simp_all add: is_interrupt_def)

end
