(* ===== verification/State_Trait.thy ===== *)
theory State_Trait
  imports Errors
begin

text \<open>
  \<open>juncture-core/src/state/trait_.rs\<close>: the changed-field bitmask, the \<open>State\<close> trait as
  a record of its methods, and the copy-on-write wrapper.
\<close>

unbundle bit_operations_syntax

section \<open>FieldsChanged\<close>

type_synonym fields_changed = "64 word"

text \<open>
  \<open>1 << index\<close> on a \<open>u64\<close>: the shift amount is taken modulo the width (with overflow
  checks enabled an index of 64 or more panics instead).
\<close>

definition fc_bit :: "nat \<Rightarrow> fields_changed" where
  "fc_bit i = push_bit (i mod 64) 1"

definition fc_is_empty :: "fields_changed \<Rightarrow> bool" where
  "fc_is_empty fc = (fc = 0)"

definition has_field :: "fields_changed \<Rightarrow> nat \<Rightarrow> bool" where
  "has_field fc i = (fc AND fc_bit i \<noteq> 0)"

definition set_field :: "fields_changed \<Rightarrow> nat \<Rightarrow> fields_changed" where
  "set_field fc i = fc OR fc_bit i"

definition fc_merge :: "fields_changed \<Rightarrow> fields_changed \<Rightarrow> fields_changed" where
  "fc_merge a b = a OR b"

lemma bit_fc_bit: "bit (fc_bit i) n \<longleftrightarrow> n = i mod 64"
  by (auto simp: fc_bit_def bit_exp_iff)

lemma has_field_bit [fc_simps]: "has_field fc i \<longleftrightarrow> bit fc (i mod 64)"
proof
  assume "has_field fc i"
  then obtain n where "bit (fc AND fc_bit i) n"
    by (auto simp: has_field_def bit_eq_iff)
  then show "bit fc (i mod 64)"
    by (auto simp: bit_and_iff bit_fc_bit)
next
  assume "bit fc (i mod 64)"
  then have "bit (fc AND fc_bit i) (i mod 64)"
    by (simp add: bit_and_iff bit_fc_bit)
  then show "has_field fc i"
    unfolding has_field_def by (metis bit_0_eq bot_apply bot_bool_def)
qed

lemma has_field_0 [simp, fc_simps]: "\<not> has_field 0 i"
  by (simp add: has_field_def)

lemma has_field_set [simp, fc_simps]:
  "has_field (set_field fc i) j \<longleftrightarrow> has_field fc j \<or> j mod 64 = i mod 64"
  by (auto simp: has_field_bit set_field_def bit_or_iff bit_fc_bit)

lemma has_field_merge [simp, fc_simps]:
  "has_field (fc_merge a b) i \<longleftrightarrow> has_field a i \<or> has_field b i"
  by (simp add: has_field_bit fc_merge_def bit_or_iff)

lemma fc_merge_0 [simp, fc_simps]: "fc_merge 0 a = a" "fc_merge a 0 = a"
  by (simp_all add: fc_merge_def)

lemma fc_ext: "(\<And>i. i < 64 \<Longrightarrow> has_field a i = has_field b i) \<Longrightarrow> a = b"
  by (rule bit_word_eqI) (auto simp: has_field_bit)

lemma fc_is_empty_iff: "fc_is_empty fc \<longleftrightarrow> (\<forall>i < 64. \<not> has_field fc i)"
proof
  assume "\<forall>i < 64. \<not> has_field fc i"
  then have "fc = 0" by (intro fc_ext) auto
  then show "fc_is_empty fc" by (simp add: fc_is_empty_def)
qed (simp add: fc_is_empty_def)

section \<open>The State trait\<close>

text \<open>
  A user's state type with its update type, as the table of the trait's methods.  Methods
  with a default body in the trait are fields too: an implementation may override them.
\<close>

record ('s, 'u) state_impl =
  st_default :: 's
  st_apply :: "'s \<Rightarrow> 'u \<Rightarrow> 's \<times> fields_changed"
  st_try_apply :: "'s \<Rightarrow> 'u \<Rightarrow> (invalid_update_error, 's \<times> fields_changed) result"
  st_reset_ephemeral :: "'s \<Rightarrow> 's"
  st_finish_field :: "nat \<Rightarrow> 's \<Rightarrow> 's"
  st_consume_field :: "nat \<Rightarrow> 's \<Rightarrow> 's"
  st_consume_field_indices :: "nat list"
  st_replace_field_indices :: "nat list"
  st_replace_after_finish_field_indices :: "nat list"
  st_field_is_set :: "'u \<Rightarrow> nat \<Rightarrow> bool"
  st_field_count :: nat
  st_field_names :: "string list"
  st_delta_channel_specs :: "(nat \<times> nat) list"

text \<open>The trait's default \<open>try_apply\<close>.\<close>

definition default_try_apply ::
    "('s \<Rightarrow> 'u \<Rightarrow> 's \<times> fields_changed) \<Rightarrow> 's \<Rightarrow> 'u \<Rightarrow> (invalid_update_error, 's \<times> fields_changed) result" where
  "default_try_apply ap s u = Ok (ap s u)"

text \<open>
  The contract the engine relies on, in two layers.  Every implementation keeps the
  well-formedness of its states and never changes a state without reporting a field.  An
  implementation that also describes its fields (\<open>field_count\<close>, \<open>field_is_set\<close>) reports exactly the
  fields an update sets.
\<close>

locale state_base =
  fixes S :: "('s, 'u) state_impl"
    and wfs :: "'s \<Rightarrow> bool"
    and wfu :: "'u \<Rightarrow> bool"
  assumes default_wf: "wfs (st_default S)"
    and apply_wf: "\<lbrakk>wfs s; wfu u; st_try_apply S s u = Inr (s', fc)\<rbrakk> \<Longrightarrow> wfs s'"
    and reset_wf: "wfs s \<Longrightarrow> wfs (st_reset_ephemeral S s)"
    and finish_wf: "wfs s \<Longrightarrow> wfs (st_finish_field S i s)"
    and consume_wf: "wfs s \<Longrightarrow> wfs (st_consume_field S i s)"
    and unreported: "\<lbrakk>wfs s; wfu u; st_try_apply S s u = Inr (s', 0)\<rbrakk> \<Longrightarrow> s' = s"
begin

lemma finish_fields_wf: "wfs s \<Longrightarrow> wfs (fold (st_finish_field S) is s)"
  by (induction "is" arbitrary: s) (auto intro: finish_wf)

lemma consume_fields_wf: "wfs s \<Longrightarrow> wfs (fold (st_consume_field S) is s)"
  by (induction "is" arbitrary: s) (auto intro: consume_wf)

end

locale state_contract = state_base +
  assumes field_count_le: "st_field_count S \<le> 64"
    and changed_set: "\<lbrakk>wfs s; wfu u; st_try_apply S s u = Inr (s', fc); i < 64\<rbrakk>
          \<Longrightarrow> has_field fc i \<longleftrightarrow> i < st_field_count S \<and> st_field_is_set S u i"
begin

lemma changed_iff_set:
  "\<lbrakk>wfs s; wfu u; st_try_apply S s u = Inr (s', fc)\<rbrakk> \<Longrightarrow>
     fc_is_empty fc \<longleftrightarrow> (\<forall>i < st_field_count S. \<not> st_field_is_set S u i)"
  using field_count_le changed_set by (auto simp: fc_is_empty_iff)

end

section \<open>CowState\<close>

record ('s, 'u) cow_state =
  cow_shared :: 's
  cow_pending :: "'u option"

definition cow_new :: "'s \<Rightarrow> ('s, 'u) cow_state" where
  "cow_new s = \<lparr>cow_shared = s, cow_pending = None\<rparr>"

definition cow_get :: "('s, 'u) cow_state \<Rightarrow> 's" where
  "cow_get c = cow_shared c"

text \<open>Mutation through \<open>get_mut\<close>: the closure stands for the writes made through the reference.\<close>

definition cow_get_mut :: "('s \<Rightarrow> 's) \<Rightarrow> ('s, 'u) cow_state \<Rightarrow> ('s, 'u) cow_state" where
  "cow_get_mut f c = c\<lparr>cow_shared := f (cow_shared c)\<rparr>"

definition cow_update :: "'u \<Rightarrow> ('s, 'u) cow_state \<Rightarrow> ('s, 'u) cow_state" where
  "cow_update u c = c\<lparr>cow_pending := Some u\<rparr>"

definition cow_commit :: "('s, 'u) state_impl \<Rightarrow> ('s, 'u) cow_state \<Rightarrow> 's" where
  "cow_commit S c = (case cow_pending c of
       Some u \<Rightarrow> fst (st_apply S (cow_shared c) u)
     | None \<Rightarrow> cow_shared c)"

definition cow_try_commit :: "('s, 'u) state_impl \<Rightarrow> ('s, 'u) cow_state \<Rightarrow> (invalid_update_error, 's) result" where
  "cow_try_commit S c = (case cow_pending c of
       Some u \<Rightarrow> try_bind (st_try_apply S (cow_shared c) u) (\<lambda>(s, _). Ok s)
     | None \<Rightarrow> Ok (cow_shared c))"

definition cow_clone :: "('s, 'u) cow_state \<Rightarrow> ('s, 'u) cow_state" where
  "cow_clone c = \<lparr>cow_shared = cow_shared c, cow_pending = None\<rparr>"

lemmas cow_defs = cow_new_def cow_get_def cow_get_mut_def cow_update_def cow_commit_def
  cow_try_commit_def cow_clone_def

text \<open>A second \<open>update\<close> before \<open>commit\<close> replaces the first one: only the last is applied.\<close>

lemma cow_update_last: "cow_commit S (cow_update u2 (cow_update u1 c)) = cow_commit S (cow_update u2 c)"
  by (simp add: cow_defs)

lemma cow_clone_drops_pending: "cow_commit S (cow_clone c) = cow_get c"
  by (simp add: cow_defs)

end
