(* ===== verification/Channels.thy ===== *)
theory Channels
  imports State_Trait
begin

text \<open>
  \<open>juncture-core/src/state/channel.rs\<close>: the reducers that merge the writes of one
  superstep into a field, and the channel types that wrap a value with update,
  consume and checkpoint semantics.  A reducer or an update that can panic returns
  \<open>None\<close> for the panic.  Serialization of the user's value type is a parameter
  (\<open>to_value\<close>, \<open>from_value\<close> of \<open>serde_json\<close>).
\<close>

section \<open>Reducers\<close>

type_synonym 't reducer = "'t \<Rightarrow> 't list \<Rightarrow> 't option"

definition replace_reduce :: "'t reducer" where
  "replace_reduce cur vs =
     (if length vs \<le> 1 then Some (case vs of v # _ \<Rightarrow> v | [] \<Rightarrow> cur) else None)"

definition append_reduce_one :: "'a list \<Rightarrow> 'a list \<Rightarrow> 'a list" where
  "append_reduce_one cur v = cur @ v"

definition append_reduce :: "'a list reducer" where
  "append_reduce cur vs = Some (foldl (\<lambda>c v. c @ v) cur vs)"

text \<open>\<open>dbg\<close> says whether debug assertions are compiled in.\<close>

definition any_value_reduce :: "bool \<Rightarrow> 't reducer" where
  "any_value_reduce dbg cur vs =
     (if vs = [] then Some cur
      else if dbg \<and> \<not> list_all (\<lambda>v. v = hd vs) vs then None
      else Some (last vs))"

definition last_write_wins_reduce :: "'t reducer" where
  "last_write_wins_reduce cur vs = Some (if vs = [] then cur else last vs)"

text \<open>The trait's default \<open>reduce_one\<close>.\<close>

definition reduce_one :: "'t reducer \<Rightarrow> 't \<Rightarrow> 't \<Rightarrow> 't option" where
  "reduce_one R cur v = R cur [v]"

lemmas reducer_defs = replace_reduce_def append_reduce_def any_value_reduce_def
  last_write_wins_reduce_def reduce_one_def append_reduce_one_def

lemma append_reduce_concat: "append_reduce cur vs = Some (cur @ concat vs)"
proof -
  have "foldl (\<lambda>c v. c @ v) cur vs = cur @ concat vs"
    by (induction vs arbitrary: cur) auto
  then show ?thesis by (simp add: append_reduce_def)
qed

lemma append_reduce_one_agrees: "reduce_one append_reduce cur v = Some (append_reduce_one cur v)"
  by (simp add: reducer_defs)

text \<open>
  A reducer is \<^emph>\<open>batchable\<close> when merging a batch equals merging its parts in order: the
  law that lets one superstep's writes be applied one by one.
\<close>

locale batchable_reducer =
  fixes R :: "'t reducer"
  assumes reduce_nil: "R cur [] = Some cur"
    and reduce_append: "R cur (xs @ ys) = Option.bind (R cur xs) (\<lambda>c. R c ys)"
begin

lemma reduce_cons: "R cur (x # xs) = Option.bind (R cur [x]) (\<lambda>c. R c xs)"
  using reduce_append [of cur "[x]" xs] by simp

lemma reduce_total: "(\<And>c v. R c [v] \<noteq> None) \<Longrightarrow> R cur vs \<noteq> None"
proof (induction vs arbitrary: cur)
  case (Cons v vs)
  then obtain c where "R cur [v] = Some c" by blast
  then show ?case using Cons reduce_cons [of cur v vs] by simp
qed (simp add: reduce_nil)

end

interpretation append_red: batchable_reducer append_reduce
  by unfold_locales (simp_all add: append_reduce_concat)

interpretation lww_red: batchable_reducer last_write_wins_reduce
  by unfold_locales (simp_all add: last_write_wins_reduce_def)

section \<open>Overwrite\<close>

datatype 't overwrite = Overwrite (overwrite_get: 't)

definition overwrite_serialize :: "('t \<Rightarrow> json option) \<Rightarrow> 't overwrite \<Rightarrow> json option" where
  "overwrite_serialize to_value w =
     map_option (\<lambda>j. JObj [(''__overwrite__'', j)]) (to_value (overwrite_get w))"

definition overwrite_deserialize :: "(json \<Rightarrow> 't option) \<Rightarrow> json \<Rightarrow> 't overwrite option" where
  "overwrite_deserialize from_value j =
     Option.bind (as_object j) (\<lambda>kvs. Option.bind (map_of kvs ''__overwrite__'')
       (\<lambda>v. map_option Overwrite (from_value v)))"

section \<open>Checkpoint serialization\<close>

text \<open>\<open>checkpoint_to_value\<close>: a value that cannot be serialized is left out of the checkpoint.\<close>

definition checkpoint_to_value :: "('t \<Rightarrow> json option) \<Rightarrow> 't \<Rightarrow> json option" where
  "checkpoint_to_value to_value v = (case to_value v of Some j \<Rightarrow> Some j | None \<Rightarrow> None)"

text \<open>A pair is a two-element JSON array, a set of strings an array in iteration order.\<close>

definition pair_to_value :: "('a \<Rightarrow> json option) \<Rightarrow> ('b \<Rightarrow> json option) \<Rightarrow> 'a \<times> 'b \<Rightarrow> json option" where
  "pair_to_value f g p = (case (f (fst p), g (snd p)) of
       (Some a, Some b) \<Rightarrow> Some (JArr [a, b]) | _ \<Rightarrow> None)"

fun pair_from_value :: "(json \<Rightarrow> 'a option) \<Rightarrow> (json \<Rightarrow> 'b option) \<Rightarrow> json \<Rightarrow> ('a \<times> 'b) option" where
  "pair_from_value f g (JArr [a, b]) =
     (case (f a, g b) of (Some x, Some y) \<Rightarrow> Some (x, y) | _ \<Rightarrow> None)"
| "pair_from_value f g _ = None"

definition strings_to_value :: "string list \<Rightarrow> json option" where
  "strings_to_value xs = Some (JArr (map JStr xs))"

fun strings_from_value :: "json \<Rightarrow> string list option" where
  "strings_from_value (JArr js) = map_option hs_of_list (those (map as_str js))"
| "strings_from_value _ = None"

fun bool_from_value :: "json \<Rightarrow> bool option" where
  "bool_from_value (JBool b) = Some b"
| "bool_from_value _ = None"

definition list_to_value :: "('a \<Rightarrow> json option) \<Rightarrow> 'a list \<Rightarrow> json option" where
  "list_to_value f xs = map_option JArr (those (map f xs))"

fun list_from_value :: "(json \<Rightarrow> 'a option) \<Rightarrow> json \<Rightarrow> 'a list option" where
  "list_from_value f (JArr js) = those (map f js)"
| "list_from_value f _ = None"

lemma those_map_inv:
  assumes "\<And>x. g x = Some (h x)" and "\<And>x. f (h x) = Some x"
  shows "those (map g xs) = Some (map h xs) \<and> those (map f (map h xs)) = Some xs"
  by (induction xs) (simp_all add: assms)

lemma those_map_SomeD:
  assumes "those (map g xs) = Some js" and "\<And>x j. g x = Some j \<Longrightarrow> f j = Some x"
  shows "those (map f js) = Some xs"
  using assms(1)
proof (induction xs arbitrary: js)
  case (Cons x xs)
  then show ?case by (auto split: option.splits dest: assms(2))
qed simp

lemma hs_of_list_distinct: "distinct xs \<Longrightarrow> hs_of_list xs = xs"
proof -
  have "distinct (acc @ xs) \<Longrightarrow> fold hs_insert xs acc = acc @ xs" for acc
    by (induction xs arbitrary: acc) (auto simp: hs_insert_def)
  then show "distinct xs \<Longrightarrow> hs_of_list xs = xs" by (simp add: hs_of_list_def)
qed

lemma strings_roundtrip:
  "distinct xs \<Longrightarrow> Option.bind (strings_to_value xs) strings_from_value = Some xs"
proof -
  have "those (map as_str (map JStr xs)) = Some xs"
    by (induction xs) auto
  then show "distinct xs \<Longrightarrow> ?thesis"
    by (simp add: strings_to_value_def hs_of_list_distinct)
qed


section \<open>The Channel interface\<close>

text \<open>
  \<open>update\<close> returns the new channel and whether it was modified (\<open>None\<close> for a panic in
  the reducer), \<open>get\<close> reads the value, \<open>consume\<close> returns the channel after consumption
  and a flag.
\<close>

fun run_updates :: "('v list \<Rightarrow> 'c \<Rightarrow> ('c \<times> bool) option) \<Rightarrow> 'v list list \<Rightarrow> 'c \<Rightarrow> ('c \<times> bool) option" where
  "run_updates upd [] c = Some (c, False)"
| "run_updates upd (vs # rest) c =
     Option.bind (upd vs c) (\<lambda>r. Option.bind (run_updates upd rest (fst r))
       (\<lambda>r'. Some (fst r', snd r \<or> snd r')))"

locale channel_contract =
  fixes update :: "'v list \<Rightarrow> 'c \<Rightarrow> ('c \<times> bool) option"
    and get :: "'c \<Rightarrow> 't"
    and consume :: "'c \<Rightarrow> 'c \<times> bool"
    and invar :: "'c \<Rightarrow> bool"
  assumes update_nil: "invar c \<Longrightarrow> update [] c = Some (c, False)"
    and update_invar: "\<lbrakk>invar c; update vs c = Some (c', b)\<rbrakk> \<Longrightarrow> invar c'"
    and update_unmodified: "\<lbrakk>invar c; update vs c = Some (c', False)\<rbrakk> \<Longrightarrow> get c' = get c"
    and consume_invar: "invar c \<Longrightarrow> invar (fst (consume c))"
begin

lemma updates_invar: "\<lbrakk>invar c; run_updates update vss c = Some (c', b)\<rbrakk> \<Longrightarrow> invar c'"
  by (induction vss arbitrary: c b) (auto split: bind_splits dest: update_invar)

lemma updates_unmodified: "\<lbrakk>invar c; run_updates update vss c = Some (c', False)\<rbrakk> \<Longrightarrow> get c' = get c"
proof (induction vss arbitrary: c)
  case (Cons vs vss)
  then obtain c1 where "update vs c = Some (c1, False)" "run_updates update vss c1 = Some (c', False)"
    by (auto split: bind_splits)
  then show ?case
    using Cons.IH [of c1] Cons.prems(1) update_invar update_unmodified by metis
qed simp

lemma updates_idle: "invar c \<Longrightarrow> run_updates update (replicate n []) c = Some (c, False)"
  by (induction n) (auto simp: update_nil)

end

section \<open>UntrackedChannel\<close>

record 't untracked_channel = uc_value :: 't

definition untracked_new :: "'t \<Rightarrow> 't untracked_channel" where
  "untracked_new v = \<lparr>uc_value = v\<rparr>"

definition untracked_update ::
    "'t reducer \<Rightarrow> 't list \<Rightarrow> 't untracked_channel \<Rightarrow> ('t untracked_channel \<times> bool) option" where
  "untracked_update R vs c =
     (if vs = [] then Some (c, False)
      else map_option (\<lambda>v. (c\<lparr>uc_value := v\<rparr>, True)) (R (uc_value c) vs))"

definition untracked_get :: "'t untracked_channel \<Rightarrow> 't" where
  "untracked_get c = uc_value c"

definition untracked_consume :: "'t untracked_channel \<Rightarrow> 't untracked_channel \<times> bool" where
  "untracked_consume c = (c, False)"

definition untracked_checkpoint :: "'t untracked_channel \<Rightarrow> json option" where
  "untracked_checkpoint c = None"

text \<open>The restored value is the type's default, whatever was checkpointed.\<close>

definition untracked_from_checkpoint :: "'t \<Rightarrow> json \<Rightarrow> (string, 't untracked_channel) result" where
  "untracked_from_checkpoint dflt j = Ok (untracked_new dflt)"

lemmas untracked_defs [chan_defs] = untracked_new_def untracked_update_def untracked_get_def
  untracked_consume_def untracked_checkpoint_def untracked_from_checkpoint_def

interpretation untracked: channel_contract "untracked_update R" untracked_get untracked_consume "\<lambda>_. True"
  for R :: "'t reducer"
  by unfold_locales (auto simp: untracked_defs split: if_splits)

section \<open>EphemeralChannel\<close>

record 't ephemeral_channel =
  ec_value :: 't
  ec_consumed :: bool

definition ephemeral_new :: "'t \<Rightarrow> 't ephemeral_channel" where
  "ephemeral_new v = \<lparr>ec_value = v, ec_consumed = False\<rparr>"

definition ephemeral_update ::
    "'t reducer \<Rightarrow> 't list \<Rightarrow> 't ephemeral_channel \<Rightarrow> ('t ephemeral_channel \<times> bool) option" where
  "ephemeral_update R vs c =
     (if vs = [] then Some (c, False)
      else map_option (\<lambda>v. (c\<lparr>ec_value := v, ec_consumed := False\<rparr>, True)) (R (ec_value c) vs))"

definition ephemeral_get :: "'t ephemeral_channel \<Rightarrow> 't" where
  "ephemeral_get c = ec_value c"

definition ephemeral_consume :: "'t \<Rightarrow> 't ephemeral_channel \<Rightarrow> 't ephemeral_channel \<times> bool" where
  "ephemeral_consume dflt c = (c\<lparr>ec_value := dflt, ec_consumed := True\<rparr>, ec_consumed c)"

definition ephemeral_checkpoint :: "'t ephemeral_channel \<Rightarrow> json option" where
  "ephemeral_checkpoint c = None"

definition ephemeral_from_checkpoint :: "'t \<Rightarrow> json \<Rightarrow> (string, 't ephemeral_channel) result" where
  "ephemeral_from_checkpoint dflt j = Ok (ephemeral_new dflt)"

lemmas ephemeral_defs [chan_defs] = ephemeral_new_def ephemeral_update_def ephemeral_get_def
  ephemeral_consume_def ephemeral_checkpoint_def ephemeral_from_checkpoint_def

text \<open>A consumed channel holds the default value.\<close>

definition ephemeral_inv :: "'t \<Rightarrow> 't ephemeral_channel \<Rightarrow> bool" where
  "ephemeral_inv dflt c \<longleftrightarrow> (ec_consumed c \<longrightarrow> ec_value c = dflt)"

interpretation ephemeral: channel_contract
  "ephemeral_update R" ephemeral_get "ephemeral_consume dflt" "ephemeral_inv dflt"
  for R :: "'t reducer" and dflt
  by unfold_locales (auto simp: ephemeral_defs ephemeral_inv_def split: if_splits)

section \<open>LastValueAfterFinishChannel\<close>

record 't lvaf_channel =
  lv_value :: 't
  lv_finished_value :: "'t option"
  lv_is_finished :: bool

definition lvaf_new :: "'t \<Rightarrow> 't lvaf_channel" where
  "lvaf_new v = \<lparr>lv_value = v, lv_finished_value = None, lv_is_finished = False\<rparr>"

definition lvaf_finish :: "'t lvaf_channel \<Rightarrow> 't lvaf_channel" where
  "lvaf_finish c = c\<lparr>lv_is_finished := True\<rparr>"

definition lvaf_is_available :: "'t lvaf_channel \<Rightarrow> bool" where
  "lvaf_is_available c = lv_is_finished c"

definition lvaf_update ::
    "'t reducer \<Rightarrow> 't list \<Rightarrow> 't lvaf_channel \<Rightarrow> ('t lvaf_channel \<times> bool) option" where
  "lvaf_update R vs c =
     (if vs = [] then Some (c, False)
      else map_option (\<lambda>v. let c' = c\<lparr>lv_value := v\<rparr> in
             (if lv_is_finished c' then c'\<lparr>lv_finished_value := Some (lv_value c')\<rparr> else c', True))
           (R (lv_value c) vs))"

definition lvaf_get :: "'t lvaf_channel \<Rightarrow> 't" where
  "lvaf_get c = (if lv_is_finished c
     then (case lv_finished_value c of Some v \<Rightarrow> v | None \<Rightarrow> lv_value c)
     else lv_value c)"

definition lvaf_consume :: "'t lvaf_channel \<Rightarrow> 't lvaf_channel \<times> bool" where
  "lvaf_consume c = (c, False)"

definition lvaf_checkpoint :: "('t \<Rightarrow> json option) \<Rightarrow> 't lvaf_channel \<Rightarrow> json option" where
  "lvaf_checkpoint to_value c = (if lv_is_finished c
     then checkpoint_to_value (pair_to_value to_value (\<lambda>b. Some (JBool b))) (lv_value c, lv_is_finished c)
     else None)"

definition lvaf_from_checkpoint ::
    "(json \<Rightarrow> 't option) \<Rightarrow> json \<Rightarrow> (string, 't lvaf_channel) result" where
  "lvaf_from_checkpoint from_value j =
     (case pair_from_value from_value bool_from_value j of
        Some (v, fin) \<Rightarrow> Ok \<lparr>lv_value = v, lv_finished_value = (if fin then Some v else None),
                              lv_is_finished = fin\<rparr>
      | None \<Rightarrow> (case from_value j of
            None \<Rightarrow> Err ''checkpoint deserialization failed''
          | Some v \<Rightarrow> Ok \<lparr>lv_value = v, lv_finished_value = None, lv_is_finished = False\<rparr>))"

lemmas lvaf_defs [chan_defs] = lvaf_new_def lvaf_finish_def lvaf_is_available_def lvaf_update_def
  lvaf_get_def lvaf_consume_def lvaf_checkpoint_def lvaf_from_checkpoint_def

text \<open>The finished copy, once taken, tracks the current value.\<close>

definition lvaf_inv :: "'t lvaf_channel \<Rightarrow> bool" where
  "lvaf_inv c \<longleftrightarrow> (lv_finished_value c \<noteq> None \<longrightarrow>
     lv_is_finished c \<and> lv_finished_value c = Some (lv_value c))"

lemma lvaf_inv_new: "lvaf_inv (lvaf_new v)"
  by (simp add: lvaf_inv_def lvaf_defs)

lemma lvaf_inv_finish: "lvaf_inv c \<Longrightarrow> lvaf_inv (lvaf_finish c)"
  by (simp add: lvaf_inv_def lvaf_defs)

lemma lvaf_get_value: "lvaf_inv c \<Longrightarrow> lvaf_get c = lv_value c"
  by (auto simp: lvaf_inv_def lvaf_defs split: option.splits)

interpretation lvaf: channel_contract "lvaf_update R" lvaf_get lvaf_consume lvaf_inv
  for R :: "'t reducer"
proof unfold_locales
  fix c c' :: "'t lvaf_channel" and vs b
  assume "lvaf_inv c" "lvaf_update R vs c = Some (c', b)"
  then show "lvaf_inv c'"
    by (cases "lv_is_finished c") (auto simp: lvaf_inv_def lvaf_defs split: if_splits)
next
  fix c c' :: "'t lvaf_channel" and vs
  assume "lvaf_update R vs c = Some (c', False)"
  then show "lvaf_get c' = lvaf_get c"
    by (auto simp: lvaf_update_def Let_def split: if_splits)
qed (simp_all add: lvaf_defs)

section \<open>DeltaChannel\<close>

record 't delta_channel =
  dc_value :: 't
  dc_snapshot_frequency :: nat
  dc_update_count_since_snapshot :: nat

definition delta_new :: "'t \<Rightarrow> nat \<Rightarrow> 't delta_channel" where
  "delta_new v freq = \<lparr>dc_value = v, dc_snapshot_frequency = max freq 1,
     dc_update_count_since_snapshot = 0\<rparr>"

text \<open>
  The test \<open>replay_writes\<close> makes on each write: a value whose JSON form is an object with
  the key \<open>__overwrite__\<close> and whose entry deserializes to a value resets the baseline.
\<close>

definition overwrite_base :: "('t \<Rightarrow> json option) \<Rightarrow> (json \<Rightarrow> 't option) \<Rightarrow> 't \<Rightarrow> 't option" where
  "overwrite_base to_value from_value v =
     (case to_value v of
        None \<Rightarrow> None
      | Some j \<Rightarrow> (case as_object j of
            None \<Rightarrow> None
          | Some obj \<Rightarrow> if ''__overwrite__'' \<in> set (map fst obj)
              then from_value (case map_of obj ''__overwrite__'' of Some x \<Rightarrow> x | None \<Rightarrow> JNull)
              else None))"

fun replay_scan :: "('t \<Rightarrow> 't option) \<Rightarrow> nat \<Rightarrow> 't list \<Rightarrow> 't \<times> nat \<Rightarrow> 't \<times> nat" where
  "replay_scan ow i [] acc = acc"
| "replay_scan ow i (v # vs) (base, start) =
     replay_scan ow (i + 1) vs (case ow v of Some b \<Rightarrow> (b, i + 1) | None \<Rightarrow> (base, start))"

definition delta_replay_writes ::
    "('t \<Rightarrow> json option) \<Rightarrow> (json \<Rightarrow> 't option) \<Rightarrow> 't reducer \<Rightarrow> 't list \<Rightarrow> 't delta_channel
       \<Rightarrow> 't delta_channel option" where
  "delta_replay_writes to_value from_value R vs c =
     (if vs = [] then Some c
      else let (base, start) = replay_scan (overwrite_base to_value from_value) 0 vs (dc_value c, 0);
               remaining = drop start vs
           in map_option (\<lambda>b. c\<lparr>dc_value := b, dc_update_count_since_snapshot := 0\<rparr>)
                (if remaining = [] then Some base else R base remaining))"

definition delta_should_snapshot :: "'t delta_channel \<Rightarrow> bool" where
  "delta_should_snapshot c = (dc_update_count_since_snapshot c \<ge> dc_snapshot_frequency c)"

definition delta_finish :: "'t delta_channel \<Rightarrow> 't delta_channel" where
  "delta_finish c = c\<lparr>dc_update_count_since_snapshot := dc_snapshot_frequency c\<rparr>"

definition delta_update ::
    "'t reducer \<Rightarrow> 't list \<Rightarrow> 't delta_channel \<Rightarrow> ('t delta_channel \<times> bool) option" where
  "delta_update R vs c =
     (if vs = [] then Some (c, False)
      else map_option (\<lambda>v. (c\<lparr>dc_value := v,
               dc_update_count_since_snapshot := wrap_add64 (dc_update_count_since_snapshot c) 1\<rparr>, True))
           (R (dc_value c) vs))"

definition delta_get :: "'t delta_channel \<Rightarrow> 't" where
  "delta_get c = dc_value c"

definition delta_consume :: "'t delta_channel \<Rightarrow> 't delta_channel \<times> bool" where
  "delta_consume c = (c, False)"

definition delta_checkpoint :: "('t \<Rightarrow> json option) \<Rightarrow> 't delta_channel \<Rightarrow> json option" where
  "delta_checkpoint to_value c = checkpoint_to_value to_value (dc_value c)"

definition delta_from_checkpoint ::
    "(json \<Rightarrow> 't option) \<Rightarrow> json \<Rightarrow> (string, 't delta_channel) result" where
  "delta_from_checkpoint from_value j = (case from_value j of
       None \<Rightarrow> Err ''checkpoint deserialization failed''
     | Some v \<Rightarrow> Ok \<lparr>dc_value = v, dc_snapshot_frequency = 10, dc_update_count_since_snapshot = 0\<rparr>)"

datatype 't delta_blob = BlobMissing | BlobSnapshot 't

lemmas delta_defs [chan_defs] = delta_new_def delta_replay_writes_def delta_should_snapshot_def
  delta_finish_def delta_update_def delta_get_def delta_consume_def delta_checkpoint_def
  delta_from_checkpoint_def

definition delta_inv :: "'t delta_channel \<Rightarrow> bool" where
  "delta_inv c \<longleftrightarrow> 1 \<le> dc_snapshot_frequency c"

interpretation delta: channel_contract "delta_update R" delta_get delta_consume delta_inv
  for R :: "'t reducer"
  by unfold_locales (auto simp: delta_inv_def delta_defs split: if_splits)

lemma delta_inv_new: "delta_inv (delta_new v f)"
  by (simp add: delta_inv_def delta_defs)

lemma delta_finish_snapshots: "delta_should_snapshot (delta_finish c)"
  by (simp add: delta_defs)

lemma replay_scan_none:
  "(\<And>v. v \<in> set vs \<Longrightarrow> ow v = None) \<Longrightarrow> replay_scan ow i vs acc = acc"
  by (induction ow i vs acc rule: replay_scan.induct) auto

lemma replay_scan_append:
  "replay_scan ow i (xs @ ys) acc = replay_scan ow (i + length xs) ys (replay_scan ow i xs acc)"
proof (induction xs arbitrary: i acc)
  case (Cons x xs)
  then show ?case by (cases acc) (simp add: add.commute)
qed simp

lemma replay_scan_last:
  assumes "ow w = Some b" and "\<And>v. v \<in> set ys \<Longrightarrow> ow v = None"
  shows "replay_scan ow 0 (xs @ w # ys) acc = (b, Suc (length xs))"
proof -
  obtain b0 s0 where "replay_scan ow 0 xs acc = (b0, s0)" by fastforce
  then show ?thesis by (simp add: replay_scan_append assms replay_scan_none)
qed

section \<open>RingBufferChannel\<close>

record 'a ring_buffer_channel =
  rb_values :: "'a list"
  rb_capacity :: nat

definition ring_trim_to_capacity :: "'a ring_buffer_channel \<Rightarrow> 'a ring_buffer_channel" where
  "ring_trim_to_capacity c =
     (if length (rb_values c) > rb_capacity c
      then let excess = length (rb_values c) - rb_capacity c
           in c\<lparr>rb_values := drop excess (rb_values c)\<rparr>
      else c)"

definition ring_new :: "'a list \<Rightarrow> nat \<Rightarrow> 'a ring_buffer_channel" where
  "ring_new vs capacity = ring_trim_to_capacity \<lparr>rb_values = vs, rb_capacity = max capacity 1\<rparr>"

definition ring_len :: "'a ring_buffer_channel \<Rightarrow> nat" where
  "ring_len c = length (rb_values c)"

definition ring_is_empty :: "'a ring_buffer_channel \<Rightarrow> bool" where
  "ring_is_empty c = (rb_values c = [])"

definition ring_update :: "'a list list \<Rightarrow> 'a ring_buffer_channel \<Rightarrow> ('a ring_buffer_channel \<times> bool) option" where
  "ring_update vs c =
     (let had_non_empty = list_ex (\<lambda>v. v \<noteq> []) vs;
          c' = fold (\<lambda>v c. c\<lparr>rb_values := rb_values c @ v\<rparr>) vs c
      in Some (ring_trim_to_capacity c', had_non_empty))"

definition ring_get :: "'a ring_buffer_channel \<Rightarrow> 'a list" where
  "ring_get c = rb_values c"

definition ring_consume :: "'a ring_buffer_channel \<Rightarrow> 'a ring_buffer_channel \<times> bool" where
  "ring_consume c = (c, False)"

text \<open>The \<open>json!\<close> literal panics (outer \<open>None\<close>) when a value cannot be serialized.\<close>

definition ring_checkpoint :: "('a \<Rightarrow> json option) \<Rightarrow> 'a ring_buffer_channel \<Rightarrow> json option option" where
  "ring_checkpoint to_value c =
     map_option (\<lambda>js. checkpoint_to_value Some
         (JObj [(''capacity'', JNum (rb_capacity c)), (''values'', js)]))
       (list_to_value to_value (rb_values c))"

definition ring_from_checkpoint ::
    "(json \<Rightarrow> 'a option) \<Rightarrow> json \<Rightarrow> (string, 'a ring_buffer_channel) result" where
  "ring_from_checkpoint from_value j = (case as_object j of
       Some obj \<Rightarrow> (case list_from_value from_value
            (case map_of obj ''values'' of Some x \<Rightarrow> x | None \<Rightarrow> JNull) of
          None \<Rightarrow> Err ''checkpoint deserialization failed''
        | Some vs \<Rightarrow> Ok \<lparr>rb_values = vs, rb_capacity =
             max (case Option.bind (map_of obj ''capacity'') as_u64 of None \<Rightarrow> 1000 | Some n \<Rightarrow> n) 1\<rparr>)
     | None \<Rightarrow> (case list_from_value from_value j of
          None \<Rightarrow> Err ''checkpoint deserialization failed''
        | Some vs \<Rightarrow> Ok \<lparr>rb_values = vs, rb_capacity = 1000\<rparr>))"

lemmas ring_defs [chan_defs] = ring_trim_to_capacity_def ring_new_def ring_len_def ring_is_empty_def
  ring_update_def ring_get_def ring_consume_def ring_checkpoint_def ring_from_checkpoint_def

definition ring_inv :: "'a ring_buffer_channel \<Rightarrow> bool" where
  "ring_inv c \<longleftrightarrow> 1 \<le> rb_capacity c \<and> length (rb_values c) \<le> rb_capacity c"

lemma ring_trim_values:
  "ring_trim_to_capacity c = c\<lparr>rb_values := take_last (rb_capacity c) (rb_values c)\<rparr>"
  by (cases c) (simp add: ring_trim_to_capacity_def take_last_def)

lemma ring_extend:
  "fold (\<lambda>v c. c\<lparr>rb_values := rb_values c @ v\<rparr>) vs c = c\<lparr>rb_values := rb_values c @ concat vs\<rparr>"
  by (induction vs arbitrary: c) simp_all

lemma ring_update_eq:
  "ring_update vs c = Some (c\<lparr>rb_values := take_last (rb_capacity c) (rb_values c @ concat vs)\<rparr>,
     concat vs \<noteq> [])"
  by (auto simp: ring_update_def ring_extend ring_trim_values list_ex_iff)

lemma ring_inv_new: "ring_inv (ring_new vs n)"
  by (simp add: ring_inv_def ring_new_def ring_trim_values)

interpretation ring: channel_contract ring_update ring_get ring_consume ring_inv
  by unfold_locales (auto simp: ring_update_eq ring_inv_def ring_get_def ring_consume_def concat_eq_Nil_conv [THEN iffD2])

text \<open>Any sequence of updates amounts to one append followed by one trim.\<close>

lemma ring_updates_eq:
  "ring_inv c \<Longrightarrow> \<exists>b. run_updates ring_update vss c =
     Some (c\<lparr>rb_values := take_last (rb_capacity c) (rb_values c @ concat (concat vss))\<rparr>, b)"
proof (induction vss arbitrary: c)
  case (Cons vs vss)
  let ?c = "c\<lparr>rb_values := take_last (rb_capacity c) (rb_values c @ concat vs)\<rparr>"
  from Cons.prems have "ring_inv ?c" by (simp add: ring_inv_def)
  from Cons.IH [OF this] show ?case
    using take_last_append [of "rb_capacity c" "rb_values c @ concat vs" "concat (concat vss)"]
    by (auto simp: ring_update_eq)
qed (auto simp: ring_inv_def)

section \<open>TopicChannel\<close>

record 'a topic_channel = tc_messages :: "'a list"

definition topic_new :: "'a topic_channel" where
  "topic_new = \<lparr>tc_messages = []\<rparr>"

definition topic_len :: "'a topic_channel \<Rightarrow> nat" where
  "topic_len c = length (tc_messages c)"

definition topic_is_empty :: "'a topic_channel \<Rightarrow> bool" where
  "topic_is_empty c = (tc_messages c = [])"

definition topic_reset :: "'a topic_channel \<Rightarrow> 'a topic_channel" where
  "topic_reset c = c\<lparr>tc_messages := []\<rparr>"

definition topic_update :: "'a list list \<Rightarrow> 'a topic_channel \<Rightarrow> ('a topic_channel \<times> bool) option" where
  "topic_update vs c =
     (if vs = [] then Some (c, False)
      else Some (fold (\<lambda>batch c. c\<lparr>tc_messages := tc_messages c @ batch\<rparr>) vs c, True))"

definition topic_get :: "'a topic_channel \<Rightarrow> 'a list" where
  "topic_get c = tc_messages c"

definition topic_consume :: "'a topic_channel \<Rightarrow> 'a topic_channel \<times> bool" where
  "topic_consume c = (let was_empty = (tc_messages c = []) in (c\<lparr>tc_messages := []\<rparr>, \<not> was_empty))"

definition topic_checkpoint :: "('a \<Rightarrow> json option) \<Rightarrow> 'a topic_channel \<Rightarrow> json option" where
  "topic_checkpoint to_value c = checkpoint_to_value (list_to_value to_value) (tc_messages c)"

definition topic_from_checkpoint ::
    "(json \<Rightarrow> 'a option) \<Rightarrow> json \<Rightarrow> (string, 'a topic_channel) result" where
  "topic_from_checkpoint from_value j = (case list_from_value from_value j of
       None \<Rightarrow> Err ''checkpoint deserialization failed''
     | Some ms \<Rightarrow> Ok \<lparr>tc_messages = ms\<rparr>)"

lemmas topic_defs [chan_defs] = topic_new_def topic_len_def topic_is_empty_def topic_reset_def
  topic_update_def topic_get_def topic_consume_def topic_checkpoint_def topic_from_checkpoint_def

lemma topic_extend:
  "fold (\<lambda>b c. c\<lparr>tc_messages := tc_messages c @ b\<rparr>) vs c = c\<lparr>tc_messages := tc_messages c @ concat vs\<rparr>"
  by (induction vs arbitrary: c) simp_all

lemma topic_update_eq:
  "topic_update vs c = Some (c\<lparr>tc_messages := tc_messages c @ concat vs\<rparr>, vs \<noteq> [])"
  by (simp add: topic_update_def topic_extend)

interpretation topic: channel_contract topic_update topic_get topic_consume "\<lambda>_. True"
  by unfold_locales (auto simp: topic_update_eq topic_get_def)

lemma topic_updates_eq:
  "\<exists>b. run_updates topic_update vss c = Some (c\<lparr>tc_messages := tc_messages c @ concat (concat vss)\<rparr>, b)"
proof (induction vss arbitrary: c)
  case (Cons vs vss)
  from Cons.IH [of "c\<lparr>tc_messages := tc_messages c @ concat vs\<rparr>"] show ?case
    by (auto simp: topic_update_eq)
qed auto

section \<open>NamedBarrierChannel\<close>

record 't named_barrier_channel =
  nb_value :: 't
  nb_required_sources :: "string list"
  nb_seen_sources :: "string list"

definition barrier_new_with_sources :: "'t \<Rightarrow> string list \<Rightarrow> 't named_barrier_channel" where
  "barrier_new_with_sources v sources =
     \<lparr>nb_value = v, nb_required_sources = hs_of_list sources, nb_seen_sources = []\<rparr>"

definition barrier_new :: "'t \<Rightarrow> 't named_barrier_channel" where
  "barrier_new v = \<lparr>nb_value = v, nb_required_sources = [], nb_seen_sources = []\<rparr>"

definition barrier_add_required_source :: "string \<Rightarrow> 't named_barrier_channel \<Rightarrow> 't named_barrier_channel" where
  "barrier_add_required_source src c = c\<lparr>nb_required_sources := hs_insert src (nb_required_sources c)\<rparr>"

definition barrier_is_available :: "'t named_barrier_channel \<Rightarrow> bool" where
  "barrier_is_available c =
     (if nb_required_sources c = [] then True
      else list_all (\<lambda>s. s \<in> set (nb_seen_sources c)) (nb_required_sources c))"

definition barrier_has_written :: "string \<Rightarrow> 't named_barrier_channel \<Rightarrow> bool" where
  "barrier_has_written src c = (src \<in> set (nb_seen_sources c))"

definition barrier_reset :: "'t named_barrier_channel \<Rightarrow> 't named_barrier_channel" where
  "barrier_reset c = c\<lparr>nb_seen_sources := []\<rparr>"

text \<open>The trait's update: the writers are not named, so every required source counts as seen.\<close>

definition barrier_update ::
    "'t reducer \<Rightarrow> 't list \<Rightarrow> 't named_barrier_channel \<Rightarrow> ('t named_barrier_channel \<times> bool) option" where
  "barrier_update R vs c =
     (if vs = [] then Some (c, False)
      else map_option (\<lambda>v. (c\<lparr>nb_value := v, nb_seen_sources := nb_required_sources c\<rparr>, True))
             (R (nb_value c) vs))"

definition barrier_get :: "'t named_barrier_channel \<Rightarrow> 't" where
  "barrier_get c = nb_value c"

definition barrier_consume :: "'t named_barrier_channel \<Rightarrow> 't named_barrier_channel \<times> bool" where
  "barrier_consume c = (c, False)"

definition barrier_checkpoint :: "('t \<Rightarrow> json option) \<Rightarrow> 't named_barrier_channel \<Rightarrow> json option" where
  "barrier_checkpoint to_value c =
     checkpoint_to_value (pair_to_value to_value strings_to_value) (nb_value c, nb_seen_sources c)"

definition barrier_from_checkpoint ::
    "(json \<Rightarrow> 't option) \<Rightarrow> json \<Rightarrow> (string, 't named_barrier_channel) result" where
  "barrier_from_checkpoint from_value j = (case pair_from_value from_value strings_from_value j of
       None \<Rightarrow> Err ''checkpoint deserialization failed''
     | Some (v, seen) \<Rightarrow> Ok \<lparr>nb_value = v, nb_required_sources = [], nb_seen_sources = seen\<rparr>)"

text \<open>The inherent update of a named source; an unknown source panics.\<close>

definition barrier_update_from ::
    "'t reducer \<Rightarrow> string \<Rightarrow> 't list \<Rightarrow> 't named_barrier_channel \<Rightarrow> ('t named_barrier_channel \<times> bool) option" where
  "barrier_update_from R src vs c =
     (if \<not> (nb_required_sources c = [] \<or> src \<in> set (nb_required_sources c)) then None
      else if vs = [] then Some (c, False)
      else map_option (\<lambda>v. (c\<lparr>nb_value := v, nb_seen_sources := hs_insert src (nb_seen_sources c)\<rparr>, True))
             (R (nb_value c) vs))"

lemmas barrier_defs [chan_defs] = barrier_new_with_sources_def barrier_new_def
  barrier_add_required_source_def barrier_is_available_def barrier_has_written_def barrier_reset_def
  barrier_update_def barrier_get_def barrier_consume_def barrier_checkpoint_def
  barrier_from_checkpoint_def barrier_update_from_def

definition barrier_inv :: "'t named_barrier_channel \<Rightarrow> bool" where
  "barrier_inv c \<longleftrightarrow> distinct (nb_required_sources c) \<and> distinct (nb_seen_sources c) \<and>
     (nb_required_sources c \<noteq> [] \<longrightarrow> set (nb_seen_sources c) \<subseteq> set (nb_required_sources c))"

interpretation barrier: channel_contract "barrier_update R" barrier_get barrier_consume barrier_inv
  for R :: "'t reducer"
  by unfold_locales (auto simp: barrier_inv_def barrier_defs split: if_splits)

lemma barrier_update_from_inv:
  "\<lbrakk>barrier_inv c; barrier_update_from R src vs c = Some (c', b)\<rbrakk> \<Longrightarrow> barrier_inv c'"
  by (auto simp: barrier_inv_def barrier_update_from_def split: if_splits)

text \<open>A run of named writes.\<close>

fun barrier_writes ::
    "'t reducer \<Rightarrow> (string \<times> 't list) list \<Rightarrow> 't named_barrier_channel \<Rightarrow> 't named_barrier_channel option" where
  "barrier_writes R [] c = Some c"
| "barrier_writes R ((src, vs) # ws) c =
     Option.bind (barrier_update_from R src vs c) (\<lambda>r. barrier_writes R ws (fst r))"

lemma barrier_writes_seen:
  "barrier_writes R ws c = Some c' \<Longrightarrow>
     nb_required_sources c' = nb_required_sources c \<and>
     set (nb_seen_sources c') = set (nb_seen_sources c) \<union> {src. \<exists>vs. (src, vs) \<in> set ws \<and> vs \<noteq> []}"
proof (induction R ws c rule: barrier_writes.induct)
  case (2 R src vs ws c)
  then obtain c1 b where "barrier_update_from R src vs c = Some (c1, b)" "barrier_writes R ws c1 = Some c'"
    by (auto split: bind_splits)
  with 2 show ?case
    by (auto simp: barrier_update_from_def split: if_splits)
qed simp

lemma barrier_writes_total:
  assumes "\<And>c v. R c v \<noteq> None"
    and "\<forall>(src, vs) \<in> set ws. src \<in> set (nb_required_sources c)"
  shows "barrier_writes R ws c \<noteq> None"
  using assms(2)
proof (induction ws arbitrary: c)
  case (Cons w ws)
  obtain src vs where w: "w = (src, vs)" by fastforce
  obtain v where "R (nb_value c) vs = Some v" using assms(1) by fastforce
  with Cons.prems w obtain c1 b where "barrier_update_from R src vs c = Some (c1, b)"
    "nb_required_sources c1 = nb_required_sources c"
    by (cases "vs = []") (auto simp: barrier_update_from_def)
  with Cons w show ?case by auto
qed simp

section \<open>RemoveMessage\<close>

record remove_message = rm_id :: string

section \<open>Properties\<close>

lemma list_roundtrip:
  assumes "\<And>x j. to_value x = Some j \<Longrightarrow> from_value j = Some x"
    and "list_to_value to_value xs = Some j"
  shows "list_from_value from_value j = Some xs"
  using assms(2) those_map_SomeD [of to_value xs _ from_value] assms(1)
  by (auto simp: list_to_value_def)

lemma pair_roundtrip:
  assumes "\<And>x j. f x = Some j \<Longrightarrow> f' j = Some x" and "\<And>x j. g x = Some j \<Longrightarrow> g' j = Some x"
    and "pair_to_value f g p = Some j"
  shows "pair_from_value f' g' j = Some p"
  using assms by (auto simp: pair_to_value_def split: option.splits)

lemma topic_roundtrip:
  assumes "\<And>x j. to_value x = Some j \<Longrightarrow> from_value j = Some x"
    and "topic_checkpoint to_value c = Some j"
  shows "topic_from_checkpoint from_value j = Ok c"
  using list_roundtrip [of to_value from_value "tc_messages c" j, OF assms(1)] assms(2)
  by (simp add: topic_defs checkpoint_to_value_def split: option.splits)

lemma ring_roundtrip:
  assumes "\<And>x j. to_value x = Some j \<Longrightarrow> from_value j = Some x"
    and "ring_checkpoint to_value c = Some (Some j)" and "ring_inv c" and "rb_capacity c \<le> u64_max"
  shows "ring_from_checkpoint from_value j = Ok c"
proof -
  from assms(2) obtain js where js: "list_to_value to_value (rb_values c) = Some js"
    and j: "j = JObj [(''capacity'', JNum (rb_capacity c)), (''values'', js)]"
    by (auto simp: ring_checkpoint_def checkpoint_to_value_def)
  from list_roundtrip [of to_value from_value, OF assms(1) js] show ?thesis
    using assms(3,4) by (simp add: j ring_from_checkpoint_def ring_inv_def)
qed

lemma delta_roundtrip:
  assumes "\<And>x j. to_value x = Some j \<Longrightarrow> from_value j = Some x"
    and "delta_checkpoint to_value c = Some j"
  shows "\<exists>c'. delta_from_checkpoint from_value j = Ok c' \<and> delta_get c' = delta_get c"
  using assms by (auto simp: delta_defs checkpoint_to_value_def split: option.splits)

lemma lvaf_roundtrip:
  assumes serde: "\<And>x j. to_value x = Some j \<Longrightarrow> from_value j = Some x"
    and "lvaf_checkpoint to_value c = Some j" and inv: "lvaf_inv c"
  shows "\<exists>c'. lvaf_from_checkpoint from_value j = Ok c' \<and> lvaf_get c' = lvaf_get c \<and> lvaf_is_available c'"
proof -
  have fin: "lv_is_finished c"
    and "pair_to_value to_value (\<lambda>b. Some (JBool b)) (lv_value c, lv_is_finished c) = Some j"
    using assms(2) by (auto simp: lvaf_checkpoint_def checkpoint_to_value_def split: if_splits option.splits)
  then have "pair_from_value from_value bool_from_value j = Some (lv_value c, True)"
    using pair_roundtrip [of to_value from_value "\<lambda>b. Some (JBool b)" bool_from_value] serde by auto
  then show ?thesis
    by (simp add: lvaf_from_checkpoint_def lvaf_get_value [OF inv] lvaf_is_available_def)
      (simp add: lvaf_get_def)
qed

text \<open>
  However many updates a ring buffer channel receives, it never fails and holds exactly the
  last \<open>capacity\<close> elements (at least one) of everything ever appended to it, in order.
\<close>

theorem ring_keeps_last:
  "\<exists>c b. run_updates ring_update vss (ring_new vs cap) = Some (c, b) \<and>
     ring_get c = take_last (max cap 1) (vs @ concat (concat vss)) \<and> rb_capacity c = max cap 1"
proof -
  let ?c = "ring_new vs cap"
  obtain b where "run_updates ring_update vss ?c =
      Some (?c\<lparr>rb_values := take_last (rb_capacity ?c) (rb_values ?c @ concat (concat vss))\<rparr>, b)"
    using ring_updates_eq [OF ring_inv_new] by blast
  then show ?thesis
    by (simp add: ring_get_def ring_new_def ring_trim_values take_last_append)
qed

text \<open>
  A barrier fed by named writes from its required sources never panics, and it is
  available exactly when every required source has written at least one value.
\<close>

theorem barrier_available_iff:
  assumes "\<And>cur vs. R cur vs \<noteq> None"
    and "\<forall>(src, vs) \<in> set ws. src \<in> set srcs"
  shows "\<exists>c. barrier_writes R ws (barrier_new_with_sources v srcs) = Some c \<and>
     (barrier_is_available c \<longleftrightarrow> (\<forall>s \<in> set srcs. \<exists>vs. (s, vs) \<in> set ws \<and> vs \<noteq> []))"
proof -
  let ?c = "barrier_new_with_sources v srcs"
  obtain c where c: "barrier_writes R ws ?c = Some c"
    using barrier_writes_total [of R ws ?c] assms by (auto simp: barrier_new_with_sources_def)
  from barrier_writes_seen [OF c] have "set (nb_required_sources c) = set srcs"
    "set (nb_seen_sources c) = {src. \<exists>vs. (src, vs) \<in> set ws \<and> vs \<noteq> []}"
    by (simp_all add: barrier_new_with_sources_def)
  then show ?thesis
    using c by (auto simp: barrier_is_available_def list_all_iff)
qed

theorem barrier_available_iff_witness:
  "\<exists>c. barrier_writes append_reduce [(''a'', [[1::nat]]), (''b'', [[]])]
         (barrier_new_with_sources [] [''a'', ''b'']) = Some c \<and> barrier_is_available c"
  using barrier_available_iff [of append_reduce "[(''a'', [[1::nat]]), (''b'', [[]])]" "[''a'', ''b'']" "[]"]
  by (auto simp: append_reduce_def)

text \<open>
  Replaying a sequence of writes restarts from the last overwrite in it: the restored
  value is that overwrite merged with exactly the writes after it, and the snapshot
  counter is cleared.
\<close>

theorem delta_replay_from_last_overwrite:
  assumes "overwrite_base to_value from_value w = Some b"
    and "\<forall>v \<in> set ys. overwrite_base to_value from_value v = None"
  shows "delta_replay_writes to_value from_value R (xs @ w # ys) c =
     map_option (\<lambda>r. c\<lparr>dc_value := r, dc_update_count_since_snapshot := 0\<rparr>)
       (if ys = [] then Some b else R b ys)"
  using replay_scan_last [of "overwrite_base to_value from_value" w b ys xs "(dc_value c, 0)"] assms
  by (simp add: delta_replay_writes_def)

text \<open>Integers and overwrites of them, as the JSON-typed channel of the tests holds them.\<close>

theorem delta_replay_from_last_overwrite_witness:
  "delta_replay_writes Some Some last_write_wins_reduce
     [JNum 1, JObj [(''__overwrite__'', JNum 7)], JNum 9] (delta_new JNull 3) =
   Some \<lparr>dc_value = JNum 9, dc_snapshot_frequency = 3, dc_update_count_since_snapshot = 0\<rparr>"
  using delta_replay_from_last_overwrite
    [of Some Some "JObj [(''__overwrite__'', JNum 7)]" "JNum 7" "[JNum 9]" last_write_wins_reduce
      "[JNum 1]" "delta_new JNull 3"]
  by (simp add: overwrite_base_def last_write_wins_reduce_def delta_new_def)

text \<open>
  C15: Checkpoints round trip, given that the value type's own serialization does: restoring what
  a topic or ring-buffer channel checkpointed gives back the same channel (the ring's
  capacity included), and restoring a delta or a finished last-value channel gives a channel with
  the same visible value, still available in the second case.
\<close>

theorem checkpoint_roundtrip:
  assumes "\<And>x j. to_value x = Some j \<Longrightarrow> from_value j = Some x"
  shows "(topic_checkpoint to_value t = Some j1 \<longrightarrow> topic_from_checkpoint from_value j1 = Ok t) \<and>
    (ring_checkpoint to_value r = Some (Some j2) \<and> ring_inv r \<and> rb_capacity r \<le> u64_max
       \<longrightarrow> ring_from_checkpoint from_value j2 = Ok r) \<and>
    (delta_checkpoint to_value d = Some j3 \<longrightarrow>
       (\<exists>d'. delta_from_checkpoint from_value j3 = Ok d' \<and> delta_get d' = delta_get d)) \<and>
    (lvaf_checkpoint to_value l = Some j4 \<and> lvaf_inv l \<longrightarrow>
       (\<exists>l'. lvaf_from_checkpoint from_value j4 = Ok l' \<and> lvaf_get l' = lvaf_get l
         \<and> lvaf_is_available l'))"
  using topic_roundtrip [of to_value from_value] ring_roundtrip [of to_value from_value]
    delta_roundtrip [of to_value from_value] lvaf_roundtrip [of to_value from_value] assms
  by blast

theorem checkpoint_roundtrip_witness:
  "ring_from_checkpoint Some (JObj [(''capacity'', JNum 2), (''values'', JArr [JNum 4, JNum 5])]) =
     Ok (ring_new [JNum 3, JNum 4, JNum 5] 2)"
  using checkpoint_roundtrip [of Some Some topic_new "JArr []" "ring_new [JNum 3, JNum 4, JNum 5] 2"
      "JObj [(''capacity'', JNum 2), (''values'', JArr [JNum 4, JNum 5])]"]
  by (simp add: ring_defs ring_inv_def list_to_value_def checkpoint_to_value_def u64_max_def)

text \<open>
  A barrier restored from a checkpoint has forgotten its required sources: it is available
  at once and accepts every source name, whatever the barrier before the checkpoint required.
\<close>

theorem barrier_restore_forgets_sources:
  assumes "barrier_from_checkpoint from_value j = Ok c"
  shows "barrier_is_available c \<and> (\<forall>src. barrier_update_from R src [] c = Some (c, False))"
  using assms by (auto simp: barrier_defs split: option.splits)

theorem barrier_restore_forgets_sources_witness:
  "\<not> barrier_is_available (barrier_new_with_sources JNull [''a'']) \<and>
   (\<exists>j c. barrier_checkpoint Some (barrier_new_with_sources JNull [''a'']) = Some j \<and>
      barrier_from_checkpoint Some j = Ok c \<and> barrier_is_available c)"
proof -
  let ?j = "JArr [JNull, JArr []]"
  obtain c where c: "barrier_from_checkpoint Some ?j = Ok c"
    by (simp add: barrier_from_checkpoint_def hs_of_list_def)
  from barrier_restore_forgets_sources [OF this, of last_write_wins_reduce] c show ?thesis
    by (auto simp: barrier_checkpoint_def barrier_is_available_def barrier_new_with_sources_def
        checkpoint_to_value_def pair_to_value_def strings_to_value_def hs_of_list_def hs_insert_def)
qed

end
