(* ===== verification/Messages.thy ===== *)
theory Messages
  imports Channels
begin

text \<open>
  \<open>juncture-core/src/state/messages.rs\<close>: conversation messages, the append/merge/delete reducer
  and the built-in \<open>MessagesState\<close>.  Fresh message identifiers (\<open>Uuid::new_v4\<close>) are
  arguments of the constructors.
\<close>

section \<open>Message data\<close>

datatype role = System | Human | Ai | Tool

datatype image_source = Base64 string | Url string

record image_data =
  img_media_type :: string
  img_source :: image_source

datatype content_part =
    PartText string
  | PartImage image_data
  | PartThinking string "string option"

datatype content = ContentText string | MultiPart "content_part list"

record tool_call =
  tcall_id :: string
  tcall_name :: string
  tcall_arguments :: json

record token_usage =
  input_tokens :: nat
  output_tokens :: nat
  total_tokens :: nat

record message =
  msg_id :: string
  msg_role :: role
  msg_content :: content
  msg_tool_calls :: "tool_call list"
  msg_tool_call_id :: "string option"
  msg_name :: "string option"
  msg_usage :: "token_usage option"

definition REMOVE_ALL_MESSAGES :: string where
  "REMOVE_ALL_MESSAGES = ''__remove_all__''"

definition remove_prefix :: string where
  "remove_prefix = ''__remove__:''"

section \<open>Constructors and accessors\<close>

definition plain_message :: "string \<Rightarrow> role \<Rightarrow> string \<Rightarrow> message" where
  "plain_message i r txt = \<lparr>msg_id = i, msg_role = r, msg_content = ContentText txt,
     msg_tool_calls = [], msg_tool_call_id = None, msg_name = None, msg_usage = None\<rparr>"

definition message_human :: "string \<Rightarrow> string \<Rightarrow> message" where
  "message_human uuid txt = plain_message uuid Human txt"

definition message_ai :: "string \<Rightarrow> string \<Rightarrow> message" where
  "message_ai uuid txt = plain_message uuid Ai txt"

definition message_ai_with_tool_calls :: "string \<Rightarrow> string \<Rightarrow> tool_call list \<Rightarrow> message" where
  "message_ai_with_tool_calls uuid txt calls = (plain_message uuid Ai txt)\<lparr>msg_tool_calls := calls\<rparr>"

definition message_system :: "string \<Rightarrow> string \<Rightarrow> message" where
  "message_system uuid txt = plain_message uuid System txt"

definition message_tool_result :: "string \<Rightarrow> string \<Rightarrow> string \<Rightarrow> message" where
  "message_tool_result uuid call_id txt = (plain_message uuid Tool txt)\<lparr>msg_tool_call_id := Some call_id\<rparr>"

definition message_remove :: "string \<Rightarrow> message" where
  "message_remove i = plain_message (remove_prefix @ i) System []"

definition message_remove_all :: message where
  "message_remove_all = plain_message REMOVE_ALL_MESSAGES System []"

definition has_tool_calls :: "message \<Rightarrow> bool" where
  "has_tool_calls m = (msg_tool_calls m \<noteq> [])"

fun part_text :: "content_part \<Rightarrow> string option" where
  "part_text (PartText t) = Some t"
| "part_text _ = None"

fun find_map :: "('a \<Rightarrow> 'b option) \<Rightarrow> 'a list \<Rightarrow> 'b option" where
  "find_map f [] = None"
| "find_map f (x # xs) = (case f x of Some y \<Rightarrow> Some y | None \<Rightarrow> find_map f xs)"

definition content_text :: "message \<Rightarrow> string" where
  "content_text m = (case msg_content m of
       ContentText s \<Rightarrow> s
     | MultiPart parts \<Rightarrow> (case find_map part_text parts of Some t \<Rightarrow> t | None \<Rightarrow> []))"

section \<open>The reducer\<close>

text \<open>\<open>iter_mut().find(...)\<close> followed by an assignment: only the first match is replaced.\<close>

fun replace_first :: "message \<Rightarrow> message list \<Rightarrow> message list" where
  "replace_first msg [] = []"
| "replace_first msg (m # ms) = (if msg_id m = msg_id msg then msg # ms else m # replace_first msg ms)"

definition reduce_message :: "message \<Rightarrow> message list \<Rightarrow> message list" where
  "reduce_message msg current =
     (if msg_id msg = REMOVE_ALL_MESSAGES then []
      else if starts_with remove_prefix (msg_id msg)
        then let target_id = drop (length remove_prefix) (msg_id msg)
             in filter (\<lambda>m. msg_id m \<noteq> target_id) current
      else if list_ex (\<lambda>m. msg_id m = msg_id msg) current then replace_first msg current
      else current @ [msg])"

definition messages_reducer :: "message list \<Rightarrow> message list \<Rightarrow> message list" where
  "messages_reducer current incoming = fold reduce_message incoming current"

section \<open>MessagesState\<close>

record messages_state = ms_messages :: "message list"
record messages_state_update = msu_messages :: "message list option"

definition messages_apply :: "messages_state \<Rightarrow> messages_state_update \<Rightarrow> messages_state \<times> fields_changed" where
  "messages_apply s u = (case msu_messages u of
       Some msgs \<Rightarrow> (s\<lparr>ms_messages := messages_reducer (ms_messages s) msgs\<rparr>, 0 OR push_bit 0 1)
     | None \<Rightarrow> (s, 0))"

definition messages_reset_ephemeral :: "messages_state \<Rightarrow> messages_state" where
  "messages_reset_ephemeral s = s"

definition try_apply_messages ::
    "messages_state \<Rightarrow> messages_state_update \<Rightarrow> (invalid_update_error, messages_state \<times> fields_changed) result" where
  "try_apply_messages s u = Ok (messages_apply s u)"

text \<open>The implementation of the trait: the methods it does not override have the default bodies.\<close>

definition messages_state_impl :: "(messages_state, messages_state_update) state_impl" where
  "messages_state_impl =
     \<lparr>st_default = \<lparr>ms_messages = []\<rparr>,
      st_apply = messages_apply,
      st_try_apply = default_try_apply messages_apply,
      st_reset_ephemeral = messages_reset_ephemeral,
      st_finish_field = (\<lambda>_ s. s),
      st_consume_field = (\<lambda>_ s. s),
      st_consume_field_indices = [],
      st_replace_field_indices = [],
      st_replace_after_finish_field_indices = [],
      st_field_is_set = (\<lambda>_ _. False),
      st_field_count = 0,
      st_field_names = [],
      st_delta_channel_specs = []\<rparr>"

section \<open>Lemmas\<close>

definition msgs_wf :: "message list \<Rightarrow> bool" where
  "msgs_wf ms \<longleftrightarrow> distinct (map msg_id ms)"

text \<open>A sentinel is an instruction to the reducer, not a message.\<close>

definition is_sentinel :: "message \<Rightarrow> bool" where
  "is_sentinel m \<longleftrightarrow> msg_id m = REMOVE_ALL_MESSAGES \<or> starts_with remove_prefix (msg_id m)"

lemma replace_first_ids [simp]: "map msg_id (replace_first msg ms) = map msg_id ms"
  by (induction ms) auto

lemma set_replace_first_subset: "set (replace_first msg ms) \<subseteq> insert msg (set ms)"
  by (induction ms) auto

lemma distinct_map_filter_ids: "msgs_wf ms \<Longrightarrow> msgs_wf (filter P ms)"
  by (simp add: msgs_wf_def distinct_map_filter)

lemma reduce_message_wf: "msgs_wf ms \<Longrightarrow> msgs_wf (reduce_message msg ms)"
proof -
  assume wf: "msgs_wf ms"
  then have "msgs_wf (replace_first msg ms)" by (simp add: msgs_wf_def)
  moreover have "\<not> list_ex (\<lambda>m. msg_id m = msg_id msg) ms \<Longrightarrow> msgs_wf (ms @ [msg])"
    using wf by (auto simp: msgs_wf_def list_ex_iff)
  moreover have "msgs_wf []" by (simp add: msgs_wf_def)
  ultimately show ?thesis
    using distinct_map_filter_ids [OF wf] by (simp add: reduce_message_def Let_def)
qed

lemma reduce_message_no_sentinel:
  "\<forall>m \<in> set ms. \<not> is_sentinel m \<Longrightarrow> \<forall>m \<in> set (reduce_message msg ms). \<not> is_sentinel m"
  using set_replace_first_subset [of msg ms]
  by (auto simp: reduce_message_def Let_def is_sentinel_def)

definition msgs_inv :: "message list \<Rightarrow> bool" where
  "msgs_inv ms \<longleftrightarrow> msgs_wf ms \<and> (\<forall>m \<in> set ms. \<not> is_sentinel m)"

interpretation msgs: transition_system "\<lambda>ms. ms = []" reduce_message msgs_inv
proof unfold_locales
  fix ms e assume "msgs_inv ms"
  then show "msgs_inv (reduce_message e ms)"
    using reduce_message_wf [of ms e] reduce_message_no_sentinel [of ms e] unfolding msgs_inv_def by blast
qed (simp add: msgs_inv_def msgs_wf_def)

text \<open>The trait implementation keeps the history well formed and reports every change.\<close>

interpretation messages_base: state_base messages_state_impl "\<lambda>s. msgs_inv (ms_messages s)" "\<lambda>_. True"
proof unfold_locales
  fix s :: messages_state and u s' fc
  assume "msgs_inv (ms_messages s)" "st_try_apply messages_state_impl s u = Inr (s', fc)"
  then show "msgs_inv (ms_messages s')"
    using msgs.inv_run [of "ms_messages s"]
    by (auto simp: messages_state_impl_def default_try_apply_def messages_apply_def messages_reducer_def
        split: option.splits)
next
  fix s :: messages_state and u s'
  assume "st_try_apply messages_state_impl s u = Inr (s', 0)"
  then show "s' = s"
    by (auto simp: messages_state_impl_def default_try_apply_def messages_apply_def split: option.splits)
qed (simp_all add: messages_state_impl_def msgs_inv_def msgs_wf_def messages_reset_ephemeral_def)

text \<open>The list read as a map from identifiers to messages.\<close>

definition lookup_msg :: "message list \<Rightarrow> string \<Rightarrow> message option" where
  "lookup_msg ms i = find (\<lambda>m. msg_id m = i) ms"

lemma lookup_replace_first:
  "list_ex (\<lambda>m. msg_id m = msg_id msg) ms \<Longrightarrow>
   lookup_msg (replace_first msg ms) i = (if i = msg_id msg then Some msg else lookup_msg ms i)"
  by (induction ms) (auto simp: lookup_msg_def)

lemma lookup_append:
  "lookup_msg (ms @ ms') i = (case lookup_msg ms i of Some m \<Rightarrow> Some m | None \<Rightarrow> lookup_msg ms' i)"
  by (induction ms) (auto simp: lookup_msg_def)

lemma lookup_filter:
  "lookup_msg (filter (\<lambda>m. msg_id m \<noteq> t) ms) i = (if i = t then None else lookup_msg ms i)"
  by (induction ms) (auto simp: lookup_msg_def)

lemma lookup_none: "lookup_msg ms i = None \<longleftrightarrow> \<not> list_ex (\<lambda>m. msg_id m = i) ms"
  by (induction ms) (auto simp: lookup_msg_def)

lemma lookup_single: "lookup_msg [m] i = (if msg_id m = i then Some m else None)"
  by (simp add: lookup_msg_def)

text \<open>What one incoming message does to that map.\<close>

definition spec_message :: "message \<Rightarrow> (string \<rightharpoonup> message) \<Rightarrow> (string \<rightharpoonup> message)" where
  "spec_message msg M =
     (if msg_id msg = REMOVE_ALL_MESSAGES then Map.empty
      else if starts_with remove_prefix (msg_id msg) then M(drop (length remove_prefix) (msg_id msg) := None)
      else M(msg_id msg \<mapsto> msg))"

lemma lookup_reduce: "lookup_msg (reduce_message msg ms) = spec_message msg (lookup_msg ms)"
proof
  fix i
  consider "msg_id msg = REMOVE_ALL_MESSAGES" | "msg_id msg \<noteq> REMOVE_ALL_MESSAGES" "starts_with remove_prefix (msg_id msg)"
    | "\<not> is_sentinel msg" "list_ex (\<lambda>m. msg_id m = msg_id msg) ms"
    | "\<not> is_sentinel msg" "\<not> list_ex (\<lambda>m. msg_id m = msg_id msg) ms"
    by (auto simp: is_sentinel_def)
  then show "lookup_msg (reduce_message msg ms) i = spec_message msg (lookup_msg ms) i"
  proof cases
    case 1
    then show ?thesis by (simp add: reduce_message_def spec_message_def lookup_msg_def)
  next
    case 2
    then show ?thesis by (simp add: reduce_message_def spec_message_def lookup_filter Let_def)
  next
    case 3
    then show ?thesis by (simp add: reduce_message_def spec_message_def lookup_replace_first is_sentinel_def)
  next
    case 4
    then have "lookup_msg ms (msg_id msg) = None" by (simp add: lookup_none)
    with 4 show ?thesis
      by (auto simp: reduce_message_def spec_message_def lookup_append is_sentinel_def lookup_single
          split: option.splits)
  qed
qed

lemma reduce_message_order:
  "\<not> is_sentinel msg \<Longrightarrow> map msg_id (reduce_message msg ms) =
     (if msg_id msg \<in> msg_id ` set ms then map msg_id ms else map msg_id ms @ [msg_id msg])"
  by (auto simp: reduce_message_def is_sentinel_def list_ex_iff intro: rev_image_eqI)

section \<open>Properties\<close>

text \<open>
  Whatever messages and deletion sentinels arrive, in whatever batches, the history built by the
  messages reducer from an empty list never holds two messages with the same identifier and
  never stores a sentinel.
\<close>

theorem messages_history_invariant:
  "distinct (map msg_id (messages_reducer [] incoming)) \<and>
   (\<forall>m. m \<in> set (messages_reducer [] incoming) \<longrightarrow>
      msg_id m \<noteq> REMOVE_ALL_MESSAGES \<and> \<not> starts_with remove_prefix (msg_id m))"
  using msgs.inv_run [OF msgs.inv_init [OF refl], of incoming]
  by (auto simp: messages_reducer_def msgs_inv_def msgs_wf_def is_sentinel_def)

theorem messages_history_invariant_witness:
  "map msg_id (messages_reducer [] [message_human ''1'' ''hi'', message_ai ''2'' ''x'', message_remove ''1'']) = [''2''] \<and>
   \<not> starts_with remove_prefix (msg_id (message_ai ''2'' ''x''))"
proof -
  let ?in = "[message_human ''1'' ''hi'', message_ai ''2'' ''x'', message_remove ''1'']"
  have e: "messages_reducer [] ?in = [message_ai ''2'' ''x'']"
    by (simp add: messages_reducer_def reduce_message_def message_human_def message_ai_def
        message_remove_def plain_message_def remove_prefix_def starts_with_def REMOVE_ALL_MESSAGES_def)
  show ?thesis
    using messages_history_invariant [of ?in] unfolding e by (simp add: message_ai_def plain_message_def)
qed

text \<open>
  C16: The reducer refines an update of a map from identifiers to messages: seen as such a map, the
  resulting history is the old one with, for each incoming message in turn, everything removed (the
  remove-all sentinel), one identifier removed (a remove sentinel), or the message stored
  under its identifier; and splitting the incoming messages into batches does not matter.
\<close>

theorem messages_reducer_refines_map:
  "lookup_msg (messages_reducer current incoming) = fold spec_message incoming (lookup_msg current) \<and>
   messages_reducer current (xs @ ys) = messages_reducer (messages_reducer current xs) ys"
proof -
  have "lookup_msg (fold reduce_message incoming current) = fold spec_message incoming (lookup_msg current)"
    by (induction incoming arbitrary: current) (simp_all add: lookup_reduce)
  then show ?thesis by (simp add: messages_reducer_def)
qed

end
