(* ===== verification/Commands.thy ===== *)
theory Commands
  imports Errors
begin

text \<open>
  The data nodes, edges and the engine exchange: \<open>juncture-core/src/command.rs\<close> (commands),
  \<open>edge/types.rs\<close> and \<open>edge/compiled.rs\<close> (edges, path maps, the trigger table), the signal and
  resume types of \<open>interrupt/mod.rs\<close>, and \<open>pregel/types.rs\<close> (tasks, outputs, loop status).
  A router is a function of the state; a state carried as JSON stays JSON.
\<close>

section \<open>Interrupt signals\<close>

record interrupt_signal =
  sig_index :: nat
  sig_id :: "string option"
  sig_payload :: json
  sig_timestamp :: nat

datatype resume_value =
    ResumeSingle json
  | ResumeById "(string, json) imap"
  | ResumeByNamespace "(string, json) imap"

definition resume_to_json :: "resume_value \<Rightarrow> json" where
  "resume_to_json r = (case r of
       ResumeSingle v \<Rightarrow> v
     | ResumeById m \<Rightarrow> JObj m
     | ResumeByNamespace m \<Rightarrow> JObj m)"

section \<open>Commands\<close>

record send_target =
  send_node :: string
  send_state :: json
  send_timeout :: "nat option"

datatype goto =
    GotoNone
  | GotoNext string
  | GotoMultiple "string list"
  | GotoSend "send_target list"
  | GotoEnd

datatype graph_target = CurrentGraph | ParentGraph

record 'u command =
  cmd_update :: "'u option"
  cmd_goto :: goto
  cmd_graph :: graph_target
  cmd_resume :: "resume_value option"
  cmd_stream_data :: "json list"

definition command_default :: "'u command" where
  "command_default = \<lparr>cmd_update = None, cmd_goto = GotoNone, cmd_graph = CurrentGraph,
     cmd_resume = None, cmd_stream_data = []\<rparr>"

definition command_update :: "'u \<Rightarrow> 'u command" where
  "command_update u = \<lparr>cmd_update = Some u, cmd_goto = GotoNone, cmd_graph = CurrentGraph,
     cmd_resume = None, cmd_stream_data = []\<rparr>"

definition command_goto :: "string \<Rightarrow> 'u command" where
  "command_goto t = \<lparr>cmd_update = None, cmd_goto = GotoNext t, cmd_graph = CurrentGraph,
     cmd_resume = None, cmd_stream_data = []\<rparr>"

definition command_update_and_goto :: "'u \<Rightarrow> string \<Rightarrow> 'u command" where
  "command_update_and_goto u t = \<lparr>cmd_update = Some u, cmd_goto = GotoNext t,
     cmd_graph = CurrentGraph, cmd_resume = None, cmd_stream_data = []\<rparr>"

definition command_send :: "send_target list \<Rightarrow> 'u command" where
  "command_send ts = \<lparr>cmd_update = None, cmd_goto = GotoSend ts, cmd_graph = CurrentGraph,
     cmd_resume = None, cmd_stream_data = []\<rparr>"

definition command_update_and_send :: "'u \<Rightarrow> send_target list \<Rightarrow> 'u command" where
  "command_update_and_send u ts = \<lparr>cmd_update = Some u, cmd_goto = GotoSend ts,
     cmd_graph = CurrentGraph, cmd_resume = None, cmd_stream_data = []\<rparr>"

definition command_end :: "'u command" where
  "command_end = \<lparr>cmd_update = None, cmd_goto = GotoEnd, cmd_graph = CurrentGraph,
     cmd_resume = None, cmd_stream_data = []\<rparr>"

definition command_goto_parent :: "string \<Rightarrow> 'u command" where
  "command_goto_parent t = \<lparr>cmd_update = None, cmd_goto = GotoNext t, cmd_graph = ParentGraph,
     cmd_resume = None, cmd_stream_data = []\<rparr>"

definition with_resume :: "resume_value \<Rightarrow> 'u command \<Rightarrow> 'u command" where
  "with_resume v c = c\<lparr>cmd_resume := Some v\<rparr>"

definition with_stream_data :: "json \<Rightarrow> 'u command \<Rightarrow> 'u command" where
  "with_stream_data d c = c\<lparr>cmd_stream_data := cmd_stream_data c @ [d]\<rparr>"

record 'u parent_command =
  pc_command :: "'u command"
  pc_source_node :: string
  pc_namespace :: string

definition from_subgraph :: "'u command \<Rightarrow> string \<Rightarrow> string \<Rightarrow> 'u parent_command" where
  "from_subgraph c src ns = \<lparr>pc_command = c, pc_source_node = src, pc_namespace = ns\<rparr>"

section \<open>Edges\<close>

datatype route_result = RouteOne string | RouteMultiple "string list"

definition route_as_target :: "route_result \<Rightarrow> string option" where
  "route_as_target r = (case r of RouteOne t \<Rightarrow> Some t | RouteMultiple _ \<Rightarrow> None)"

definition route_targets :: "route_result \<Rightarrow> string list" where
  "route_targets r = (case r of RouteOne t \<Rightarrow> [t] | RouteMultiple ts \<Rightarrow> ts)"

type_synonym 's router = "'s \<Rightarrow> (juncture_error, route_result) result"
type_synonym path_map = "(string, string) imap"

definition path_map_new :: path_map where
  "path_map_new = []"

definition path_map_insert :: "string \<Rightarrow> string \<Rightarrow> path_map \<Rightarrow> path_map" where
  "path_map_insert k v m = im_insert k v m"

definition path_map_get :: "path_map \<Rightarrow> string \<Rightarrow> string option" where
  "path_map_get m k = im_get m k"

definition path_map_of_pairs :: "(string \<times> string) list \<Rightarrow> path_map" where
  "path_map_of_pairs ps = fold (\<lambda>(k, v) m. im_insert k v m) ps []"

datatype 's edge =
    EdgeFixed string string
  | EdgeConditional string "'s router" path_map

fun edge_from :: "'s edge \<Rightarrow> string" where
  "edge_from (EdgeFixed f _) = f"
| "edge_from (EdgeConditional f _ _) = f"

datatype 's compiled_edge =
    CFixed string
  | CConditional "'s router" path_map

datatype trigger_source = TrigEdge string | TrigSend string

record 's trigger_table =
  tt_outgoing :: "(string, 's compiled_edge list) imap"
  tt_incoming :: "(string, trigger_source list) imap"

definition trigger_table_new :: "'s trigger_table" where
  "trigger_table_new = \<lparr>tt_outgoing = [], tt_incoming = []\<rparr>"

definition add_outgoing :: "string \<Rightarrow> 's compiled_edge \<Rightarrow> 's trigger_table \<Rightarrow> 's trigger_table" where
  "add_outgoing from e t = t\<lparr>tt_outgoing := im_modify from [] (\<lambda>es. es @ [e]) (tt_outgoing t)\<rparr>"

definition add_incoming :: "string \<Rightarrow> trigger_source \<Rightarrow> 's trigger_table \<Rightarrow> 's trigger_table" where
  "add_incoming to src t = t\<lparr>tt_incoming := im_modify to [] (\<lambda>ss. ss @ [src]) (tt_incoming t)\<rparr>"

text \<open>The edges leaving a node, \<open>get(...)\<close> with an empty default.\<close>

definition outgoing_of :: "'s trigger_table \<Rightarrow> string \<Rightarrow> 's compiled_edge list" where
  "outgoing_of t n = (case im_get (tt_outgoing t) n of Some es \<Rightarrow> es | None \<Rightarrow> [])"

definition incoming_of :: "'s trigger_table \<Rightarrow> string \<Rightarrow> trigger_source list" where
  "incoming_of t n = (case im_get (tt_incoming t) n of Some ss \<Rightarrow> ss | None \<Rightarrow> [])"

lemma outgoing_of_add [simp]:
  "outgoing_of (add_outgoing f e t) n = (if n = f then outgoing_of t f @ [e] else outgoing_of t n)"
  "outgoing_of (add_incoming to s t) n = outgoing_of t n"
  by (simp_all add: outgoing_of_def add_outgoing_def add_incoming_def split: option.splits)

lemma incoming_of_add [simp]:
  "incoming_of (add_incoming to s t) n = (if n = to then incoming_of t to @ [s] else incoming_of t n)"
  "incoming_of (add_outgoing f e t) n = incoming_of t n"
  by (simp_all add: incoming_of_def add_outgoing_def add_incoming_def split: option.splits)

lemma trigger_table_new_of [simp]: "outgoing_of trigger_table_new n = []" "incoming_of trigger_table_new n = []"
  by (simp_all add: outgoing_of_def incoming_of_def trigger_table_new_def)

section \<open>Tasks and results\<close>

datatype task_trigger = Pull | Push nat

definition is_pull :: "task_trigger \<Rightarrow> bool" where
  "is_pull t = (case t of Pull \<Rightarrow> True | Push _ \<Rightarrow> False)"

definition is_push :: "task_trigger \<Rightarrow> bool" where
  "is_push t = (case t of Push _ \<Rightarrow> True | Pull \<Rightarrow> False)"

record 's pending_task =
  task_id :: string
  task_node :: string
  task_trig :: task_trigger
  task_state_override :: "'s option"
  task_state_json :: "json option"
  task_triggered_fields :: "nat list"

definition task_new ::
    "string \<Rightarrow> string \<Rightarrow> task_trigger \<Rightarrow> 's option \<Rightarrow> nat list \<Rightarrow> 's pending_task" where
  "task_new i n trig ov tfs = \<lparr>task_id = i, task_node = n, task_trig = trig,
     task_state_override = ov, task_state_json = None, task_triggered_fields = tfs\<rparr>"

definition task_pull :: "string \<Rightarrow> string \<Rightarrow> 's pending_task" where
  "task_pull i n = \<lparr>task_id = i, task_node = n, task_trig = Pull, task_state_override = None,
     task_state_json = None, task_triggered_fields = []\<rparr>"

definition task_pull_with_triggered :: "string \<Rightarrow> string \<Rightarrow> nat list \<Rightarrow> 's pending_task" where
  "task_pull_with_triggered i n tfs = \<lparr>task_id = i, task_node = n, task_trig = Pull,
     task_state_override = None, task_state_json = None, task_triggered_fields = tfs\<rparr>"

definition task_push :: "string \<Rightarrow> string \<Rightarrow> nat \<Rightarrow> json \<Rightarrow> 's pending_task" where
  "task_push i n ix j = \<lparr>task_id = i, task_node = n, task_trig = Push ix,
     task_state_override = None, task_state_json = Some j, task_triggered_fields = []\<rparr>"

definition task_push_typed :: "string \<Rightarrow> string \<Rightarrow> nat \<Rightarrow> 's \<Rightarrow> 's pending_task" where
  "task_push_typed i n ix s = \<lparr>task_id = i, task_node = n, task_trig = Push ix,
     task_state_override = Some s, task_state_json = None, task_triggered_fields = []\<rparr>"

lemmas task_defs = task_new_def task_pull_def task_pull_with_triggered_def task_push_def task_push_typed_def

record 'u task_output =
  out_task_id :: string
  out_node :: string
  out_command :: "'u command"
  out_duration :: nat
  out_trigger :: task_trigger
  out_triggered_fields :: "nat list"
  out_error :: "juncture_error option"
  out_circuit_blocked :: bool

text \<open>
  Cloning an output rebuilds its error from the display string (\<open>display\<close>), as an execution error.
\<close>

definition clone_output :: "(juncture_error \<Rightarrow> string) \<Rightarrow> 'u task_output \<Rightarrow> 'u task_output" where
  "clone_output display out = out\<lparr>out_error := map_option (\<lambda>e. ExecutionError (display e)) (out_error out)\<rparr>"

record graph_interrupt =
  gi_interrupts :: "interrupt_signal list"
  gi_step :: nat
  gi_namespace :: "string list"

record graph_drained = gd_reason :: string

datatype 'u bubble_up =
    BubbleInterrupt graph_interrupt
  | BubbleDrained graph_drained
  | BubbleParentCommand "'u parent_command"

record 'u superstep_result =
  sr_task_outputs :: "'u task_output list"
  sr_bubble_ups :: "'u bubble_up list"

definition superstep_empty :: "'u superstep_result" where
  "superstep_empty = \<lparr>sr_task_outputs = [], sr_bubble_ups = []\<rparr>"

definition superstep_is_empty :: "'u superstep_result \<Rightarrow> bool" where
  "superstep_is_empty r \<longleftrightarrow> sr_task_outputs r = [] \<and> sr_bubble_ups r = []"

definition has_bubble_ups :: "'u superstep_result \<Rightarrow> bool" where
  "has_bubble_ups r \<longleftrightarrow> sr_bubble_ups r \<noteq> []"

section \<open>Loop status\<close>

datatype loop_status =
    Running
  | Done
  | OutOfSteps
  | InterruptBefore "interrupt_signal list"
  | InterruptAfter "interrupt_signal list"
  | BudgetExceeded
  | StatusCancelled
  | Drained

definition is_running :: "loop_status \<Rightarrow> bool" where
  "is_running s = (case s of Running \<Rightarrow> True | _ \<Rightarrow> False)"

definition is_terminal :: "loop_status \<Rightarrow> bool" where
  "is_terminal s = (case s of Done \<Rightarrow> True | OutOfSteps \<Rightarrow> True | BudgetExceeded \<Rightarrow> True
     | StatusCancelled \<Rightarrow> True | Drained \<Rightarrow> True | _ \<Rightarrow> False)"

definition is_interrupted :: "loop_status \<Rightarrow> bool" where
  "is_interrupted s = (case s of InterruptBefore _ \<Rightarrow> True | InterruptAfter _ \<Rightarrow> True | _ \<Rightarrow> False)"

definition interrupt_signals :: "loop_status \<Rightarrow> interrupt_signal list" where
  "interrupt_signals s = (case s of InterruptBefore xs \<Rightarrow> xs | InterruptAfter xs \<Rightarrow> xs | _ \<Rightarrow> [])"

text \<open>Every status is exactly one of running, terminal or interrupted.\<close>

lemma status_trichotomy:
  "is_running s \<longleftrightarrow> \<not> is_terminal s \<and> \<not> is_interrupted s"
  "is_terminal s \<longleftrightarrow> \<not> is_running s \<and> \<not> is_interrupted s"
  by (cases s; simp add: is_running_def is_terminal_def is_interrupted_def)+

section \<open>Deferred results and health\<close>

datatype 't sync_async_future =
    FutReady "'t option"
  | FutPending "(juncture_error, 't) result"

definition future_result :: "'t sync_async_future \<Rightarrow> (juncture_error, 't) result" where
  "future_result f = (case f of
       FutReady (Some v) \<Rightarrow> Ok v
     | FutReady None \<Rightarrow> Err EmptyChannel
     | FutPending r \<Rightarrow> r)"

definition future_is_ready :: "'t sync_async_future \<Rightarrow> bool" where
  "future_is_ready f = (case f of FutReady _ \<Rightarrow> True | FutPending _ \<Rightarrow> False)"

datatype node_health_state = Healthy | Degraded | Unhealthy

record node_health =
  nh_status :: node_health_state
  nh_consecutive_failures :: nat
  nh_circuit_state :: "string option"

record health_status =
  hs_healthy :: bool
  hs_nodes :: "(string, node_health) imap"
  hs_open_circuit_breakers :: nat

end
