(* ===== verification/Retry.thy ===== *)
theory Retry
  imports Errors Complex_Main
begin

text \<open>
  Retry loops: \<open>execute_with_retry\<close> and \<open>execute_with_timeout\<close> of
  \<open>juncture-core/src/graph/builder.rs\<close> and the \<open>RetryingModel\<close> of \<open>juncture/src/llm/retry.rs\<close>.  The
  operation's outcome at each attempt and the random jitter are arguments; durations are
  nanoseconds, factors are rationals (the rounding of \<open>f64\<close> is not modelled).  A loop
  returns the delays it slept and its result, \<open>None\<close> standing for a panic of the duration
  arithmetic.
\<close>

section \<open>Durations\<close>

definition DURATION_MAX :: nat where
  "DURATION_MAX = u64_max * 10 ^ 9 + 999999999"

text \<open>\<open>Duration::mul_f64\<close> panics on a negative factor and on overflow.\<close>

definition mul_f64 :: "nat \<Rightarrow> rat \<Rightarrow> nat option" where
  "mul_f64 d f = (let x = round (of_nat d * f) in
     if f < 0 \<or> x > int DURATION_MAX then None else Some (nat x))"

definition saturating_mul :: "nat \<Rightarrow> nat \<Rightarrow> nat" where
  "saturating_mul d m = min (d * m) DURATION_MAX"

section \<open>Node retries\<close>

record retry_policy =
  max_attempts :: nat
  initial_interval :: nat
  backoff_factor :: rat
  max_interval :: nat
  jitter :: bool
  retry_on :: "(juncture_error \<Rightarrow> bool) option"

definition retry_policy_default :: retry_policy where
  "retry_policy_default = \<lparr>max_attempts = 3, initial_interval = 500 * 10 ^ 6, backoff_factor = 2,
     max_interval = 10 * 10 ^ 9, jitter = True, retry_on = None\<rparr>"

definition should_retry :: "retry_policy \<Rightarrow> juncture_error \<Rightarrow> bool" where
  "should_retry p e = (case retry_on p of
       None \<Rightarrow> \<not> is_cancelled e \<and> \<not> is_interrupt e
     | Some predicate \<Rightarrow> predicate e)"

definition cap_delay :: "nat \<Rightarrow> nat \<Rightarrow> nat" where
  "cap_delay delay mx = min delay mx"

definition compute_delay :: "rat \<Rightarrow> nat \<Rightarrow> bool \<Rightarrow> nat \<Rightarrow> nat option" where
  "compute_delay jitter_fraction base jit max_int =
     (let capped = cap_delay base max_int in
      if \<not> jit then Some capped
      else map_option (\<lambda>d. cap_delay d max_int) (mul_f64 capped jitter_fraction))"

text \<open>
  The \<open>for\<close> loop with \<open>remaining\<close> iterations left, at iteration \<open>attempt\<close>.  \<open>op attempt\<close> is what the
  operation returns then, \<open>rnd attempt\<close> the random factor drawn then.
\<close>

type_synonym 'c retry_result = "nat list \<times> (juncture_error, 'c) result option"

fun retry_loop ::
    "retry_policy \<Rightarrow> (nat \<Rightarrow> (juncture_error, 'c) result) \<Rightarrow> (nat \<Rightarrow> rat) \<Rightarrow> string \<Rightarrow> nat \<Rightarrow> nat \<Rightarrow> nat
       \<Rightarrow> juncture_error option \<Rightarrow> 'c retry_result" where
  "retry_loop p op rnd node 0 attempt delay last_error =
     ([], Some (Err (case last_error of Some e \<Rightarrow> e
        | None \<Rightarrow> ExecutionError (''node '' @ node @ '': retry policy exhausted with no error recorded''))))"
| "retry_loop p op rnd node (Suc remaining) attempt delay last_error =
     (case op attempt of
        Inr command \<Rightarrow> ([], Some (Ok command))
      | Inl e \<Rightarrow>
          if \<not> should_retry p e \<or> attempt + 1 \<ge> max_attempts p then ([], Some (Err e))
          else (case compute_delay (rnd attempt) delay (jitter p) (max_interval p) of
              None \<Rightarrow> ([], None)
            | Some actual_delay \<Rightarrow>
                (case mul_f64 delay (backoff_factor p) of
                   None \<Rightarrow> ([actual_delay], None)
                 | Some d \<Rightarrow>
                     let (slept, r) = retry_loop p op rnd node remaining (attempt + 1)
                                        (cap_delay d (max_interval p)) (Some e)
                     in (actual_delay # slept, r))))"

definition execute_with_retry ::
    "string \<Rightarrow> retry_policy \<Rightarrow> (nat \<Rightarrow> (juncture_error, 'c) result) \<Rightarrow> (nat \<Rightarrow> rat) \<Rightarrow> 'c retry_result" where
  "execute_with_retry node p op rnd = retry_loop p op rnd node (max_attempts p) 0 (initial_interval p) None"

section \<open>Timeouts\<close>

text \<open>
  \<open>tokio::time::timeout\<close>: the operation's outcome with the time it needs; a future that is
  ready when the deadline fires has won the race.
\<close>

definition execute_with_timeout ::
    "string \<Rightarrow> nat \<Rightarrow> nat \<times> (juncture_error, 'c) result \<Rightarrow> (juncture_error, 'c) result" where
  "execute_with_timeout node run_timeout outcome = (case outcome of
       (needed, r) \<Rightarrow>
         if needed \<le> run_timeout then r
         else Err (NodeTimeout (RunTimeout node (min (run_timeout div 10 ^ 6) u64_max))))"

section \<open>Model-call retries\<close>

datatype llm_error =
    AuthError string
  | RateLimited "nat option"
  | ContextLengthExceeded nat nat
  | NetworkError string
  | InvalidResponse string
  | ModelNotFound string
  | ContentFiltered
  | Timeout nat
  | OtherError string

record retrying_model =
  max_retries :: nat
  initial_backoff :: nat
  max_backoff :: nat
  respect_retry_after :: bool

definition retrying_model_new :: retrying_model where
  "retrying_model_new = \<lparr>max_retries = 3, initial_backoff = 500 * 10 ^ 6, max_backoff = 30 * 10 ^ 9,
     respect_retry_after = True\<rparr>"

definition set_max_retries :: "nat \<Rightarrow> retrying_model \<Rightarrow> retrying_model" where
  "set_max_retries n m = m\<lparr>max_retries := n\<rparr>"

definition set_initial_backoff :: "nat \<Rightarrow> retrying_model \<Rightarrow> retrying_model" where
  "set_initial_backoff d m = m\<lparr>initial_backoff := d\<rparr>"

definition set_max_backoff :: "nat \<Rightarrow> retrying_model \<Rightarrow> retrying_model" where
  "set_max_backoff d m = m\<lparr>max_backoff := d\<rparr>"

definition set_respect_retry_after :: "bool \<Rightarrow> retrying_model \<Rightarrow> retrying_model" where
  "set_respect_retry_after r m = m\<lparr>respect_retry_after := r\<rparr>"

definition is_retryable :: "llm_error \<Rightarrow> bool" where
  "is_retryable e = (case e of RateLimited _ \<Rightarrow> True | Timeout _ \<Rightarrow> True | _ \<Rightarrow> False)"

text \<open>
  \<open>2_u32.pow(n)\<close>: above 31 it overflows, which panics when overflow checks are compiled in
  (\<open>checks\<close>) and otherwise wraps to zero.
\<close>

definition u32_pow2 :: "bool \<Rightarrow> nat \<Rightarrow> nat option" where
  "u32_pow2 checks n = (if n < 32 then Some (2 ^ n) else if checks then None else Some 0)"

definition backoff_duration :: "bool \<Rightarrow> retrying_model \<Rightarrow> nat \<Rightarrow> nat option" where
  "backoff_duration checks m attempt =
     map_option (\<lambda>multiplier. min (saturating_mul (initial_backoff m) multiplier) (max_backoff m))
       (u32_pow2 checks (min attempt (2 ^ 32 - 1)))"

definition extract_retry_delay :: "retrying_model \<Rightarrow> llm_error \<Rightarrow> nat option" where
  "extract_retry_delay m e = (case e of
       RateLimited retry_after \<Rightarrow> if respect_retry_after m then retry_after else None
     | _ \<Rightarrow> None)"

fun model_loop ::
    "bool \<Rightarrow> retrying_model \<Rightarrow> (nat \<Rightarrow> (llm_error, 'c) result) \<Rightarrow> nat \<Rightarrow> nat \<Rightarrow> llm_error option
       \<Rightarrow> nat list \<times> (llm_error, 'c) result option" where
  "model_loop checks m op 0 attempt last_error =
     ([], Some (Err (case last_error of Some e \<Rightarrow> e
        | None \<Rightarrow> OtherError ''Max retries exceeded with unknown error'')))"
| "model_loop checks m op (Suc remaining) attempt last_error =
     (case op attempt of
        Inr response \<Rightarrow> ([], Some (Ok response))
      | Inl e \<Rightarrow>
          if is_retryable e \<and> attempt < max_retries m
          then (case (case extract_retry_delay m e of Some d \<Rightarrow> Some d
                        | None \<Rightarrow> backoff_duration checks m attempt) of
                  None \<Rightarrow> ([], None)
                | Some delay \<Rightarrow>
                    let (slept, r) = model_loop checks m op remaining (attempt + 1) (Some e)
                    in (delay # slept, r))
          else ([], Some (Err e)))"

definition retrying_invoke ::
    "bool \<Rightarrow> retrying_model \<Rightarrow> (nat \<Rightarrow> (llm_error, 'c) result) \<Rightarrow> nat list \<times> (llm_error, 'c) result option" where
  "retrying_invoke checks m op = model_loop checks m op (max_retries m + 1) 0 None"

section \<open>Reference definition\<close>

text \<open>
  What a bounded retry loop is meant to compute: the first attempt whose outcome settles the matter,
  or the last one allowed.
\<close>

fun settling_attempt :: "('r \<Rightarrow> bool) \<Rightarrow> (nat \<Rightarrow> 'r) \<Rightarrow> nat \<Rightarrow> nat \<Rightarrow> nat" where
  "settling_attempt settled op 0 i = i"
| "settling_attempt settled op (Suc k) i = (if settled (op i) then i else settling_attempt settled op k (Suc i))"

lemma settling_attempt_bounds: "i \<le> settling_attempt settled op k i \<and> settling_attempt settled op k i \<le> i + k"
proof (induction k arbitrary: i)
  case (Suc k)
  from Suc [of "Suc i"] show ?case by simp
qed simp

definition node_settled :: "retry_policy \<Rightarrow> (juncture_error, 'c) result \<Rightarrow> bool" where
  "node_settled p r = (case r of Inr _ \<Rightarrow> True | Inl e \<Rightarrow> \<not> should_retry p e)"

definition model_settled :: "(llm_error, 'c) result \<Rightarrow> bool" where
  "model_settled r = (case r of Inr _ \<Rightarrow> True | Inl e \<Rightarrow> \<not> is_retryable e)"

lemma mul_f64_Some:
  assumes "0 \<le> f" "of_nat d * f \<le> of_nat DURATION_MAX"
  shows "mul_f64 d f \<noteq> None"
proof -
  have "round (of_nat d * f) \<le> round (of_nat DURATION_MAX :: rat)" by (rule round_mono) (rule assms(2))
  also have "round (of_nat DURATION_MAX :: rat) = int DURATION_MAX" by (metis of_int_of_nat_eq round_of_int)
  finally show ?thesis using assms(1) by (simp add: mul_f64_def Let_def not_less)
qed

text \<open>No delay is longer than the configured maximum.\<close>

lemma compute_delay_bound: "compute_delay f d jit mx = Some r \<Longrightarrow> r \<le> mx"
  by (auto simp: compute_delay_def cap_delay_def Let_def split: if_splits)

text \<open>The settings under which the duration arithmetic cannot overflow.\<close>

definition policy_safe :: "retry_policy \<Rightarrow> (nat \<Rightarrow> rat) \<Rightarrow> bool" where
  "policy_safe p rnd \<longleftrightarrow> 0 \<le> backoff_factor p \<and> (\<forall>i. 0 \<le> rnd i \<and> rnd i \<le> 5 / 4) \<and>
     of_nat (max (initial_interval p) (max_interval p)) * max (backoff_factor p) (5 / 4) \<le> of_nat DURATION_MAX"

lemma policy_safe_mul:
  assumes "policy_safe p rnd" "d \<le> max (initial_interval p) (max_interval p)"
    "0 \<le> f" "f \<le> max (backoff_factor p) (5 / 4)"
  shows "mul_f64 d f \<noteq> None"
proof (rule mul_f64_Some [OF assms(3)])
  have "(of_nat d :: rat) * f \<le> of_nat (max (initial_interval p) (max_interval p)) * max (backoff_factor p) (5 / 4)"
    using assms by (intro mult_mono) (auto simp: le_max_iff_disj)
  with assms(1) show "of_nat d * f \<le> of_nat DURATION_MAX" by (simp add: policy_safe_def)
qed

lemma policy_safe_delay:
  assumes "policy_safe p rnd" "d \<le> max (initial_interval p) (max_interval p)"
  shows "\<exists>r. compute_delay (rnd i) d (jitter p) (max_interval p) = Some r"
proof -
  have "mul_f64 (cap_delay d (max_interval p)) (rnd i) \<noteq> None"
    by (rule policy_safe_mul [OF assms(1)])
      (use assms in \<open>auto simp: cap_delay_def policy_safe_def le_max_iff_disj\<close>)
  then show ?thesis by (auto simp: compute_delay_def Let_def)
qed

lemma retry_loop_settles:
  assumes "policy_safe p rnd" "d \<le> max (initial_interval p) (max_interval p)"
    "attempt + Suc k = max_attempts p"
  shows "\<exists>slept. retry_loop p op rnd node (Suc k) attempt d le =
       (slept, Some (op (settling_attempt (node_settled p) op k attempt))) \<and>
     length slept = settling_attempt (node_settled p) op k attempt - attempt \<and>
     (\<forall>x \<in> set slept. x \<le> max_interval p)"
  using assms(2,3)
proof (induction k arbitrary: attempt d le)
  case 0
  then show ?case by (cases "op attempt") auto
next
  case (Suc k)
  show ?case
  proof (cases "node_settled p (op attempt)")
    case True
    then show ?thesis by (cases "op attempt") (auto simp: node_settled_def)
  next
    case False
    then obtain e where e: "op attempt = Inl e" "should_retry p e"
      by (auto simp: node_settled_def split: sum.splits)
    from policy_safe_delay [OF assms(1) Suc.prems(1)] obtain r where
      r: "compute_delay (rnd attempt) d (jitter p) (max_interval p) = Some r" by blast
    have "mul_f64 d (backoff_factor p) \<noteq> None"
      using policy_safe_mul [OF assms(1) Suc.prems(1)] assms(1) by (simp add: policy_safe_def)
    then obtain d' where d': "mul_f64 d (backoff_factor p) = Some d'" by blast
    have "cap_delay d' (max_interval p) \<le> max (initial_interval p) (max_interval p)"
      by (simp add: cap_delay_def)
    from Suc.IH [OF this, of "attempt + 1" "Some e"] Suc.prems(2) obtain slept where
      rec: "retry_loop p op rnd node (Suc k) (attempt + 1) (cap_delay d' (max_interval p)) (Some e) =
        (slept, Some (op (settling_attempt (node_settled p) op k (attempt + 1))))"
      and len: "length slept = settling_attempt (node_settled p) op k (attempt + 1) - (attempt + 1)"
      and bnd: "\<forall>x \<in> set slept. x \<le> max_interval p" by auto
    have "settling_attempt (node_settled p) op k (attempt + 1) \<ge> attempt + 1"
      using settling_attempt_bounds by blast
    moreover have "\<not> attempt + 1 \<ge> max_attempts p" using Suc.prems(2) by simp
    ultimately show ?thesis
      using False e r d' rec len bnd compute_delay_bound [OF r] Suc.prems(2)
      by (simp del: retry_loop.simps add: retry_loop.simps(2) [of p op rnd node "Suc k" attempt d le])
  qed
qed

lemma backoff_duration_eq:
  "backoff_duration checks m attempt =
     (if attempt < 32 then Some (min (min (initial_backoff m * 2 ^ attempt) DURATION_MAX) (max_backoff m))
      else if checks then None else Some 0)"
proof (cases "attempt < 32")
  case True
  then have "u32_pow2 checks (min attempt (2 ^ 32 - 1)) = Some (2 ^ attempt)"
    by (simp add: u32_pow2_def min_absorb1)
  with True show ?thesis by (simp add: backoff_duration_def saturating_mul_def)
next
  case False
  then have "\<not> min attempt (2 ^ 32 - 1) < 32" by simp
  then have "u32_pow2 checks (min attempt (2 ^ 32 - 1)) = (if checks then None else Some 0)"
    unfolding u32_pow2_def by presburger
  with False show ?thesis by (simp add: backoff_duration_def saturating_mul_def)
qed

lemma model_loop_settles:
  assumes "attempt + k = max_retries m" "\<not> checks"
  shows "\<exists>slept. model_loop checks m op (Suc k) attempt le =
       (slept, Some (op (settling_attempt model_settled op k attempt))) \<and>
     length slept = settling_attempt model_settled op k attempt - attempt \<and>
     (\<not> respect_retry_after m \<longrightarrow> (\<forall>x \<in> set slept. x \<le> max_backoff m))"
  using assms(1)
proof (induction k arbitrary: attempt le)
  case 0
  then show ?case by (cases "op attempt") auto
next
  case (Suc k)
  show ?case
  proof (cases "model_settled (op attempt)")
    case True
    then show ?thesis by (cases "op attempt") (auto simp: model_settled_def)
  next
    case False
    then obtain e where e: "op attempt = Inl e" "is_retryable e"
      by (auto simp: model_settled_def split: sum.splits)
    obtain bd where bd: "backoff_duration checks m attempt = Some bd" "bd \<le> max_backoff m"
      using assms(2) backoff_duration_eq [of checks m attempt] by (auto split: if_splits)
    then obtain r where r: "(case extract_retry_delay m e of Some d \<Rightarrow> Some d
        | None \<Rightarrow> backoff_duration checks m attempt) = Some r"
      and rb: "\<not> respect_retry_after m \<longrightarrow> r \<le> max_backoff m"
      by (cases "extract_retry_delay m e") (auto simp: extract_retry_delay_def split: llm_error.splits if_splits)
    from Suc.IH [of "attempt + 1" "Some e"] Suc.prems obtain slept where
      rec: "model_loop checks m op (Suc k) (attempt + 1) (Some e) =
        (slept, Some (op (settling_attempt model_settled op k (attempt + 1))))"
      and len: "length slept = settling_attempt model_settled op k (attempt + 1) - (attempt + 1)"
      and bnd: "\<not> respect_retry_after m \<longrightarrow> (\<forall>x \<in> set slept. x \<le> max_backoff m)" by auto
    have "settling_attempt model_settled op k (attempt + 1) \<ge> attempt + 1"
      using settling_attempt_bounds by blast
    with False e r rb rec len bnd Suc.prems show ?thesis
      by (simp del: model_loop.simps add: model_loop.simps(2) [of checks m op "Suc k" attempt le])
  qed
qed

section \<open>Properties\<close>

text \<open>
  C13: With at least one attempt allowed and durations in range, a retried node returns exactly the
  outcome of its first success or first error that is not to be retried, or of its last allowed
  attempt; it sleeps once before each further attempt and never longer than \<open>max_interval\<close>.
\<close>

theorem execute_with_retry_settles:
  assumes "0 < max_attempts p" and "policy_safe p rnd"
  shows "\<exists>slept n. execute_with_retry node p op rnd = (slept, Some (op n)) \<and>
     n = settling_attempt (node_settled p) op (max_attempts p - 1) 0 \<and>
     n < max_attempts p \<and> length slept = n \<and> (\<forall>d \<in> set slept. d \<le> max_interval p)"
proof -
  from assms(1) obtain k where k: "max_attempts p = Suc k" by (cases "max_attempts p") auto
  from retry_loop_settles [OF assms(2), of "initial_interval p" 0 k op node None] k
  obtain slept where "execute_with_retry node p op rnd = (slept, Some (op (settling_attempt (node_settled p) op k 0)))"
    "length slept = settling_attempt (node_settled p) op k 0" "\<forall>x \<in> set slept. x \<le> max_interval p"
    by (auto simp: execute_with_retry_def)
  moreover have "settling_attempt (node_settled p) op k 0 < Suc k"
    using settling_attempt_bounds [of 0 "node_settled p" op k] by simp
  ultimately show ?thesis using k by auto
qed

theorem execute_with_retry_settles_witness:
  "\<exists>slept. execute_with_retry ''n'' retry_policy_default
      (\<lambda>i. if i < 1 then Err EmptyInput else Ok i) (\<lambda>_. 1) = (slept, Some (Ok 1)) \<and> length slept = 1"
proof -
  let ?op = "\<lambda>i::nat. if i < 1 then Err EmptyInput else Ok i"
  have "policy_safe retry_policy_default (\<lambda>_. 1)"
    by (simp add: policy_safe_def retry_policy_default_def DURATION_MAX_def u64_max_def)
  moreover have "settling_attempt (node_settled retry_policy_default) ?op (max_attempts retry_policy_default - 1) 0 = 1"
    by (simp add: retry_policy_default_def node_settled_def should_retry_def is_cancelled_def
        is_interrupt_def numeral_2_eq_2)
  ultimately show ?thesis
    using execute_with_retry_settles [of retry_policy_default "\<lambda>_. 1" "''n''" ?op]
    by (fastforce simp: retry_policy_default_def)
qed

text \<open>
  A retry policy that allows no attempt never runs the node: the result is an execution error
  that says no error was recorded.
\<close>

theorem retry_zero_attempts_never_runs:
  "\<exists>msg. execute_with_retry node (p\<lparr>max_attempts := 0\<rparr>) op rnd = ([], Some (Err (ExecutionError msg)))"
  by (simp add: execute_with_retry_def)

text \<open>
  Compiled without overflow checks, the retrying model makes at most \<open>max_retries + 1\<close> calls and
  returns the outcome of the first one that succeeds or fails permanently, or of the last; without
  server-suggested delays no wait exceeds \<open>max_backoff\<close>.
\<close>

theorem retrying_invoke_settles:
  "\<exists>slept n. retrying_invoke False m op = (slept, Some (op n)) \<and>
     n = settling_attempt model_settled op (max_retries m) 0 \<and> n \<le> max_retries m \<and> length slept = n \<and>
     (respect_retry_after m \<or> (\<forall>d \<in> set slept. d \<le> max_backoff m))"
proof -
  obtain slept where "retrying_invoke False m op = (slept, Some (op (settling_attempt model_settled op (max_retries m) 0)))"
    "length slept = settling_attempt model_settled op (max_retries m) 0"
    "\<not> respect_retry_after m \<longrightarrow> (\<forall>x \<in> set slept. x \<le> max_backoff m)"
    using model_loop_settles [of 0 "max_retries m" m False op None]
    by (auto simp: retrying_invoke_def)
  then show ?thesis
    using settling_attempt_bounds [of 0 model_settled op "max_retries m"] by auto
qed

theorem retrying_invoke_settles_witness:
  "\<exists>slept. retrying_invoke False (set_respect_retry_after False retrying_model_new)
      (\<lambda>i. if i < 1 then Err (RateLimited None) else Ok i) = (slept, Some (Ok 1)) \<and> length slept = 1"
proof -
  let ?op = "\<lambda>i::nat. if i < 1 then Err (RateLimited None) else Ok i"
  let ?m = "set_respect_retry_after False retrying_model_new"
  have "settling_attempt model_settled ?op (max_retries ?m) 0 = 1"
    by (simp add: set_respect_retry_after_def retrying_model_new_def model_settled_def is_retryable_def numeral_3_eq_3)
  then show ?thesis
    using retrying_invoke_settles [of ?m ?op] by fastforce
qed

text \<open>
  The backoff doubles from \<open>initial_backoff\<close> up to the cap for the first 32 attempts; from the 33rd
  attempt on its \<open>u32\<close> multiplier overflows: the computation panics when overflow checks are
  compiled in, and otherwise the wait collapses to zero.
\<close>

theorem backoff_duration_overflow:
  "backoff_duration checks m attempt =
     (if attempt < 32 then Some (min (min (initial_backoff m * 2 ^ attempt) DURATION_MAX) (max_backoff m))
      else if checks then None else Some 0)"
  by (rule backoff_duration_eq)

end
