(* ===== verification/Breakers.thy ===== *)
theory Breakers
  imports Prelude
begin

text \<open>
  The two circuit breakers: the per-node breaker of the graph engine
  (\<open>juncture-core/src/graph/builder.rs\<close>, \<open>CircuitBreakerState\<close>) and the middleware breaker in
  front of a model provider (\<open>juncture/src/llm/circuit_breaker.rs\<close>, \<open>CircuitBreaker\<close>).  Both
  are shown to follow the state diagram their documentation draws.  The clock is an
  argument; each method of the lock-free middleware is one atomic step.
\<close>

datatype circuit_state = Closed | Open | HalfOpen

section \<open>The documented state diagram\<close>

inductive diagram :: "circuit_state \<Rightarrow> circuit_state \<Rightarrow> bool" where
  stay: "diagram s s"
| trip: "diagram Closed Open"
| cool: "diagram Open HalfOpen"
| recover: "diagram HalfOpen Closed"
| relapse: "diagram HalfOpen Open"

inductive_simps diagram_Closed: "diagram Closed s"
inductive_simps diagram_Open: "diagram Open s"
inductive_simps diagram_HalfOpen: "diagram HalfOpen s"

lemmas diagram_simps [simp] = diagram_Closed diagram_Open diagram_HalfOpen

locale breaker_machine =
  fixes step :: "'e \<Rightarrow> 's \<Rightarrow> 's"
    and st :: "'s \<Rightarrow> circuit_state"
    and inv :: "'s \<Rightarrow> bool"
  assumes step_inv: "inv s \<Longrightarrow> inv (step e s)"
    and step_diagram: "inv s \<Longrightarrow> diagram (st s) (st (step e s))"
begin

lemma run_inv: "inv s \<Longrightarrow> inv (fold step es s)"
  by (induction es arbitrary: s) (auto intro: step_inv)

text \<open>A tripped breaker closes again only by way of a half-open trial.\<close>

lemma closes_through_half_open:
  assumes "inv s" "st s = Open" "st (fold step es s) = Closed"
  shows "\<exists>us vs. es = us @ vs \<and> st (fold step us s) = HalfOpen"
  using assms
proof (induction es arbitrary: s)
  case (Cons e es)
  from step_diagram [OF Cons.prems(1), of e] Cons.prems(2)
  consider "st (step e s) = Open" | "st (step e s) = HalfOpen" by auto
  then show ?case
  proof cases
    case 1
    from Cons.IH [OF step_inv [OF Cons.prems(1)] 1] Cons.prems(3)
    obtain us vs where "es = us @ vs" "st (fold step us (step e s)) = HalfOpen" by auto
    then have "e # es = (e # us) @ vs" "st (fold step (e # us) s) = HalfOpen" by simp_all
    then show ?thesis by blast
  next
    case 2
    then have "e # es = [e] @ es" "st (fold step [e] s) = HalfOpen" by simp_all
    then show ?thesis by blast
  qed
qed simp

end

section \<open>The node breaker\<close>

record circuit_breaker_config =
  failure_threshold :: nat
  cooldown_duration :: nat
  half_open_max_attempts :: nat

definition breaker_config_new :: "nat \<Rightarrow> nat \<Rightarrow> circuit_breaker_config" where
  "breaker_config_new threshold cooldown =
     \<lparr>failure_threshold = threshold, cooldown_duration = cooldown, half_open_max_attempts = 1\<rparr>"

definition with_half_open_max_attempts :: "nat \<Rightarrow> circuit_breaker_config \<Rightarrow> circuit_breaker_config" where
  "with_half_open_max_attempts n c = c\<lparr>half_open_max_attempts := (if n < 1 then 1 else n)\<rparr>"

record circuit_breaker_state =
  cb_state :: circuit_state
  consecutive_failures :: nat
  opened_at :: "nat option"
  half_open_attempts :: nat

definition breaker_state_new :: circuit_breaker_state where
  "breaker_state_new = \<lparr>cb_state = Closed, consecutive_failures = 0, opened_at = None,
     half_open_attempts = 0\<rparr>"

definition should_allow ::
    "circuit_breaker_config \<Rightarrow> nat \<Rightarrow> circuit_breaker_state \<Rightarrow> circuit_breaker_state \<times> bool" where
  "should_allow cfg now b = (case cb_state b of
       Closed \<Rightarrow> (b, True)
     | Open \<Rightarrow> (case opened_at b of
           Some t \<Rightarrow> if now - t \<ge> cooldown_duration cfg
             then (b\<lparr>cb_state := HalfOpen, half_open_attempts := 1\<rparr>, True)
             else (b, False)
         | None \<Rightarrow> (b\<lparr>cb_state := Closed\<rparr>, True))
     | HalfOpen \<Rightarrow> (b, half_open_attempts b < half_open_max_attempts cfg))"

definition mark_half_open_attempt :: "circuit_breaker_state \<Rightarrow> circuit_breaker_state" where
  "mark_half_open_attempt b =
     (if cb_state b = HalfOpen then b\<lparr>half_open_attempts := wrap_add64 (half_open_attempts b) 1\<rparr> else b)"

definition record_success :: "circuit_breaker_state \<Rightarrow> circuit_breaker_state" where
  "record_success b =
     (if cb_state b = Open then b
      else b\<lparr>consecutive_failures := 0, half_open_attempts := 0, cb_state := Closed, opened_at := None\<rparr>)"

definition record_failure ::
    "circuit_breaker_config \<Rightarrow> nat \<Rightarrow> circuit_breaker_state \<Rightarrow> circuit_breaker_state" where
  "record_failure cfg now b0 =
     (let b = b0\<lparr>consecutive_failures := wrap_add64 (consecutive_failures b0) 1\<rparr> in
      case cb_state b of
        Closed \<Rightarrow> if consecutive_failures b \<ge> failure_threshold cfg
                  then b\<lparr>cb_state := Open, opened_at := Some now\<rparr> else b
      | HalfOpen \<Rightarrow> b\<lparr>cb_state := Open, opened_at := Some now, half_open_attempts := 0\<rparr>
      | Open \<Rightarrow> b)"

lemmas node_breaker_defs = should_allow_def mark_half_open_attempt_def record_success_def
  record_failure_def breaker_state_new_def

datatype breaker_event = EvAllow nat | EvMark | EvSuccess | EvFailure nat

fun node_breaker_step ::
    "circuit_breaker_config \<Rightarrow> breaker_event \<Rightarrow> circuit_breaker_state \<Rightarrow> circuit_breaker_state" where
  "node_breaker_step cfg (EvAllow now) b = fst (should_allow cfg now b)"
| "node_breaker_step cfg EvMark b = mark_half_open_attempt b"
| "node_breaker_step cfg EvSuccess b = record_success b"
| "node_breaker_step cfg (EvFailure now) b = record_failure cfg now b"

text \<open>
  A breaker that is not closed has an opening time, and a closed one has not yet
  counted enough failures to trip.
\<close>

definition node_breaker_inv :: "circuit_breaker_config \<Rightarrow> circuit_breaker_state \<Rightarrow> bool" where
  "node_breaker_inv cfg b \<longleftrightarrow> (cb_state b \<noteq> Closed \<longrightarrow> opened_at b \<noteq> None) \<and>
     (cb_state b = Closed \<longrightarrow> consecutive_failures b < max 1 (failure_threshold cfg))"

lemma node_breaker_step_inv:
  "node_breaker_inv cfg b \<Longrightarrow> node_breaker_inv cfg (node_breaker_step cfg e b)"
  by (cases e; cases "cb_state b")
    (auto simp: node_breaker_inv_def node_breaker_defs Let_def split: option.splits)

interpretation node_breaker: breaker_machine "node_breaker_step cfg" cb_state "node_breaker_inv cfg" for cfg
proof unfold_locales
  fix b e assume inv: "node_breaker_inv cfg b"
  then show "node_breaker_inv cfg (node_breaker_step cfg e b)" by (rule node_breaker_step_inv)
  from inv show "diagram (cb_state b) (cb_state (node_breaker_step cfg e b))"
    by (cases e; cases "cb_state b")
      (auto simp: node_breaker_inv_def node_breaker_defs Let_def split: option.splits intro: stay)
qed

lemma node_breaker_inv_new: "node_breaker_inv cfg breaker_state_new"
  by (simp add: node_breaker_inv_def breaker_state_new_def)

lemma record_failure_run:
  assumes "length ts < 2 ^ 64"
  shows "consecutive_failures (fold (record_failure cfg) ts breaker_state_new) = length ts \<and>
     cb_state (fold (record_failure cfg) ts breaker_state_new) =
       (if length ts \<ge> max 1 (failure_threshold cfg) then Open else Closed)"
  using assms
proof (induction ts rule: rev_induct)
  case (snoc t ts)
  then have "wrap_add64 (length ts) 1 = Suc (length ts)" by (simp add: wrap_add64_def)
  with snoc show ?case
    by (auto simp: record_failure_def Let_def split: if_splits)
qed (simp add: breaker_state_new_def)

section \<open>The model-call breaker\<close>

record llm_breaker_config =
  llm_failure_threshold :: nat
  recovery_timeout :: nat
  half_open_max_calls :: nat

definition llm_breaker_config_default :: llm_breaker_config where
  "llm_breaker_config_default =
     \<lparr>llm_failure_threshold = 5, recovery_timeout = 30000, half_open_max_calls = 1\<rparr>"

record llm_breaker =
  lb_config :: llm_breaker_config
  lb_state :: circuit_state
  failure_count :: nat
  success_count :: nat
  last_failure_time :: nat
  half_open_calls :: nat

definition llm_breaker_new :: "llm_breaker_config \<Rightarrow> llm_breaker" where
  "llm_breaker_new cfg = \<lparr>lb_config = cfg, lb_state = Closed, failure_count = 0, success_count = 0,
     last_failure_time = 0, half_open_calls = 0\<rparr>"

text \<open>\<open>state()\<close>: reading the state performs the transition to half-open when it is due.\<close>

definition llm_state :: "nat \<Rightarrow> llm_breaker \<Rightarrow> llm_breaker \<times> circuit_state" where
  "llm_state now b =
     (if lb_state b = Open \<and> last_failure_time b > 0 \<and>
         now - last_failure_time b \<ge> recovery_timeout (lb_config b)
      then (b\<lparr>lb_state := HalfOpen, half_open_calls := 0\<rparr>, HalfOpen)
      else (b, lb_state b))"

definition llm_reset :: "llm_breaker \<Rightarrow> llm_breaker" where
  "llm_reset b = b\<lparr>lb_state := Closed, failure_count := 0, success_count := 0,
     last_failure_time := 0, half_open_calls := 0\<rparr>"

definition handle_success :: "llm_breaker \<Rightarrow> llm_breaker" where
  "handle_success b0 =
     (let b = b0\<lparr>failure_count := 0\<rparr> in
      if lb_state b = HalfOpen
      then let successes = wrap_add32 (success_count b) 1; b' = b\<lparr>success_count := successes\<rparr> in
           if successes \<ge> half_open_max_calls (lb_config b)
           then b'\<lparr>lb_state := Closed, success_count := 0, half_open_calls := 0\<rparr>
           else b'
      else b)"

definition handle_failure :: "nat \<Rightarrow> llm_breaker \<Rightarrow> llm_breaker" where
  "handle_failure now b0 =
     (let failures = wrap_add32 (failure_count b0) 1;
          b = b0\<lparr>last_failure_time := now, failure_count := failures\<rparr> in
      if failures \<ge> llm_failure_threshold (lb_config b)
      then (if lb_state b \<noteq> Open then b\<lparr>lb_state := Open, success_count := 0\<rparr> else b)
      else if lb_state b = HalfOpen
      then b\<lparr>lb_state := Open, success_count := 0, half_open_calls := 0\<rparr>
      else b)"

text \<open>\<open>pre_invoke\<close>: the flag is \<open>Ok(())\<close>; otherwise the call fails with \<open>CircuitBreakerOpenError\<close>.\<close>

definition pre_invoke :: "nat \<Rightarrow> llm_breaker \<Rightarrow> llm_breaker \<times> bool" where
  "pre_invoke now b0 = (case llm_state now b0 of
       (b, Closed) \<Rightarrow> (b, True)
     | (b, Open) \<Rightarrow> (b, False)
     | (b, HalfOpen) \<Rightarrow>
         if half_open_calls b \<ge> half_open_max_calls (lb_config b) then (b, False)
         else (b\<lparr>half_open_calls := wrap_add32 (half_open_calls b) 1\<rparr>, True))"

definition post_invoke :: "nat \<Rightarrow> bool \<Rightarrow> llm_breaker \<Rightarrow> llm_breaker" where
  "post_invoke now ok b = (if ok then handle_success b else handle_failure now b)"

lemmas llm_breaker_defs = llm_breaker_new_def llm_state_def handle_success_def handle_failure_def
  pre_invoke_def post_invoke_def

datatype llm_breaker_event = LPre nat | LPost nat bool

fun llm_breaker_step :: "llm_breaker_event \<Rightarrow> llm_breaker \<Rightarrow> llm_breaker" where
  "llm_breaker_step (LPre now) b = fst (pre_invoke now b)"
| "llm_breaker_step (LPost now ok) b = post_invoke now ok b"

text \<open>
  The machine-width assumption on the two thresholds makes the counters exact while they
  matter; the half-open budget is never overdrawn.
\<close>

definition llm_breaker_inv :: "llm_breaker \<Rightarrow> bool" where
  "llm_breaker_inv b \<longleftrightarrow>
     llm_failure_threshold (lb_config b) < 2 ^ 32 \<and> half_open_max_calls (lb_config b) < 2 ^ 32 \<and>
     (lb_state b = Closed \<longrightarrow> failure_count b < max 1 (llm_failure_threshold (lb_config b))) \<and>
     (lb_state b \<noteq> HalfOpen \<longrightarrow> success_count b = 0) \<and>
     (lb_state b = HalfOpen \<longrightarrow> half_open_calls b \<le> half_open_max_calls (lb_config b)
        \<and> success_count b < max 1 (half_open_max_calls (lb_config b)))"

lemma wrap_add32_Suc_le: "n < m \<Longrightarrow> wrap_add32 n (Suc 0) \<le> m"
  unfolding wrap_add32_def by (rule order_trans [OF mod_less_eq_dividend]) simp

lemma llm_pre_inv: "llm_breaker_inv b \<Longrightarrow> llm_breaker_inv (fst (pre_invoke now b))"
  by (cases "lb_state b") (auto simp: llm_breaker_inv_def pre_invoke_def llm_state_def wrap_add32_Suc_le not_le)

lemma llm_post_inv: "llm_breaker_inv b \<Longrightarrow> llm_breaker_inv (post_invoke now ok b)"
  by (cases "lb_state b") (auto simp: llm_breaker_inv_def llm_breaker_defs Let_def)

lemma llm_step_inv: "llm_breaker_inv b \<Longrightarrow> llm_breaker_inv (llm_breaker_step e b)"
  by (cases e) (simp_all add: llm_pre_inv llm_post_inv)

interpretation llm_breaker: breaker_machine llm_breaker_step lb_state llm_breaker_inv
proof unfold_locales
  fix b e assume "llm_breaker_inv b"
  then show "llm_breaker_inv (llm_breaker_step e b)" by (rule llm_step_inv)
  show "diagram (lb_state b) (lb_state (llm_breaker_step e b))"
    by (cases e; cases "lb_state b") (auto simp: llm_breaker_defs Let_def)
qed

lemma llm_breaker_inv_new:
  "llm_failure_threshold cfg < 2 ^ 32 \<Longrightarrow> half_open_max_calls cfg < 2 ^ 32 \<Longrightarrow>
     llm_breaker_inv (llm_breaker_new cfg)"
  by (auto simp: llm_breaker_inv_def llm_breaker_new_def)

lemma llm_step_config: "lb_config (llm_breaker_step e b) = lb_config b"
  by (cases e; cases "lb_state b") (auto simp: llm_breaker_defs Let_def)

lemma llm_run_config: "lb_config (fold llm_breaker_step es b) = lb_config b"
  by (induction es arbitrary: b) (simp_all add: llm_step_config)

text \<open>The number of calls a sequence of \<open>pre_invoke\<close> attempts lets through.\<close>

fun admitted :: "nat list \<Rightarrow> llm_breaker \<Rightarrow> nat" where
  "admitted [] b = 0"
| "admitted (now # ts) b =
     (if snd (pre_invoke now b) then 1 else 0) + admitted ts (fst (pre_invoke now b))"

lemma admitted_half_open:
  assumes "lb_state b = HalfOpen" "half_open_calls b \<le> half_open_max_calls (lb_config b)"
    "half_open_max_calls (lb_config b) < 2 ^ 32"
  shows "admitted ts b = min (length ts) (half_open_max_calls (lb_config b) - half_open_calls b)"
  using assms
proof (induction ts arbitrary: b)
  case (Cons t ts)
  show ?case
  proof (cases "half_open_calls b < half_open_max_calls (lb_config b)")
    case True
    then have "pre_invoke t b = (b\<lparr>half_open_calls := Suc (half_open_calls b)\<rparr>, True)"
      using Cons.prems by (simp add: pre_invoke_def llm_state_def wrap_add32_def)
    with Cons True show ?thesis by simp
  next
    case False
    then have "pre_invoke t b = (b, False)"
      using Cons.prems by (simp add: pre_invoke_def llm_state_def)
    with Cons False show ?thesis by simp
  qed
qed simp

text \<open>A call that is made at \<open>now\<close> and succeeds.\<close>

definition good_call :: "nat \<Rightarrow> llm_breaker \<Rightarrow> llm_breaker" where
  "good_call now b = post_invoke now True (fst (pre_invoke now b))"

definition trial_state :: "llm_breaker \<Rightarrow> nat \<Rightarrow> llm_breaker" where
  "trial_state b k = b\<lparr>lb_state := HalfOpen, failure_count := 0, success_count := k, half_open_calls := k\<rparr>"

lemma good_call_trial:
  assumes "Suc k < half_open_max_calls (lb_config b)" "half_open_max_calls (lb_config b) < 2 ^ 32"
  shows "good_call now (trial_state b k) = trial_state b (Suc k) \<and> snd (pre_invoke now (trial_state b k))"
  using assms by (simp add: good_call_def trial_state_def llm_breaker_defs wrap_add32_def Let_def)

lemma good_calls_trial:
  assumes "k + length ts < half_open_max_calls (lb_config b)" "half_open_max_calls (lb_config b) < 2 ^ 32"
  shows "fold good_call ts (trial_state b k) = trial_state b (k + length ts) \<and> admitted ts (trial_state b k) = length ts"
proof (intro conjI)
  show "fold good_call ts (trial_state b k) = trial_state b (k + length ts)"
    using assms good_call_trial by (induction ts arbitrary: k) auto
  have "lb_state (trial_state b k) = HalfOpen" "half_open_calls (trial_state b k) = k" "lb_config (trial_state b k) = lb_config b"
    by (simp_all add: trial_state_def)
  then show "admitted ts (trial_state b k) = length ts" using admitted_half_open [of "trial_state b k" ts] assms by simp
qed

lemma fold_last: "xs \<noteq> [] \<Longrightarrow> fold f xs a = f (last xs) (fold f (butlast xs) a)"
  by (cases xs rule: rev_cases) simp_all

lemma last_trial:
  assumes "Suc k = half_open_max_calls (lb_config b)" "half_open_max_calls (lb_config b) < 2 ^ 32"
  shows "lb_state (good_call now (trial_state b k)) = Closed \<and> failure_count (good_call now (trial_state b k)) = 0 \<and> snd (pre_invoke now (trial_state b k))"
  using assms by (simp add: good_call_def trial_state_def llm_breaker_defs wrap_add32_def Let_def)

section \<open>Properties\<close>

text \<open>
  A fresh node breaker is open after exactly \<open>failure_threshold\<close> consecutive failures (at least
  one): fewer leave it closed, and a success in between starts the count again.
\<close>

theorem node_breaker_opens_at_threshold:
  assumes "length ts < 2 ^ 64"
  shows "(cb_state (fold (record_failure cfg) ts breaker_state_new) = Open \<longleftrightarrow>
            length ts \<ge> max 1 (failure_threshold cfg)) \<and>
     (length ts < max 1 (failure_threshold cfg) \<longrightarrow>
        record_success (fold (record_failure cfg) ts breaker_state_new) = breaker_state_new)"
  using record_failure_run [OF assms, of cfg]
  by (cases "fold (record_failure cfg) ts breaker_state_new")
    (auto simp: record_success_def breaker_state_new_def)

theorem node_breaker_opens_at_threshold_witness:
  "cb_state (fold (record_failure (breaker_config_new 3 10)) [1, 2, 3] breaker_state_new) = Open"
  using node_breaker_opens_at_threshold [of "[1, 2, 3]" "breaker_config_new 3 10"]
  by (simp add: breaker_config_new_def)

text \<open>
  An open node breaker refuses every execution until its cooldown has elapsed; the first check
  after that admits a probe, and with the default budget of one probe every further
  check is refused, at any later time, until an outcome is recorded.
\<close>

theorem node_breaker_probe:
  assumes "cb_state b = Open" and "opened_at b = Some t" and "half_open_max_attempts cfg = 1"
  shows "if now - t < cooldown_duration cfg then should_allow cfg now b = (b, False)
     else (\<exists>b'. should_allow cfg now b = (b', True) \<and> cb_state b' = HalfOpen \<and>
             (\<forall>later. should_allow cfg later b' = (b', False)))"
  using assms by (simp add: should_allow_def)

theorem node_breaker_probe_witness:
  "let b = fold (record_failure (breaker_config_new 1 10)) [5] breaker_state_new in
     should_allow (breaker_config_new 1 10) 14 b = (b, False) \<and> snd (should_allow (breaker_config_new 1 10) 15 b)"
  using node_breaker_probe [of "fold (record_failure (breaker_config_new 1 10)) [5] breaker_state_new" 5
      "breaker_config_new 1 10" 14]
    node_breaker_probe [of "fold (record_failure (breaker_config_new 1 10)) [5] breaker_state_new" 5
      "breaker_config_new 1 10" 15]
  by (auto simp: record_failure_def breaker_config_new_def breaker_state_new_def wrap_add64_def Let_def)

text \<open>
  With a probe budget above one, checking does not consume the budget: once the cooldown has
  elapsed, any number of checks in a row is admitted, so the number of probes that start
  before the first outcome is recorded is not bounded by \<open>half_open_max_attempts\<close>.
\<close>

theorem node_breaker_probes_unbounded:
  assumes "cb_state b = Open" and "opened_at b = Some t" and "now - t \<ge> cooldown_duration cfg"
    and "half_open_max_attempts cfg \<ge> 2"
  shows "snd (should_allow cfg now (((\<lambda>x. fst (should_allow cfg now x)) ^^ n) b))"
proof -
  let ?h = "b\<lparr>cb_state := HalfOpen, half_open_attempts := 1\<rparr>"
  have "should_allow cfg now b = (?h, True)" "should_allow cfg now ?h = (?h, True)"
    using assms by (simp_all add: should_allow_def)
  moreover from this have "((\<lambda>x. fst (should_allow cfg now x)) ^^ n) b = (if n = 0 then b else ?h)"
    by (induction n) auto
  ultimately show ?thesis by simp
qed

theorem node_breaker_probes_unbounded_witness:
  "snd (should_allow (with_half_open_max_attempts 2 (breaker_config_new 1 10)) 15
     (((\<lambda>x. fst (should_allow (with_half_open_max_attempts 2 (breaker_config_new 1 10)) 15 x)) ^^ 100)
        \<lparr>cb_state = Open, consecutive_failures = 1, opened_at = Some 5, half_open_attempts = 0\<rparr>))"
  by (rule node_breaker_probes_unbounded [where t = 5])
    (simp_all add: with_half_open_max_attempts_def breaker_config_new_def)


definition five_failures :: "llm_breaker_event list" where
  "five_failures = [LPost 7 False, LPost 7 False, LPost 7 False, LPost 7 False, LPost 7 False]"


text \<open>
  While the model-call breaker is half-open it lets through exactly its remaining trial budget:
  of any number of attempts, the first \<open>half_open_max_calls\<close> minus those already
  admitted succeed and the rest are rejected.
\<close>

theorem llm_half_open_budget:
  assumes "half_open_max_calls cfg < 2 ^ 32" and "llm_failure_threshold cfg < 2 ^ 32"
    and "lb_state (fold llm_breaker_step es (llm_breaker_new cfg)) = HalfOpen"
  shows "admitted ts (fold llm_breaker_step es (llm_breaker_new cfg)) =
     min (length ts) (half_open_max_calls cfg - half_open_calls (fold llm_breaker_step es (llm_breaker_new cfg)))"
proof -
  let ?b = "fold llm_breaker_step es (llm_breaker_new cfg)"
  have "llm_breaker_inv ?b"
    by (rule llm_breaker.run_inv [OF llm_breaker_inv_new [OF assms(2,1)]])
  moreover have "lb_config ?b = cfg" by (simp add: llm_run_config llm_breaker_new_def)
  ultimately show ?thesis
    using admitted_half_open [of ?b ts] assms by (simp add: llm_breaker_inv_def)
qed

theorem llm_half_open_budget_witness:
  "admitted [40000, 40000, 40000] (fold llm_breaker_step (five_failures @ [LPre 30007])
      (llm_breaker_new (llm_breaker_config_default\<lparr>half_open_max_calls := 2\<rparr>))) = 1"
proof -
  let ?cfg = "llm_breaker_config_default\<lparr>half_open_max_calls := 2\<rparr>"
  have "lb_state (fold llm_breaker_step (five_failures @ [LPre 30007]) (llm_breaker_new ?cfg)) = HalfOpen
      \<and> half_open_calls (fold llm_breaker_step (five_failures @ [LPre 30007]) (llm_breaker_new ?cfg)) = 1"
    by (simp add: five_failures_def llm_breaker_defs llm_breaker_config_default_def Let_def wrap_add32_def)
  then show ?thesis
    using llm_half_open_budget [of ?cfg "five_failures @ [LPre 30007]" "[40000, 40000, 40000]"]
    by (simp add: llm_breaker_config_default_def)
qed

text \<open>
  C29: Both breakers recover.  A node breaker that opened, after whatever history, admits the first execution checked
  once its cooldown has elapsed, and when that execution succeeds it is as good as new.  A model-call breaker that
  opened closes after \<open>half_open_max_calls\<close> successful calls once its recovery timeout has elapsed, with the failure count
  at zero, and lets each of these calls through.
\<close>

theorem breakers_recover:
  assumes "b = fold (node_breaker_step cfg) es breaker_state_new" and "cb_state b = Open" and "opened_at b = Some t" and "t + cooldown_duration cfg \<le> now"
    and "half_open_max_calls lcfg < 2 ^ 32" and "llm_failure_threshold lcfg < 2 ^ 32"
    and "m = fold llm_breaker_step les (llm_breaker_new lcfg)" and "lb_state m = Open" and "0 < last_failure_time m"
    and "last_failure_time m + recovery_timeout lcfg \<le> hd ts" and "length ts = half_open_max_calls lcfg" and "ts \<noteq> []"
  shows "snd (should_allow cfg now b) \<and> record_success (fst (should_allow cfg now b)) = breaker_state_new \<and>
    lb_state (fold good_call ts m) = Closed \<and> failure_count (fold good_call ts m) = 0 \<and>
    list_all (\<lambda>k. snd (pre_invoke (ts ! k) (fold good_call (take k ts) m))) [0..<length ts]"
proof -
  have cfg: "lb_config m = lcfg" using assms(7) by (simp add: llm_run_config llm_breaker_new_def)
  have zero: "success_count m = 0"
    using llm_breaker.run_inv [OF llm_breaker_inv_new [OF assms(6,5)], of les] assms(7,8) by (auto simp: llm_breaker_inv_def)
  obtain t0 ts' where ts: "ts = t0 # ts'" using assms(12) by (cases ts) auto
  let ?max = "half_open_max_calls lcfg"
  have due: "pre_invoke t0 m = ((trial_state m 0)\<lparr>failure_count := failure_count m, half_open_calls := 1\<rparr>, True)"
    using assms(5,8-11) cfg zero by (simp add: ts trial_state_def pre_invoke_def llm_state_def wrap_add32_def)
  have same: "good_call t0 m = good_call t0 (trial_state m 0)" "snd (pre_invoke t0 (trial_state m 0))"
    using due assms(5,11) cfg by (simp_all add: ts good_call_def trial_state_def llm_breaker_defs wrap_add32_def Let_def)
  then have run: "fold good_call (take k ts) m = trial_state m k" if "0 < k" "k < length ts" for k
  proof -
    have "take k ts = t0 # take (k - 1) ts'" using that by (cases k) (simp_all add: ts)
    then have "fold good_call (take k ts) m = fold good_call (take k ts) (trial_state m 0)" by (simp add: same)
    then show ?thesis using good_calls_trial [of 0 "take k ts" m] that assms(5,11) by (simp add: cfg)
  qed
  have admit: "snd (pre_invoke (ts ! k) (fold good_call (take k ts) m))" if "k < length ts" for k
  proof (cases "k = 0")
    case True
    then show ?thesis using due by (simp add: ts)
  next
    case False
    then show ?thesis
      using that run [of k] good_call_trial [of k m "ts ! k"] last_trial [of k m "ts ! k"] assms(5,11) by (cases "Suc k = ?max") (auto simp: cfg)
  qed
  have split: "fold good_call ts m = good_call (last ts) (fold good_call (butlast ts) m)"
    using assms(12) by (rule fold_last)
  have last: "good_call (last ts) (fold good_call (butlast ts) m) = good_call (last ts) (trial_state m (length ts - 1))"
    using run [of "length ts - 1"] same(1) by (cases "ts' = []") (simp_all add: ts butlast_conv_take)
  have "lb_state (fold good_call ts m) = Closed \<and> failure_count (fold good_call ts m) = 0"
    unfolding split last using last_trial [of "length ts - 1" m "last ts"] assms(5,11) by (simp add: cfg ts)
  moreover have "snd (should_allow cfg now b) \<and> record_success (fst (should_allow cfg now b)) = breaker_state_new"
    using assms(2-4) by (simp add: should_allow_def record_success_def breaker_state_new_def)
  ultimately show ?thesis using admit by (simp add: list_all_iff)
qed

theorem breakers_recover_witness:
  "record_success (fst (should_allow (breaker_config_new 1 10) 15 (fold (node_breaker_step (breaker_config_new 1 10)) [EvFailure 5] breaker_state_new))) = breaker_state_new \<and>
   lb_state (fold good_call [30007, 30008] (fold llm_breaker_step five_failures (llm_breaker_new (llm_breaker_config_default\<lparr>half_open_max_calls := 2\<rparr>)))) = Closed"
proof -
  let ?lcfg = "llm_breaker_config_default\<lparr>half_open_max_calls := 2\<rparr>"
  have node: "cb_state (fold (node_breaker_step (breaker_config_new 1 10)) [EvFailure 5] breaker_state_new) = Open"
    "opened_at (fold (node_breaker_step (breaker_config_new 1 10)) [EvFailure 5] breaker_state_new) = Some 5"
    by (simp_all add: node_breaker_defs breaker_config_new_def wrap_add64_def Let_def)
  have model: "lb_state (fold llm_breaker_step five_failures (llm_breaker_new ?lcfg)) = Open"
    "last_failure_time (fold llm_breaker_step five_failures (llm_breaker_new ?lcfg)) = 7"
    by (simp_all add: five_failures_def llm_breaker_defs llm_breaker_config_default_def Let_def wrap_add32_def)
  have side: "5 + cooldown_duration (breaker_config_new 1 10) \<le> 15" "half_open_max_calls ?lcfg < 2 ^ 32" "llm_failure_threshold ?lcfg < 2 ^ 32"
    "0 < last_failure_time (fold llm_breaker_step five_failures (llm_breaker_new ?lcfg))"
    "last_failure_time (fold llm_breaker_step five_failures (llm_breaker_new ?lcfg)) + recovery_timeout ?lcfg \<le> hd [30007, 30008]"
    "length [30007 :: nat, 30008] = half_open_max_calls ?lcfg" "[30007 :: nat, 30008] \<noteq> []"
    unfolding model(2) by (simp_all add: breaker_config_new_def llm_breaker_config_default_def)
  from breakers_recover [OF refl node side(1-3) refl model(1) side(4-7)] show ?thesis by blast
qed

end
