(* ===== verification/Topology.thy ===== *)
theory Topology
  imports Commands Retry Breakers
begin

text \<open>
  \<open>juncture-core/src/graph/topology.rs\<close>: validation of a graph before it is compiled.  Nodes are
  an insertion-ordered map whose values the validation never looks at; iteration over hash
  maps and hash sets follows the list order of the representation.
\<close>

section \<open>Data\<close>

definition START :: string where
  "START = ''__start__''"

definition END :: string where
  "END = ''__end__''"

record timeout_policy =
  run_timeout :: nat
  idle_timeout :: "nat option"
  refresh_on :: "(json \<Rightarrow> bool) option"

record node_metadata =
  md_defer :: bool
  md_metadata :: "(string, json) imap option"
  md_destinations :: "string list option"
  md_retry_policies :: "retry_policy list"
  md_error_handler :: "string option"
  md_timeout_policies :: "timeout_policy list"
  md_circuit_breaker :: "circuit_breaker_config option"
  md_fallback_node :: "string option"

definition node_metadata_default :: node_metadata where
  "node_metadata_default = \<lparr>md_defer = False, md_metadata = None, md_destinations = None,
     md_retry_policies = [], md_error_handler = None, md_timeout_policies = [],
     md_circuit_breaker = None, md_fallback_node = None\<rparr>"

datatype topology_error =
    DuplicateNode string
  | InvalidNodeName string string
  | NoEntryPoint
  | NodeNotFound string
  | EdgeTargetNotFound string string string
  | IsolatedNode string
  | UnreachableNode string
  | PotentialInfiniteLoop "string list"
  | InvalidFieldReference nat nat "string list" string

type_synonym adjacency = "(string, string list) imap"

section \<open>Entry point and edge targets\<close>

definition check_entry_point :: "string option \<Rightarrow> (topology_error, unit) result" where
  "check_entry_point entry = (case entry of None \<Rightarrow> Err NoEntryPoint | Some _ \<Rightarrow> Ok ())"

text \<open>The error an edge raises, if any, in the order of the checks.\<close>

fun edge_target_error :: "(string, 'n) imap \<Rightarrow> 's edge \<Rightarrow> topology_error option" where
  "edge_target_error nodes (EdgeFixed from to) =
     (if from \<noteq> START \<and> \<not> im_contains nodes from then Some (NodeNotFound from)
      else if to \<noteq> END \<and> \<not> im_contains nodes to then Some (NodeNotFound to)
      else None)"
| "edge_target_error nodes (EdgeConditional from _ pm) =
     (if from \<noteq> START \<and> \<not> im_contains nodes from then Some (NodeNotFound from)
      else case first_err (\<lambda>(branch, target).
               if target \<noteq> END \<and> \<not> im_contains nodes target
               then Some (EdgeTargetNotFound from branch target) else None) pm of
             Inl e \<Rightarrow> Some e | Inr _ \<Rightarrow> None)"

definition check_edge_targets :: "(string, 'n) imap \<Rightarrow> 's edge list \<Rightarrow> (topology_error, unit) result" where
  "check_edge_targets nodes es = first_err (edge_target_error nodes) es"

section \<open>Reachability\<close>

definition adj_touch :: "string \<Rightarrow> adjacency \<Rightarrow> adjacency" where
  "adj_touch n a = im_modify n [] (\<lambda>ts. ts) a"

definition adj_push :: "string \<Rightarrow> string \<Rightarrow> adjacency \<Rightarrow> adjacency" where
  "adj_push f t a = im_modify f [] (\<lambda>ts. ts @ [t]) a"

fun adj_edge :: "'s edge \<Rightarrow> adjacency \<Rightarrow> adjacency" where
  "adj_edge (EdgeFixed from to) a =
     (if from = START then adj_touch to a
      else if to \<noteq> END then adj_push from to a
      else a)"
| "adj_edge (EdgeConditional from _ pm) a =
     (if from = START then fold adj_touch (map snd pm) a
      else fold (\<lambda>t a. if t \<noteq> END then adj_push from t a else a) (map snd pm) (adj_touch from a))"

definition adj_fallback :: "string \<times> node_metadata \<Rightarrow> adjacency \<Rightarrow> adjacency" where
  "adj_fallback nm a = (case md_fallback_node (snd nm) of
       Some fb \<Rightarrow> adj_push (fst nm) fb a
     | None \<Rightarrow> a)"

definition build_adjacency ::
    "(string, 'n) imap \<Rightarrow> 's edge list \<Rightarrow> (string, node_metadata) imap \<Rightarrow> adjacency" where
  "build_adjacency nodes es md =
     fold adj_fallback md (fold adj_edge es (fold adj_touch (im_keys nodes) []))"

definition succs :: "adjacency \<Rightarrow> string \<Rightarrow> string list" where
  "succs a n = (case im_get a n of Some ts \<Rightarrow> ts | None \<Rightarrow> [])"

text \<open>The body of the inner loop: an unvisited neighbour is marked and queued.\<close>

fun bfs_neighbors :: "string list \<Rightarrow> string list \<Rightarrow> string list \<Rightarrow> string list \<times> string list" where
  "bfs_neighbors [] visited queue = (visited, queue)"
| "bfs_neighbors (n # ns) visited queue =
     (if n \<in> set visited then bfs_neighbors ns visited queue
      else bfs_neighbors ns (visited @ [n]) (queue @ [n]))"

text \<open>All names that occur as a neighbour: the bound of the search.\<close>

definition adj_universe :: "adjacency \<Rightarrow> string set" where
  "adj_universe a = \<Union> (set ` snd ` set a)"

lemma finite_adj_universe [simp]: "finite (adj_universe a)"
  by (simp add: adj_universe_def)

lemma succs_universe: "set (succs a n) \<subseteq> adj_universe a"
proof (cases "im_get a n")
  case (Some ts)
  then have "ts \<in> snd ` set a" using im_get_SomeD [OF Some] by (metis snd_conv image_eqI)
  with Some show ?thesis by (auto simp: succs_def adj_universe_def)
qed (simp add: succs_def)

lemma bfs_neighbors_measure:
  assumes "bfs_neighbors ns visited queue = (visited', queue')" "set ns \<subseteq> U" "finite U"
  shows "card (U - set visited') + length queue' = card (U - set visited) + length queue"
  using assms(1,2)
proof (induction ns visited queue rule: bfs_neighbors.induct)
  case (2 n ns visited queue)
  show ?case
  proof (cases "n \<in> set visited")
    case False
    then have "n \<in> U - set visited" using "2.prems" by simp
    then have "card (U - set visited) = Suc (card (U - set visited - {n}))"
      using assms(3) by (metis card_Suc_Diff1 finite_Diff)
    moreover have "U - set visited - {n} = U - set (visited @ [n])" by auto
    ultimately show ?thesis using 2 False by simp
  qed (use 2 in auto)
qed simp

function bfs :: "adjacency \<Rightarrow> string list \<Rightarrow> string list \<Rightarrow> string list" where
  "bfs a visited [] = visited"
| "bfs a visited (current # queue) =
     (let r = bfs_neighbors (succs a current) visited queue in bfs a (fst r) (snd r))"
  by pat_completeness auto
termination
proof (relation "measure (\<lambda>(a, visited, queue). card (adj_universe a - set visited) + length queue)")
  fix a visited queue r and current :: string
  assume r: "r = bfs_neighbors (succs a current) visited queue"
  obtain v q where vq: "bfs_neighbors (succs a current) visited queue = (v, q)" by fastforce
  from bfs_neighbors_measure [OF vq succs_universe finite_adj_universe]
  show "((a, fst r, snd r), a, visited, current # queue) \<in>
     measure (\<lambda>(a, visited, queue). card (adj_universe a - set visited) + length queue)"
    by (simp add: r vq)
qed simp

definition check_reachability ::
    "(string, 'n) imap \<Rightarrow> 's edge list \<Rightarrow> string option \<Rightarrow> (string, node_metadata) imap
       \<Rightarrow> (topology_error, unit) result" where
  "check_reachability nodes es entry md = (case entry of
       None \<Rightarrow> Err NoEntryPoint
     | Some e \<Rightarrow>
         let visited = bfs (build_adjacency nodes es md) [e] [e]
         in first_err (\<lambda>n. if n \<in> set visited then None else Some (UnreachableNode n)) (im_keys nodes))"

section \<open>Isolated nodes\<close>

fun mark_outgoing :: "'s edge \<Rightarrow> string list \<Rightarrow> string list" where
  "mark_outgoing (EdgeFixed from _) out = (if from \<noteq> START then hs_insert from out else out)"
| "mark_outgoing (EdgeConditional from _ _) out = (if from \<noteq> START then hs_insert from out else out)"

fun mark_incoming :: "'s edge \<Rightarrow> string list \<Rightarrow> string list" where
  "mark_incoming (EdgeFixed _ to) inc = (if to \<noteq> END then hs_insert to inc else inc)"
| "mark_incoming (EdgeConditional _ _ pm) inc =
     fold (\<lambda>t inc. if t \<noteq> END then hs_insert t inc else inc) (map snd pm) inc"

definition check_isolated_nodes :: "(string, 'n) imap \<Rightarrow> 's edge list \<Rightarrow> (topology_error, unit) result" where
  "check_isolated_nodes nodes es =
     (let has_incoming = fold mark_incoming es []; has_outgoing = fold mark_outgoing es [] in
      first_err (\<lambda>n. if n \<notin> set has_incoming \<and> n \<notin> set has_outgoing then Some (IsolatedNode n) else None)
        (im_keys nodes))"

section \<open>Strongly connected components\<close>

record tarjan =
  tj_index :: nat
  tj_stack :: "string list"
  tj_indices :: "(string, nat) imap"
  tj_lowlink :: "(string, nat) imap"
  tj_onstack :: "string list"
  tj_sccs :: "string list list"

definition tarjan_new :: tarjan where
  "tarjan_new = \<lparr>tj_index = 0, tj_stack = [], tj_indices = [], tj_lowlink = [], tj_onstack = [],
     tj_sccs = []\<rparr>"

fun scc_edge :: "'s edge \<Rightarrow> adjacency \<Rightarrow> adjacency" where
  "scc_edge (EdgeFixed from to) a = (if from \<noteq> START \<and> to \<noteq> END then adj_push from to a else a)"
| "scc_edge (EdgeConditional from _ pm) a =
     (if from \<noteq> START
      then fold (\<lambda>t a. if t \<noteq> END then adj_push from t a else a) (map snd pm) (adj_touch from a)
      else a)"

definition scc_adjacency :: "(string, 'n) imap \<Rightarrow> 's edge list \<Rightarrow> adjacency" where
  "scc_adjacency nodes es = fold scc_edge es (fold adj_touch (im_keys nodes) [])"

definition get_or_0 :: "(string, nat) imap \<Rightarrow> string \<Rightarrow> nat" where
  "get_or_0 m k = (case im_get m k of Some v \<Rightarrow> v | None \<Rightarrow> 0)"

definition lower_lowlink :: "string \<Rightarrow> nat \<Rightarrow> tarjan \<Rightarrow> tarjan" where
  "lower_lowlink n v t = t\<lparr>tj_lowlink := im_insert n (min (get_or_0 (tj_lowlink t) n) v) (tj_lowlink t)\<rparr>"

text \<open>\<open>while let Some(w) = stack.pop()\<close>: the stack is kept with its top first.\<close>

fun pop_scc :: "string \<Rightarrow> string list \<Rightarrow> string list \<times> string list" where
  "pop_scc node [] = ([], [])"
| "pop_scc node (w # st) = (if w = node then ([w], st) else (let (scc, st') = pop_scc node st in (w # scc, st')))"

definition tarjan_enter :: "string \<Rightarrow> tarjan \<Rightarrow> tarjan" where
  "tarjan_enter node t = t\<lparr>tj_indices := im_insert node (tj_index t) (tj_indices t),
     tj_lowlink := im_insert node (tj_index t) (tj_lowlink t), tj_index := tj_index t + 1,
     tj_stack := node # tj_stack t, tj_onstack := hs_insert node (tj_onstack t)\<rparr>"

definition tarjan_leave :: "string \<Rightarrow> tarjan \<Rightarrow> tarjan" where
  "tarjan_leave node t =
     (if im_get (tj_lowlink t) node = im_get (tj_indices t) node
      then let (scc, st) = pop_scc node (tj_stack t)
           in t\<lparr>tj_stack := st, tj_onstack := filter (\<lambda>x. x \<notin> set scc) (tj_onstack t), tj_sccs := tj_sccs t @ [scc]\<rparr>
      else t)"

text \<open>
  \<open>visit\<close> and the loop over the neighbours.  The recursion depth is bounded by the number of nodes;
  the fuel argument makes the bound explicit and running out of it gives \<open>None\<close>.
\<close>

fun visit :: "adjacency \<Rightarrow> nat \<Rightarrow> string \<Rightarrow> tarjan \<Rightarrow> tarjan option"
and visit_neighbors :: "adjacency \<Rightarrow> nat \<Rightarrow> string \<Rightarrow> string list \<Rightarrow> tarjan \<Rightarrow> tarjan option" where
  "visit a 0 node t = None"
| "visit a (Suc fuel) node t =
     map_option (tarjan_leave node) (visit_neighbors a fuel node (succs a node) (tarjan_enter node t))"
| "visit_neighbors a fuel node [] t = Some t"
| "visit_neighbors a fuel node (nb # nbs) t =
     (if \<not> im_contains (tj_indices t) nb
      then Option.bind (visit a fuel nb t) (\<lambda>t'.
             visit_neighbors a fuel node nbs (lower_lowlink node (get_or_0 (tj_lowlink t') nb) t'))
      else if nb \<in> set (tj_onstack t)
      then visit_neighbors a fuel node nbs (lower_lowlink node (get_or_0 (tj_indices t) nb) t)
      else visit_neighbors a fuel node nbs t)"

fun visit_all :: "adjacency \<Rightarrow> nat \<Rightarrow> string list \<Rightarrow> tarjan \<Rightarrow> tarjan option" where
  "visit_all a fuel [] t = Some t"
| "visit_all a fuel (n # ns) t =
     (if im_contains (tj_indices t) n then visit_all a fuel ns t
      else Option.bind (visit a fuel n t) (visit_all a fuel ns))"

definition scc_fuel :: "(string, 'n) imap \<Rightarrow> adjacency \<Rightarrow> nat" where
  "scc_fuel nodes a = length nodes + length (concat (map snd a))"

definition find_sccs :: "(string, 'n) imap \<Rightarrow> 's edge list \<Rightarrow> string list list option" where
  "find_sccs nodes es = (let a = scc_adjacency nodes es in
     map_option tj_sccs (visit_all a (scc_fuel nodes a) (im_keys nodes) tarjan_new))"

definition scc_has_exit :: "'s edge list \<Rightarrow> string list \<Rightarrow> bool" where
  "scc_has_exit es scc =
     list_ex (\<lambda>node. list_ex (\<lambda>e. case e of
         EdgeConditional from _ pm \<Rightarrow> from = node \<and> list_ex (\<lambda>(_, target). target = END \<or> target \<notin> set scc) pm
       | EdgeFixed _ _ \<Rightarrow> False) es) scc"

definition check_infinite_loops ::
    "(string, 'n) imap \<Rightarrow> 's edge list \<Rightarrow> (topology_error, unit) result option" where
  "check_infinite_loops nodes es = map_option (\<lambda>sccs.
     first_err (\<lambda>scc. if length scc \<le> 1 then None
        else if scc_has_exit es scc then None
        else Some (PotentialInfiniteLoop scc)) sccs) (find_sccs nodes es)"

section \<open>Validation\<close>

definition validate ::
    "(string, 'n) imap \<Rightarrow> 's edge list \<Rightarrow> string option \<Rightarrow> (string, node_metadata) imap
       \<Rightarrow> (topology_error, unit) result option" where
  "validate nodes es entry md =
     (case try_bind (check_entry_point entry) (\<lambda>_.
           try_bind (check_edge_targets nodes es) (\<lambda>_.
           try_bind (check_reachability nodes es entry md) (\<lambda>_.
           check_isolated_nodes nodes es))) of
        Inl e \<Rightarrow> Some (Err e)
      | Inr _ \<Rightarrow> check_infinite_loops nodes es)"

section \<open>Adjacency lists represent the edges\<close>

lemma succs_Nil [simp]: "succs [] f = []"
  by (simp add: succs_def)

lemma succs_touch [simp]: "succs (adj_touch n a) f = succs a f"
  by (simp add: succs_def adj_touch_def split: option.splits)

lemma succs_push [simp]: "succs (adj_push f t a) g = (if g = f then succs a f @ [t] else succs a g)"
  by (simp add: succs_def adj_push_def split: option.splits)

lemma succs_fold_touch [simp]: "succs (fold adj_touch ns a) f = succs a f"
  by (induction ns arbitrary: a) simp_all

lemma succs_fold_push:
  "set (succs (fold (\<lambda>t a. if t \<noteq> END then adj_push f t a else a) ts a) g) =
     set (succs a g) \<union> (if g = f then {t \<in> set ts. t \<noteq> END} else {})"
  by (induction ts arbitrary: a) auto

text \<open>The arrow an edge contributes between two nodes.\<close>

fun edge_arrow :: "'s edge \<Rightarrow> string \<Rightarrow> string \<Rightarrow> bool" where
  "edge_arrow (EdgeFixed from to) f t \<longleftrightarrow> from = f \<and> to = t \<and> f \<noteq> START \<and> t \<noteq> END"
| "edge_arrow (EdgeConditional from _ pm) f t \<longleftrightarrow> from = f \<and> t \<in> snd ` set pm \<and> f \<noteq> START \<and> t \<noteq> END"

lemma succs_adj_edge: "set (succs (adj_edge e a) f) = set (succs a f) \<union> {t. edge_arrow e f t}"
  by (cases e) (auto simp: succs_fold_push image_iff)

lemma succs_scc_edge: "set (succs (scc_edge e a) f) = set (succs a f) \<union> {t. edge_arrow e f t}"
  by (cases e) (auto simp: succs_fold_push image_iff)

lemma succs_fold_edges:
  "set (succs (fold adj_edge es a) f) = set (succs a f) \<union> {t. \<exists>e \<in> set es. edge_arrow e f t}"
  by (induction es arbitrary: a) (auto simp: succs_adj_edge)

lemma succs_fold_fallback:
  "set (succs (fold adj_fallback md a) f) =
     set (succs a f) \<union> {t. \<exists>m. (f, m) \<in> set md \<and> md_fallback_node m = Some t}"
  by (induction md arbitrary: a) (auto simp: adj_fallback_def split: option.splits)

text \<open>The arrows of the whole graph: its edges and the fallbacks of its nodes.\<close>

definition graph_arrow :: "'s edge list \<Rightarrow> (string, node_metadata) imap \<Rightarrow> string \<Rightarrow> string \<Rightarrow> bool" where
  "graph_arrow es md f t \<longleftrightarrow> (\<exists>e \<in> set es. edge_arrow e f t) \<or>
     (\<exists>m. (f, m) \<in> set md \<and> md_fallback_node m = Some t)"

lemma succs_build_adjacency: "t \<in> set (succs (build_adjacency nodes es md) f) \<longleftrightarrow> graph_arrow es md f t"
  by (auto simp: build_adjacency_def succs_fold_fallback succs_fold_edges graph_arrow_def)

section \<open>Breadth-first search computes reachability\<close>

lemma bfs_neighbors_sets:
  "bfs_neighbors ns v q = (v', q') \<Longrightarrow> set v' = set v \<union> set ns \<and> set q' = set q \<union> (set ns - set v)"
  by (induction ns v q rule: bfs_neighbors.induct) (auto split: if_splits)

lemma bfs_subset:
  assumes "set visited \<subseteq> R" "set queue \<subseteq> R" "\<And>x y. x \<in> R \<Longrightarrow> y \<in> set (succs a x) \<Longrightarrow> y \<in> R"
  shows "set (bfs a visited queue) \<subseteq> R"
  using assms
proof (induction a visited queue rule: bfs.induct)
  case (2 a visited current queue)
  obtain v q where vq: "bfs_neighbors (succs a current) visited queue = (v, q)" by fastforce
  from bfs_neighbors_sets [OF vq] 2(2-4) have "set v \<subseteq> R" "set q \<subseteq> R" by auto
  with 2(1) 2(4) vq show ?case by simp
qed simp

lemma bfs_closed:
  assumes "set queue \<subseteq> set visited" "\<forall>x \<in> set visited - set queue. set (succs a x) \<subseteq> set visited"
  shows "set visited \<subseteq> set (bfs a visited queue) \<and>
     (\<forall>x \<in> set (bfs a visited queue). set (succs a x) \<subseteq> set (bfs a visited queue))"
  using assms
proof (induction a visited queue rule: bfs.induct)
  case (2 a visited current queue)
  obtain v q where vq: "bfs_neighbors (succs a current) visited queue = (v, q)" by fastforce
  note sets = bfs_neighbors_sets [OF vq]
  have "set q \<subseteq> set v" using sets 2(2) by auto
  moreover have "\<forall>x \<in> set v - set q. set (succs a x) \<subseteq> set v" using sets 2(3) by auto
  ultimately have "set v \<subseteq> set (bfs a v q) \<and> (\<forall>x \<in> set (bfs a v q). set (succs a x) \<subseteq> set (bfs a v q))"
    using 2(1) vq by simp
  then show ?case using sets vq by auto
qed auto

lemma bfs_reachable:
  "set (bfs a [e] [e]) = {n. (\<lambda>x y. y \<in> set (succs a x))\<^sup>*\<^sup>* e n}" (is "?V = ?R")
proof
  show "?V \<subseteq> ?R" by (rule bfs_subset) (auto intro: rtranclp.rtrancl_into_rtrancl)
  have closed: "e \<in> ?V" "\<forall>x \<in> ?V. set (succs a x) \<subseteq> ?V"
    using bfs_closed [of "[e]" "[e]" a] by auto
  show "?R \<subseteq> ?V"
  proof
    fix n assume "n \<in> ?R"
    then have "(\<lambda>x y. y \<in> set (succs a x))\<^sup>*\<^sup>* e n" by simp
    then show "n \<in> ?V" by (induction rule: rtranclp_induct) (use closed in auto)
  qed
qed

section \<open>The component search terminates\<close>

abbreviation indexed :: "tarjan \<Rightarrow> string set" where
  "indexed t \<equiv> set (im_keys (tj_indices t))"

lemma indexed_ops [simp]:
  "indexed (tarjan_enter n t) = insert n (indexed t)"
  "indexed (tarjan_leave n t) = indexed t"
  "indexed (lower_lowlink n v t) = indexed t"
  by (simp_all add: tarjan_enter_def tarjan_leave_def lower_lowlink_def split_beta Let_def)

lemma visit_total:
  fixes U :: "string set"
  assumes U: "finite U" "adj_universe a \<subseteq> U"
  shows "node \<in> U \<Longrightarrow> node \<notin> indexed t \<Longrightarrow> card (U - indexed t) \<le> fuel \<Longrightarrow>
      \<exists>t'. visit a fuel node t = Some t' \<and> insert node (indexed t) \<subseteq> indexed t'"
    and "set nbs \<subseteq> U \<Longrightarrow> card (U - indexed t) \<le> fuel \<Longrightarrow>
      \<exists>t'. visit_neighbors a fuel node nbs t = Some t' \<and> indexed t \<subseteq> indexed t'"
  using U
proof (induction a fuel node t and a fuel node nbs t rule: visit_visit_neighbors.induct)
  case (1 a node t)
  then have "node \<in> U - indexed t" by simp
  with 1 show ?case by (metis card_0_eq empty_iff finite_Diff le_zero_eq)
next
  case (2 a fuel node t)
  have "card (U - indexed t) = Suc (card (U - insert node (indexed t)))"
  proof -
    have "card (U - indexed t - {node}) = card (U - indexed t) - 1"
      using "2.prems" by (intro card_Diff_singleton) auto
    moreover have "card (U - indexed t) > 0" using "2.prems" by (auto simp: card_gt_0_iff)
    moreover have "U - indexed t - {node} = U - insert node (indexed t)" by auto
    ultimately show ?thesis by simp
  qed
  then have "card (U - indexed (tarjan_enter node t)) \<le> fuel" using "2.prems" by simp
  moreover have "set (succs a node) \<subseteq> U" using succs_universe "2.prems" by blast
  ultimately obtain t' where "visit_neighbors a fuel node (succs a node) (tarjan_enter node t) = Some t'"
    "indexed (tarjan_enter node t) \<subseteq> indexed t'" using "2.IH" "2.prems" by blast
  then show ?case by simp
next
  case (4 a fuel node nb nbs t)
  have nbs: "set nbs \<subseteq> U" "nb \<in> U" using "4.prems" by auto
  show ?case
  proof (cases "im_contains (tj_indices t) nb")
    case False
    then have "nb \<notin> indexed t" by (simp add: im_contains_def)
    with "4.IH"(1) [OF False] "4.prems" nbs obtain t1 where t1: "visit a fuel nb t = Some t1" "insert nb (indexed t) \<subseteq> indexed t1"
      by auto
    have "card (U - indexed t1) \<le> card (U - indexed t)"
      using t1(2) "4.prems" by (intro card_mono) auto
    with "4.IH"(2) [OF False, of t1] "4.prems" nbs t1(1) obtain t2 where
      "visit_neighbors a fuel node nbs (lower_lowlink node (get_or_0 (tj_lowlink t1) nb) t1) = Some t2"
      "indexed t1 \<subseteq> indexed t2" by auto
    with t1 False show ?thesis by auto
  next
    case True
    show ?thesis
    proof (cases "nb \<in> set (tj_onstack t)")
      case on: True
      with "4.IH"(3) "4.prems" True nbs show ?thesis by auto
    next
      case off: False
      with "4.IH"(4) "4.prems" True nbs show ?thesis by auto
    qed
  qed
qed simp

lemma visit_all_total:
  assumes U: "finite U" "adj_universe a \<subseteq> U" "card U \<le> fuel" and "set ns \<subseteq> U"
  shows "\<exists>t'. visit_all a fuel ns t = Some t'"
  using assms(4)
proof (induction ns arbitrary: t)
  case (Cons n ns)
  show ?case
  proof (cases "im_contains (tj_indices t) n")
    case False
    then have "n \<notin> indexed t" by (simp add: im_contains_def)
    moreover have "card (U - indexed t) \<le> fuel"
      using U card_mono [of U "U - indexed t"] by fastforce
    ultimately obtain t' where "visit a fuel n t = Some t'"
      using visit_total(1) [OF U(1,2), of n t fuel] Cons.prems by auto
    with Cons False show ?thesis by simp
  qed (use Cons in simp)
qed simp

lemma card_adj_universe: "card (adj_universe a) \<le> length (concat (map snd a))"
proof -
  have "adj_universe a = set (concat (map snd a))" by (auto simp: adj_universe_def)
  then show ?thesis by (simp only: card_length)
qed

lemma find_sccs_total: "\<exists>sccs. find_sccs nodes es = Some sccs"
proof -
  let ?a = "scc_adjacency nodes es"
  let ?U = "set (im_keys nodes) \<union> adj_universe ?a"
  have "card ?U \<le> card (set (im_keys nodes)) + card (adj_universe ?a)" by (rule card_Un_le)
  also have "\<dots> \<le> scc_fuel nodes ?a"
    using card_adj_universe [of ?a] card_length [of "im_keys nodes"] by (simp add: scc_fuel_def im_keys_def)
  finally have "card ?U \<le> scc_fuel nodes ?a" .
  from visit_all_total [OF _ _ this] show ?thesis
    by (fastforce simp: find_sccs_def Let_def)
qed

section \<open>What validation establishes\<close>

definition edge_valid :: "(string, 'n) imap \<Rightarrow> 's edge \<Rightarrow> bool" where
  "edge_valid nodes e \<longleftrightarrow> (edge_from e = START \<or> im_contains nodes (edge_from e)) \<and>
     (case e of
        EdgeFixed _ to \<Rightarrow> to = END \<or> im_contains nodes to
      | EdgeConditional _ _ pm \<Rightarrow> (\<forall>(b, t) \<in> set pm. t = END \<or> im_contains nodes t))"

lemma edge_target_error_None: "edge_target_error nodes e = None \<longleftrightarrow> edge_valid nodes e"
proof (cases e)
  case (EdgeConditional f r pm)
  let ?g = "\<lambda>(branch, target). if target \<noteq> END \<and> \<not> im_contains nodes target
               then Some (EdgeTargetNotFound f branch target) else None"
  have "edge_target_error nodes e = None \<longleftrightarrow>
      (f = START \<or> im_contains nodes f) \<and> (\<forall>x \<in> set pm. ?g x = None)"
    by (simp add: EdgeConditional first_err_None_iff)
  also have "(\<forall>x \<in> set pm. ?g x = None) \<longleftrightarrow> (\<forall>(b, t) \<in> set pm. t = END \<or> im_contains nodes t)"
    by (auto split: if_splits)
  finally show ?thesis by (simp add: EdgeConditional edge_valid_def)
qed (auto simp: edge_valid_def)

lemma check_edge_targets_Ok: "check_edge_targets nodes es = Ok () \<longleftrightarrow> (\<forall>e \<in> set es. edge_valid nodes e)"
  by (simp add: check_edge_targets_def first_err_Ok_iff edge_target_error_None)

lemma check_reachability_Ok:
  "check_reachability nodes es (Some e) md = Ok () \<longleftrightarrow>
     (\<forall>n \<in> set (im_keys nodes). (graph_arrow es md)\<^sup>*\<^sup>* e n)"
proof -
  have "(\<lambda>x y. y \<in> set (succs (build_adjacency nodes es md) x)) = graph_arrow es md"
    by (intro ext) (simp add: succs_build_adjacency)
  then show ?thesis
    by (simp add: check_reachability_def Let_def first_err_Ok_iff bfs_reachable del: bfs.simps)
qed

lemma validate_OkD:
  assumes "validate nodes es entry md = Some (Ok ())"
  shows "\<exists>e. entry = Some e \<and> (\<forall>ed \<in> set es. edge_valid nodes ed) \<and>
     (\<forall>n \<in> set (im_keys nodes). (graph_arrow es md)\<^sup>*\<^sup>* e n)"
proof -
  from assms obtain e where "entry = Some e" "check_edge_targets nodes es = Ok ()"
    "check_reachability nodes es entry md = Ok ()"
    by (auto simp: validate_def check_entry_point_def split: sum.splits option.splits
        dest!: try_bind_OkD)
  then show ?thesis by (simp add: check_edge_targets_Ok check_reachability_Ok)
qed

lemma validate_total: "\<exists>r. validate nodes es entry md = Some r"
  using find_sccs_total [of nodes es] by (auto simp: validate_def check_infinite_loops_def split: sum.splits)

section \<open>Properties\<close>

text \<open>
  The breadth-first search of the validator accepts a graph exactly when every registered node
  can be reached from the entry point along edges and fallbacks.
\<close>

theorem reachability_check_exact:
  "check_reachability nodes es (Some e) md = Ok () \<longleftrightarrow>
     (\<forall>n. im_contains nodes n \<longrightarrow> (graph_arrow es md)\<^sup>*\<^sup>* e n)"
  unfolding check_reachability_Ok im_contains_def by blast

theorem reachability_check_exact_witness:
  "check_reachability [(''a'', ()), (''b'', ())] [EdgeFixed ''a'' ''b'' :: nat edge] (Some ''a'') [] = Ok () \<and>
   (graph_arrow [EdgeFixed ''a'' ''b'' :: nat edge] [])\<^sup>*\<^sup>* ''a'' ''b''"
proof -
  let ?es = "[EdgeFixed ''a'' ''b'' :: nat edge]"
  have "graph_arrow ?es [] ''a'' ''b''" by (simp add: graph_arrow_def START_def END_def)
  then have "(graph_arrow ?es [])\<^sup>*\<^sup>* ''a'' ''b''" by blast
  then show ?thesis
    using reachability_check_exact [of "[(''a'', ()), (''b'', ())]" ?es "''a''" "[]"]
    by (auto simp: im_contains_def)
qed

text \<open>
  Validation always terminates with a verdict: the recursive component search never needs more
  depth than the number of nodes and edge targets.
\<close>

theorem validate_terminates:
  "\<exists>r. validate nodes es entry md = Some r"
  by (rule validate_total)

text \<open>
  A single node whose only outgoing edge is a fixed edge to itself passes the infinite-loop check
  (only components of two or more nodes are examined), so such a graph validates.
\<close>

theorem self_loop_passes_validation:
  assumes "n \<noteq> START" and "n \<noteq> END"
  shows "validate [(n, node)] [EdgeFixed START n, EdgeFixed n n] (Some n) [] = Some (Ok ())"
    (is "validate ?nodes ?es _ _ = _")
proof -
  have a: "scc_adjacency ?nodes ?es = [(n, [n])]"
    using assms by (simp add: scc_adjacency_def adj_touch_def adj_push_def im_modify_def im_get_def)
  have "find_sccs ?nodes ?es = Some [[n]]"
    by (simp add: find_sccs_def a scc_fuel_def Let_def tarjan_new_def tarjan_enter_def tarjan_leave_def succs_def
        im_get_def im_contains_def lower_lowlink_def get_or_0_def hs_insert_def)
  then have l: "check_infinite_loops ?nodes ?es = Some (Ok ())"
    by (simp add: check_infinite_loops_def)
  have "check_edge_targets ?nodes ?es = Ok ()"
    by (simp add: check_edge_targets_Ok edge_valid_def im_contains_def)
  moreover have "check_reachability ?nodes ?es (Some n) [] = Ok ()"
    by (simp add: check_reachability_Ok)
  moreover have "check_isolated_nodes ?nodes ?es = Ok ()"
    using assms by (simp add: check_isolated_nodes_def Let_def hs_insert_def)
  ultimately show ?thesis using l by (simp add: validate_def check_entry_point_def)
qed

theorem self_loop_passes_validation_witness:
  "validate [(''a'', ())] [EdgeFixed START ''a'', EdgeFixed ''a'' ''a''] (Some ''a'') [] = Some (Ok ())"
  by (rule self_loop_passes_validation) (simp_all add: START_def END_def)

end
