(* ===== verification/Tools.thy ===== *)
theory Tools
  imports Messages Topology Commands
begin

text \<open>
  \<open>juncture/src/tools/\<close>: the node that runs the tool calls of a model answer (\<open>node.rs\<close>), argument validation
  against a tool's schema, interceptors and transformers, permissions, the validation node, and the routing
  condition of \<open>juncture-core/src/tools.rs\<close>.  What a tool does, the hooks and the order in which spawned calls
  finish are parameters; a panic inside a tool is \<open>None\<close>.  Traces, spans and tool events are output only.
\<close>

section \<open>Errors\<close>

datatype tool_error =
    InvalidInput string
  | ExecutionFailed string
  | ToolTimeout
  | ToolNotFound string
  | ValidationFailed "string list"
  | Intercepted string

definition format_validation_errors :: "string list \<Rightarrow> string" where
  "format_validation_errors errors = (case errors of
       [] \<Rightarrow> '': unknown error''
     | [e] \<Rightarrow> '': '' @ e
     | _ \<Rightarrow> '':'' @ [CHR 10] @ concat (map (\<lambda>(i, e). ''  '' @ nat_to_string (i + 1) @ ''. '' @ e @ [CHR 10]) (enumerate 0 errors)))"

fun tool_error_display :: "tool_error \<Rightarrow> string" where
  "tool_error_display (InvalidInput m) = ''invalid input: '' @ m"
| "tool_error_display (ExecutionFailed m) = ''execution failed: '' @ m"
| "tool_error_display ToolTimeout = ''timeout''"
| "tool_error_display (ToolNotFound n) = ''tool not found: '' @ n"
| "tool_error_display (ValidationFailed es) = ''validation failed'' @ format_validation_errors es"
| "tool_error_display (Intercepted m) = ''execution intercepted: '' @ m"

definition is_fatal :: "tool_error \<Rightarrow> bool" where
  "is_fatal e = (case e of ToolTimeout \<Rightarrow> True | Intercepted _ \<Rightarrow> True | _ \<Rightarrow> False)"

definition is_retryable_tool :: "tool_error \<Rightarrow> bool" where
  "is_retryable_tool e = (case e of InvalidInput _ \<Rightarrow> True | ValidationFailed _ \<Rightarrow> True | _ \<Rightarrow> False)"

section \<open>Hooks\<close>

record interceptor =
  pre_execute :: "tool_call \<Rightarrow> (tool_error, unit) result"
  post_execute :: "tool_call \<Rightarrow> (tool_error, string) result \<Rightarrow> (tool_error, string) result"

definition nop_interceptor :: interceptor where
  "nop_interceptor = \<lparr>pre_execute = (\<lambda>_. Ok ()),
     post_execute = (\<lambda>_ r. case r of Inr s \<Rightarrow> Ok s | Inl e \<Rightarrow> Err (ExecutionFailed (tool_error_display e)))\<rparr>"

fun all_pre :: "interceptor list \<Rightarrow> tool_call \<Rightarrow> (tool_error, unit) result" where
  "all_pre [] tc = Ok ()"
| "all_pre (i # is) tc = try_bind (pre_execute i tc) (\<lambda>_. all_pre is tc)"

definition composite_interceptor :: "interceptor list \<Rightarrow> interceptor" where
  "composite_interceptor is = \<lparr>pre_execute = all_pre is, post_execute = (\<lambda>tc r. fold (\<lambda>i r. post_execute i tc r) is r)\<rparr>"

type_synonym transformer = "tool_call \<Rightarrow> tool_call \<times> (tool_error, unit) result"

definition nop_transformer :: transformer where
  "nop_transformer tc = (tc, Ok ())"

fun composite_transformer :: "transformer list \<Rightarrow> transformer" where
  "composite_transformer [] tc = (tc, Ok ())"
| "composite_transformer (t # ts) tc = (case t tc of (tc', Inl e) \<Rightarrow> (tc', Err e) | (tc', Inr _) \<Rightarrow> composite_transformer ts tc')"

section \<open>Argument validation\<close>

fun value_type_name :: "json \<Rightarrow> string" where
  "value_type_name JNull = ''null''"
| "value_type_name (JBool _) = ''boolean''"
| "value_type_name (JNum _) = ''number''"
| "value_type_name (JNeg _) = ''number''"
| "value_type_name (JFlt _) = ''number''"
| "value_type_name (JStr _) = ''string''"
| "value_type_name (JArr _) = ''array''"
| "value_type_name (JObj _) = ''object''"

definition is_number :: "json \<Rightarrow> bool" where
  "is_number v = (case v of JNum _ \<Rightarrow> True | JNeg _ \<Rightarrow> True | JFlt _ \<Rightarrow> True | _ \<Rightarrow> False)"

definition is_integer_value :: "json \<Rightarrow> bool" where
  "is_integer_value v = (case v of JNum _ \<Rightarrow> True | JNeg _ \<Rightarrow> True | _ \<Rightarrow> False)"

definition type_matches :: "string \<Rightarrow> json \<Rightarrow> bool" where
  "type_matches ty v = (
     if ty = ''object'' then as_object v \<noteq> None
     else if ty = ''array'' then as_array v \<noteq> None
     else if ty = ''string'' then as_str v \<noteq> None
     else if ty = ''number'' then is_number v
     else if ty = ''integer'' then is_integer_value v
     else if ty = ''boolean'' then (case v of JBool _ \<Rightarrow> True | _ \<Rightarrow> False)
     else if ty = ''null'' then v = JNull
     else True)"

definition quoted :: "string \<Rightarrow> string" where
  "quoted s = CHR 39 # s @ [CHR 39]"

definition validate_property_type :: "json \<Rightarrow> json \<Rightarrow> string \<Rightarrow> (tool_error, unit) result" where
  "validate_property_type v prop_schema prop_name = (case Option.bind (json_member ''type'' prop_schema) as_str of
       None \<Rightarrow> Ok ()
     | Some ty \<Rightarrow> (if type_matches ty v then Ok ()
         else Err (ValidationFailed [''Field '' @ quoted prop_name @ '' expected type '' @ quoted ty @ '', got '' @ quoted (value_type_name v)])))"

fun check_required :: "(string \<times> json) list \<Rightarrow> json list \<Rightarrow> (tool_error, unit) result" where
  "check_required obj [] = Ok ()"
| "check_required obj (f # fs) = (case as_str f of
       None \<Rightarrow> Err (ValidationFailed [''Invalid schema: required field name is not a string''])
     | Some n \<Rightarrow> (if map_of obj n = None then Err (ValidationFailed [''Missing required field: '' @ quoted n]) else check_required obj fs))"

fun check_properties :: "(string \<times> json) list \<Rightarrow> (string \<times> json) list \<Rightarrow> (tool_error, unit) result" where
  "check_properties obj [] = Ok ()"
| "check_properties obj ((n, ps) # rest) = (case map_of obj n of
       None \<Rightarrow> check_properties obj rest
     | Some v \<Rightarrow> try_bind (validate_property_type v ps n) (\<lambda>_. check_properties obj rest))"

definition validate_object_arguments :: "json \<Rightarrow> json \<Rightarrow> (tool_error, unit) result" where
  "validate_object_arguments arguments schema = (case as_object arguments of
       None \<Rightarrow> Err (ValidationFailed [''Expected object arguments, got '' @ quoted (value_type_name arguments)])
     | Some obj \<Rightarrow> try_bind (case Option.bind (json_member ''required'' schema) as_array of Some req \<Rightarrow> check_required obj req | None \<Rightarrow> Ok ()) (\<lambda>_.
         (case Option.bind (json_member ''properties'' schema) as_object of Some props \<Rightarrow> check_properties obj props | None \<Rightarrow> Ok ())))"

definition validate_arguments_against_schema :: "json \<Rightarrow> json \<Rightarrow> (tool_error, unit) result" where
  "validate_arguments_against_schema arguments schema = (case as_object schema of
       None \<Rightarrow> Ok ()
     | Some so \<Rightarrow> (if so = [] then Ok () else (case Option.bind (json_member ''type'' schema) as_str of
         None \<Rightarrow> Ok ()
       | Some ty \<Rightarrow> (
           if ty = ''object'' then validate_object_arguments arguments schema
           else if ty = ''array'' \<and> as_array arguments = None
             then Err (ValidationFailed [''Expected array arguments, got '' @ quoted (value_type_name arguments)])
           else if ty = ''string'' \<and> as_str arguments = None
             then Err (ValidationFailed [''Expected string arguments, got '' @ quoted (value_type_name arguments)])
           else if (ty = ''number'' \<or> ty = ''integer'') \<and> \<not> is_number arguments
             then Err (ValidationFailed [''Expected number arguments, got '' @ quoted (value_type_name arguments)])
           else if ty = ''boolean'' \<and> \<not> (case arguments of JBool _ \<Rightarrow> True | _ \<Rightarrow> False)
             then Err (ValidationFailed [''Expected boolean arguments, got '' @ quoted (value_type_name arguments)])
           else Ok ()))))"

section \<open>The tool node\<close>

text \<open>A tool's schema and what it does; a stateful tool also sees the state and the call's identifier.\<close>

datatype 's tool_entry =
    Stateless (entry_schema: json) "json \<Rightarrow> (tool_error, string) result option"
  | Stateful (entry_schema: json) "json \<Rightarrow> 's \<Rightarrow> string \<Rightarrow> (tool_error, string) result option"

record 's tool_node =
  tn_tools :: "(string, 's tool_entry) imap"
  tn_handle_errors :: bool
  tn_validate_input :: bool
  tn_transformer :: "transformer option"
  tn_interceptor :: "interceptor option"
  tn_condition :: "(message \<Rightarrow> bool) option"

definition tool_node_new :: "(string \<times> 's tool_entry) list \<Rightarrow> 's tool_node" where
  "tool_node_new tools = \<lparr>tn_tools = fold (\<lambda>(n, t) m. im_insert n t m) tools [], tn_handle_errors = True, tn_validate_input = True,
     tn_transformer = None, tn_interceptor = None, tn_condition = None\<rparr>"

definition validate_tool_call :: "'s tool_node \<Rightarrow> tool_call \<Rightarrow> (tool_error, unit) result" where
  "validate_tool_call node tc = (case im_get (tn_tools node) (tcall_name tc) of
       None \<Rightarrow> Err (ValidationFailed [''Tool '' @ quoted (tcall_name tc) @ '' not found in registered tools''])
     | Some t \<Rightarrow> validate_arguments_against_schema (tcall_arguments tc) (entry_schema t))"

definition execute_single_tool :: "tool_call \<Rightarrow> string \<Rightarrow> 's tool_entry \<Rightarrow> interceptor \<Rightarrow> 's option \<Rightarrow> (tool_error, string \<times> string) result option" where
  "execute_single_tool tc tool_name tool i s = (case pre_execute i tc of
       Inl e \<Rightarrow> Some (Err e)
     | Inr _ \<Rightarrow> (case (case tool of
           Stateless _ run \<Rightarrow> map_option Inr (run (tcall_arguments tc))
         | Stateful _ run \<Rightarrow> (case s of
               Some st \<Rightarrow> map_option Inr (run (tcall_arguments tc) st (tcall_id tc))
             | None \<Rightarrow> Some (Inl (ExecutionFailed (''Stateful tool '' @ quoted tool_name @ '' called without state context''))))) of
         None \<Rightarrow> None
       | Some (Inl e) \<Rightarrow> Some (Err e)
       | Some (Inr result) \<Rightarrow> Some (case post_execute i tc result of Inl e \<Rightarrow> Err e | Inr out \<Rightarrow> Ok (tcall_id tc, out))))"

text \<open>One call before it is spawned: an answer at once, or the call to spawn.\<close>

definition transform_call :: "'s tool_node \<Rightarrow> tool_call \<Rightarrow> tool_call \<times> (tool_error, unit) result" where
  "transform_call node tc = (case tn_transformer node of Some f \<Rightarrow> f tc | None \<Rightarrow> (tc, Ok ()))"

definition prepare_call :: "'s tool_node \<Rightarrow> tool_call \<Rightarrow> (string \<times> tool_error, tool_call \<times> string \<times> 's tool_entry) result" where
  "prepare_call node tc = (case im_get (tn_tools node) (tcall_name tc) of
       None \<Rightarrow> Inl (tcall_id tc, ToolNotFound (tcall_name tc))
     | Some tool \<Rightarrow> (case transform_call node tc of
         (tc', Inl e) \<Rightarrow> Inl (tcall_id tc', e)
       | (tc', Inr _) \<Rightarrow> (case (if tn_validate_input node then validate_tool_call node tc' else Ok ()) of
             Inl e \<Rightarrow> Inl (tcall_id tc', e)
           | Inr _ \<Rightarrow> Inr (tc', tcall_name tc, tool))))"

fun prepare_calls :: "'s tool_node \<Rightarrow> tool_call list \<Rightarrow> (tool_error, (string \<times> string) list \<times> (tool_call \<times> string \<times> 's tool_entry) list) result" where
  "prepare_calls node [] = Ok ([], [])"
| "prepare_calls node (tc # tcs) = (case prepare_call node tc of
       Inl (i, e) \<Rightarrow> (if tn_handle_errors node
         then try_bind (prepare_calls node tcs) (\<lambda>(answers, spawned). Ok ((i, ''Error: '' @ tool_error_display e) # answers, spawned))
         else Err e)
     | Inr p \<Rightarrow> try_bind (prepare_calls node tcs) (\<lambda>(answers, spawned). Ok (answers, p # spawned)))"

fun collect_tools :: "bool \<Rightarrow> string \<Rightarrow> (tool_error, string \<times> string) result option list \<Rightarrow> (tool_error, (string \<times> string) list) result" where
  "collect_tools handle panic_msg [] = Ok []"
| "collect_tools handle panic_msg (r # rs) = (case r of
       Some (Inr a) \<Rightarrow> try_bind (collect_tools handle panic_msg rs) (\<lambda>as. Ok (a # as))
     | Some (Inl e) \<Rightarrow> (if handle then try_bind (collect_tools handle panic_msg rs) (\<lambda>as. Ok ((''unknown'', ''Error: '' @ tool_error_display e) # as)) else Err e)
     | None \<Rightarrow> (let msg = ''Tool execution panicked: '' @ panic_msg in
         if handle then try_bind (collect_tools handle panic_msg rs) (\<lambda>as. Ok ((''unknown'', msg) # as)) else Err (ExecutionFailed msg)))"

definition last_ai_message :: "message list \<Rightarrow> message option" where
  "last_ai_message ms = find (\<lambda>m. msg_role m = Ai \<and> has_tool_calls m) (rev ms)"

text \<open>\<open>order\<close> arranges the spawned calls in the order they finish; the answers are pairs of call identifier and text.\<close>

definition execute_answers ::
    "'s tool_node \<Rightarrow> ((tool_call \<times> string \<times> 's tool_entry) list \<Rightarrow> (tool_call \<times> string \<times> 's tool_entry) list) \<Rightarrow> string \<Rightarrow> message list \<Rightarrow> 's option
       \<Rightarrow> (tool_error, (string \<times> string) list) result" where
  "execute_answers node order panic_msg ms s = (case last_ai_message ms of
       None \<Rightarrow> Err (ValidationFailed [''No AI message with tool calls found''])
     | Some ai \<Rightarrow>
         if msg_tool_calls ai = [] then Ok []
         else if (case tn_condition node of Some cond \<Rightarrow> \<not> cond ai | None \<Rightarrow> False) then Ok []
         else (let i = (case tn_interceptor node of Some i \<Rightarrow> i | None \<Rightarrow> nop_interceptor) in
           try_bind (prepare_calls node (msg_tool_calls ai)) (\<lambda>(answers, spawned).
             try_bind (collect_tools (tn_handle_errors node) panic_msg (map (\<lambda>(tc, n, t). execute_single_tool tc n t i s) (order spawned))) (\<lambda>rest.
               Ok (answers @ rest)))))"

definition execute_with_state ::
    "'s tool_node \<Rightarrow> ((tool_call \<times> string \<times> 's tool_entry) list \<Rightarrow> (tool_call \<times> string \<times> 's tool_entry) list) \<Rightarrow> string \<Rightarrow> (nat \<Rightarrow> string) \<Rightarrow> message list \<Rightarrow> 's option
       \<Rightarrow> (tool_error, message list) result" where
  "execute_with_state node order panic_msg fresh ms s =
     try_bind (execute_answers node order panic_msg ms s) (\<lambda>as. Ok (map (\<lambda>(k, (i, txt)). message_tool_result (fresh k) i txt) (enumerate 0 as)))"

section \<open>Routing condition\<close>

fun last_ai_calls :: "json list \<Rightarrow> bool" where
  "last_ai_calls [] = False"
| "last_ai_calls (m # ms) = (if (case Option.bind (json_member ''role'' m) as_str of Some r \<Rightarrow> r | None \<Rightarrow> []) = ''Ai''
     then (case Option.bind (json_member ''tool_calls'' m) as_array of Some arr \<Rightarrow> arr \<noteq> [] | None \<Rightarrow> False)
     else last_ai_calls ms)"

definition has_pending_tool_calls :: "json option \<Rightarrow> string \<Rightarrow> bool" where
  "has_pending_tool_calls state_json field = (case Option.bind state_json (\<lambda>v. Option.bind (json_member field v) as_array) of
       None \<Rightarrow> False
     | Some ms \<Rightarrow> last_ai_calls (rev ms))"

definition tools_condition :: "json option \<Rightarrow> string \<Rightarrow> string" where
  "tools_condition state_json field = (if has_pending_tool_calls state_json field then ''tools'' else END)"

definition tools_condition_from_messages :: "message list \<Rightarrow> string" where
  "tools_condition_from_messages ms = (if ms = [] then END else if has_tool_calls (last ms) then ''tools'' else END)"

section \<open>Permissions\<close>

datatype permission = Allow | Ask | Block

record tool_permission =
  tp_tool_name :: string
  tp_permission :: permission
  tp_reason :: "string option"

record permission_config =
  pc_permissions :: "(string, tool_permission) imap"
  pc_default :: permission

definition permission_config_new :: permission_config where
  "permission_config_new = \<lparr>pc_permissions = [], pc_default = Allow\<rparr>"

definition with_default :: "permission \<Rightarrow> permission_config \<Rightarrow> permission_config" where
  "with_default p c = c\<lparr>pc_default := p\<rparr>"

text \<open>\<open>allow\<close>, \<open>ask\<close>, \<open>ask_with_reason\<close>, \<open>block\<close> and \<open>block_with_reason\<close> insert an entry of that kind.\<close>

definition set_permission :: "permission \<Rightarrow> string option \<Rightarrow> string \<Rightarrow> permission_config \<Rightarrow> permission_config" where
  "set_permission p reason name c = c\<lparr>pc_permissions := im_insert name \<lparr>tp_tool_name = name, tp_permission = p, tp_reason = reason\<rparr> (pc_permissions c)\<rparr>"

definition get_permission :: "permission_config \<Rightarrow> string \<Rightarrow> permission" where
  "get_permission c name = (case im_get (pc_permissions c) name of Some tp \<Rightarrow> tp_permission tp | None \<Rightarrow> pc_default c)"

definition get_reason :: "permission_config \<Rightarrow> string \<Rightarrow> string option" where
  "get_reason c name = Option.bind (im_get (pc_permissions c) name) tp_reason"

definition permission_allowed :: "permission_config \<Rightarrow> string \<Rightarrow> bool" where
  "permission_allowed c name \<longleftrightarrow> get_permission c name = Allow"

definition permission_blocked :: "permission_config \<Rightarrow> string \<Rightarrow> bool" where
  "permission_blocked c name \<longleftrightarrow> get_permission c name = Block"

definition requires_approval :: "permission_config \<Rightarrow> string \<Rightarrow> bool" where
  "requires_approval c name \<longleftrightarrow> get_permission c name = Ask"

definition guard_check :: "permission_config \<Rightarrow> string \<Rightarrow> tool_permission" where
  "guard_check c name = \<lparr>tp_tool_name = name, tp_permission = get_permission c name, tp_reason = get_reason c name\<rparr>"

definition guard_check_all :: "permission_config \<Rightarrow> string list \<Rightarrow> tool_permission list" where
  "guard_check_all c names = map (guard_check c) names"

section \<open>The validation node\<close>

record validation_node =
  vn_max_input_tokens :: "nat option"
  vn_validator :: "(message list \<Rightarrow> (tool_error, unit) result) option"

text \<open>The sum is exact here; the code adds 64-bit counters.\<close>

definition validate_messages :: "validation_node \<Rightarrow> message list \<Rightarrow> (tool_error, unit) result" where
  "validate_messages v ms = (let
     total = sum_list (map (\<lambda>m. case msg_usage m of Some u \<Rightarrow> input_tokens u | None \<Rightarrow> 0) ms);
     limit = (case vn_max_input_tokens v of
         Some mx \<Rightarrow> (if total > mx then Err (ValidationFailed [''Token limit exceeded: '' @ nat_to_string total @ '' > '' @ nat_to_string mx]) else Ok ())
       | None \<Rightarrow> Ok ())
     in try_bind limit (\<lambda>_. case vn_validator v of Some f \<Rightarrow> f ms | None \<Rightarrow> Ok ()))"

definition validation_enabled :: "validation_node \<Rightarrow> bool" where
  "validation_enabled v \<longleftrightarrow> vn_max_input_tokens v \<noteq> None \<or> vn_validator v \<noteq> None"

definition validation_call :: "validation_node \<Rightarrow> messages_state \<Rightarrow> (juncture_error, messages_state_update command) result" where
  "validation_call v s = (case validate_messages v (ms_messages s) of
       Inr _ \<Rightarrow> Ok (command_update \<lparr>msu_messages = None\<rparr>)
     | Inl e \<Rightarrow> Err (ExecutionError (tool_error_display e)))"

section \<open>What the tool node answers\<close>

text \<open>The answer to one call, on its own: what was refused before the call ran, or what its run gave.\<close>

definition run_answer :: "string \<Rightarrow> (tool_error, string \<times> string) result option \<Rightarrow> string \<times> string" where
  "run_answer panic_msg r = (case r of
       Some (Inr a) \<Rightarrow> a
     | Some (Inl e) \<Rightarrow> (''unknown'', ''Error: '' @ tool_error_display e)
     | None \<Rightarrow> (''unknown'', ''Tool execution panicked: '' @ panic_msg))"

definition call_answer :: "'s tool_node \<Rightarrow> interceptor \<Rightarrow> string \<Rightarrow> 's option \<Rightarrow> tool_call \<Rightarrow> string \<times> string" where
  "call_answer node i panic_msg s tc = (case prepare_call node tc of
       Inl (k, e) \<Rightarrow> (k, ''Error: '' @ tool_error_display e)
     | Inr (tc', n, t) \<Rightarrow> run_answer panic_msg (execute_single_tool tc' n t i s))"

lemma collect_handled: "collect_tools True panic_msg rs = Ok (map (run_answer panic_msg) rs)"
  by (induction rs) (auto simp: run_answer_def Let_def split: option.splits sum.splits)

lemma prepare_handled:
  assumes "tn_handle_errors node"
  shows "\<exists>answers spawned. prepare_calls node tcs = Ok (answers, spawned) \<and>
    mset answers + mset (map (\<lambda>(tc, n, t). run_answer panic_msg (execute_single_tool tc n t i s)) spawned)
      = mset (map (call_answer node i panic_msg s) tcs)"
proof (induction tcs)
  case (Cons tc tcs)
  then obtain answers spawned where "prepare_calls node tcs = Ok (answers, spawned)"
    "mset answers + mset (map (\<lambda>(tc, n, t). run_answer panic_msg (execute_single_tool tc n t i s)) spawned)
      = mset (map (call_answer node i panic_msg s) tcs)" by blast
  then show ?case using assms by (auto simp: call_answer_def[of _ _ _ _ tc] split: sum.splits prod.splits)
qed simp

lemma prepare_call_keeps_id:
  assumes "tn_transformer node = None"
  shows "case prepare_call node tc of Inl (k, _) \<Rightarrow> k = tcall_id tc | Inr (tc', _, _) \<Rightarrow> tc' = tc"
  using assms by (auto simp: prepare_call_def transform_call_def split: option.splits sum.splits)

lemma run_id: "execute_single_tool tc n t i s = Some (Inr (k, out)) \<Longrightarrow> k = tcall_id tc"
  by (auto simp: execute_single_tool_def split: sum.splits option.splits tool_entry.splits)

lemma call_answer_id:
  assumes "tn_transformer node = None"
  shows "fst (call_answer node i panic_msg s tc) \<in> {tcall_id tc, ''unknown''}"
proof (cases "prepare_call node tc")
  case (Inl p)
  then show ?thesis using prepare_call_keeps_id[OF assms, of tc] by (auto simp: call_answer_def split: prod.splits)
next
  case (Inr p)
  obtain tc' n t where p: "p = (tc', n, t)" by (cases p)
  have same: "tc' = tc" using prepare_call_keeps_id[OF assms, of tc] Inr p by simp
  show ?thesis
    using Inr p same by (auto simp: call_answer_def run_answer_def dest: run_id split: option.splits sum.splits)
qed

text \<open>
  C27: with \<open>handle_errors\<close> set, the tool node answers every call of the last model answer that has calls, exactly
  once and whatever order the calls finish in: the multiset of answers is the one got by treating each call on its own.
  Without a transformer an answer carries its call's identifier or the literal \<open>unknown\<close>, which is what every call that
  ran and failed is answered with.
\<close>

theorem tool_answers_exact:
  assumes handled: "tn_handle_errors node"
    and ai: "last_ai_message ms = Some ai"
    and cond: "\<forall>c. tn_condition node = Some c \<longrightarrow> c ai"
    and order: "\<forall>xs. mset (order xs) = mset xs"
  shows "\<exists>as. execute_answers node order panic_msg ms s = Ok as \<and>
    mset as = mset (map (call_answer node (case tn_interceptor node of Some i \<Rightarrow> i | None \<Rightarrow> nop_interceptor) panic_msg s) (msg_tool_calls ai)) \<and>
    (tn_transformer node = None \<longrightarrow> (\<forall>a \<in> set as. fst a = ''unknown'' \<or> fst a \<in> tcall_id ` set (msg_tool_calls ai)))"
proof -
  let ?i = "case tn_interceptor node of Some i \<Rightarrow> i | None \<Rightarrow> nop_interceptor"
  let ?run = "\<lambda>(tc, n, t). execute_single_tool tc n t ?i s"
  obtain answers spawned where p: "prepare_calls node (msg_tool_calls ai) = Ok (answers, spawned)"
    and m: "mset answers + mset (map (\<lambda>(tc, n, t). run_answer panic_msg (execute_single_tool tc n t ?i s)) spawned)
      = mset (map (call_answer node ?i panic_msg s) (msg_tool_calls ai))"
    using prepare_handled[OF handled] by blast
  define as where "as = answers @ map (run_answer panic_msg) (map ?run (order spawned))"
  have "mset (map (run_answer panic_msg) (map ?run (order spawned))) = mset (map (run_answer panic_msg) (map ?run spawned))"
    using order by (simp only: mset_map)
  also have "map (run_answer panic_msg) (map ?run spawned) = map (\<lambda>(tc, n, t). run_answer panic_msg (execute_single_tool tc n t ?i s)) spawned"
    by (simp add: case_prod_unfold)
  finally have all: "mset as = mset (map (call_answer node ?i panic_msg s) (msg_tool_calls ai))"
    unfolding as_def mset_append using m by simp
  have ne: "msg_tool_calls ai \<noteq> []"
    using ai by (auto simp: last_ai_message_def find_Some_iff has_tool_calls_def)
  have c: "\<not> (case tn_condition node of Some cond \<Rightarrow> \<not> cond ai | None \<Rightarrow> False)"
    using cond by (auto split: option.splits)
  have run: "execute_answers node order panic_msg ms s = Ok as"
    using ai ne c p handled by (simp add: execute_answers_def as_def collect_handled Let_def)
  have "fst a = ''unknown'' \<or> fst a \<in> tcall_id ` set (msg_tool_calls ai)" if plain: "tn_transformer node = None" and a: "a \<in> set as" for a
  proof -
    obtain tc where "tc \<in> set (msg_tool_calls ai)" "a = call_answer node ?i panic_msg s tc"
      using all a by (metis (no_types, lifting) mset_eq_setD imageE set_map)
    then show ?thesis using call_answer_id[OF plain, of ?i panic_msg s tc] by auto
  qed
  then show ?thesis using run all by blast
qed

definition example_call :: "string \<Rightarrow> string \<Rightarrow> json \<Rightarrow> tool_call" where
  "example_call i n a = \<lparr>tcall_id = i, tcall_name = n, tcall_arguments = a\<rparr>"

definition example_tools :: "unit tool_node" where
  "example_tools = tool_node_new
     [(''echo'', Stateless (JObj []) (\<lambda>_. Some (Ok ''done''))),
      (''fail'', Stateless (JObj []) (\<lambda>_. Some (Err ToolTimeout)))]"

definition example_answer :: message where
  "example_answer = (message_ai ''m1'' ''calling'')\<lparr>msg_tool_calls :=
     [example_call ''c1'' ''echo'' JNull, example_call ''c2'' ''fail'' JNull, example_call ''c3'' ''none'' JNull]\<rparr>"

lemmas example_defs = example_tools_def example_answer_def example_call_def tool_node_new_def message_ai_def plain_message_def

theorem tool_answers_exact_witness:
  "\<exists>as. execute_answers example_tools rev ''boom'' [example_answer] None = Ok as \<and>
    mset as = {#(''c1'', ''done''), (''unknown'', ''Error: execution failed: timeout''), (''c3'', ''Error: tool not found: none'')#}"
proof -
  have "mset (map (call_answer example_tools nop_interceptor ''boom'' None) (msg_tool_calls example_answer))
      = {#(''c1'', ''done''), (''unknown'', ''Error: execution failed: timeout''), (''c3'', ''Error: tool not found: none'')#}"
    by (simp add: example_defs call_answer_def prepare_call_def transform_call_def validate_tool_call_def
        validate_arguments_against_schema_def run_answer_def execute_single_tool_def nop_interceptor_def im_get_def)
  moreover have "tn_interceptor example_tools = None" by (simp add: example_defs)
  moreover have "tn_handle_errors example_tools" "tn_condition example_tools = None"
    "last_ai_message [example_answer] = Some example_answer"
    by (simp_all add: example_defs last_ai_message_def has_tool_calls_def)
  ultimately show ?thesis
    using tool_answers_exact[of example_tools "[example_answer]" example_answer rev "''boom''" None] by auto
qed

section \<open>What validation accepts\<close>

lemma check_required_iff:
  "check_required obj req = Ok () \<longleftrightarrow> (\<forall>f \<in> set req. \<exists>n. as_str f = Some n \<and> map_of obj n \<noteq> None)"
  by (induction req) (auto split: option.splits)

lemma check_properties_iff:
  "check_properties obj props = Ok () \<longleftrightarrow>
    (\<forall>(n, ps) \<in> set props. \<forall>v ty. map_of obj n = Some v \<and> Option.bind (json_member ''type'' ps) as_str = Some ty \<longrightarrow> type_matches ty v)"
  by (induction props) (auto simp: validate_property_type_def split: option.splits if_splits)


definition example_schema :: json where
  "example_schema = JObj [(''type'', JStr ''object''), (''required'', JArr [JStr ''q'']),
     (''properties'', JObj [(''q'', JObj [(''type'', JStr ''string'')]), (''n'', JObj [(''type'', JStr ''integer'')])])]"


section \<open>What permissions decide\<close>

lemma get_permission_set [simp]:
  "get_permission (set_permission p r n c) m = (if m = n then p else get_permission c m)"
  "get_reason (set_permission p r n c) m = (if m = n then r else get_reason c m)"
  by (auto simp: get_permission_def get_reason_def set_permission_def split: option.splits)

text \<open>
  the last builder call for a tool decides its permission and the reason shown for it; a tool no call names has
  the default permission and no reason, and the guard reports exactly that.
\<close>

theorem last_permission_decides:
  "guard_check (fold (\<lambda>(p, r, n). set_permission p r n) ops (with_default d permission_config_new)) name =
    (case find (\<lambda>(p, r, n). n = name) (rev ops) of
        Some (p, r, _) \<Rightarrow> \<lparr>tp_tool_name = name, tp_permission = p, tp_reason = r\<rparr>
      | None \<Rightarrow> \<lparr>tp_tool_name = name, tp_permission = d, tp_reason = None\<rparr>)"
proof (induction ops rule: rev_induct)
  case Nil
  show ?case by (simp add: guard_check_def get_permission_def get_reason_def with_default_def permission_config_new_def)
next
  case (snoc op ops)
  then show ?case by (cases op) (simp add: guard_check_def)
qed

end
