(* ===== verification/Builtin_Tools.thy ===== *)
theory Builtin_Tools
  imports Tools
begin

text \<open>
  The built-in tools (\<open>juncture/src/tools/builtin/web_fetch.rs\<close>, \<open>think.rs\<close>): fetching a page as plain text and recording a reflection.  The network is a
  parameter; texts are ASCII.
\<close>

section \<open>Fetching pages\<close>

record web_fetch_tool =
  wf_timeout_secs :: nat
  wf_max_size :: nat

definition web_fetch_new :: web_fetch_tool where
  "web_fetch_new = \<lparr>wf_timeout_secs = 15, wf_max_size = 500 * 1024\<rparr>"

definition with_timeout :: "nat \<Rightarrow> web_fetch_tool \<Rightarrow> web_fetch_tool" where
  "with_timeout secs w = w\<lparr>wf_timeout_secs := secs\<rparr>"

definition with_max_size :: "nat \<Rightarrow> web_fetch_tool \<Rightarrow> web_fetch_tool" where
  "with_max_size bytes w = w\<lparr>wf_max_size := bytes\<rparr>"

definition field_schema :: "string \<Rightarrow> string \<Rightarrow> json" where
  "field_schema k d = JObj [(''type'', JStr ''object''), (''properties'', JObj [(k, JObj [(''type'', JStr ''string''), (''description'', JStr d)])]), (''required'', JArr [JStr k])]"

definition web_fetch_schema :: json where
  "web_fetch_schema = field_schema ''url'' ''The URL of the webpage to fetch''"

text \<open>The two loops of \<open>strip_html_tags\<close>, by their flags \<open>in_tag\<close> and \<open>prev_was_space\<close>.\<close>

fun strip_tags :: "bool \<Rightarrow> string \<Rightarrow> string" where
  "strip_tags in_tag [] = []"
| "strip_tags in_tag (c # cs) = (if c = CHR ''<'' then strip_tags True cs else if c = CHR ''>'' then CHR '' '' # strip_tags False cs
     else if in_tag then strip_tags True cs else c # strip_tags False cs)"

fun collapse :: "bool \<Rightarrow> string \<Rightarrow> string" where
  "collapse prev_was_space [] = []"
| "collapse prev_was_space (c # cs) = (if is_space c then (if prev_was_space then collapse True cs else CHR '' '' # collapse True cs) else c # collapse False cs)"

definition strip_html_tags :: "string \<Rightarrow> string" where
  "strip_html_tags html = trim (collapse False (strip_tags False html))"

text \<open>
  What the network answers to a request for an address with a time limit: a client that cannot be built, no answer, or a status with its text and a body,
  which may fail to arrive.
\<close>

datatype fetch_reply = NoClient string | NoAnswer string | Answer nat string "(string, string) result"

definition web_fetch_invoke :: "(nat \<Rightarrow> string \<Rightarrow> fetch_reply) \<Rightarrow> web_fetch_tool \<Rightarrow> json \<Rightarrow> (tool_error, string) result" where
  "web_fetch_invoke net w input = (case Option.bind (json_member ''url'' input) as_str of
       None \<Rightarrow> Err (InvalidInput ''Missing 'url' field'')
     | Some url \<Rightarrow>
         if trim url = [] then Err (InvalidInput ''URL cannot be empty'')
         else if \<not> starts_with ''http://'' url \<and> \<not> starts_with ''https://'' url then Err (InvalidInput (''URL must start with http:// or https://, got: '' @ url))
         else (case net (wf_timeout_secs w) url of
             NoClient e \<Rightarrow> Err (ExecutionFailed (''Failed to create HTTP client: '' @ e))
           | NoAnswer e \<Rightarrow> Err (ExecutionFailed (''Failed to fetch URL: '' @ e))
           | Answer status status_text body \<Rightarrow>
               if \<not> (200 \<le> status \<and> status < 300) then Err (ExecutionFailed (''HTTP error: '' @ status_text @ '' for URL: '' @ url))
               else (case body of
                   Inl e \<Rightarrow> Err (ExecutionFailed (''Failed to read response body: '' @ e))
                 | Inr html \<Rightarrow>
                     if length html > wf_max_size w
                     then Err (ExecutionFailed (''Response too large: '' @ nat_to_string (length html) @ '' bytes (max '' @ nat_to_string (wf_max_size w) @ '' bytes)''))
                     else (let t = strip_html_tags html in
                       if trim t = [] then Err (ExecutionFailed ''No text content found on the page'') else Ok t))))"

section \<open>Reflections\<close>

definition think_schema :: json where
  "think_schema = field_schema ''reflection'' ''Your detailed reflection on research progress, findings, gaps, and next steps''"

definition think_invoke :: "json \<Rightarrow> (tool_error, string) result" where
  "think_invoke input = (case Option.bind (json_member ''reflection'' input) as_str of
       None \<Rightarrow> Err (InvalidInput ''Missing 'reflection' field'')
     | Some reflection \<Rightarrow>
         if trim reflection = [] then Err (InvalidInput ''Reflection cannot be empty'') else Ok (''Reflection recorded: '' @ reflection))"

section \<open>The text of a page\<close>

text \<open>The words of a text: its longest pieces without white space.\<close>

fun pieces :: "string \<Rightarrow> string list" where
  "pieces [] = [[]]"
| "pieces (c # cs) = (if is_space c then [] # pieces cs else (case pieces cs of w # ws \<Rightarrow> (c # w) # ws | [] \<Rightarrow> [[c]]))"

definition page_words :: "string \<Rightarrow> string list" where
  "page_words s = filter (\<lambda>w. w \<noteq> []) (pieces s)"

abbreviation spaced :: "string list \<Rightarrow> string" where
  "spaced ws \<equiv> concat (map ((#) CHR '' '') ws)"

lemma is_space_blank [simp]: "is_space CHR '' ''"
  by (simp add: is_space_def)

lemma trim_end_Nil [simp]: "trim_end [] = []"
  by (simp add: trim_end_def)

lemma trim_end_Cons: "trim_end (c # x) = (if trim_end x = [] \<and> is_space c then [] else c # trim_end x)"
proof (cases "\<forall>d \<in> set x. is_space d")
  case True
  then have "dropWhile is_space (rev x) = []" by simp
  then show ?thesis using True by (simp add: trim_end_def dropWhile_append)
next
  case False
  then have "dropWhile is_space (rev x) \<noteq> []" "dropWhile is_space (rev x @ [c]) = dropWhile is_space (rev x) @ [c]" by (auto simp: dropWhile_append)
  then show ?thesis by (simp add: trim_end_def)
qed

lemma trim_commute: "trim x = trim_start (trim_end x)"
  unfolding trim_def by (induction x) (auto simp: trim_start_def trim_end_Cons)

lemma pieces_not_Nil [simp]: "pieces s \<noteq> []"
  by (cases s) (simp_all split: list.split)

lemma pieces_Cons: obtains w ws where "pieces s = w # ws"
  using pieces_not_Nil [of s] by (cases "pieces s") simp_all

lemma trim_end_collapse:
  "trim_end (collapse False s) = hd (pieces s) @ spaced (filter (\<lambda>w. w \<noteq> []) (tl (pieces s))) \<and> trim_end (CHR '' '' # collapse True s) = spaced (page_words s)"
proof (induction s)
  case (Cons c s)
  obtain w ws where p: "pieces s = w # ws" by (rule pieces_Cons)
  show ?case
  proof (cases "is_space c")
    case True
    then show ?thesis using Cons by (simp add: page_words_def)
  next
    case False
    then show ?thesis using Cons p by (simp add: page_words_def trim_end_Cons)
  qed
qed (simp add: page_words_def trim_end_Cons)

lemma pieces_clean: "w \<in> set (pieces s) \<Longrightarrow> c \<in> set w \<Longrightarrow> \<not> is_space c \<and> c \<in> set s"
proof (induction s arbitrary: w)
  case (Cons d s)
  obtain v vs where p: "pieces s = v # vs" by (rule pieces_Cons)
  show ?case
  proof (cases "is_space d")
    case True
    then show ?thesis using Cons by auto
  next
    case False
    then show ?thesis using Cons.prems Cons.IH [of v] Cons.IH [of w] p by (cases "w = d # v") auto
  qed
qed simp

lemma join_spaced: "join_with '' '' (v # vs) = v @ spaced vs"
proof (induction vs arbitrary: v)
  case (Cons u vs)
  then show ?case by (simp add: join_Cons)
qed simp

lemma trim_start_word: "\<forall>c \<in> set v. \<not> is_space c \<Longrightarrow> v \<noteq> [] \<Longrightarrow> trim_start (v @ x) = v @ x"
  by (cases v) (simp_all add: trim_start_def)

lemma trim_collapse: "trim (collapse False s) = join_with '' '' (page_words s)"
proof -
  obtain w ws where p: "pieces s = w # ws" by (rule pieces_Cons)
  let ?vs = "filter (\<lambda>w. w \<noteq> []) ws"
  have clean: "\<forall>c \<in> set v. \<not> is_space c" if "v \<in> set (w # ws)" for v using pieces_clean [of v s] that p by auto
  have "trim (collapse False s) = trim_start (w @ spaced ?vs)" using trim_end_collapse [of s] by (simp add: trim_commute p)
  also have "\<dots> = join_with '' '' (page_words s)"
  proof (cases "w = []")
    case True
    show ?thesis
    proof (cases ?vs)
      case Nil
      then show ?thesis using True by (simp add: page_words_def p trim_start_def)
    next
      case (Cons v vs)
      then have "v \<in> set ?vs" by simp
      then have "v \<noteq> []" "\<forall>c \<in> set v. \<not> is_space c" using clean [of v] by simp_all
      then have "trim_start (spaced ?vs) = v @ spaced vs" using trim_start_word [of v "spaced vs"] by (simp add: Cons trim_start_def)
      then show ?thesis using True Cons join_spaced [of v vs] by (simp add: page_words_def p)
    qed
  next
    case False
    then show ?thesis using trim_start_word [of w] clean [of w] join_spaced [of w ?vs] by (simp add: page_words_def p)
  qed
  finally show ?thesis .
qed

lemma strip_tags_clean: "c \<in> set (strip_tags b s) \<Longrightarrow> c \<noteq> CHR ''<'' \<and> c \<noteq> CHR ''>''"
  by (induction b s rule: strip_tags.induct) (auto split: if_splits)

lemma strip_tags_plain: "\<forall>c \<in> set s. c \<noteq> CHR ''<'' \<and> c \<noteq> CHR ''>'' \<Longrightarrow> strip_tags False s = s"
  by (induction s) simp_all

lemma strip_tags_open: "CHR ''>'' \<notin> set s \<Longrightarrow> strip_tags True s = []"
  by (induction s) auto

lemma strip_tags_append: "\<forall>c \<in> set a. c \<noteq> CHR ''<'' \<and> c \<noteq> CHR ''>'' \<Longrightarrow> strip_tags False (a @ s) = a @ strip_tags False s"
  by (induction a) simp_all

lemma pieces_word: "\<forall>c \<in> set v. \<not> is_space c \<Longrightarrow> pieces (v @ CHR '' '' # s) = v # pieces s"
  by (induction v) simp_all

lemma pieces_last: "\<forall>c \<in> set v. \<not> is_space c \<Longrightarrow> pieces v = [v]"
  by (induction v) simp_all

lemma page_words_join:
  "(\<And>v. v \<in> set vs \<Longrightarrow> v \<noteq> [] \<and> (\<forall>c \<in> set v. \<not> is_space c)) \<Longrightarrow> page_words (join_with '' '' vs) = vs"
proof (induction vs)
  case (Cons v vs)
  have v: "v \<noteq> []" "\<forall>c \<in> set v. \<not> is_space c" using Cons.prems [of v] by simp_all
  show ?case
  proof (cases "vs = []")
    case True
    then show ?thesis using v by (simp add: page_words_def pieces_last)
  next
    case False
    have "page_words (join_with '' '' vs) = vs" by (rule Cons.IH) (rule Cons.prems, simp)
    then show ?thesis using v False by (simp add: join_Cons page_words_def pieces_word)
  qed
qed (simp add: page_words_def)

lemma page_wordsD: "v \<in> set (page_words s) \<Longrightarrow> v \<noteq> [] \<and> (\<forall>c \<in> set v. \<not> is_space c \<and> c \<in> set s)"
  using pieces_clean by (auto simp: page_words_def)

lemma set_join: "set (join_with '' '' vs) \<subseteq> insert CHR '' '' (\<Union>v \<in> set vs. set v)"
proof (induction vs)
  case (Cons v vs)
  then show ?case by (cases "vs = []") (auto simp: join_Cons)
qed simp

text \<open>
  The text of a page is exactly its words outside tags, one blank between two of them; it has no angle brackets, and cleaning it again changes nothing.
  What follows a \<open><\<close> that is never closed is dropped.
\<close>

theorem page_text_exact:
  "strip_html_tags html = join_with '' '' (page_words (strip_tags False html)) \<and>
   CHR ''<'' \<notin> set (strip_html_tags html) \<and> CHR ''>'' \<notin> set (strip_html_tags html) \<and>
   strip_html_tags (strip_html_tags html) = strip_html_tags html \<and>
   (\<forall>a b. html = a @ ''<'' @ b \<longrightarrow> CHR ''<'' \<notin> set a \<longrightarrow> CHR ''>'' \<notin> set a \<longrightarrow> CHR ''>'' \<notin> set b \<longrightarrow> strip_html_tags html = join_with '' '' (page_words a))"
proof -
  let ?ws = "page_words (strip_tags False html)"
  have eq: "strip_html_tags s = join_with '' '' (page_words (strip_tags False s))" for s by (simp add: strip_html_tags_def trim_collapse)
  have chars: "c \<noteq> CHR ''<'' \<and> c \<noteq> CHR ''>''" if "c \<in> set (join_with '' '' ?ws)" for c
  proof -
    have "c = CHR '' '' \<or> c \<in> set (strip_tags False html)"
      using set_join [THEN subsetD, OF that] page_wordsD [of _ "strip_tags False html"] by blast
    then show ?thesis by (rule disjE) (simp, rule strip_tags_clean)
  qed
  have "page_words (join_with '' '' ?ws) = ?ws" by (rule page_words_join) (use page_wordsD in blast)
  moreover have "strip_tags False (join_with '' '' ?ws) = join_with '' '' ?ws" by (rule strip_tags_plain) (use chars in blast)
  ultimately have idem: "strip_html_tags (strip_html_tags html) = strip_html_tags html" by (simp only: eq)
  have tail: "strip_html_tags html = join_with '' '' (page_words a)"
    if "html = a @ ''<'' @ b" "CHR ''<'' \<notin> set a" "CHR ''>'' \<notin> set a" "CHR ''>'' \<notin> set b" for a b
  proof -
    have "\<forall>c \<in> set a. c \<noteq> CHR ''<'' \<and> c \<noteq> CHR ''>''" using that(2,3) by blast
    then have "strip_tags False html = a @ strip_tags False (''<'' @ b)" unfolding that(1) by (rule strip_tags_append)
    then show ?thesis using strip_tags_open [OF that(4)] by (simp add: eq)
  qed
  have "CHR ''<'' \<notin> set (strip_html_tags html)" "CHR ''>'' \<notin> set (strip_html_tags html)" unfolding eq using chars by blast+
  then show ?thesis using eq [of html] idem tail by blast
qed

theorem page_text_exact_witness:
  "strip_html_tags ''a  b < c'' = ''a b''"
proof -
  have "strip_html_tags (''a  b '' @ ''<'' @ '' c'') = join_with '' '' (page_words ''a  b '')"
    using page_text_exact [of "''a  b '' @ ''<'' @ '' c''"] by auto
  then show ?thesis by (simp add: page_words_def is_space_def)
qed

end
