(* ===== verification/Trace_Store.thy ===== *)
theory Trace_Store
  imports Strings "HOL-Library.List_Lexorder" "HOL-Library.Char_ord" "HOL-Library.Countable"
begin

text \<open>
  The data of the telemetry crate (\<open>juncture-telemetry/src/models.rs\<close>) and its SQLite store (\<open>sqlite_store.rs\<close>, queries of
  \<open>trace_store.rs\<close>).  The three tables are maps from the text of an identifier to a row and statements have their SQL meaning
  on them.  The readers and printers of JSON, identifiers and times, the date functions of SQLite, the order of rows with equal sort keys,
  whether foreign keys are enforced, and failures of the database are parameters.
\<close>

section \<open>Models\<close>

type_synonym trace_id = nat
type_synonym instant = int

record trace =
  trc_id :: trace_id
  trc_name :: string
  trc_user_id :: "string option"
  trc_session_id :: "string option"
  trc_tags :: "string list"
  trc_metadata :: json
  trc_environment :: "string option"
  trc_release :: "string option"
  trc_input :: "json option"
  trc_output :: "json option"
  trc_start_time :: instant
  trc_end_time :: "instant option"
  trc_total_cost :: "rat option"
  trc_total_tokens :: "nat option"

definition trace_new :: "trace_id \<Rightarrow> instant \<Rightarrow> string \<Rightarrow> trace" where
  "trace_new i now n = \<lparr>trc_id = i, trc_name = n, trc_user_id = None, trc_session_id = None, trc_tags = [], trc_metadata = JNull,
     trc_environment = None, trc_release = None, trc_input = None, trc_output = None, trc_start_time = now, trc_end_time = None,
     trc_total_cost = None, trc_total_tokens = None\<rparr>"

definition trace_complete :: "instant \<Rightarrow> json option \<Rightarrow> rat option \<Rightarrow> nat option \<Rightarrow> trace \<Rightarrow> trace" where
  "trace_complete now output cost tokens t = t\<lparr>trc_end_time := Some now, trc_output := output, trc_total_cost := cost, trc_total_tokens := tokens\<rparr>"

datatype observation_type = ObsSpan | ObsGeneration | ObsToolCall | ObsRetrieval

fun obs_type_text :: "observation_type \<Rightarrow> string" where
  "obs_type_text ObsSpan = ''SPAN''"
| "obs_type_text ObsGeneration = ''GENERATION''"
| "obs_type_text ObsToolCall = ''TOOL_CALL''"
| "obs_type_text ObsRetrieval = ''RETRIEVAL''"

datatype observation_level = LevelDebug | LevelDefault | LevelWarning | LevelError

fun level_text :: "observation_level \<Rightarrow> string" where
  "level_text LevelDebug = ''DEBUG''"
| "level_text LevelDefault = ''DEFAULT''"
| "level_text LevelWarning = ''WARNING''"
| "level_text LevelError = ''ERROR''"

record call_usage =
  cu_input :: nat
  cu_output :: nat
  cu_total :: nat
  cu_cached :: "nat option"

record observation =
  ob_id :: trace_id
  ob_trace_id :: trace_id
  ob_parent :: "trace_id option"
  ob_name :: string
  ob_type :: observation_type
  ob_start_time :: instant
  ob_end_time :: "instant option"
  ob_input :: "json option"
  ob_output :: "json option"
  ob_metadata :: json
  ob_level :: observation_level
  ob_status :: "string option"
  ob_model :: "string option"
  ob_parameters :: "json option"
  ob_usage :: "call_usage option"
  ob_cost :: "rat option"

definition observation_of :: "observation_type \<Rightarrow> string option \<Rightarrow> trace_id \<Rightarrow> instant \<Rightarrow> trace_id \<Rightarrow> string \<Rightarrow> observation" where
  "observation_of ty model i now tid n = \<lparr>ob_id = i, ob_trace_id = tid, ob_parent = None, ob_name = n, ob_type = ty, ob_start_time = now,
     ob_end_time = None, ob_input = None, ob_output = None, ob_metadata = JNull, ob_level = LevelDefault, ob_status = None, ob_model = model,
     ob_parameters = None, ob_usage = None, ob_cost = None\<rparr>"

definition obs_span :: "trace_id \<Rightarrow> instant \<Rightarrow> trace_id \<Rightarrow> string \<Rightarrow> observation" where
  "obs_span i now tid n = observation_of ObsSpan None i now tid n"

definition obs_generation :: "trace_id \<Rightarrow> instant \<Rightarrow> trace_id \<Rightarrow> string \<Rightarrow> string \<Rightarrow> observation" where
  "obs_generation i now tid n model = observation_of ObsGeneration (Some model) i now tid n"

definition obs_tool_call :: "trace_id \<Rightarrow> instant \<Rightarrow> trace_id \<Rightarrow> string \<Rightarrow> observation" where
  "obs_tool_call i now tid n = observation_of ObsToolCall None i now tid n"

definition obs_with_parent :: "trace_id \<Rightarrow> observation \<Rightarrow> observation" where
  "obs_with_parent p ob = ob\<lparr>ob_parent := Some p\<rparr>"

definition obs_complete :: "instant \<Rightarrow> json option \<Rightarrow> observation \<Rightarrow> observation" where
  "obs_complete now output ob = ob\<lparr>ob_end_time := Some now, ob_output := output\<rparr>"

definition obs_fail :: "instant \<Rightarrow> string \<Rightarrow> observation \<Rightarrow> observation" where
  "obs_fail now m ob = ob\<lparr>ob_end_time := Some now, ob_level := LevelError, ob_status := Some m\<rparr>"

record session =
  ssn_id :: string
  ssn_user_id :: "string option"
  ssn_created_at :: instant

definition session_new :: "instant \<Rightarrow> string \<Rightarrow> session" where
  "session_new now i = \<lparr>ssn_id = i, ssn_user_id = None, ssn_created_at = now\<rparr>"

section \<open>Rows\<close>

record trace_row =
  tr_name :: string
  tr_user_id :: "string option"
  tr_session_id :: "string option"
  tr_tags :: string
  tr_metadata :: string
  tr_environment :: "string option"
  tr_release :: "string option"
  tr_input :: "string option"
  tr_output :: "string option"
  tr_start_time :: string
  tr_end_time :: "string option"
  tr_total_cost :: "rat option"
  tr_total_tokens :: "int option"

record observation_row =
  or_trace_id :: string
  or_parent :: "string option"
  or_name :: string
  or_type :: string
  or_start_time :: string
  or_end_time :: "string option"
  or_input :: "string option"
  or_output :: "string option"
  or_metadata :: string
  or_level :: string
  or_status :: "string option"
  or_model :: "string option"
  or_parameters :: "string option"
  or_usage_input :: "int option"
  or_usage_output :: "int option"
  or_usage_total :: "int option"
  or_usage_cached :: "int option"
  or_cost :: "rat option"

record session_row =
  sr_user_id :: "string option"
  sr_created_at :: string

record trace_db =
  tdb_traces :: "(string, trace_row) imap"
  tdb_observations :: "(string, observation_row) imap"
  tdb_sessions :: "(string, session_row) imap"

definition trace_db_new :: trace_db where
  "trace_db_new = \<lparr>tdb_traces = [], tdb_observations = [], tdb_sessions = []\<rparr>"

text \<open>\<open>sx_fault\<close> is the failure of an operation, if any.  The three orders are \<open>ORDER BY start_time DESC\<close>, \<open>ORDER BY start_time\<close> and \<open>ORDER BY created_at DESC\<close>.\<close>

record store_context =
  sx_show_id :: "trace_id \<Rightarrow> string"
  sx_read_id :: "string \<Rightarrow> trace_id option"
  sx_show_json :: "json \<Rightarrow> string"
  sx_read_json :: "string \<Rightarrow> json option"
  sx_show_time :: "instant \<Rightarrow> string"
  sx_read_time :: "string \<Rightarrow> instant option"
  sx_now :: instant
  sx_fault :: "string option"
  sx_foreign_keys :: bool
  sx_fk_error :: string
  sx_traces_order :: "(string \<times> trace_row) list \<Rightarrow> (string \<times> trace_row) list"
  sx_observations_order :: "(string \<times> observation_row) list \<Rightarrow> (string \<times> observation_row) list"
  sx_sessions_order :: "(string \<times> session_row) list \<Rightarrow> (string \<times> session_row) list"
  sx_latency :: "string \<Rightarrow> string \<Rightarrow> rat"
  sx_date :: "string \<Rightarrow> string"

definition i64_clamp :: "nat \<Rightarrow> int" where
  "i64_clamp n = min (int n) (2 ^ 63 - 1)"

definition trace_to_row :: "store_context \<Rightarrow> trace \<Rightarrow> trace_row" where
  "trace_to_row X t = \<lparr>tr_name = trc_name t, tr_user_id = trc_user_id t, tr_session_id = trc_session_id t,
     tr_tags = sx_show_json X (JArr (map JStr (trc_tags t))), tr_metadata = sx_show_json X (trc_metadata t), tr_environment = trc_environment t,
     tr_release = trc_release t, tr_input = map_option (sx_show_json X) (trc_input t), tr_output = map_option (sx_show_json X) (trc_output t),
     tr_start_time = sx_show_time X (trc_start_time t), tr_end_time = map_option (sx_show_time X) (trc_end_time t),
     tr_total_cost = trc_total_cost t, tr_total_tokens = map_option i64_clamp (trc_total_tokens t)\<rparr>"

definition observation_to_row :: "store_context \<Rightarrow> observation \<Rightarrow> observation_row" where
  "observation_to_row X ob = \<lparr>or_trace_id = sx_show_id X (ob_trace_id ob), or_parent = map_option (sx_show_id X) (ob_parent ob), or_name = ob_name ob,
     or_type = obs_type_text (ob_type ob), or_start_time = sx_show_time X (ob_start_time ob), or_end_time = map_option (sx_show_time X) (ob_end_time ob),
     or_input = map_option (sx_show_json X) (ob_input ob), or_output = map_option (sx_show_json X) (ob_output ob), or_metadata = sx_show_json X (ob_metadata ob),
     or_level = level_text (ob_level ob), or_status = ob_status ob, or_model = ob_model ob, or_parameters = map_option (sx_show_json X) (ob_parameters ob),
     or_usage_input = map_option (i64_clamp \<circ> cu_input) (ob_usage ob), or_usage_output = map_option (i64_clamp \<circ> cu_output) (ob_usage ob),
     or_usage_total = map_option (i64_clamp \<circ> cu_total) (ob_usage ob),
     or_usage_cached = Option.bind (ob_usage ob) (\<lambda>u. map_option i64_clamp (cu_cached u)), or_cost = ob_cost ob\<rparr>"

text \<open>Reading a row: a column that does not parse gives a default, a missing value, the nil identifier or the current time.\<close>

definition parse_json_field :: "store_context \<Rightarrow> string \<Rightarrow> json" where
  "parse_json_field X s = (case sx_read_json X s of Some v \<Rightarrow> v | None \<Rightarrow> JNull)"

fun strings_of :: "json list \<Rightarrow> string list option" where
  "strings_of [] = Some []"
| "strings_of (v # vs) = (case (as_str v, strings_of vs) of (Some s, Some ss) \<Rightarrow> Some (s # ss) | _ \<Rightarrow> None)"

definition parse_tags :: "store_context \<Rightarrow> string \<Rightarrow> string list" where
  "parse_tags X s = (case sx_read_json X s of Some (JArr vs) \<Rightarrow> (case strings_of vs of Some ss \<Rightarrow> ss | None \<Rightarrow> []) | _ \<Rightarrow> [])"

definition parse_id_field :: "store_context \<Rightarrow> string \<Rightarrow> trace_id" where
  "parse_id_field X s = (case sx_read_id X s of Some i \<Rightarrow> i | None \<Rightarrow> 0)"

definition parse_dt_field :: "store_context \<Rightarrow> string \<Rightarrow> instant" where
  "parse_dt_field X s = (case sx_read_time X s of Some t \<Rightarrow> t | None \<Rightarrow> sx_now X)"

definition token_to_u64 :: "int \<Rightarrow> nat" where
  "token_to_u64 n = (if n < 0 then 0 else nat n)"

definition token_to_u64_opt :: "int \<Rightarrow> nat option" where
  "token_to_u64_opt n = (if n < 0 then None else Some (nat n))"

definition into_trace :: "store_context \<Rightarrow> string \<Rightarrow> trace_row \<Rightarrow> trace" where
  "into_trace X i r = \<lparr>trc_id = parse_id_field X i, trc_name = tr_name r, trc_user_id = tr_user_id r, trc_session_id = tr_session_id r,
     trc_tags = parse_tags X (tr_tags r), trc_metadata = parse_json_field X (tr_metadata r), trc_environment = tr_environment r,
     trc_release = tr_release r, trc_input = Option.bind (tr_input r) (sx_read_json X), trc_output = Option.bind (tr_output r) (sx_read_json X),
     trc_start_time = parse_dt_field X (tr_start_time r), trc_end_time = Option.bind (tr_end_time r) (sx_read_time X),
     trc_total_cost = tr_total_cost r, trc_total_tokens = Option.bind (tr_total_tokens r) token_to_u64_opt\<rparr>"

definition parse_obs_type :: "string \<Rightarrow> observation_type" where
  "parse_obs_type s = (if s = ''GENERATION'' then ObsGeneration else if s = ''TOOL_CALL'' then ObsToolCall
     else if s = ''RETRIEVAL'' then ObsRetrieval else ObsSpan)"

definition parse_level :: "string \<Rightarrow> observation_level" where
  "parse_level s = (if s = ''DEBUG'' then LevelDebug else if s = ''WARNING'' then LevelWarning
     else if s = ''ERROR'' then LevelError else LevelDefault)"

definition row_usage :: "observation_row \<Rightarrow> call_usage option" where
  "row_usage r = (if or_usage_input r \<noteq> None \<or> or_usage_output r \<noteq> None \<or> or_usage_total r \<noteq> None
     then (let tokens = (\<lambda>c. case c of Some n \<Rightarrow> token_to_u64 n | None \<Rightarrow> 0) in
       Some \<lparr>cu_input = tokens (or_usage_input r), cu_output = tokens (or_usage_output r), cu_total = tokens (or_usage_total r),
         cu_cached = Option.bind (or_usage_cached r) token_to_u64_opt\<rparr>)
     else None)"

definition into_observation :: "store_context \<Rightarrow> string \<Rightarrow> observation_row \<Rightarrow> observation" where
  "into_observation X i r = \<lparr>ob_id = parse_id_field X i, ob_trace_id = parse_id_field X (or_trace_id r), ob_parent = Option.bind (or_parent r) (sx_read_id X),
     ob_name = or_name r, ob_type = parse_obs_type (or_type r), ob_start_time = parse_dt_field X (or_start_time r),
     ob_end_time = Option.bind (or_end_time r) (sx_read_time X), ob_input = Option.bind (or_input r) (sx_read_json X),
     ob_output = Option.bind (or_output r) (sx_read_json X), ob_metadata = parse_json_field X (or_metadata r), ob_level = parse_level (or_level r),
     ob_status = or_status r, ob_model = or_model r, ob_parameters = Option.bind (or_parameters r) (sx_read_json X), ob_usage = row_usage r,
     ob_cost = or_cost r\<rparr>"

definition into_session :: "store_context \<Rightarrow> string \<Rightarrow> session_row \<Rightarrow> session" where
  "into_session X i r = \<lparr>ssn_id = i, ssn_user_id = sr_user_id r, ssn_created_at = parse_dt_field X (sr_created_at r)\<rparr>"

definition obs_duration_ms :: "observation \<Rightarrow> nat option" where
  "obs_duration_ms ob = map_option (\<lambda>e. nat (max 0 ((e - ob_start_time ob) div 1000000))) (ob_end_time ob)"

section \<open>Operations of the store\<close>

datatype trace_store_error = TsStorage string | TsSerialization string | TsNotFound string

text \<open>A statement, named by the text its failure is reported with.\<close>

definition ts_statement :: "store_context \<Rightarrow> string \<Rightarrow> (trace_store_error, unit) result" where
  "ts_statement X what = (case sx_fault X of None \<Rightarrow> Ok () | Some e \<Rightarrow> Err (TsStorage (what @ '': '' @ e)))"

definition upsert_trace :: "store_context \<Rightarrow> trace \<Rightarrow> trace_db \<Rightarrow> trace_db \<times> (trace_store_error, unit) result" where
  "upsert_trace X t db = (case ts_statement X ''insert trace'' of
       Inl e \<Rightarrow> (db, Err e)
     | Inr _ \<Rightarrow> (db\<lparr>tdb_traces := im_insert (sx_show_id X (trc_id t)) (trace_to_row X t) (tdb_traces db)\<rparr>, Ok ()))"

definition insert_observation :: "store_context \<Rightarrow> observation \<Rightarrow> trace_db \<Rightarrow> trace_db \<times> (trace_store_error, unit) result" where
  "insert_observation X ob db = (case ts_statement X ''insert observation'' of
       Inl e \<Rightarrow> (db, Err e)
     | Inr _ \<Rightarrow> (if sx_foreign_keys X \<and> \<not> im_contains (tdb_traces db) (sx_show_id X (ob_trace_id ob))
         then (db, Err (TsStorage (''insert observation: '' @ sx_fk_error X)))
         else (db\<lparr>tdb_observations := im_insert (sx_show_id X (ob_id ob)) (observation_to_row X ob) (tdb_observations db)\<rparr>, Ok ())))"

definition upsert_session :: "store_context \<Rightarrow> session \<Rightarrow> trace_db \<Rightarrow> trace_db \<times> (trace_store_error, unit) result" where
  "upsert_session X s db = (case ts_statement X ''insert session'' of
       Inl e \<Rightarrow> (db, Err e)
     | Inr _ \<Rightarrow> (db\<lparr>tdb_sessions := im_insert (ssn_id s) \<lparr>sr_user_id = ssn_user_id s, sr_created_at = sx_show_time X (ssn_created_at s)\<rparr> (tdb_sessions db)\<rparr>, Ok ()))"

definition get_trace :: "store_context \<Rightarrow> trace_id \<Rightarrow> trace_db \<Rightarrow> (trace_store_error, (trace \<times> observation list) option) result" where
  "get_trace X i db = try_bind (ts_statement X ''query trace'') (\<lambda>_.
     case im_get (tdb_traces db) (sx_show_id X i) of
       None \<Rightarrow> Ok None
     | Some r \<Rightarrow> try_bind (ts_statement X ''query observations'') (\<lambda>_.
         Ok (Some (into_trace X (sx_show_id X i) r,
           map (\<lambda>(j, q). into_observation X j q)
             (sx_observations_order X (filter (\<lambda>(_, q). or_trace_id q = sx_show_id X i) (tdb_observations db)))))))"

definition get_session :: "store_context \<Rightarrow> string \<Rightarrow> trace_db \<Rightarrow> (trace_store_error, session option) result" where
  "get_session X i db = try_bind (ts_statement X ''query session'') (\<lambda>_. Ok (map_option (into_session X i) (im_get (tdb_sessions db) i)))"

subsection \<open>Queries\<close>

record trace_query =
  tq_session_id :: "string option"
  tq_user_id :: "string option"
  tq_name :: "string option"
  tq_environment :: "string option"
  tq_tags :: "string list"
  tq_from :: "instant option"
  tq_to :: "instant option"
  tq_page :: "nat option"
  tq_page_size :: "nat option"

record 'a page_response =
  pg_data :: "'a list"
  pg_page :: nat
  pg_size :: nat
  pg_total :: nat

definition ascii_lower :: "char \<Rightarrow> char" where
  "ascii_lower c = (if 65 \<le> (of_char c :: nat) \<and> (of_char c :: nat) \<le> 90 then char_of ((of_char c :: nat) + 32) else c)"

text \<open>\<open>LIKE\<close> of SQLite: \<open>%\<close> matches any text, \<open>_\<close> any character, letters match in either case.\<close>

fun like :: "string \<Rightarrow> string \<Rightarrow> bool" where
  "like [] s = (s = [])"
| "like (p # ps) [] = (p = CHR 37 \<and> like ps [])"
| "like (p # ps) (c # cs) = (if p = CHR 37 then like ps (c # cs) \<or> like (p # ps) cs
     else (p = CHR 95 \<or> ascii_lower p = ascii_lower c) \<and> like ps cs)"

definition opt_holds :: "('a \<Rightarrow> bool) \<Rightarrow> 'a option \<Rightarrow> bool" where
  "opt_holds P v = (case v of Some x \<Rightarrow> P x | None \<Rightarrow> True)"

text \<open>The \<open>WHERE\<close> clause the query builds; a column that is \<open>NULL\<close> equals nothing.\<close>

definition trace_matches :: "store_context \<Rightarrow> trace_query \<Rightarrow> trace_row \<Rightarrow> bool" where
  "trace_matches X q r \<longleftrightarrow>
     opt_holds (\<lambda>v. tr_session_id r = Some v) (tq_session_id q) \<and> opt_holds (\<lambda>v. tr_user_id r = Some v) (tq_user_id q) \<and>
     opt_holds (\<lambda>v. like (CHR 37 # v @ [CHR 37]) (tr_name r)) (tq_name q) \<and> opt_holds (\<lambda>v. tr_environment r = Some v) (tq_environment q) \<and>
     opt_holds (\<lambda>t. sx_show_time X t \<le> tr_start_time r) (tq_from q) \<and> opt_holds (\<lambda>t. tr_start_time r \<le> sx_show_time X t) (tq_to q)"

definition page_of :: "nat \<Rightarrow> nat \<Rightarrow> 'a list \<Rightarrow> 'a list" where
  "page_of page len rows = take len (drop (page * len) rows)"

definition query_traces :: "store_context \<Rightarrow> trace_query \<Rightarrow> trace_db \<Rightarrow> (trace_store_error, trace page_response) result" where
  "query_traces X q db = (let
     page = (case tq_page q of Some p \<Rightarrow> p | None \<Rightarrow> 0);
     len = min (case tq_page_size q of Some n \<Rightarrow> n | None \<Rightarrow> 50) 500;
     rows = filter (\<lambda>(_, r). trace_matches X q r) (tdb_traces db)
     in try_bind (ts_statement X ''count traces'') (\<lambda>_. try_bind (ts_statement X ''query traces'') (\<lambda>_.
          Ok \<lparr>pg_data = map (\<lambda>(i, r). into_trace X i r) (page_of page len (sx_traces_order X rows)), pg_page = page, pg_size = len, pg_total = length rows\<rparr>)))"

definition query_sessions :: "store_context \<Rightarrow> nat \<Rightarrow> nat \<Rightarrow> trace_db \<Rightarrow> (trace_store_error, session page_response) result" where
  "query_sessions X page page_size db = (let len = min page_size 500 in
     try_bind (ts_statement X ''count sessions'') (\<lambda>_. try_bind (ts_statement X ''query sessions'') (\<lambda>_.
       Ok \<lparr>pg_data = map (\<lambda>(i, r). into_session X i r) (page_of page len (sx_sessions_order X (tdb_sessions db))),
         pg_page = page, pg_size = len, pg_total = length (tdb_sessions db)\<rparr>)))"

record enriched_session =
  es_id :: string
  es_user_id :: "string option"
  es_created_at :: string
  es_trace_count :: nat
  es_total_cost :: rat
  es_total_tokens :: nat
  es_last_active :: "string option"

text \<open>SQL aggregates skip \<open>NULL\<close>; a sum of integers that leaves 64 bits is an error of the database.\<close>

definition present :: "'a option list \<Rightarrow> 'a list" where
  "present xs = map the (filter (\<lambda>x. x \<noteq> None) xs)"

definition sum_fits :: "int option list \<Rightarrow> bool" where
  "sum_fits xs \<longleftrightarrow> (\<forall>k \<le> length (present xs). - (2 ^ 63) \<le> sum_list (take k (present xs)) \<and> sum_list (take k (present xs)) < 2 ^ 63)"

definition max_text :: "string list \<Rightarrow> string option" where
  "max_text xs = fold (\<lambda>x m. case m of None \<Rightarrow> Some x | Some y \<Rightarrow> Some (max y x)) xs None"

definition session_traces :: "string \<Rightarrow> trace_db \<Rightarrow> trace_row list" where
  "session_traces i db = map snd (filter (\<lambda>(_, r). tr_session_id r = Some i) (tdb_traces db))"

definition into_enriched_session :: "trace_db \<Rightarrow> string \<Rightarrow> session_row \<Rightarrow> enriched_session" where
  "into_enriched_session db i r = (let ts = session_traces i db in
     \<lparr>es_id = i, es_user_id = sr_user_id r, es_created_at = sr_created_at r, es_trace_count = length ts,
      es_total_cost = sum_list (present (map tr_total_cost ts)), es_total_tokens = nat (sum_list (present (map tr_total_tokens ts))),
      es_last_active = max_text (map tr_start_time ts)\<rparr>)"

definition query_enriched_sessions :: "store_context \<Rightarrow> nat \<Rightarrow> nat \<Rightarrow> trace_db \<Rightarrow> (trace_store_error, enriched_session page_response) result" where
  "query_enriched_sessions X page page_size db = (let len = min page_size 500 in
     try_bind (ts_statement X ''count sessions'') (\<lambda>_. try_bind (ts_statement X ''query enriched sessions'') (\<lambda>_.
       if \<forall>(i, _) \<in> set (tdb_sessions db). sum_fits (map tr_total_tokens (session_traces i db))
       then Ok \<lparr>pg_data = map (\<lambda>(i, r). into_enriched_session db i r) (page_of page len (sx_sessions_order X (tdb_sessions db))),
         pg_page = page, pg_size = len, pg_total = length (tdb_sessions db)\<rparr>
       else Err (TsStorage ''query enriched sessions: integer overflow''))))"

subsection \<open>Statistics\<close>

record summary_stats =
  sm_total_traces :: nat
  sm_total_observations :: nat
  sm_total_cost :: rat
  sm_total_tokens :: nat
  sm_error_count :: nat
  sm_active_sessions :: nat
  sm_p50 :: rat
  sm_p95 :: rat
  sm_p99 :: rat

definition trace_latencies :: "store_context \<Rightarrow> trace_db \<Rightarrow> rat list" where
  "trace_latencies X db = sort (present (map (\<lambda>(_, r). map_option (sx_latency X (tr_start_time r)) (tr_end_time r)) (tdb_traces db)))"

text \<open>\<open>None\<close>: an index beyond the durations, which would panic.\<close>

definition percentiles :: "rat list \<Rightarrow> (rat \<times> rat \<times> rat) option" where
  "percentiles ds = (if ds = [] then Some (0, 0, 0) else (let n = length ds; i50 = n * 50 div 100; i95 = n * 95 div 100; i99 = min (n * 99 div 100) (n - 1) in
     if i50 < n \<and> i95 < n \<and> i99 < n then Some (ds ! i50, ds ! i95, ds ! i99) else None))"

definition get_summary_stats :: "store_context \<Rightarrow> trace_db \<Rightarrow> (trace_store_error, summary_stats) result option" where
  "get_summary_stats X db = (case ts_statement X ''count traces'' of
       Inl e \<Rightarrow> Some (Err e)
     | Inr _ \<Rightarrow> (if \<not> sum_fits (map (tr_total_tokens \<circ> snd) (tdb_traces db)) then Some (Err (TsStorage ''sum tokens: integer overflow''))
         else map_option (\<lambda>(p50, p95, p99). Ok \<lparr>sm_total_traces = length (tdb_traces db), sm_total_observations = length (tdb_observations db),
             sm_total_cost = sum_list (present (map (tr_total_cost \<circ> snd) (tdb_traces db))),
             sm_total_tokens = nat (sum_list (present (map (tr_total_tokens \<circ> snd) (tdb_traces db)))),
             sm_error_count = length (filter (\<lambda>(_, r). or_level r = ''ERROR'') (tdb_observations db)),
             sm_active_sessions = length (tdb_sessions db), sm_p50 = p50, sm_p95 = p95, sm_p99 = p99\<rparr>) (percentiles (trace_latencies X db))))"

record daily_stats =
  dy_date :: string
  dy_trace_count :: nat
  dy_observation_count :: nat
  dy_total_tokens :: nat
  dy_total_cost :: rat
  dy_total_duration_ms :: nat

text \<open>\<open>GROUP BY\<close>, the groups in the order of their keys.\<close>

definition group_by :: "('a \<Rightarrow> string) \<Rightarrow> 'a list \<Rightarrow> (string \<times> 'a list) list" where
  "group_by key rows = map (\<lambda>k. (k, filter (\<lambda>r. key r = k) rows)) (sort (remdups (map key rows)))"

definition get_daily_stats :: "store_context \<Rightarrow> instant \<Rightarrow> instant \<Rightarrow> trace_db \<Rightarrow> (trace_store_error, daily_stats list) result" where
  "get_daily_stats X from till db = try_bind (ts_statement X ''query stats'') (\<lambda>_.
     let rows = filter (\<lambda>r. sx_show_time X from \<le> tr_start_time r \<and> tr_start_time r \<le> sx_show_time X till) (map snd (tdb_traces db));
         days = group_by (\<lambda>r. sx_date X (tr_start_time r)) rows
     in if list_all (\<lambda>(_, rs). sum_fits (map tr_total_tokens rs)) days
        then Ok (map (\<lambda>(d, rs). \<lparr>dy_date = d, dy_trace_count = length rs, dy_observation_count = 0,
            dy_total_tokens = nat (sum_list (present (map tr_total_tokens rs))), dy_total_cost = sum_list (present (map tr_total_cost rs)),
            dy_total_duration_ms = 0\<rparr>) days)
        else Err (TsStorage ''query stats: integer overflow''))"

record model_stats =
  mst_model :: string
  mst_call_count :: nat
  mst_input_tokens :: nat
  mst_output_tokens :: nat
  mst_total_cost :: rat
  mst_avg_latency :: rat

definition average :: "rat list \<Rightarrow> rat" where
  "average xs = (if xs = [] then 0 else sum_list xs / of_nat (length xs))"

definition into_model_stats :: "store_context \<Rightarrow> string \<Rightarrow> observation_row list \<Rightarrow> model_stats" where
  "into_model_stats X m rs = \<lparr>mst_model = m, mst_call_count = length rs, mst_input_tokens = nat (sum_list (present (map or_usage_input rs))),
     mst_output_tokens = nat (sum_list (present (map or_usage_output rs))), mst_total_cost = sum_list (present (map or_cost rs)),
     mst_avg_latency = average (present (map (\<lambda>r. map_option (sx_latency X (or_start_time r)) (or_end_time r)) rs))\<rparr>"

text \<open>\<open>ORDER BY total_cost DESC\<close>; models of equal cost stay in the order of the groups.\<close>

definition get_model_stats :: "store_context \<Rightarrow> trace_db \<Rightarrow> (trace_store_error, model_stats list) result" where
  "get_model_stats X db = try_bind (ts_statement X ''query model stats'') (\<lambda>_.
     let groups = group_by (\<lambda>r. the (or_model r)) (filter (\<lambda>r. or_model r \<noteq> None) (map snd (tdb_observations db)))
     in if list_all (\<lambda>(_, rs). sum_fits (map or_usage_input rs) \<and> sum_fits (map or_usage_output rs)) groups
        then Ok (sort_key (\<lambda>m. - mst_total_cost m) (map (\<lambda>(m, rs). into_model_stats X m rs) groups))
        else Err (TsStorage ''query model stats: integer overflow''))"

section \<open>What the store gives back\<close>

text \<open>The libraries behind the columns read what they print, and sorting only permutes.\<close>

definition columns_ok :: "store_context \<Rightarrow> bool" where
  "columns_ok X \<longleftrightarrow> (\<forall>i. sx_read_id X (sx_show_id X i) = Some i) \<and> (\<forall>v. sx_read_json X (sx_show_json X v) = Some v) \<and>
     (\<forall>t. sx_read_time X (sx_show_time X t) = Some t) \<and> (\<forall>rs. mset (sx_observations_order X rs) = mset rs) \<and> (\<forall>rs. mset (sx_traces_order X rs) = mset rs)"

text \<open>Counts beyond 63 bits are stored as the largest such number.\<close>

definition clamped :: "nat \<Rightarrow> nat" where
  "clamped n = min n (2 ^ 63 - 1)"

definition stored_trace :: "trace \<Rightarrow> trace" where
  "stored_trace t = t\<lparr>trc_total_tokens := map_option clamped (trc_total_tokens t)\<rparr>"

definition stored_usage :: "call_usage \<Rightarrow> call_usage" where
  "stored_usage u = \<lparr>cu_input = clamped (cu_input u), cu_output = clamped (cu_output u), cu_total = clamped (cu_total u), cu_cached = map_option clamped (cu_cached u)\<rparr>"

definition stored_observation :: "observation \<Rightarrow> observation" where
  "stored_observation ob = ob\<lparr>ob_usage := map_option stored_usage (ob_usage ob)\<rparr>"

lemma token_clamp [simp]: "token_to_u64 (i64_clamp n) = clamped n" "token_to_u64_opt (i64_clamp n) = Some (clamped n)"
  by (auto simp: token_to_u64_def token_to_u64_opt_def i64_clamp_def clamped_def min_def nat_le_iff)

lemma strings_of_map [simp]: "strings_of (map JStr ss) = Some ss"
  by (induction ss) simp_all

lemma bind_map_Some: "(\<And>x. f (g x) = Some (h x)) \<Longrightarrow> Option.bind (map_option g v) f = map_option h v"
  by (cases v) simp_all

lemma bind_map_id: "(\<And>x. f (g x) = Some x) \<Longrightarrow> Option.bind (map_option g v) f = v"
  by (cases v) simp_all

lemma columns_okD:
  assumes "columns_ok X"
  shows "sx_read_id X (sx_show_id X i) = Some i" "sx_read_json X (sx_show_json X v) = Some v" "sx_read_time X (sx_show_time X t) = Some t"
    "mset (sx_observations_order X os) = mset os" "mset (sx_traces_order X ts) = mset ts"
  using assms by (simp_all add: columns_ok_def)

lemma trace_row_roundtrip:
  assumes "columns_ok X"
  shows "into_trace X (sx_show_id X (trc_id t)) (trace_to_row X t) = stored_trace t"
  using columns_okD [OF assms]
  by (simp add: into_trace_def trace_to_row_def stored_trace_def parse_id_field_def parse_tags_def parse_json_field_def parse_dt_field_def
      bind_map_id bind_map_Some [where h = clamped])

lemma parse_texts [simp]: "parse_obs_type (obs_type_text ty) = ty" "parse_level (level_text l) = l"
  by (cases ty; simp add: parse_obs_type_def) (cases l; simp add: parse_level_def)

lemma observation_row_roundtrip:
  assumes "columns_ok X"
  shows "into_observation X (sx_show_id X (ob_id ob)) (observation_to_row X ob) = stored_observation ob"
proof -
  have "row_usage (observation_to_row X ob) = map_option stored_usage (ob_usage ob)"
    by (cases "ob_usage ob") (simp_all add: row_usage_def observation_to_row_def stored_usage_def Let_def bind_map_Some [where h = clamped])
  then show ?thesis
    using columns_okD [OF assms] unfolding into_observation_def stored_observation_def
    by (simp add: observation_to_row_def parse_id_field_def parse_json_field_def parse_dt_field_def bind_map_id)
qed

section \<open>What queries find\<close>

lemma like_any: "like [CHR 37] s"
  by (induction s) simp_all

lemma like_plain_prefix:
  assumes "CHR 37 \<notin> set v" "CHR 95 \<notin> set v"
  shows "like (v @ [CHR 37]) s \<longleftrightarrow> (\<exists>m b. s = m @ b \<and> map ascii_lower m = map ascii_lower v)"
  using assms
proof (induction v arbitrary: s)
  case Nil
  then show ?case by (simp add: like_any)
next
  case (Cons p v)
  show ?case
  proof (cases s)
    case Nil
    then show ?thesis using Cons.prems by auto
  next
    case (Cons c cs)
    have "(\<exists>m b. c # cs = m @ b \<and> map ascii_lower m = ascii_lower p # map ascii_lower v) \<longleftrightarrow>
        ascii_lower p = ascii_lower c \<and> (\<exists>m b. cs = m @ b \<and> map ascii_lower m = map ascii_lower v)"
      by (auto simp: Cons_eq_append_conv map_eq_Cons_conv) (metis list.simps(9))
    then show ?thesis using Cons Cons.IH [of cs] Cons.prems by auto
  qed
qed

lemma like_contains:
  assumes "CHR 37 \<notin> set v" "CHR 95 \<notin> set v"
  shows "like (CHR 37 # v @ [CHR 37]) s \<longleftrightarrow> (\<exists>a m b. s = a @ m @ b \<and> map ascii_lower m = map ascii_lower v)"
proof (induction s)
  case Nil
  show ?case using like_plain_prefix [OF assms, of "[]"] by auto
next
  case (Cons c cs)
  have "(\<exists>a m b. c # cs = a @ m @ b \<and> Q m) \<longleftrightarrow> (\<exists>m b. c # cs = m @ b \<and> Q m) \<or> (\<exists>a m b. cs = a @ m @ b \<and> Q m)" (is "?L \<longleftrightarrow> ?R") for Q
  proof
    assume ?L
    then obtain a m b where "c # cs = a @ m @ b" "Q m" by blast
    then show ?R by (cases a) auto
  next
    assume ?R
    then consider m b where "c # cs = m @ b" "Q m" | a m b where "cs = a @ m @ b" "Q m" by blast
    then show ?L
    proof cases
      case 1
      then have "c # cs = [] @ m @ b \<and> Q m" by simp
      then show ?thesis by blast
    next
      case 2
      then have "c # cs = (c # a) @ m @ b \<and> Q m" by simp
      then show ?thesis by blast
    qed
  qed
  then show ?case using Cons.IH like_plain_prefix [OF assms, of "c # cs"] by auto
qed

lemma pages_prefix: "concat (map (\<lambda>k. page_of k len rows) [0..<n]) = take (n * len) rows"
proof (induction n)
  case (Suc n)
  have "take (Suc n * len) rows = take (n * len) rows @ take len (drop (n * len) rows)" by (subst take_add [symmetric]) (simp add: add.commute)
  then show ?case using Suc by (simp add: page_of_def)
qed simp

text \<open>
  The pages of a query of traces put together are the beginning of one list, and that list has exactly the traces that meet the
  conditions, each once, as they were stored: the session, the user and the environment equal, the name contains the given text in either case (when that
  has no wildcard characters), the start between the two times in the order of their texts.  The tags of the query play no role.
\<close>

theorem trace_query_exact:
  assumes "columns_ok X" and "sx_fault X = None" and "tq_page_size q = Some len" and "len \<le> 500"
    and "\<forall>v. tq_name q = Some v \<longrightarrow> CHR 37 \<notin> set v \<and> CHR 95 \<notin> set v"
    and "tdb_traces db = map (\<lambda>t. (sx_show_id X (trc_id t), trace_to_row X t)) ts"
  shows "\<exists>all. mset all = mset (map stored_trace (filter (\<lambda>t.
        opt_holds (\<lambda>v. trc_session_id t = Some v) (tq_session_id q) \<and> opt_holds (\<lambda>v. trc_user_id t = Some v) (tq_user_id q) \<and>
        opt_holds (\<lambda>v. trc_environment t = Some v) (tq_environment q) \<and>
        opt_holds (\<lambda>v. \<exists>a m b. trc_name t = a @ m @ b \<and> map ascii_lower m = map ascii_lower v) (tq_name q) \<and>
        opt_holds (\<lambda>s. sx_show_time X s \<le> sx_show_time X (trc_start_time t)) (tq_from q) \<and>
        opt_holds (\<lambda>s. sx_show_time X (trc_start_time t) \<le> sx_show_time X s) (tq_to q)) ts)) \<and>
     (\<forall>k. query_traces X (q\<lparr>tq_page := Some k\<rparr>) db = Ok \<lparr>pg_data = page_of k len all, pg_page = k, pg_size = len, pg_total = length all\<rparr>) \<and>
     (\<forall>n. concat (map (\<lambda>k. page_of k len all) [0..<n]) = take (n * len) all) \<and>
     query_traces X (q\<lparr>tq_tags := tags\<rparr>) db = query_traces X q db"
proof -
  let ?P = "trace_matches X q"
  let ?rows = "filter (\<lambda>(_, r). ?P r) (tdb_traces db)"
  define all where "all = map (\<lambda>(i, r). into_trace X i r) (sx_traces_order X ?rows)"
  note ok = columns_okD [OF assms(1)]
  have "mset all = mset (map (\<lambda>(i, r). into_trace X i r) ?rows)" by (simp only: all_def mset_map ok)
  also have "map (\<lambda>(i, r). into_trace X i r) ?rows = map stored_trace (filter (\<lambda>t. ?P (trace_to_row X t)) ts)"
    unfolding assms(6) by (induction ts) (simp_all add: trace_row_roundtrip [OF assms(1)])
  finally have mset: "mset all = mset (map stored_trace (filter (\<lambda>t. ?P (trace_to_row X t)) ts))" .
  have len: "length all = length ?rows" using mset_eq_length [OF ok(5)] by (simp add: all_def)
  have page: "map (\<lambda>(i, r). into_trace X i r) (page_of k len (sx_traces_order X ?rows)) = page_of k len all" for k
    by (simp add: page_of_def all_def take_map drop_map)
  have match: "trace_matches X (q\<lparr>tq_page := k\<rparr>) = ?P" "trace_matches X (q\<lparr>tq_tags := tags\<rparr>) = ?P" for k
    by (simp_all add: trace_matches_def fun_eq_iff)
  have "query_traces X (q\<lparr>tq_page := Some k\<rparr>) db = Ok \<lparr>pg_data = page_of k len all, pg_page = k, pg_size = len, pg_total = length all\<rparr>" for k
    using assms(2-4) by (simp add: query_traces_def ts_statement_def match page len Let_def)
  moreover have "query_traces X (q\<lparr>tq_tags := tags\<rparr>) db = query_traces X q db"
    by (simp add: query_traces_def match)
  moreover have "?P (trace_to_row X t) \<longleftrightarrow>
        opt_holds (\<lambda>v. trc_session_id t = Some v) (tq_session_id q) \<and> opt_holds (\<lambda>v. trc_user_id t = Some v) (tq_user_id q) \<and>
        opt_holds (\<lambda>v. trc_environment t = Some v) (tq_environment q) \<and>
        opt_holds (\<lambda>v. \<exists>a m b. trc_name t = a @ m @ b \<and> map ascii_lower m = map ascii_lower v) (tq_name q) \<and>
        opt_holds (\<lambda>s. sx_show_time X s \<le> sx_show_time X (trc_start_time t)) (tq_from q) \<and>
        opt_holds (\<lambda>s. sx_show_time X (trc_start_time t) \<le> sx_show_time X s) (tq_to q)" for t
    using assms(5) like_contains by (cases "tq_name q") (auto simp: trace_matches_def trace_to_row_def opt_holds_def)
  ultimately show ?thesis using mset pages_prefix [of len all] by (intro exI [of _ all]) simp
qed

section \<open>Percentiles\<close>

text \<open>
  C37: The summary never indexes outside the durations it sorted, whatever the number of completed traces, and the percentiles it
  reports are in order and, when a trace is completed, durations of completed traces.
\<close>

theorem summary_percentiles_safe:
  "\<exists>r. get_summary_stats X db = Some r \<and>
     (\<forall>st. r = Ok st \<longrightarrow> sm_p50 st \<le> sm_p95 st \<and> sm_p95 st \<le> sm_p99 st \<and>
       (trace_latencies X db \<noteq> [] \<longrightarrow> {sm_p50 st, sm_p95 st, sm_p99 st} \<subseteq> set (trace_latencies X db)))"
proof -
  let ?ds = "trace_latencies X db"
  have srt: "sorted ?ds" by (simp add: trace_latencies_def)
  have "\<exists>a b c. percentiles ?ds = Some (a, b, c) \<and> a \<le> b \<and> b \<le> c \<and> (?ds \<noteq> [] \<longrightarrow> {a, b, c} \<subseteq> set ?ds)"
  proof (cases "?ds = []")
    case False
    define n where "n = length ?ds"
    have n: "n > 0" using False by (simp add: n_def)
    have i: "n * 50 div 100 \<le> n * 95 div 100" "n * 95 div 100 \<le> min (n * 99 div 100) (n - 1)" "min (n * 99 div 100) (n - 1) < n"
      using n by (auto simp: div_le_mono less_mult_imp_div_less) 
    then have "percentiles ?ds = Some (?ds ! (n * 50 div 100), ?ds ! (n * 95 div 100), ?ds ! (min (n * 99 div 100) (n - 1)))"
      using False by (simp add: percentiles_def n_def Let_def)
    moreover have "?ds ! (n * 50 div 100) \<le> ?ds ! (n * 95 div 100)" "?ds ! (n * 95 div 100) \<le> ?ds ! (min (n * 99 div 100) (n - 1))"
      using i srt by (auto intro!: sorted_nth_mono simp: n_def)
    ultimately show ?thesis using i by (auto simp: n_def)
  qed (simp add: percentiles_def)
  then show ?thesis by (cases "ts_statement X ''count traces''") (auto simp: get_summary_stats_def)
qed

section \<open>Examples\<close>

instance json :: countable by countable_datatype

text \<open>A value as a text of that many letters.\<close>

definition tally :: "'a::countable \<Rightarrow> string" where
  "tally v = replicate (to_nat v) CHR 65"

definition example_context :: store_context where
  "example_context = \<lparr>sx_show_id = tally, sx_read_id = (\<lambda>s. Some (from_nat (length s))), sx_show_json = tally, sx_read_json = (\<lambda>s. Some (from_nat (length s))),
     sx_show_time = tally, sx_read_time = (\<lambda>s. Some (from_nat (length s))), sx_now = 0, sx_fault = None, sx_foreign_keys = True, sx_fk_error = ''foreign key'',
     sx_traces_order = id, sx_observations_order = id, sx_sessions_order = id, sx_latency = (\<lambda>s e. of_nat (length e)), sx_date = id\<rparr>"

lemma example_context_ok: "columns_ok example_context"
  by (simp add: columns_ok_def example_context_def tally_def)

definition example_trace :: trace where
  "example_trace = (trace_new 1 0 ''my graph'')\<lparr>trc_end_time := Some 5\<rparr>"

definition one_trace_db :: trace_db where
  "one_trace_db = trace_db_new\<lparr>tdb_traces := [(tally (1 :: nat), trace_to_row example_context example_trace)]\<rparr>"

definition example_query :: trace_query where
  "example_query = \<lparr>tq_session_id = None, tq_user_id = None, tq_name = Some ''graph'', tq_environment = None, tq_tags = [''x''], tq_from = None, tq_to = None,
     tq_page = None, tq_page_size = Some 10\<rparr>"

theorem trace_query_exact_witness:
  "query_traces example_context (example_query\<lparr>tq_page := Some 0\<rparr>) one_trace_db =
     Ok \<lparr>pg_data = [stored_trace example_trace], pg_page = 0, pg_size = 10, pg_total = 1\<rparr>"
proof -
  have plain: "\<forall>v. tq_name example_query = Some v \<longrightarrow> CHR 37 \<notin> set v \<and> CHR 95 \<notin> set v" and len: "tq_page_size example_query = Some 10" "(10::nat) \<le> 500"
    and alive: "sx_fault example_context = None"
    by (simp_all add: example_query_def example_context_def)
  have db: "tdb_traces one_trace_db = map (\<lambda>t. (sx_show_id example_context (trc_id t), trace_to_row example_context t)) [example_trace]"
    by (simp add: one_trace_db_def example_trace_def trace_new_def example_context_def)
  have name: "\<exists>a m b. trc_name example_trace = a @ m @ b \<and> map ascii_lower m = map ascii_lower ''graph''"
    by (rule exI [of _ "''my ''"], rule exI [of _ "''graph''"], rule exI [of _ "[]"])
      (simp add: example_trace_def trace_new_def ascii_lower_def)
  obtain all where "mset all = {#stored_trace example_trace#}"
    "query_traces example_context (example_query\<lparr>tq_page := Some 0\<rparr>) one_trace_db = Ok \<lparr>pg_data = page_of 0 10 all, pg_page = 0, pg_size = 10, pg_total = length all\<rparr>"
    using trace_query_exact [OF example_context_ok alive len plain db, of "[]"] name by (auto simp: example_query_def opt_holds_def)
  then show ?thesis by (auto simp: page_of_def)
qed

theorem summary_percentiles_safe_witness:
  "\<exists>st. get_summary_stats example_context one_trace_db = Some (Ok st) \<and> sm_p50 st \<le> sm_p95 st \<and> sm_p95 st \<le> sm_p99 st \<and> sm_total_traces st = 1"
proof -
  obtain st where "get_summary_stats example_context one_trace_db = Some (Ok st)" "sm_total_traces st = 1"
    by (simp add: get_summary_stats_def ts_statement_def example_context_def one_trace_db_def trace_db_new_def sum_fits_def present_def trace_to_row_def
        example_trace_def trace_new_def trace_latencies_def percentiles_def Let_def)
  then show ?thesis using summary_percentiles_safe [of example_context one_trace_db] by auto
qed

end
