(* ===== verification/Telemetry.thy ===== *)
theory Telemetry
  imports Trace_Store
begin

text \<open>
  Recording telemetry (\<open>juncture-telemetry/src/batch_writer.rs\<close>, \<open>collector.rs\<close>, \<open>langfuse.rs\<close>): the collector turns the life of traces and
  observations into items, the batch writer buffers them and writes them to a trace store in batches, and sends each batch to Langfuse when that is
  configured.  The writer is generic in its store: what it relies on is the locale \<open>trace_sink\<close>, interpreted on the SQLite store.
  Fresh identifiers and the clock are parameters; texts are ASCII; whether an export succeeds changes nothing and is left out.
\<close>

section \<open>The batch writer\<close>

datatype telemetry_item = ItemTrace trace | ItemObservation observation | ItemSession session

text \<open>The three writing methods of \<open>dyn TraceStore\<close> on a store \<open>'s\<close>.\<close>

record 's trace_writer =
  tw_trace :: "trace \<Rightarrow> 's \<Rightarrow> 's \<times> (trace_store_error, unit) result"
  tw_observation :: "observation \<Rightarrow> 's \<Rightarrow> 's \<times> (trace_store_error, unit) result"
  tw_session :: "session \<Rightarrow> 's \<Rightarrow> 's \<times> (trace_store_error, unit) result"

record 's batch_writer =
  bw_buffer :: "telemetry_item list"
  bw_store :: 's
  bw_langfuse :: bool
  bw_batch_size :: nat
  bw_shutdown :: bool
  bw_failures :: nat
  bw_exports :: "(trace \<times> observation list) list"

definition DEFAULT_BATCH_SIZE :: nat where
  "DEFAULT_BATCH_SIZE = 50"

text \<open>\<open>bw_failures\<close> is the number of items the log reports as failed, \<open>bw_exports\<close> what was sent to Langfuse.\<close>

definition writer_with_config :: "'s \<Rightarrow> bool \<Rightarrow> nat \<Rightarrow> 's batch_writer" where
  "writer_with_config s langfuse n = \<lparr>bw_buffer = [], bw_store = s, bw_langfuse = langfuse, bw_batch_size = n, bw_shutdown = False,
     bw_failures = 0, bw_exports = []\<rparr>"

definition writer_new :: "'s \<Rightarrow> 's batch_writer" where
  "writer_new s = writer_with_config s False DEFAULT_BATCH_SIZE"

fun partition_items :: "telemetry_item list \<Rightarrow> session list \<times> trace list \<times> observation list" where
  "partition_items [] = ([], [], [])"
| "partition_items (ItemSession s # batch) = (case partition_items batch of (ss, ts, os) \<Rightarrow> (s # ss, ts, os))"
| "partition_items (ItemTrace t # batch) = (case partition_items batch of (ss, ts, os) \<Rightarrow> (ss, t # ts, os))"
| "partition_items (ItemObservation ob # batch) = (case partition_items batch of (ss, ts, os) \<Rightarrow> (ss, ts, ob # os))"

text \<open>\<open>flush_sessions\<close>, \<open>flush_traces\<close> and \<open>flush_observations\<close> are this loop over their method; the number counts failed writes.\<close>

fun flush_items :: "('a \<Rightarrow> 's \<Rightarrow> 's \<times> (trace_store_error, unit) result) \<Rightarrow> 'a list \<Rightarrow> 's \<Rightarrow> 's \<times> nat" where
  "flush_items f [] s = (s, 0)"
| "flush_items f (x # xs) s = (case f x s of (s1, r) \<Rightarrow> (case flush_items f xs s1 of (s2, n) \<Rightarrow> (s2, (case r of Inl _ \<Rightarrow> Suc n | Inr _ \<Rightarrow> n))))"

definition langfuse_exports :: "trace list \<Rightarrow> observation list \<Rightarrow> (trace \<times> observation list) list" where
  "langfuse_exports ts os = map (\<lambda>t. (t, filter (\<lambda>ob. ob_trace_id ob = trc_id t) os)) ts"

definition flush_batch :: "'s trace_writer \<Rightarrow> telemetry_item list \<Rightarrow> 's batch_writer \<Rightarrow> 's batch_writer" where
  "flush_batch W batch w = (case partition_items batch of (ss, ts, os) \<Rightarrow>
     (case flush_items (tw_session W) ss (bw_store w) of (s1, n1) \<Rightarrow>
     (case flush_items (tw_trace W) ts s1 of (s2, n2) \<Rightarrow>
     (case flush_items (tw_observation W) os s2 of (s3, n3) \<Rightarrow>
       w\<lparr>bw_store := s3, bw_failures := bw_failures w + n1 + n2 + n3,
         bw_exports := bw_exports w @ (if bw_langfuse w then langfuse_exports ts os else [])\<rparr>))))"

definition submit :: "'s trace_writer \<Rightarrow> telemetry_item \<Rightarrow> 's batch_writer \<Rightarrow> 's batch_writer \<times> (trace_store_error, unit) result" where
  "submit W item w = (let buffer = bw_buffer w @ [item] in
     if length buffer \<ge> bw_batch_size w then (flush_batch W buffer (w\<lparr>bw_buffer := []\<rparr>), Ok ())
     else (w\<lparr>bw_buffer := buffer\<rparr>, Ok ()))"

definition submit_trace :: "'s trace_writer \<Rightarrow> trace \<Rightarrow> 's batch_writer \<Rightarrow> 's batch_writer \<times> (trace_store_error, unit) result" where
  "submit_trace W t w = submit W (ItemTrace t) w"

definition submit_observation :: "'s trace_writer \<Rightarrow> observation \<Rightarrow> 's batch_writer \<Rightarrow> 's batch_writer \<times> (trace_store_error, unit) result" where
  "submit_observation W ob w = submit W (ItemObservation ob) w"

definition submit_session :: "'s trace_writer \<Rightarrow> session \<Rightarrow> 's batch_writer \<Rightarrow> 's batch_writer \<times> (trace_store_error, unit) result" where
  "submit_session W s w = submit W (ItemSession s) w"

definition writer_flush :: "'s trace_writer \<Rightarrow> 's batch_writer \<Rightarrow> 's batch_writer \<times> (trace_store_error, unit) result" where
  "writer_flush W w = (if bw_buffer w = [] then (w, Ok ()) else (flush_batch W (bw_buffer w) (w\<lparr>bw_buffer := []\<rparr>), Ok ()))"

text \<open>One tick of the background task; the flag tells whether the task goes on.\<close>

definition background_tick :: "'s trace_writer \<Rightarrow> 's batch_writer \<Rightarrow> 's batch_writer \<times> bool" where
  "background_tick W w = (fst (writer_flush W w), \<not> bw_shutdown w)"

definition writer_shutdown :: "'s trace_writer \<Rightarrow> 's batch_writer \<Rightarrow> 's batch_writer \<times> (trace_store_error, unit) result" where
  "writer_shutdown W w = writer_flush W (w\<lparr>bw_shutdown := True\<rparr>)"

section \<open>Langfuse\<close>

record langfuse_config =
  lf_public_key :: string
  lf_secret_key :: string
  lf_base_url :: string

datatype langfuse_export_error = LfNetwork string | LfHttp nat string | LfErrors string

definition json_opt :: "('a \<Rightarrow> json) \<Rightarrow> 'a option \<Rightarrow> json" where
  "json_opt f v = (case v of Some x \<Rightarrow> f x | None \<Rightarrow> JNull)"

definition build_trace_item :: "store_context \<Rightarrow> string \<Rightarrow> trace \<Rightarrow> json" where
  "build_trace_item X now t = JObj [(''id'', JStr (''juncture-trace-'' @ sx_show_id X (trc_id t))), (''type'', JStr ''trace-create''), (''timestamp'', JStr now),
     (''body'', JObj [(''id'', JStr (sx_show_id X (trc_id t))), (''name'', JStr (trc_name t)), (''sessionId'', json_opt JStr (trc_session_id t)),
       (''userId'', json_opt JStr (trc_user_id t)), (''tags'', JArr (map JStr (trc_tags t))), (''metadata'', trc_metadata t),
       (''input'', json_opt id (trc_input t)), (''output'', json_opt id (trc_output t))])]"

definition build_obs_item :: "store_context \<Rightarrow> string \<Rightarrow> observation \<Rightarrow> json" where
  "build_obs_item X now ob = (let
     body = [(''id'', JStr (sx_show_id X (ob_id ob))), (''traceId'', JStr (sx_show_id X (ob_trace_id ob))), (''name'', JStr (ob_name ob)),
       (''startTime'', JStr (sx_show_time X (ob_start_time ob))), (''endTime'', json_opt (JStr \<circ> sx_show_time X) (ob_end_time ob)),
       (''input'', json_opt id (ob_input ob)), (''output'', json_opt id (ob_output ob)), (''metadata'', ob_metadata ob), (''level'', JStr (level_text (ob_level ob)))]
       @ (case ob_model ob of Some m \<Rightarrow> [(''model'', JStr m)] | None \<Rightarrow> [])
       @ (case ob_usage ob of Some u \<Rightarrow> [(''usageDetails'', JObj [(''input'', JNum (cu_input u)), (''output'', JNum (cu_output u)), (''total'', JNum (cu_total u))])] | None \<Rightarrow> [])
       @ (case ob_cost ob of Some c \<Rightarrow> [(''costDetails'', JObj [(''total'', JFlt c)])] | None \<Rightarrow> [])
       @ (case ob_parent ob of Some p \<Rightarrow> [(''parentObservationId'', JStr (sx_show_id X p))] | None \<Rightarrow> [])
     in JObj [(''id'', JStr (''juncture-obs-'' @ sx_show_id X (ob_id ob))),
       (''type'', JStr (if ob_type ob = ObsGeneration then ''generation-create'' else ''span-create'')), (''timestamp'', JStr now), (''body'', JObj body)])"

definition export_batch :: "store_context \<Rightarrow> string \<Rightarrow> trace \<Rightarrow> observation list \<Rightarrow> json" where
  "export_batch X now t os = JObj [(''batch'', JArr (build_trace_item X now t # map (build_obs_item X now) os))]"

text \<open>The answer of the server: no connection, or a status with a body, which may not be JSON.\<close>

definition send_batch :: "(json \<Rightarrow> string) \<Rightarrow> (string, nat \<times> (string, json) result) result \<Rightarrow> (langfuse_export_error, unit) result" where
  "send_batch render reply = (case reply of
       Inl e \<Rightarrow> Err (LfNetwork e)
     | Inr (_, Inl e) \<Rightarrow> Err (LfNetwork e)
     | Inr (status, Inr body) \<Rightarrow>
         if \<not> (200 \<le> status \<and> status < 300) then Err (LfHttp status (render body))
         else (case Option.bind (json_member ''errors'' body) as_array of
             Some (e # es) \<Rightarrow> Err (LfErrors (join_with ''; '' (List.map_filter (\<lambda>v. Option.bind (json_member ''message'' v) as_str) (e # es))))
           | _ \<Rightarrow> Ok ()))"

section \<open>The collector\<close>

record capture_config =
  cc_max_prompt_chars :: nat
  cc_max_response_chars :: nat
  cc_capture_full_messages :: bool
  cc_capture_tool_io :: bool
  cc_sensitive_keys :: "string list"

definition capture_config_default :: capture_config where
  "capture_config_default = \<lparr>cc_max_prompt_chars = 10000, cc_max_response_chars = 10000, cc_capture_full_messages = True, cc_capture_tool_io = True,
     cc_sensitive_keys = [''authorization'', ''api_key'', ''api-key'', ''password'', ''secret'', ''token'']\<rparr>"

definition truncate_text :: "string \<Rightarrow> nat \<Rightarrow> string" where
  "truncate_text content max_chars = (if length content \<le> max_chars then content
     else take max_chars content @ CHR 10 # ''... [truncated at '' @ nat_to_string max_chars @ '' chars]'')"

record 's collector =
  cl_writer :: "'s batch_writer"
  cl_capture :: capture_config

definition collector_new :: "'s \<Rightarrow> 's collector" where
  "collector_new s = \<lparr>cl_writer = writer_new s, cl_capture = capture_config_default\<rparr>"

definition collector_with_langfuse :: "'s \<Rightarrow> capture_config \<Rightarrow> 's collector" where
  "collector_with_langfuse s cfg = \<lparr>cl_writer = writer_with_config s True 50, cl_capture = cfg\<rparr>"

definition collector_with_capture_config :: "'s \<Rightarrow> capture_config \<Rightarrow> 's collector" where
  "collector_with_capture_config s cfg = \<lparr>cl_writer = writer_new s, cl_capture = cfg\<rparr>"

definition collector_from_parts :: "'s batch_writer \<Rightarrow> capture_config \<Rightarrow> 's collector" where
  "collector_from_parts w cfg = \<lparr>cl_writer = w, cl_capture = cfg\<rparr>"

definition on_writer :: "('s batch_writer \<Rightarrow> 's batch_writer \<times> 'r) \<Rightarrow> 's collector \<Rightarrow> 's collector \<times> 'r" where
  "on_writer f c = (case f (cl_writer c) of (w, r) \<Rightarrow> (c\<lparr>cl_writer := w\<rparr>, r))"

definition begin_trace :: "'s trace_writer \<Rightarrow> trace_id \<Rightarrow> instant \<Rightarrow> string \<Rightarrow> string option \<Rightarrow> 's collector \<Rightarrow> 's collector \<times> (trace_store_error, trace) result" where
  "begin_trace W i now graph_name session_id c = (let t = (trace_new i now graph_name)\<lparr>trc_session_id := session_id\<rparr> in
     apsnd (map_sum id (\<lambda>_. t)) (on_writer (submit_trace W t) c))"

definition end_trace :: "'s trace_writer \<Rightarrow> instant \<Rightarrow> trace \<Rightarrow> json option \<Rightarrow> rat option \<Rightarrow> nat option \<Rightarrow> 's collector \<Rightarrow> 's collector \<times> (trace_store_error, unit) result" where
  "end_trace W now t output total_cost total_tokens c = on_writer (submit_trace W (trace_complete now output total_cost total_tokens t)) c"

definition track_session :: "'s trace_writer \<Rightarrow> instant \<Rightarrow> string \<Rightarrow> string option \<Rightarrow> 's collector \<Rightarrow> 's collector \<times> (trace_store_error, unit) result" where
  "track_session W now thread_id user_id c = on_writer (submit_session W ((session_new now thread_id)\<lparr>ssn_user_id := user_id\<rparr>)) c"

definition begin_llm_call :: "(json \<Rightarrow> string) \<Rightarrow> trace_id \<Rightarrow> instant \<Rightarrow> trace_id \<Rightarrow> trace_id option \<Rightarrow> string \<Rightarrow> json option \<Rightarrow> 's collector \<Rightarrow> observation" where
  "begin_llm_call render i now tid parent model prompt c = (let ob = (obs_generation i now tid ''llm_call'' model)\<lparr>ob_parent := parent\<rparr> in
     (case (cc_capture_full_messages (cl_capture c), prompt) of
        (True, Some p) \<Rightarrow> ob\<lparr>ob_input := Some (JStr (truncate_text (render p) (cc_max_prompt_chars (cl_capture c))))\<rparr>
      | _ \<Rightarrow> ob))"

definition end_llm_call :: "'s trace_writer \<Rightarrow> instant \<Rightarrow> observation \<Rightarrow> string option \<Rightarrow> call_usage option \<Rightarrow> rat option \<Rightarrow> 's collector \<Rightarrow> 's collector \<times> (trace_store_error, unit) result" where
  "end_llm_call W now ob response usage cost c = (let
     ob1 = (case response of Some r \<Rightarrow> ob\<lparr>ob_output := Some (JStr (truncate_text r (cc_max_response_chars (cl_capture c))))\<rparr> | None \<Rightarrow> ob);
     ob2 = ob1\<lparr>ob_usage := usage, ob_cost := cost\<rparr>
     in on_writer (submit_observation W (obs_complete now (ob_output ob2) ob2)) c)"

definition begin_tool_call :: "trace_id \<Rightarrow> instant \<Rightarrow> trace_id \<Rightarrow> trace_id option \<Rightarrow> string \<Rightarrow> json option \<Rightarrow> 's collector \<Rightarrow> observation" where
  "begin_tool_call i now tid parent tool_name input c = (let ob = (obs_tool_call i now tid tool_name)\<lparr>ob_parent := parent\<rparr> in
     if cc_capture_tool_io (cl_capture c) then ob\<lparr>ob_input := input\<rparr> else ob)"

definition end_tool_call :: "'s trace_writer \<Rightarrow> instant \<Rightarrow> observation \<Rightarrow> json option \<Rightarrow> 's collector \<Rightarrow> 's collector \<times> (trace_store_error, unit) result" where
  "end_tool_call W now ob output c = (let ob1 = (if cc_capture_tool_io (cl_capture c) then ob\<lparr>ob_output := output\<rparr> else ob) in
     on_writer (submit_observation W (obs_complete now (ob_output ob1) ob1)) c)"

definition begin_span :: "trace_id \<Rightarrow> instant \<Rightarrow> trace_id \<Rightarrow> trace_id option \<Rightarrow> string \<Rightarrow> observation" where
  "begin_span i now tid parent n = (obs_span i now tid n)\<lparr>ob_parent := parent\<rparr>"

definition end_span :: "'s trace_writer \<Rightarrow> instant \<Rightarrow> observation \<Rightarrow> json option \<Rightarrow> 's collector \<Rightarrow> 's collector \<times> (trace_store_error, unit) result" where
  "end_span W now ob output c = on_writer (submit_observation W (obs_complete now output ob)) c"

definition fail_span :: "'s trace_writer \<Rightarrow> instant \<Rightarrow> observation \<Rightarrow> string \<Rightarrow> 's collector \<Rightarrow> 's collector \<times> (trace_store_error, unit) result" where
  "fail_span W now ob e c = on_writer (submit_observation W (obs_fail now e ob)) c"

definition collector_flush :: "'s trace_writer \<Rightarrow> 's collector \<Rightarrow> 's collector \<times> (trace_store_error, unit) result" where
  "collector_flush W c = on_writer (writer_flush W) c"

definition collector_shutdown :: "'s trace_writer \<Rightarrow> 's collector \<Rightarrow> 's collector \<times> (trace_store_error, unit) result" where
  "collector_shutdown W c = on_writer (writer_shutdown W) c"

section \<open>What the writer relies on\<close>

definition put_item :: "'s trace_writer \<Rightarrow> telemetry_item \<Rightarrow> 's \<Rightarrow> 's" where
  "put_item W item s = (case item of ItemTrace t \<Rightarrow> fst (tw_trace W t s) | ItemObservation ob \<Rightarrow> fst (tw_observation W ob s) | ItemSession x \<Rightarrow> fst (tw_session W x s))"

definition put_result :: "'s trace_writer \<Rightarrow> telemetry_item \<Rightarrow> 's \<Rightarrow> (trace_store_error, unit) result" where
  "put_result W item s = (case item of ItemTrace t \<Rightarrow> snd (tw_trace W t s) | ItemObservation ob \<Rightarrow> snd (tw_observation W ob s) | ItemSession x \<Rightarrow> snd (tw_session W x s))"

text \<open>Every observation comes after its trace, or that trace is among the known ones.\<close>

fun traces_first :: "(trace_id \<Rightarrow> bool) \<Rightarrow> telemetry_item list \<Rightarrow> bool" where
  "traces_first k [] = True"
| "traces_first k (ItemTrace t # items) = traces_first (\<lambda>i. k i \<or> i = trc_id t) items"
| "traces_first k (ItemObservation ob # items) = (k (ob_trace_id ob) \<and> traces_first k items)"
| "traces_first k (ItemSession x # items) = traces_first k items"

definition trace_ids :: "telemetry_item list \<Rightarrow> trace_id set" where
  "trace_ids items = {trc_id t | t. ItemTrace t \<in> set items}"

lemma trace_ids_simps [simp]:
  "trace_ids [] = {}" "trace_ids (ItemTrace t # items) = insert (trc_id t) (trace_ids items)"
  "trace_ids (ItemObservation ob # items) = trace_ids items" "trace_ids (ItemSession x # items) = trace_ids items"
  by (auto simp: trace_ids_def)

lemma traces_first_append:
  "traces_first k (xs @ ys) \<longleftrightarrow> traces_first k xs \<and> traces_first (\<lambda>i. k i \<or> i \<in> trace_ids xs) ys"
  by (induction k xs rule: traces_first.induct) (simp_all add: disj_assoc)

lemma traces_first_mono: "traces_first k items \<Longrightarrow> (\<And>i. k i \<Longrightarrow> k' i) \<Longrightarrow> traces_first k' items"
proof (induction k items arbitrary: k' rule: traces_first.induct)
  case (2 k t items)
  show ?case using "2.prems" "2.IH" [of "\<lambda>i. k' i \<or> i = trc_id t"] by auto
qed simp_all

lemma flush_items_fst: "fst (flush_items f xs s) = fold (\<lambda>x s. fst (f x s)) xs s"
  by (induction xs arbitrary: s) (simp_all add: case_prod_beta)

lemma flush_items_snd: "snd (flush_items f xs s) = 0 \<longleftrightarrow> (\<forall>k < length xs. snd (f (xs ! k) (fold (\<lambda>x s. fst (f x s)) (take k xs) s)) = Ok ())"
proof (induction xs arbitrary: s)
  case (Cons x xs)
  have "(\<forall>k < length (x # xs). P k) \<longleftrightarrow> P 0 \<and> (\<forall>k < length xs. P (Suc k))" for P by (auto simp: less_Suc_eq_0_disj)
  then show ?case using Cons.IH [of "fst (f x s)"] by (cases "snd (f x s)") (simp_all add: case_prod_beta)
qed simp

text \<open>
  A store the writer can write to in batches: sessions and traces are always accepted, observations of a known trace too, and writes of different
  kinds do not interfere.
\<close>

locale trace_sink =
  fixes W :: "'s trace_writer"
    and known :: "'s \<Rightarrow> trace_id \<Rightarrow> bool"
  assumes session_ok: "snd (tw_session W x s) = Ok ()"
    and trace_ok: "snd (tw_trace W t s) = Ok ()"
    and observation_ok: "known s (ob_trace_id ob) \<Longrightarrow> snd (tw_observation W ob s) = Ok ()"
    and known_session: "known s i \<Longrightarrow> known (fst (tw_session W x s)) i"
    and known_trace: "known s i \<or> i = trc_id t \<Longrightarrow> known (fst (tw_trace W t s)) i"
    and known_observation: "known (fst (tw_observation W ob s)) i \<longleftrightarrow> known s i"
    and session_trace: "fst (tw_trace W t (fst (tw_session W x s))) = fst (tw_session W x (fst (tw_trace W t s)))"
    and session_observation: "fst (tw_observation W ob (fst (tw_session W x s))) = fst (tw_session W x (fst (tw_observation W ob s)))"
    and trace_observation: "known s (ob_trace_id ob) \<Longrightarrow>
      fst (tw_observation W ob (fst (tw_trace W t s))) = fst (tw_trace W t (fst (tw_observation W ob s)))"
begin

abbreviation put_sessions :: "session list \<Rightarrow> 's \<Rightarrow> 's" where
  "put_sessions \<equiv> fold (\<lambda>x s. fst (tw_session W x s))"

abbreviation put_traces :: "trace list \<Rightarrow> 's \<Rightarrow> 's" where
  "put_traces \<equiv> fold (\<lambda>t s. fst (tw_trace W t s))"

abbreviation put_observations :: "observation list \<Rightarrow> 's \<Rightarrow> 's" where
  "put_observations \<equiv> fold (\<lambda>ob s. fst (tw_observation W ob s))"

lemma known_sessions: "known s i \<Longrightarrow> known (put_sessions xs s) i"
  by (induction xs arbitrary: s) (simp_all add: known_session)

lemma known_traces: "known s i \<Longrightarrow> known (put_traces ts s) i"
  by (induction ts arbitrary: s) (simp_all add: known_trace)

lemma known_observations: "known s i \<Longrightarrow> known (put_observations os s) i"
  by (induction os arbitrary: s) (simp_all add: known_observation)

lemma known_put: "known s i \<or> i \<in> trace_ids items \<Longrightarrow> known (fold (put_item W) items s) i"
proof (induction items arbitrary: s)
  case (Cons x items)
  then show ?case by (cases x) (auto simp: put_item_def known_session known_trace known_observation)
qed simp

lemma trace_past_sessions: "fst (tw_trace W t (put_sessions xs s)) = put_sessions xs (fst (tw_trace W t s))"
  by (induction xs arbitrary: s) (simp_all add: session_trace)

lemma observation_past_sessions: "fst (tw_observation W ob (put_sessions xs s)) = put_sessions xs (fst (tw_observation W ob s))"
  by (induction xs arbitrary: s) (simp_all add: session_observation)

lemma observation_past_traces:
  "known s (ob_trace_id ob) \<Longrightarrow> fst (tw_observation W ob (put_traces ts s)) = put_traces ts (fst (tw_observation W ob s))"
  by (induction ts arbitrary: s) (simp_all add: trace_observation known_trace)

lemma batch_is_direct:
  assumes "traces_first (known s) batch" "partition_items batch = (ss, ts, os)"
  shows "put_observations os (put_traces ts (put_sessions ss s)) = fold (put_item W) batch s \<and>
     (\<forall>ob \<in> set os. known (put_traces ts (put_sessions ss s)) (ob_trace_id ob))"
  using assms
proof (induction batch arbitrary: s ss ts os)
  case (Cons x batch)
  obtain ss' ts' os' where rest: "partition_items batch = (ss', ts', os')" by (metis prod_cases3)
  show ?case
  proof (cases x)
    case (ItemSession y)
    have "traces_first (known (fst (tw_session W y s))) batch" using Cons.prems(1) by (auto simp: ItemSession intro: traces_first_mono known_session)
    from Cons.IH [OF this rest] show ?thesis using Cons.prems(2) rest by (auto simp: ItemSession put_item_def)
  next
    case (ItemTrace t)
    have "traces_first (known (fst (tw_trace W t s))) batch" using Cons.prems(1) by (auto simp: ItemTrace intro: traces_first_mono known_trace)
    from Cons.IH [OF this rest] show ?thesis using Cons.prems(2) rest by (auto simp: ItemTrace put_item_def trace_past_sessions)
  next
    case (ItemObservation ob)
    have k: "known s (ob_trace_id ob)" and "traces_first (known (fst (tw_observation W ob s))) batch"
      using Cons.prems(1) by (auto simp: ItemObservation intro: traces_first_mono simp: known_observation)
    have past: "put_traces ts' (put_sessions ss' (fst (tw_observation W ob s))) = fst (tw_observation W ob (put_traces ts' (put_sessions ss' s)))"
      using k by (simp add: observation_past_sessions [symmetric] observation_past_traces known_sessions)
    from Cons.IH [OF \<open>traces_first (known (fst (tw_observation W ob s))) batch\<close> rest, unfolded past known_observation] show ?thesis
      using Cons.prems(2) rest k by (auto simp: ItemObservation put_item_def known_sessions known_traces)
  qed
qed simp

lemma flush_batch_direct:
  assumes "traces_first (known (bw_store w)) batch"
  shows "bw_store (flush_batch W batch w) = fold (put_item W) batch (bw_store w) \<and> bw_failures (flush_batch W batch w) = bw_failures w"
proof -
  obtain ss ts os where parts: "partition_items batch = (ss, ts, os)" by (metis prod_cases3)
  let ?s1 = "put_sessions ss (bw_store w)"
  let ?s2 = "put_traces ts ?s1"
  note direct = batch_is_direct [OF assms parts]
  have "snd (flush_items (tw_session W) ss (bw_store w)) = 0" "snd (flush_items (tw_trace W) ts ?s1) = 0"
    by (simp_all add: flush_items_snd session_ok trace_ok)
  moreover have "snd (flush_items (tw_observation W) os ?s2) = 0"
    using direct by (simp add: flush_items_snd observation_ok known_observations)
  ultimately have "flush_items (tw_session W) ss (bw_store w) = (?s1, 0)" "flush_items (tw_trace W) ts ?s1 = (?s2, 0)"
    "flush_items (tw_observation W) os ?s2 = (put_observations os ?s2, 0)"
    by (simp_all add: prod_eq_iff flush_items_fst)
  then show ?thesis using direct by (simp add: flush_batch_def parts)
qed

end

text \<open>The SQLite store, while its database answers, is such a store.\<close>

definition sqlite_writer :: "store_context \<Rightarrow> trace_db trace_writer" where
  "sqlite_writer X = \<lparr>tw_trace = upsert_trace X, tw_observation = insert_observation X, tw_session = upsert_session X\<rparr>"

definition answering :: "store_context \<Rightarrow> store_context" where
  "answering X = X\<lparr>sx_fault := None\<rparr>"

definition accepts_trace :: "store_context \<Rightarrow> trace_db \<Rightarrow> trace_id \<Rightarrow> bool" where
  "accepts_trace X db i \<longleftrightarrow> \<not> sx_foreign_keys X \<or> im_contains (tdb_traces db) (sx_show_id X i)"

interpretation sqlite: trace_sink "sqlite_writer (answering X)" "accepts_trace X" for X
  by unfold_locales
    (auto simp: sqlite_writer_def answering_def accepts_trace_def upsert_trace_def upsert_session_def insert_observation_def ts_statement_def)

section \<open>Runs of the writer\<close>

datatype writer_event = WSubmit telemetry_item | WFlush | WTick | WShutdown

fun writer_step :: "'s trace_writer \<Rightarrow> writer_event \<Rightarrow> 's batch_writer \<Rightarrow> 's batch_writer" where
  "writer_step W (WSubmit item) w = fst (submit W item w)"
| "writer_step W WFlush w = fst (writer_flush W w)"
| "writer_step W WTick w = fst (background_tick W w)"
| "writer_step W WShutdown w = fst (writer_shutdown W w)"

fun submitted :: "writer_event list \<Rightarrow> telemetry_item list" where
  "submitted [] = []"
| "submitted (WSubmit item # es) = item # submitted es"
| "submitted (_ # es) = submitted es"

lemma submitted_flush: "submitted (es @ [WFlush]) = submitted es"
  by (induction es rule: submitted.induct) simp_all

lemma flush_batch_frame [simp]:
  "bw_buffer (flush_batch W batch w) = bw_buffer w" "bw_batch_size (flush_batch W batch w) = bw_batch_size w"
  by (simp_all add: flush_batch_def split: prod.split)

lemma writer_flush_frame [simp]: "bw_buffer (fst (writer_flush W w)) = []" "bw_batch_size (fst (writer_flush W w)) = bw_batch_size w"
  by (simp_all add: writer_flush_def)

lemma writer_step_size [simp]: "bw_batch_size (writer_step W e w) = bw_batch_size w"
  by (cases e) (simp_all add: submit_def background_tick_def writer_shutdown_def Let_def)

lemma writer_run_size [simp]: "bw_batch_size (fold (writer_step W) es w) = bw_batch_size w"
  by (induction es arbitrary: w) simp_all

text \<open>The buffer stays below the size of a batch.\<close>

interpretation buffer: transition_system "\<lambda>w. bw_buffer w = [] \<and> 0 < bw_batch_size w" "writer_step W" "\<lambda>w. length (bw_buffer w) < bw_batch_size w" for W :: "'s trace_writer"
proof
  fix w :: "'s batch_writer" and e
  assume "length (bw_buffer w) < bw_batch_size w"
  then show "length (bw_buffer (writer_step W e w)) < bw_batch_size (writer_step W e w)"
    by (cases e) (auto simp: submit_def background_tick_def writer_shutdown_def Let_def)
qed simp

context trace_sink
begin

lemma writer_flush_direct:
  assumes "traces_first (known (bw_store w)) (bw_buffer w)"
  shows "bw_store (fst (writer_flush W w)) = fold (put_item W) (bw_buffer w) (bw_store w) \<and> bw_failures (fst (writer_flush W w)) = bw_failures w"
  using flush_batch_direct [of "w\<lparr>bw_buffer := []\<rparr>" "bw_buffer w"] assms by (simp add: writer_flush_def)

lemma step_direct:
  assumes "traces_first (known (bw_store w)) (bw_buffer w @ submitted [e])"
  shows "fold (put_item W) (bw_buffer (writer_step W e w)) (bw_store (writer_step W e w)) = fold (put_item W) (bw_buffer w @ submitted [e]) (bw_store w) \<and>
    bw_failures (writer_step W e w) = bw_failures w"
proof (cases e)
  case (WSubmit item)
  then show ?thesis
    using flush_batch_direct [of "w\<lparr>bw_buffer := []\<rparr>" "bw_buffer w @ [item]"] assms by (auto simp: submit_def Let_def)
qed (use writer_flush_direct [of w] writer_flush_direct [of "w\<lparr>bw_shutdown := True\<rparr>"] assms in
    \<open>simp_all add: background_tick_def writer_shutdown_def\<close>)

lemma step_ready:
  assumes "traces_first (known (bw_store w)) (bw_buffer w @ submitted [e] @ rest)"
  shows "traces_first (known (bw_store (writer_step W e w))) (bw_buffer (writer_step W e w) @ rest)"
proof -
  let ?w = "writer_step W e w" and ?items = "bw_buffer w @ submitted [e]"
  have ready: "traces_first (known (bw_store w)) ?items" and later: "traces_first (\<lambda>i. known (bw_store w) i \<or> i \<in> trace_ids ?items) rest"
    using assms unfolding append_assoc [symmetric] traces_first_append [of _ ?items rest] by simp_all
  show ?thesis
  proof (cases "bw_buffer ?w = []")
    case True
    then have "bw_store ?w = fold (put_item W) ?items (bw_store w)" using step_direct [OF ready] by simp
    then show ?thesis using True traces_first_mono [OF later] known_put [of "bw_store w" _ ?items] by simp
  next
    case False
    then have "bw_buffer ?w = ?items" "bw_store ?w = bw_store w"
      by (cases e; auto simp: submit_def background_tick_def writer_shutdown_def Let_def split: if_splits)+
    then show ?thesis using assms by simp
  qed
qed

lemma run_direct:
  "traces_first (known (bw_store w)) (bw_buffer w @ submitted es) \<Longrightarrow>
     fold (put_item W) (bw_buffer (fold (writer_step W) es w)) (bw_store (fold (writer_step W) es w)) = fold (put_item W) (bw_buffer w @ submitted es) (bw_store w) \<and>
     bw_failures (fold (writer_step W) es w) = bw_failures w"
proof (induction es arbitrary: w)
  case (Cons e es)
  let ?w = "writer_step W e w"
  have split: "submitted (e # es) = submitted [e] @ submitted es" by (cases e) simp_all
  have ready: "traces_first (known (bw_store w)) (bw_buffer w @ submitted [e])"
    using Cons.prems by (simp add: split traces_first_append)
  have "traces_first (known (bw_store ?w)) (bw_buffer ?w @ submitted es)"
    using step_ready Cons.prems by (simp add: split)
  from Cons.IH [OF this] step_direct [OF ready] show ?case by (simp add: split)
qed simp

end


definition example_observation :: observation where
  "example_observation = obs_span 2 1 1 ''step''"


section \<open>Reading the database after a run\<close>

definition latest_trace :: "telemetry_item list \<Rightarrow> trace_id \<Rightarrow> trace option" where
  "latest_trace items i = fold (\<lambda>x r. case x of ItemTrace t \<Rightarrow> (if trc_id t = i then Some t else r) | _ \<Rightarrow> r) items None"

definition latest_observation :: "telemetry_item list \<Rightarrow> trace_id \<Rightarrow> observation option" where
  "latest_observation items i = fold (\<lambda>x r. case x of ItemObservation ob \<Rightarrow> (if ob_id ob = i then Some ob else r) | _ \<Rightarrow> r) items None"

lemma latest_simps [simp]:
  "latest_trace [] i = None" "latest_trace (items @ [ItemTrace t]) i = (if trc_id t = i then Some t else latest_trace items i)"
  "latest_trace (items @ [ItemObservation ob]) i = latest_trace items i" "latest_trace (items @ [ItemSession x]) i = latest_trace items i"
  "latest_observation [] i = None" "latest_observation (items @ [ItemObservation ob]) i = (if ob_id ob = i then Some ob else latest_observation items i)"
  "latest_observation (items @ [ItemTrace t]) i = latest_observation items i" "latest_observation (items @ [ItemSession x]) i = latest_observation items i"
  by (simp_all add: latest_trace_def latest_observation_def)

lemma latest_observation_id: "latest_observation items i = Some ob \<Longrightarrow> ob_id ob = i"
proof (induction items rule: rev_induct)
  case (snoc x items)
  then show ?case by (cases x) (auto split: if_splits)
qed simp

lemma latest_trace_id: "latest_trace items i = Some t \<Longrightarrow> trc_id t = i"
proof (induction items rule: rev_induct)
  case (snoc x items)
  then show ?case by (cases x) (auto split: if_splits)
qed simp

definition written :: "store_context \<Rightarrow> telemetry_item list \<Rightarrow> trace_db" where
  "written X items = fold (put_item (sqlite_writer (answering X))) items trace_db_new"

lemma show_id_inj: "columns_ok X \<Longrightarrow> sx_show_id X i = sx_show_id X j \<longleftrightarrow> i = j"
  by (metis columns_okD(1) option.inject)

lemma written_snoc: "written X (items @ [x]) = put_item (sqlite_writer (answering X)) x (written X items)"
  by (simp add: written_def)

lemma written_traces:
  assumes "columns_ok X"
  shows "im_get (tdb_traces (written X items)) (sx_show_id X i) = map_option (trace_to_row X) (latest_trace items i)"
proof (induction items rule: rev_induct)
  case (snoc x items)
  then show ?case
    by (cases x) (simp_all add: written_snoc put_item_def sqlite_writer_def answering_def upsert_trace_def insert_observation_def upsert_session_def
        ts_statement_def trace_to_row_def show_id_inj [OF assms] eq_commute)
qed (simp add: written_def trace_db_new_def)

lemma accepts_latest: "traces_first (\<lambda>_. False) (items @ [ItemObservation ob]) \<Longrightarrow> accepts_trace X (written X items) (ob_trace_id ob)"
  using sqlite.known_put [of X trace_db_new "ob_trace_id ob" items] by (simp add: traces_first_append written_def)

lemma written_observation:
  assumes "traces_first (\<lambda>_. False) (items @ [ItemObservation ob])"
  shows "tdb_observations (written X (items @ [ItemObservation ob])) =
    im_insert (sx_show_id X (ob_id ob)) (observation_to_row X ob) (tdb_observations (written X items))"
  using accepts_latest [OF assms, of X]
  by (auto simp: written_snoc put_item_def sqlite_writer_def answering_def insert_observation_def ts_statement_def accepts_trace_def observation_to_row_def)

lemma written_other: "tdb_observations (written X (items @ [ItemTrace t])) = tdb_observations (written X items)"
    "tdb_observations (written X (items @ [ItemSession x])) = tdb_observations (written X items)"
  by (simp_all add: written_snoc put_item_def sqlite_writer_def answering_def upsert_trace_def upsert_session_def ts_statement_def)

lemma written_observations:
  assumes "columns_ok X"
  shows "traces_first (\<lambda>_. False) items \<Longrightarrow>
    (\<forall>i. im_get (tdb_observations (written X items)) (sx_show_id X i) = map_option (observation_to_row X) (latest_observation items i)) \<and>
    set (im_keys (tdb_observations (written X items))) \<subseteq> range (sx_show_id X) \<and> im_wf (tdb_observations (written X items))"
proof (induction items rule: rev_induct)
  case (snoc x items)
  have IH: "\<forall>i. im_get (tdb_observations (written X items)) (sx_show_id X i) = map_option (observation_to_row X) (latest_observation items i)"
    "set (im_keys (tdb_observations (written X items))) \<subseteq> range (sx_show_id X)" "im_wf (tdb_observations (written X items))"
    using snoc by (simp_all add: traces_first_append)
  show ?case
  proof (cases x)
    case (ItemObservation ob)
    then show ?thesis
      using IH im_wf_insert [OF IH(3), of "sx_show_id X (ob_id ob)" "observation_to_row X ob"] written_observation [of items ob X] snoc.prems
      by (auto simp: show_id_inj [OF assms])
  qed (use IH in \<open>simp_all add: written_other\<close>)
qed (simp add: written_def trace_db_new_def)

lemma written_row:
  assumes "columns_ok X" "traces_first (\<lambda>_. False) items"
  shows "(k, q) \<in> set (tdb_observations (written X items)) \<longleftrightarrow>
    (\<exists>ob. k = sx_show_id X (ob_id ob) \<and> latest_observation items (ob_id ob) = Some ob \<and> q = observation_to_row X ob)"
proof -
  note w = written_observations [OF assms]
  have mem: "(k, q) \<in> set (tdb_observations (written X items)) \<longleftrightarrow> im_get (tdb_observations (written X items)) k = Some q"
    using w im_get_SomeD im_get_mem by metis
  show ?thesis
  proof
    assume l: "(k, q) \<in> set (tdb_observations (written X items))"
    then have "im_contains (tdb_observations (written X items)) k" unfolding mem im_contains_iff by blast
    then obtain i where i: "k = sx_show_id X i" using w unfolding im_contains_def by blast
    with l mem w obtain ob where "latest_observation items i = Some ob" "q = observation_to_row X ob" by fastforce
    with i latest_observation_id show "\<exists>ob. k = sx_show_id X (ob_id ob) \<and> latest_observation items (ob_id ob) = Some ob \<and> q = observation_to_row X ob"
      by blast
  next
    assume "\<exists>ob. k = sx_show_id X (ob_id ob) \<and> latest_observation items (ob_id ob) = Some ob \<and> q = observation_to_row X ob"
    then show "(k, q) \<in> set (tdb_observations (written X items))" using w unfolding mem by auto
  qed
qed

lemma written_rows_of:
  assumes ok: "columns_ok X" and ready: "traces_first (\<lambda>_. False) items"
  shows "(k, q) \<in> set (filter (\<lambda>(_, q). or_trace_id q = sx_show_id X i) (tdb_observations (written X items))) \<longleftrightarrow>
    (\<exists>ob. k = sx_show_id X (ob_id ob) \<and> q = observation_to_row X ob \<and> latest_observation items (ob_id ob) = Some ob \<and> ob_trace_id ob = i)"
proof -
  have tid: "or_trace_id (observation_to_row X ob) = sx_show_id X (ob_trace_id ob)" for ob by (simp add: observation_to_row_def)
  have "(k, q) \<in> set (filter (\<lambda>(_, q). or_trace_id q = sx_show_id X i) (tdb_observations (written X items))) \<longleftrightarrow>
      (\<exists>ob. k = sx_show_id X (ob_id ob) \<and> latest_observation items (ob_id ob) = Some ob \<and> q = observation_to_row X ob) \<and> or_trace_id q = sx_show_id X i"
    unfolding set_filter written_row [OF assms, symmetric] by simp
  also have "\<dots> \<longleftrightarrow> (\<exists>ob. k = sx_show_id X (ob_id ob) \<and> q = observation_to_row X ob \<and> latest_observation items (ob_id ob) = Some ob \<and> sx_show_id X (ob_trace_id ob) = sx_show_id X i)"
    using tid by metis
  finally show ?thesis by (simp only: show_id_inj [OF ok])
qed

lemma read_rows_of:
  assumes ok: "columns_ok X" and "traces_first (\<lambda>_. False) items"
  shows "(\<lambda>(k, q). into_observation X k q) ` set (filter (\<lambda>(_, q). or_trace_id q = sx_show_id X i) (tdb_observations (written X items))) =
    {stored_observation ob | ob. latest_observation items (ob_id ob) = Some ob \<and> ob_trace_id ob = i}" (is "_ ` ?rows = ?B")
proof
  show "(\<lambda>(k, q). into_observation X k q) ` ?rows \<subseteq> ?B"
  proof
    fix x assume "x \<in> (\<lambda>(k, q). into_observation X k q) ` ?rows"
    then obtain k q where x: "x = into_observation X k q" and kq: "(k, q) \<in> ?rows" by (metis (no_types, lifting) case_prod_conv imageE surj_pair)
    from kq written_rows_of [OF assms] obtain ob where "k = sx_show_id X (ob_id ob)" "q = observation_to_row X ob"
      "latest_observation items (ob_id ob) = Some ob" "ob_trace_id ob = i" by metis
    then show "x \<in> ?B" using x observation_row_roundtrip [OF ok] by blast
  qed
  show "?B \<subseteq> (\<lambda>(k, q). into_observation X k q) ` ?rows"
  proof
    fix x assume "x \<in> ?B"
    then obtain ob where "x = stored_observation ob" "(sx_show_id X (ob_id ob), observation_to_row X ob) \<in> ?rows" using written_rows_of [OF assms] by blast
    then show "x \<in> (\<lambda>(k, q). into_observation X k q) ` ?rows"
      by (intro image_eqI [of _ _ "(sx_show_id X (ob_id ob), observation_to_row X ob)"]) (simp_all only: case_prod_conv observation_row_roundtrip [OF ok])
  qed
qed

lemma readback:
  assumes ok: "columns_ok X" and "sx_fault X = None" and ready: "traces_first (\<lambda>_. False) items" and t: "latest_trace items i = Some t"
  shows "\<exists>os. get_trace X i (written X items) = Ok (Some (stored_trace t, os)) \<and> distinct (map ob_id os) \<and>
     set os = {stored_observation ob | ob. latest_observation items (ob_id ob) = Some ob \<and> ob_trace_id ob = i}"
proof -
  note ok' = columns_okD [OF ok]
  let ?db = "written X items"
  let ?rows = "filter (\<lambda>(_, q). or_trace_id q = sx_show_id X i) (tdb_observations ?db)"
  let ?os = "map (\<lambda>(j, q). into_observation X j q) (sx_observations_order X ?rows)"
  have id: "trc_id t = i" using t by (rule latest_trace_id)
  have "set ?os = (\<lambda>(j, q). into_observation X j q) ` set ?rows" using mset_eq_setD [OF ok'(4)] by simp
  then have set: "set ?os = {stored_observation ob | ob. latest_observation items (ob_id ob) = Some ob \<and> ob_trace_id ob = i}"
    unfolding read_rows_of [OF ok ready] .
  have "distinct (map fst ?rows)" using written_observations [OF ok ready] by (simp add: im_keys_def distinct_map_filter)
  moreover have "inj_on (parse_id_field X) (set (map fst ?rows))"
    by (rule inj_on_subset [of _ "range (sx_show_id X)"]) (use written_row [OF ok ready] in \<open>auto simp: inj_on_def parse_id_field_def ok'(1)\<close>)
  ultimately have "distinct (map (parse_id_field X) (map fst ?rows))" by (simp only: distinct_map)
  moreover have "map ob_id (map (\<lambda>(j, q). into_observation X j q) rs) = map (parse_id_field X) (map fst rs)" for rs
    by (simp add: into_observation_def case_prod_beta)
  ultimately have "distinct (map ob_id ?os)"
    using mset_eq_imp_distinct_iff [of "map (parse_id_field X) (map fst ?rows)" "map (parse_id_field X) (map fst (sx_observations_order X ?rows))"] ok'(4)
    by (simp only: mset_map)
  moreover have "get_trace X i ?db = Ok (Some (stored_trace t, ?os))"
    using assms(2) written_traces [OF ok, of items i] t trace_row_roundtrip [OF ok, of t] by (simp add: get_trace_def ts_statement_def id)
  ultimately show ?thesis using set by blast
qed

text \<open>
  A trace is read back as it was last recorded, with its observations.  When every observation is written after its trace, the
  database gives for a trace the version written last and, each once, the last versions of exactly the observations whose last version belongs to it;
  all that is lost are token counts beyond 63 bits.
\<close>

theorem trace_readback:
  assumes "columns_ok X" and "sx_fault X = None" and "traces_first (\<lambda>_. False) items" and "latest_trace items i = Some t"
  shows "\<exists>os. get_trace X i (written X items) = Ok (Some (stored_trace t, os)) \<and> distinct (map ob_id os) \<and>
     set os = {stored_observation ob | ob. latest_observation items (ob_id ob) = Some ob \<and> ob_trace_id ob = i}"
  by (rule readback [OF assms])

theorem trace_readback_witness:
  "\<exists>os. get_trace example_context 1 (written example_context [ItemTrace example_trace, ItemObservation example_observation]) =
       Ok (Some (stored_trace example_trace, os)) \<and> stored_observation example_observation \<in> set os"
proof -
  let ?items = "[ItemTrace example_trace, ItemObservation example_observation]"
  have "sx_fault example_context = None" "traces_first (\<lambda>_. False) ?items" "latest_trace ?items 1 = Some example_trace"
    "latest_observation ?items (ob_id example_observation) = Some example_observation" "ob_trace_id example_observation = 1"
    by (simp_all add: example_context_def example_observation_def obs_span_def observation_of_def example_trace_def trace_new_def latest_trace_def latest_observation_def)
  with trace_readback [OF example_context_ok, of ?items 1 example_trace] show ?thesis by blast
qed

section \<open>Batches in flight\<close>

text \<open>
  The buffer is drained under its lock, but the batch is written after the lock is released, so several batches can be on their way at once (a flush, a tick
  of the background task, a submission that fills the buffer).  \<open>fw_flight\<close> has for each of them what is left to write.
\<close>

record 's flight_writer =
  fw_buffer :: "telemetry_item list"
  fw_flight :: "telemetry_item list list"
  fw_store :: 's
  fw_written :: "telemetry_item list"
  fw_failed :: "telemetry_item list"
  fw_batch_size :: nat

definition write_order :: "telemetry_item list \<Rightarrow> telemetry_item list" where
  "write_order batch = (case partition_items batch of (ss, ts, os) \<Rightarrow> map ItemSession ss @ map ItemTrace ts @ map ItemObservation os)"

definition drain :: "'s flight_writer \<Rightarrow> 's flight_writer" where
  "drain w = (if fw_buffer w = [] then w else w\<lparr>fw_buffer := [], fw_flight := fw_flight w @ [write_order (fw_buffer w)]\<rparr>)"

datatype flight_event = FSubmit telemetry_item | FDrain | FWrite nat

fun flight_step :: "'s trace_writer \<Rightarrow> flight_event \<Rightarrow> 's flight_writer \<Rightarrow> 's flight_writer" where
  "flight_step W (FSubmit item) w = (let w1 = w\<lparr>fw_buffer := fw_buffer w @ [item]\<rparr> in if length (fw_buffer w1) \<ge> fw_batch_size w1 then drain w1 else w1)"
| "flight_step W FDrain w = drain w"
| "flight_step W (FWrite k) w = (if k < length (fw_flight w) then (case fw_flight w ! k of
       [] \<Rightarrow> w
     | x # rest \<Rightarrow> (let w1 = w\<lparr>fw_flight := (fw_flight w)[k := rest], fw_store := put_item W x (fw_store w)\<rparr> in
         (case put_result W x (fw_store w) of Inr _ \<Rightarrow> w1\<lparr>fw_written := fw_written w @ [x]\<rparr> | Inl _ \<Rightarrow> w1\<lparr>fw_failed := fw_failed w @ [x]\<rparr>)))
     else w)"

fun flight_submitted :: "flight_event list \<Rightarrow> telemetry_item list" where
  "flight_submitted [] = []"
| "flight_submitted (FSubmit item # es) = item # flight_submitted es"
| "flight_submitted (_ # es) = flight_submitted es"

definition flight_items :: "'s flight_writer \<Rightarrow> telemetry_item multiset" where
  "flight_items w = mset (fw_buffer w) + mset (concat (fw_flight w)) + mset (fw_written w) + mset (fw_failed w)"

lemma mset_write_order [simp]: "mset (write_order batch) = mset batch"
  unfolding write_order_def by (induction batch rule: partition_items.induct) (auto split: prod.splits)

lemma flight_items_drain [simp]: "flight_items (drain w) = flight_items w"
  by (simp add: drain_def flight_items_def)

lemma mset_concat_upd:
  "k < length xss \<Longrightarrow> xss ! k = x # rest \<Longrightarrow> mset (concat xss) = add_mset x (mset (concat (xss[k := rest])))"
proof (induction xss arbitrary: k)
  case (Cons xs xss)
  then show ?case by (cases k) auto
qed simp

lemma flight_items_step: "flight_items (flight_step W e w) = flight_items w + mset (flight_submitted [e])"
proof (cases e)
  case (FSubmit item)
  have "flight_items (w\<lparr>fw_buffer := fw_buffer w @ [item]\<rparr>) = flight_items w + {#item#}" by (simp add: flight_items_def)
  then show ?thesis by (simp add: FSubmit Let_def)
next
  case (FWrite k)
  then show ?thesis
    by (auto simp: flight_items_def Let_def mset_concat_upd split: list.splits sum.splits)
qed simp

lemma flight_items_run: "flight_items (fold (flight_step W) es w) = flight_items w + mset (flight_submitted es)"
proof (induction es arbitrary: w)
  case (Cons e es)
  have "flight_submitted (e # es) = flight_submitted [e] @ flight_submitted es" by (cases e) simp_all
  then show ?case by (simp add: Cons flight_items_step)
qed simp

definition flight_new :: "'s \<Rightarrow> nat \<Rightarrow> 's flight_writer" where
  "flight_new s n = \<lparr>fw_buffer = [], fw_flight = [], fw_store = s, fw_written = [], fw_failed = [], fw_batch_size = n\<rparr>"

text \<open>
  C35: Nothing is lost or written twice on the way.  However submissions, drains and the writes of the batches in flight interleave,
  every submitted item is at every moment in exactly one place: in the buffer, in a batch in flight, written, or
  reported as failed.
\<close>

theorem telemetry_conserved:
  assumes "w = fold (flight_step W) es (flight_new s n)"
  shows "mset (fw_buffer w) + mset (concat (fw_flight w)) + mset (fw_written w) + mset (fw_failed w) = mset (flight_submitted es)"
  using flight_items_run [of W es "flight_new s n"] unfolding assms by (simp add: flight_items_def flight_new_def)

theorem telemetry_conserved_witness:
  "mset (fw_written (fold (flight_step (sqlite_writer example_context)) [FSubmit (ItemTrace example_trace), FDrain, FWrite 0] (flight_new trace_db_new 50))) =
     {#ItemTrace example_trace#}"
proof -
  let ?es = "[FSubmit (ItemTrace example_trace), FDrain, FWrite 0]"
  let ?w = "fold (flight_step (sqlite_writer example_context)) ?es (flight_new trace_db_new 50)"
  have "fw_buffer ?w = []" "concat (fw_flight ?w) = []" "fw_failed ?w = []" "flight_submitted ?es = [ItemTrace example_trace]"
    by (simp_all add: flight_new_def drain_def write_order_def put_item_def put_result_def sqlite_writer_def upsert_trace_def ts_statement_def example_context_def Let_def)
  then show ?thesis
    using telemetry_conserved [OF refl, of "sqlite_writer example_context" ?es trace_db_new 50] by (simp only: mset.simps add_0_left add_0_right)
qed



section \<open>What reaches Langfuse\<close>

lemma partition_items_mem:
  "partition_items batch = (ss, ts, os) \<Longrightarrow> (t \<in> set ts \<longleftrightarrow> ItemTrace t \<in> set batch) \<and> (ob \<in> set os \<longleftrightarrow> ItemObservation ob \<in> set batch)"
  by (induction batch arbitrary: ss ts os rule: partition_items.induct) (auto split: prod.splits)

text \<open>
  An observation reaches Langfuse only with its trace.  A batch exports the observations whose trace is in the same batch and no others: one
  that a flush separated from its trace is never exported, although the store has it.
\<close>

theorem langfuse_exports_exact:
  assumes "bw_langfuse w" and "w' = flush_batch W batch w"
  shows "\<exists>new. bw_exports w' = bw_exports w @ new \<and>
     (\<forall>t ob. (\<exists>obs. (t, obs) \<in> set new \<and> ob \<in> set obs) \<longleftrightarrow>
        ItemTrace t \<in> set batch \<and> ItemObservation ob \<in> set batch \<and> ob_trace_id ob = trc_id t)"
proof -
  obtain ss ts os where parts: "partition_items batch = (ss, ts, os)" by (metis prod_cases3)
  note mem = partition_items_mem [OF parts]
  have "bw_exports w' = bw_exports w @ langfuse_exports ts os"
    using assms by (simp add: flush_batch_def parts split: prod.split)
  moreover have "(\<exists>obs. (t, obs) \<in> set (langfuse_exports ts os) \<and> ob \<in> set obs) \<longleftrightarrow>
      ItemTrace t \<in> set batch \<and> ItemObservation ob \<in> set batch \<and> ob_trace_id ob = trc_id t" for t ob
    using mem [of t ob] by (auto simp: langfuse_exports_def)
  ultimately show ?thesis by blast
qed

theorem langfuse_exports_exact_witness:
  "bw_langfuse (writer_with_config trace_db_new True 50) \<and>
   (\<exists>new. bw_exports (flush_batch (sqlite_writer example_context) [ItemObservation example_observation] (writer_with_config trace_db_new True 50)) = [] @ new \<and>
     \<not> (\<exists>t obs. (t, obs) \<in> set new \<and> example_observation \<in> set obs))"
proof -
  let ?w = "writer_with_config trace_db_new True 50"
  have on: "bw_langfuse ?w" and none: "bw_exports ?w = []" by (simp_all add: writer_with_config_def)
  obtain new where "bw_exports (flush_batch (sqlite_writer example_context) [ItemObservation example_observation] ?w) = bw_exports ?w @ new"
    "\<forall>t ob. (\<exists>obs. (t, obs) \<in> set new \<and> ob \<in> set obs) \<longleftrightarrow> ItemTrace t \<in> set [ItemObservation example_observation] \<and>
       ItemObservation ob \<in> set [ItemObservation example_observation] \<and> ob_trace_id ob = trc_id t"
    using langfuse_exports_exact [OF on refl, of "sqlite_writer example_context" "[ItemObservation example_observation]"] by blast
  then show ?thesis using on none by auto
qed

end
