(* ===== verification/Web_Api.thy ===== *)
theory Web_Api
  imports Store Telemetry
begin

text \<open>
  The embedded telemetry server (\<open>juncture-telemetry/src/web/api.rs\<close>, \<open>otlp/mod.rs\<close>, \<open>otlp/http.rs\<close>) and the configuration that starts it
  (\<open>config.rs\<close>, \<open>web/mod.rs\<close>): Langfuse-compatible ingestion and queries, basic authentication, and ingestion of OpenTelemetry spans.  The handlers
  write through the methods of a trace store (\<open>trace_writer\<close>) and read the SQLite store.  Fresh identifiers and the clock are arguments, and so are the
  decoder of base 64 and the text of a float; paths come percent-decoded; texts are ASCII; sums of \<open>u64\<close> wrap around as in a release build.
\<close>

section \<open>Answers and credentials\<close>

fun trace_store_error_display :: "trace_store_error \<Rightarrow> string" where
  "trace_store_error_display (TsStorage m) = ''storage error: '' @ m"
| "trace_store_error_display (TsSerialization m) = ''serialization error: '' @ m"
| "trace_store_error_display (TsNotFound m) = ''not found: '' @ m"

text \<open>An answer is a status with the text of an error or a value to be sent as JSON.\<close>

type_synonym 'a api_answer = "nat \<times> (string, 'a) result"

definition respond :: "(trace_store_error, 'a) result \<Rightarrow> 'a api_answer" where
  "respond r = (case r of Inr v \<Rightarrow> (200, Ok v) | Inl e \<Rightarrow> (500, Err (trace_store_error_display e)))"

record auth_keys =
  ak_public :: "string option"
  ak_secret :: "string option"

definition auth_keys_default :: auth_keys where
  "auth_keys_default = \<lparr>ak_public = None, ak_secret = None\<rparr>"

text \<open>\<open>splitn(2, ':')\<close> with two parts.\<close>

definition split_colon :: "string \<Rightarrow> (string \<times> string) option" where
  "split_colon s = (case dropWhile (\<lambda>c. c \<noteq> CHR '':'') s of [] \<Rightarrow> None | _ # rest \<Rightarrow> Some (takeWhile (\<lambda>c. c \<noteq> CHR '':'') s, rest))"

definition auth_middleware :: "(string \<Rightarrow> string option) \<Rightarrow> string \<Rightarrow> string \<Rightarrow> string \<Rightarrow> string option \<Rightarrow> bool" where
  "auth_middleware decode64 pk sk path header \<longleftrightarrow>
     path = ''/'' \<or> path = ''/health'' \<or> \<not> starts_with ''/api/'' path \<or>
     (case strip_prefix ''Basic '' (case header of Some h \<Rightarrow> h | None \<Rightarrow> []) of
        None \<Rightarrow> False
      | Some encoded \<Rightarrow> Option.bind (decode64 encoded) split_colon = Some (pk, sk))"

definition admitted :: "(string \<Rightarrow> string option) \<Rightarrow> auth_keys \<Rightarrow> string \<Rightarrow> string option \<Rightarrow> bool" where
  "admitted decode64 keys path header = (case (ak_public keys, ak_secret keys) of
       (Some pk, Some sk) \<Rightarrow> auth_middleware decode64 pk sk path header
     | _ \<Rightarrow> True)"

section \<open>Ingestion of Langfuse batches\<close>

record ingestion_item =
  ii_id :: "string option"
  ii_type :: string
  ii_body :: json

text \<open>The derived readers: an absent or null option is \<open>None\<close>; the time stamp is read and not used.\<close>

definition optional_text :: "string \<Rightarrow> json \<Rightarrow> string option option" where
  "optional_text k v = (case json_member k v of None \<Rightarrow> Some None | Some JNull \<Rightarrow> Some None | Some w \<Rightarrow> map_option Some (as_str w))"

definition read_ingestion_item :: "json \<Rightarrow> ingestion_item option" where
  "read_ingestion_item v = Option.bind (optional_text ''id'' v) (\<lambda>i. Option.bind (Option.bind (json_member ''type'' v) as_str) (\<lambda>ty.
     Option.bind (json_member ''body'' v) (\<lambda>b. Option.bind (optional_text ''timestamp'' v) (\<lambda>_. Some \<lparr>ii_id = i, ii_type = ty, ii_body = b\<rparr>))))"

fun read_items :: "json list \<Rightarrow> ingestion_item list option" where
  "read_items [] = Some []"
| "read_items (v # vs) = Option.bind (read_ingestion_item v) (\<lambda>x. map_option ((#) x) (read_items vs))"

definition read_ingestion_request :: "json \<Rightarrow> ingestion_item list option" where
  "read_ingestion_request v = Option.bind (Option.bind (json_member ''batch'' v) as_array) read_items"

text \<open>What is drawn and read while an item is handled: the text identifying it in the answer, its own and its trace's identifier, the clock.\<close>

record ingest_world =
  iw_item :: string
  iw_id :: trace_id
  iw_trace :: trace_id
  iw_now :: instant

definition body_text :: "string \<Rightarrow> json \<Rightarrow> string option" where
  "body_text k body = Option.bind (json_member k body) as_str"

definition body_id :: "store_context \<Rightarrow> string \<Rightarrow> json \<Rightarrow> trace_id option" where
  "body_id X k body = Option.bind (body_text k body) (sx_read_id X)"

definition value_or :: "'a \<Rightarrow> 'a option \<Rightarrow> 'a" where
  "value_or d v = (case v of Some x \<Rightarrow> x | None \<Rightarrow> d)"

definition or_else :: "'a option \<Rightarrow> 'a option \<Rightarrow> 'a option" where
  "or_else a b = (case a of Some x \<Rightarrow> Some x | None \<Rightarrow> b)"

definition ingested_trace :: "store_context \<Rightarrow> ingest_world \<Rightarrow> json \<Rightarrow> trace" where
  "ingested_trace X w body = (trace_new (value_or (iw_id w) (body_id X ''id'' body)) (iw_now w) (value_or ''unnamed'' (body_text ''name'' body)))
     \<lparr>trc_session_id := body_text ''sessionId'' body, trc_user_id := body_text ''userId'' body,
      trc_tags := (case Option.bind (json_member ''tags'' body) as_array of Some vs \<Rightarrow> List.map_filter as_str vs | None \<Rightarrow> []),
      trc_metadata := value_or JNull (json_member ''metadata'' body), trc_environment := body_text ''environment'' body,
      trc_release := body_text ''release'' body, trc_input := json_member ''input'' body, trc_output := json_member ''output'' body,
      trc_start_time := value_or (iw_now w) (Option.bind (body_text ''timestamp'' body) (sx_read_time X))\<rparr>"

definition ingested_usage :: "json \<Rightarrow> call_usage" where
  "ingested_usage usage = (let
     count = (\<lambda>ks. Option.bind (foldr (\<lambda>k r. or_else (json_member k usage) r) ks None) as_u64);
     input = value_or 0 (count [''inputTokens'', ''promptTokens'', ''input'']);
     output = value_or 0 (count [''outputTokens'', ''completionTokens'', ''output''])
     in \<lparr>cu_input = input, cu_output = output, cu_total = value_or (wrap_add64 input output) (count [''totalTokens'', ''total'']),
       cu_cached = Option.bind (Option.bind (or_else (json_member ''cachedTokens'' usage) (json_member ''promptTokensDetails'' usage))
         (json_member ''cachedTokens'')) as_u64\<rparr>)"

definition ingested_cost :: "json \<Rightarrow> rat option" where
  "ingested_cost body = (case or_else (json_member ''cost'' body) (json_member ''totalCost'' body) of
       Some c \<Rightarrow> as_f64 c
     | None \<Rightarrow> Option.bind (Option.bind (json_member ''costDetails'' body) (json_member ''total'')) as_f64)"

definition ingested_generation :: "store_context \<Rightarrow> ingest_world \<Rightarrow> json \<Rightarrow> observation" where
  "ingested_generation X w body = (obs_generation (value_or (iw_id w) (body_id X ''id'' body)) (iw_now w) (value_or (iw_trace w) (body_id X ''traceId'' body))
       (value_or ''llm_call'' (body_text ''name'' body)) (value_or ''unknown'' (body_text ''model'' body)))
     \<lparr>ob_parent := body_id X ''parentObservationId'' body, ob_input := json_member ''input'' body,
      ob_output := or_else (json_member ''output'' body) (json_member ''completion'' body), ob_parameters := json_member ''modelParameters'' body,
      ob_usage := map_option ingested_usage (or_else (json_member ''usage'' body) (json_member ''usageDetails'' body)),
      ob_cost := ingested_cost body, ob_level := (case body_text ''level'' body of Some l \<Rightarrow> parse_level l | None \<Rightarrow> LevelDefault),
      ob_metadata := value_or JNull (json_member ''metadata'' body)\<rparr>"

definition ingested_span :: "store_context \<Rightarrow> ingest_world \<Rightarrow> json \<Rightarrow> observation" where
  "ingested_span X w body = (obs_span (value_or (iw_id w) (body_id X ''id'' body)) (iw_now w) (value_or (iw_trace w) (body_id X ''traceId'' body))
       (value_or ''span'' (body_text ''name'' body)))
     \<lparr>ob_parent := body_id X ''parentObservationId'' body, ob_input := json_member ''input'' body, ob_output := json_member ''output'' body,
      ob_metadata := value_or JNull (json_member ''metadata'' body)\<rparr>"

text \<open>The item a batch entry becomes; \<open>None\<close> for the types that are skipped.\<close>

definition ingested_item :: "store_context \<Rightarrow> ingest_world \<Rightarrow> ingestion_item \<Rightarrow> telemetry_item option" where
  "ingested_item X w it = (
     if ii_type it \<in> {''trace-create'', ''trace-update''} then Some (ItemTrace (ingested_trace X w (ii_body it)))
     else if ii_type it \<in> {''generation-create'', ''generation-update''} then Some (ItemObservation (ingested_generation X w (ii_body it)))
     else if ii_type it \<in> {''span-create'', ''span-update'', ''event-create''} then Some (ItemObservation (ingested_span X w (ii_body it)))
     else None)"

record ingestion_response =
  ir_successes :: "(string \<times> nat) list"
  ir_errors :: "(string \<times> nat \<times> string) list"

fun handle_items :: "'s trace_writer \<Rightarrow> store_context \<Rightarrow> (nat \<Rightarrow> ingest_world) \<Rightarrow> nat \<Rightarrow> ingestion_item list \<Rightarrow> 's \<Rightarrow> ingestion_response \<Rightarrow> 's \<times> ingestion_response" where
  "handle_items W X ws k [] s r = (s, r)"
| "handle_items W X ws k (it # its) s r = (let item_id = value_or (iw_item (ws k)) (ii_id it) in
     case ingested_item X (ws k) it of
       None \<Rightarrow> handle_items W X ws (k + 1) its s (r\<lparr>ir_successes := ir_successes r @ [(item_id, 200)]\<rparr>)
     | Some x \<Rightarrow> handle_items W X ws (k + 1) its (put_item W x s)
         (case put_result W x s of
            Inr _ \<Rightarrow> r\<lparr>ir_successes := ir_successes r @ [(item_id, 200)]\<rparr>
          | Inl e \<Rightarrow> r\<lparr>ir_errors := ir_errors r @ [(item_id, 500, trace_store_error_display e)]\<rparr>))"

definition handle_ingestion :: "'s trace_writer \<Rightarrow> store_context \<Rightarrow> (nat \<Rightarrow> ingest_world) \<Rightarrow> ingestion_item list \<Rightarrow> 's \<Rightarrow> 's \<times> ingestion_response" where
  "handle_ingestion W X ws batch s = handle_items W X ws 0 batch s \<lparr>ir_successes = [], ir_errors = []\<rparr>"

section \<open>OpenTelemetry spans\<close>

record any_value =
  av_string :: "string option"
  av_int :: "string option"
  av_double :: "rat option"
  av_bool :: "bool option"

type_synonym attributes = "(string \<times> any_value option) list"

record otlp_span =
  os_trace_id :: string
  os_span_id :: string
  os_parent_id :: "string option"
  os_name :: string
  os_start :: string
  os_end :: "string option"
  os_attributes :: "attributes option"
  os_status :: "(int option \<times> string option) option"

record resource_spans =
  rs_attributes :: "attributes option"
  rs_spans :: "otlp_span list list"

definition hex_to_uuid :: "store_context \<Rightarrow> trace_id \<Rightarrow> string \<Rightarrow> trace_id" where
  "hex_to_uuid X fresh hex = (if length hex \<ge> 32
     then value_or fresh (sx_read_id X (take 8 hex @ ''-'' @ take 4 (drop 8 hex) @ ''-'' @ take 4 (drop 12 hex) @ ''-'' @ take 4 (drop 16 hex) @ ''-'' @ take 12 (drop 20 hex)))
     else fresh)"

text \<open>\<open>str::parse::<i64>\<close>.\<close>

definition parse_i64 :: "string \<Rightarrow> int option" where
  "parse_i64 s = (if s \<noteq> [] \<and> hd s = CHR ''-''
     then (if tl s \<noteq> [] \<and> list_all is_digit (tl s) \<and> digits_value (tl s) \<le> 2 ^ 63 then Some (- int (digits_value (tl s))) else None)
     else map_option int (parse_nat (2 ^ 63 - 1) s))"

text \<open>Instants count nanoseconds.  Division and remainder truncate, and a negative remainder does not fit \<open>u32\<close>; every \<open>i64\<close> is in the range of the calendar.\<close>

definition nano_to_datetime :: "string \<Rightarrow> instant" where
  "nano_to_datetime s = (let n = value_or 0 (parse_i64 s) in
     if n \<ge> 0 then (n div 1000000000) * 1000000000 + n mod 1000000000 else - ((- n) div 1000000000) * 1000000000)"

definition find_attr :: "attributes \<Rightarrow> string \<Rightarrow> any_value option" where
  "find_attr attrs key = Option.bind (map_of attrs key) id"

definition get_string_attr :: "(rat \<Rightarrow> string) \<Rightarrow> attributes \<Rightarrow> string \<Rightarrow> string option" where
  "get_string_attr show_f64 attrs key = Option.bind (find_attr attrs key) (\<lambda>v.
     or_else (av_string v) (or_else (av_int v) (or_else (map_option show_f64 (av_double v)) (map_option (\<lambda>b. if b then ''true'' else ''false'') (av_bool v)))))"

definition get_int_attr :: "attributes \<Rightarrow> string \<Rightarrow> nat option" where
  "get_int_attr attrs key = Option.bind (Option.bind (find_attr attrs key) av_int) (parse_nat u64_max)"

definition get_double_attr :: "attributes \<Rightarrow> string \<Rightarrow> rat option" where
  "get_double_attr attrs key = Option.bind (find_attr attrs key) av_double"

definition span_attrs :: "otlp_span \<Rightarrow> attributes" where
  "span_attrs sp = value_or [] (os_attributes sp)"

definition span_input :: "otlp_span \<Rightarrow> nat option" where
  "span_input sp = or_else (get_int_attr (span_attrs sp) ''gen_ai.usage.input_tokens'') (get_int_attr (span_attrs sp) ''juncture.tokens.input'')"

definition span_output :: "otlp_span \<Rightarrow> nat option" where
  "span_output sp = or_else (get_int_attr (span_attrs sp) ''gen_ai.usage.output_tokens'') (get_int_attr (span_attrs sp) ''juncture.tokens.output'')"

definition span_total :: "otlp_span \<Rightarrow> nat option" where
  "span_total sp = or_else (get_int_attr (span_attrs sp) ''gen_ai.usage.total_tokens'') (get_int_attr (span_attrs sp) ''juncture.graph.total_tokens'')"

definition span_cost :: "otlp_span \<Rightarrow> rat option" where
  "span_cost sp = or_else (get_double_attr (span_attrs sp) ''gen_ai.usage.cost'') (get_double_attr (span_attrs sp) ''juncture.cost.usd'')"

definition span_type :: "(rat \<Rightarrow> string) \<Rightarrow> otlp_span \<Rightarrow> observation_type" where
  "span_type show_f64 sp = (let attr = get_string_attr show_f64 (span_attrs sp) in
     if attr ''gen_ai.system'' \<noteq> None \<or> attr ''juncture.llm.model'' \<noteq> None then ObsGeneration
     else if attr ''juncture.tool.name'' \<noteq> None then ObsToolCall else ObsSpan)"

text \<open>The two fresh identifiers serve the span and its parent.\<close>

definition span_to_observation :: "store_context \<Rightarrow> (rat \<Rightarrow> string) \<Rightarrow> trace_id \<Rightarrow> trace_id \<Rightarrow> otlp_span \<Rightarrow> trace_id \<Rightarrow> observation" where
  "span_to_observation X show_f64 f1 f2 sp tid = \<lparr>ob_id = hex_to_uuid X f1 (os_span_id sp), ob_trace_id = tid,
     ob_parent = map_option (hex_to_uuid X f2) (os_parent_id sp), ob_name = os_name sp, ob_type = span_type show_f64 sp,
     ob_start_time = nano_to_datetime (os_start sp), ob_end_time = map_option nano_to_datetime (os_end sp), ob_input = None, ob_output = None,
     ob_metadata = JNull, ob_level = (if Option.bind (os_status sp) fst = Some 2 then LevelError else LevelDefault),
     ob_status = Option.bind (os_status sp) snd,
     ob_model = or_else (get_string_attr show_f64 (span_attrs sp) ''gen_ai.request.model'') (get_string_attr show_f64 (span_attrs sp) ''juncture.llm.model''),
     ob_parameters = None,
     ob_usage = (if span_input sp \<noteq> None \<or> span_output sp \<noteq> None \<or> span_total sp \<noteq> None
       then Some \<lparr>cu_input = value_or 0 (span_input sp), cu_output = value_or 0 (span_output sp),
         cu_total = value_or (wrap_add64 (value_or 0 (span_input sp)) (value_or 0 (span_output sp))) (span_total sp), cu_cached = None\<rparr>
       else None),
     ob_cost = span_cost sp\<rparr>"

definition aggregate_usage :: "otlp_span list \<Rightarrow> nat \<times> nat \<times> rat" where
  "aggregate_usage spans = fold (\<lambda>sp (i, q, c). (wrap_add64 i (value_or 0 (span_input sp)), wrap_add64 q (value_or 0 (span_output sp)), c + value_or 0 (span_cost sp)))
     spans (0, 0, 0)"

text \<open>Spans come with the name of their service.  A trace has at least one span here, so its start is the least start of a span.\<close>

definition build_trace_from_spans :: "store_context \<Rightarrow> (rat \<Rightarrow> string) \<Rightarrow> instant \<Rightarrow> (nat \<Rightarrow> trace_id) \<Rightarrow> string \<Rightarrow> (otlp_span \<times> string) list \<Rightarrow> trace \<times> observation list" where
  "build_trace_from_spans X show_f64 now fresh hex spans = (let
     tid = hex_to_uuid X (fresh 0) hex;
     root_name = (case find (\<lambda>(sp, _). os_parent_id sp = None) spans of Some (sp, _) \<Rightarrow> os_name sp | None \<Rightarrow> ''otlp-trace'');
     svc = (case spans of (_, svc) # _ \<Rightarrow> svc | [] \<Rightarrow> []);
     starts = map (\<lambda>(sp, _). nano_to_datetime (os_start sp)) spans;
     ends = List.map_filter (\<lambda>(sp, _). map_option nano_to_datetime (os_end sp)) spans
     in case aggregate_usage (map fst spans) of (input, output, cost) \<Rightarrow>
       ((trace_new tid now root_name)\<lparr>trc_start_time := (case starts of [] \<Rightarrow> now | t # ts \<Rightarrow> fold min ts t),
          trc_end_time := (case ends of [] \<Rightarrow> None | t # ts \<Rightarrow> Some (fold max ts t)),
          trc_total_cost := (if cost > 0 then Some cost else None),
          trc_total_tokens := (if wrap_add64 input output > 0 then Some (wrap_add64 input output) else None),
          trc_metadata := JObj [(''service.name'', JStr svc)]\<rparr>,
        map (\<lambda>(k, sp, _). span_to_observation X show_f64 (fresh (2 * k + 1)) (fresh (2 * k + 2)) sp tid) (enumerate 0 spans)))"

definition service_name :: "(rat \<Rightarrow> string) \<Rightarrow> resource_spans \<Rightarrow> string" where
  "service_name show_f64 rs = value_or ''unknown'' (Option.bind (rs_attributes rs) (\<lambda>attrs. get_string_attr show_f64 attrs ''service.name''))"

definition named_spans :: "(rat \<Rightarrow> string) \<Rightarrow> resource_spans list \<Rightarrow> (otlp_span \<times> string) list" where
  "named_spans show_f64 rss = concat (map (\<lambda>rs. map (\<lambda>sp. (sp, service_name show_f64 rs)) (concat (rs_spans rs))) rss)"

definition push_span :: "otlp_span \<times> string \<Rightarrow> (string, (otlp_span \<times> string) list) imap \<Rightarrow> (string, (otlp_span \<times> string) list) imap" where
  "push_span sp m = im_modify (os_trace_id (fst sp)) [] (\<lambda>l. l @ [sp]) m"

definition convert_resource_spans :: "store_context \<Rightarrow> (rat \<Rightarrow> string) \<Rightarrow> instant \<Rightarrow> (nat \<Rightarrow> nat \<Rightarrow> trace_id) \<Rightarrow> resource_spans list \<Rightarrow> (trace \<times> observation list) list" where
  "convert_resource_spans X show_f64 now fresh rss =
     map (\<lambda>(j, hex, spans). build_trace_from_spans X show_f64 now (fresh j) hex spans) (enumerate 0 (fold push_span (named_spans show_f64 rss) []))"

fun persist_traces :: "'s trace_writer \<Rightarrow> (trace \<times> observation list) list \<Rightarrow> 's \<Rightarrow> 's \<times> nat" where
  "persist_traces W [] s = (s, 0)"
| "persist_traces W ((t, obs) # rest) s = (case flush_items (tw_trace W) [t] s of (s1, n1) \<Rightarrow>
     (case flush_items (tw_observation W) obs s1 of (s2, n2) \<Rightarrow>
     (case persist_traces W rest s2 of (s3, n3) \<Rightarrow> (s3, n1 + n2 + n3))))"

definition span_count :: "resource_spans list \<Rightarrow> nat" where
  "span_count rss = sum_list (map (\<lambda>rs. sum_list (map length (rs_spans rs))) rss)"

text \<open>The numbers of traces, spans and errors in the answer, whose status is always 200.\<close>

definition handle_otlp_traces :: "'s trace_writer \<Rightarrow> store_context \<Rightarrow> (rat \<Rightarrow> string) \<Rightarrow> instant \<Rightarrow> (nat \<Rightarrow> nat \<Rightarrow> trace_id) \<Rightarrow> resource_spans list \<Rightarrow> 's \<Rightarrow> 's \<times> nat \<times> nat \<times> nat" where
  "handle_otlp_traces W X show_f64 now fresh rss s = (let traces = convert_resource_spans X show_f64 now fresh rss in
     case persist_traces W traces s of (s1, errors) \<Rightarrow> (s1, length traces, span_count rss, errors))"

section \<open>Queries\<close>

type_synonym query_string = "(string \<times> string) list"

text \<open>The parameters of a query: texts as they are, times that do not parse are dropped, a page number that does not parse as \<open>u32\<close> rejects the request.\<close>

definition page_param :: "string \<Rightarrow> query_string \<Rightarrow> nat option option" where
  "page_param k q = (case map_of q k of None \<Rightarrow> Some None | Some v \<Rightarrow> map_option Some (parse_nat (2 ^ 32 - 1) v))"

definition trace_query_params :: "store_context \<Rightarrow> query_string \<Rightarrow> trace_query option" where
  "trace_query_params X q = Option.bind (page_param ''page'' q) (\<lambda>page. Option.bind (page_param ''pageSize'' q) (\<lambda>len.
     Some \<lparr>tq_session_id = map_of q ''sessionId'', tq_user_id = map_of q ''userId'', tq_name = map_of q ''name'', tq_environment = map_of q ''environment'',
       tq_tags = [], tq_from = Option.bind (map_of q ''fromTimestamp'') (sx_read_time X), tq_to = Option.bind (map_of q ''toTimestamp'') (sx_read_time X),
       tq_page = page, tq_page_size = len\<rparr>))"

definition session_query_params :: "query_string \<Rightarrow> (nat \<times> nat) option" where
  "session_query_params q = Option.bind (page_param ''page'' q) (\<lambda>page. Option.bind (page_param ''pageSize'' q) (\<lambda>len.
     Some (value_or 0 page, value_or 50 len)))"

datatype api_value =
    VDashboard
  | VIngestion ingestion_response
  | VTraces "trace page_response"
  | VTrace trace "observation list"
  | VSessions "session page_response"
  | VSession session
  | VDaily "daily_stats list"
  | VModels "model_stats list"
  | VSummary summary_stats
  | VEnriched "enriched_session page_response"
  | VOtlp nat nat nat

abbreviation answer_value :: "('a \<Rightarrow> api_value) \<Rightarrow> (trace_store_error, 'a) result \<Rightarrow> api_value api_answer" where
  "answer_value f r \<equiv> respond (map_sum id f r)"

text \<open>A request the extractors reject gets the status 400 or, for a well-formed JSON body of the wrong shape, 422.\<close>

definition rejected :: "nat \<Rightarrow> api_value api_answer" where
  "rejected status = (status, Err ''rejected'')"

definition handle_query_traces :: "store_context \<Rightarrow> query_string \<Rightarrow> trace_db \<Rightarrow> api_value api_answer" where
  "handle_query_traces X q db = (case trace_query_params X q of None \<Rightarrow> rejected 400 | Some tq \<Rightarrow> answer_value VTraces (query_traces X tq db))"

definition handle_get_trace :: "store_context \<Rightarrow> string \<Rightarrow> trace_db \<Rightarrow> api_value api_answer" where
  "handle_get_trace X i db = (case sx_read_id X i of
       None \<Rightarrow> (400, Err ''invalid trace id'')
     | Some j \<Rightarrow> (case get_trace X j db of
           Inr (Some (t, obs)) \<Rightarrow> (200, Ok (VTrace t obs))
         | Inr None \<Rightarrow> (404, Err ''trace not found'')
         | Inl e \<Rightarrow> (500, Err (trace_store_error_display e))))"

definition handle_query_sessions :: "store_context \<Rightarrow> query_string \<Rightarrow> trace_db \<Rightarrow> api_value api_answer" where
  "handle_query_sessions X q db = (case session_query_params q of None \<Rightarrow> rejected 400 | Some (page, len) \<Rightarrow> answer_value VSessions (query_sessions X page len db))"

definition handle_get_session :: "store_context \<Rightarrow> string \<Rightarrow> trace_db \<Rightarrow> api_value api_answer" where
  "handle_get_session X i db = (case get_session X i db of
       Inr (Some x) \<Rightarrow> (200, Ok (VSession x))
     | Inr None \<Rightarrow> (404, Err ''session not found'')
     | Inl e \<Rightarrow> (500, Err (trace_store_error_display e)))"

text \<open>Thirty days in nanoseconds.\<close>

definition handle_daily_stats :: "store_context \<Rightarrow> query_string \<Rightarrow> trace_db \<Rightarrow> api_value api_answer" where
  "handle_daily_stats X q db = (let
     from = value_or (sx_now X - 30 * 86400 * 1000000000) (Option.bind (map_of q ''from'') (sx_read_time X));
     till = value_or (sx_now X) (Option.bind (map_of q ''to'') (sx_read_time X))
     in answer_value VDaily (get_daily_stats X from till db))"

definition handle_model_stats :: "store_context \<Rightarrow> trace_db \<Rightarrow> api_value api_answer" where
  "handle_model_stats X db = answer_value VModels (get_model_stats X db)"

definition handle_summary_stats :: "store_context \<Rightarrow> trace_db \<Rightarrow> api_value api_answer option" where
  "handle_summary_stats X db = map_option (answer_value VSummary) (get_summary_stats X db)"

definition handle_enriched_sessions :: "store_context \<Rightarrow> query_string \<Rightarrow> trace_db \<Rightarrow> api_value api_answer" where
  "handle_enriched_sessions X q db = (case session_query_params q of None \<Rightarrow> rejected 400
     | Some (page, len) \<Rightarrow> answer_value VEnriched (query_enriched_sessions X page len db))"

section \<open>The router\<close>

datatype endpoint =
    EpDashboard | EpIngestion | EpTraces | EpTrace string | EpSessions | EpSession string | EpDaily | EpModels | EpSummary | EpEnriched | EpOtlp

text \<open>The table of routes; a fixed path goes before one with a parameter, which is one non-empty segment.\<close>

definition segment :: "string \<Rightarrow> string \<Rightarrow> string option" where
  "segment p path = (case strip_prefix p path of Some i \<Rightarrow> if i \<noteq> [] \<and> CHR ''/'' \<notin> set i then Some i else None | None \<Rightarrow> None)"

definition create_router :: "string \<Rightarrow> string \<Rightarrow> endpoint option" where
  "create_router verb path = (
     if verb = ''POST'' then
       (if path = ''/api/public/ingestion'' then Some EpIngestion else if path = ''/v1/traces'' then Some EpOtlp else None)
     else if verb = ''GET'' then
       (if path = ''/'' then Some EpDashboard
        else if path = ''/api/public/traces'' then Some EpTraces
        else if path = ''/api/public/sessions'' then Some EpSessions
        else if path = ''/api/public/stats/daily'' then Some EpDaily
        else if path = ''/api/public/stats/models'' then Some EpModels
        else if path = ''/api/public/stats/summary'' then Some EpSummary
        else if path = ''/api/public/sessions/enriched'' then Some EpEnriched
        else or_else (map_option EpTrace (segment ''/api/public/traces/'' path)) (map_option EpSession (segment ''/api/public/sessions/'' path)))
     else None)"

record api_request =
  rq_verb :: string
  rq_path :: string
  rq_authorization :: "string option"
  rq_query :: query_string
  rq_body :: json
  rq_otlp :: "resource_spans list option"

record api_env =
  ae_decode64 :: "string \<Rightarrow> string option"
  ae_show_f64 :: "rat \<Rightarrow> string"
  ae_items :: "nat \<Rightarrow> ingest_world"
  ae_fresh :: "nat \<Rightarrow> nat \<Rightarrow> trace_id"

text \<open>
  One request against the SQLite store.  \<open>rq_otlp\<close> is the body read as OpenTelemetry spans.  The second component is \<open>None\<close> when a handler panics;
  a path without a route gets 404, another method than the routed one 405.
\<close>

definition dispatch :: "store_context \<Rightarrow> api_env \<Rightarrow> api_request \<Rightarrow> endpoint \<Rightarrow> trace_db \<Rightarrow> trace_db \<times> api_value api_answer option" where
  "dispatch X E rq ep db = (case ep of
       EpDashboard \<Rightarrow> (db, Some (200, Ok VDashboard))
     | EpIngestion \<Rightarrow> (case read_ingestion_request (rq_body rq) of
           None \<Rightarrow> (db, Some (rejected 422))
         | Some batch \<Rightarrow> (case handle_ingestion (sqlite_writer X) X (ae_items E) batch db of (db', r) \<Rightarrow> (db', Some (200, Ok (VIngestion r)))))
     | EpTraces \<Rightarrow> (db, Some (handle_query_traces X (rq_query rq) db))
     | EpTrace i \<Rightarrow> (db, Some (handle_get_trace X i db))
     | EpSessions \<Rightarrow> (db, Some (handle_query_sessions X (rq_query rq) db))
     | EpSession i \<Rightarrow> (db, Some (handle_get_session X i db))
     | EpDaily \<Rightarrow> (db, Some (handle_daily_stats X (rq_query rq) db))
     | EpModels \<Rightarrow> (db, Some (handle_model_stats X db))
     | EpSummary \<Rightarrow> (db, handle_summary_stats X db)
     | EpEnriched \<Rightarrow> (db, Some (handle_enriched_sessions X (rq_query rq) db))
     | EpOtlp \<Rightarrow> (case rq_otlp rq of
           None \<Rightarrow> (db, Some (rejected 422))
         | Some rss \<Rightarrow> (case handle_otlp_traces (sqlite_writer X) X (ae_show_f64 E) (sx_now X) (ae_fresh E) rss db of
             (db', traces, spans, errors) \<Rightarrow> (db', Some (200, Ok (VOtlp traces spans errors))))))"

definition serve :: "store_context \<Rightarrow> api_env \<Rightarrow> auth_keys \<Rightarrow> api_request \<Rightarrow> trace_db \<Rightarrow> trace_db \<times> api_value api_answer option" where
  "serve X E keys rq db = (
     if \<not> admitted (ae_decode64 E) keys (rq_path rq) (rq_authorization rq) then (db, Some (401, Err ''Unauthorized''))
     else (case create_router (rq_verb rq) (rq_path rq) of
         None \<Rightarrow> (db, Some (if create_router ''GET'' (rq_path rq) \<noteq> None \<or> create_router ''POST'' (rq_path rq) \<noteq> None then 405 else 404, Err []))
       | Some ep \<Rightarrow> dispatch X E rq ep db))"

section \<open>Configuration\<close>

record telemetry_config =
  tc_store_path :: "string option"
  tc_langfuse :: "langfuse_config option"
  tc_dashboard :: "nat option"
  tc_bind_ip :: "nat list"
  tc_capture :: capture_config

definition telemetry_config_new :: telemetry_config where
  "telemetry_config_new = \<lparr>tc_store_path = None, tc_langfuse = None, tc_dashboard = None, tc_bind_ip = [127, 0, 0, 1], tc_capture = capture_config_default\<rparr>"

definition with_langfuse_from_env :: "(string \<Rightarrow> string option) \<Rightarrow> telemetry_config \<Rightarrow> telemetry_config" where
  "with_langfuse_from_env env cfg = (let public_key = value_or [] (env ''LANGFUSE_PUBLIC_KEY''); secret_key = value_or [] (env ''LANGFUSE_SECRET_KEY'') in
     if public_key = [] \<or> secret_key = [] then cfg
     else cfg\<lparr>tc_langfuse := Some \<lparr>lf_public_key = public_key, lf_secret_key = secret_key,
       lf_base_url = value_or ''https://cloud.langfuse.com'' (env ''LANGFUSE_BASE_URL'')\<rparr>\<rparr>)"

text \<open>
  \<open>install\<close> on a store that could be opened.  The dashboard, when a port is given and can be bound, is a server with the keys of
  \<open>WebServer::new\<close>.
\<close>

record 's telemetry_handle =
  th_collector :: "'s collector"
  th_server :: "auth_keys option"

definition install :: "'s \<Rightarrow> bool \<Rightarrow> telemetry_config \<Rightarrow> 's telemetry_handle" where
  "install store port_free cfg = \<lparr>
     th_collector = collector_from_parts (if tc_langfuse cfg \<noteq> None then writer_with_config store True 50 else writer_new store) (tc_capture cfg),
     th_server = (if tc_dashboard cfg \<noteq> None \<and> port_free then Some auth_keys_default else None)\<rparr>"

definition handle_shutdown :: "'s trace_writer \<Rightarrow> 's telemetry_handle \<Rightarrow> 's telemetry_handle \<times> (trace_store_error, unit) result" where
  "handle_shutdown W h = (case collector_flush W (th_collector h) of (c, r) \<Rightarrow>
     (case r of Inl e \<Rightarrow> (h\<lparr>th_collector := c\<rparr>, Err e) | Inr _ \<Rightarrow> (h\<lparr>th_collector := c, th_server := None\<rparr>, Ok ())))"

section \<open>Ingestion writes what the items say\<close>

definition ingested_items :: "store_context \<Rightarrow> (nat \<Rightarrow> ingest_world) \<Rightarrow> nat \<Rightarrow> ingestion_item list \<Rightarrow> telemetry_item list" where
  "ingested_items X ws k batch = List.map_filter (\<lambda>(j, it). ingested_item X (ws j) it) (enumerate k batch)"

lemma ingested_items_simps [simp]:
  "ingested_items X ws k [] = []"
  "ingested_items X ws k (it # its) = (case ingested_item X (ws k) it of None \<Rightarrow> [] | Some x \<Rightarrow> [x]) @ ingested_items X ws (k + 1) its"
  by (simp_all add: ingested_items_def List.map_filter_def split: option.split)

definition answered :: "ingestion_response \<Rightarrow> nat" where
  "answered r = length (ir_successes r) + length (ir_errors r)"

lemma handle_items_exact:
  "fst (handle_items W X ws k its s r) = fold (put_item W) (ingested_items X ws k its) s \<and>
   answered (snd (handle_items W X ws k its s r)) = answered r + length its"
proof (induction W X ws k its s r rule: handle_items.induct)
  case (2 W X ws k it its s r)
  show ?case
  proof (cases "ingested_item X (ws k) it")
    case None
    then show ?thesis using "2.IH"(1) [OF refl None] by (simp add: answered_def Let_def)
  next
    case (Some x)
    then show ?thesis using "2.IH"(2) [OF refl Some] by (cases "put_result W x s") (simp_all add: answered_def Let_def)
  qed
qed (simp add: answered_def)

lemma handle_items_no_errors:
  assumes "\<And>it x pre post. its = pre @ it # post \<Longrightarrow> ingested_item X (ws (k + length pre)) it = Some x \<Longrightarrow>
      put_result W x (fold (put_item W) (ingested_items X ws k pre) s) = Ok ()"
  shows "ir_errors (snd (handle_items W X ws k its s r)) = ir_errors r"
  using assms
proof (induction W X ws k its s r rule: handle_items.induct)
  case (2 W X ws k it its s r)
  have step: "put_result W y (fold (put_item W) (ingested_items X ws (k + 1) pre) (case ingested_item X (ws k) it of None \<Rightarrow> s | Some x \<Rightarrow> put_item W x s)) = Ok ()"
    if "its = pre @ it' # post" "ingested_item X (ws (k + 1 + length pre)) it' = Some y" for it' y pre post
    using "2.prems" [of "it # pre" it' post y] that by (auto split: option.splits)
  show ?case
  proof (cases "ingested_item X (ws k) it")
    case None
    then show ?thesis using "2.IH"(1) [OF refl None] step by (simp add: Let_def)
  next
    case (Some x)
    have "put_result W x s = Ok ()" using "2.prems" [of "[]" it its x] Some by simp
    then show ?thesis using "2.IH"(2) [OF refl Some] step Some by (simp add: Let_def)
  qed
qed simp

lemma ingested_items_append: "ingested_items X ws k (xs @ ys) = ingested_items X ws k xs @ ingested_items X ws (k + length xs) ys"
  by (induction xs arbitrary: k) simp_all

lemma answering_self: "sx_fault X = None \<Longrightarrow> answering X = X"
  by (simp add: answering_def)

lemma put_result_ok:
  assumes "sx_fault X = None" "traces_first (accepts_trace X db) (items @ [x])"
  shows "put_result (sqlite_writer X) x (fold (put_item (sqlite_writer X)) items db) = Ok ()"
proof (cases x)
  case (ItemObservation ob)
  then have "accepts_trace X db (ob_trace_id ob) \<or> ob_trace_id ob \<in> trace_ids items" using assms(2) by (simp add: traces_first_append)
  then show ?thesis
    using sqlite.observation_ok [OF sqlite.known_put, of X db ob items] unfolding answering_self [OF assms(1)] by (simp add: ItemObservation put_result_def)
qed (use sqlite.trace_ok [of X] sqlite.session_ok [of X] in \<open>simp_all add: answering_self [OF assms(1)] put_result_def\<close>)

lemma ingestion_ok:
  assumes "sx_fault X = None" "traces_first (accepts_trace X db) (ingested_items X ws k batch)"
  shows "ir_errors (snd (handle_items (sqlite_writer X) X ws k batch db r)) = ir_errors r"
proof (rule handle_items_no_errors)
  fix it x pre post
  assume split: "batch = pre @ it # post" "ingested_item X (ws (k + length pre)) it = Some x"
  then have "traces_first (accepts_trace X db) (ingested_items X ws k pre @ [x])"
    using assms(2) by (cases x) (simp_all add: ingested_items_append traces_first_append)
  then show "put_result (sqlite_writer X) x (fold (put_item (sqlite_writer X)) (ingested_items X ws k pre) db) = Ok ()"
    by (rule put_result_ok [OF assms(1)])
qed

section \<open>What a Langfuse export leaves on the server\<close>

text \<open>A trace and an observation as they arrive: times, ends, tokens of a trace, level and type of a tool call are not taken over.\<close>

definition arrived_trace :: "instant \<Rightarrow> trace \<Rightarrow> trace" where
  "arrived_trace now t = (trace_new (trc_id t) now (trc_name t))\<lparr>trc_session_id := trc_session_id t, trc_user_id := trc_user_id t, trc_tags := trc_tags t,
     trc_metadata := trc_metadata t, trc_input := Some (json_opt id (trc_input t)), trc_output := Some (json_opt id (trc_output t))\<rparr>"

definition arrived_observation :: "instant \<Rightarrow> observation \<Rightarrow> observation" where
  "arrived_observation now ob = (if ob_type ob = ObsGeneration
     then (obs_generation (ob_id ob) now (ob_trace_id ob) (ob_name ob) (value_or ''unknown'' (ob_model ob)))
       \<lparr>ob_usage := map_option (\<lambda>u. u\<lparr>cu_cached := None\<rparr>) (ob_usage ob), ob_cost := ob_cost ob, ob_level := ob_level ob\<rparr>
     else obs_span (ob_id ob) now (ob_trace_id ob) (ob_name ob))
     \<lparr>ob_parent := ob_parent ob, ob_input := Some (json_opt id (ob_input ob)), ob_output := Some (json_opt id (ob_output ob)), ob_metadata := ob_metadata ob\<rparr>"

lemma json_member_JObj [simp]: "json_member k (JObj kvs) = map_of kvs k"
  by (simp add: json_member_def)

lemma json_opt_text [simp]: "as_str (json_opt JStr v) = v"
  by (cases v) (simp_all add: json_opt_def)

lemma map_filter_strings [simp]: "List.map_filter as_str (map JStr ss) = ss"
  by (induction ss) (simp_all add: List.map_filter_def)

lemma read_trace_item:
  "read_ingestion_item (build_trace_item X stamp t) =
     Some \<lparr>ii_id = Some (''juncture-trace-'' @ sx_show_id X (trc_id t)), ii_type = ''trace-create'', ii_body = the (json_member ''body'' (build_trace_item X stamp t))\<rparr>"
  by (simp add: read_ingestion_item_def build_trace_item_def optional_text_def)

lemma arrives_trace:
  assumes "columns_ok X"
  shows "ingested_trace X w (the (json_member ''body'' (build_trace_item X stamp t))) = arrived_trace (iw_now w) t"
  using columns_okD(1) [OF assms]
  by (simp add: ingested_trace_def arrived_trace_def build_trace_item_def body_text_def body_id_def value_or_def as_array_def trace_new_def)

definition obs_item_type :: "observation \<Rightarrow> string" where
  "obs_item_type ob = (if ob_type ob = ObsGeneration then ''generation-create'' else ''span-create'')"

lemma read_obs_item:
  "read_ingestion_item (build_obs_item X stamp ob) =
     Some \<lparr>ii_id = Some (''juncture-obs-'' @ sx_show_id X (ob_id ob)), ii_type = obs_item_type ob, ii_body = the (json_member ''body'' (build_obs_item X stamp ob))\<rparr>"
  by (simp add: read_ingestion_item_def build_obs_item_def optional_text_def obs_item_type_def Let_def)

lemma arrives_observation:
  assumes "columns_ok X" and "\<And>u. ob_usage ob = Some u \<Longrightarrow> cu_input u \<le> u64_max \<and> cu_output u \<le> u64_max \<and> cu_total u \<le> u64_max"
  shows "ingested_item X w \<lparr>ii_id = i, ii_type = obs_item_type ob, ii_body = the (json_member ''body'' (build_obs_item X stamp ob))\<rparr> =
    Some (ItemObservation (arrived_observation (iw_now w) ob))"
proof -
  let ?body = "the (json_member ''body'' (build_obs_item X stamp ob))"
  note defs = build_obs_item_def Let_def body_text_def body_id_def map_add_def
  have m: "body_id X ''id'' ?body = Some (ob_id ob)" "body_id X ''traceId'' ?body = Some (ob_trace_id ob)" "body_text ''name'' ?body = Some (ob_name ob)"
    "body_id X ''parentObservationId'' ?body = ob_parent ob" "json_member ''input'' ?body = Some (json_opt id (ob_input ob))"
    "json_member ''output'' ?body = Some (json_opt id (ob_output ob))" "json_member ''metadata'' ?body = Some (ob_metadata ob)"
    "body_text ''model'' ?body = ob_model ob" "body_text ''level'' ?body = Some (level_text (ob_level ob))"
    using columns_okD(1) [OF assms(1)] by (simp_all add: defs split: option.splits)
  have g: "map_option ingested_usage (or_else (json_member ''usage'' ?body) (json_member ''usageDetails'' ?body)) = map_option (\<lambda>u. u\<lparr>cu_cached := None\<rparr>) (ob_usage ob)"
    "json_member ''modelParameters'' ?body = None"
    using assms(2) by (auto simp add: defs or_else_def ingested_usage_def value_or_def split: option.splits)
  have c: "ingested_cost ?body = ob_cost ob"
    by (simp add: defs or_else_def ingested_cost_def split: option.splits)
  show ?thesis
  proof (cases "ob_type ob = ObsGeneration")
    case True
    then show ?thesis using m g c
      by (simp add: ingested_item_def obs_item_type_def ingested_generation_def arrived_observation_def value_or_def or_else_def obs_generation_def observation_of_def)
  next
    case False
    then show ?thesis using m
      by (simp add: ingested_item_def obs_item_type_def ingested_span_def arrived_observation_def value_or_def obs_span_def observation_of_def)
  qed
qed

definition trace_entry :: "store_context \<Rightarrow> string \<Rightarrow> trace \<Rightarrow> ingestion_item" where
  "trace_entry X stamp t = the (read_ingestion_item (build_trace_item X stamp t))"

definition obs_entry :: "store_context \<Rightarrow> string \<Rightarrow> observation \<Rightarrow> ingestion_item" where
  "obs_entry X stamp ob = the (read_ingestion_item (build_obs_item X stamp ob))"

lemma read_export: "read_ingestion_request (export_batch X stamp t obs) = Some (trace_entry X stamp t # map (obs_entry X stamp) obs)"
proof -
  have "read_items (map (build_obs_item X stamp) obs) = Some (map (obs_entry X stamp) obs)"
    by (induction obs) (simp_all add: read_obs_item obs_entry_def)
  then show ?thesis by (simp add: read_ingestion_request_def export_batch_def as_array_def read_trace_item trace_entry_def)
qed

definition counts_fit :: "observation \<Rightarrow> bool" where
  "counts_fit ob \<longleftrightarrow> (case ob_usage ob of Some u \<Rightarrow> cu_input u \<le> u64_max \<and> cu_output u \<le> u64_max \<and> cu_total u \<le> u64_max | None \<Rightarrow> True)"

definition arrivals :: "(nat \<Rightarrow> ingest_world) \<Rightarrow> nat \<Rightarrow> observation list \<Rightarrow> observation list" where
  "arrivals ws k obs = map (\<lambda>(j, ob). arrived_observation (iw_now (ws j)) ob) (enumerate k obs)"

lemma arrived_observation_ids [simp]:
  "ob_id (arrived_observation now ob) = ob_id ob" "ob_trace_id (arrived_observation now ob) = ob_trace_id ob"
  by (simp_all add: arrived_observation_def obs_generation_def obs_span_def observation_of_def)

lemma arrivals_simps [simp]:
  "arrivals ws k [] = []" "arrivals ws k (ob # obs) = arrived_observation (iw_now (ws k)) ob # arrivals ws (k + 1) obs"
  by (simp_all add: arrivals_def)

lemma arrivals_ids: "map ob_id (arrivals ws k obs) = map ob_id obs" "map ob_trace_id (arrivals ws k obs) = map ob_trace_id obs"
  by (induction obs arbitrary: k) simp_all

lemma arrivals_nth [simp]:
  "length (arrivals ws j obs) = length obs" "k < length obs \<Longrightarrow> arrivals ws j obs ! k = arrived_observation (iw_now (ws (j + k))) (obs ! k)"
  by (simp_all add: arrivals_def nth_enumerate_eq)

lemma arrivals_mem: "x \<in> set (arrivals ws j obs) \<longleftrightarrow> (\<exists>k. k < length obs \<and> x = arrived_observation (iw_now (ws (j + k))) (obs ! k))"
  by (metis arrivals_nth in_set_conv_nth)

lemma obs_entry_arrives:
  assumes "columns_ok X" "counts_fit ob"
  shows "ingested_item X w (obs_entry X stamp ob) = Some (ItemObservation (arrived_observation (iw_now w) ob))"
  unfolding obs_entry_def read_obs_item option.sel
  by (rule arrives_observation [OF assms(1)]) (use assms(2) in \<open>simp add: counts_fit_def\<close>)

lemma export_items:
  assumes "columns_ok X" "\<forall>ob \<in> set obs. counts_fit ob"
  shows "ingested_items X ws 0 (trace_entry X stamp t # map (obs_entry X stamp) obs) =
    ItemTrace (arrived_trace (iw_now (ws 0)) t) # map ItemObservation (arrivals ws 1 obs)"
proof -
  have "ingested_items X ws k (map (obs_entry X stamp) obs) = map ItemObservation (arrivals ws k obs)" for k
    using assms(2) by (induction obs arbitrary: k) (simp_all add: obs_entry_arrives [OF assms(1)])
  moreover have "ingested_item X (ws 0) (trace_entry X stamp t) = Some (ItemTrace (arrived_trace (iw_now (ws 0)) t))"
    by (simp add: trace_entry_def read_trace_item ingested_item_def arrives_trace [OF assms(1)])
  ultimately show ?thesis by simp
qed

lemma latest_of_batch:
  "latest_trace (ItemTrace t # map ItemObservation obs) (trc_id t) = Some t"
  "distinct (map ob_id obs) \<Longrightarrow> latest_observation (ItemTrace t # map ItemObservation obs) i = Some ob \<longleftrightarrow> ob \<in> set obs \<and> ob_id ob = i"
  "traces_first k (ItemTrace t # map ItemObservation obs) \<longleftrightarrow> (\<forall>ob \<in> set obs. k (ob_trace_id ob) \<or> ob_trace_id ob = trc_id t)"
proof -
  have "latest_trace ((ItemTrace t # map ItemObservation obs)) (trc_id t) = Some t"
  proof (induction obs rule: rev_induct)
    case (snoc ob obs)
    then show ?case using latest_simps(3) [of "ItemTrace t # map ItemObservation obs" ob] by simp
  qed (simp add: latest_trace_def)
  then show "latest_trace (ItemTrace t # map ItemObservation obs) (trc_id t) = Some t" .
  show "latest_observation (ItemTrace t # map ItemObservation obs) i = Some ob \<longleftrightarrow> ob \<in> set obs \<and> ob_id ob = i" if "distinct (map ob_id obs)"
    using that
  proof (induction obs rule: rev_induct)
    case (snoc ob' obs)
    then show ?case using latest_simps(6) [of "ItemTrace t # map ItemObservation obs" ob' i] by auto
  qed (simp add: latest_observation_def)
  show "traces_first k (ItemTrace t # map ItemObservation obs) \<longleftrightarrow> (\<forall>ob \<in> set obs. k (ob_trace_id ob) \<or> ob_trace_id ob = trc_id t)"
    by (induction obs) simp_all
qed

text \<open>
  C39: What a Langfuse export leaves on the embedded server.  Posting the batch the exporter builds for a trace and its observations to an empty server stores the
  trace and every observation under their identifiers and reports no error.  Names, parents, payloads, tags, models, costs and token counts arrive; the
  start becomes the time of arrival, the end, the totals of the trace and the cached tokens are lost, tool calls become spans, only generations keep their level, and an absent
  payload becomes \<open>null\<close>.
\<close>

theorem langfuse_export_arrives:
  assumes "columns_ok X" and "sx_fault X = None" and "\<forall>ob \<in> set obs. ob_trace_id ob = trc_id t \<and> counts_fit ob" and "distinct (map ob_id obs)"
    and "rq_verb rq = ''POST''" and "rq_path rq = ''/api/public/ingestion''" and "rq_body rq = export_batch X stamp t obs"
    and "admitted (ae_decode64 E) keys (rq_path rq) (rq_authorization rq)"
  shows "\<exists>db r os. serve X E keys rq trace_db_new = (db, Some (200, Ok (VIngestion r))) \<and> ir_errors r = [] \<and> length (ir_successes r) = Suc (length obs) \<and>
     get_trace X (trc_id t) db = Ok (Some (arrived_trace (iw_now (ae_items E 0)) t, os)) \<and> distinct (map ob_id os) \<and>
     set os = {stored_observation (arrived_observation (iw_now (ae_items E (k + 1))) (obs ! k)) | k. k < length obs}"
proof -
  let ?ws = "ae_items E"
  let ?batch = "trace_entry X stamp t # map (obs_entry X stamp) obs"
  let ?t = "arrived_trace (iw_now (?ws 0)) t"
  let ?obs = "arrivals ?ws 1 obs"
  let ?items = "ItemTrace ?t # map ItemObservation ?obs"
  have id: "trc_id ?t = trc_id t" "stored_trace ?t = ?t" by (simp_all add: arrived_trace_def trace_new_def stored_trace_def)
  have "\<forall>ob \<in> set obs. counts_fit ob" using assms(3) by blast
  note items = export_items [OF assms(1) this, of ?ws stamp t]
  have tid: "\<forall>ob \<in> set ?obs. ob_trace_id ob = trc_id t"
  proof -
    have "set (map ob_trace_id ?obs) \<subseteq> {trc_id t}" using assms(3) unfolding arrivals_ids by auto
    then show ?thesis by auto
  qed
  have first: "traces_first k ?items" for k using tid unfolding latest_of_batch id by blast
  have dist: "distinct (map ob_id ?obs)" unfolding arrivals_ids by (rule assms(4))
  define out where "out = handle_ingestion (sqlite_writer X) X ?ws ?batch trace_db_new"
  have db: "fst out = written X ?items" and n: "answered (snd out) = Suc (length obs)"
    using handle_items_exact [of "sqlite_writer X" X ?ws 0 ?batch trace_db_new "\<lparr>ir_successes = [], ir_errors = []\<rparr>"]
    by (simp_all add: out_def handle_ingestion_def items written_def answering_self [OF assms(2)] answered_def del: ingested_items_simps)
  have e: "ir_errors (snd out) = []"
    using ingestion_ok [of X trace_db_new ?ws 0 ?batch "\<lparr>ir_successes = [], ir_errors = []\<rparr>"] assms(2) first
    by (simp add: out_def handle_ingestion_def items del: ingested_items_simps traces_first.simps)
  have "create_router (rq_verb rq) (rq_path rq) = Some EpIngestion" by (simp add: assms(5,6) create_router_def)
  then have served: "serve X E keys rq trace_db_new = (fst out, Some (200, Ok (VIngestion (snd out))))"
    using assms(8) by (simp add: serve_def dispatch_def assms(7) read_export out_def split: prod.split)
  obtain os where os: "get_trace X (trc_id t) (written X ?items) = Ok (Some (?t, os))" "distinct (map ob_id os)"
    "set os = {stored_observation ob | ob. latest_observation ?items (ob_id ob) = Some ob \<and> ob_trace_id ob = trc_id t}"
    using readback [OF assms(1,2) first [of "\<lambda>_. False"], of "trc_id t" ?t] latest_of_batch(1) [of ?t ?obs] unfolding id by blast
  have "set os = stored_observation ` set ?obs" using os(3) latest_of_batch(2) [OF dist, of ?t] tid by auto
  also have "\<dots> = {stored_observation (arrived_observation (iw_now (?ws (k + 1))) (obs ! k)) | k. k < length obs}"
    using arrivals_mem [of _ ?ws 1 obs] by (auto simp: add.commute)
  finally show ?thesis using served e n db os by (auto simp: answered_def)
qed

definition example_env :: api_env where
  "example_env = \<lparr>ae_decode64 = Some, ae_show_f64 = (\<lambda>_. []), ae_items = (\<lambda>_. \<lparr>iw_item = ''item'', iw_id = 8, iw_trace = 9, iw_now = 100\<rparr>),
     ae_fresh = (\<lambda>j k. prod_encode (j, k))\<rparr>"

definition example_post :: api_request where
  "example_post = \<lparr>rq_verb = ''POST'', rq_path = ''/api/public/ingestion'', rq_authorization = Some ''Basic pk:sk'', rq_query = [],
     rq_body = export_batch example_context ''now'' example_trace [example_observation], rq_otlp = None\<rparr>"

theorem langfuse_export_arrives_witness:
  "\<exists>db r os. serve example_context example_env \<lparr>ak_public = Some ''pk'', ak_secret = Some ''sk''\<rparr> example_post trace_db_new =
       (db, Some (200, Ok (VIngestion r))) \<and> ir_errors r = [] \<and>
     get_trace example_context 1 db = Ok (Some (arrived_trace 100 example_trace, os)) \<and> length (ir_successes r) = 2"
proof -
  let ?keys = "\<lparr>ak_public = Some ''pk'', ak_secret = Some ''sk''\<rparr>"
  have h: "sx_fault example_context = None" "\<forall>ob \<in> set [example_observation]. ob_trace_id ob = trc_id example_trace \<and> counts_fit ob"
    "distinct (map ob_id [example_observation])" "rq_verb example_post = ''POST''" "rq_path example_post = ''/api/public/ingestion''"
    "rq_body example_post = export_batch example_context ''now'' example_trace [example_observation]"
    "admitted (ae_decode64 example_env) ?keys (rq_path example_post) (rq_authorization example_post)"
    by (simp_all add: example_context_def example_observation_def obs_span_def observation_of_def example_trace_def trace_new_def counts_fit_def
        example_post_def example_env_def admitted_def auth_middleware_def strip_prefix_def starts_with_def split_colon_def)
  have "trc_id example_trace = 1" "iw_now (ae_items example_env 0) = 100" by (simp_all add: example_trace_def trace_new_def example_env_def)
  with langfuse_export_arrives [OF example_context_ok h] show ?thesis by (auto simp: numeral_2_eq_2)
qed

section \<open>Who may write\<close>

lemma split_colon_iff: "CHR '':'' \<notin> set pk \<Longrightarrow> split_colon s = Some (pk, sk) \<longleftrightarrow> s = pk @ '':'' @ sk"
proof
  assume "split_colon s = Some (pk, sk)"
  then obtain c where d: "dropWhile (\<lambda>c. c \<noteq> CHR '':'') s = c # sk" "takeWhile (\<lambda>c. c \<noteq> CHR '':'') s = pk"
    by (auto simp: split_colon_def split: list.splits)
  moreover have "c = CHR '':''" using hd_dropWhile [of "\<lambda>c. c \<noteq> CHR '':''" s] d(1) by simp
  ultimately show "s = pk @ '':'' @ sk" using takeWhile_dropWhile_id [of "\<lambda>c. c \<noteq> CHR '':''" s] by simp
next
  assume pk: "CHR '':'' \<notin> set pk" and "s = pk @ '':'' @ sk"
  have "\<And>c. c \<in> set pk \<Longrightarrow> c \<noteq> CHR '':''" using pk by blast
  then show "split_colon s = Some (pk, sk)"
    using takeWhile_append2 [of pk "\<lambda>c. c \<noteq> CHR '':''" "'':'' @ sk"] dropWhile_append2 [of pk "\<lambda>c. c \<noteq> CHR '':''" "'':'' @ sk"]
    by (simp add: split_colon_def \<open>s = pk @ '':'' @ sk\<close>)
qed

text \<open>
  C40: With both keys configured the server answers every request to the API, reading or writing, with 401 and leaves the database alone, except when the
  credentials decode to exactly the two keys.  The ingestion of OpenTelemetry spans is outside the guarded paths: it writes whatever the
  credentials are.
\<close>

theorem credentials_guard_api:
  assumes keys: "keys = \<lparr>ak_public = Some pk, ak_secret = Some sk\<rparr>" "CHR '':'' \<notin> set pk"
  shows "(starts_with ''/api/'' (rq_path rq) \<longrightarrow>
       (\<nexists>enc. rq_authorization rq = Some (''Basic '' @ enc) \<and> ae_decode64 E enc = Some (pk @ '':'' @ sk)) \<longrightarrow>
       serve X E keys rq db = (db, Some (401, Err ''Unauthorized''))) \<and>
     (starts_with ''/api/'' (rq_path rq) \<longrightarrow>
       (\<exists>enc. rq_authorization rq = Some (''Basic '' @ enc) \<and> ae_decode64 E enc = Some (pk @ '':'' @ sk)) \<longrightarrow>
       serve X E keys rq db = serve X E auth_keys_default rq db) \<and>
     (rq_path rq = ''/v1/traces'' \<longrightarrow> serve X E keys rq db = serve X E auth_keys_default rq db)"
proof -
  have ok: "admitted (ae_decode64 E) keys (rq_path rq) (rq_authorization rq) \<longleftrightarrow>
      (\<exists>enc. rq_authorization rq = Some (''Basic '' @ enc) \<and> ae_decode64 E enc = Some (pk @ '':'' @ sk))"
    if "starts_with ''/api/'' (rq_path rq)"
  proof -
    have "rq_path rq \<noteq> ''/''" "rq_path rq \<noteq> ''/health''" using that by (auto simp: starts_with_iff)
    then have "admitted (ae_decode64 E) keys (rq_path rq) (rq_authorization rq) \<longleftrightarrow>
        (\<exists>enc. strip_prefix ''Basic '' (case rq_authorization rq of Some h \<Rightarrow> h | None \<Rightarrow> []) = Some enc \<and>
           Option.bind (ae_decode64 E enc) split_colon = Some (pk, sk))"
      using that by (simp add: admitted_def auth_middleware_def keys split: option.split)
    also have "\<dots> \<longleftrightarrow> (\<exists>enc. rq_authorization rq = Some (''Basic '' @ enc) \<and> ae_decode64 E enc = Some (pk @ '':'' @ sk))"
      using split_colon_iff [OF keys(2), of _ sk] by (simp add: strip_prefix_iff bind_eq_Some_conv split: option.split)
    finally show ?thesis .
  qed
  have free: "admitted (ae_decode64 E) auth_keys_default p h" for p h by (simp add: admitted_def auth_keys_default_def)
  have otlp: "admitted (ae_decode64 E) keys ''/v1/traces'' h" for h by (simp add: admitted_def auth_middleware_def keys starts_with_def)
  show ?thesis using ok free otlp by (auto simp: serve_def)
qed

theorem credentials_guard_api_witness:
  "serve example_context example_env \<lparr>ak_public = Some ''pk'', ak_secret = Some ''sk''\<rparr> (example_post\<lparr>rq_authorization := None\<rparr>) trace_db_new =
     (trace_db_new, Some (401, Err ''Unauthorized''))"
proof -
  have "CHR '':'' \<notin> set ''pk''" "starts_with ''/api/'' (rq_path (example_post\<lparr>rq_authorization := None\<rparr>))"
    "rq_authorization (example_post\<lparr>rq_authorization := None\<rparr>) = None"
    by (simp_all add: example_post_def starts_with_def)
  then show ?thesis using credentials_guard_api [OF refl, of "''pk''" "example_post\<lparr>rq_authorization := None\<rparr>" example_env "''sk''" example_context trace_db_new]
    by simp
qed

section \<open>What becomes of OpenTelemetry spans\<close>

definition all_spans :: "resource_spans list \<Rightarrow> otlp_span list" where
  "all_spans rss = concat (map (\<lambda>rs. concat (rs_spans rs)) rss)"

lemma named_spans_fst: "map fst (named_spans show_f64 rss) = all_spans rss"
  by (induction rss) (simp_all add: named_spans_def all_spans_def comp_def)

lemma span_count_all: "span_count rss = length (all_spans rss)"
  by (simp add: span_count_def all_spans_def length_concat comp_def)

lemma push_groups:
  "im_wf (fold push_span sps []) \<and>
   (\<forall>h. im_get (fold push_span sps []) h = (let l = filter (\<lambda>sp. os_trace_id (fst sp) = h) sps in if l = [] then None else Some l))"
proof (induction sps rule: rev_induct)
  case (snoc sp sps)
  then show ?case by (auto simp: push_span_def im_modify_def Let_def)
qed simp

lemma group_mem:
  "(h, l) \<in> set (fold push_span sps []) \<longleftrightarrow> l = filter (\<lambda>sp. os_trace_id (fst sp) = h) sps \<and> l \<noteq> []"
proof -
  let ?m = "fold push_span sps []"
  have "(h, l) \<in> set ?m \<longleftrightarrow> im_get ?m h = Some l" using im_get_SomeD [of ?m h l] im_get_mem [of ?m h l] push_groups [of sps] by blast
  then show ?thesis using push_groups [of sps] by (auto simp: Let_def)
qed

lemma group_sizes: "sum_list (map (length \<circ> snd) (fold push_span sps [])) = length sps"
proof -
  have ins: "sum_list (map (length \<circ> snd) (im_modify h [] (\<lambda>l. l @ [x]) m)) = Suc (sum_list (map (length \<circ> snd) m))" for h x and m :: "(string, (otlp_span \<times> string) list) imap"
  proof (induction m)
    case (Cons kv m)
    then show ?case by (cases kv) (auto simp: im_modify_def im_get_Cons)
  qed (simp add: im_modify_def)
  show ?thesis by (induction sps rule: rev_induct) (simp_all add: push_span_def ins [unfolded comp_def] comp_def)
qed

lemma group_number: "length (fold push_span sps []) = card (os_trace_id ` fst ` set sps)"
proof -
  let ?m = "fold push_span sps []"
  have "distinct (map fst ?m)" using push_groups [of sps] by (simp add: im_keys_def)
  moreover have "fst ` set ?m = os_trace_id ` fst ` set sps"
  proof
    show "fst ` set ?m \<subseteq> os_trace_id ` fst ` set sps"
    proof
      fix h assume "h \<in> fst ` set ?m"
      then obtain l where "(h, l) \<in> set ?m" by auto
      then have "l = filter (\<lambda>sp. os_trace_id (fst sp) = h) sps" "l \<noteq> []" unfolding group_mem by (rule conjunct1, rule conjunct2)
      then have "filter (\<lambda>sp. os_trace_id (fst sp) = h) sps \<noteq> []" by (rule subst)
      then show "h \<in> os_trace_id ` fst ` set sps" by (auto simp: filter_empty_conv)
    qed
    show "os_trace_id ` fst ` set sps \<subseteq> fst ` set ?m"
    proof
      fix h assume "h \<in> os_trace_id ` fst ` set sps"
      then have "(h, filter (\<lambda>sp. os_trace_id (fst sp) = h) sps) \<in> set ?m" by (auto simp: group_mem filter_empty_conv)
      then show "h \<in> fst ` set ?m" by force
    qed
  qed
  ultimately show ?thesis by (metis distinct_card length_map list.set_map)
qed

lemma enumerate_memD: "(k, x) \<in> set (enumerate n xs) \<Longrightarrow> x \<in> set xs"
  by (induction xs arbitrary: n) auto

lemma convert_mem:
  assumes "x \<in> set (convert_resource_spans X show_f64 now fresh rss)"
  obtains j hex spans where "x = build_trace_from_spans X show_f64 now (fresh j) hex spans"
    "spans = filter (\<lambda>sp. os_trace_id (fst sp) = hex) (named_spans show_f64 rss)" "spans \<noteq> []"
proof -
  from assms obtain j hex spans where x: "(j, hex, spans) \<in> set (enumerate 0 (fold push_span (named_spans show_f64 rss) []))"
    "x = build_trace_from_spans X show_f64 now (fresh j) hex spans"
    by (auto simp: convert_resource_spans_def)
  from enumerate_memD [OF x(1)] have "spans = filter (\<lambda>sp. os_trace_id (fst sp) = hex) (named_spans show_f64 rss) \<and> spans \<noteq> []"
    by (rule group_mem [THEN iffD1])
  then show thesis by (intro that [of j hex spans] x(2)) (rule conjunct1, assumption, rule conjunct2, assumption)
qed

lemma build_observations:
  "snd (build_trace_from_spans X show_f64 now fresh hex spans) =
     map (\<lambda>(k, sp, _). span_to_observation X show_f64 (fresh (2 * k + 1)) (fresh (2 * k + 2)) sp (hex_to_uuid X (fresh 0) hex)) (enumerate 0 spans)"
  "trc_id (fst (build_trace_from_spans X show_f64 now fresh hex spans)) = hex_to_uuid X (fresh 0) hex"
  by (simp_all add: build_trace_from_spans_def Let_def trace_new_def split: prod.split)

lemma build_observation_mem:
  assumes "ob \<in> set (snd (build_trace_from_spans X show_f64 now fresh hex spans))"
  obtains k sp svc where "(sp, svc) \<in> set spans"
    "ob = span_to_observation X show_f64 (fresh (2 * k + 1)) (fresh (2 * k + 2)) sp (hex_to_uuid X (fresh 0) hex)"
proof -
  from assms obtain k sp svc where "(k, sp, svc) \<in> set (enumerate 0 spans)"
    "ob = span_to_observation X show_f64 (fresh (2 * k + 1)) (fresh (2 * k + 2)) sp (hex_to_uuid X (fresh 0) hex)"
    unfolding build_observations by auto
  moreover from this(1) have "(sp, svc) \<in> set spans" by (rule enumerate_memD)
  ultimately show thesis by (intro that)
qed

text \<open>
  The tree of an OpenTelemetry trace is lost.  Span identifiers have 16 hexadecimal digits, below the 32 from which the identifier of an observation is made, so
  each observation gets a fresh identifier and each reference to a parent another one: when fresh identifiers never repeat, no observation of
  a request has a stored observation as its parent, whatever the spans say.
\<close>

theorem otlp_hierarchy_lost:
  assumes "\<forall>j k j' k'. fresh j k = fresh j' k' \<longrightarrow> j = j' \<and> k = k'"
    and "\<forall>sp \<in> set (all_spans rss). length (os_span_id sp) = 16 \<and> (\<forall>p. os_parent_id sp = Some p \<longrightarrow> length p = 16)"
    and "results = convert_resource_spans X show_f64 now fresh rss"
    and "(t, obs) \<in> set results" and "ob \<in> set obs" and "(t', obs') \<in> set results" and "ob' \<in> set obs'"
  shows "ob_parent ob \<noteq> Some (ob_id ob')"
proof -
  have shape: "\<exists>j k. ob_id o1 = fresh j (2 * k + 1) \<and> ob_parent o1 \<in> {None, Some (fresh j (2 * k + 2))}"
    if r: "(t1, obs1) \<in> set results" "o1 \<in> set obs1" for t1 obs1 o1
  proof -
    obtain j hex spans where b: "(t1, obs1) = build_trace_from_spans X show_f64 now (fresh j) hex spans"
      "spans = filter (\<lambda>sp. os_trace_id (fst sp) = hex) (named_spans show_f64 rss)" "spans \<noteq> []"
      by (rule convert_mem [OF r(1) [unfolded assms(3)]])
    have "o1 \<in> set (snd (build_trace_from_spans X show_f64 now (fresh j) hex spans))" using r(2) by (simp flip: b(1))
    then obtain k sp svc where o1: "(sp, svc) \<in> set spans"
      "o1 = span_to_observation X show_f64 (fresh j (2 * k + 1)) (fresh j (2 * k + 2)) sp (hex_to_uuid X (fresh j 0) hex)"
      by (rule build_observation_mem)
    have "sp \<in> fst ` set (named_spans show_f64 rss)" using o1(1) unfolding b(2) by force
    then have "sp \<in> set (all_spans rss)" unfolding named_spans_fst [symmetric, of _ show_f64] by simp
    with assms(2) have "ob_id o1 = fresh j (2 * k + 1)" "ob_parent o1 \<in> {None, Some (fresh j (2 * k + 2))}"
      by (cases "os_parent_id sp"; simp add: o1(2) span_to_observation_def hex_to_uuid_def)+
    then show ?thesis by blast
  qed
  from shape [OF assms(4,5)] obtain j k where o: "ob_parent ob \<in> {None, Some (fresh j (2 * k + 2))}" by blast
  from shape [OF assms(6,7)] obtain j' k' where o': "ob_id ob' = fresh j' (2 * k' + 1)" by blast
  have "2 * k + 2 \<noteq> 2 * k' + 1" by presburger
  then have "fresh j (2 * k + 2) \<noteq> fresh j' (2 * k' + 1)" using assms(1) by blast
  then show ?thesis using o unfolding o' by auto
qed

definition example_span :: "string \<Rightarrow> string option \<Rightarrow> otlp_span" where
  "example_span i p = \<lparr>os_trace_id = ''t'', os_span_id = i, os_parent_id = p, os_name = i, os_start = ''5'', os_end = None, os_attributes = None, os_status = None\<rparr>"

definition example_spans :: "resource_spans list" where
  "example_spans = [\<lparr>rs_attributes = None, rs_spans = [[example_span ''0123456789abcdef'' None, example_span ''fedcba9876543210'' (Some ''0123456789abcdef'')]]\<rparr>]"

abbreviation example_converted :: "(trace \<times> observation list) list" where
  "example_converted \<equiv> convert_resource_spans example_context (\<lambda>_. []) 9 (\<lambda>j k. prod_encode (j, k)) example_spans"

lemma example_converted_shape: "\<exists>t o1 o2. example_converted = [(t, [o1, o2])] \<and> ob_parent o2 \<noteq> None"
  by (simp add: convert_resource_spans_def example_spans_def named_spans_def push_span_def example_span_def im_modify_def im_get_Cons
      build_trace_from_spans_def aggregate_usage_def Let_def span_to_observation_def)

theorem otlp_hierarchy_lost_witness:
  "ob_parent (snd (hd example_converted) ! 1) \<noteq> None \<and> ob_parent (snd (hd example_converted) ! 1) \<noteq> Some (ob_id (snd (hd example_converted) ! 0))"
proof -
  obtain t o1 o2 where c: "example_converted = [(t, [o1, o2])]" "ob_parent o2 \<noteq> None" using example_converted_shape by blast
  have fresh: "\<forall>j k j' k'. prod_encode (j, k) = prod_encode (j', k') \<longrightarrow> j = j' \<and> k = k'" by (simp add: prod_encode_eq)
  have len: "\<forall>sp \<in> set (all_spans example_spans). length (os_span_id sp) = 16 \<and> (\<forall>p. os_parent_id sp = Some p \<longrightarrow> length p = 16)"
    by (simp add: all_spans_def example_spans_def example_span_def)
  have "ob_parent o2 \<noteq> Some (ob_id o1)"
    by (rule otlp_hierarchy_lost [OF fresh len refl, of t "[o1, o2]" example_context "\<lambda>_. []" 9 o2 t "[o1, o2]" o1]) (simp_all add: c(1))
  with c show ?thesis by simp
qed

lemma fold_bounds:
  fixes x :: "'a :: linorder"
  shows "x \<in> set (t # ts) \<Longrightarrow> fold min ts t \<le> x" "x \<in> set (t # ts) \<Longrightarrow> x \<le> fold max ts t"
  using Min_le [of "set (t # ts)" x] Max_ge [of "set (t # ts)" x] by (simp_all only: Min.set_eq_fold [symmetric] Max.set_eq_fold [symmetric] List.finite_set)

lemma build_times:
  assumes "spans \<noteq> []" "ob \<in> set (snd (build_trace_from_spans X show_f64 now fresh hex spans))"
  shows "trc_start_time (fst (build_trace_from_spans X show_f64 now fresh hex spans)) \<le> ob_start_time ob"
    and "ob_end_time ob = Some e \<Longrightarrow> \<exists>e'. trc_end_time (fst (build_trace_from_spans X show_f64 now fresh hex spans)) = Some e' \<and> e \<le> e'"
    and "ob_trace_id ob = trc_id (fst (build_trace_from_spans X show_f64 now fresh hex spans))"
proof -
  obtain k sp svc where sp: "(sp, svc) \<in> set spans"
    "ob = span_to_observation X show_f64 (fresh (2 * k + 1)) (fresh (2 * k + 2)) sp (hex_to_uuid X (fresh 0) hex)"
    using assms(2) by (rule build_observation_mem)
  have ob: "ob_start_time ob = nano_to_datetime (os_start sp)" "ob_end_time ob = map_option nano_to_datetime (os_end sp)"
    "ob_trace_id ob = hex_to_uuid X (fresh 0) hex"
    by (simp_all add: sp(2) span_to_observation_def)
  let ?starts = "map (\<lambda>(sp, _). nano_to_datetime (os_start sp)) spans"
  let ?ends = "List.map_filter (\<lambda>(sp, _). map_option nano_to_datetime (os_end sp)) spans"
  have tr: "trc_start_time (fst (build_trace_from_spans X show_f64 now fresh hex spans)) = (case ?starts of [] \<Rightarrow> now | t # ts \<Rightarrow> fold min ts t)"
    "trc_end_time (fst (build_trace_from_spans X show_f64 now fresh hex spans)) = (case ?ends of [] \<Rightarrow> None | t # ts \<Rightarrow> Some (fold max ts t))"
    by (simp_all add: build_trace_from_spans_def Let_def trace_new_def split: prod.split)
  have "ob_start_time ob \<in> set ?starts" using sp(1) unfolding ob by force
  then show "trc_start_time (fst (build_trace_from_spans X show_f64 now fresh hex spans)) \<le> ob_start_time ob"
    unfolding tr by (cases ?starts) (simp_all only: list.case empty_iff list.set(1) fold_bounds(1))
  show "\<exists>e'. trc_end_time (fst (build_trace_from_spans X show_f64 now fresh hex spans)) = Some e' \<and> e \<le> e'" if "ob_end_time ob = Some e"
  proof -
    have "e \<in> set ?ends" using that sp(1) unfolding ob by (force simp: map_filter_def)
    then show ?thesis unfolding tr by (cases ?ends) (simp_all only: list.case empty_iff list.set(1) fold_bounds(2) option.inject ex_simps simp_thms)
  qed
  show "ob_trace_id ob = trc_id (fst (build_trace_from_spans X show_f64 now fresh hex spans))" unfolding ob build_observations ..
qed

lemma persist_ok:
  assumes "sx_fault X = None" "\<And>t obs ob. (t, obs) \<in> set traces \<Longrightarrow> ob \<in> set obs \<Longrightarrow> ob_trace_id ob = trc_id t"
  shows "snd (persist_traces (sqlite_writer X) traces db) = 0"
  using assms(2)
proof (induction traces arbitrary: db)
  case (Cons x traces)
  obtain t obs where x: "x = (t, obs)" by fastforce
  let ?W = "sqlite_writer X"
  note self = answering_self [OF assms(1)]
  let ?db = "fst (tw_trace ?W t db)"
  have "flush_items (tw_trace ?W) [t] db = (?db, 0)"
    using sqlite.trace_ok [of X t db] by (simp add: self case_prod_beta)
  moreover have "snd (flush_items (tw_observation ?W) obs ?db) = 0"
  proof -
    have "accepts_trace X ?db (ob_trace_id ob)" if "ob \<in> set obs" for ob
      using sqlite.known_trace [of X db "trc_id t" t] Cons.prems [of t obs ob] that by (simp add: x self)
    then show ?thesis
      unfolding flush_items_snd using sqlite.observation_ok [of X] sqlite.known_observations [of X] by (simp add: self)
  qed
  moreover have "snd (persist_traces ?W traces db') = 0" for db' by (rule Cons.IH) (rule Cons.prems, simp_all)
  ultimately show ?case by (simp add: x case_prod_beta)
qed simp

definition trace_covers :: "resource_spans list \<Rightarrow> trace \<Rightarrow> observation list \<Rightarrow> bool" where
  "trace_covers rss t obs \<longleftrightarrow> (\<exists>hex. map ob_name obs = map os_name (filter (\<lambda>sp. os_trace_id sp = hex) (all_spans rss))) \<and>
     (\<forall>ob \<in> set obs. ob_trace_id ob = trc_id t \<and> trc_start_time t \<le> ob_start_time ob \<and>
        (\<forall>e. ob_end_time ob = Some e \<longrightarrow> (\<exists>e'. trc_end_time t = Some e' \<and> e \<le> e')))"

lemma convert_covers:
  assumes "(t, obs) \<in> set (convert_resource_spans X show_f64 now fresh rss)"
  shows "trace_covers rss t obs"
proof -
  obtain j hex spans where b: "(t, obs) = build_trace_from_spans X show_f64 now (fresh j) hex spans"
    "spans = filter (\<lambda>sp. os_trace_id (fst sp) = hex) (named_spans show_f64 rss)" "spans \<noteq> []"
    by (rule convert_mem [OF assms])
  have t: "t = fst (build_trace_from_spans X show_f64 now (fresh j) hex spans)" "obs = snd (build_trace_from_spans X show_f64 now (fresh j) hex spans)"
    by (simp_all flip: b(1))
  have "map ob_name (map (\<lambda>(k, sp, _). span_to_observation X show_f64 (f k) (g k) sp tid) (enumerate n ss)) = map os_name (map fst ss)"
    for f g tid n and ss :: "(otlp_span \<times> string) list"
    by (induction ss arbitrary: n) (auto simp: span_to_observation_def)
  then have "map ob_name obs = map os_name (map fst spans)" unfolding t build_observations .
  moreover have "map fst spans = filter (\<lambda>sp. os_trace_id sp = hex) (all_spans rss)"
    unfolding b(2) named_spans_fst [symmetric, of _ show_f64] by (simp add: filter_map comp_def)
  ultimately show ?thesis unfolding trace_covers_def using build_times [OF b(3)] unfolding t by metis
qed

lemma convert_sizes:
  "map (\<lambda>(t, obs). length obs) (convert_resource_spans X show_f64 now fresh rss) = map (length \<circ> snd) (fold push_span (named_spans show_f64 rss) [])"
proof -
  have "map (\<lambda>x. length (snd (build_trace_from_spans X show_f64 now (fresh (fst x)) (fst (snd x)) (snd (snd x))))) (enumerate k m) = map (length \<circ> snd) m"
    for k and m :: "(string, (otlp_span \<times> string) list) imap"
    by (induction m arbitrary: k) (auto simp: build_observations)
  then show ?thesis by (simp add: convert_resource_spans_def comp_def case_prod_beta)
qed

text \<open>
  A request of OpenTelemetry spans gives one trace for each trace identifier in it and one observation for each span, in the order of the spans.  A trace starts no later
  and ends no earlier than its observations, and while the database answers everything is stored.
\<close>

theorem otlp_traces_exact:
  assumes "sx_fault X = None" and "results = convert_resource_spans X show_f64 now fresh rss"
  shows "snd (handle_otlp_traces (sqlite_writer X) X show_f64 now fresh rss db) = (card (os_trace_id ` set (all_spans rss)), length (all_spans rss), 0) \<and>
     length results = card (os_trace_id ` set (all_spans rss)) \<and> sum_list (map (\<lambda>(t, obs). length obs) results) = length (all_spans rss) \<and>
     (\<forall>(t, obs) \<in> set results. trace_covers rss t obs)"
proof -
  have set: "fst ` set (named_spans show_f64 rss) = set (all_spans rss)" unfolding named_spans_fst [symmetric, of _ show_f64] by simp
  have len: "length (named_spans show_f64 rss) = length (all_spans rss)" unfolding named_spans_fst [symmetric, of _ show_f64] by simp
  have n: "length results = card (os_trace_id ` set (all_spans rss))"
    using group_number [of "named_spans show_f64 rss"] by (simp add: assms(2) convert_resource_spans_def set)
  have each: "trace_covers rss t obs" if "(t, obs) \<in> set results" for t obs using convert_covers that assms(2) by blast
  have "snd (persist_traces (sqlite_writer X) results db) = 0"
    by (rule persist_ok [OF assms(1)]) (use each in \<open>unfold trace_covers_def, blast\<close>)
  then show ?thesis
    using n convert_sizes [of X show_f64 now fresh rss] each group_sizes [of "named_spans show_f64 rss"] len
    by (auto simp: handle_otlp_traces_def span_count_all assms(2) [symmetric] Let_def case_prod_beta)
qed

theorem otlp_traces_exact_witness:
  "snd (handle_otlp_traces (sqlite_writer example_context) example_context (\<lambda>_. []) 9 (\<lambda>j k. prod_encode (j, k)) example_spans trace_db_new) = (1, 2, 0)"
proof -
  have "sx_fault example_context = None" by (simp add: example_context_def)
  from otlp_traces_exact [OF this refl, of "\<lambda>_. []" 9 "\<lambda>j k. prod_encode (j, k)" example_spans trace_db_new]
  show ?thesis by (simp add: all_spans_def example_spans_def example_span_def)
qed

end
