(* ===== verification/Derived_State.thy ===== *)
theory Derived_State
  imports State_Trait
begin

text \<open>
  \<open>juncture-derive/src/state_derive.rs\<close>: the \<open>State\<close> implementation the derive macro generates.
  A struct is its list of field specifications, a state the list of its field values in
  declaration order, an update the list of its optional fields.  What the generated code
  takes from the field types (\<open>Extend::extend\<close>, \<open>Default::default\<close>, custom reducer functions)
  comes with the field specification.
\<close>

section \<open>Attributes\<close>

datatype 'v reducer_type =
    RReplace
  | RAppend
  | REphemeral
  | RCustom "'v \<Rightarrow> 'v \<Rightarrow> 'v"
  | RLastWriteWins
  | RUntracked
  | RReplaceAfterFinish
  | RAny

text \<open>
  The tokens of \<open>#[reducer(...)]\<close>: an identifier, with the path after \<open>=\<close> if there is one (as the
  function it names).
\<close>

type_synonym 'v reducer_tokens = "string \<times> ('v \<Rightarrow> 'v \<Rightarrow> 'v) option"

definition parse_reducer :: "'v reducer_tokens \<Rightarrow> (string, 'v reducer_type) result" where
  "parse_reducer t = (case t of
     (ident, None) \<Rightarrow>
       (if ident = ''replace'' then Ok RReplace
        else if ident = ''append'' then Ok RAppend
        else if ident = ''ephemeral'' then Ok REphemeral
        else if ident = ''last_write_wins'' then Ok RLastWriteWins
        else if ident = ''untracked'' then Ok RUntracked
        else if ident = ''replace_after_finish'' then Ok RReplaceAfterFinish
        else if ident = ''any'' then Ok RAny
        else if ident = ''custom'' then Err ''expected =''
        else Err (''Unknown reducer type: '' @ ident))
   | (ident, Some f) \<Rightarrow>
       (if ident = ''custom'' then Ok (RCustom f)
        else Err (''unexpected token after '' @ ident)))"

text \<open>An attribute of a field: its path and, for a list attribute, its tokens.\<close>

type_synonym 'v field_attr = "string \<times> 'v reducer_tokens option"

fun parse_reducer_attr :: "'v field_attr list \<Rightarrow> 'v reducer_type" where
  "parse_reducer_attr [] = RReplace"
| "parse_reducer_attr ((path, toks) # attrs) =
     (if path = ''reducer''
      then (case toks of
          Some t \<Rightarrow> (case parse_reducer t of Inr r \<Rightarrow> r | Inl _ \<Rightarrow> parse_reducer_attr attrs)
        | None \<Rightarrow> parse_reducer_attr attrs)
      else parse_reducer_attr attrs)"

section \<open>Generated methods\<close>

record 'v field_spec =
  fs_name :: string
  fs_reducer :: "'v reducer_type"
  fs_extend :: "'v \<Rightarrow> 'v \<Rightarrow> 'v"
  fs_default :: 'v

type_synonym 'v derived_state = "'v list"
type_synonym 'v derived_update = "'v option list"

text \<open>One arm of the generated \<open>apply\<close>: the new value of a field that the update sets.\<close>

definition apply_arm :: "'v field_spec \<Rightarrow> 'v \<Rightarrow> 'v \<Rightarrow> 'v" where
  "apply_arm f cur v = (case fs_reducer f of
       RAppend \<Rightarrow> fs_extend f cur v
     | RCustom g \<Rightarrow> g cur v
     | _ \<Rightarrow> v)"

text \<open>The sequence of arms; the field constants are the positions in the declaration.\<close>

fun apply_arms ::
    "nat \<Rightarrow> 'v field_spec list \<Rightarrow> 'v list \<Rightarrow> 'v option list \<Rightarrow> fields_changed \<Rightarrow> 'v list \<times> fields_changed" where
  "apply_arms i (f # fs) (v # vs) (u # us) changed = (case u of
       Some x \<Rightarrow> (let (rest, ch) = apply_arms (i + 1) fs vs us (set_field changed i)
                  in (apply_arm f v x # rest, ch))
     | None \<Rightarrow> (let (rest, ch) = apply_arms (i + 1) fs vs us changed in (v # rest, ch)))"
| "apply_arms i fs vs us changed = (vs, changed)"

definition derived_apply :: "'v field_spec list \<Rightarrow> 'v list \<Rightarrow> 'v option list \<Rightarrow> 'v list \<times> fields_changed" where
  "derived_apply fs s u = apply_arms 0 fs s u 0"

definition derived_try_apply ::
    "'v field_spec list \<Rightarrow> 'v list \<Rightarrow> 'v option list \<Rightarrow> (invalid_update_error, 'v list \<times> fields_changed) result" where
  "derived_try_apply fs s u = Ok (apply_arms 0 fs s u 0)"

definition is_ephemeral :: "'v reducer_type \<Rightarrow> bool" where
  "is_ephemeral r = (case r of REphemeral \<Rightarrow> True | _ \<Rightarrow> False)"

definition is_replace :: "'v reducer_type \<Rightarrow> bool" where
  "is_replace r = (case r of RReplace \<Rightarrow> True | _ \<Rightarrow> False)"

definition is_replace_after_finish :: "'v reducer_type \<Rightarrow> bool" where
  "is_replace_after_finish r = (case r of RReplaceAfterFinish \<Rightarrow> True | _ \<Rightarrow> False)"

definition derived_reset_ephemeral :: "'v field_spec list \<Rightarrow> 'v list \<Rightarrow> 'v list" where
  "derived_reset_ephemeral fs s =
     map2 (\<lambda>f v. if is_ephemeral (fs_reducer f) then fs_default f else v) fs s"

definition indices_where :: "('v reducer_type \<Rightarrow> bool) \<Rightarrow> 'v field_spec list \<Rightarrow> nat list" where
  "indices_where P fs = filter (\<lambda>i. P (fs_reducer (fs ! i))) [0..<length fs]"

definition replace_field_indices :: "'v field_spec list \<Rightarrow> nat list" where
  "replace_field_indices fs = indices_where is_replace fs"

definition replace_after_finish_field_indices :: "'v field_spec list \<Rightarrow> nat list" where
  "replace_after_finish_field_indices fs = indices_where is_replace_after_finish fs"

definition consume_field_indices :: "'v field_spec list \<Rightarrow> nat list" where
  "consume_field_indices fs = indices_where is_ephemeral fs"

text \<open>Both hooks have empty arms for the fields they name and an empty wildcard.\<close>

definition derived_finish_field :: "nat \<Rightarrow> 'v list \<Rightarrow> 'v list" where
  "derived_finish_field i s = s"

definition derived_consume_field :: "nat \<Rightarrow> 'v list \<Rightarrow> 'v list" where
  "derived_consume_field i s = s"

definition derived_field_is_set :: "'v option list \<Rightarrow> nat \<Rightarrow> bool" where
  "derived_field_is_set u i = (if i < length u then u ! i \<noteq> None else False)"

text \<open>The generated chain of migrations, one step per registered version.\<close>

function derived_migrate :: "nat \<Rightarrow> (nat \<times> (json \<Rightarrow> json)) list \<Rightarrow> nat \<Rightarrow> json \<Rightarrow> json" where
  "derived_migrate schema_version fns from_version v =
     (if from_version \<ge> schema_version then v
      else case map_of fns from_version of
          Some f \<Rightarrow> derived_migrate schema_version fns (from_version + 1) (f v)
        | None \<Rightarrow> v)"
  by pat_completeness auto
termination
  by (relation "measure (\<lambda>(sv, _, fv, _). sv - fv)") auto

declare derived_migrate.simps [simp del]

section \<open>The derived implementation\<close>

datatype derive_error = NotAStruct | NoFields | TooManyFields nat

text \<open>
  The checks of \<open>derive_state_impl\<close> on the item and the implementation it generates.  The
  macro does not generate \<open>delta_channel_specs\<close>: the trait's empty default stays.
\<close>

definition derived_impl :: "'v field_spec list \<Rightarrow> ('v list, 'v option list) state_impl" where
  "derived_impl fs =
     \<lparr>st_default = map fs_default fs,
      st_apply = derived_apply fs,
      st_try_apply = derived_try_apply fs,
      st_reset_ephemeral = derived_reset_ephemeral fs,
      st_finish_field = derived_finish_field,
      st_consume_field = derived_consume_field,
      st_consume_field_indices = consume_field_indices fs,
      st_replace_field_indices = replace_field_indices fs,
      st_replace_after_finish_field_indices = replace_after_finish_field_indices fs,
      st_field_is_set = derived_field_is_set,
      st_field_count = length fs,
      st_field_names = map fs_name fs,
      st_delta_channel_specs = []\<rparr>"

definition derive_state_impl ::
    "'v field_spec list option \<Rightarrow> (derive_error, ('v list, 'v option list) state_impl) result" where
  "derive_state_impl item = (case item of
       None \<Rightarrow> Err NotAStruct
     | Some fs \<Rightarrow>
         if fs = [] then Err NoFields
         else if length fs > 64 then Err (TooManyFields (length fs))
         else Ok (derived_impl fs))"

text \<open>
  \<open>generate_subset_impl\<close>: a child struct whose fields are fields of the parent.  Fields are matched by
  name; a field the parent does not have is a compile error (\<open>None\<close>).
\<close>

definition subset_extract :: "string list \<Rightarrow> string list \<Rightarrow> 'v list \<Rightarrow> 'v list option" where
  "subset_extract child parent s = those (map (\<lambda>n. map_of (zip parent s) n) child)"

definition subset_map_update ::
    "string list \<Rightarrow> string list \<Rightarrow> 'v option list \<Rightarrow> 'v option list option" where
  "subset_map_update child parent u =
     (if set child \<subseteq> set parent
      then Some (map (\<lambda>n. case map_of (zip child u) n of Some x \<Rightarrow> x | None \<Rightarrow> None) parent)
      else None)"

section \<open>Lemmas\<close>

lemma apply_arms_length: "length (fst (apply_arms i fs vs us ch)) = length vs"
  by (induction i fs vs us ch rule: apply_arms.induct) (auto split: option.splits prod.splits simp: Let_def)

lemma apply_arms_changed:
  assumes "length fs = length vs" "length us = length fs" "i + length fs \<le> 64" "j < 64"
  shows "has_field (snd (apply_arms i fs vs us ch)) j \<longleftrightarrow>
     has_field ch j \<or> (i \<le> j \<and> j < i + length us \<and> us ! (j - i) \<noteq> None)"
  using assms
proof (induction i fs vs us ch rule: apply_arms.induct)
  case (1 i f fs v vs u us changed)
  have idx: "(i \<le> j \<and> j < i + length (u # us) \<and> (u # us) ! (j - i) \<noteq> None) \<longleftrightarrow>
      (j = i \<and> u \<noteq> None) \<or> (i + 1 \<le> j \<and> j < i + 1 + length us \<and> us ! (j - (i + 1)) \<noteq> None)"
  proof (cases "j = i")
    case False
    then have "i \<le> j \<Longrightarrow> j - i = Suc (j - (i + 1))" by simp
    with False show ?thesis by (cases "i \<le> j") auto
  qed auto
  have ij: "j mod 64 = i mod 64 \<longleftrightarrow> j = i" using "1.prems" by simp
  show ?case
  proof (cases u)
    case None
    with 1 idx show ?thesis by (simp add: split_beta Let_def)
  next
    case (Some x)
    with 1 idx ij show ?thesis by (auto simp: split_beta Let_def)
  qed
qed auto

lemma apply_arms_nth:
  assumes "length fs = length vs" "length us = length fs" "j < length fs"
  shows "fst (apply_arms i fs vs us ch) ! j =
     (case us ! j of Some x \<Rightarrow> apply_arm (fs ! j) (vs ! j) x | None \<Rightarrow> vs ! j)"
  using assms
proof (induction i fs vs us ch arbitrary: j rule: apply_arms.induct)
  case (1 i f fs v vs u us changed)
  then show ?case
    by (cases j) (auto simp: split_beta Let_def split: option.splits)
qed auto

lemma derived_apply_none:
  assumes "length fs = length s" "length u = length fs" "\<forall>i < length u. u ! i = None"
  shows "derived_apply fs s u = (s, 0)"
proof -
  have "length fs = length vs \<Longrightarrow> length us = length fs \<Longrightarrow> \<forall>i < length us. us ! i = None \<Longrightarrow>
      apply_arms i fs vs us ch = (vs, ch)" for i vs ch and us :: "'a option list"
  proof (induction i fs vs us ch rule: apply_arms.induct)
    case (1 i f fs v vs u us ch)
    then have "u = None" "\<forall>i < length us. us ! i = None" by auto
    with 1 show ?case by simp
  qed auto
  with assms show ?thesis by (simp add: derived_apply_def)
qed

lemma derived_reset_length [simp]: "length fs = length s \<Longrightarrow> length (derived_reset_ephemeral fs s) = length s"
  by (simp add: derived_reset_ephemeral_def)

text \<open>
  The generated implementation meets the engine's contract.  The macro rejects structs with
  more than 64 fields, so the interpretation speaks of at most 64 specifications.
\<close>

lemma derived_contract:
  fixes fs :: "'v field_spec list"
  assumes le: "length fs \<le> 64"
  shows "state_contract (derived_impl fs) (\<lambda>s. length s = length fs) (\<lambda>u. length u = length fs)"
proof unfold_locales
  fix s s' :: "'v list" and u :: "'v option list" and fc i
  assume s: "length s = length fs" and u: "length u = length fs"
  show "length s' = length fs" if "st_try_apply (derived_impl fs) s u = Inr (s', fc)"
    using that s apply_arms_length [of 0 fs s u 0] by (simp add: derived_impl_def derived_try_apply_def)
  show "has_field fc i \<longleftrightarrow> i < st_field_count (derived_impl fs) \<and> st_field_is_set (derived_impl fs) u i"
    if "st_try_apply (derived_impl fs) s u = Inr (s', fc)" "i < 64"
    using that s u le apply_arms_changed [of fs s u 0 i 0]
    by (auto simp: derived_impl_def derived_try_apply_def derived_field_is_set_def)
  show "s' = s" if "st_try_apply (derived_impl fs) s u = Inr (s', 0)"
  proof -
    from that have ap: "apply_arms 0 fs s u 0 = (s', 0)"
      by (simp add: derived_impl_def derived_try_apply_def)
    have "u ! i = None" if "i < length u" for i
      using that ap s u le apply_arms_changed [of fs s u 0 i 0] by auto
    with derived_apply_none [of fs s u] s u ap show ?thesis by (simp add: derived_apply_def)
  qed
qed (simp_all add: derived_impl_def derived_finish_field_def derived_consume_field_def le)

interpretation derived: state_contract "derived_impl (take 64 fs)"
  "\<lambda>s. length s = length (take 64 fs)" "\<lambda>u. length u = length (take 64 fs)" for fs :: "'v field_spec list"
  by (rule derived_contract) simp

section \<open>Properties\<close>

text \<open>
  For a struct the derive macro accepts, applying an update never fails, combines each field
  the update sets by that field's reducer, leaves every other field alone, and reports exactly
  the set fields in the changed mask.
\<close>

theorem derived_apply_exact:
  assumes "derive_state_impl (Some fs) = Ok S"
    and "length s = length fs" and "length u = length fs"
  shows "\<exists>s' fc. st_try_apply S s u = Ok (s', fc) \<and> st_apply S s u = (s', fc) \<and> length s' = length fs \<and>
     (\<forall>i < length fs.
        s' ! i = (case u ! i of Some x \<Rightarrow> apply_arm (fs ! i) (s ! i) x | None \<Rightarrow> s ! i) \<and>
        (has_field fc i \<longleftrightarrow> u ! i \<noteq> None))"
proof -
  obtain s' fc where ap: "apply_arms 0 fs s u 0 = (s', fc)" by fastforce
  from assms(1) have S: "S = derived_impl fs" and le: "length fs \<le> 64"
    by (auto simp: derive_state_impl_def split: if_splits)
  have "length s' = length fs" using apply_arms_length [of 0 fs s u 0] ap assms by simp
  moreover have "s' ! i = (case u ! i of Some x \<Rightarrow> apply_arm (fs ! i) (s ! i) x | None \<Rightarrow> s ! i) \<and>
      (has_field fc i \<longleftrightarrow> u ! i \<noteq> None)" if "i < length fs" for i
    using apply_arms_nth [of fs s u i 0 0] apply_arms_changed [of fs s u 0 i 0] ap assms that le by auto
  ultimately show ?thesis
    using ap by (simp add: S derived_impl_def derived_try_apply_def derived_apply_def)
qed

text \<open>A struct with an appended, a replaced and an ephemeral field.\<close>

definition example_specs :: "nat list field_spec list" where
  "example_specs =
     [\<lparr>fs_name = ''log'', fs_reducer = RAppend, fs_extend = (@), fs_default = []\<rparr>,
      \<lparr>fs_name = ''cur'', fs_reducer = RReplace, fs_extend = (@), fs_default = []\<rparr>,
      \<lparr>fs_name = ''tmp'', fs_reducer = REphemeral, fs_extend = (@), fs_default = []\<rparr>]"

theorem derived_apply_exact_witness:
  "st_apply (derived_impl example_specs) [[1], [2], [3]] [Some [4], Some [5], None] = ([[1, 4], [5], [3]], 3) \<and>
   (\<exists>s' fc. st_try_apply (derived_impl example_specs) [[1], [2], [3]] [Some [4], Some [5], None] = Ok (s', fc) \<and>
      s' ! 0 = [1, 4] \<and> s' ! 2 = [3] \<and> \<not> has_field fc 2)"
proof
  show "st_apply (derived_impl example_specs) [[1], [2], [3]] [Some [4], Some [5], None] = ([[1, 4], [5], [3]], 3)"
    by (simp add: derived_impl_def derived_apply_def example_specs_def apply_arm_def set_field_def fc_bit_def)
  have "derive_state_impl (Some example_specs) = Ok (derived_impl example_specs)"
    by (simp add: derive_state_impl_def example_specs_def)
  from derived_apply_exact [OF this, of "[[1], [2], [3]]" "[Some [4], Some [5], None]"]
  show "\<exists>s' fc. st_try_apply (derived_impl example_specs) [[1], [2], [3]] [Some [4], Some [5], None] = Ok (s', fc) \<and>
      s' ! 0 = [1, 4] \<and> s' ! 2 = [3] \<and> \<not> has_field fc 2"
    by (fastforce simp: example_specs_def apply_arm_def)
qed

end
