(* ===== verification/Versions.thy ===== *)
theory Versions
  imports Derived_State
begin

text \<open>
  \<open>juncture-core/src/pregel/scheduler.rs\<close>, first part: the version counters of the state's fields
  and the versions each node has seen.  Indexing out of range panics: such an operation
  returns \<open>None\<close>.
\<close>

section \<open>FieldVersionTracker\<close>

record version_tracker =
  vt_versions :: "nat list"
  vt_global_max :: nat

definition tracker_new :: "nat \<Rightarrow> version_tracker option" where
  "tracker_new n = (if n \<le> 64 then Some \<lparr>vt_versions = replicate n 0, vt_global_max = 0\<rparr> else None)"

definition bump :: "nat \<Rightarrow> version_tracker \<Rightarrow> version_tracker option" where
  "bump i t = (let g = sat_add (vt_global_max t) 1 in
     if i < length (vt_versions t)
     then Some (t\<lparr>vt_global_max := g, vt_versions := (vt_versions t)[i := g]\<rparr>)
     else None)"

text \<open>The loop of \<open>bump_all\<close>; every index it bumps is in range.\<close>

definition bump_if :: "fields_changed \<Rightarrow> nat \<Rightarrow> version_tracker \<Rightarrow> version_tracker" where
  "bump_if changed i t = (if has_field changed i
     then (case bump i t of Some t' \<Rightarrow> t' | None \<Rightarrow> t) else t)"

definition bump_all :: "fields_changed \<Rightarrow> version_tracker \<Rightarrow> version_tracker" where
  "bump_all changed t = fold (bump_if changed) [0..<length (vt_versions t)] t"

definition tracker_get :: "version_tracker \<Rightarrow> nat \<Rightarrow> nat option" where
  "tracker_get t i = (if i < length (vt_versions t) then Some (vt_versions t ! i) else None)"

definition tracker_len :: "version_tracker \<Rightarrow> nat" where
  "tracker_len t = length (vt_versions t)"

section \<open>VersionsSeen\<close>

type_synonym versions_seen = "(string, nat list) imap"

definition versions_seen_new :: "string list \<Rightarrow> nat \<Rightarrow> versions_seen" where
  "versions_seen_new names n = fold (\<lambda>name m. im_insert name (replicate n 0) m) names []"

fun any_newer :: "nat list \<Rightarrow> nat list \<Rightarrow> nat list \<Rightarrow> bool option" where
  "any_newer [] current seen = Some False"
| "any_newer (i # is) current seen =
     (if i < length current \<and> i < length seen
      then (if current ! i > seen ! i then Some True else any_newer is current seen)
      else None)"

definition should_activate :: "versions_seen \<Rightarrow> string \<Rightarrow> nat list \<Rightarrow> nat list \<Rightarrow> bool option" where
  "should_activate vs node trigger_fields current = (case im_get vs node of
       None \<Rightarrow> Some True
     | Some seen \<Rightarrow> any_newer trigger_fields current seen)"

definition mark_consumed :: "string \<Rightarrow> nat list \<Rightarrow> versions_seen \<Rightarrow> versions_seen option" where
  "mark_consumed node current vs = (case im_get vs node of
       Some seen \<Rightarrow> if length seen = length current then Some (im_insert node current vs) else None
     | None \<Rightarrow> Some vs)"

definition get_seen :: "versions_seen \<Rightarrow> string \<Rightarrow> nat list" where
  "get_seen vs node = (case im_get vs node of Some v \<Rightarrow> v | None \<Rightarrow> [])"

fun newer_fields :: "nat list \<Rightarrow> nat list \<Rightarrow> nat list \<Rightarrow> nat list option" where
  "newer_fields [] current seen = Some []"
| "newer_fields (i # is) current seen =
     (if i < length current \<and> i < length seen
      then map_option (\<lambda>r. if current ! i > seen ! i then i # r else r) (newer_fields is current seen)
      else None)"

definition compute_triggered_fields :: "versions_seen \<Rightarrow> string \<Rightarrow> nat list \<Rightarrow> nat list \<Rightarrow> nat list option" where
  "compute_triggered_fields vs node trigger_fields current = (case im_get vs node of
       None \<Rightarrow> Some trigger_fields
     | Some seen \<Rightarrow> newer_fields trigger_fields current seen)"

section \<open>Lemmas\<close>

definition tracker_inv :: "version_tracker \<Rightarrow> bool" where
  "tracker_inv t \<longleftrightarrow> (\<forall>v \<in> set (vt_versions t). v \<le> vt_global_max t) \<and> vt_global_max t \<le> u64_max
     \<and> length (vt_versions t) \<le> 64"

lemma bump_if_length [simp]: "length (vt_versions (bump_if ch i t)) = length (vt_versions t)"
  by (auto simp: bump_if_def bump_def Let_def split: option.splits)

lemma bump_if_inv: "tracker_inv t \<Longrightarrow> tracker_inv (bump_if ch i t)"
proof -
  assume inv: "tracker_inv t"
  let ?g = "sat_add (vt_global_max t) 1"
  have g: "vt_global_max t \<le> ?g" using inv by (intro sat_add_mono) (simp add: tracker_inv_def)
  have "v \<le> ?g" if "v \<in> set ((vt_versions t)[i := ?g])" for v
    using subsetD [OF set_update_subset_insert that] inv g by (auto simp: tracker_inv_def intro: order_trans)
  with inv show ?thesis by (auto simp: bump_if_def bump_def Let_def tracker_inv_def)
qed

lemma fold_bump_inv: "tracker_inv t \<Longrightarrow> tracker_inv (fold (bump_if ch) is t)"
  by (induction "is" arbitrary: t) (auto intro: bump_if_inv)

lemma fold_bump_length [simp]: "length (vt_versions (fold (bump_if ch) is t)) = length (vt_versions t)"
  by (induction "is" arbitrary: t) auto

interpretation tracker_ts: transition_system "\<lambda>t. \<exists>n. tracker_new n = Some t" bump_all tracker_inv
proof unfold_locales
  fix t e assume "tracker_inv t" then show "tracker_inv (bump_all e t)"
    by (simp add: bump_all_def fold_bump_inv)
qed (auto simp: tracker_new_def tracker_inv_def split: if_splits)

text \<open>Bumping the first \<open>k\<close> fields, without reaching the saturation bound.\<close>

lemma bump_prefix:
  fixes t :: version_tracker and ch :: fields_changed and k :: nat
  assumes "k \<le> length (vt_versions t)" "vt_global_max t + k \<le> u64_max"
  defines "t' \<equiv> fold (bump_if ch) [0..<k] t"
  shows "vt_global_max t \<le> vt_global_max t' \<and> vt_global_max t' \<le> vt_global_max t + k \<and>
    (\<forall>i < length (vt_versions t). \<not> (i < k \<and> has_field ch i) \<longrightarrow> vt_versions t' ! i = vt_versions t ! i) \<and>
    (\<forall>i < k. has_field ch i \<longrightarrow> vt_global_max t < vt_versions t' ! i \<and> vt_versions t' ! i \<le> vt_global_max t')"
  using assms(1,2) unfolding t'_def
proof (induction k)
  case (Suc k)
  let ?t = "fold (bump_if ch) [0..<k] t"
  from Suc have IH: "vt_global_max t \<le> vt_global_max ?t" "vt_global_max ?t \<le> vt_global_max t + k"
    "\<forall>i < length (vt_versions t). \<not> (i < k \<and> has_field ch i) \<longrightarrow> vt_versions ?t ! i = vt_versions t ! i"
    "\<forall>i < k. has_field ch i \<longrightarrow> vt_global_max t < vt_versions ?t ! i \<and> vt_versions ?t ! i \<le> vt_global_max ?t"
    by auto
  have fold: "fold (bump_if ch) [0..<Suc k] t = bump_if ch k ?t" by simp
  show ?case
  proof (cases "has_field ch k")
    case True
    have g: "sat_add (vt_global_max ?t) 1 = Suc (vt_global_max ?t)"
      using IH(2) Suc.prems by (simp add: sat_add_def)
    have b: "bump_if ch k ?t = ?t\<lparr>vt_global_max := Suc (vt_global_max ?t),
        vt_versions := (vt_versions ?t)[k := Suc (vt_global_max ?t)]\<rparr>"
      using True Suc.prems by (simp add: bump_if_def bump_def Let_def g [simplified])
    show ?thesis unfolding fold b
      using IH Suc.prems True by (auto simp: nth_list_update less_Suc_eq)
  next
    case False
    then have "bump_if ch k ?t = ?t" by (simp add: bump_if_def)
    with IH False show ?thesis unfolding fold by (auto simp: less_Suc_eq)
  qed
qed simp

lemma newer_fields_eq:
  "\<forall>i \<in> set is. i < length current \<and> i < length seen \<Longrightarrow>
     newer_fields is current seen = Some (filter (\<lambda>i. current ! i > seen ! i) is)"
  by (induction "is" current seen rule: newer_fields.induct) auto

lemma any_newer_eq:
  "\<forall>i \<in> set is. i < length current \<and> i < length seen \<Longrightarrow>
     any_newer is current seen = Some (\<exists>i \<in> set is. current ! i > seen ! i)"
  by (induction "is" current seen rule: any_newer.induct) auto

section \<open>Properties\<close>

text \<open>
  Bumping the changed fields gives each of them a version above every version issued before, leaves
  every other field's version alone, and keeps the tracker's bound; this holds as long as
  the 64-bit counter has room for one step per field.
\<close>

theorem bump_all_exact:
  assumes "vt_global_max t + length (vt_versions t) \<le> u64_max" and "i < length (vt_versions t)"
  shows "if has_field changed i
     then vt_global_max t < vt_versions (bump_all changed t) ! i \<and>
          vt_versions (bump_all changed t) ! i \<le> vt_global_max (bump_all changed t)
     else vt_versions (bump_all changed t) ! i = vt_versions t ! i"
  using bump_prefix [of "length (vt_versions t)" t changed] assms by (auto simp: bump_all_def)

theorem bump_all_exact_witness:
  "vt_versions (bump_all 5 \<lparr>vt_versions = [0, 0, 0], vt_global_max = 0\<rparr>) ! 1 = 0 \<and>
   0 < vt_versions (bump_all 5 \<lparr>vt_versions = [0, 0, 0], vt_global_max = 0\<rparr>) ! 2"
proof -
  have h: "\<not> has_field 5 1" "has_field 5 2" by (simp_all add: has_field_def fc_bit_def)
  show ?thesis
    using bump_all_exact [of "\<lparr>vt_versions = [0, 0, 0], vt_global_max = 0\<rparr>" 1 5]
      bump_all_exact [of "\<lparr>vt_versions = [0, 0, 0], vt_global_max = 0\<rparr>" 2 5] h
    by (simp add: u64_max_def)
qed

text \<open>
  A tracked node is activated exactly when some trigger field has a version it has not seen, the
  reported triggered fields are exactly those fields, and after the node has consumed the current
  versions it is not activated again until a version grows.
\<close>

theorem activation_exact:
  assumes "im_get vs node = Some seen" and "length seen = length current"
    and "\<forall>i \<in> set fs. i < length current"
  shows "should_activate vs node fs current = Some (\<exists>i \<in> set fs. current ! i > seen ! i) \<and>
     compute_triggered_fields vs node fs current = Some (filter (\<lambda>i. current ! i > seen ! i) fs) \<and>
     (\<exists>vs'. mark_consumed node current vs = Some vs' \<and> should_activate vs' node fs current = Some False)"
  using assms
  by (simp add: should_activate_def compute_triggered_fields_def mark_consumed_def any_newer_eq newer_fields_eq)

theorem activation_exact_witness:
  "should_activate (versions_seen_new [''a''] 3) ''a'' [0, 2] [0, 0, 4] = Some True \<and>
   compute_triggered_fields (versions_seen_new [''a''] 3) ''a'' [0, 2] [0, 0, 4] = Some [2]"
  using activation_exact [of "versions_seen_new [''a''] 3" "''a''" "[0, 0, 0]" "[0, 0, 4]" "[0, 2]"]
  by (simp add: versions_seen_new_def im_get_def numeral_3_eq_3)

end
