(* ===== verification/Graph_Builder.thy ===== *)
theory Graph_Builder
  imports Topology Derived_State
begin

text \<open>
  \<open>juncture-core/src/graph/builder.rs\<close> and the construction side of \<open>graph/compiled.rs\<close>: the graph
  builder, its node wrappers, compilation into a trigger table, and the per-node policy
  maps derived from the metadata.  A user's node is a function from the number of the attempt within
  its task and the state to its outcome; checkpointers, caches and subgraph nodes are opaque
  values.  A builder method that fails leaves the graph as it was, so it returns the error
  or the new graph.
\<close>

section \<open>Nodes\<close>

type_synonym ('s, 'u) node_fn = "nat \<Rightarrow> 's \<Rightarrow> (juncture_error, 'u command) result"

record 's node_error =
  ne_node :: string
  ne_error :: juncture_error
  ne_state :: 's
  ne_attempt :: nat

datatype ('s, 'u) node =
    PlainNode "('s, 'u) node_fn"
  | ErrorHandlerNode "('s, 'u) node_fn" "'s node_error \<Rightarrow> 'u command"
  | RetryingNode "('s, 'u) node_fn" retry_policy

text \<open>One call of a node of the given name; \<open>None\<close> is a panic in the retry delays.\<close>

fun node_call ::
    "string \<Rightarrow> (nat \<Rightarrow> rat) \<Rightarrow> ('s, 'u) node \<Rightarrow> 's \<Rightarrow> (juncture_error, 'u command) result option" where
  "node_call name rnd (PlainNode f) s = Some (f 0 s)"
| "node_call name rnd (ErrorHandlerNode f handler) s = Some (case f 0 s of
       Inr c \<Rightarrow> Ok c
     | Inl e \<Rightarrow> Ok (handler \<lparr>ne_node = name, ne_error = e, ne_state = s, ne_attempt = 1\<rparr>))"
| "node_call name rnd (RetryingNode f policy) s = snd (execute_with_retry name policy (\<lambda>i. f i s) rnd)"

section \<open>The builder\<close>

datatype subgraph_persistence = Inherit | PerThread | Stateless

record ('s, 'u) subgraph_mount =
  mount_name :: string
  mount_persistence :: subgraph_persistence
  mount_node :: "('s, 'u) node"

record ('s, 'u) state_graph =
  sg_nodes :: "(string, ('s, 'u) node) imap"
  sg_edges :: "'s edge list"
  sg_entry_point :: "string option"
  sg_finish_points :: "string list"
  sg_metadata :: "(string, node_metadata) imap"
  sg_subgraphs :: "('s, 'u) subgraph_mount list"

definition state_graph_new :: "('s, 'u) state_graph" where
  "state_graph_new = \<lparr>sg_nodes = [], sg_edges = [], sg_entry_point = None, sg_finish_points = [],
     sg_metadata = [], sg_subgraphs = []\<rparr>"

type_synonym ('s, 'u) build_result = "(topology_error, ('s, 'u) state_graph) result"

text \<open>The common tail of the \<open>add_node\<close> family: reject a known name, else insert node and metadata.\<close>

definition insert_node ::
    "string \<Rightarrow> ('s, 'u) node \<Rightarrow> node_metadata \<Rightarrow> ('s, 'u) state_graph \<Rightarrow> ('s, 'u) build_result" where
  "insert_node name node md g =
     (if im_contains (sg_nodes g) name then Err (DuplicateNode name)
      else Ok (g\<lparr>sg_nodes := im_insert name node (sg_nodes g),
                 sg_metadata := im_insert name md (sg_metadata g)\<rparr>))"

definition add_node ::
    "string \<Rightarrow> ('s, 'u) node_fn \<Rightarrow> bool \<Rightarrow> (string, json) imap option \<Rightarrow> string list option
       \<Rightarrow> retry_policy list \<Rightarrow> timeout_policy list \<Rightarrow> ('s, 'u) state_graph \<Rightarrow> ('s, 'u) build_result" where
  "add_node name f dfr metadata destinations retries timeouts g =
     insert_node name (PlainNode f)
       \<lparr>md_defer = dfr, md_metadata = metadata, md_destinations = destinations,
        md_retry_policies = retries, md_error_handler = None, md_timeout_policies = timeouts,
        md_circuit_breaker = None, md_fallback_node = None\<rparr> g"

definition add_node_simple :: "string \<Rightarrow> ('s, 'u) node_fn \<Rightarrow> ('s, 'u) state_graph \<Rightarrow> ('s, 'u) build_result" where
  "add_node_simple name f g = add_node name f False None None [] [] g"

definition add_node_with_error_handler ::
    "string \<Rightarrow> ('s, 'u) node_fn \<Rightarrow> ('s node_error \<Rightarrow> 'u command) \<Rightarrow> ('s, 'u) state_graph
       \<Rightarrow> ('s, 'u) build_result" where
  "add_node_with_error_handler name f handler g =
     insert_node name (ErrorHandlerNode f handler) node_metadata_default g"

definition add_node_with_retry ::
    "string \<Rightarrow> ('s, 'u) node_fn \<Rightarrow> retry_policy \<Rightarrow> ('s, 'u) state_graph \<Rightarrow> ('s, 'u) build_result" where
  "add_node_with_retry name f policy g = insert_node name (RetryingNode f policy) node_metadata_default g"

definition add_node_with_circuit_breaker ::
    "string \<Rightarrow> ('s, 'u) node_fn \<Rightarrow> circuit_breaker_config \<Rightarrow> ('s, 'u) state_graph \<Rightarrow> ('s, 'u) build_result" where
  "add_node_with_circuit_breaker name f cfg g =
     insert_node name (PlainNode f) (node_metadata_default\<lparr>md_circuit_breaker := Some cfg\<rparr>) g"

definition add_node_with_retry_and_circuit_breaker ::
    "string \<Rightarrow> ('s, 'u) node_fn \<Rightarrow> retry_policy \<Rightarrow> circuit_breaker_config \<Rightarrow> ('s, 'u) state_graph
       \<Rightarrow> ('s, 'u) build_result" where
  "add_node_with_retry_and_circuit_breaker name f policy cfg g =
     insert_node name (RetryingNode f policy) (node_metadata_default\<lparr>md_circuit_breaker := Some cfg\<rparr>) g"

definition add_node_with_fallback ::
    "string \<Rightarrow> ('s, 'u) node_fn \<Rightarrow> string \<Rightarrow> ('s, 'u) state_graph \<Rightarrow> ('s, 'u) build_result" where
  "add_node_with_fallback name f fallback g =
     insert_node name (PlainNode f) (node_metadata_default\<lparr>md_fallback_node := Some fallback\<rparr>) g"

definition add_subgraph :: "('s, 'u) subgraph_mount \<Rightarrow> ('s, 'u) state_graph \<Rightarrow> ('s, 'u) build_result" where
  "add_subgraph mount g =
     try_bind (insert_node (mount_name mount) (mount_node mount) node_metadata_default g)
       (\<lambda>g'. Ok (g'\<lparr>sg_subgraphs := sg_subgraphs g' @ [mount]\<rparr>))"

text \<open>The subgraph node is built from the child graph and the maps; here it is given.\<close>

definition add_subgraph_with_config :: "string \<Rightarrow> ('s, 'u) node_fn \<Rightarrow> ('s, 'u) state_graph \<Rightarrow> ('s, 'u) build_result" where
  "add_subgraph_with_config name sub g = insert_node name (PlainNode sub) node_metadata_default g"

definition add_edge :: "string \<Rightarrow> string \<Rightarrow> ('s, 'u) state_graph \<Rightarrow> ('s, 'u) state_graph" where
  "add_edge from to g = g\<lparr>sg_edges := sg_edges g @ [EdgeFixed from to]\<rparr>"

definition add_conditional_edges ::
    "string \<Rightarrow> 's router \<Rightarrow> path_map \<Rightarrow> ('s, 'u) state_graph \<Rightarrow> ('s, 'u) state_graph" where
  "add_conditional_edges from router pm g = g\<lparr>sg_edges := sg_edges g @ [EdgeConditional from router pm]\<rparr>"

definition set_entry_point :: "string \<Rightarrow> ('s, 'u) state_graph \<Rightarrow> ('s, 'u) state_graph" where
  "set_entry_point n g = g\<lparr>sg_entry_point := Some n, sg_edges := sg_edges g @ [EdgeFixed START n]\<rparr>"

definition set_finish_point :: "string \<Rightarrow> ('s, 'u) state_graph \<Rightarrow> ('s, 'u) state_graph" where
  "set_finish_point n g = g\<lparr>sg_finish_points := sg_finish_points g @ [n],
     sg_edges := sg_edges g @ [EdgeFixed n END]\<rparr>"

text \<open>\<open>windows(2)\<close>: the pairs of neighbours.\<close>

definition windows2 :: "'a list \<Rightarrow> ('a \<times> 'a) list" where
  "windows2 xs = zip xs (tl xs)"

definition add_sequence :: "string list \<Rightarrow> ('s, 'u) state_graph \<Rightarrow> ('s, 'u) build_result" where
  "add_sequence names g =
     (if names = [] then Ok g
      else try_bind (first_err (\<lambda>n. if im_contains (sg_nodes g) n then None else Some (NodeNotFound n)) names)
        (\<lambda>_. let g1 = (if sg_entry_point g = None then set_entry_point (hd names) g else g)
             in Ok (fold (\<lambda>(a, b). add_edge a b) (windows2 names) g1)))"

section \<open>Validation of names and field indices\<close>

definition node_name_error :: "string \<Rightarrow> topology_error option" where
  "node_name_error name =
     (if name = [] then Some (InvalidNodeName name ''node name cannot be empty'')
      else if CHR '':'' \<in> set name \<or> CHR ''/'' \<in> set name \<or> CHR 0x5C \<in> set name
      then Some (InvalidNodeName name ''node name contains a reserved character'')
      else None)"

definition validate_keys ::
    "('s, 'u) state_impl \<Rightarrow> ('s, 'u) state_graph \<Rightarrow> (topology_error, unit) result" where
  "validate_keys S g =
     try_bind (first_err node_name_error (im_keys (sg_nodes g))) (\<lambda>_.
     try_bind (case sg_entry_point g of
         Some e \<Rightarrow> if im_contains (sg_nodes g) e then Ok () else Err (NodeNotFound e)
       | None \<Rightarrow> Ok ()) (\<lambda>_.
     try_bind (first_err (\<lambda>f. if im_contains (sg_nodes g) f then None else Some (NodeNotFound f))
         (sg_finish_points g)) (\<lambda>_.
     try_bind (first_err (\<lambda>i. if i \<ge> st_field_count S
           then Some (InvalidFieldReference i (st_field_count S) (st_field_names S) ''replace_field_indices'')
           else None) (st_replace_field_indices S)) (\<lambda>_.
     first_err (\<lambda>i. if i \<ge> st_field_count S
           then Some (InvalidFieldReference i (st_field_count S) (st_field_names S)
                  ''replace_after_finish_field_indices'')
           else None) (st_replace_after_finish_field_indices S)))))"

section \<open>Compilation\<close>

fun trigger_edge :: "'s edge \<Rightarrow> 's trigger_table \<Rightarrow> 's trigger_table" where
  "trigger_edge (EdgeFixed from to) t =
     (if from = START then add_incoming to (TrigEdge from) t
      else if to = END then t
      else add_incoming to (TrigEdge from) (add_outgoing from (CFixed to) t))"
| "trigger_edge (EdgeConditional from router pm) t =
     (if from = START
      then fold (\<lambda>target. add_incoming target (TrigEdge from)) (map snd pm) t
      else fold (\<lambda>target. add_incoming target (TrigEdge from)) (map snd pm)
             (add_outgoing from (CConditional router pm) t))"

definition build_trigger_table :: "('s, 'u) state_graph \<Rightarrow> 's trigger_table" where
  "build_trigger_table g = fold trigger_edge (sg_edges g) trigger_table_new"

record compile_config =
  cc_interrupt_before :: "string list"
  cc_interrupt_after :: "string list"

definition compile_config_default :: compile_config where
  "compile_config_default = \<lparr>cc_interrupt_before = [], cc_interrupt_after = []\<rparr>"

record ('s, 'u, 'ck) compiled_graph =
  cg_nodes :: "(string, ('s, 'u) node) imap"
  cg_trigger_table :: "'s trigger_table"
  cg_metadata :: "(string, node_metadata) imap"
  cg_checkpointer :: "'ck option"
  cg_interrupt_before :: "string list"
  cg_interrupt_after :: "string list"
  cg_subgraphs :: "(string \<times> subgraph_persistence) list"

definition compile_inner ::
    "('s, 'u) state_impl \<Rightarrow> compile_config \<Rightarrow> 'ck option \<Rightarrow> ('s, 'u) state_graph
       \<Rightarrow> (topology_error, ('s, 'u, 'ck) compiled_graph) result option" where
  "compile_inner S cfg ck g =
     map_option (\<lambda>v. try_bind v (\<lambda>_. try_bind (validate_keys S g) (\<lambda>_.
         Ok \<lparr>cg_nodes = sg_nodes g, cg_trigger_table = build_trigger_table g,
             cg_metadata = sg_metadata g, cg_checkpointer = ck,
             cg_interrupt_before = cc_interrupt_before cfg, cg_interrupt_after = cc_interrupt_after cfg,
             cg_subgraphs = map (\<lambda>m. (mount_name m, mount_persistence m)) (sg_subgraphs g)\<rparr>)))
       (validate (sg_nodes g) (sg_edges g) (sg_entry_point g) (sg_metadata g))"

definition compile_graph ::
    "('s, 'u) state_impl \<Rightarrow> ('s, 'u) state_graph
       \<Rightarrow> (topology_error, ('s, 'u, 'ck) compiled_graph) result option" where
  "compile_graph S g = compile_inner S compile_config_default None g"

section \<open>Policy maps of a compiled graph\<close>

definition filter_map :: "('a \<Rightarrow> 'b option) \<Rightarrow> 'a list \<Rightarrow> 'b list" where
  "filter_map f xs = concat (map (\<lambda>x. case f x of Some y \<Rightarrow> [y] | None \<Rightarrow> []) xs)"

definition build_error_handler_map :: "('s, 'u, 'ck) compiled_graph \<Rightarrow> (string, string) imap" where
  "build_error_handler_map cg =
     filter_map (\<lambda>(n, md). map_option (\<lambda>h. (n, h)) (md_error_handler md)) (cg_metadata cg)"

definition build_retry_policy_map :: "('s, 'u, 'ck) compiled_graph \<Rightarrow> (string, retry_policy) imap" where
  "build_retry_policy_map cg =
     filter_map (\<lambda>(n, md). case md_retry_policies md of p # _ \<Rightarrow> Some (n, p) | [] \<Rightarrow> None) (cg_metadata cg)"

definition build_timeout_policy_map :: "('s, 'u, 'ck) compiled_graph \<Rightarrow> (string, timeout_policy) imap" where
  "build_timeout_policy_map cg =
     filter_map (\<lambda>(n, md). case md_timeout_policies md of p # _ \<Rightarrow> Some (n, p) | [] \<Rightarrow> None) (cg_metadata cg)"

definition build_circuit_breaker_map ::
    "('s, 'u, 'ck) compiled_graph \<Rightarrow> (string, circuit_breaker_config) imap" where
  "build_circuit_breaker_map cg =
     filter_map (\<lambda>(n, md). map_option (\<lambda>c. (n, c)) (md_circuit_breaker md)) (cg_metadata cg)"

definition build_fallback_map :: "('s, 'u, 'ck) compiled_graph \<Rightarrow> (string, string) imap" where
  "build_fallback_map cg =
     filter_map (\<lambda>(n, md). map_option (\<lambda>f. (n, f)) (md_fallback_node md)) (cg_metadata cg)"

section \<open>Building steps\<close>

text \<open>The calls a program makes on a builder; a rejected call changes nothing.\<close>

datatype ('s, 'u) build_op =
    OpNode string "('s, 'u) node_fn" bool "(string, json) imap option" "string list option"
      "retry_policy list" "timeout_policy list"
  | OpErrorHandler string "('s, 'u) node_fn" "'s node_error \<Rightarrow> 'u command"
  | OpRetry string "('s, 'u) node_fn" retry_policy
  | OpBreaker string "('s, 'u) node_fn" circuit_breaker_config
  | OpRetryBreaker string "('s, 'u) node_fn" retry_policy circuit_breaker_config
  | OpFallback string "('s, 'u) node_fn" string
  | OpSubgraph "('s, 'u) subgraph_mount"
  | OpEdge string string
  | OpConditional string "'s router" path_map
  | OpEntry string
  | OpFinish string
  | OpSequence "string list"

definition keep :: "('s, 'u) state_graph \<Rightarrow> ('s, 'u) build_result \<Rightarrow> ('s, 'u) state_graph" where
  "keep g r = (case r of Inr g' \<Rightarrow> g' | Inl _ \<Rightarrow> g)"

fun build_step :: "('s, 'u) build_op \<Rightarrow> ('s, 'u) state_graph \<Rightarrow> ('s, 'u) state_graph" where
  "build_step (OpNode n f d m ds rs ts) g = keep g (add_node n f d m ds rs ts g)"
| "build_step (OpErrorHandler n f h) g = keep g (add_node_with_error_handler n f h g)"
| "build_step (OpRetry n f p) g = keep g (add_node_with_retry n f p g)"
| "build_step (OpBreaker n f c) g = keep g (add_node_with_circuit_breaker n f c g)"
| "build_step (OpRetryBreaker n f p c) g = keep g (add_node_with_retry_and_circuit_breaker n f p c g)"
| "build_step (OpFallback n f fb) g = keep g (add_node_with_fallback n f fb g)"
| "build_step (OpSubgraph m) g = keep g (add_subgraph m g)"
| "build_step (OpEdge f t) g = add_edge f t g"
| "build_step (OpConditional f r pm) g = add_conditional_edges f r pm g"
| "build_step (OpEntry n) g = set_entry_point n g"
| "build_step (OpFinish n) g = set_finish_point n g"
| "build_step (OpSequence ns) g = keep g (add_sequence ns g)"

text \<open>
  Nodes and metadata are registered together, once per name; the entry point and every finish point
  have their edge; no metadata names an error-handler node.
\<close>

definition builder_inv :: "('s, 'u) state_graph \<Rightarrow> bool" where
  "builder_inv g \<longleftrightarrow> im_wf (sg_metadata g) \<and> im_keys (sg_nodes g) = im_keys (sg_metadata g) \<and>
     (\<forall>e. sg_entry_point g = Some e \<longrightarrow> EdgeFixed START e \<in> set (sg_edges g)) \<and>
     (\<forall>f \<in> set (sg_finish_points g). EdgeFixed f END \<in> set (sg_edges g)) \<and>
     (\<forall>md \<in> snd ` set (sg_metadata g). md_error_handler md = None)"

lemmas builder_defs = insert_node_def add_edge_def add_conditional_edges_def set_entry_point_def
  set_finish_point_def keep_def

lemma insert_node_inv:
  assumes "builder_inv g" "insert_node n nd md g = Ok g'" "md_error_handler md = None"
  shows "builder_inv g'"
proof -
  let ?md = "im_insert n md (sg_metadata g)"
  from assms(2) have fresh: "n \<notin> set (im_keys (sg_nodes g))"
    and g': "g' = g\<lparr>sg_nodes := im_insert n nd (sg_nodes g), sg_metadata := ?md\<rparr>"
    by (simp_all add: insert_node_def im_contains_def split: if_splits)
  have "md_error_handler (snd p) = None" if "p \<in> set ?md" for p
    using subsetD [OF set_im_insert_subset that] assms(1,3) by (auto simp: builder_inv_def)
  then have eh: "\<forall>x \<in> snd ` set ?md. md_error_handler x = None" by simp
  have keys: "im_keys (im_insert n nd (sg_nodes g)) = im_keys ?md"
    using assms(1) fresh by (simp add: im_keys_insert im_contains_def builder_inv_def)
  have wf: "im_wf ?md" using assms(1) by (simp add: builder_inv_def im_wf_insert)
  from assms(1) have pts: "\<forall>e. sg_entry_point g = Some e \<longrightarrow> EdgeFixed START e \<in> set (sg_edges g)"
    "\<forall>f \<in> set (sg_finish_points g). EdgeFixed f END \<in> set (sg_edges g)"
    by (simp_all add: builder_inv_def)
  show ?thesis
    unfolding g' builder_inv_def using wf keys pts eh by (intro conjI) simp_all
qed

lemma keep_insert_node_inv:
  "builder_inv g \<Longrightarrow> md_error_handler md = None \<Longrightarrow> builder_inv (keep g (insert_node n nd md g))"
  by (auto simp: keep_def split: sum.splits intro: insert_node_inv)

lemma add_edges_inv: "builder_inv g \<Longrightarrow> builder_inv (fold (\<lambda>(a, b). add_edge a b) ps g)"
proof (induction ps arbitrary: g)
  case (Cons p ps)
  then have "builder_inv ((case p of (a, b) \<Rightarrow> add_edge a b) g)"
    by (auto simp: builder_inv_def add_edge_def split: prod.splits)
  with Cons.IH show ?case by simp
qed simp

lemma set_entry_point_inv: "builder_inv g \<Longrightarrow> builder_inv (set_entry_point n g)"
  by (simp add: builder_inv_def set_entry_point_def)

lemma add_sequence_inv: "builder_inv g \<Longrightarrow> add_sequence ns g = Ok g' \<Longrightarrow> builder_inv g'"
  by (auto simp: add_sequence_def Let_def split: if_splits dest!: try_bind_OkD
      intro: add_edges_inv set_entry_point_inv)

lemma keep_add_subgraph_inv: "builder_inv g \<Longrightarrow> builder_inv (keep g (add_subgraph m g))"
proof -
  assume inv: "builder_inv g"
  have "builder_inv g'" if ok: "add_subgraph m g = Ok g'" for g'
  proof -
    from try_bind_OkD [OF ok [unfolded add_subgraph_def]] obtain g1 where
      g1: "insert_node (mount_name m) (mount_node m) node_metadata_default g = Ok g1"
        "g' = g1\<lparr>sg_subgraphs := sg_subgraphs g1 @ [m]\<rparr>" by auto
    with insert_node_inv [OF inv g1(1)] show ?thesis
      by (simp add: builder_inv_def node_metadata_default_def)
  qed
  with inv show ?thesis by (auto simp: keep_def split: sum.splits)
qed

lemmas add_node_defs = add_node_def add_node_with_error_handler_def add_node_with_retry_def
  add_node_with_circuit_breaker_def add_node_with_retry_and_circuit_breaker_def add_node_with_fallback_def
  node_metadata_default_def

lemma build_step_inv: "builder_inv g \<Longrightarrow> builder_inv (build_step op g)"
proof (cases op)
  case (OpSequence ns)
  assume "builder_inv g"
  with OpSequence show ?thesis by (auto simp: keep_def split: sum.splits intro: add_sequence_inv)
qed (simp_all add: keep_insert_node_inv keep_add_subgraph_inv add_node_defs,
    simp_all add: builder_inv_def add_edge_def add_conditional_edges_def set_entry_point_def set_finish_point_def)

interpretation builder: transition_system "\<lambda>g. g = state_graph_new" build_step builder_inv
  by unfold_locales (auto simp: build_step_inv, simp add: builder_inv_def state_graph_new_def)

section \<open>Lemmas about compilation\<close>

lemma compile_inner_OkD:
  assumes "compile_inner S cfg ck g = Some (Ok cg)"
  shows "validate (sg_nodes g) (sg_edges g) (sg_entry_point g) (sg_metadata g) = Some (Ok ())"
    and "validate_keys S g = Ok ()"
    and "cg_nodes cg = sg_nodes g" "cg_trigger_table cg = build_trigger_table g" "cg_metadata cg = sg_metadata g"
  using assms by (auto simp: compile_inner_def dest!: try_bind_OkD)

lemma validate_keys_OkD:
  assumes "validate_keys S g = Ok ()"
  shows "\<forall>n \<in> set (im_keys (sg_nodes g)). node_name_error n = None"
    and "\<And>e. sg_entry_point g = Some e \<Longrightarrow> im_contains (sg_nodes g) e"
    and "\<forall>f \<in> set (sg_finish_points g). im_contains (sg_nodes g) f"
    and "\<forall>i \<in> set (st_replace_field_indices S). i < st_field_count S"
  using assms by (auto simp: validate_keys_def first_err_Ok_iff not_le dest!: try_bind_OkD split: option.splits if_splits)

lemma incoming_fold_add:
  "set (incoming_of (fold (\<lambda>x. add_incoming x src) ts t) n) =
     set (incoming_of t n) \<union> (if n \<in> set ts then {src} else {})"
  "outgoing_of (fold (\<lambda>x. add_incoming x src) ts t) n = outgoing_of t n"
  by (induction ts arbitrary: t) auto

text \<open>Where an edge, as declared, triggers a node, and what it compiles to.\<close>

fun edge_triggers :: "'s edge \<Rightarrow> string \<Rightarrow> string \<Rightarrow> bool" where
  "edge_triggers (EdgeFixed from to) f t \<longleftrightarrow> from = f \<and> to = t \<and> (f = START \<or> t \<noteq> END)"
| "edge_triggers (EdgeConditional from _ pm) f t \<longleftrightarrow> from = f \<and> t \<in> snd ` set pm"

fun edge_compiles :: "'s edge \<Rightarrow> string \<Rightarrow> 's compiled_edge \<Rightarrow> bool" where
  "edge_compiles (EdgeFixed from to) f ce \<longleftrightarrow> from = f \<and> f \<noteq> START \<and> to \<noteq> END \<and> ce = CFixed to"
| "edge_compiles (EdgeConditional from r pm) f ce \<longleftrightarrow> from = f \<and> f \<noteq> START \<and> ce = CConditional r pm"

lemma trigger_edge_incoming:
  "set (incoming_of (trigger_edge e t) n) = set (incoming_of t n) \<union> {TrigEdge f | f. edge_triggers e f n}"
  by (cases e) (auto simp: incoming_fold_add image_iff)

lemma trigger_edge_outgoing:
  "set (outgoing_of (trigger_edge e t) n) = set (outgoing_of t n) \<union> {ce. edge_compiles e n ce}"
  by (cases e) (auto simp: incoming_fold_add)

lemma trigger_table_incoming:
  "set (incoming_of (fold trigger_edge es t) n) =
     set (incoming_of t n) \<union> {TrigEdge f | f. \<exists>e \<in> set es. edge_triggers e f n}"
  by (induction es arbitrary: t) (auto simp: trigger_edge_incoming)

lemma trigger_table_outgoing:
  "set (outgoing_of (fold trigger_edge es t) n) = set (outgoing_of t n) \<union> {ce. \<exists>e \<in> set es. edge_compiles e n ce}"
  by (induction es arbitrary: t) (auto simp: trigger_edge_outgoing)

fun compiled_targets :: "'s compiled_edge \<Rightarrow> string set" where
  "compiled_targets (CFixed t) = {t}"
| "compiled_targets (CConditional _ pm) = snd ` set pm"

lemma edge_triggers_compiles:
  "f \<noteq> START \<Longrightarrow> edge_triggers e f t \<longleftrightarrow> (\<exists>ce. edge_compiles e f ce \<and> t \<in> compiled_targets ce)"
  by (cases e) auto

section \<open>Properties\<close>

text \<open>
  However a graph is built, its node table and its metadata table hold the same names in the same
  order, each once, and a graph with an entry point always has the edge from the start to it.
\<close>

theorem builder_tables_in_step:
  "im_keys (sg_nodes (fold build_step ops state_graph_new)) = im_keys (sg_metadata (fold build_step ops state_graph_new)) \<and>
   distinct (im_keys (sg_nodes (fold build_step ops state_graph_new))) \<and>
   (sg_entry_point (fold build_step ops state_graph_new) = Some e \<longrightarrow>
      EdgeFixed START e \<in> set (sg_edges (fold build_step ops state_graph_new)))"
  using builder.inv_run [OF builder.inv_init [OF refl], of ops] by (simp add: builder_inv_def)

theorem builder_tables_in_step_witness:
  "EdgeFixed START ''a'' \<in> set (sg_edges (fold build_step [OpEntry ''a''] state_graph_new))"
  using builder_tables_in_step [of "[OpEntry ''a'']" "''a''"] by (simp add: set_entry_point_def)

text \<open>
  C11: When compilation succeeds, the compiled graph is safe to run: the entry point is a
  registered node, every edge leaves a registered node (or the start) and leads to a registered
  node (or the end), every node is reachable from the entry point along edges and
  fallbacks, no node has an empty name or a reserved character in it, and every replace index
  is a field of the state.
\<close>

theorem compile_sound:
  assumes "compile_inner S cfg ck g = Some (Ok cg)"
  shows "\<exists>e. sg_entry_point g = Some e \<and> im_contains (cg_nodes cg) e \<and>
     (\<forall>ed \<in> set (sg_edges g). edge_valid (cg_nodes cg) ed) \<and>
     (\<forall>n \<in> set (im_keys (cg_nodes cg)). (graph_arrow (sg_edges g) (sg_metadata g))\<^sup>*\<^sup>* e n \<and> n \<noteq> [] \<and> CHR '':'' \<notin> set n) \<and>
     (\<forall>i \<in> set (st_replace_field_indices S). i < st_field_count S)"
proof -
  note c = compile_inner_OkD [OF assms]
  from validate_OkD [OF c(1)] obtain e where e: "sg_entry_point g = Some e"
    "\<forall>ed \<in> set (sg_edges g). edge_valid (sg_nodes g) ed"
    "\<forall>n \<in> set (im_keys (sg_nodes g)). (graph_arrow (sg_edges g) (sg_metadata g))\<^sup>*\<^sup>* e n" by blast
  note v = validate_keys_OkD [OF c(2)]
  have "n \<noteq> [] \<and> CHR '':'' \<notin> set n" if "n \<in> set (im_keys (sg_nodes g))" for n
    using v(1) that by (auto simp: node_name_error_def split: if_splits)
  with e v(2) [OF e(1)] v(4) c(3) show ?thesis by auto
qed

text \<open>A one-node graph over the example state.\<close>

definition example_ops :: "(nat list list, nat list option list) build_op list" where
  "example_ops = [OpNode ''a'' (\<lambda>_ _. Ok command_default) False None None [] [], OpEntry ''a'', OpFinish ''a'']"

definition example_graph :: "(nat list list, nat list option list) state_graph" where
  "example_graph = fold build_step example_ops state_graph_new"

lemma example_graph_fields:
  "sg_nodes example_graph = [(''a'', PlainNode (\<lambda>_ _. Ok command_default))]"
  "sg_edges example_graph = [EdgeFixed START ''a'', EdgeFixed ''a'' END]"
  "sg_entry_point example_graph = Some ''a''" "sg_finish_points example_graph = [''a'']"
  "sg_metadata example_graph = [(''a'', node_metadata_default)]" "sg_subgraphs example_graph = []"
  by (simp_all add: example_graph_def example_ops_def state_graph_new_def keep_def insert_node_def add_node_def
      im_contains_def set_entry_point_def set_finish_point_def node_metadata_default_def)

lemma example_validates:
  "validate (sg_nodes example_graph) (sg_edges example_graph) (sg_entry_point example_graph)
     (sg_metadata example_graph) = Some (Ok ())"
proof -
  let ?n = "sg_nodes example_graph" and ?e = "sg_edges example_graph"
  have a: "scc_adjacency ?n ?e = [(''a'', [])]"
    by (simp add: example_graph_fields scc_adjacency_def adj_touch_def im_modify_def im_get_def START_def END_def)
  note a' = a [unfolded example_graph_fields]
  have "find_sccs ?n ?e = Some [[''a'']]"
    by (simp add: find_sccs_def a' example_graph_fields scc_fuel_def Let_def tarjan_new_def tarjan_enter_def
        tarjan_leave_def succs_def im_get_def im_contains_def hs_insert_def)
  then have "check_infinite_loops ?n ?e = Some (Ok ())" by (simp add: check_infinite_loops_def)
  moreover have "check_edge_targets ?n ?e = Ok ()"
    by (simp add: check_edge_targets_Ok edge_valid_def im_contains_def example_graph_fields)
  moreover have "check_reachability ?n ?e (Some ''a'') (sg_metadata example_graph) = Ok ()"
    by (simp add: check_reachability_Ok example_graph_fields)
  moreover have "check_isolated_nodes ?n ?e = Ok ()"
    by (simp add: check_isolated_nodes_def Let_def hs_insert_def example_graph_fields START_def END_def)
  ultimately show ?thesis
    by (simp add: validate_def check_entry_point_def example_graph_fields(3))
qed

lemma example_compiles:
  "\<exists>cg. compile_inner (derived_impl example_specs) compile_config_default (None :: unit option) example_graph = Some (Ok cg)"
  by (simp add: compile_inner_def example_validates [unfolded example_graph_fields] validate_keys_def example_graph_fields node_name_error_def
      im_contains_def derived_impl_def example_specs_def replace_field_indices_def indices_where_def
      replace_after_finish_field_indices_def is_replace_def is_replace_after_finish_def)

theorem compile_sound_witness:
  "\<exists>cg e. compile_inner (derived_impl example_specs) compile_config_default (None :: unit option) example_graph = Some (Ok cg) \<and>
     im_contains (cg_nodes cg) e"
  using example_compiles compile_sound by blast

text \<open>
  The trigger table is consistent: a node other than the start is recorded as a trigger of a node
  exactly when one of its compiled outgoing edges can lead there; and what an edge declares is what the
  table holds (fixed edges to the end are dropped).
\<close>

theorem trigger_table_consistent:
  "(f \<noteq> START \<longrightarrow>
     (TrigEdge f \<in> set (incoming_of (build_trigger_table g) n) \<longleftrightarrow>
        (\<exists>ce \<in> set (outgoing_of (build_trigger_table g) f). n \<in> compiled_targets ce))) \<and>
   (ce \<in> set (outgoing_of (build_trigger_table g) f) \<longleftrightarrow> (\<exists>e \<in> set (sg_edges g). edge_compiles e f ce))"
proof (intro conjI impI)
  show "ce \<in> set (outgoing_of (build_trigger_table g) f) \<longleftrightarrow> (\<exists>e \<in> set (sg_edges g). edge_compiles e f ce)"
    by (simp add: build_trigger_table_def trigger_table_outgoing)
next
  assume "f \<noteq> START"
  then show "TrigEdge f \<in> set (incoming_of (build_trigger_table g) n) \<longleftrightarrow>
        (\<exists>ce \<in> set (outgoing_of (build_trigger_table g) f). n \<in> compiled_targets ce)"
    by (auto simp: build_trigger_table_def trigger_table_incoming trigger_table_outgoing edge_triggers_compiles)
qed

theorem trigger_table_consistent_witness:
  "TrigEdge ''a'' \<in> set (incoming_of (build_trigger_table (add_edge ''a'' ''b'' state_graph_new)) ''b'')"
  using trigger_table_consistent [of "''a''" "add_edge ''a'' ''b'' state_graph_new" "''b''" "CFixed ''b''"]
  by (auto simp: build_trigger_table_def add_edge_def state_graph_new_def START_def END_def)

text \<open>
  An entry edge added with \<open>add_edge(START, n)\<close> does not set the entry point: a graph built without
  \<open>set_entry_point\<close> or \<open>add_sequence\<close> never compiles, whatever its edges.
\<close>

theorem start_edge_sets_no_entry_point:
  assumes "sg_entry_point g = None"
  shows "compile_graph S (add_edge START n g) = Some (Err NoEntryPoint)"
  using assms by (simp add: compile_graph_def compile_inner_def validate_def check_entry_point_def add_edge_def)

theorem start_edge_sets_no_entry_point_witness:
  "compile_graph (derived_impl example_specs)
     (add_edge START ''a'' (build_step (OpNode ''a'' (\<lambda>_ _. Ok command_default) False None None [] []) state_graph_new))
     = Some (Err NoEntryPoint)"
  by (rule start_edge_sets_no_entry_point)
    (simp add: keep_def insert_node_def add_node_def state_graph_new_def im_contains_def)

text \<open>
  No builder call registers an engine-level error handler: the error-handler map of every
  compiled graph is empty, so only fallbacks can recover a failed task.
\<close>

theorem no_engine_error_handlers:
  assumes "compile_inner S cfg ck (fold build_step ops state_graph_new) = Some (Ok cg)"
  shows "build_error_handler_map cg = []"
proof -
  have "md_error_handler md = None" if "(n, md) \<in> set (cg_metadata cg)" for n md
    using builder.inv_run [OF builder.inv_init [OF refl], of ops] that compile_inner_OkD(5) [OF assms]
    by (fastforce simp: builder_inv_def)
  then show ?thesis
    by (auto simp: build_error_handler_map_def filter_map_def split: option.splits)
qed

theorem no_engine_error_handlers_witness:
  "\<exists>cg. compile_inner (derived_impl example_specs) compile_config_default (None :: unit option) example_graph = Some (Ok cg) \<and>
     build_error_handler_map cg = []"
  using example_compiles no_engine_error_handlers unfolding example_graph_def by blast

end
