(* ===== verification/Scheduler.thy ===== *)
theory Scheduler
  imports Versions Graph_Builder
begin

text \<open>
  \<open>juncture-core/src/pregel/scheduler.rs\<close>, second part: routing after a superstep, merging the
  superstep's writes, and recovery of failed tasks.  The identifier of the \<open>k\<close>-th task a
  call creates is \<open>fresh k\<close> (the code draws a random UUID).
\<close>

section \<open>Channel-to-node mapping\<close>

type_synonym trigger_to_nodes = "(string, string list) imap"

fun source_name :: "trigger_source \<Rightarrow> string" where
  "source_name (TrigEdge from) = from"
| "source_name (TrigSend from) = from"

definition from_trigger_table :: "'s trigger_table \<Rightarrow> trigger_to_nodes" where
  "from_trigger_table t =
     fold (\<lambda>(node, sources) m. fold (\<lambda>src. im_modify (source_name src) [] (hs_insert node)) sources m)
       (tt_incoming t) []"

definition triggered_nodes :: "trigger_to_nodes \<Rightarrow> string list \<Rightarrow> string list" where
  "triggered_nodes m channels =
     hs_of_list (concat (map (\<lambda>ch. case im_get m ch of Some ns \<Rightarrow> ns | None \<Rightarrow> []) channels))"

section \<open>Computing the next tasks\<close>

type_synonym 's sched = "'s pending_task list \<times> string list"

definition schedule_pull :: "(nat \<Rightarrow> string) \<Rightarrow> string \<Rightarrow> 's sched \<Rightarrow> 's sched" where
  "schedule_pull fresh target acc = (case acc of (tasks, seen) \<Rightarrow>
     if target \<notin> set seen
     then (tasks @ [task_pull (fresh (length tasks)) target], hs_insert target seen)
     else (tasks, seen))"

definition resolve_label :: "path_map \<Rightarrow> string \<Rightarrow> string" where
  "resolve_label pm label = (case im_get pm label of Some t \<Rightarrow> t | None \<Rightarrow> label)"

fun process_labels ::
    "(nat \<Rightarrow> string) \<Rightarrow> (string, 'n) imap \<Rightarrow> string \<Rightarrow> path_map \<Rightarrow> string list \<Rightarrow> 's sched
       \<Rightarrow> (juncture_error, 's sched) result" where
  "process_labels fresh nodes from pm [] acc = Ok acc"
| "process_labels fresh nodes from pm (label # labels) acc =
     (let target = resolve_label pm label in
      if \<not> im_contains pm label \<and> \<not> im_contains nodes target \<and> target \<noteq> END
      then Err (ExecutionError (''Conditional edge from '' @ from @ '' routed to '' @ label
             @ '', which is neither a path_map key nor a registered node''))
      else process_labels fresh nodes from pm labels
             (if target \<noteq> END then schedule_pull fresh target acc else acc))"

definition process_edge ::
    "(nat \<Rightarrow> string) \<Rightarrow> 's \<Rightarrow> (string, 'n) imap \<Rightarrow> string list \<Rightarrow> string \<Rightarrow> 's compiled_edge \<Rightarrow> 's sched
       \<Rightarrow> (juncture_error, 's sched) result" where
  "process_edge fresh s nodes triggered from e acc = (case e of
       CFixed target \<Rightarrow>
         Ok (if target \<in> set triggered \<and> target \<noteq> END then schedule_pull fresh target acc else acc)
     | CConditional router pm \<Rightarrow>
         try_bind (router s) (\<lambda>route. process_labels fresh nodes from pm (route_targets route) acc))"

fun process_edges ::
    "(nat \<Rightarrow> string) \<Rightarrow> 's \<Rightarrow> (string, 'n) imap \<Rightarrow> string list \<Rightarrow> string \<Rightarrow> 's compiled_edge list \<Rightarrow> 's sched
       \<Rightarrow> (juncture_error, 's sched) result" where
  "process_edges fresh s nodes triggered from [] acc = Ok acc"
| "process_edges fresh s nodes triggered from (e # es) acc =
     try_bind (process_edge fresh s nodes triggered from e acc) (process_edges fresh s nodes triggered from es)"

fun push_sends :: "(nat \<Rightarrow> string) \<Rightarrow> nat \<Rightarrow> send_target list \<Rightarrow> 's pending_task list \<Rightarrow> 's pending_task list" where
  "push_sends fresh idx [] tasks = tasks"
| "push_sends fresh idx (t # ts) tasks =
     push_sends fresh (idx + 1) ts (tasks @ [task_push (fresh (length tasks)) (send_node t) idx (send_state t)])"

definition route_output ::
    "(nat \<Rightarrow> string) \<Rightarrow> 's trigger_table \<Rightarrow> trigger_to_nodes \<Rightarrow> (string, 'n) imap \<Rightarrow> 's \<Rightarrow> 'u task_output \<Rightarrow> 's sched
       \<Rightarrow> (juncture_error, 's sched) result" where
  "route_output fresh tt t2n nodes s out acc = (case cmd_goto (out_command out) of
       GotoNone \<Rightarrow>
         (let triggered = triggered_nodes t2n [out_node out] in
          case im_get (tt_outgoing tt) (out_node out) of
            Some es \<Rightarrow> process_edges fresh s nodes triggered (out_node out) es acc
          | None \<Rightarrow> Ok acc)
     | GotoNext target \<Rightarrow> Ok (schedule_pull fresh target acc)
     | GotoMultiple targets \<Rightarrow> Ok (fold (schedule_pull fresh) targets acc)
     | GotoSend sends \<Rightarrow> Ok (push_sends fresh 0 sends (fst acc), snd acc)
     | GotoEnd \<Rightarrow> Ok acc)"

fun route_outputs ::
    "(nat \<Rightarrow> string) \<Rightarrow> 's trigger_table \<Rightarrow> trigger_to_nodes \<Rightarrow> (string, 'n) imap \<Rightarrow> 's \<Rightarrow> 'u task_output list
       \<Rightarrow> 's sched \<Rightarrow> (juncture_error, 's sched) result" where
  "route_outputs fresh tt t2n nodes s [] acc = Ok acc"
| "route_outputs fresh tt t2n nodes s (out # outs) acc =
     try_bind (route_output fresh tt t2n nodes s out acc) (route_outputs fresh tt t2n nodes s outs)"

definition compute_next_tasks ::
    "(nat \<Rightarrow> string) \<Rightarrow> 'u task_output list \<Rightarrow> 's trigger_table \<Rightarrow> trigger_to_nodes \<Rightarrow> (string, 'n) imap \<Rightarrow> 's
       \<Rightarrow> (juncture_error, 's pending_task list) result" where
  "compute_next_tasks fresh completed tt t2n nodes s =
     try_bind (route_outputs fresh tt t2n nodes s completed ([], [])) (\<lambda>acc. Ok (fst acc))"

section \<open>Write conflicts\<close>

definition writes_field :: "('s, 'u) state_impl \<Rightarrow> nat \<Rightarrow> 'u task_output \<Rightarrow> bool" where
  "writes_field S i out = (case cmd_update (out_command out) of
       Some u \<Rightarrow> st_field_is_set S u i
     | None \<Rightarrow> False)"

definition field_writers :: "('s, 'u) state_impl \<Rightarrow> 'u task_output list \<Rightarrow> nat \<Rightarrow> string list" where
  "field_writers S outs i = map out_node (filter (writes_field S i) outs)"

definition check_replace_conflicts ::
    "('s, 'u) state_impl \<Rightarrow> 'u superstep_result \<Rightarrow> nat list \<Rightarrow> (juncture_error, unit) result" where
  "check_replace_conflicts S r replace_fields =
     first_err (\<lambda>i. let ws = field_writers S (sr_task_outputs r) i in
       if length ws > 1 then Some (MultipleWriters i ws) else None) replace_fields"

definition check_replace_conflicts_from_state ::
    "('s, 'u) state_impl \<Rightarrow> 'u task_output list \<Rightarrow> (juncture_error, unit) result" where
  "check_replace_conflicts_from_state S outs =
     first_err (\<lambda>i. let ws = field_writers S outs i in
       if length ws > 1 then Some (MultipleWriters i ws) else None) (st_replace_field_indices S)"

section \<open>Merging the writes of a superstep\<close>


definition registration_index :: "(string, nat) imap \<Rightarrow> 'u task_output \<Rightarrow> nat" where
  "registration_index reg out = (case im_get reg (out_node out) of Some i \<Rightarrow> i | None \<Rightarrow> u64_max)"

text \<open>The comparison \<open>apply_writes\<close> sorts by.\<close>

definition write_cmp :: "(string, nat) imap \<Rightarrow> 'u task_output \<Rightarrow> 'u task_output \<Rightarrow> ordering" where
  "write_cmp reg a b = (case (out_trigger a, out_trigger b) of
       (Pull, Pull) \<Rightarrow> nat_cmp (registration_index reg a) (registration_index reg b)
     | (Push ia, Push ib) \<Rightarrow> nat_cmp ia ib
     | (Pull, Push _) \<Rightarrow> Less
     | (Push _, Pull) \<Rightarrow> Greater)"

text \<open>The display form of an update error.\<close>

definition invalid_update_display :: "invalid_update_error \<Rightarrow> string" where
  "invalid_update_display e = (case e of
       IUMultipleWriters f ns \<Rightarrow> ''multiple writers for field '' @ f @ '': '' @ concat ns
     | IUMultipleOverwrite f \<Rightarrow> ''multiple overwrite attempts for field '' @ f
     | IUInvalidValue f r \<Rightarrow> ''invalid value for field '' @ f @ '': '' @ r)"

fun apply_updates ::
    "('s, 'u) state_impl \<Rightarrow> 'u task_output list \<Rightarrow> 's \<times> fields_changed
       \<Rightarrow> 's \<times> (juncture_error, fields_changed) result" where
  "apply_updates S [] (s, acc) = (s, Ok acc)"
| "apply_updates S (out # outs) (s, acc) = (case cmd_update (out_command out) of
       None \<Rightarrow> apply_updates S outs (s, acc)
     | Some u \<Rightarrow> (case st_try_apply S s u of
           Inl e \<Rightarrow> (s, Err (InvalidUpdate (invalid_update_display e)))
         | Inr (s', changed) \<Rightarrow> apply_updates S outs (s', fc_merge acc changed)))"

text \<open>
  The state and the tracker are updated in place, so the result carries them on the error paths too: a
  conflict leaves both untouched, a failing update leaves the writes merged before it.
\<close>

definition apply_writes ::
    "('s, 'u) state_impl \<Rightarrow> (string, nat) imap \<Rightarrow> 'u task_output list \<Rightarrow> 's \<Rightarrow> version_tracker
       \<Rightarrow> 's \<times> version_tracker \<times> (juncture_error, fields_changed) result" where
  "apply_writes S reg outs s versions = (case check_replace_conflicts_from_state S outs of
       Inl e \<Rightarrow> (s, versions, Err e)
     | Inr _ \<Rightarrow> (case apply_updates S (sort_by (write_cmp reg) outs) (s, 0) of
           (s', Inl e) \<Rightarrow> (s', versions, Err e)
         | (s', Inr fc) \<Rightarrow> (s', bump_all fc versions, Ok fc)))"

definition consume_triggered_channels :: "('s, 'u) state_impl \<Rightarrow> nat list \<Rightarrow> 's \<Rightarrow> 's" where
  "consume_triggered_channels S channels s = fold (st_consume_field S) channels s"

section \<open>Recovery of failed tasks\<close>

fun fallback_loop ::
    "(nat \<Rightarrow> string) \<Rightarrow> (string, 'n) imap \<Rightarrow> (string, string) imap \<Rightarrow> 'u task_output list
       \<Rightarrow> 's pending_task list \<times> string list \<Rightarrow> 's pending_task list \<times> string list" where
  "fallback_loop fresh nodes fb [] acc = acc"
| "fallback_loop fresh nodes fb (out # outs) (tasks, handled) =
     (if out_circuit_blocked out \<or> out_error out = None then fallback_loop fresh nodes fb outs (tasks, handled)
      else case im_get fb (out_node out) of
          None \<Rightarrow> fallback_loop fresh nodes fb outs (tasks, handled)
        | Some f \<Rightarrow>
            if \<not> im_contains nodes f \<or> f = out_node out \<or> f \<in> set handled
            then fallback_loop fresh nodes fb outs (tasks, handled)
            else fallback_loop fresh nodes fb outs
                   (tasks @ [task_pull (fresh (length tasks)) f], hs_insert (out_node out) handled))"

definition schedule_fallback_tasks ::
    "(nat \<Rightarrow> string) \<Rightarrow> 'u task_output list \<Rightarrow> (string, 'n) imap \<Rightarrow> (string, string) imap
       \<Rightarrow> 's pending_task list \<times> string list" where
  "schedule_fallback_tasks fresh outs nodes fb = fallback_loop fresh nodes fb outs ([], [])"

definition get_error_handler_node :: "string \<Rightarrow> (string, string) imap \<Rightarrow> string option" where
  "get_error_handler_node n m = im_get m n"

fun handler_loop ::
    "(nat \<Rightarrow> string) \<Rightarrow> (string, 'n) imap \<Rightarrow> (string, string) imap \<Rightarrow> string list \<Rightarrow> 'u task_output list
       \<Rightarrow> 's pending_task list \<Rightarrow> 's pending_task list" where
  "handler_loop fresh nodes eh handled [] tasks = tasks"
| "handler_loop fresh nodes eh handled (out # outs) tasks =
     (if out_circuit_blocked out \<or> out_error out = None \<or> out_node out \<in> set handled
      then handler_loop fresh nodes eh handled outs tasks
      else case get_error_handler_node (out_node out) eh of
          None \<Rightarrow> handler_loop fresh nodes eh handled outs tasks
        | Some h \<Rightarrow>
            if \<not> im_contains nodes h then handler_loop fresh nodes eh handled outs tasks
            else handler_loop fresh nodes eh handled outs (tasks @ [task_pull (fresh (length tasks)) h]))"

definition schedule_error_handlers_filtered ::
    "(nat \<Rightarrow> string) \<Rightarrow> 'u task_output list \<Rightarrow> (string, 'n) imap \<Rightarrow> (string, string) imap \<Rightarrow> string list
       \<Rightarrow> 's pending_task list" where
  "schedule_error_handlers_filtered fresh outs nodes eh handled = handler_loop fresh nodes eh handled outs []"

record pending_write =
  pw_task_id :: string
  pw_channel :: string
  pw_value :: json

definition ERROR_SOURCE_NODE :: string where
  "ERROR_SOURCE_NODE = ''__error_source_node__''"

fun writes_loop ::
    "(nat \<Rightarrow> string) \<Rightarrow> (string, 'n) imap \<Rightarrow> (string, string) imap \<Rightarrow> string list \<Rightarrow> string list
       \<Rightarrow> string list \<Rightarrow> 's pending_task list \<Rightarrow> 's pending_task list" where
  "writes_loop fresh nodes eh handled [] seen tasks = tasks"
| "writes_loop fresh nodes eh handled (n # ns) seen tasks =
     (if n \<in> set seen \<or> n \<in> set handled
      then writes_loop fresh nodes eh handled ns (hs_insert n seen) tasks
      else case get_error_handler_node n eh of
          None \<Rightarrow> writes_loop fresh nodes eh handled ns (hs_insert n seen) tasks
        | Some h \<Rightarrow>
            if \<not> im_contains nodes h then writes_loop fresh nodes eh handled ns (hs_insert n seen) tasks
            else writes_loop fresh nodes eh handled ns (hs_insert n seen)
                   (tasks @ [task_pull (fresh (length tasks)) h]))"

definition schedule_error_handlers_from_writes ::
    "(nat \<Rightarrow> string) \<Rightarrow> pending_write list \<Rightarrow> (string, 'n) imap \<Rightarrow> (string, string) imap \<Rightarrow> string list
       \<Rightarrow> 's pending_task list" where
  "schedule_error_handlers_from_writes fresh writes nodes eh handled =
     (let failed = filter_map (\<lambda>w. as_str (pw_value w)) (filter (\<lambda>w. pw_channel w = ERROR_SOURCE_NODE) writes)
      in writes_loop fresh nodes eh handled failed [] [])"

section \<open>The sort key of a write\<close>

datatype write_key = KPull nat | KPush nat

instantiation write_key :: linorder
begin

fun less_eq_write_key :: "write_key \<Rightarrow> write_key \<Rightarrow> bool" where
  "less_eq_write_key (KPull a) (KPull b) \<longleftrightarrow> a \<le> b"
| "less_eq_write_key (KPush a) (KPush b) \<longleftrightarrow> a \<le> b"
| "less_eq_write_key (KPull _) (KPush _) \<longleftrightarrow> True"
| "less_eq_write_key (KPush _) (KPull _) \<longleftrightarrow> False"

definition less_write_key :: "write_key \<Rightarrow> write_key \<Rightarrow> bool" where
  "less_write_key a b \<longleftrightarrow> a \<le> b \<and> \<not> b \<le> a"

instance
proof
  fix x y z :: write_key
  show "x < y \<longleftrightarrow> x \<le> y \<and> \<not> y \<le> x" by (rule less_write_key_def)
  show "x \<le> x" by (cases x) auto
  show "x \<le> y \<Longrightarrow> y \<le> z \<Longrightarrow> x \<le> z" by (cases x; cases y; cases z) auto
  show "x \<le> y \<Longrightarrow> y \<le> x \<Longrightarrow> x = y" by (cases x; cases y) auto
  show "x \<le> y \<or> y \<le> x" by (cases x; cases y) auto
qed

end

definition write_key_of :: "(string, nat) imap \<Rightarrow> 'u task_output \<Rightarrow> write_key" where
  "write_key_of reg out = (case out_trigger out of
       Pull \<Rightarrow> KPull (registration_index reg out)
     | Push i \<Rightarrow> KPush i)"

lemma write_cmp_Greater: "write_cmp reg a b = Greater \<longleftrightarrow> \<not> write_key_of reg a \<le> write_key_of reg b"
  by (auto simp: write_cmp_def write_key_of_def nat_cmp_def split: task_trigger.splits)

text \<open>The code's comparison sorts exactly by this key.\<close>

lemma sort_by_write_cmp: "sort_by (write_cmp reg) outs = sort_key (write_key_of reg) outs"
  by (rule sort_by_key) (rule write_cmp_Greater)

lemma filter_key_distinct:
  "distinct (map f xs) \<Longrightarrow> k \<in> set xs \<Longrightarrow> filter (\<lambda>x. f k = f x) xs = [k]"
proof (induction xs)
  case (Cons x xs)
  show ?case
  proof (cases "k = x")
    case True
    then have "filter (\<lambda>y. f k = f y) xs = []" using Cons.prems by (force simp: filter_empty_conv)
    with True show ?thesis by simp
  next
    case False
    then have "f k \<noteq> f x" using Cons.prems by (auto simp: image_iff)
    with Cons False show ?thesis by simp
  qed
qed simp

lemma sort_key_unique:
  assumes "distinct (map f xs)" "mset xs = mset ys"
  shows "sort_key f xs = sort_key f ys"
proof (rule properties_for_sort_key)
  show m: "mset (sort_key f ys) = mset xs" using assms(2) by simp
  fix k assume k: "k \<in> set (sort_key f ys)"
  have "mset (map f (sort_key f ys)) = mset (map f xs)" using m by (metis mset_map)
  then have d: "distinct (map f (sort_key f ys))" using assms(1) by (metis mset_eq_imp_distinct_iff)
  have "k \<in> set xs" using k m by (metis mset_eq_setD)
  then show "filter (\<lambda>x. f k = f x) (sort_key f ys) = filter (\<lambda>x. f k = f x) xs"
    using filter_key_distinct [OF d k] filter_key_distinct [OF assms(1)] by simp
qed simp

section \<open>Conflict detection\<close>

lemma conflicts_Ok_iff:
  "check_replace_conflicts_from_state S outs = Ok () \<longleftrightarrow>
     (\<forall>i \<in> set (st_replace_field_indices S). length (field_writers S outs i) \<le> 1)"
  by (auto simp: check_replace_conflicts_from_state_def first_err_Ok_iff Let_def split: if_splits)

lemma conflicts_agree:
  "check_replace_conflicts S r (st_replace_field_indices S) = check_replace_conflicts_from_state S (sr_task_outputs r)"
  by (simp add: check_replace_conflicts_def check_replace_conflicts_from_state_def)

lemma field_writers_mset: "mset outs = mset outs' \<Longrightarrow> mset (field_writers S outs i) = mset (field_writers S outs' i)"
  by (simp add: field_writers_def)

lemma length_field_writers: "mset outs = mset outs' \<Longrightarrow> length (field_writers S outs i) = length (field_writers S outs' i)"
  by (metis field_writers_mset size_mset)

lemma conflict_check_perm:
  assumes perm: "mset outs = mset outs'"
  shows "(check_replace_conflicts_from_state S outs = Ok () \<and> check_replace_conflicts_from_state S outs' = Ok ()) \<or>
    (\<exists>i ns ns'. check_replace_conflicts_from_state S outs = Err (MultipleWriters i ns) \<and>
       check_replace_conflicts_from_state S outs' = Err (MultipleWriters i ns') \<and> mset ns = mset ns')"
proof -
  let ?c = "\<lambda>outs i. let ws = field_writers S outs i in if length ws > 1 then Some (MultipleWriters i ws) else None"
  have "(first_err (?c outs) is = Ok () \<and> first_err (?c outs') is = Ok ()) \<or>
      (\<exists>i ns ns'. first_err (?c outs) is = Err (MultipleWriters i ns) \<and>
         first_err (?c outs') is = Err (MultipleWriters i ns') \<and> mset ns = mset ns')" for "is"
  proof (induction "is")
    case (Cons i "is")
    show ?case
    proof (cases "length (field_writers S outs i) > 1")
      case True
      with length_field_writers [OF perm, of S i] field_writers_mset [OF perm, of S i] show ?thesis by simp
    next
      case False
      with length_field_writers [OF perm, of S i] have "?c outs i = None" "?c outs' i = None" by simp_all
      with Cons show ?thesis by simp
    qed
  qed simp
  then show ?thesis by (simp only: check_replace_conflicts_from_state_def)
qed

section \<open>Merging lemmas\<close>

lemma apply_updates_skip: "cmd_update (out_command out) = None \<Longrightarrow> apply_updates S (out # outs) p = apply_updates S outs p"
  by (cases p) simp

lemma apply_updates_changed:
  assumes "state_contract S wfs wfu"
    and "\<forall>out \<in> set outs. \<forall>u. cmd_update (out_command out) = Some u \<longrightarrow> wfu u"
    and "wfs s" and "apply_updates S outs (s, fc) = (s', Inr fc')" and "i < 64"
  shows "wfs s' \<and> (has_field fc' i \<longleftrightarrow> has_field fc i \<or> (i < st_field_count S \<and> (\<exists>out \<in> set outs. writes_field S i out)))"
  using assms(2-4)
proof (induction outs arbitrary: s fc)
  case (Cons out outs)
  show ?case
  proof (cases "cmd_update (out_command out)")
    case None
    with Cons show ?thesis by (auto simp: writes_field_def)
  next
    case (Some u)
    with Cons.prems(3) obtain s1 c1 where ap: "st_try_apply S s u = Inr (s1, c1)"
      and rest: "apply_updates S outs (s1, fc_merge fc c1) = (s', Inr fc')"
      by (auto split: sum.splits)
    have wfu: "wfu u" using Cons.prems(1) Some by simp
    have wf1: "wfs s1"
      using state_base.apply_wf [OF state_contract.axioms(1) [OF assms(1)] Cons.prems(2) wfu ap] .
    have ch: "has_field c1 i \<longleftrightarrow> i < st_field_count S \<and> st_field_is_set S u i"
      using state_contract.changed_set [OF assms(1) Cons.prems(2) wfu ap assms(5)] .
    from Cons.IH [OF _ wf1 rest] Cons.prems(1) ch Some show ?thesis
      by (auto simp: writes_field_def)
  qed
qed simp

section \<open>Routing lemmas\<close>

definition pull_nodes :: "'s pending_task list \<Rightarrow> string list" where
  "pull_nodes ts = map task_node (filter (\<lambda>t. is_pull (task_trig t)) ts)"

definition push_payloads :: "'s pending_task list \<Rightarrow> (string \<times> json option) list" where
  "push_payloads ts = map (\<lambda>t. (task_node t, task_state_json t)) (filter (\<lambda>t. is_push (task_trig t)) ts)"

lemma pull_push_append [simp]:
  "pull_nodes (ts @ [task_pull i n]) = pull_nodes ts @ [n]"
  "pull_nodes (ts @ [task_push i n k j]) = pull_nodes ts"
  "push_payloads (ts @ [task_pull i n]) = push_payloads ts"
  "push_payloads (ts @ [task_push i n k j]) = push_payloads ts @ [(n, Some j)]"
  by (simp_all add: pull_nodes_def push_payloads_def task_pull_def task_push_def is_pull_def is_push_def)

definition sched_inv :: "'s sched \<Rightarrow> bool" where
  "sched_inv acc \<longleftrightarrow> distinct (pull_nodes (fst acc)) \<and> set (pull_nodes (fst acc)) = set (snd acc)"

text \<open>How a routing step extends the schedule: by which pulled nodes and which pushed states.\<close>

definition extends :: "'s sched \<Rightarrow> 's sched \<Rightarrow> string set \<Rightarrow> (string \<times> json option) list \<Rightarrow> bool" where
  "extends a b N P \<longleftrightarrow> (sched_inv a \<longrightarrow> sched_inv b) \<and> set (snd b) = set (snd a) \<union> N \<and>
     push_payloads (fst b) = push_payloads (fst a) @ P"

lemma extends_refl: "extends a a {} []"
  by (simp add: extends_def)

lemma extends_trans: "extends a b N P \<Longrightarrow> extends b c N' P' \<Longrightarrow> extends a c (N \<union> N') (P @ P')"
  by (auto simp: extends_def)

lemma extends_pull: "extends acc (schedule_pull fresh t acc) {t} []"
  by (cases acc) (auto simp: extends_def schedule_pull_def sched_inv_def)

lemma extends_pulls: "extends acc (fold (schedule_pull fresh) ts acc) (set ts) []"
proof (induction ts arbitrary: acc)
  case (Cons t ts)
  from extends_trans [OF extends_pull Cons.IH, of acc fresh t] show ?case by simp
qed (simp add: extends_refl)

lemma push_sends_extends:
  "extends (tasks, seen) (push_sends fresh idx sends tasks, seen) {} (map (\<lambda>t. (send_node t, Some (send_state t))) sends)"
proof (induction sends arbitrary: idx tasks)
  case (Cons t sends)
  let ?tasks = "tasks @ [task_push (fresh (length tasks)) (send_node t) idx (send_state t)]"
  have "extends (tasks, seen) (?tasks, seen) {} [(send_node t, Some (send_state t))]"
    by (simp add: extends_def sched_inv_def)
  from extends_trans [OF this Cons.IH] show ?case by simp
qed (simp add: extends_refl)

text \<open>Specification of a single edge: the nodes it routes to, and when it fails.\<close>

definition label_targets :: "path_map \<Rightarrow> string list \<Rightarrow> string set" where
  "label_targets pm labels = {n. n \<noteq> END \<and> (\<exists>l \<in> set labels. n = resolve_label pm l)}"

definition label_bad :: "(string, 'n) imap \<Rightarrow> path_map \<Rightarrow> string \<Rightarrow> bool" where
  "label_bad nodes pm l \<longleftrightarrow> \<not> im_contains pm l \<and> \<not> im_contains nodes l \<and> l \<noteq> END"

fun edge_routes :: "'s \<Rightarrow> string list \<Rightarrow> 's compiled_edge \<Rightarrow> string set" where
  "edge_routes s triggered (CFixed t) = (if t \<in> set triggered \<and> t \<noteq> END then {t} else {})"
| "edge_routes s triggered (CConditional r pm) =
     (case r s of Inr rt \<Rightarrow> label_targets pm (route_targets rt) | Inl _ \<Rightarrow> {})"

fun edge_fails :: "'s \<Rightarrow> (string, 'n) imap \<Rightarrow> 's compiled_edge \<Rightarrow> bool" where
  "edge_fails s nodes (CFixed t) \<longleftrightarrow> False"
| "edge_fails s nodes (CConditional r pm) \<longleftrightarrow>
     (case r s of Inr rt \<Rightarrow> (\<exists>l \<in> set (route_targets rt). label_bad nodes pm l) | Inl _ \<Rightarrow> True)"

lemma resolve_unmapped: "\<not> im_contains pm l \<Longrightarrow> resolve_label pm l = l"
  by (simp add: resolve_label_def im_get_None_iff [symmetric])

lemma process_labels_spec:
  "case process_labels fresh nodes src pm labels acc of
     Inl _ \<Rightarrow> \<exists>l \<in> set labels. label_bad nodes pm l
   | Inr acc' \<Rightarrow> (\<forall>l \<in> set labels. \<not> label_bad nodes pm l) \<and> extends acc acc' (label_targets pm labels) []"
proof (induction labels arbitrary: acc)
  case Nil
  then show ?case by (simp add: label_targets_def extends_refl)
next
  case (Cons l labels)
  let ?t = "resolve_label pm l"
  have bad: "(\<not> im_contains pm l \<and> \<not> im_contains nodes ?t \<and> ?t \<noteq> END) \<longleftrightarrow> label_bad nodes pm l"
    by (auto simp: label_bad_def resolve_unmapped)
  show ?case
  proof (cases "label_bad nodes pm l")
    case True
    then show ?thesis by (simp add: Let_def bad)
  next
    case False
    define acc1 where "acc1 = (if ?t \<noteq> END then schedule_pull fresh ?t acc else acc)"
    have e: "extends acc acc1 (if ?t \<noteq> END then {?t} else {}) []"
      by (simp add: acc1_def extends_pull extends_refl)
    have eq: "process_labels fresh nodes src pm (l # labels) acc = process_labels fresh nodes src pm labels acc1"
      using False by (simp add: Let_def bad acc1_def)
    have lt: "label_targets pm (l # labels) = (if ?t \<noteq> END then {?t} else {}) \<union> label_targets pm labels"
      by (auto simp: label_targets_def)
    show ?thesis
      using Cons.IH [of acc1] False extends_trans [OF e]
      unfolding eq lt by (cases "process_labels fresh nodes src pm labels acc1") auto
  qed
qed

lemma process_edge_spec:
  "case process_edge fresh s nodes triggered src e acc of
     Inl _ \<Rightarrow> edge_fails s nodes e
   | Inr acc' \<Rightarrow> \<not> edge_fails s nodes e \<and> extends acc acc' (edge_routes s triggered e) []"
proof (cases e)
  case (CConditional r pm)
  show ?thesis
  proof (cases "r s")
    case (Inr rt)
    with CConditional
      process_labels_spec [where fresh = fresh and nodes = nodes and src = src and pm = pm and acc = acc and labels = "route_targets rt"]
    show ?thesis
      by (cases "process_labels fresh nodes src pm (route_targets rt) acc") (auto simp: process_edge_def)
  qed (simp add: CConditional process_edge_def)
qed (auto simp: process_edge_def extends_pull extends_refl)

lemma process_edges_spec:
  "case process_edges fresh s nodes triggered src es acc of
     Inl _ \<Rightarrow> \<exists>e \<in> set es. edge_fails s nodes e
   | Inr acc' \<Rightarrow> (\<forall>e \<in> set es. \<not> edge_fails s nodes e) \<and>
       extends acc acc' (\<Union>e \<in> set es. edge_routes s triggered e) []"
proof (induction es arbitrary: acc)
  case (Cons e es)
  show ?case
  proof (cases "process_edge fresh s nodes triggered src e acc")
    case (Inl err)
    with process_edge_spec [where fresh = fresh and s = s and nodes = nodes and triggered = triggered and src = src and e = e and acc = acc] show ?thesis by simp
  next
    case (Inr acc1)
    with process_edge_spec [where fresh = fresh and s = s and nodes = nodes and triggered = triggered and src = src and e = e and acc = acc]
    have ok: "\<not> edge_fails s nodes e" and ext: "extends acc acc1 (edge_routes s triggered e) []" by simp_all
    from Cons.IH [of acc1] ok extends_trans [OF ext] show ?thesis
      by (auto simp: Inr split: sum.splits)
  qed
qed (simp add: extends_refl)

text \<open>Specification of one completed task.\<close>

definition output_routes :: "'s trigger_table \<Rightarrow> trigger_to_nodes \<Rightarrow> 's \<Rightarrow> 'u task_output \<Rightarrow> string set" where
  "output_routes tt t2n s out = (case cmd_goto (out_command out) of
       GotoNone \<Rightarrow> \<Union> (edge_routes s (triggered_nodes t2n [out_node out]) ` set (outgoing_of tt (out_node out)))
     | GotoNext t \<Rightarrow> {t}
     | GotoMultiple ts \<Rightarrow> set ts
     | _ \<Rightarrow> {})"

definition output_sends :: "'u task_output \<Rightarrow> (string \<times> json option) list" where
  "output_sends out = (case cmd_goto (out_command out) of
       GotoSend sends \<Rightarrow> map (\<lambda>t. (send_node t, Some (send_state t))) sends
     | _ \<Rightarrow> [])"

definition output_fails :: "'s trigger_table \<Rightarrow> (string, 'n) imap \<Rightarrow> 's \<Rightarrow> 'u task_output \<Rightarrow> bool" where
  "output_fails tt nodes s out \<longleftrightarrow> cmd_goto (out_command out) = GotoNone \<and>
     (\<exists>e \<in> set (outgoing_of tt (out_node out)). edge_fails s nodes e)"

lemma route_output_spec:
  "case route_output fresh tt t2n nodes s out acc of
     Inl _ \<Rightarrow> output_fails tt nodes s out
   | Inr acc' \<Rightarrow> \<not> output_fails tt nodes s out \<and>
       extends acc acc' (output_routes tt t2n s out) (output_sends out)"
proof (cases "cmd_goto (out_command out)")
  case GotoNone
  then have eq: "route_output fresh tt t2n nodes s out acc =
      process_edges fresh s nodes (triggered_nodes t2n [out_node out]) (out_node out) (outgoing_of tt (out_node out)) acc"
    by (simp add: route_output_def outgoing_of_def Let_def split: option.splits)
  show ?thesis
    using process_edges_spec [where fresh = fresh and s = s and nodes = nodes and triggered = "triggered_nodes t2n [out_node out]"
        and src = "out_node out" and es = "outgoing_of tt (out_node out)" and acc = acc] GotoNone
    unfolding eq by (auto simp: output_fails_def output_routes_def output_sends_def split: sum.splits)
next
  case (GotoSend sends)
  then show ?thesis
    using push_sends_extends [of "fst acc" "snd acc" fresh 0 sends]
    by (simp add: route_output_def output_fails_def output_routes_def output_sends_def)
qed (simp_all add: route_output_def output_fails_def output_routes_def output_sends_def extends_pull extends_pulls extends_refl)

lemma route_outputs_spec:
  "case route_outputs fresh tt t2n nodes s outs acc of
     Inl _ \<Rightarrow> \<exists>out \<in> set outs. output_fails tt nodes s out
   | Inr acc' \<Rightarrow> (\<forall>out \<in> set outs. \<not> output_fails tt nodes s out) \<and>
       extends acc acc' (\<Union> (output_routes tt t2n s ` set outs)) (concat (map output_sends outs))"
proof (induction outs arbitrary: acc)
  case (Cons out outs)
  show ?case
  proof (cases "route_output fresh tt t2n nodes s out acc")
    case (Inl err)
    with route_output_spec [where fresh = fresh and tt = tt and t2n = t2n and nodes = nodes and s = s and out = out and acc = acc] show ?thesis by simp
  next
    case (Inr acc1)
    with route_output_spec [where fresh = fresh and tt = tt and t2n = t2n and nodes = nodes and s = s and out = out and acc = acc]
    have ok: "\<not> output_fails tt nodes s out" and ext: "extends acc acc1 (output_routes tt t2n s out) (output_sends out)"
      by simp_all
    from Cons.IH [of acc1] ok extends_trans [OF ext] show ?thesis
      by (auto simp: Inr split: sum.splits)
  qed
qed (simp add: extends_refl)

text \<open>The reverse map holds exactly the recorded triggers.\<close>

definition nodes_of :: "trigger_to_nodes \<Rightarrow> string \<Rightarrow> string set" where
  "nodes_of m ch = set (case im_get m ch of Some ns \<Rightarrow> ns | None \<Rightarrow> [])"

definition triggers_in :: "(string, trigger_source list) imap \<Rightarrow> string \<Rightarrow> string set" where
  "triggers_in inc ch = {n. \<exists>sources. (n, sources) \<in> set inc \<and> ch \<in> source_name ` set sources}"

lemma nodes_of_modify:
  "nodes_of (im_modify k [] (hs_insert node) m) ch = nodes_of m ch \<union> (if ch = k then {node} else {})"
  by (auto simp: nodes_of_def)

lemma nodes_of_sources:
  "nodes_of (fold (\<lambda>src. im_modify (source_name src) [] (hs_insert node)) sources m) ch =
     nodes_of m ch \<union> (if ch \<in> source_name ` set sources then {node} else {})"
  by (induction sources arbitrary: m) (auto simp: nodes_of_modify)

lemma nodes_of_table:
  "nodes_of (fold (\<lambda>(node, sources) m. fold (\<lambda>src. im_modify (source_name src) [] (hs_insert node)) sources m) inc m) ch =
     nodes_of m ch \<union> triggers_in inc ch"
proof (induction inc arbitrary: m)
  case (Cons p inc)
  have "triggers_in (p # inc) ch = (if ch \<in> source_name ` set (snd p) then {fst p} else {}) \<union> triggers_in inc ch"
    by (cases p) (auto simp: triggers_in_def)
  then show ?case by (cases p) (simp add: Cons.IH nodes_of_sources Un_assoc)
qed (simp add: triggers_in_def)

lemma triggered_nodes_set:
  "set (triggered_nodes (from_trigger_table tt) [ch]) = triggers_in (tt_incoming tt) ch"
proof -
  have "set (triggered_nodes m [ch]) = nodes_of m ch" for m
    by (simp add: triggered_nodes_def nodes_of_def)
  moreover have "nodes_of [] ch = {}" by (simp add: nodes_of_def)
  ultimately show ?thesis by (simp add: from_trigger_table_def nodes_of_table)
qed

lemma incoming_of_triggers:
  assumes "src \<in> set (incoming_of tt n)"
  shows "n \<in> triggers_in (tt_incoming tt) (source_name src)"
proof (cases "im_get (tt_incoming tt) n")
  case (Some ss)
  with assms have "src \<in> set ss" by (simp add: incoming_of_def)
  with im_get_SomeD [OF Some] show ?thesis by (auto simp: triggers_in_def)
qed (use assms in \<open>simp add: incoming_of_def\<close>)

text \<open>For a compiled graph every fixed edge fires: its target is always among the triggered nodes.\<close>

lemma compiled_fixed_edge_fires:
  assumes "CFixed n \<in> set (outgoing_of (build_trigger_table g) f)"
  shows "n \<in> set (triggered_nodes (from_trigger_table (build_trigger_table g)) [f]) \<and> n \<noteq> END"
proof -
  from assms obtain e where e: "e \<in> set (sg_edges g)" "edge_compiles e f (CFixed n)"
    by (auto simp: build_trigger_table_def trigger_table_outgoing)
  from e(2) have "f \<noteq> START \<and> n \<noteq> END \<and> edge_triggers e f n" by (cases e) simp_all
  then have "n \<noteq> END" "edge_triggers e f n" by simp_all
  with e(1) have "TrigEdge f \<in> set (incoming_of (build_trigger_table g) n)"
    by (auto simp: build_trigger_table_def trigger_table_incoming)
  with \<open>n \<noteq> END\<close> show ?thesis
    using incoming_of_triggers by (fastforce simp: triggered_nodes_set)
qed

section \<open>Recovery lemmas\<close>

definition failed :: "'u task_output \<Rightarrow> bool" where
  "failed out \<longleftrightarrow> out_error out \<noteq> None \<and> \<not> out_circuit_blocked out"

lemma fallback_loop_mono: "set (snd acc) \<subseteq> set (snd (fallback_loop fresh nodes fb outs acc))"
proof (induction outs arbitrary: acc)
  case (Cons out outs)
  obtain tasks handled where acc: "acc = (tasks, handled)" by fastforce
  show ?case
    using Cons.IH [of "(tasks, handled)"]
      Cons.IH [of "(tasks @ [task_pull (fresh (length tasks)) f], hs_insert (out_node out) handled)" for f]
    by (auto simp: acc split: option.splits)
qed simp

text \<open>Fallbacks and handlers together: at most one recovery task per failed output.\<close>

lemma recovery_count:
  assumes "set (snd (fallback_loop fresh nodes fb outs acc)) \<subseteq> set H"
  shows "length (fst (fallback_loop fresh nodes fb outs acc)) + length (handler_loop fresh' nodes eh H outs ts) \<le>
     length (fst acc) + length ts + length (filter failed outs)"
  using assms
proof (induction outs arbitrary: acc ts)
  case (Cons out outs)
  obtain tasks handled where acc: "acc = (tasks, handled)" by fastforce
  let ?keep = "fallback_loop fresh nodes fb outs (tasks, handled)"
  let ?add = "\<lambda>f. fallback_loop fresh nodes fb outs (tasks @ [task_pull (fresh (length tasks)) f], hs_insert (out_node out) handled)"
  let ?h = "\<lambda>h. handler_loop fresh' nodes eh H outs (ts @ [task_pull (fresh' (length ts)) h])"
  note ih1 = Cons.IH [of "(tasks, handled)" ts]
  have ih2: "length (fst ?keep) + length (?h h) \<le> length tasks + Suc (length ts) + length (filter failed outs)"
    if "set (snd ?keep) \<subseteq> set H" for h
    using Cons.IH [of "(tasks, handled)" "ts @ [task_pull (fresh' (length ts)) h]"] that by simp
  have ih3: "length (fst (?add f)) + length (handler_loop fresh' nodes eh H outs ts) \<le>
      Suc (length tasks) + length ts + length (filter failed outs) \<and> out_node out \<in> set H"
    if "set (snd (?add f)) \<subseteq> set H" for f
    using Cons.IH [of "(tasks @ [task_pull (fresh (length tasks)) f], hs_insert (out_node out) handled)" ts] that
      fallback_loop_mono [of "(tasks @ [task_pull (fresh (length tasks)) f], hs_insert (out_node out) handled)" fresh nodes fb outs]
    by auto
  show ?case
  proof (cases "failed out")
    case False
    with Cons.prems ih1 show ?thesis by (auto simp: acc failed_def)
  next
    case True
    have keep: "length (fst ?keep) + length (handler_loop fresh' nodes eh H (out # outs) ts) \<le>
        length tasks + length ts + Suc (length (filter failed outs))" if "set (snd ?keep) \<subseteq> set H"
      using ih1 ih2 that by (auto split: option.splits)
    show ?thesis
    proof (cases "\<exists>f. im_get fb (out_node out) = Some f \<and> im_contains nodes f \<and> f \<noteq> out_node out \<and> f \<notin> set handled")
      case True
      then obtain f where f: "im_get fb (out_node out) = Some f" "im_contains nodes f" "f \<noteq> out_node out" "f \<notin> set handled"
        by blast
      with \<open>failed out\<close> have "fallback_loop fresh nodes fb (out # outs) acc = ?add f"
        by (auto simp: acc failed_def)
      with ih3 [of f] Cons.prems \<open>failed out\<close> show ?thesis by (simp add: acc)
    next
      case False
      with \<open>failed out\<close> have "fallback_loop fresh nodes fb (out # outs) acc = ?keep"
        by (auto simp: acc failed_def split: option.splits)
      with keep Cons.prems \<open>failed out\<close> show ?thesis by (simp add: acc del: handler_loop.simps)
    qed
  qed
qed simp

text \<open>A fallback task runs a registered node that some other node names as its fallback.\<close>

definition fallback_ok :: "(string, 'n) imap \<Rightarrow> (string, string) imap \<Rightarrow> 's pending_task \<Rightarrow> bool" where
  "fallback_ok nodes fb t \<longleftrightarrow> im_contains nodes (task_node t) \<and>
     (\<exists>f. im_get fb f = Some (task_node t) \<and> f \<noteq> task_node t)"

lemma fallback_loop_targets:
  "list_all (fallback_ok nodes fb) (fst acc) \<Longrightarrow>
     list_all (fallback_ok nodes fb) (fst (fallback_loop fresh nodes fb outs acc))"
proof (induction outs arbitrary: acc)
  case (Cons out outs)
  obtain tasks handled where acc: "acc = (tasks, handled)" by fastforce
  have add: "fallback_ok nodes fb (task_pull i f)"
    if "im_get fb (out_node out) = Some f" "im_contains nodes f" "f \<noteq> out_node out" for i f
    using that by (auto simp: fallback_ok_def task_pull_def)
  show ?case
    using Cons.prems by (auto simp: acc add intro!: Cons.IH split: option.splits)
qed simp

section \<open>Merging into a derived state\<close>

text \<open>The values a list of outputs writes to field \<open>i\<close>, in the order of the list.\<close>

definition written :: "nat \<Rightarrow> 'v option list task_output list \<Rightarrow> 'v list" where
  "written i outs = List.map_filter (\<lambda>out. Option.bind (cmd_update (out_command out)) (\<lambda>u. u ! i)) outs"

lemma apply_updates_derived:
  assumes "\<forall>out \<in> set outs. \<forall>u. cmd_update (out_command out) = Some u \<longrightarrow> length u = length fs" "length s = length fs"
  shows "\<exists>s' fc'. apply_updates (derived_impl fs) outs (s, fc) = (s', Ok fc') \<and> length s' = length fs \<and>
     (\<forall>i < length fs. s' ! i = fold (\<lambda>x cur. apply_arm (fs ! i) cur x) (written i outs) (s ! i))"
  using assms
proof (induction outs arbitrary: s fc)
  case (Cons out outs)
  show ?case
  proof (cases "cmd_update (out_command out)")
    case None
    with Cons.IH [of s fc] Cons.prems show ?thesis by (simp add: written_def map_filter_simps)
  next
    case (Some u)
    obtain s1 c1 where ap: "apply_arms 0 fs s u 0 = (s1, c1)" by fastforce
    have u: "length u = length fs" using Cons.prems Some by simp
    have s1: "length s1 = length fs" using apply_arms_length [of 0 fs s u 0] ap Cons.prems by simp
    have step: "s1 ! i = (case u ! i of Some x \<Rightarrow> apply_arm (fs ! i) (s ! i) x | None \<Rightarrow> s ! i)" if "i < length fs" for i
      using apply_arms_nth [of fs s u i 0 0] ap that u Cons.prems by simp
    have w: "written i (out # outs) = (case u ! i of Some x \<Rightarrow> [x] | None \<Rightarrow> []) @ written i outs" for i
      by (simp add: written_def map_filter_simps Some split: option.splits)
    from Cons.IH [of s1 "fc_merge fc c1"] Cons.prems s1 obtain s' fc' where
      "apply_updates (derived_impl fs) outs (s1, fc_merge fc c1) = (s', Ok fc')" "length s' = length fs"
      "\<forall>i < length fs. s' ! i = fold (\<lambda>x cur. apply_arm (fs ! i) cur x) (written i outs) (s1 ! i)" by auto
    then show ?thesis
      by (auto simp: Some derived_impl_def derived_try_apply_def ap w step split: option.splits)
  qed
qed (simp add: written_def map_filter_simps)

section \<open>Properties\<close>

text \<open>
  C5: After a superstep the next tasks are exactly what the completed tasks route to: the computation
  fails precisely when some task's conditional edge fails or names an unknown node, each routed
  node is pulled exactly once, and every fan-out send becomes one pushed task with its own
  state, in order.
\<close>

theorem next_tasks_exact:
  "case compute_next_tasks fresh outs tt t2n nodes s of
     Inl _ \<Rightarrow> (\<exists>out \<in> set outs. output_fails tt nodes s out)
   | Inr ts \<Rightarrow> \<not> (\<exists>out \<in> set outs. output_fails tt nodes s out) \<and> distinct (pull_nodes ts) \<and>
       set (pull_nodes ts) = \<Union> (output_routes tt t2n s ` set outs) \<and>
       push_payloads ts = concat (map output_sends outs)"
proof -
  have "sched_inv ([], [])" by (simp add: sched_inv_def pull_nodes_def)
  with route_outputs_spec [where fresh = fresh and tt = tt and t2n = t2n and nodes = nodes and s = s and outs = outs and acc = "([], [])"]
  show ?thesis
    by (auto simp: compute_next_tasks_def extends_def sched_inv_def push_payloads_def try_bind_def split: sum.splits)
qed

text \<open>
  In a compiled graph a fixed edge always fires: a completed task that leaves routing to the
  edges schedules the target of every fixed edge leaving its node.
\<close>

theorem fixed_edges_fire:
  assumes "out \<in> set outs" and "cmd_goto (out_command out) = GotoNone"
    and "CFixed n \<in> set (outgoing_of (build_trigger_table g) (out_node out))"
    and "compute_next_tasks fresh outs (build_trigger_table g) (from_trigger_table (build_trigger_table g)) nodes s = Ok ts"
  shows "n \<in> set (pull_nodes ts)"
proof -
  let ?tt = "build_trigger_table g"
  have "n \<in> edge_routes s (triggered_nodes (from_trigger_table ?tt) [out_node out]) (CFixed n)"
    using compiled_fixed_edge_fires [OF assms(3)] by simp
  with assms(3) have "n \<in> output_routes ?tt (from_trigger_table ?tt) s out"
    unfolding output_routes_def assms(2) goto.case by blast
  with assms(1) have "n \<in> \<Union> (output_routes ?tt (from_trigger_table ?tt) s ` set outs)" by blast
  moreover have "sched_inv ([], [])" by (simp add: sched_inv_def pull_nodes_def)
  ultimately show ?thesis
    using route_outputs_spec [where fresh = fresh and tt = ?tt and t2n = "from_trigger_table ?tt" and nodes = nodes and s = s and outs = outs and acc = "([], [])"]
      assms(4)
    by (auto simp: compute_next_tasks_def extends_def sched_inv_def try_bind_def split: sum.splits)
qed

text \<open>An output of a node, as the runner reports it.\<close>

definition example_output :: "string \<Rightarrow> task_trigger \<Rightarrow> 'u command \<Rightarrow> 'u task_output" where
  "example_output n trig c = \<lparr>out_task_id = n, out_node = n, out_command = c, out_duration = 0,
     out_trigger = trig, out_triggered_fields = [], out_error = None, out_circuit_blocked = False\<rparr>"

definition example_edge_graph :: "(nat list list, nat list option list) state_graph" where
  "example_edge_graph = add_edge ''a'' ''b'' state_graph_new"

theorem fixed_edges_fire_witness:
  "\<exists>ts. compute_next_tasks (\<lambda>_. ''id'') [example_output ''a'' Pull (command_default :: nat list option list command)]
      (build_trigger_table example_edge_graph) (from_trigger_table (build_trigger_table example_edge_graph))
      [(''b'', ())] [] = Ok ts \<and> ''b'' \<in> set (pull_nodes ts)"
proof -
  let ?out = "example_output ''a'' Pull (command_default :: nat list option list command)"
  let ?tt = "build_trigger_table example_edge_graph"
  have f: "CFixed ''b'' \<in> set (outgoing_of ?tt (out_node ?out))"
    by (simp add: example_edge_graph_def example_output_def add_edge_def state_graph_new_def build_trigger_table_def
        START_def END_def)
  have "\<exists>ts. compute_next_tasks (\<lambda>_. ''id'') [?out] ?tt (from_trigger_table ?tt) [(''b'', ())] [] = Ok ts"
    by (simp add: example_edge_graph_def example_output_def add_edge_def state_graph_new_def build_trigger_table_def
        START_def END_def compute_next_tasks_def route_output_def command_default_def im_get_def add_outgoing_def
        add_incoming_def trigger_table_new_def im_modify_def process_edge_def)
  then obtain ts where ts: "compute_next_tasks (\<lambda>_. ''id'') [?out] ?tt (from_trigger_table ?tt) [(''b'', ())] [] = Ok ts"
    by blast
  have "cmd_goto (out_command ?out) = GotoNone" by (simp add: example_output_def command_default_def)
  from fixed_edges_fire [OF _ this f ts] ts show ?thesis by simp
qed

text \<open>
  C4: The merge of a superstep does not depend on the order in which its tasks completed, provided no
  two of them share a sort key (the registration index of a pulled node, the index of a pushed
  task): the merged state, the field versions and the outcome agree; a rejected superstep names the
  same field and the same writers.
\<close>

theorem apply_writes_order_independent:
  assumes "distinct (map (write_key_of reg) outs)" and "mset outs = mset outs'"
    and "apply_writes S reg outs s v = (s1, v1, r1)" and "apply_writes S reg outs' s v = (s2, v2, r2)"
  shows "s1 = s2 \<and> v1 = v2 \<and>
    (r1 = r2 \<or> (\<exists>i ns ns'. r1 = Err (MultipleWriters i ns) \<and> r2 = Err (MultipleWriters i ns') \<and> mset ns = mset ns'))"
proof -
  have "sort_by (write_cmp reg) outs = sort_by (write_cmp reg) outs'"
    using sort_key_unique [OF assms(1,2)] by (simp add: sort_by_write_cmp)
  with conflict_check_perm [OF assms(2), of S] assms(3,4) show ?thesis
    by (auto simp: apply_writes_def)
qed

definition example_writes :: "nat list option list task_output list" where
  "example_writes =
     [example_output ''b'' Pull (command_update [Some [2], None, None]),
      example_output ''a'' Pull (command_update [Some [1], None, None])]"

definition example_versions :: version_tracker where
  "example_versions = \<lparr>vt_versions = [0, 0, 0], vt_global_max = 0\<rparr>"

abbreviation example_apply :: "nat list option list task_output list \<Rightarrow> nat list list \<times> version_tracker \<times> (juncture_error, fields_changed) result" where
  "example_apply outs \<equiv>
     apply_writes (derived_impl example_specs) [(''a'', 0), (''b'', 1)] outs [[], [], []] example_versions"

theorem apply_writes_order_independent_witness:
  "fst (example_apply example_writes) = fst (example_apply (rev example_writes)) \<and>
   fst (snd (example_apply example_writes)) = fst (snd (example_apply (rev example_writes)))"
proof -
  obtain s1 v1 r1 where l: "example_apply example_writes = (s1, v1, r1)" by (metis prod_cases3)
  obtain s2 v2 r2 where r: "example_apply (rev example_writes) = (s2, v2, r2)" by (metis prod_cases3)
  have d: "distinct (map (write_key_of [(''a'', 0), (''b'', 1)]) example_writes)"
    by (simp add: write_key_of_def example_writes_def example_output_def registration_index_def im_get_def)
  have m: "mset example_writes = mset (rev example_writes)" by simp
  from apply_writes_order_independent [OF d m l r] show ?thesis by (simp only: l r fst_conv snd_conv)
qed

text \<open>
  The proviso is needed: pushed tasks are numbered from zero for each sending node, so two senders
  produce tasks with the same index, and then the merged state follows the completion order.
\<close>

theorem push_index_collision:
  "\<exists>outs outs' :: nat list option list task_output list.
     mset outs = mset outs' \<and> map out_trigger outs = [Push 0, Push 0] \<and>
     fst (apply_writes (derived_impl example_specs) [] outs [[], [], []] example_versions) = [[1, 2], [], []] \<and>
     fst (apply_writes (derived_impl example_specs) [] outs' [[], [], []] example_versions) = [[2, 1], [], []]"
proof -
  let ?o = "\<lambda>n. example_output ''w'' (Push 0) (command_update [Some [n], None, None]) :: nat list option list task_output"
  have no: "check_replace_conflicts_from_state (derived_impl example_specs) [?o m, ?o n] = Ok ()" for m n
    by (simp add: check_replace_conflicts_from_state_def derived_impl_def replace_field_indices_def indices_where_def
        example_specs_def is_replace_def field_writers_def writes_field_def example_output_def command_update_def
        derived_field_is_set_def upt_rec numeral_2_eq_2 numeral_3_eq_3)
  have srt: "sort_by (write_cmp []) [?o m, ?o n] = [?o m, ?o n]" for m n
    by (simp add: sort_by_def write_cmp_def example_output_def nat_cmp_def)
  have st: "fst (apply_writes (derived_impl example_specs) [] [?o m, ?o n] [[], [], []] example_versions) = [[m, n], [], []]" for m n
    unfolding apply_writes_def no srt
    by (simp add: derived_impl_def derived_try_apply_def example_specs_def example_output_def command_update_def apply_arm_def)
  have tr: "out_trigger (?o n) = Push 0" for n by (simp add: example_output_def)
  have "mset [?o 1, ?o 2] = mset [?o 2, ?o 1]" by simp
  with st [of 1 2] st [of 2 1] tr show ?thesis
    by (intro exI [of _ "[?o 1, ?o 2]"] exI [of _ "[?o 2, ?o 1]"] conjI) (simp_all only: list.map)
qed

text \<open>
  C6: When two tasks of a superstep write the same replaced field, the whole superstep is rejected before
  anything is merged: state and versions are untouched and the error names such a field with
  all of its writers.
\<close>

theorem conflict_rejected_atomically:
  assumes "i \<in> set (st_replace_field_indices S)" and "2 \<le> length (field_writers S outs i)"
  shows "\<exists>j. apply_writes S reg outs s v = (s, v, Err (MultipleWriters j (field_writers S outs j))) \<and>
     j \<in> set (st_replace_field_indices S) \<and> 2 \<le> length (field_writers S outs j)"
proof -
  have "check_replace_conflicts_from_state S outs \<noteq> Ok ()" using assms conflicts_Ok_iff [of S outs] by fastforce
  then obtain e where e: "check_replace_conflicts_from_state S outs = Err e"
    by (cases "check_replace_conflicts_from_state S outs") auto
  then have "\<exists>j \<in> set (st_replace_field_indices S). 1 < length (field_writers S outs j) \<and>
      e = MultipleWriters j (field_writers S outs j)"
    unfolding check_replace_conflicts_from_state_def by (auto dest!: first_err_ErrD simp: Let_def split: if_splits)
  with e show ?thesis by (auto simp: apply_writes_def)
qed

lemma example_replace_fields: "st_replace_field_indices (derived_impl example_specs) = [1]"
  by (simp add: derived_impl_def replace_field_indices_def indices_where_def example_specs_def is_replace_def
      upt_rec numeral_2_eq_2 numeral_3_eq_3)

theorem conflict_rejected_atomically_witness:
  "\<exists>j. apply_writes (derived_impl example_specs) []
     [example_output ''a'' Pull (command_update [None, Some [1], None]),
      example_output ''b'' Pull (command_update [None, Some [2], None])] [[], [], []] example_versions =
   ([[], [], []], example_versions, Err (MultipleWriters j [''a'', ''b'']))"
proof -
  let ?outs = "[example_output ''a'' Pull (command_update [None, Some [1], None]),
      example_output ''b'' Pull (command_update [None, Some [2], None])] :: nat list option list task_output list"
  note r = example_replace_fields
  have w: "field_writers (derived_impl example_specs) ?outs 1 = [''a'', ''b'']"
    by (simp add: field_writers_def writes_field_def derived_impl_def example_output_def command_update_def derived_field_is_set_def)
  have "1 \<in> set (st_replace_field_indices (derived_impl example_specs))" "2 \<le> length (field_writers (derived_impl example_specs) ?outs 1)"
    unfolding r w by simp_all
  from conflict_rejected_atomically [OF this, of "[]" "[[], [], []]" example_versions] show ?thesis
    using w by (auto simp: r)
qed

text \<open>
  C3: For a derived state and a superstep without conflicting writes the merge succeeds; each
  field becomes the fold of its reducer over the values written to it in the order of the sort key, a
  field is reported changed exactly when some task wrote it, and exactly the changed fields get a new
  version, above every version issued before.
\<close>

theorem superstep_merge_exact:
  assumes "derive_state_impl (Some fs) = Ok S" and "length s = length fs"
    and "\<forall>out \<in> set outs. \<forall>u. cmd_update (out_command out) = Some u \<longrightarrow> length u = length fs"
    and "\<forall>i \<in> set (st_replace_field_indices S). length (field_writers S outs i) \<le> 1"
    and "length (vt_versions v) = length fs" and "vt_global_max v + length fs \<le> u64_max"
  shows "\<exists>s' v' fc. apply_writes S reg outs s v = (s', v', Ok fc) \<and> length s' = length fs \<and>
     (\<forall>i < length fs.
        s' ! i = fold (\<lambda>x cur. apply_arm (fs ! i) cur x) (written i (sort_key (write_key_of reg) outs)) (s ! i) \<and>
        (has_field fc i \<longleftrightarrow> (\<exists>out \<in> set outs. writes_field S i out)) \<and>
        (if has_field fc i then vt_global_max v < vt_versions v' ! i else vt_versions v' ! i = vt_versions v ! i))"
proof -
  from assms(1) have S: "S = derived_impl fs" and le: "length fs \<le> 64"
    by (auto simp: derive_state_impl_def split: if_splits)
  let ?o = "sort_key (write_key_of reg) outs"
  have len: "\<forall>out \<in> set ?o. \<forall>u. cmd_update (out_command out) = Some u \<longrightarrow> length u = length fs" using assms(3) by simp
  obtain s' fc where ap: "apply_updates (derived_impl fs) ?o (s, 0) = (s', Ok fc)" and s': "length s' = length fs"
    and val: "\<forall>i < length fs. s' ! i = fold (\<lambda>x cur. apply_arm (fs ! i) cur x) (written i ?o) (s ! i)"
    using apply_updates_derived [OF len assms(2), of 0] by blast
  have aw: "apply_writes S reg outs s v = (s', bump_all fc v, Ok fc)"
    using assms(4) conflicts_Ok_iff [of S outs] by (simp add: apply_writes_def S sort_by_write_cmp ap)
  have fc: "has_field fc i \<longleftrightarrow> (\<exists>out \<in> set outs. writes_field S i out)" if "i < length fs" for i
    using apply_updates_changed [OF derived_contract [OF le] len assms(2) ap, of i] that le
    by (simp add: S) (simp add: derived_impl_def)
  have "if has_field fc i then vt_global_max v < vt_versions (bump_all fc v) ! i
      else vt_versions (bump_all fc v) ! i = vt_versions v ! i" if "i < length fs" for i
    using bump_prefix [of "length (vt_versions v)" v fc] assms(5,6) that by (simp add: bump_all_def)
  with aw s' val fc show ?thesis by blast
qed

theorem superstep_merge_exact_witness:
  "\<exists>s' v' fc. example_apply example_writes = (s', v', Ok fc) \<and> s' ! 0 = [1, 2] \<and> s' ! 1 = [] \<and> 0 < vt_versions v' ! 0"
proof -
  have len: "length example_specs = 3" by (simp add: example_specs_def)
  have S: "derive_state_impl (Some example_specs) = Ok (derived_impl example_specs)"
    by (simp add: derive_state_impl_def example_specs_def)
  note r = example_replace_fields
  have o: "sort_key (write_key_of [(''a'', 0), (''b'', 1)]) example_writes = rev example_writes"
    by (simp add: example_writes_def example_output_def write_key_of_def registration_index_def im_get_def)
  have w: "written 0 (rev example_writes) = [[1], [2]]" "written 1 (rev example_writes) = []"
    by (simp_all add: written_def map_filter_simps example_writes_def example_output_def command_update_def)
  have f: "writes_field (derived_impl example_specs) 0 (hd example_writes)" "hd example_writes \<in> set example_writes"
    by (simp_all add: writes_field_def derived_impl_def derived_field_is_set_def example_writes_def example_output_def command_update_def)
  have arm: "apply_arm (example_specs ! 0) = (@)"
    by (intro ext) (simp add: example_specs_def apply_arm_def)
  have c: "\<forall>i \<in> set (st_replace_field_indices (derived_impl example_specs)).
      length (field_writers (derived_impl example_specs) example_writes i) \<le> 1"
    unfolding r by (simp add: field_writers_def writes_field_def derived_impl_def derived_field_is_set_def example_writes_def example_output_def command_update_def)
  have u: "\<forall>out \<in> set example_writes. \<forall>u. cmd_update (out_command out) = Some u \<longrightarrow> length u = length example_specs"
    by (simp add: len example_writes_def example_output_def command_update_def)
  have v: "length (vt_versions example_versions) = length example_specs" "vt_global_max example_versions + length example_specs \<le> u64_max"
    by (simp_all add: len example_versions_def u64_max_def)
  have "length [[], [], [] :: nat list] = length example_specs" by (simp add: len)
  from superstep_merge_exact [OF S this u c v, of "[(''a'', 0), (''b'', 1)]"]
  obtain s' v' fc where e: "example_apply example_writes = (s', v', Ok fc)" and
    i: "\<And>i. i < 3 \<Longrightarrow> s' ! i = fold (\<lambda>x cur. apply_arm (example_specs ! i) cur x) (written i (rev example_writes)) ([[], [], []] ! i) \<and>
      (has_field fc i \<longleftrightarrow> (\<exists>out \<in> set example_writes. writes_field (derived_impl example_specs) i out)) \<and>
      (if has_field fc i then vt_global_max example_versions < vt_versions v' ! i else vt_versions v' ! i = vt_versions example_versions ! i)"
    unfolding len o by blast
  have "has_field fc 0" using i [of 0] f by auto
  with i [of 0] have "s' ! 0 = [1, 2]" "0 < vt_versions v' ! 0"
    by (simp_all add: w arm example_versions_def)
  moreover have "s' ! 1 = []" using i [of 1] unfolding w by simp
  ultimately show ?thesis using e by blast
qed

text \<open>
  A failed task is recovered at most once: fallback tasks and error-handler tasks together are no
  more than the failed outputs that no circuit breaker blocked, and every fallback task runs a
  registered node different from the one it replaces.
\<close>

theorem recovery_at_most_once:
  fixes tasks handlers :: "'s pending_task list"
  assumes "schedule_fallback_tasks fresh outs nodes fb = (tasks, handled)"
    and "schedule_error_handlers_filtered fresh' outs nodes eh handled = handlers"
  shows "length tasks + length handlers \<le> length (filter failed outs) \<and>
     (\<forall>t \<in> set tasks. im_contains nodes (task_node t) \<and> (\<exists>f. im_get fb f = Some (task_node t) \<and> f \<noteq> task_node t))"
proof -
  have l: "fallback_loop fresh nodes fb outs ([], []) = (tasks, handled)"
    using assms by (simp add: schedule_fallback_tasks_def)
  show ?thesis
    using recovery_count [of fresh nodes fb outs "([], []) :: 's pending_task list \<times> string list" handled
        fresh' eh "[] :: 's pending_task list"]
      fallback_loop_targets [of nodes fb "([], []) :: 's pending_task list \<times> string list" fresh outs] assms(2)
    unfolding l by (simp add: schedule_error_handlers_filtered_def list_all_iff fallback_ok_def)
qed

definition example_failure :: "string \<Rightarrow> unit task_output" where
  "example_failure n = (example_output n Pull command_default)\<lparr>out_error := Some (ExecutionError ''boom'')\<rparr>"

text \<open>
  The guard against fallback cycles looks at one superstep only: two nodes that are each other's
  fallback are scheduled in turn, superstep after superstep.
\<close>

theorem fallback_cycle_across_supersteps:
  "map task_node (fst (schedule_fallback_tasks fresh [example_failure ''a''] [(''a'', ()), (''b'', ())] [(''a'', ''b''), (''b'', ''a'')])) = [''b''] \<and>
   map task_node (fst (schedule_fallback_tasks fresh [example_failure ''b''] [(''a'', ()), (''b'', ())] [(''a'', ''b''), (''b'', ''a'')])) = [''a'']"
  by (simp add: schedule_fallback_tasks_def example_failure_def example_output_def im_get_def im_contains_def task_pull_def)

theorem recovery_at_most_once_witness:
  "(schedule_error_handlers_filtered (\<lambda>_. ''id'') [example_failure ''a''] [(''a'', ()), (''b'', ())] [(''a'', ''b'')] [''a'']
      :: unit pending_task list) = []"
proof -
  let ?h = "schedule_error_handlers_filtered (\<lambda>_. ''id'') [example_failure ''a''] [(''a'', ()), (''b'', ())]
    [(''a'', ''b'')] [''a''] :: unit pending_task list"
  have "schedule_fallback_tasks (\<lambda>_. ''id'') [example_failure ''a''] [(''a'', ()), (''b'', ())] [(''a'', ''b'')] =
      ([task_pull ''id'' ''b'' :: unit pending_task], [''a''])"
    by (simp add: schedule_fallback_tasks_def example_failure_def example_output_def im_get_def im_contains_def hs_insert_def)
  from recovery_at_most_once [OF this refl, of "\<lambda>_. ''id''" "[(''a'', ''b'')]"]
  have "Suc (length ?h) \<le> length (filter failed [example_failure ''a''])" by simp
  also have "\<dots> = 1" by (simp add: failed_def example_failure_def example_output_def)
  finally show ?thesis by simp
qed

end
