(* ===== verification/Interrupts.thy ===== *)
theory Interrupts
  imports Scheduler
begin

text \<open>
  Human-in-the-loop interrupts: \<open>juncture-core/src/interrupt/mod.rs\<close>, \<open>interrupt/context.rs\<close> and the
  matching of resume values in \<open>pregel/runner.rs\<close>.  The identifier hash (the \<open>xxhash\<close> crate) is the
  parameter \<open>hash_id\<close>, the clock the parameter \<open>now\<close>; strings are byte strings.
\<close>

section \<open>Resume values\<close>

definition resume_from_vec :: "json list \<Rightarrow> resume_value" where
  "resume_from_vec vs = (case vs of
       [] \<Rightarrow> ResumeSingle JNull
     | [v] \<Rightarrow> ResumeSingle v
     | _ \<Rightarrow> ResumeByNamespace (fold (\<lambda>(i, v). im_insert (nat_to_string i) v) (enumerate 0 vs) []))"

definition extract_namespace :: "string \<Rightarrow> string option" where
  "extract_namespace i =
     (if CHR '':'' \<in> set i \<and> takeWhile (\<lambda>c. c \<noteq> CHR '':'') i \<noteq> []
      then Some (takeWhile (\<lambda>c. c \<noteq> CHR '':'') i) else None)"

fun uncovered_ids :: "(string, json) imap \<Rightarrow> interrupt_signal list \<Rightarrow> string list" where
  "uncovered_ids m [] = []"
| "uncovered_ids m (s # ss) = (case sig_id s of
       Some i \<Rightarrow> if \<not> im_contains m i then i # uncovered_ids m ss else uncovered_ids m ss
     | None \<Rightarrow> uncovered_ids m ss)"

definition validate_resume_coverage :: "interrupt_signal list \<Rightarrow> (string, json) imap \<Rightarrow> (juncture_error, unit) result" where
  "validate_resume_coverage pending m =
     (let uncovered = uncovered_ids m pending in
      if uncovered = [] then Ok () else Err (MissingResumeValue uncovered))"

section \<open>Hidden nodes and configured interrupts\<close>

definition HIDDEN_TAG :: string where
  "HIDDEN_TAG = ''__hidden__''"

definition is_hidden_node :: "string \<Rightarrow> string list \<Rightarrow> bool" where
  "is_hidden_node name tags \<longleftrightarrow>
     (starts_with ''__'' name \<and> ends_with ''__'' name \<and> length name > 4) \<or> HIDDEN_TAG \<in> set tags"

definition any_updates :: "(string, nat) imap \<Rightarrow> (string, nat) imap \<Rightarrow> bool" where
  "any_updates versions seen =
     list_ex (\<lambda>(chan, ver). ver > (case im_get seen chan of Some v \<Rightarrow> v | None \<Rightarrow> 0)) versions"

definition configured_signal :: "(string \<Rightarrow> nat \<Rightarrow> string) \<Rightarrow> nat \<Rightarrow> string \<Rightarrow> string \<Rightarrow> nat \<Rightarrow> interrupt_signal" where
  "configured_signal hash_id now node reason i =
     \<lparr>sig_index = i, sig_id = Some (hash_id node i),
      sig_payload = JObj [(''node'', JStr node), (''reason'', JStr reason)], sig_timestamp = now\<rparr>"

fun collect_signals ::
    "(string \<Rightarrow> nat \<Rightarrow> string) \<Rightarrow> nat \<Rightarrow> string list \<Rightarrow> string list \<Rightarrow> 's pending_task list
       \<Rightarrow> interrupt_signal list \<Rightarrow> interrupt_signal list" where
  "collect_signals hash_id now before after [] signals = signals"
| "collect_signals hash_id now before after (task # tasks) signals =
     (let node = task_node task in
      if is_hidden_node node [] then collect_signals hash_id now before after tasks signals
      else
        let s1 = (if node \<in> set before
              then signals @ [configured_signal hash_id now node ''interrupt_before'' (length signals)] else signals);
            s2 = (if node \<in> set after
              then s1 @ [configured_signal hash_id now node ''interrupt_after'' (length s1)] else s1)
        in collect_signals hash_id now before after tasks s2)"

definition should_interrupt ::
    "(string \<Rightarrow> nat \<Rightarrow> string) \<Rightarrow> nat \<Rightarrow> 's pending_task list \<Rightarrow> string list \<Rightarrow> string list
       \<Rightarrow> (string, nat) imap \<Rightarrow> (string, nat) imap \<Rightarrow> interrupt_signal list option" where
  "should_interrupt hash_id now tasks before after versions seen =
     (if \<not> any_updates versions seen \<and> seen \<noteq> [] then None
      else
        let signals = collect_signals hash_id now before after tasks []
        in if signals = [] then None else Some signals)"

section \<open>The interrupt context\<close>

text \<open>
  The context is shared: its counter and its channel are behind \<open>Arc\<close>s, so every clone of the context
  works on the same values.  \<open>ic_open\<close> tells whether the receiver still exists.
\<close>

record interrupt_context =
  ic_resume_values :: "json option list"
  ic_current_index :: nat
  ic_sent :: "interrupt_signal list"
  ic_open :: bool

definition context_new :: "json option list \<Rightarrow> interrupt_context" where
  "context_new rs = \<lparr>ic_resume_values = rs, ic_current_index = 0, ic_sent = [], ic_open = True\<rparr>"

definition next_index :: "interrupt_context \<Rightarrow> nat \<times> interrupt_context" where
  "next_index c = (ic_current_index c, c\<lparr>ic_current_index := wrap_add64 (ic_current_index c) 1\<rparr>)"

definition get_resume_value :: "interrupt_context \<Rightarrow> nat \<Rightarrow> json option" where
  "get_resume_value c i = (if i < length (ic_resume_values c) then ic_resume_values c ! i else None)"

definition send_interrupt :: "interrupt_signal \<Rightarrow> interrupt_context \<Rightarrow> (unit, interrupt_context) result" where
  "send_interrupt s c = (if ic_open c then Ok (c\<lparr>ic_sent := ic_sent c @ [s]\<rparr>) else Err ())"

definition interrupt_impl ::
    "(string \<Rightarrow> nat \<Rightarrow> string) \<Rightarrow> nat \<Rightarrow> json \<Rightarrow> string option \<Rightarrow> interrupt_context
       \<Rightarrow> interrupt_context \<times> (juncture_error, json) result" where
  "interrupt_impl hash_id now payload i c =
     (let (index, c1) = next_index c;
          ident = (case i of None \<Rightarrow> hash_id ''current_node'' index | Some s \<Rightarrow> s)
      in case get_resume_value c1 index of
           Some v \<Rightarrow> (c1, Ok v)
         | None \<Rightarrow> (case send_interrupt \<lparr>sig_index = index, sig_id = Some ident, sig_payload = payload, sig_timestamp = now\<rparr> c1 of
               Inl _ \<Rightarrow> (c1, Err (ExecutionError ''interrupt channel closed''))
             | Inr c2 \<Rightarrow> (c2, Err (Interrupted index))))"

section \<open>Scratchpad\<close>

record interrupt_record =
  ir_id :: string
  ir_node :: string
  ir_payload :: json
  ir_timestamp :: nat
  ir_resumed_at :: "nat option"
  ir_resume_value :: "json option"

record scratchpad =
  sp_processed :: "string list"
  sp_data :: "(string, json) imap"
  sp_history :: "interrupt_record list"

definition scratchpad_new :: scratchpad where
  "scratchpad_new = \<lparr>sp_processed = [], sp_data = [], sp_history = []\<rparr>"

definition is_interrupt_processed :: "scratchpad \<Rightarrow> string \<Rightarrow> bool" where
  "is_interrupt_processed sp i = (i \<in> set (sp_processed sp))"

definition get_null_resume :: "scratchpad \<Rightarrow> string \<Rightarrow> bool" where
  "get_null_resume sp i = is_interrupt_processed sp i"

definition mark_interrupt_processed :: "string \<Rightarrow> scratchpad \<Rightarrow> scratchpad" where
  "mark_interrupt_processed i sp = sp\<lparr>sp_processed := hs_insert i (sp_processed sp)\<rparr>"

definition get_data :: "scratchpad \<Rightarrow> string \<Rightarrow> json option" where
  "get_data sp k = im_get (sp_data sp) k"

definition set_data :: "string \<Rightarrow> json \<Rightarrow> scratchpad \<Rightarrow> scratchpad" where
  "set_data k v sp = sp\<lparr>sp_data := im_insert k v (sp_data sp)\<rparr>"

definition record_interrupt :: "nat \<Rightarrow> string \<Rightarrow> string \<Rightarrow> json \<Rightarrow> scratchpad \<Rightarrow> scratchpad" where
  "record_interrupt now i node payload sp = sp\<lparr>sp_history := sp_history sp @
     [\<lparr>ir_id = i, ir_node = node, ir_payload = payload, ir_timestamp = now, ir_resumed_at = None, ir_resume_value = None\<rparr>]\<rparr>"

fun resume_first :: "nat \<Rightarrow> string \<Rightarrow> json \<Rightarrow> interrupt_record list \<Rightarrow> interrupt_record list" where
  "resume_first now i v [] = []"
| "resume_first now i v (r # rs) =
     (if ir_id r = i then r\<lparr>ir_resumed_at := Some now, ir_resume_value := Some v\<rparr> # rs
      else r # resume_first now i v rs)"

definition record_resume :: "nat \<Rightarrow> string \<Rightarrow> json \<Rightarrow> scratchpad \<Rightarrow> scratchpad" where
  "record_resume now i v sp = sp\<lparr>sp_history := resume_first now i v (sp_history sp)\<rparr>"

definition clear_transient :: "scratchpad \<Rightarrow> scratchpad" where
  "clear_transient sp = sp\<lparr>sp_data := filter (\<lambda>(k, _). starts_with ''null_resume:'' k) (sp_data sp)\<rparr>"

section \<open>Matching resume values to pending interrupts\<close>

definition match_resume_to_interrupts ::
    "resume_value option \<Rightarrow> interrupt_signal list \<Rightarrow> scratchpad \<Rightarrow> json option list" where
  "match_resume_to_interrupts rv pending sp = (case rv of
       None \<Rightarrow> []
     | Some (ResumeSingle value) \<Rightarrow>
         if pending = [] then [Some value]
         else map (\<lambda>s. case sig_id s of
             Some i \<Rightarrow> if get_null_resume sp i then Some JNull else Some value
           | None \<Rightarrow> Some value) pending
     | Some (ResumeById m) \<Rightarrow>
         map (\<lambda>s. case sig_id s of
             Some i \<Rightarrow> (case im_get m i of
                 Some v \<Rightarrow> Some v
               | None \<Rightarrow> if get_null_resume sp i then Some JNull else None)
           | None \<Rightarrow> None) pending
     | Some (ResumeByNamespace m) \<Rightarrow>
         map (\<lambda>s. case sig_id s of
             Some i \<Rightarrow> (case Option.bind (extract_namespace i) (im_get m) of
                 Some v \<Rightarrow> Some v
               | None \<Rightarrow> if get_null_resume sp i then Some JNull else None)
           | None \<Rightarrow> None) pending)"

text \<open>\<open>to_value\<close> is the serializer of the update type (\<open>None\<close> when it fails).\<close>

definition serialize_pending_writes :: "('u \<Rightarrow> json option) \<Rightarrow> string \<Rightarrow> 'u \<Rightarrow> pending_write list" where
  "serialize_pending_writes to_value tid u = (case Option.bind (to_value u) as_object of
       None \<Rightarrow> []
     | Some kvs \<Rightarrow> map (\<lambda>(ch, v). \<lparr>pw_task_id = tid, pw_channel = ch, pw_value = v\<rparr>) (filter (\<lambda>(_, v). v \<noteq> JNull) kvs))"

section \<open>Lemmas\<close>

lemma uncovered_ids_Nil_iff:
  "uncovered_ids m ss = [] \<longleftrightarrow> (\<forall>s \<in> set ss. \<forall>i. sig_id s = Some i \<longrightarrow> im_contains m i)"
  by (induction ss) (auto split: option.splits)

lemma uncovered_ids_set:
  "set (uncovered_ids m ss) = {i. \<exists>s \<in> set ss. sig_id s = Some i \<and> \<not> im_contains m i}"
  by (induction ss) (auto split: option.splits)

text \<open>The signals a task asks for, as (node, reason) pairs.\<close>

definition task_reasons :: "string list \<Rightarrow> string list \<Rightarrow> 's pending_task \<Rightarrow> (string \<times> string) list" where
  "task_reasons before after t = (let n = task_node t in
     if is_hidden_node n [] then []
     else (if n \<in> set before then [(n, ''interrupt_before'')] else []) @
          (if n \<in> set after then [(n, ''interrupt_after'')] else []))"

lemma collect_signals_eq:
  "collect_signals h now b a tasks signals =
     signals @ map (\<lambda>(k, n, r). configured_signal h now n r k)
       (enumerate (length signals) (concat (map (task_reasons b a) tasks)))"
  by (induction tasks arbitrary: signals) (auto simp: task_reasons_def Let_def enumerate_append_eq)

section \<open>A node's interrupt calls\<close>

text \<open>
  A node body that asks for the payloads \<open>ps\<close> one after the other and stops at the first error, as the
  \<open>?\<close> after each \<open>interrupt!\<close> does.
\<close>

fun ask_all ::
    "(string \<Rightarrow> nat \<Rightarrow> string) \<Rightarrow> nat \<Rightarrow> (json \<times> string option) list \<Rightarrow> interrupt_context
       \<Rightarrow> interrupt_context \<times> (juncture_error, json list) result" where
  "ask_all h now [] c = (c, Ok [])"
| "ask_all h now ((p, i) # ps) c = (case interrupt_impl h now p i c of
       (c', Inl e) \<Rightarrow> (c', Err e)
     | (c', Inr v) \<Rightarrow> (case ask_all h now ps c' of
           (c'', Inl e) \<Rightarrow> (c'', Err e)
         | (c'', Inr vs) \<Rightarrow> (c'', Ok (v # vs))))"

definition ctx_at :: "json option list \<Rightarrow> nat \<Rightarrow> interrupt_context" where
  "ctx_at rs i = \<lparr>ic_resume_values = rs, ic_current_index = i, ic_sent = [], ic_open = True\<rparr>"

lemma interrupt_impl_resumes:
  assumes "i < length rs" "rs ! i = Some v" "i + 1 < 2 ^ 64"
  shows "interrupt_impl h now p nm (ctx_at rs i) = (ctx_at rs (i + 1), Ok v)"
  using assms wrap_add64_exact [of i 1]
  by (simp add: interrupt_impl_def next_index_def get_resume_value_def ctx_at_def)

lemma interrupt_impl_interrupts:
  assumes "get_resume_value (ctx_at rs i) i = None"
  shows "\<exists>c s. interrupt_impl h now p nm (ctx_at rs i) = (c, Err (Interrupted i)) \<and> ic_sent c = [s] \<and>
     sig_index s = i \<and> sig_payload s = p"
  using assms
  by (auto simp: interrupt_impl_def next_index_def get_resume_value_def ctx_at_def send_interrupt_def Let_def
      split: option.splits if_splits)

lemma ask_all_resumed:
  assumes "\<forall>j < length ps. i + j < length rs \<and> rs ! (i + j) \<noteq> None" "i + length ps < 2 ^ 64"
  shows "ask_all h now ps (ctx_at rs i) = (ctx_at rs (i + length ps), Ok (map the (take (length ps) (drop i rs))))"
  using assms
proof (induction ps arbitrary: i)
  case (Cons q ps)
  obtain p nm where q: "q = (p, nm)" by fastforce
  from Cons.prems(1) obtain v where v: "i < length rs" "rs ! i = Some v" by (metis add_0_right length_greater_0_conv list.distinct(1) not_None_eq)
  have step: "interrupt_impl h now p nm (ctx_at rs i) = (ctx_at rs (i + 1), Ok v)"
    using interrupt_impl_resumes [OF v] Cons.prems(2) by simp
  have "\<forall>j < length ps. i + 1 + j < length rs \<and> rs ! (i + 1 + j) \<noteq> None"
  proof (intro allI impI)
    fix j assume "j < length ps"
    with Cons.prems(1) show "i + 1 + j < length rs \<and> rs ! (i + 1 + j) \<noteq> None"
      by (auto dest: spec [of _ "Suc j"])
  qed
  from Cons.IH [OF this] Cons.prems(2)
  have "ask_all h now ps (ctx_at rs (i + 1)) = (ctx_at rs (i + 1 + length ps), Ok (map the (take (length ps) (drop (i + 1) rs))))"
    by simp
  moreover have "drop i rs = Some v # drop (i + 1) rs" using v by (metis Cons_nth_drop_Suc Suc_eq_plus1)
  ultimately show ?case by (simp add: q step)
qed (simp add: ctx_at_def)

lemma ask_all_append:
  "ask_all h now (ps @ qs) c = (case ask_all h now ps c of
       (c', Inl e) \<Rightarrow> (c', Err e)
     | (c', Inr vs) \<Rightarrow> (case ask_all h now qs c' of
           (c'', Inl e) \<Rightarrow> (c'', Err e)
         | (c'', Inr ws) \<Rightarrow> (c'', Ok (vs @ ws))))"
  by (induction ps arbitrary: c) (auto split: prod.splits sum.splits)

section \<open>Properties\<close>

text \<open>
  C10: A node that is re-executed with resume values replays: its first \<open>k\<close> interrupt calls return the \<open>k\<close>
  provided values in order and send nothing, and its next call, the first without a value,
  stops the node with exactly one signal carrying that call's index and payload.
\<close>

theorem interrupt_replay:
  assumes "\<forall>j < k. j < length rs \<and> rs ! j \<noteq> None" and "get_resume_value (context_new rs) k = None"
    and "k < length ps" and "k < 2 ^ 64"
  shows "ask_all h now (take k ps) (context_new rs) = (ctx_at rs k, Ok (map the (take k rs))) \<and>
     (\<exists>c s. ask_all h now ps (context_new rs) = (c, Err (Interrupted k)) \<and> ic_sent c = [s] \<and>
        sig_index s = k \<and> sig_payload s = fst (ps ! k))"
proof -
  have new: "context_new rs = ctx_at rs 0" by (simp add: context_new_def ctx_at_def)
  have pre: "ask_all h now (take k ps) (ctx_at rs 0) = (ctx_at rs k, Ok (map the (take k rs)))"
    using ask_all_resumed [of "take k ps" 0 rs h now] assms by simp
  obtain p nm where pk: "ps ! k = (p, nm)" by fastforce
  have split: "ps = take k ps @ (p, nm) # drop (Suc k) ps" using assms(3) pk by (metis id_take_nth_drop)
  have "get_resume_value (ctx_at rs k) k = None"
    using assms(2) by (auto simp: get_resume_value_def context_new_def ctx_at_def split: if_splits)
  from interrupt_impl_interrupts [OF this] obtain c s where
    int: "interrupt_impl h now p nm (ctx_at rs k) = (c, Err (Interrupted k))" "ic_sent c = [s]" "sig_index s = k" "sig_payload s = p"
    by blast
  have "ask_all h now ps (ctx_at rs 0) = (c, Err (Interrupted k))"
    by (subst split, subst ask_all_append) (simp add: pre int)
  with pre int pk show ?thesis by (simp add: new)
qed

theorem interrupt_replay_witness:
  "\<exists>c s. ask_all (\<lambda>n i. n) 0 [(JNum 1, None), (JNum 2, None)] (context_new [Some (JBool True)]) = (c, Err (Interrupted 1)) \<and>
     ic_sent c = [s] \<and> sig_payload s = JNum 2"
  using interrupt_replay [of 1 "[Some (JBool True)]" "[(JNum 1, None), (JNum 2, None)]" "\<lambda>n i. n" 0]
  by (auto simp: get_resume_value_def context_new_def)

text \<open>
  The counter behind these indices is shared by all tasks of a superstep, so which task receives which
  resume value depends on the order in which parallel tasks reach their interrupt: with two
  tasks asking once each, swapping the order swaps the answers.
\<close>

theorem resume_values_follow_schedule:
  "\<exists>c1 c2 d1 d2.
     interrupt_impl h now pa None (context_new [Some (JStr ''for a''), Some (JStr ''for b'')]) = (c1, Ok (JStr ''for a'')) \<and>
     interrupt_impl h now pb None c1 = (c2, Ok (JStr ''for b'')) \<and>
     interrupt_impl h now pb None (context_new [Some (JStr ''for a''), Some (JStr ''for b'')]) = (d1, Ok (JStr ''for a'')) \<and>
     interrupt_impl h now pa None d1 = (d2, Ok (JStr ''for b''))"
  by (simp add: interrupt_impl_def next_index_def get_resume_value_def context_new_def wrap_add64_def)

text \<open>
  A configured interrupt fires exactly when some field version grew since the last interrupt (or none
  was recorded) and a pending, non-hidden task names a listed node; the signals are
  numbered from zero in task order.  Once the current versions are recorded, the same
  versions never fire again.
\<close>

theorem configured_interrupt_exact:
  "(should_interrupt h now tasks before after versions seen = Some sigs \<longleftrightarrow>
      (any_updates versions seen \<or> seen = []) \<and> sigs \<noteq> [] \<and>
      sigs = map (\<lambda>(k, n, r). configured_signal h now n r k) (enumerate 0 (concat (map (task_reasons before after) tasks)))) \<and>
   (im_wf versions \<and> versions \<noteq> [] \<longrightarrow> should_interrupt h now tasks before after versions versions = None)"
proof -
  have "\<not> any_updates versions versions" if "im_wf versions"
    using im_get_mem [OF that] by (fastforce simp: any_updates_def list_ex_iff)
  then show ?thesis by (auto simp: should_interrupt_def collect_signals_eq Let_def)
qed

theorem configured_interrupt_exact_witness:
  "should_interrupt (\<lambda>n i. n) 0 [task_pull ''id'' ''a'' :: unit pending_task] [''a''] [] [(''field_0'', 1)] [(''field_0'', 1)] = None"
  using configured_interrupt_exact [of "\<lambda>n i. n" 0 "[task_pull ''id'' ''a'' :: unit pending_task]" "[''a'']" "[]" "[(''field_0'', 1)]" "[]"]
  by simp

text \<open>
  The coverage check is what makes an identifier-based resume complete: it fails with exactly the
  identifiers that have no value, and when it succeeds every pending interrupt is matched to the
  value given for its identifier, position by position, so none re-triggers.
\<close>

theorem resume_coverage_exact:
  "(case validate_resume_coverage pending m of
      Inl e \<Rightarrow> \<exists>ids. e = MissingResumeValue ids \<and> ids \<noteq> [] \<and>
        set ids = {i. \<exists>s \<in> set pending. sig_id s = Some i \<and> \<not> im_contains m i}
    | Inr _ \<Rightarrow> (\<forall>s \<in> set pending. sig_id s \<noteq> None) \<longrightarrow>
        match_resume_to_interrupts (Some (ResumeById m)) pending sp = map (\<lambda>s. im_get m (the (sig_id s))) pending \<and>
        None \<notin> set (match_resume_to_interrupts (Some (ResumeById m)) pending sp))"
proof (cases "uncovered_ids m pending = []")
  case False
  then show ?thesis by (simp add: validate_resume_coverage_def uncovered_ids_set Let_def)
next
  case True
  have eq: "(case sig_id s of Some i \<Rightarrow> (case im_get m i of Some v \<Rightarrow> Some v
      | None \<Rightarrow> if get_null_resume sp i then Some JNull else None) | None \<Rightarrow> None) = im_get m (the (sig_id s))"
    and some: "im_get m (the (sig_id s)) \<noteq> None" if s: "s \<in> set pending" "sig_id s \<noteq> None" for s
  proof -
    from s obtain i where i: "sig_id s = Some i" by blast
    with True s have "im_contains m i" by (auto simp: uncovered_ids_Nil_iff)
    then obtain v where "im_get m i = Some v" by (auto simp: im_contains_iff)
    with i show "(case sig_id s of Some i \<Rightarrow> (case im_get m i of Some v \<Rightarrow> Some v
      | None \<Rightarrow> if get_null_resume sp i then Some JNull else None) | None \<Rightarrow> None) = im_get m (the (sig_id s))"
      "im_get m (the (sig_id s)) \<noteq> None" by simp_all
  qed
  show ?thesis
  proof (simp only: validate_resume_coverage_def True Let_def if_True simp_thms sum.case refl, intro impI conjI)
    assume ids: "\<forall>s \<in> set pending. sig_id s \<noteq> None"
    show m: "match_resume_to_interrupts (Some (ResumeById m)) pending sp = map (\<lambda>s. im_get m (the (sig_id s))) pending"
      unfolding match_resume_to_interrupts_def option.case resume_value.case
      by (rule map_cong [OF refl]) (use ids eq in blast)
    show "None \<notin> set (match_resume_to_interrupts (Some (ResumeById m)) pending sp)"
    proof
      assume "None \<in> set (match_resume_to_interrupts (Some (ResumeById m)) pending sp)"
      then obtain s where "s \<in> set pending" "im_get m (the (sig_id s)) = None" by (auto simp: m)
      with ids some show False by blast
    qed
  qed
qed

theorem resume_coverage_exact_witness:
  "None \<notin> set (match_resume_to_interrupts (Some (ResumeById [(''a'', JNum 1)]))
     [\<lparr>sig_index = 0, sig_id = Some ''a'', sig_payload = JNull, sig_timestamp = 0\<rparr>] scratchpad_new)"
  using resume_coverage_exact [of "[\<lparr>sig_index = 0, sig_id = Some ''a'', sig_payload = JNull, sig_timestamp = 0\<rparr>]"
      "[(''a'', JNum 1)]" scratchpad_new]
  by (simp add: validate_resume_coverage_def im_contains_def im_get_def)

end
