(* ===== verification/Runner.thy ===== *)
theory Runner
  imports Interrupts
begin

text \<open>
  \<open>juncture-core/src/pregel/runner.rs\<close>: executing one superstep.  What a node does when called is the
  parameter \<open>exec\<close>: whether the interrupt context is in scope, the node, the state and the task's
  identifier give its outcome per attempt, or \<open>None\<close> when the node panics.  The order in which
  spawned tasks finish is a parameter too; cancellation is the set of tasks the token reaches
  before they finish.  A checkpointer is the function that says which writes it refuses; the
  accepted ones are logged.
\<close>

section \<open>Environment\<close>

text \<open>Time and outcome of each attempt, the delay jitter, and when the idle check would first fail.\<close>

record 'u node_exec =
  ne_call :: "nat \<Rightarrow> nat \<times> (juncture_error, 'u command) result"
  ne_jitter :: "nat \<Rightarrow> rat"
  ne_idle_at :: "nat option"

record ('s, 'u, 'n) run_env =
  re_nodes :: "(string, 'n) imap"
  re_exec :: "bool \<Rightarrow> 'n \<Rightarrow> 's \<Rightarrow> string \<Rightarrow> 'u node_exec option"
  re_error_handlers :: "(string, string) imap"
  re_retries :: "(string, retry_policy) imap"
  re_timeouts :: "(string, timeout_policy) imap"
  re_fallbacks :: "(string, string) imap"
  re_cancelled_before :: bool
  re_cancelled :: "string \<Rightarrow> bool"
  re_checkpointer :: "(pending_write list \<Rightarrow> string \<Rightarrow> juncture_error option) option"
  re_to_value :: "'u \<Rightarrow> json option"
  re_display :: "juncture_error \<Rightarrow> string"
  re_fresh :: "nat \<Rightarrow> string"

type_synonym write_log = "(string \<times> pending_write list) list"

definition node_not_found :: "string \<Rightarrow> juncture_error" where
  "node_not_found n = ExecutionError (''Node '' @ n @ '' not found'')"

definition task_state :: "'s \<Rightarrow> 's pending_task \<Rightarrow> 's" where
  "task_state s t = (case task_state_override t of Some s' \<Rightarrow> s' | None \<Rightarrow> s)"

definition task_output_of :: "'s pending_task \<Rightarrow> nat \<Rightarrow> 'u command \<Rightarrow> 'u task_output" where
  "task_output_of t dur c = \<lparr>out_task_id = task_id t, out_node = task_node t, out_command = c, out_duration = dur,
     out_trigger = task_trig t, out_triggered_fields = [], out_error = None, out_circuit_blocked = False\<rparr>"

definition persist_writes ::
    "('s, 'u, 'n) run_env \<Rightarrow> pending_write list \<Rightarrow> string \<Rightarrow> write_log \<Rightarrow> (juncture_error, write_log) result" where
  "persist_writes env writes tid wlog = (case re_checkpointer env of
       None \<Rightarrow> Ok wlog
     | Some put \<Rightarrow>
         if writes = [] then Ok wlog
         else (case put writes tid of Some e \<Rightarrow> Err e | None \<Rightarrow> Ok (wlog @ [(tid, writes)])))"

definition output_writes :: "('s, 'u, 'n) run_env \<Rightarrow> 'u task_output \<Rightarrow> pending_write list" where
  "output_writes env out = (case cmd_update (out_command out) of
       Some u \<Rightarrow> serialize_pending_writes (re_to_value env) (out_task_id out) u
     | None \<Rightarrow> [])"

section \<open>The single-task fast path\<close>

text \<open>
  \<open>Ok None\<close>: the fast path does not apply; the outer \<open>None\<close>: the node's panic unwinds into the caller.
\<close>

definition try_execute_single_task_inline ::
    "('s, 'u, 'n) run_env \<Rightarrow> 's pending_task list \<Rightarrow> 's \<Rightarrow> write_log
       \<Rightarrow> (write_log \<times> (juncture_error, 'u superstep_result option) result) option" where
  "try_execute_single_task_inline env tasks s wlog = (case tasks of
       [t] \<Rightarrow>
         let n = task_node t in
         if im_contains (re_error_handlers env) n \<or> im_contains (re_retries env) n \<or>
            im_contains (re_timeouts env) n \<or> im_contains (re_fallbacks env) n
         then Some (wlog, Ok None)
         else (case im_get (re_nodes env) n of
             None \<Rightarrow> Some (wlog, Err (node_not_found n))
           | Some node \<Rightarrow>
               if re_cancelled_before env then Some (wlog, Err (ExecutionError ''Task cancelled''))
               else (case re_exec env False node (task_state s t) (task_id t) of
                   None \<Rightarrow> None
                 | Some ex \<Rightarrow> (case ne_call ex 0 of
                       (_, Inl e) \<Rightarrow> Some (wlog, Err e)
                     | (dur, Inr c) \<Rightarrow>
                         let out = task_output_of t dur c in
                         (case persist_writes env (output_writes env out) (out_task_id out) wlog of
                            Inl e \<Rightarrow> Some (wlog, Err e)
                          | Inr wlog' \<Rightarrow> Some (wlog', Ok (Some \<lparr>sr_task_outputs = [out], sr_bubble_ups = []\<rparr>))))))
     | _ \<Rightarrow> Some (wlog, Ok None))"

section \<open>A spawned task\<close>

text \<open>
  Retry inside, timeout outside: the time of the retried execution is the sum of its attempts and its
  delays.  \<open>None\<close> is a panic.
\<close>

definition retried_call ::
    "('s, 'u, 'n) run_env \<Rightarrow> string \<Rightarrow> 'u node_exec \<Rightarrow> (nat \<times> (juncture_error, 'u command) result) option" where
  "retried_call env n ex = (case im_get (re_retries env) n of
       None \<Rightarrow> Some (ne_call ex 0)
     | Some p \<Rightarrow> (case execute_with_retry n p (\<lambda>k. snd (ne_call ex k)) (ne_jitter ex) of
           (_, None) \<Rightarrow> None
         | (slept, Some r) \<Rightarrow>
             Some (sum_list slept + (if max_attempts p = 0 then 0
               else sum_list (map (\<lambda>k. fst (ne_call ex k)) [0..<Suc (length slept)])), r)))"

definition timed_call ::
    "('s, 'u, 'n) run_env \<Rightarrow> string \<Rightarrow> 'u node_exec \<Rightarrow> nat \<times> (juncture_error, 'u command) result
       \<Rightarrow> nat \<times> (juncture_error, 'u command) result" where
  "timed_call env n ex r = (case im_get (re_timeouts env) n of
       None \<Rightarrow> r
     | Some tp \<Rightarrow>
         (case (idle_timeout tp, ne_idle_at ex) of
            (Some idle, Some stale) \<Rightarrow>
              if fst r \<le> stale then (min (fst r) (run_timeout tp), execute_with_timeout n (run_timeout tp) r)
              else (min stale (run_timeout tp), execute_with_timeout n (run_timeout tp)
                     (stale, Err (NodeTimeout (IdleTimeout n (min (idle div 10 ^ 6) u64_max)))))
          | _ \<Rightarrow> (min (fst r) (run_timeout tp), execute_with_timeout n (run_timeout tp) r)))"

definition run_task ::
    "('s, 'u, 'n) run_env \<Rightarrow> 's \<Rightarrow> 'n \<Rightarrow> 's pending_task \<Rightarrow> (juncture_error, 'u task_output) result option" where
  "run_task env s node t =
     (if re_cancelled env (task_id t) then Some (Err (ExecutionError ''Task cancelled''))
      else case re_exec env True node (task_state s t) (task_id t) of
          None \<Rightarrow> None
        | Some ex \<Rightarrow> (case retried_call env (task_node t) ex of
              None \<Rightarrow> None
            | Some r \<Rightarrow> (case timed_call env (task_node t) ex r of
                  (_, Inl e) \<Rightarrow> Some (Err e)
                | (dur, Inr c) \<Rightarrow> Some (Ok (task_output_of t dur c)))))"

section \<open>Collecting the results\<close>

definition ERROR_CHANNEL :: string where
  "ERROR_CHANNEL = ''__error__''"

definition error_markers :: "('s, 'u, 'n) run_env \<Rightarrow> string \<Rightarrow> string \<Rightarrow> juncture_error \<Rightarrow> pending_write list" where
  "error_markers env tid n e =
     [\<lparr>pw_task_id = tid, pw_channel = ERROR_SOURCE_NODE, pw_value = JStr n\<rparr>,
      \<lparr>pw_task_id = tid, pw_channel = ERROR_CHANNEL, pw_value = JStr (re_display env e)\<rparr>]"

definition failed_output :: "string \<Rightarrow> string \<Rightarrow> juncture_error \<Rightarrow> 'u task_output" where
  "failed_output tid n e = \<lparr>out_task_id = tid, out_node = n, out_command = command_default, out_duration = 0,
     out_trigger = Pull, out_triggered_fields = [], out_error = Some e, out_circuit_blocked = False\<rparr>"

definition has_recovery :: "('s, 'u, 'n) run_env \<Rightarrow> string \<Rightarrow> bool" where
  "has_recovery env n \<longleftrightarrow> im_contains (re_error_handlers env) n \<or> im_contains (re_fallbacks env) n"

fun collect_results ::
    "('s, 'u, 'n) run_env \<Rightarrow> ('s pending_task \<Rightarrow> (juncture_error, 'u task_output) result option)
       \<Rightarrow> 's pending_task list \<Rightarrow> 'u task_output list \<Rightarrow> write_log
       \<Rightarrow> write_log \<times> (juncture_error, 'u task_output list) result" where
  "collect_results env run [] outs wlog = (wlog, Ok outs)"
| "collect_results env run (t # ts) outs wlog = (case run t of
       None \<Rightarrow> (wlog, Err (ExecutionError ''Task panicked''))
     | Some (Inr out) \<Rightarrow>
         (case persist_writes env (output_writes env out) (out_task_id out) wlog of
            Inl e \<Rightarrow> (wlog, Err e)
          | Inr wlog' \<Rightarrow> collect_results env run ts (outs @ [out]) wlog')
     | Some (Inl e) \<Rightarrow>
         if has_recovery env (task_node t)
         then let tid = re_fresh env (2 * length outs) in
              (case persist_writes env (error_markers env tid (task_node t) e) tid wlog of
                 Inl e' \<Rightarrow> (wlog, Err e')
               | Inr wlog' \<Rightarrow> collect_results env run ts
                   (outs @ [failed_output (re_fresh env (2 * length outs + 1)) (task_node t) e]) wlog')
         else (wlog, Err e))"

text \<open>The spawning loop: the nodes of all tasks are looked up before any result is collected.\<close>

definition spawned_path ::
    "('s, 'u, 'n) run_env \<Rightarrow> 's pending_task list \<Rightarrow> 's pending_task list \<Rightarrow> 's \<Rightarrow> write_log
       \<Rightarrow> write_log \<times> (juncture_error, 'u superstep_result) result" where
  "spawned_path env tasks order s wlog =
     (case first_err (\<lambda>t. if im_contains (re_nodes env) (task_node t) then None else Some (node_not_found (task_node t))) tasks of
        Inl e \<Rightarrow> (wlog, Err e)
      | Inr _ \<Rightarrow>
          (case collect_results env (\<lambda>t. run_task env s (the (im_get (re_nodes env) (task_node t))) t) order [] wlog of
             (wlog', Inl e) \<Rightarrow> (wlog', Err e)
           | (wlog', Inr outs) \<Rightarrow> (wlog', Ok \<lparr>sr_task_outputs = outs, sr_bubble_ups = []\<rparr>)))"

definition execute_superstep ::
    "('s, 'u, 'n) run_env \<Rightarrow> 's pending_task list \<Rightarrow> 's pending_task list \<Rightarrow> 's \<Rightarrow> write_log
       \<Rightarrow> (write_log \<times> (juncture_error, 'u superstep_result) result) option" where
  "execute_superstep env tasks order s wlog =
     (if tasks = [] then Some (wlog, Ok superstep_empty)
      else case try_execute_single_task_inline env tasks s wlog of
          None \<Rightarrow> None
        | Some (wlog', Inl e) \<Rightarrow> Some (wlog', Err e)
        | Some (wlog', Inr (Some r)) \<Rightarrow> Some (wlog', Ok r)
        | Some (wlog', Inr None) \<Rightarrow> Some (spawned_path env tasks order s wlog'))"

section \<open>Lemmas\<close>

text \<open>What a finished task contributes to the superstep, if it contributes at all.\<close>

definition task_fails :: "('s, 'u, 'n) run_env \<Rightarrow> ('s pending_task \<Rightarrow> (juncture_error, 'u task_output) result option) \<Rightarrow> 's pending_task \<Rightarrow> bool" where
  "task_fails env run t \<longleftrightarrow> (case run t of
       None \<Rightarrow> True
     | Some (Inl e) \<Rightarrow> \<not> has_recovery env (task_node t)
     | Some (Inr _) \<Rightarrow> False)"

definition task_error :: "('s pending_task \<Rightarrow> (juncture_error, 'u task_output) result option) \<Rightarrow> 's pending_task \<Rightarrow> juncture_error" where
  "task_error run t = (case run t of Some (Inl e) \<Rightarrow> e | _ \<Rightarrow> ExecutionError ''Task panicked'')"

definition reports :: "('s pending_task \<Rightarrow> (juncture_error, 'u task_output) result option) \<Rightarrow> 's pending_task \<Rightarrow> 'u task_output \<Rightarrow> bool" where
  "reports run t out \<longleftrightarrow> (case run t of
       Some (Inr o') \<Rightarrow> out = o'
     | Some (Inl e) \<Rightarrow> out_node out = task_node t \<and> out_error out = Some e \<and> out_command out = command_default
     | None \<Rightarrow> False)"

lemma persist_none: "re_checkpointer env = None \<Longrightarrow> persist_writes env ws tid wlog = Ok wlog"
  by (simp add: persist_writes_def)

text \<open>Without a checkpointer the outcome is decided by the first task that fails for good.\<close>

lemma collect_results_spec:
  assumes "re_checkpointer env = None"
  shows "case find (task_fails env run) ts of
     Some t \<Rightarrow> collect_results env run ts outs wlog = (wlog, Err (task_error run t))
   | None \<Rightarrow> \<exists>new. collect_results env run ts outs wlog = (wlog, Ok (outs @ new)) \<and> list_all2 (reports run) ts new"
proof (induction ts arbitrary: outs)
  case (Cons t ts)
  show ?case
  proof (cases "task_fails env run t")
    case True
    then have "collect_results env run (t # ts) outs wlog = (wlog, Err (task_error run t))"
      by (auto simp: task_fails_def task_error_def split: option.splits sum.splits)
    with True show ?thesis by (simp del: collect_results.simps)
  next
    case False
    then obtain out where step: "collect_results env run (t # ts) outs wlog = collect_results env run ts (outs @ [out]) wlog"
      and rep: "reports run t out"
      by (auto simp: task_fails_def persist_none [OF assms] Let_def reports_def failed_output_def split: option.splits sum.splits)
    have fnd: "find (task_fails env run) (t # ts) = find (task_fails env run) ts"
      using False by simp
    show ?thesis
      using Cons.IH [of "outs @ [out]"] rep
      unfolding step fnd by (cases "find (task_fails env run) ts") auto
  qed
qed simp

text \<open>The log after a successful collection with a checkpointer: one entry per non-empty write.\<close>

definition writes_of_output :: "('s, 'u, 'n) run_env \<Rightarrow> nat \<Rightarrow> 'u task_output \<Rightarrow> write_log" where
  "writes_of_output env k out = (case out_error out of
       Some e \<Rightarrow> [(re_fresh env (2 * k), error_markers env (re_fresh env (2 * k)) (out_node out) e)]
     | None \<Rightarrow> if output_writes env out = [] then [] else [(out_task_id out, output_writes env out)])"

lemma collect_results_log:
  assumes ck: "re_checkpointer env = Some put"
    and run: "\<And>t out. run t = Some (Inr out) \<Longrightarrow> out_error out = None"
  shows "collect_results env run ts outs wlog = (wlog', Inr outs') \<Longrightarrow>
     \<exists>new. outs' = outs @ new \<and> length new = length ts \<and>
       wlog' = wlog @ concat (map (\<lambda>(k, out). writes_of_output env k out) (enumerate (length outs) new))"
proof (induction ts arbitrary: outs wlog)
  case (Cons t ts)
  have "\<exists>out wl. collect_results env run ts (outs @ [out]) wl = (wlog', Inr outs') \<and>
      wl = wlog @ writes_of_output env (length outs) out"
  proof (cases "run t")
    case (Some r)
    show ?thesis
    proof (cases r)
      case (Inr out)
      with Some Cons.prems run [of t out] show ?thesis
        by (intro exI [of _ out]) (auto simp: ck persist_writes_def writes_of_output_def split: option.splits if_splits)
    next
      case (Inl e)
      let ?out = "failed_output (re_fresh env (2 * length outs + 1)) (task_node t) e"
      have "writes_of_output env (length outs) ?out =
          [(re_fresh env (2 * length outs), error_markers env (re_fresh env (2 * length outs)) (task_node t) e)]"
        by (simp add: writes_of_output_def failed_output_def)
      with Some Inl Cons.prems show ?thesis
        by (intro exI [of _ ?out]) (auto simp: Let_def ck persist_writes_def error_markers_def split: option.splits if_splits)
    qed
  qed (use Cons.prems in simp)
  then obtain out wl where c: "collect_results env run ts (outs @ [out]) wl = (wlog', Inr outs')"
    and wl: "wl = wlog @ writes_of_output env (length outs) out" by blast
  from Cons.IH [OF c] obtain new where "outs' = outs @ out # new" "length new = length ts"
    "wlog' = wl @ concat (map (\<lambda>(k, out). writes_of_output env k out) (enumerate (length outs + 1) new))" by auto
  then show ?case by (intro exI [of _ "out # new"]) (simp add: wl)
qed simp

abbreviation task_runner :: "('s, 'u, 'n) run_env \<Rightarrow> 's \<Rightarrow> 's pending_task \<Rightarrow> (juncture_error, 'u task_output) result option" where
  "task_runner env s \<equiv> \<lambda>t. run_task env s (the (im_get (re_nodes env) (task_node t))) t"

lemma nodes_found:
  "\<forall>t \<in> set tasks. im_contains (re_nodes env) (task_node t) \<Longrightarrow>
     first_err (\<lambda>t. if im_contains (re_nodes env) (task_node t) then None else Some (node_not_found (task_node t))) tasks = Ok ()"
  by (simp add: first_err_Ok_iff)

lemma inline_declines: "length tasks \<noteq> 1 \<Longrightarrow> try_execute_single_task_inline env tasks s wlog = Some (wlog, Ok None)"
  by (cases tasks; cases "tl tasks") (auto simp: try_execute_single_task_inline_def)

lemma run_task_no_error: "run_task env s node t = Some (Inr out) \<Longrightarrow> out_error out = None"
  by (auto simp: run_task_def task_output_of_def split: if_splits option.splits prod.splits sum.splits)

section \<open>Properties\<close>


text \<open>Two registered nodes; \<open>a\<close> succeeds, \<open>b\<close> fails.\<close>

definition example_env :: "(string, string) imap \<Rightarrow> (unit, unit, (juncture_error, unit command) result) run_env" where
  "example_env fb = \<lparr>re_nodes = [(''a'', Ok command_end), (''b'', Err (TimeoutError ''b''))],
     re_exec = (\<lambda>ctx node s tid. Some \<lparr>ne_call = (\<lambda>_. (0, node)), ne_jitter = (\<lambda>_. 1), ne_idle_at = None\<rparr>),
     re_error_handlers = [], re_retries = [], re_timeouts = [], re_fallbacks = fb, re_cancelled_before = False,
     re_cancelled = (\<lambda>_. False), re_checkpointer = None, re_to_value = (\<lambda>_. None), re_display = (\<lambda>_. ''''),
     re_fresh = (\<lambda>_. ''id'')\<rparr>"

lemmas example_env_simps = example_env_def task_fails_def run_task_def retried_call_def timed_call_def im_get_def
  im_contains_def has_recovery_def task_pull_def task_state_def task_error_def




text \<open>Two nodes, one that interrupts and one that does nothing.\<close>

definition asking_env :: "(unit, unit, bool) run_env" where
  "asking_env = \<lparr>re_nodes = [(''ask'', True), (''idle'', False)],
     re_exec = (\<lambda>ctx node s tid. Some \<lparr>ne_call = (\<lambda>_. (0, if \<not> node then Ok command_end
         else if ctx then Err (Interrupted 0) else Err (ExecutionError ''interrupt context not set in task-local''))),
       ne_jitter = (\<lambda>_. 1), ne_idle_at = None\<rparr>),
     re_error_handlers = [], re_retries = [], re_timeouts = [], re_fallbacks = [], re_cancelled_before = False,
     re_cancelled = (\<lambda>_. False), re_checkpointer = None, re_to_value = (\<lambda>_. None), re_display = (\<lambda>_. []),
     re_fresh = (\<lambda>_. ''id'')\<rparr>"

text \<open>
  The hypothesis on the interrupt context cannot be dropped: the fast path does not put it in scope, so
  a node that interrupts is told its context is missing when it runs alone, while it raises the
  interrupt when it runs beside another task.
\<close>

theorem inline_path_loses_interrupts:
  "execute_superstep asking_env [task_pull ''1'' ''ask''] [task_pull ''1'' ''ask''] () [] =
     Some ([], Err (ExecutionError ''interrupt context not set in task-local'')) \<and>
   execute_superstep asking_env [task_pull ''1'' ''ask'', task_pull ''2'' ''idle''] [task_pull ''2'' ''idle'', task_pull ''1'' ''ask''] () [] =
     Some ([], Err (Interrupted 0))"
  by (simp add: asking_env_def execute_superstep_def try_execute_single_task_inline_def spawned_path_def run_task_def
      retried_call_def timed_call_def im_get_def im_contains_def has_recovery_def task_pull_def persist_writes_def
      task_output_of_def)

text \<open>
  With a checkpointer, a successful superstep of several tasks has persisted, in completion order, the
  non-empty writes of every completed task and an error marker for every failed one.
\<close>

theorem superstep_writes_persisted:
  assumes "re_checkpointer env = Some put" and "2 \<le> length tasks"
    and "execute_superstep env tasks order s [] = Some (wlog, Ok r)"
  shows "length (sr_task_outputs r) = length order \<and>
     wlog = concat (map (\<lambda>(k, out). writes_of_output env k out) (enumerate 0 (sr_task_outputs r)))"
proof -
  have "tasks \<noteq> []" "length tasks \<noteq> 1" using assms(2) by auto
  with assms(3) have sp: "spawned_path env tasks order s [] = (wlog, Ok r)"
    by (simp add: execute_superstep_def inline_declines)
  then obtain outs where c: "collect_results env (task_runner env s) order [] [] = (wlog, Inr outs)" and r: "sr_task_outputs r = outs"
    by (auto simp: spawned_path_def split: sum.splits prod.splits)
  show ?thesis
    using collect_results_log [OF assms(1) _ c] run_task_no_error r by fastforce
qed

theorem superstep_writes_persisted_witness:
  "\<exists>wlog r. execute_superstep ((example_env [(''b'', ''a'')])\<lparr>re_checkpointer := Some (\<lambda>_ _. None)\<rparr>)
      [task_pull ''1'' ''a'', task_pull ''2'' ''b''] [task_pull ''2'' ''b'', task_pull ''1'' ''a''] () [] = Some (wlog, Ok r) \<and>
    wlog = concat (map (\<lambda>(k, out). writes_of_output ((example_env [(''b'', ''a'')])\<lparr>re_checkpointer := Some (\<lambda>_ _. None)\<rparr>) k out)
      (enumerate 0 (sr_task_outputs r))) \<and> length wlog = 1"
proof -
  let ?env = "(example_env [(''b'', ''a'')])\<lparr>re_checkpointer := Some (\<lambda>_ _. None)\<rparr>"
  let ?ts = "[task_pull ''1'' ''a'', task_pull ''2'' ''b''] :: unit pending_task list"
  let ?os = "[task_pull ''2'' ''b'', task_pull ''1'' ''a''] :: unit pending_task list"
  have "\<exists>wlog r. execute_superstep ?env ?ts ?os () [] = Some (wlog, Ok r) \<and> length wlog = 1"
    by (simp add: execute_superstep_def try_execute_single_task_inline_def spawned_path_def example_env_simps
        persist_writes_def task_output_of_def error_markers_def output_writes_def command_end_def Let_def)
  then obtain wlog r where x: "execute_superstep ?env ?ts ?os () [] = Some (wlog, Ok r)" "length wlog = 1" by blast
  have ck: "re_checkpointer ?env = Some (\<lambda>_ _. None)" and l: "2 \<le> length ?ts" by simp_all
  from superstep_writes_persisted [OF ck l x(1)] x show ?thesis by blast
qed

end
