(* ===== verification/Budget.thy ===== *)
theory Budget
  imports Errors Complex_Main
begin

text \<open>
  \<open>juncture-core/src/pregel/budget.rs\<close>: resource limits of a run and the tracker the engine and the
  model providers report to.  Amounts of money are rationals (the rounding of \<open>f64\<close> arithmetic is
  not modelled), atomics are plain fields with the wrap-around of \<open>fetch_add\<close>, the
  clock reading is an argument, and the optional metrics collector is the log of the calls made to it.
\<close>

section \<open>Configuration\<close>

record budget_usage =
  bu_tokens_used :: nat
  bu_cost_usd :: rat
  bu_duration :: nat
  bu_steps_completed :: nat

datatype budget_exceeded_action =
    BudgetTerminate
  | BudgetInterrupt
  | BudgetCustom "budget_usage \<Rightarrow> budget_exceeded_action"

record budget_config =
  max_tokens :: "nat option"
  max_cost_usd :: "rat option"
  max_duration :: "nat option"
  max_steps :: "nat option"
  on_exceeded :: budget_exceeded_action

definition budget_config_new :: budget_config where
  "budget_config_new = \<lparr>max_tokens = None, max_cost_usd = None, max_duration = None,
     max_steps = None, on_exceeded = BudgetTerminate\<rparr>"

definition with_max_tokens :: "nat \<Rightarrow> budget_config \<Rightarrow> budget_config" where
  "with_max_tokens n c = c\<lparr>max_tokens := Some n\<rparr>"

definition with_max_cost_usd :: "rat \<Rightarrow> budget_config \<Rightarrow> budget_config" where
  "with_max_cost_usd x c = c\<lparr>max_cost_usd := Some x\<rparr>"

definition with_max_duration :: "nat \<Rightarrow> budget_config \<Rightarrow> budget_config" where
  "with_max_duration d c = c\<lparr>max_duration := Some d\<rparr>"

definition with_max_steps :: "nat \<Rightarrow> budget_config \<Rightarrow> budget_config" where
  "with_max_steps n c = c\<lparr>max_steps := Some n\<rparr>"

definition has_limits :: "budget_config \<Rightarrow> bool" where
  "has_limits c \<longleftrightarrow> max_tokens c \<noteq> None \<or> max_cost_usd c \<noteq> None \<or> max_duration c \<noteq> None
     \<or> max_steps c \<noteq> None"

section \<open>Tracker\<close>

datatype metric_event = IncCounter string nat | RecordHistogram string nat

record budget_tracker =
  tokens_used :: nat
  cost_usd_micros :: nat
  start_time :: nat
  steps_completed :: nat
  bt_config :: budget_config
  metrics_collector :: "metric_event list option"

definition budget_tracker_new :: "nat \<Rightarrow> budget_config \<Rightarrow> budget_tracker" where
  "budget_tracker_new now cfg = \<lparr>tokens_used = 0, cost_usd_micros = 0, start_time = now,
     steps_completed = 0, bt_config = cfg, metrics_collector = None\<rparr>"

definition with_metrics_collector :: "metric_event list option \<Rightarrow> budget_tracker \<Rightarrow> budget_tracker" where
  "with_metrics_collector mc t = t\<lparr>metrics_collector := mc\<rparr>"

definition emit_metric :: "metric_event \<Rightarrow> budget_tracker \<Rightarrow> budget_tracker" where
  "emit_metric m t = (case metrics_collector t of
       Some evs \<Rightarrow> t\<lparr>metrics_collector := Some (evs @ [m])\<rparr>
     | None \<Rightarrow> t)"

definition report_tokens :: "nat \<Rightarrow> budget_tracker \<Rightarrow> budget_tracker" where
  "report_tokens n t = emit_metric (IncCounter ''juncture.llm.tokens.input'' n)
     (t\<lparr>tokens_used := wrap_add64 (tokens_used t) n\<rparr>)"

definition report_output_tokens :: "nat \<Rightarrow> budget_tracker \<Rightarrow> budget_tracker" where
  "report_output_tokens n t = emit_metric (IncCounter ''juncture.llm.tokens.output'' n) t"

text \<open>\<open>as u64\<close> truncates towards zero and saturates at both ends.\<close>

definition cost_micros :: "rat \<Rightarrow> nat" where
  "cost_micros c = min (nat \<lfloor>c * 1000000\<rfloor>) u64_max"

definition report_cost :: "rat \<Rightarrow> budget_tracker \<Rightarrow> budget_tracker" where
  "report_cost c t = emit_metric (IncCounter ''juncture.llm.cost_usd'' (cost_micros c))
     (t\<lparr>cost_usd_micros := wrap_add64 (cost_usd_micros t) (cost_micros c)\<rparr>)"

definition report_step :: "budget_tracker \<Rightarrow> budget_tracker" where
  "report_step t = t\<lparr>steps_completed := wrap_add64 (steps_completed t) 1\<rparr>"

definition report_llm_call :: "budget_tracker \<Rightarrow> budget_tracker" where
  "report_llm_call t = emit_metric (IncCounter ''juncture.llm.calls'' 1) t"

definition report_llm_duration :: "nat \<Rightarrow> budget_tracker \<Rightarrow> budget_tracker" where
  "report_llm_duration d t = emit_metric (RecordHistogram ''juncture.llm.duration_ms'' d) t"

definition report_tool_call :: "budget_tracker \<Rightarrow> budget_tracker" where
  "report_tool_call t = emit_metric (IncCounter ''juncture.tool.calls'' 1) t"

definition report_tool_error :: "budget_tracker \<Rightarrow> budget_tracker" where
  "report_tool_error t = emit_metric (IncCounter ''juncture.tool.errors'' 1) t"

definition report_tool_duration :: "nat \<Rightarrow> budget_tracker \<Rightarrow> budget_tracker" where
  "report_tool_duration d t = emit_metric (RecordHistogram ''juncture.tool.duration_ms'' d) t"

definition report_usage :: "nat \<Rightarrow> rat \<Rightarrow> budget_tracker \<Rightarrow> budget_tracker" where
  "report_usage n c t = report_cost c (report_tokens n t)"

definition report_model_call :: "nat \<Rightarrow> nat \<Rightarrow> budget_tracker \<Rightarrow> budget_tracker" where
  "report_model_call i o' t = t\<lparr>tokens_used := wrap_add64 (tokens_used t) (wrap_add64 i o')\<rparr>"

section \<open>Checking the limits\<close>

datatype budget_exceeded_reason =
    ExceededTokens nat nat
  | ExceededCost rat rat
  | ExceededDuration nat nat
  | ExceededSteps nat nat

definition elapsed :: "nat \<Rightarrow> budget_tracker \<Rightarrow> nat" where
  "elapsed now t = now - start_time t"

definition tracked_cost :: "budget_tracker \<Rightarrow> rat" where
  "tracked_cost t = of_nat (cost_usd_micros t) / 1000000"

definition exceeds :: "('a::linorder) option \<Rightarrow> 'a \<Rightarrow> bool" where
  "exceeds limit used = (case limit of Some m \<Rightarrow> used > m | None \<Rightarrow> False)"

definition budget_check :: "nat \<Rightarrow> budget_tracker \<Rightarrow> budget_exceeded_reason option" where
  "budget_check now t = (let c = bt_config t in
     if exceeds (max_tokens c) (tokens_used t)
       then Some (ExceededTokens (tokens_used t) (the (max_tokens c)))
     else if exceeds (max_cost_usd c) (tracked_cost t)
       then Some (ExceededCost (tracked_cost t) (the (max_cost_usd c)))
     else if exceeds (max_duration c) (elapsed now t)
       then Some (ExceededDuration (elapsed now t) (the (max_duration c)))
     else if exceeds (max_steps c) (steps_completed t)
       then Some (ExceededSteps (steps_completed t) (the (max_steps c)))
     else None)"

definition current_usage :: "nat \<Rightarrow> budget_tracker \<Rightarrow> budget_usage" where
  "current_usage now t = \<lparr>bu_tokens_used = tokens_used t, bu_cost_usd = tracked_cost t,
     bu_duration = elapsed now t, bu_steps_completed = steps_completed t\<rparr>"

section \<open>Reports through the task-local tracker\<close>

datatype budget_report_error = NoTracker

text \<open>\<open>BUDGET_TRACKER.try_with\<close>: outside of a scope there is no tracker to report to.\<close>

definition with_tracker ::
    "(budget_tracker \<Rightarrow> budget_tracker) \<Rightarrow> budget_tracker option \<Rightarrow> (budget_report_error, budget_tracker) result" where
  "with_tracker f scope = (case scope of Some t \<Rightarrow> Ok (f t) | None \<Rightarrow> Err NoTracker)"

definition try_report_model_call ::
    "nat \<Rightarrow> nat \<Rightarrow> budget_tracker option \<Rightarrow> (budget_report_error, budget_tracker) result" where
  "try_report_model_call i o' scope = with_tracker (report_model_call i o') scope"

definition try_report_llm_call :: "budget_tracker option \<Rightarrow> (budget_report_error, budget_tracker) result" where
  "try_report_llm_call scope = with_tracker report_llm_call scope"

definition try_report_llm_duration :: "nat \<Rightarrow> budget_tracker option \<Rightarrow> (budget_report_error, budget_tracker) result" where
  "try_report_llm_duration d scope = with_tracker (report_llm_duration d) scope"

definition try_report_tool_call :: "budget_tracker option \<Rightarrow> (budget_report_error, budget_tracker) result" where
  "try_report_tool_call scope = with_tracker report_tool_call scope"

definition try_report_tool_error :: "budget_tracker option \<Rightarrow> (budget_report_error, budget_tracker) result" where
  "try_report_tool_error scope = with_tracker report_tool_error scope"

definition try_report_tool_duration :: "nat \<Rightarrow> budget_tracker option \<Rightarrow> (budget_report_error, budget_tracker) result" where
  "try_report_tool_duration d scope = with_tracker (report_tool_duration d) scope"

section \<open>Runs of reports\<close>

text \<open>The reports a run makes, as events of a transition system.\<close>

datatype budget_event =
    EvTokens nat
  | EvOutputTokens nat
  | EvCost rat
  | EvStep
  | EvLlmCall
  | EvModelCall nat nat
  | EvToolCall

fun budget_step :: "budget_event \<Rightarrow> budget_tracker \<Rightarrow> budget_tracker" where
  "budget_step (EvTokens n) t = report_tokens n t"
| "budget_step (EvOutputTokens n) t = report_output_tokens n t"
| "budget_step (EvCost c) t = report_cost c t"
| "budget_step EvStep t = report_step t"
| "budget_step EvLlmCall t = report_llm_call t"
| "budget_step (EvModelCall i o') t = report_model_call i o' t"
| "budget_step EvToolCall t = report_tool_call t"

fun event_tokens :: "budget_event \<Rightarrow> nat" where
  "event_tokens (EvTokens n) = n"
| "event_tokens (EvModelCall i o') = i + o'"
| "event_tokens _ = 0"

fun event_micros :: "budget_event \<Rightarrow> nat" where
  "event_micros (EvCost c) = cost_micros c"
| "event_micros _ = 0"

fun event_steps :: "budget_event \<Rightarrow> nat" where
  "event_steps EvStep = 1"
| "event_steps _ = 0"

lemmas report_defs = report_tokens_def report_output_tokens_def report_cost_def report_step_def
  report_llm_call_def report_tool_call_def report_model_call_def

lemma emit_metric_counters [simp]:
  "tokens_used (emit_metric m t) = tokens_used t"
  "cost_usd_micros (emit_metric m t) = cost_usd_micros t"
  "steps_completed (emit_metric m t) = steps_completed t"
  "start_time (emit_metric m t) = start_time t"
  "bt_config (emit_metric m t) = bt_config t"
  by (simp_all add: emit_metric_def split: option.splits)

lemma budget_step_counters:
  "tokens_used (budget_step e t) mod 2 ^ 64 = (tokens_used t + event_tokens e) mod 2 ^ 64"
  "cost_usd_micros (budget_step e t) mod 2 ^ 64 = (cost_usd_micros t + event_micros e) mod 2 ^ 64"
  "steps_completed (budget_step e t) mod 2 ^ 64 = (steps_completed t + event_steps e) mod 2 ^ 64"
  "bt_config (budget_step e t) = bt_config t" "start_time (budget_step e t) = start_time t"
  by (cases e; simp add: report_defs wrap_add64_def mod_simps)+

text \<open>The tracker's counters never leave the machine range, whatever is reported.\<close>

definition budget_inv :: "budget_tracker \<Rightarrow> bool" where
  "budget_inv t \<longleftrightarrow> tokens_used t < 2 ^ 64 \<and> cost_usd_micros t < 2 ^ 64 \<and> steps_completed t < 2 ^ 64"

interpretation budget_ts: transition_system
  "\<lambda>t. \<exists>now cfg mc. t = with_metrics_collector mc (budget_tracker_new now cfg)" budget_step budget_inv
proof unfold_locales
  fix t e assume "budget_inv t"
  then show "budget_inv (budget_step e t)"
    by (cases e) (simp_all add: budget_inv_def report_defs wrap_add64_def)
qed (auto simp: budget_inv_def budget_tracker_new_def with_metrics_collector_def)

lemma budget_run_mod:
  "tokens_used (fold budget_step es t) mod 2 ^ 64 = (tokens_used t + sum_list (map event_tokens es)) mod 2 ^ 64 \<and>
   cost_usd_micros (fold budget_step es t) mod 2 ^ 64 = (cost_usd_micros t + sum_list (map event_micros es)) mod 2 ^ 64 \<and>
   steps_completed (fold budget_step es t) mod 2 ^ 64 = (steps_completed t + sum_list (map event_steps es)) mod 2 ^ 64 \<and>
   bt_config (fold budget_step es t) = bt_config t \<and> start_time (fold budget_step es t) = start_time t"
proof (induction es arbitrary: t)
  case (Cons e es)
  have "(a' + k) mod m = (a + (x + k)) mod m" if "a' mod m = (a + x) mod m" for a' a x k m :: nat
    using that by (metis add.assoc mod_add_left_eq)
  note step = this
  note IH = Cons [of "budget_step e t"] and st = budget_step_counters [of e t]
  show ?case
    using IH step [OF st(1)] step [OF st(2)] step [OF st(3)] st(4,5)
    by (simp only: fold_simps list.map sum_list.Cons)
qed simp

lemma budget_run_totals:
  assumes "sum_list (map event_tokens es) < 2 ^ 64" and "sum_list (map event_micros es) < 2 ^ 64"
    and "sum_list (map event_steps es) < 2 ^ 64"
  shows "tokens_used (fold budget_step es (budget_tracker_new now cfg)) = sum_list (map event_tokens es)"
    and "cost_usd_micros (fold budget_step es (budget_tracker_new now cfg)) = sum_list (map event_micros es)"
    and "steps_completed (fold budget_step es (budget_tracker_new now cfg)) = sum_list (map event_steps es)"
    and "bt_config (fold budget_step es (budget_tracker_new now cfg)) = cfg"
    and "start_time (fold budget_step es (budget_tracker_new now cfg)) = now"
proof -
  let ?t = "budget_tracker_new now cfg"
  have "budget_inv ?t" by (simp add: budget_inv_def budget_tracker_new_def)
  from budget_ts.inv_run [OF this, of es] budget_run_mod [of es ?t] assms
  show "tokens_used (fold budget_step es ?t) = sum_list (map event_tokens es)"
    and "cost_usd_micros (fold budget_step es ?t) = sum_list (map event_micros es)"
    and "steps_completed (fold budget_step es ?t) = sum_list (map event_steps es)"
    and "bt_config (fold budget_step es ?t) = cfg" and "start_time (fold budget_step es ?t) = now"
    by (simp_all add: budget_inv_def budget_tracker_new_def)
qed

text \<open>What a sequence of reports adds up to, and the limits it must respect.\<close>

definition within_limits :: "budget_config \<Rightarrow> nat \<Rightarrow> budget_event list \<Rightarrow> bool" where
  "within_limits cfg duration es \<longleftrightarrow>
     \<not> exceeds (max_tokens cfg) (sum_list (map event_tokens es)) \<and>
     \<not> exceeds (max_cost_usd cfg) (of_nat (sum_list (map event_micros es)) / 1000000) \<and>
     \<not> exceeds (max_duration cfg) duration \<and>
     \<not> exceeds (max_steps cfg) (sum_list (map event_steps es))"

lemma exceeds_mono: "exceeds limit a \<Longrightarrow> a \<le> b \<Longrightarrow> exceeds limit b"
  by (auto simp: exceeds_def split: option.splits)

lemma within_limits_append:
  assumes "within_limits cfg d' (es @ es')" and "d \<le> d'"
  shows "within_limits cfg d es"
proof -
  let ?c = "\<lambda>es. (of_nat (sum_list (map event_micros es)) :: rat) / 1000000"
  have "exceeds (max_tokens cfg) (sum_list (map event_tokens (es @ es')))" if "exceeds (max_tokens cfg) (sum_list (map event_tokens es))"
    by (rule exceeds_mono [OF that]) simp
  moreover have "exceeds (max_cost_usd cfg) (?c (es @ es'))" if "exceeds (max_cost_usd cfg) (?c es)"
    by (rule exceeds_mono [OF that]) (simp add: divide_right_mono)
  moreover have "exceeds (max_duration cfg) d'" if "exceeds (max_duration cfg) d"
    by (rule exceeds_mono [OF that assms(2)])
  moreover have "exceeds (max_steps cfg) (sum_list (map event_steps (es @ es')))" if "exceeds (max_steps cfg) (sum_list (map event_steps es))"
    by (rule exceeds_mono [OF that]) simp
  ultimately show ?thesis using assms(1) unfolding within_limits_def by blast
qed

lemma budget_check_None_iff:
  assumes "sum_list (map event_tokens es) < 2 ^ 64" and "sum_list (map event_micros es) < 2 ^ 64"
    and "sum_list (map event_steps es) < 2 ^ 64"
  shows "budget_check now (fold budget_step es (budget_tracker_new t0 cfg)) = None \<longleftrightarrow> within_limits cfg (now - t0) es"
  by (simp add: budget_check_def Let_def within_limits_def tracked_cost_def elapsed_def
      budget_run_totals [OF assms])

section \<open>Properties\<close>



text \<open>
  As long as the true totals fit the machine width, the tracker holds exactly the sum of all
  reported tokens (input and output), micro-dollars and steps, however the reports interleave.
\<close>

theorem budget_totals_exact:
  assumes "sum_list (map event_tokens es) < 2 ^ 64" and "sum_list (map event_micros es) < 2 ^ 64"
    and "sum_list (map event_steps es) < 2 ^ 64"
  shows "tokens_used (fold budget_step es (budget_tracker_new now cfg)) = sum_list (map event_tokens es) \<and>
     cost_usd_micros (fold budget_step es (budget_tracker_new now cfg)) = sum_list (map event_micros es) \<and>
     steps_completed (fold budget_step es (budget_tracker_new now cfg)) = sum_list (map event_steps es)"
  using budget_run_totals [OF assms] by simp

theorem budget_totals_exact_witness:
  "tokens_used (fold budget_step [EvModelCall 50 150, EvStep, EvTokens 7] (budget_tracker_new 0 budget_config_new)) = 207"
  using budget_totals_exact [of "[EvModelCall 50 150, EvStep, EvTokens 7]" 0 budget_config_new] by simp

end
