(* ===== verification/Pregel.thy ===== *)
theory Pregel
  imports Runner Budget
begin

text \<open>
  \<open>juncture-core/src/pregel/loop_.rs\<close>: the engine's loop.  One iteration is \<open>tick\<close> (may the run go
  on?), \<open>execute_superstep\<close> (run the pending tasks) and \<open>after_tick\<close> (merge, route, recover, checkpoint,
  interrupt).  The outside world of an iteration -- clock, identifiers, node behaviour, completion
  order, serializers, the checkpointer's answers, the interrupt signals nodes sent -- is the
  record \<open>world\<close>.  Stream events, metrics, tracing and callbacks are output only and left out.  A
  panic is \<open>None\<close>.
\<close>

section \<open>Configuration and state\<close>

datatype durability = DurSync | DurAsync | DurExit

record run_config =
  rc_recursion_limit :: nat
  rc_interrupt_before :: "string list option"
  rc_interrupt_after :: "string list option"
  rc_max_state_size :: "nat option"
  rc_durability :: "durability option"

record delta_counters =
  dc_updates :: nat
  dc_supersteps :: nat

definition delta_counters_new :: delta_counters where
  "delta_counters_new = \<lparr>dc_updates = 0, dc_supersteps = 0\<rparr>"

definition exceeds_frequency :: "delta_counters \<Rightarrow> nat \<Rightarrow> bool" where
  "exceeds_frequency c freq = (if freq = 0 then True else dc_updates c \<ge> freq)"

datatype checkpoint_source = SourceInput | SourceLoop | SourceUpdate | SourceInterrupt string | SourceFork

record checkpoint =
  ck_id :: string
  ck_channel_values :: json
  ck_channel_versions :: "(string, nat) imap"
  ck_versions_seen :: "(string, (string, nat) imap) imap"
  ck_pending_tasks :: "(string \<times> string) list"
  ck_pending_interrupts :: "interrupt_signal list"
  ck_new_versions :: "(string, nat) imap"
  ck_counters :: "(string, delta_counters) imap"
  ck_source :: checkpoint_source
  ck_step :: nat

record ('s, 'n) pregel_loop =
  pl_state :: 's
  pl_nodes :: "(string, 'n) imap"
  pl_registration :: "(string, nat) imap"
  pl_trigger_table :: "'s trigger_table"
  pl_versions :: version_tracker
  pl_seen :: versions_seen
  pl_config :: run_config
  pl_cancelled :: bool
  pl_checkpointer :: bool
  pl_step :: nat
  pl_status :: loop_status
  pl_pending :: "'s pending_task list"
  pl_prev_changed :: fields_changed
  pl_budget :: "budget_tracker option"
  pl_drain :: bool
  pl_interrupt_rx :: "interrupt_signal list"
  pl_pending_interrupts :: "interrupt_signal list"
  pl_scratchpad :: scratchpad
  pl_interrupt_seen :: "(string, nat) imap"
  pl_error_handlers :: "(string, string) imap"
  pl_t2n :: trigger_to_nodes
  pl_retries :: "(string, retry_policy) imap"
  pl_timeouts :: "(string, timeout_policy) imap"
  pl_cb_configs :: "(string, circuit_breaker_config) imap"
  pl_cb_states :: "(string, circuit_breaker_state) imap"
  pl_fallbacks :: "(string, string) imap"
  pl_delta :: "(string, delta_counters) imap"
  pl_finished :: bool
  pl_saved :: "checkpoint list"

text \<open>\<open>w_fresh site k\<close>: the \<open>k\<close>-th identifier drawn at a call site.\<close>

record ('s, 'u, 'n) world =
  w_now :: nat
  w_fresh :: "nat \<Rightarrow> nat \<Rightarrow> string"
  w_hash :: "string \<Rightarrow> nat \<Rightarrow> string"
  w_exec :: "bool \<Rightarrow> 'n \<Rightarrow> 's \<Rightarrow> string \<Rightarrow> 'u node_exec option"
  w_order :: "'s pending_task list \<Rightarrow> 's pending_task list"
  w_cancelled :: "string \<Rightarrow> bool"
  w_signals :: "interrupt_signal list"
  w_put_writes :: "pending_write list \<Rightarrow> string \<Rightarrow> juncture_error option"
  w_put :: "checkpoint \<Rightarrow> juncture_error option"
  w_update_value :: "'u \<Rightarrow> json option"
  w_to_value :: "'s \<Rightarrow> json option"
  w_from_value :: "json \<Rightarrow> 's option"
  w_size :: "'s \<Rightarrow> nat option"
  w_display :: "juncture_error \<Rightarrow> string"
  w_reason :: "budget_exceeded_reason \<Rightarrow> string"
  w_stored_writes :: "pending_write list option"

section \<open>Construction\<close>

definition request_drain :: "('s, 'n) pregel_loop \<Rightarrow> ('s, 'n) pregel_loop" where
  "request_drain pl = pl\<lparr>pl_drain := True\<rparr>"

definition starts_from_START :: "trigger_source list \<Rightarrow> bool" where
  "starts_from_START sources = list_ex (\<lambda>src. src = TrigEdge START) sources"

fun initial_tasks :: "(nat \<Rightarrow> string) \<Rightarrow> (string, trigger_source list) imap \<Rightarrow> 's pending_task list \<Rightarrow> 's pending_task list" where
  "initial_tasks fresh [] tasks = tasks"
| "initial_tasks fresh ((n, sources) # inc) tasks =
     initial_tasks fresh inc
       (if starts_from_START sources then tasks @ [task_pull (fresh (length tasks)) n] else tasks)"

definition compute_initial_tasks :: "(nat \<Rightarrow> string) \<Rightarrow> 's trigger_table \<Rightarrow> 's pending_task list" where
  "compute_initial_tasks fresh tt = initial_tasks fresh (tt_incoming tt) []"

definition with_error_handlers ::
    "(nat \<Rightarrow> string) \<Rightarrow> 's \<Rightarrow> (string, 'n) imap \<Rightarrow> 's trigger_table \<Rightarrow> run_config \<Rightarrow> nat \<Rightarrow> (string, string) imap
       \<Rightarrow> ('s, 'n) pregel_loop option" where
  "with_error_handlers fresh s nodes tt config num_fields eh =
     map_option (\<lambda>tracker.
       \<lparr>pl_state = s, pl_nodes = nodes,
        pl_registration = map (\<lambda>(i, n). (n, i)) (enumerate 0 (im_keys nodes)),
        pl_trigger_table = tt, pl_versions = tracker,
        pl_seen = versions_seen_new (im_keys nodes) num_fields,
        pl_config = config, pl_cancelled = False, pl_checkpointer = False, pl_step = 0,
        pl_status = Running, pl_pending = compute_initial_tasks fresh tt, pl_prev_changed = 0,
        pl_budget = None, pl_drain = False, pl_interrupt_rx = [], pl_pending_interrupts = [],
        pl_scratchpad = scratchpad_new, pl_interrupt_seen = [], pl_error_handlers = eh,
        pl_t2n = from_trigger_table tt, pl_retries = [], pl_timeouts = [], pl_cb_configs = [],
        pl_cb_states = [], pl_fallbacks = [], pl_delta = [], pl_finished = False, pl_saved = []\<rparr>)
     (tracker_new num_fields)"

definition pregel_new ::
    "(nat \<Rightarrow> string) \<Rightarrow> 's \<Rightarrow> (string, 'n) imap \<Rightarrow> 's trigger_table \<Rightarrow> run_config \<Rightarrow> nat \<Rightarrow> ('s, 'n) pregel_loop option" where
  "pregel_new fresh s nodes tt config num_fields = with_error_handlers fresh s nodes tt config num_fields []"

definition set_budget_tracker :: "budget_tracker \<Rightarrow> ('s, 'n) pregel_loop \<Rightarrow> ('s, 'n) pregel_loop" where
  "set_budget_tracker t pl = pl\<lparr>pl_budget := Some t\<rparr>"

definition set_circuit_breaker_policies ::
    "(string, circuit_breaker_config) imap \<Rightarrow> ('s, 'n) pregel_loop \<Rightarrow> ('s, 'n) pregel_loop" where
  "set_circuit_breaker_policies configs pl =
     pl\<lparr>pl_cb_configs := configs, pl_cb_states := map (\<lambda>n. (n, breaker_state_new)) (im_keys configs)\<rparr>"

section \<open>Circuit breakers of the loop\<close>

fun check_breakers_loop ::
    "(string, circuit_breaker_config) imap \<Rightarrow> nat \<Rightarrow> 's pending_task list \<Rightarrow> (string, circuit_breaker_state) imap
       \<Rightarrow> 'u task_output list \<Rightarrow> string list \<Rightarrow> (string, circuit_breaker_state) imap \<times> 'u task_output list \<times> string list" where
  "check_breakers_loop configs now [] states blocked ids = (states, blocked, ids)"
| "check_breakers_loop configs now (t # ts) states blocked ids =
     (case (im_get configs (task_node t), im_get states (task_node t)) of
        (Some cfg, Some b) \<Rightarrow>
          (case should_allow cfg now b of
             (b', True) \<Rightarrow> check_breakers_loop configs now ts (im_insert (task_node t) b' states) blocked ids
           | (b', False) \<Rightarrow>
               check_breakers_loop configs now ts (im_insert (task_node t) b' states)
                 (blocked @ [\<lparr>out_task_id = task_id t, out_node = task_node t, out_command = command_default,
                    out_duration = 0, out_trigger = Pull, out_triggered_fields = [],
                    out_error = Some (ExecutionError (''Circuit breaker open for node '' @ task_node t @ '': '' @
                      nat_to_string (consecutive_failures b') @ '' consecutive failures'')),
                    out_circuit_blocked = True\<rparr>]) (hs_insert (task_id t) ids))
      | _ \<Rightarrow> check_breakers_loop configs now ts states blocked ids)"

definition check_circuit_breakers ::
    "nat \<Rightarrow> ('s, 'n) pregel_loop \<Rightarrow> ('s, 'n) pregel_loop \<times> 'u task_output list" where
  "check_circuit_breakers now pl =
     (if pl_cb_configs pl = [] then (pl, [])
      else case check_breakers_loop (pl_cb_configs pl) now (pl_pending pl) (pl_cb_states pl) [] [] of
        (states, blocked, ids) \<Rightarrow>
          (pl\<lparr>pl_cb_states := states, pl_pending := filter (\<lambda>t. task_id t \<notin> set ids) (pl_pending pl)\<rparr>, blocked))"

definition record_breaker ::
    "(string, circuit_breaker_config) imap \<Rightarrow> nat \<Rightarrow> 'u task_output \<Rightarrow> (string, circuit_breaker_state) imap
       \<Rightarrow> (string, circuit_breaker_state) imap" where
  "record_breaker configs now out states =
     (case (im_get configs (out_node out), im_get states (out_node out)) of
        (Some cfg, Some b) \<Rightarrow>
          let b' = mark_half_open_attempt b in
          im_insert (out_node out)
            (if out_error out \<noteq> None then record_failure cfg now b' else record_success b') states
      | _ \<Rightarrow> states)"

definition record_circuit_breaker_results ::
    "nat \<Rightarrow> 'u task_output list \<Rightarrow> ('s, 'n) pregel_loop \<Rightarrow> ('s, 'n) pregel_loop" where
  "record_circuit_breaker_results now outs pl =
     (if pl_cb_configs pl = [] then pl
      else pl\<lparr>pl_cb_states := fold (record_breaker (pl_cb_configs pl) now) outs (pl_cb_states pl)\<rparr>)"

definition health :: "('s, 'n) pregel_loop \<Rightarrow> health_status" where
  "health pl =
     (let guarded = filter_map (\<lambda>n. map_option (\<lambda>b. (n, case cb_state b of
            Closed \<Rightarrow> \<lparr>nh_status = (if consecutive_failures b > 0 then Degraded else Healthy),
               nh_consecutive_failures = consecutive_failures b, nh_circuit_state = Some ''closed''\<rparr>
          | HalfOpen \<Rightarrow> \<lparr>nh_status = Degraded, nh_consecutive_failures = consecutive_failures b, nh_circuit_state = Some ''half_open''\<rparr>
          | Open \<Rightarrow> \<lparr>nh_status = Unhealthy, nh_consecutive_failures = consecutive_failures b, nh_circuit_state = Some ''open''\<rparr>))
            (im_get (pl_cb_states pl) n)) (im_keys (pl_cb_configs pl));
          opened = length (filter (\<lambda>n. map_option cb_state (im_get (pl_cb_states pl) n) = Some Open) (im_keys (pl_cb_configs pl)));
          nodes = fold (\<lambda>n m. if im_contains m n then m
            else im_insert n \<lparr>nh_status = Healthy, nh_consecutive_failures = 0, nh_circuit_state = None\<rparr> m) (im_keys (pl_nodes pl)) guarded
      in \<lparr>hs_healthy = list_all (\<lambda>(_, h). nh_status h = Healthy) nodes, hs_nodes = nodes, hs_open_circuit_breakers = opened\<rparr>)"

section \<open>Channels, durability and delta counters\<close>

definition finish_all_channels :: "('s, 'u) state_impl \<Rightarrow> ('s, 'n) pregel_loop \<Rightarrow> ('s, 'n) pregel_loop" where
  "finish_all_channels S pl =
     (if pl_finished pl then pl
      else pl\<lparr>pl_state := fold (st_finish_field S) (st_replace_after_finish_field_indices S) (pl_state pl),
              pl_finished := True\<rparr>)"

definition consume_changed :: "('s, 'u) state_impl \<Rightarrow> fields_changed \<Rightarrow> 's \<Rightarrow> 's" where
  "consume_changed S changed s =
     fold (\<lambda>i s. if has_field changed i then st_consume_field S i s else s) [0..<st_field_count S] s"

definition effective_durability :: "('s, 'n) pregel_loop \<Rightarrow> durability" where
  "effective_durability pl = (case rc_durability (pl_config pl) of Some d \<Rightarrow> d | None \<Rightarrow> DurSync)"

definition field_key :: "nat \<Rightarrow> string" where
  "field_key i = ''field_'' @ nat_to_string i"

definition version_map :: "nat list \<Rightarrow> (string, nat) imap" where
  "version_map vs = map (\<lambda>(i, v). (field_key i, v)) (enumerate 0 vs)"

definition build_checkpoint_versions ::
    "('s, 'n) pregel_loop \<Rightarrow> (string, nat) imap \<times> (string, nat) imap \<times> (string, (string, nat) imap) imap" where
  "build_checkpoint_versions pl =
     (let cv = version_map (vt_versions (pl_versions pl)) in
      (cv, cv, map (\<lambda>n. (n, version_map (get_seen (pl_seen pl) n))) (im_keys (pl_nodes pl))))"

definition bump_counter :: "fields_changed \<Rightarrow> nat \<Rightarrow> (string, delta_counters) imap \<Rightarrow> (string, delta_counters) imap" where
  "bump_counter changed i m =
     im_modify (field_key i) delta_counters_new
       (\<lambda>c. let c1 = c\<lparr>dc_supersteps := sat_add (dc_supersteps c) 1\<rparr> in
            if has_field changed i then c1\<lparr>dc_updates := sat_add (dc_updates c1) 1\<rparr> else c1) m"

definition update_delta_counters ::
    "('s, 'u) state_impl \<Rightarrow> fields_changed \<Rightarrow> ('s, 'n) pregel_loop \<Rightarrow> ('s, 'n) pregel_loop" where
  "update_delta_counters S changed pl =
     pl\<lparr>pl_delta := fold (bump_counter changed)
       [0..<min (length (st_field_names S)) (length (vt_versions (pl_versions pl)))] (pl_delta pl)\<rparr>"

definition should_take_full_snapshot :: "('s, 'u) state_impl \<Rightarrow> ('s, 'n) pregel_loop \<Rightarrow> bool" where
  "should_take_full_snapshot S pl =
     (if st_delta_channel_specs S = [] then True
      else list_ex (\<lambda>(i, freq). case im_get (pl_delta pl) (field_key i) of
          Some c \<Rightarrow> exceeds_frequency c freq | None \<Rightarrow> False) (st_delta_channel_specs S))"

section \<open>Checkpoints\<close>

definition make_checkpoint ::
    "string \<Rightarrow> json \<Rightarrow> ('s, 'n) pregel_loop \<Rightarrow> (string \<times> string) list \<Rightarrow> interrupt_signal list
       \<Rightarrow> (string, delta_counters) imap \<Rightarrow> checkpoint_source \<Rightarrow> checkpoint" where
  "make_checkpoint i values pl tasks interrupts counters source = (case build_checkpoint_versions pl of
     (cv, nv, seen) \<Rightarrow>
       \<lparr>ck_id = i, ck_channel_values = values, ck_channel_versions = cv, ck_versions_seen = seen,
        ck_pending_tasks = tasks, ck_pending_interrupts = interrupts, ck_new_versions = nv,
        ck_counters = counters, ck_source = source, ck_step = min (pl_step pl) (2 ^ 63 - 1)\<rparr>)"

text \<open>
  Writing a full checkpoint: synchronously a refusal is returned and the counters stay; asynchronously the
  counters are reset at once and a refusal is dropped.
\<close>

definition put_checkpoint ::
    "('s, 'u, 'n) world \<Rightarrow> checkpoint \<Rightarrow> ('s, 'n) pregel_loop \<Rightarrow> ('s, 'n) pregel_loop \<times> (juncture_error, unit) result" where
  "put_checkpoint w ck pl = (case effective_durability pl of
       DurAsync \<Rightarrow>
         (pl\<lparr>pl_delta := [], pl_saved := (if w_put w ck = None then pl_saved pl @ [ck] else pl_saved pl)\<rparr>, Ok ())
     | _ \<Rightarrow> (case w_put w ck of
           None \<Rightarrow> (pl\<lparr>pl_delta := [], pl_saved := pl_saved pl @ [ck]\<rparr>, Ok ())
         | Some e \<Rightarrow> (pl, Err e)))"

definition interrupt_node_name :: "('s, 'n) pregel_loop \<Rightarrow> string" where
  "interrupt_node_name pl = (case pl_pending_interrupts pl of
       [] \<Rightarrow> ''unknown''
     | s # _ \<Rightarrow> (case Option.bind (Option.bind (as_object (sig_payload s)) (\<lambda>o'. map_of o' ''node'')) as_str of
           Some n \<Rightarrow> n | None \<Rightarrow> ''unknown''))"

definition save_interrupt_checkpoint ::
    "('s, 'u, 'n) world \<Rightarrow> string \<Rightarrow> ('s, 'n) pregel_loop \<Rightarrow> ('s, 'n) pregel_loop \<times> (juncture_error, unit) result" where
  "save_interrupt_checkpoint w node pl =
     (if \<not> pl_checkpointer pl then (pl, Ok ())
      else case w_to_value w (pl_state pl) of
          None \<Rightarrow> (pl, Ok ())
        | Some v \<Rightarrow> put_checkpoint w
            (make_checkpoint (w_fresh w 0 0) v pl [] (pl_pending_interrupts pl) (pl_delta pl) (SourceInterrupt node)) pl)"

definition save_superstep_checkpoint ::
    "('s, 'u) state_impl \<Rightarrow> ('s, 'u, 'n) world \<Rightarrow> ('s, 'n) pregel_loop \<Rightarrow> ('s, 'n) pregel_loop \<times> (juncture_error, unit) result" where
  "save_superstep_checkpoint S w pl =
     (if \<not> pl_checkpointer pl then (pl, Ok ())
      else if effective_durability pl = DurExit then (pl, Ok ())
      else if \<not> should_take_full_snapshot S pl then (pl, Ok ())
      else case w_to_value w (pl_state pl) of
          None \<Rightarrow> (pl, Ok ())
        | Some v \<Rightarrow> put_checkpoint w
            (make_checkpoint (w_fresh w 1 0) v pl (map (\<lambda>t. (task_id t, task_node t)) (pl_pending pl)) [] (pl_delta pl) SourceLoop) pl)"

definition save_pending_interrupt_checkpoint ::
    "('s, 'u, 'n) world \<Rightarrow> ('s, 'n) pregel_loop \<Rightarrow> ('s, 'n) pregel_loop \<times> (juncture_error, unit) result" where
  "save_pending_interrupt_checkpoint w pl =
     (if \<not> is_interrupted (pl_status pl) \<or> \<not> pl_checkpointer pl then (pl, Ok ())
      else save_interrupt_checkpoint w (interrupt_node_name pl) pl)"

text \<open>Exit checkpoints are best-effort: a refusal is only logged.\<close>

definition save_exit_checkpoint :: "('s, 'u, 'n) world \<Rightarrow> ('s, 'n) pregel_loop \<Rightarrow> ('s, 'n) pregel_loop" where
  "save_exit_checkpoint w pl =
     (if \<not> pl_checkpointer pl then pl
      else case w_to_value w (pl_state pl) of
          None \<Rightarrow> pl
        | Some v \<Rightarrow>
            let ck = make_checkpoint (w_fresh w 2 0) v pl (map (\<lambda>t. (task_id t, task_node t)) (pl_pending pl)) [] [] SourceLoop
            in if w_put w ck = None then pl\<lparr>pl_saved := pl_saved pl @ [ck]\<rparr> else pl)"

section \<open>Tick\<close>

definition check_state_size_limit ::
    "('s, 'u, 'n) world \<Rightarrow> fields_changed \<Rightarrow> run_config \<Rightarrow> 's \<Rightarrow> (juncture_error, unit) result" where
  "check_state_size_limit w changed config s = (case rc_max_state_size config of
       None \<Rightarrow> Ok ()
     | Some max_bytes \<Rightarrow>
         if fc_is_empty changed then Ok ()
         else (case w_size w s of
             None \<Rightarrow> Err (ExecutionError ''State serialization failed for size check'')
           | Some n \<Rightarrow> if n > max_bytes then Err (ExecutionError ''State size limit exceeded'') else Ok ()))"

definition tick ::
    "('s, 'u) state_impl \<Rightarrow> ('s, 'u, 'n) world \<Rightarrow> ('s, 'n) pregel_loop \<Rightarrow> ('s, 'n) pregel_loop \<times> (juncture_error, bool) result" where
  "tick S w pl =
     (if pl_step pl \<ge> rc_recursion_limit (pl_config pl)
      then (finish_all_channels S (pl\<lparr>pl_status := OutOfSteps\<rparr>),
            Err (RecursionLimit (pl_step pl) (rc_recursion_limit (pl_config pl))))
      else if pl_cancelled pl
      then (finish_all_channels S (pl\<lparr>pl_status := StatusCancelled\<rparr>), Ok False)
      else case Option.bind (pl_budget pl) (budget_check (w_now w)) of
          Some reason \<Rightarrow>
            (finish_all_channels S (pl\<lparr>pl_status := BudgetExceeded\<rparr>),
             Err (ExecutionError (''Budget exceeded: '' @ w_reason w reason)))
        | None \<Rightarrow>
            if pl_pending pl = [] then ((finish_all_channels S pl)\<lparr>pl_status := Done\<rparr>, Ok False)
            else (case rc_interrupt_before (pl_config pl) of
                None \<Rightarrow> (pl, Ok True)
              | Some before \<Rightarrow>
                  let versions = version_map (vt_versions (pl_versions pl)) in
                  (case should_interrupt (w_hash w) (w_now w) (pl_pending pl) (hs_of_list before) [] versions (pl_interrupt_seen pl) of
                     None \<Rightarrow> (pl, Ok True)
                   | Some signals \<Rightarrow>
                       (finish_all_channels S (pl\<lparr>pl_interrupt_seen := versions, pl_pending_interrupts := signals,
                          pl_status := InterruptBefore signals\<rparr>), Ok False))))"

end
