(* ===== verification/Engine.thy ===== *)
theory Engine
  imports Pregel
begin

text \<open>
  \<open>juncture-core/src/pregel/loop_.rs\<close>, second part: executing a superstep on the loop, \<open>after_tick\<close> and
  the driver's loop of \<open>graph/compiled.rs\<close>.
\<close>

section \<open>Executing a superstep\<close>

text \<open>Tasks before the first undecodable one keep their decoded state.\<close>

fun resolve_state_json :: "(json \<Rightarrow> 's option) \<Rightarrow> 's pending_task list \<Rightarrow> 's pending_task list \<times> (juncture_error, unit) result" where
  "resolve_state_json from_value [] = ([], Ok ())"
| "resolve_state_json from_value (t # ts) =
     (case (task_state_override t, task_state_json t) of
        (None, Some j) \<Rightarrow> (case from_value j of
            None \<Rightarrow> (t # ts, Err (ExecutionError (''failed to deserialize state_json for task '' @ task_node t)))
          | Some s \<Rightarrow> (case resolve_state_json from_value ts of
                (ts', r) \<Rightarrow> (t\<lparr>task_state_override := Some s\<rparr> # ts', r)))
      | _ \<Rightarrow> (case resolve_state_json from_value ts of (ts', r) \<Rightarrow> (t # ts', r)))"

definition runner_env :: "('s, 'u, 'n) world \<Rightarrow> ('s, 'n) pregel_loop \<Rightarrow> ('s, 'u, 'n) run_env" where
  "runner_env w pl = \<lparr>re_nodes = pl_nodes pl, re_exec = w_exec w, re_error_handlers = pl_error_handlers pl,
     re_retries = pl_retries pl, re_timeouts = pl_timeouts pl, re_fallbacks = pl_fallbacks pl,
     re_cancelled_before = pl_cancelled pl, re_cancelled = w_cancelled w,
     re_checkpointer = (if pl_checkpointer pl then Some (w_put_writes w) else None),
     re_to_value = w_update_value w, re_display = w_display w, re_fresh = w_fresh w 3\<rparr>"

definition mark_processed :: "interrupt_signal list \<Rightarrow> scratchpad \<Rightarrow> scratchpad" where
  "mark_processed sigs sp = fold (\<lambda>s sp. case sig_id s of Some i \<Rightarrow> mark_interrupt_processed i sp | None \<Rightarrow> sp) sigs sp"

text \<open>
  The state is moved out for the tasks and moved back on both outcomes, so it is unchanged.  After an error
  the driver drops the loop; that its cancellation token fires on that path is not recorded.
\<close>

definition loop_execute_superstep ::
    "('s, 'u, 'n) world \<Rightarrow> ('s, 'n) pregel_loop \<Rightarrow> (('s, 'n) pregel_loop \<times> (juncture_error, 'u superstep_result) result) option" where
  "loop_execute_superstep w pl = (case resolve_state_json (w_from_value w) (pl_pending pl) of
       (tasks, Inl e) \<Rightarrow> Some (pl\<lparr>pl_pending := tasks\<rparr>, Err e)
     | (tasks, Inr _) \<Rightarrow> (case check_circuit_breakers (w_now w) (pl\<lparr>pl_pending := tasks\<rparr>) of
         (pl1, blocked) \<Rightarrow>
           (case execute_superstep (runner_env w pl1) (pl_pending pl1) (w_order w (pl_pending pl1)) (pl_state pl1) [] of
              None \<Rightarrow> None
            | Some (_, Inl e) \<Rightarrow> Some (pl1, Err e)
            | Some (_, Inr r) \<Rightarrow>
                let pl2 = pl1\<lparr>pl_scratchpad := mark_processed (pl_pending_interrupts pl1) (pl_scratchpad pl1)\<rparr>;
                    pl3 = record_circuit_breaker_results (w_now w) (sr_task_outputs r) pl2
                in Some (pl3\<lparr>pl_interrupt_rx := w_signals w\<rparr>,
                     Ok (r\<lparr>sr_task_outputs := sr_task_outputs r @ blocked\<rparr>)))))"

section \<open>After the superstep\<close>

fun mark_all_consumed :: "string list \<Rightarrow> nat list \<Rightarrow> versions_seen \<Rightarrow> versions_seen option" where
  "mark_all_consumed [] current vs = Some vs"
| "mark_all_consumed (n # ns) current vs = Option.bind (mark_consumed n current vs) (mark_all_consumed ns current)"

definition executed_outputs :: "('s, 'u, 'n) world \<Rightarrow> 'u superstep_result \<Rightarrow> 'u task_output list" where
  "executed_outputs w r = map (clone_output (w_display w)) (filter (\<lambda>o'. \<not> out_circuit_blocked o') (sr_task_outputs r))"

text \<open>Merge, size limit with rollback, counters, consumption, ephemeral reset.  The outer \<open>None\<close> is a panic.\<close>

definition merge_phase ::
    "('s, 'u) state_impl \<Rightarrow> ('s, 'u, 'n) world \<Rightarrow> 'u superstep_result \<Rightarrow> ('s, 'n) pregel_loop
       \<Rightarrow> (('s, 'n) pregel_loop \<times> (juncture_error, fields_changed) result) option" where
  "merge_phase S w r pl =
     (let before = vt_versions (pl_versions pl);
          executed = executed_outputs w r
      in case apply_writes S (pl_registration pl) executed (pl_state pl) (pl_versions pl) of
           (s', v', Inl e) \<Rightarrow> Some (pl\<lparr>pl_state := s', pl_versions := v'\<rparr>, Err e)
         | (s', v', Inr changed) \<Rightarrow>
             (case check_state_size_limit w changed (pl_config pl) s' of
                Inl e \<Rightarrow> Some (pl, Err e)
              | Inr _ \<Rightarrow>
                  let pl1 = update_delta_counters S changed (pl\<lparr>pl_state := s', pl_versions := v'\<rparr>);
                      s2 = consume_changed S (pl_prev_changed pl) (pl_state pl1)
                  in map_option (\<lambda>seen.
                       (pl1\<lparr>pl_state := st_reset_ephemeral S s2, pl_seen := seen\<rparr>, Ok changed))
                     (mark_all_consumed (map out_node executed) before (pl_seen pl1))))"

text \<open>Next tasks, then fallbacks (not twice the same node), handlers, and handlers of persisted failures.\<close>

definition dedup_fallbacks :: "'s pending_task list \<Rightarrow> 's pending_task list \<Rightarrow> 's pending_task list" where
  "dedup_fallbacks pending fbs = filter (\<lambda>t. task_node t \<notin> set (map task_node pending)) fbs"

definition schedule_phase ::
    "('s, 'u, 'n) world \<Rightarrow> 'u superstep_result \<Rightarrow> ('s, 'n) pregel_loop \<Rightarrow> (juncture_error, 's pending_task list) result" where
  "schedule_phase w r pl =
     (let executed = executed_outputs w r in
      try_bind (compute_next_tasks (w_fresh w 4) executed (pl_trigger_table pl) (pl_t2n pl) (pl_nodes pl) (pl_state pl)) (\<lambda>next.
        case schedule_fallback_tasks (w_fresh w 5) executed (pl_nodes pl) (pl_fallbacks pl) of
          (fbs, handled) \<Rightarrow>
            let with_fb = next @ dedup_fallbacks next fbs;
                recovered = with_fb @ schedule_error_handlers_filtered (w_fresh w 6) executed (pl_nodes pl) (pl_error_handlers pl) handled;
                persisted = (if pl_error_handlers pl \<noteq> [] \<and> pl_checkpointer pl
                  then (case w_stored_writes w of
                      Some ws \<Rightarrow> schedule_error_handlers_from_writes (w_fresh w 7) ws (pl_nodes pl) (pl_error_handlers pl)
                        (hs_of_list (map out_node (filter (\<lambda>o'. out_error o' \<noteq> None) executed)))
                    | None \<Rightarrow> [])
                  else [])
            in Ok (recovered @ persisted)))"

definition handle_bubble_up ::
    "('s, 'u) state_impl \<Rightarrow> 'u bubble_up \<Rightarrow> ('s, 'n) pregel_loop \<times> bool \<Rightarrow> ('s, 'n) pregel_loop \<times> bool" where
  "handle_bubble_up S b acc = (case acc of (pl, stop) \<Rightarrow> (case b of
       BubbleInterrupt gi \<Rightarrow>
         (pl\<lparr>pl_pending_interrupts := gi_interrupts gi, pl_status := InterruptAfter (gi_interrupts gi)\<rparr>, True)
     | BubbleDrained _ \<Rightarrow> (pl\<lparr>pl_status := Drained\<rparr>, True)
     | BubbleParentCommand pc \<Rightarrow>
         (case cmd_update (pc_command pc) of
            None \<Rightarrow> (pl, stop)
          | Some u \<Rightarrow> (case st_try_apply S (pl_state pl) u of
                Inr (s', changed) \<Rightarrow> (pl\<lparr>pl_state := s', pl_versions := bump_all changed (pl_versions pl)\<rparr>, stop)
              | Inl _ \<Rightarrow> (pl, stop)))))"

definition handle_bubble_ups ::
    "('s, 'u) state_impl \<Rightarrow> 'u bubble_up list \<Rightarrow> ('s, 'n) pregel_loop \<Rightarrow> ('s, 'n) pregel_loop \<times> bool" where
  "handle_bubble_ups S bs pl = fold (handle_bubble_up S) bs (pl, False)"

text \<open>Recording an interrupt: checkpoint first, and the channels are finished only when that succeeded.\<close>

definition stop_with_interrupt ::
    "('s, 'u) state_impl \<Rightarrow> ('s, 'u, 'n) world \<Rightarrow> ('s, 'n) pregel_loop \<Rightarrow> ('s, 'n) pregel_loop \<times> (juncture_error, unit) result" where
  "stop_with_interrupt S w pl = (case save_interrupt_checkpoint w (interrupt_node_name pl) pl of
       (pl', Inl e) \<Rightarrow> (pl', Err e)
     | (pl', Inr _) \<Rightarrow> (finish_all_channels S pl', Ok ()))"

definition complete_step ::
    "('s, 'u) state_impl \<Rightarrow> ('s, 'u, 'n) world \<Rightarrow> ('s, 'n) pregel_loop \<Rightarrow> ('s, 'n) pregel_loop" where
  "complete_step S w pl =
     (let pl1 = (if pl_pending pl = []
            then let f = finish_all_channels S pl in
                 if effective_durability f = DurExit then save_exit_checkpoint w f else f
            else pl)
      in pl1\<lparr>pl_step := pl_step pl1 + 1, pl_budget := map_option report_step (pl_budget pl1)\<rparr>)"

definition interrupt_after_check ::
    "('s, 'u) state_impl \<Rightarrow> ('s, 'u, 'n) world \<Rightarrow> ('s, 'n) pregel_loop \<Rightarrow> ('s, 'n) pregel_loop \<times> (juncture_error, unit) result" where
  "interrupt_after_check S w pl = (case rc_interrupt_after (pl_config pl) of
       None \<Rightarrow> (complete_step S w pl, Ok ())
     | Some after \<Rightarrow>
         let versions = version_map (vt_versions (pl_versions pl)) in
         (case should_interrupt (w_hash w) (w_now w) (pl_pending pl) [] (hs_of_list after) versions (pl_interrupt_seen pl) of
            None \<Rightarrow> (complete_step S w pl, Ok ())
          | Some signals \<Rightarrow> stop_with_interrupt S w
              (pl\<lparr>pl_interrupt_seen := versions, pl_pending_interrupts := signals, pl_status := InterruptAfter signals\<rparr>)))"

definition interrupt_phase ::
    "('s, 'u) state_impl \<Rightarrow> ('s, 'u, 'n) world \<Rightarrow> 'u superstep_result \<Rightarrow> ('s, 'n) pregel_loop
       \<Rightarrow> ('s, 'n) pregel_loop \<times> (juncture_error, unit) result" where
  "interrupt_phase S w r pl0 =
     (let signals = pl_interrupt_rx pl0; pl = pl0\<lparr>pl_interrupt_rx := []\<rparr> in
      if signals \<noteq> []
      then stop_with_interrupt S w (pl\<lparr>pl_pending_interrupts := signals, pl_status := InterruptAfter signals\<rparr>)
      else if has_bubble_ups r
      then (case handle_bubble_ups S (sr_bubble_ups r) pl of
          (pl1, True) \<Rightarrow>
            if is_interrupted (pl_status pl1) then stop_with_interrupt S w pl1
            else (finish_all_channels S pl1, Ok ())
        | (pl1, False) \<Rightarrow> interrupt_after_check S w pl1)
      else interrupt_after_check S w pl)"

definition after_tick ::
    "('s, 'u) state_impl \<Rightarrow> ('s, 'u, 'n) world \<Rightarrow> 'u superstep_result \<Rightarrow> ('s, 'n) pregel_loop
       \<Rightarrow> (('s, 'n) pregel_loop \<times> (juncture_error, unit) result) option" where
  "after_tick S w r pl = (case merge_phase S w r pl of
       None \<Rightarrow> None
     | Some (pl1, Inl e) \<Rightarrow> Some (pl1, Err e)
     | Some (pl1, Inr changed) \<Rightarrow>
         (case schedule_phase w r pl1 of
            Inl e \<Rightarrow> Some (pl1, Err e)
          | Inr tasks \<Rightarrow>
              let pl2 = pl1\<lparr>pl_pending := tasks, pl_prev_changed := changed\<rparr> in
              (case save_superstep_checkpoint S w pl2 of
                 (pl3, Inl e) \<Rightarrow> Some (pl3, Err e)
               | (pl3, Inr _) \<Rightarrow> Some (interrupt_phase S w r pl3))))"

section \<open>The driver\<close>

text \<open>
  \<open>while pregel.tick()? { execute_superstep; after_tick }\<close> with \<open>worlds k\<close> the world of the \<open>k\<close>-th
  iteration.  The loop has no bound of its own: \<open>fuel\<close> bounds it here, \<open>None\<close> means out of fuel,
  \<open>Some None\<close> a panic.
\<close>

fun run_loop ::
    "nat \<Rightarrow> ('s, 'u) state_impl \<Rightarrow> (nat \<Rightarrow> ('s, 'u, 'n) world) \<Rightarrow> nat \<Rightarrow> ('s, 'n) pregel_loop
       \<Rightarrow> (('s, 'n) pregel_loop \<times> (juncture_error, unit) result) option option" where
  "run_loop 0 S worlds k pl = None"
| "run_loop (Suc fuel) S worlds k pl = (case tick S (worlds k) pl of
       (pl1, Inl e) \<Rightarrow> Some (Some (pl1, Err e))
     | (pl1, Inr False) \<Rightarrow> Some (Some (pl1, Ok ()))
     | (pl1, Inr True) \<Rightarrow> (case loop_execute_superstep (worlds k) pl1 of
           None \<Rightarrow> Some None
         | Some (pl2, Inl e) \<Rightarrow> Some (Some (pl2, Err e))
         | Some (pl2, Inr r) \<Rightarrow> (case after_tick S (worlds k) r pl2 of
               None \<Rightarrow> Some None
             | Some (pl3, Inl e) \<Rightarrow> Some (Some (pl3, Err e))
             | Some (pl3, Inr _) \<Rightarrow> run_loop fuel S worlds (k + 1) pl3)))"

section \<open>What each phase keeps\<close>

text \<open>The part of the loop that only \<open>complete_step\<close> and the constructor touch.\<close>

definition frame :: "('s, 'n) pregel_loop \<Rightarrow> nat \<times> run_config \<times> bool" where
  "frame pl = (pl_step pl, pl_config pl, pl_cancelled pl)"

named_theorems frame_simps \<open>operations that keep the frame\<close>

lemma frame_finish [simp, frame_simps]: "frame (finish_all_channels S pl) = frame pl"
  by (simp add: frame_def finish_all_channels_def)

lemma frame_delta [simp, frame_simps]: "frame (update_delta_counters S ch pl) = frame pl"
  by (simp add: frame_def update_delta_counters_def)

lemma frame_put [frame_simps]: "frame (fst (put_checkpoint w ck pl)) = frame pl"
  by (auto simp: frame_def put_checkpoint_def split: durability.splits option.splits)

lemma frame_save_interrupt [frame_simps]: "frame (fst (save_interrupt_checkpoint w n pl)) = frame pl"
  by (auto simp: save_interrupt_checkpoint_def frame_put split: option.splits)

lemma frame_save_superstep [frame_simps]: "frame (fst (save_superstep_checkpoint S w pl)) = frame pl"
  by (auto simp: save_superstep_checkpoint_def frame_put split: option.splits)

lemma frame_save_exit [simp, frame_simps]: "frame (save_exit_checkpoint w pl) = frame pl"
  by (auto simp: save_exit_checkpoint_def frame_def Let_def split: option.splits)

lemma frame_stop [frame_simps]: "frame (fst (stop_with_interrupt S w pl)) = frame pl"
  using frame_save_interrupt [of w "interrupt_node_name pl" pl]
  by (auto simp: stop_with_interrupt_def split: prod.splits sum.splits)

lemma frame_merge: "merge_phase S w r pl = Some (pl', x) \<Longrightarrow> frame pl' = frame pl"
  by (auto simp: merge_phase_def Let_def frame_def update_delta_counters_def split: prod.splits sum.splits)

lemma frame_complete: "frame (complete_step S w pl) = (pl_step pl + 1, pl_config pl, pl_cancelled pl)"
proof -
  have "frame (if pl_pending pl = [] then let f = finish_all_channels S pl in
      if effective_durability f = DurExit then save_exit_checkpoint w f else f else pl) = frame pl"
    by (auto simp: Let_def)
  then show ?thesis by (auto simp: complete_step_def frame_def Let_def)
qed

lemma frame_record [simp]: "frame (record_circuit_breaker_results now outs pl) = frame pl"
  by (simp add: frame_def record_circuit_breaker_results_def)

lemma frame_check_breakers: "check_circuit_breakers now pl = (pl', bl) \<Longrightarrow> frame pl' = frame pl"
  by (auto simp: frame_def check_circuit_breakers_def split: if_splits prod.splits)

lemma frame_execute: "loop_execute_superstep w pl = Some (pl', x) \<Longrightarrow> frame pl' = frame pl"
  by (auto simp: loop_execute_superstep_def Let_def frame_def record_circuit_breaker_results_def check_circuit_breakers_def
      split: prod.splits sum.splits option.splits if_splits)

lemma spawned_no_bubbles: "spawned_path env tasks order s wl = (wl', Inr r) \<Longrightarrow> sr_bubble_ups r = []"
  by (auto simp: spawned_path_def split: sum.splits prod.splits)

lemma inline_no_bubbles: "try_execute_single_task_inline env tasks s wl = Some (wl', Inr (Some r)) \<Longrightarrow> sr_bubble_ups r = []"
  by (auto simp: try_execute_single_task_inline_def Let_def split: list.splits if_splits option.splits prod.splits sum.splits)

lemma runner_no_bubbles: "execute_superstep env tasks order s wl = Some (wl', Inr r) \<Longrightarrow> sr_bubble_ups r = []"
  by (auto simp: execute_superstep_def superstep_empty_def dest: inline_no_bubbles spawned_no_bubbles
      split: if_splits option.splits prod.splits sum.splits)

text \<open>What the runner hands to \<open>after_tick\<close>: no bubble-ups, and the world's signals in the receiver.\<close>

lemma execute_result:
  "loop_execute_superstep w pl = Some (pl', Inr r) \<Longrightarrow> sr_bubble_ups r = [] \<and> pl_interrupt_rx pl' = w_signals w"
  by (auto simp: loop_execute_superstep_def Let_def dest: runner_no_bubbles split: prod.splits sum.splits option.splits)

lemma rx_merge: "merge_phase S w r pl = Some (pl', x) \<Longrightarrow> pl_interrupt_rx pl' = pl_interrupt_rx pl"
  by (auto simp: merge_phase_def Let_def update_delta_counters_def split: prod.splits sum.splits)

lemma rx_save: "save_superstep_checkpoint S w pl = (pl', x) \<Longrightarrow> pl_interrupt_rx pl' = pl_interrupt_rx pl"
  by (auto simp: save_superstep_checkpoint_def put_checkpoint_def split: durability.splits option.splits if_splits)

lemma tick_continues: "tick S w pl = (pl', Inr True) \<Longrightarrow> pl' = pl \<and> pl_step pl < rc_recursion_limit (pl_config pl)"
  by (auto simp: tick_def Let_def split: if_splits option.splits)

lemma after_tick_counts:
  assumes "after_tick S w r pl = Some (pl', Inr u)" and "rc_interrupt_after (pl_config pl) = None"
    and "pl_interrupt_rx pl = []" and "sr_bubble_ups r = []"
  shows "frame pl' = (pl_step pl + 1, pl_config pl, pl_cancelled pl)"
proof -
  from assms(1) obtain pl1 ch tasks pl3 where m: "merge_phase S w r pl = Some (pl1, Inr ch)"
    and sv: "save_superstep_checkpoint S w (pl1\<lparr>pl_pending := tasks, pl_prev_changed := ch\<rparr>) = (pl3, Inr ())"
    and ip: "interrupt_phase S w r pl3 = (pl', Inr u)"
    by (auto simp: after_tick_def Let_def split: option.splits prod.splits sum.splits)
  have f3: "frame pl3 = frame pl"
    using frame_merge [OF m] frame_save_superstep [of S w "pl1\<lparr>pl_pending := tasks, pl_prev_changed := ch\<rparr>"] sv
    by (simp add: frame_def)
  have rx: "pl_interrupt_rx pl3 = []" using rx_save [OF sv] rx_merge [OF m] assms(3) by simp
  have "pl' = complete_step S w (pl3\<lparr>pl_interrupt_rx := []\<rparr>)"
    using ip rx assms(2,4) f3 by (simp add: interrupt_phase_def interrupt_after_check_def has_bubble_ups_def frame_def)
  with f3 show ?thesis using frame_complete [of S w "pl3\<lparr>pl_interrupt_rx := []\<rparr>"] by (simp add: frame_def)
qed

section \<open>Well-formed loops\<close>

text \<open>
  The state is well-formed, the version tracker keeps its bound, and every node's seen versions
  have one entry per tracked field, so that no index of the merge phase is out of range.
\<close>

definition loop_inv :: "('s \<Rightarrow> bool) \<Rightarrow> ('s, 'n) pregel_loop \<Rightarrow> bool" where
  "loop_inv wfs pl \<longleftrightarrow> wfs (pl_state pl) \<and> tracker_inv (pl_versions pl) \<and>
     (\<forall>n v. im_get (pl_seen pl) n = Some v \<longrightarrow> length v = length (vt_versions (pl_versions pl)))"

lemma bump_all_length [simp]: "length (vt_versions (bump_all ch t)) = length (vt_versions t)"
  by (simp add: bump_all_def)

lemma bump_all_inv: "tracker_inv t \<Longrightarrow> tracker_inv (bump_all ch t)"
  by (simp add: bump_all_def fold_bump_inv)

lemma apply_updates_wf:
  assumes "state_base S wfs wfu"
  shows "wfs s \<Longrightarrow> \<forall>out \<in> set outs. \<forall>u. cmd_update (out_command out) = Some u \<longrightarrow> wfu u \<Longrightarrow>
     wfs (fst (apply_updates S outs (s, fc)))"
proof (induction outs arbitrary: s fc)
  case (Cons out outs)
  show ?case
  proof (cases "cmd_update (out_command out)")
    case (Some u)
    show ?thesis
    proof (cases "st_try_apply S s u")
      case (Inr p)
      obtain s1 c where p: "p = (s1, c)" by fastforce
      have "wfs s1" using state_base.apply_wf [OF assms Cons.prems(1), of u s1 c] Cons.prems(2) Some Inr p by simp
      with Cons Some Inr p show ?thesis by simp
    qed (use Some Cons.prems in simp)
  qed (use Cons in simp)
qed simp

lemma apply_writes_wf:
  assumes "state_base S wfs wfu" "wfs s" "tracker_inv v"
    and "\<forall>out \<in> set outs. \<forall>u. cmd_update (out_command out) = Some u \<longrightarrow> wfu u"
    and "apply_writes S reg outs s v = (s', v', x)"
  shows "wfs s' \<and> tracker_inv v' \<and> length (vt_versions v') = length (vt_versions v)"
proof -
  have "\<forall>out \<in> set (sort_by (write_cmp reg) outs). \<forall>u. cmd_update (out_command out) = Some u \<longrightarrow> wfu u"
    using assms(4) by (simp add: sort_by_write_cmp)
  from apply_updates_wf [OF assms(1,2) this, of 0] assms(2,3,5) show ?thesis
    by (auto simp: apply_writes_def bump_all_inv split: sum.splits prod.splits)
qed

lemma mark_all_total:
  "\<forall>n v. im_get vs n = Some v \<longrightarrow> length v = length current \<Longrightarrow>
     \<exists>vs'. mark_all_consumed ns current vs = Some vs' \<and> (\<forall>n v. im_get vs' n = Some v \<longrightarrow> length v = length current)"
proof (induction ns arbitrary: vs)
  case (Cons n ns)
  show ?case
  proof (cases "im_get vs n")
    case None
    with Cons show ?thesis by (simp add: mark_consumed_def)
  next
    case (Some v)
    with Cons.prems have "mark_consumed n current vs = Some (im_insert n current vs)" by (simp add: mark_consumed_def)
    moreover have "\<forall>k v. im_get (im_insert n current vs) k = Some v \<longrightarrow> length v = length current"
      using Cons.prems by simp
    ultimately show ?thesis using Cons.IH by simp
  qed
qed simp

lemma consume_changed_wf:
  assumes "state_base S wfs wfu" "wfs s"
  shows "wfs (consume_changed S ch s)"
proof -
  have "wfs s \<Longrightarrow> wfs (fold (\<lambda>i s. if has_field ch i then st_consume_field S i s else s) is s)" for "is" s
    by (induction "is" arbitrary: s) (auto intro: state_base.consume_wf [OF assms(1)])
  with assms(2) show ?thesis by (simp add: consume_changed_def)
qed

lemma executed_updates:
  "out \<in> set (executed_outputs w r) \<Longrightarrow> cmd_update (out_command out) = Some u \<Longrightarrow>
     \<exists>o' \<in> set (sr_task_outputs r). cmd_update (out_command o') = Some u"
  by (auto simp: executed_outputs_def clone_output_def)

lemma merge_phase_safe:
  assumes S: "state_base S wfs wfu" and inv: "loop_inv wfs pl"
    and upd: "\<forall>out \<in> set (sr_task_outputs r). \<forall>u. cmd_update (out_command out) = Some u \<longrightarrow> wfu u"
  shows "\<exists>pl' x. merge_phase S w r pl = Some (pl', x) \<and> loop_inv wfs pl'"
proof -
  obtain s' v' x where aw: "apply_writes S (pl_registration pl) (executed_outputs w r) (pl_state pl) (pl_versions pl) = (s', v', x)"
    by (metis prod_cases3)
  have "\<forall>out \<in> set (executed_outputs w r). \<forall>u. cmd_update (out_command out) = Some u \<longrightarrow> wfu u"
  proof (intro ballI allI impI)
    fix out u assume "out \<in> set (executed_outputs w r)" "cmd_update (out_command out) = Some u"
    from executed_updates [OF this] upd show "wfu u" by auto
  qed
  with apply_writes_wf [OF S _ _ this aw] inv have wf: "wfs s'" "tracker_inv v'" "length (vt_versions v') = length (vt_versions (pl_versions pl))"
    by (auto simp: loop_inv_def)
  from inv mark_all_total [of "pl_seen pl" "vt_versions (pl_versions pl)" "map out_node (executed_outputs w r)"]
  obtain seen where seen: "mark_all_consumed (map out_node (executed_outputs w r)) (vt_versions (pl_versions pl)) (pl_seen pl) = Some seen"
    "\<forall>n v. im_get seen n = Some v \<longrightarrow> length v = length (vt_versions (pl_versions pl))" by (auto simp: loop_inv_def)
  have "wfs (st_reset_ephemeral S (consume_changed S ch s'))" for ch
    using state_base.reset_wf [OF S] consume_changed_wf [OF S] wf(1) by blast
  then have fin: "loop_inv wfs ((update_delta_counters S ch (pl\<lparr>pl_state := s', pl_versions := v'\<rparr>))
      \<lparr>pl_state := st_reset_ephemeral S (consume_changed S pc s'), pl_seen := seen\<rparr>)" for ch pc
    using wf seen(2) by (simp add: loop_inv_def update_delta_counters_def)
  have part: "loop_inv wfs (pl\<lparr>pl_state := s', pl_versions := v'\<rparr>)" using inv wf by (simp add: loop_inv_def)
  show ?thesis
  proof (cases x)
    case (Inl e)
    with part show ?thesis by (simp add: merge_phase_def aw Let_def)
  next
    case (Inr ch)
    have upd: "pl_seen (update_delta_counters S ch (pl\<lparr>pl_state := s', pl_versions := v'\<rparr>)) = pl_seen pl"
      "pl_state (update_delta_counters S ch (pl\<lparr>pl_state := s', pl_versions := v'\<rparr>)) = s'"
      by (simp_all add: update_delta_counters_def)
    show ?thesis
    proof (cases "check_state_size_limit w ch (pl_config pl) s'")
      case (Inl e)
      with Inr inv show ?thesis by (simp add: merge_phase_def aw Let_def)
    next
      case _: (Inr u)
      with Inr fin show ?thesis by (simp add: merge_phase_def aw Let_def upd seen(1))
    qed
  qed
qed

lemma finish_inv:
  assumes "state_base S wfs wfu" "loop_inv wfs pl"
  shows "loop_inv wfs (finish_all_channels S pl)"
  using assms state_base.finish_fields_wf [OF assms(1)] by (auto simp: loop_inv_def finish_all_channels_def)

lemma put_inv: "loop_inv wfs pl \<Longrightarrow> loop_inv wfs (fst (put_checkpoint w ck pl))"
  by (auto simp: loop_inv_def put_checkpoint_def split: durability.splits option.splits)

lemma save_inv:
  assumes "loop_inv wfs pl"
  shows "loop_inv wfs (fst (save_interrupt_checkpoint w n pl))" "loop_inv wfs (fst (save_superstep_checkpoint S w pl))"
    "loop_inv wfs (save_exit_checkpoint w pl)"
  using assms put_inv [OF assms]
  by (auto simp: save_interrupt_checkpoint_def save_superstep_checkpoint_def save_exit_checkpoint_def Let_def loop_inv_def split: option.splits)

lemma stop_inv:
  assumes "state_base S wfs wfu" "loop_inv wfs pl"
  shows "loop_inv wfs (fst (stop_with_interrupt S w pl))"
  using save_inv(1) [OF assms(2), of w "interrupt_node_name pl"] finish_inv [OF assms(1)]
  by (auto simp: stop_with_interrupt_def split: prod.splits sum.splits)

lemma complete_inv:
  assumes "state_base S wfs wfu" "loop_inv wfs pl"
  shows "loop_inv wfs (complete_step S w pl)"
  using assms(2) finish_inv [OF assms] save_inv(3) [OF finish_inv [OF assms]]
  by (auto simp: complete_step_def Let_def loop_inv_def)

lemma interrupt_check_inv:
  assumes "state_base S wfs wfu" "loop_inv wfs pl"
  shows "loop_inv wfs (fst (interrupt_after_check S w pl))"
proof -
  have "loop_inv wfs (pl\<lparr>pl_interrupt_seen := a, pl_pending_interrupts := b, pl_status := c\<rparr>)" for a b c
    using assms(2) by (simp add: loop_inv_def)
  from stop_inv [OF assms(1) this] complete_inv [OF assms] show ?thesis
    by (auto simp: interrupt_after_check_def Let_def split: option.splits)
qed

lemma bubble_inv:
  assumes S: "state_base S wfs wfu"
    and "\<forall>b \<in> set bs. \<forall>pc u. b = BubbleParentCommand pc \<longrightarrow> cmd_update (pc_command pc) = Some u \<longrightarrow> wfu u"
    and "loop_inv wfs (fst acc)"
  shows "loop_inv wfs (fst (fold (handle_bubble_up S) bs acc))"
  using assms(2,3)
proof (induction bs arbitrary: acc)
  case (Cons b bs)
  obtain pl stop where acc: "acc = (pl, stop)" by fastforce
  have "loop_inv wfs (fst (handle_bubble_up S b acc))"
  proof (cases b)
    case (BubbleParentCommand pc)
    show ?thesis
    proof (cases "cmd_update (pc_command pc)")
      case None
      with BubbleParentCommand Cons.prems(2) show ?thesis by (simp add: acc handle_bubble_up_def)
    next
      case (Some u)
      with BubbleParentCommand Cons.prems(1) have u: "wfu u" by simp
      show ?thesis
      proof (cases "st_try_apply S (pl_state pl) u")
        case (Inr p)
        obtain s' ch where p: "p = (s', ch)" by fastforce
        have "wfs s'" using state_base.apply_wf [OF S _ u, of "pl_state pl" s' ch] Inr p Cons.prems(2)
          by (simp add: acc loop_inv_def)
        with BubbleParentCommand Some Inr p Cons.prems(2) show ?thesis
          by (simp add: acc handle_bubble_up_def loop_inv_def bump_all_inv)
      qed (use BubbleParentCommand Some Cons.prems(2) in \<open>simp add: acc handle_bubble_up_def\<close>)
    qed
  qed (use Cons.prems(2) in \<open>simp_all add: acc handle_bubble_up_def loop_inv_def\<close>)
  with Cons show ?case by simp
qed simp

section \<open>Properties\<close>


text \<open>
  Executing a superstep, whether it succeeds or fails, leaves the merged state, the field versions and
  what the nodes have seen untouched, and does not count a step.
\<close>

theorem execute_keeps_state:
  assumes "loop_execute_superstep w pl = Some (pl', res)"
  shows "pl_state pl' = pl_state pl \<and> pl_versions pl' = pl_versions pl \<and> pl_seen pl' = pl_seen pl \<and> pl_step pl' = pl_step pl"
  using assms
  by (auto simp: loop_execute_superstep_def Let_def record_circuit_breaker_results_def check_circuit_breakers_def
      split: prod.splits sum.splits option.splits if_splits)

text \<open>
  A merge that would exceed the configured state size is undone completely: the loop after the error is
  the loop before the merge.
\<close>

theorem size_limit_rolls_back:
  assumes "apply_writes S (pl_registration pl) (executed_outputs w r) (pl_state pl) (pl_versions pl) = (s', v', Ok changed)"
    and "rc_max_state_size (pl_config pl) = Some limit" and "\<not> fc_is_empty changed"
    and "w_size w s' = Some n" and "limit < n"
  shows "\<exists>e. after_tick S w r pl = Some (pl, Err (ExecutionError e))"
  using assms by (simp add: after_tick_def merge_phase_def Let_def check_state_size_limit_def)

text \<open>
  Tasks stopped by an open circuit breaker are inert: the step's outcome is the same as if they had
  not been in the result.
\<close>

theorem blocked_tasks_inert:
  "after_tick S w r pl = after_tick S w (r\<lparr>sr_task_outputs := filter (\<lambda>o'. \<not> out_circuit_blocked o') (sr_task_outputs r)\<rparr>) pl"
proof -
  let ?r = "r\<lparr>sr_task_outputs := filter (\<lambda>o'. \<not> out_circuit_blocked o') (sr_task_outputs r)\<rparr>"
  have e: "executed_outputs w ?r = executed_outputs w r" by (simp add: executed_outputs_def)
  have phases: "merge_phase S w ?r p = merge_phase S w r p" "schedule_phase w ?r p = schedule_phase w r p"
    "interrupt_phase S w ?r p = interrupt_phase S w r p" for p
    by (simp_all add: merge_phase_def schedule_phase_def interrupt_phase_def Let_def e has_bubble_ups_def)
  show ?thesis unfolding after_tick_def phases ..
qed

text \<open>
  C1: A run without configured after-interrupts, in which no node sends a signal, ends within the
  recursion limit: one more iteration than the remaining steps is always enough.
\<close>

theorem run_terminates:
  assumes "rc_interrupt_after (pl_config pl) = None" and "\<forall>i. w_signals (worlds i) = []"
    and "rc_recursion_limit (pl_config pl) - pl_step pl < fuel"
  shows "run_loop fuel S worlds k pl \<noteq> None"
  using assms(1,3)
proof (induction fuel arbitrary: k pl)
  case (Suc fuel)
  show ?case
  proof (cases "\<exists>pl2 r pl3. tick S (worlds k) pl = (pl, Inr True) \<and> loop_execute_superstep (worlds k) pl = Some (pl2, Inr r) \<and>
      after_tick S (worlds k) r pl2 = Some (pl3, Inr ())")
    case True
    then obtain pl2 r pl3 where t: "tick S (worlds k) pl = (pl, Inr True)"
      and e: "loop_execute_superstep (worlds k) pl = Some (pl2, Inr r)"
      and a: "after_tick S (worlds k) r pl2 = Some (pl3, Inr ())" by blast
    from execute_result [OF e] assms(2) have "sr_bubble_ups r = []" "pl_interrupt_rx pl2 = []" by simp_all
    with after_tick_counts [OF a] frame_execute [OF e] Suc.prems(1)
    have f: "pl_step pl3 = pl_step pl + 1" "pl_config pl3 = pl_config pl" by (simp_all add: frame_def)
    have "run_loop fuel S worlds (k + 1) pl3 \<noteq> None"
      using Suc.IH [of pl3 "k + 1"] Suc.prems tick_continues [OF t] f by simp
    with t e a show ?thesis by simp
  next
    case False
    then show ?thesis
      using tick_continues [of S "worlds k" pl]
      by (fastforce split: prod.splits sum.splits bool.splits option.splits)
  qed
qed simp

text \<open>
  A superstep that stops with a fresh after-interrupt is not counted: the step number stays, and as the
  next \<open>tick\<close> looks only at limits, budget and pending tasks, the driver's loop goes on with the
  interrupted run instead of leaving it.
\<close>

theorem interrupt_not_counted_and_not_stopping:
  assumes "after_tick S w r pl = Some (pl', Ok ())" and "pl_interrupt_rx pl \<noteq> []"
    and "pl_step pl < rc_recursion_limit (pl_config pl)" and "\<not> pl_cancelled pl"
    and "rc_interrupt_before (pl_config pl) = None"
    and "Option.bind (pl_budget pl') (budget_check (w_now w')) = None" and "pl_pending pl' \<noteq> []"
  shows "is_interrupted (pl_status pl') \<and> pl_step pl' = pl_step pl \<and> tick S w' pl' = (pl', Ok True)"
proof -
  from assms(1) obtain pl1 ch tasks pl3 where m: "merge_phase S w r pl = Some (pl1, Inr ch)"
    and sv: "save_superstep_checkpoint S w (pl1\<lparr>pl_pending := tasks, pl_prev_changed := ch\<rparr>) = (pl3, Inr ())"
    and ip: "interrupt_phase S w r pl3 = (pl', Inr ())"
    by (auto simp: after_tick_def Let_def split: option.splits prod.splits sum.splits)
  have f3: "frame pl3 = frame pl"
    using frame_merge [OF m] frame_save_superstep [of S w "pl1\<lparr>pl_pending := tasks, pl_prev_changed := ch\<rparr>"] sv
    by (simp add: frame_def)
  have rx: "pl_interrupt_rx pl3 \<noteq> []" using rx_save [OF sv] rx_merge [OF m] assms(2) by simp
  let ?q = "pl3\<lparr>pl_interrupt_rx := [], pl_pending_interrupts := pl_interrupt_rx pl3, pl_status := InterruptAfter (pl_interrupt_rx pl3)\<rparr>"
  from ip rx have stop: "stop_with_interrupt S w ?q = (pl', Inr ())" by (simp add: interrupt_phase_def Let_def)
  have fr: "frame pl' = frame pl" using frame_stop [of S w ?q] stop f3 by (simp add: frame_def)
  have st: "pl_status (fst (stop_with_interrupt S w p)) = pl_status p" for p
    by (auto simp: stop_with_interrupt_def save_interrupt_checkpoint_def put_checkpoint_def finish_all_channels_def
        split: prod.splits sum.splits durability.splits option.splits if_splits)
  have "pl_status pl' = InterruptAfter (pl_interrupt_rx pl3)" using st [of ?q] stop by simp
  with fr assms(3-7) show ?thesis by (auto simp: frame_def tick_def is_interrupted_def)
qed


section \<open>A concrete run\<close>

text \<open>One node with an edge to itself; its task completes without an update.\<close>

type_synonym example_node = "(juncture_error, nat list option list command) result"

definition example_table :: "nat list list trigger_table" where
  "example_table = \<lparr>tt_outgoing = [(''a'', [CFixed ''a''])], tt_incoming = [(''a'', [TrigEdge START, TrigEdge ''a''])]\<rparr>"

definition example_config :: run_config where
  "example_config = \<lparr>rc_recursion_limit = 2, rc_interrupt_before = None, rc_interrupt_after = None,
     rc_max_state_size = Some 5, rc_durability = None\<rparr>"

definition example_loop :: "bool \<Rightarrow> interrupt_signal list \<Rightarrow> (nat list list, example_node) pregel_loop" where
  "example_loop ck sigs =
     (the (pregel_new (\<lambda>_. ''id'') [[], [], []] [(''a'', Ok command_default)] example_table example_config 3))
       \<lparr>pl_checkpointer := ck, pl_interrupt_rx := sigs\<rparr>"

definition example_world :: "(nat list list, nat list option list, example_node) world" where
  "example_world = \<lparr>w_now = 0, w_fresh = (\<lambda>_ _. ''id''), w_hash = (\<lambda>n _. n),
     w_exec = (\<lambda>ctx node s tid. Some \<lparr>ne_call = (\<lambda>_. (0, node)), ne_jitter = (\<lambda>_. 1), ne_idle_at = None\<rparr>),
     w_order = (\<lambda>ts. ts), w_cancelled = (\<lambda>_. False), w_signals = [], w_put_writes = (\<lambda>_ _. None), w_put = (\<lambda>_. None),
     w_update_value = (\<lambda>_. None), w_to_value = (\<lambda>_. Some JNull), w_from_value = (\<lambda>_. None), w_size = (\<lambda>s. Some 10),
     w_display = (\<lambda>_. []), w_reason = (\<lambda>_. []), w_stored_writes = None\<rparr>"

definition example_result :: "nat list option list command \<Rightarrow> nat list option list superstep_result" where
  "example_result c = \<lparr>sr_task_outputs = [example_output ''a'' Pull c], sr_bubble_ups = []\<rparr>"

lemma example_loop_fields [simp]:
  "pl_state (example_loop ck sigs) = [[], [], []]"
  "pl_nodes (example_loop ck sigs) = [(''a'', Ok command_default)]"
  "pl_versions (example_loop ck sigs) = example_versions"
  "pl_seen (example_loop ck sigs) = [(''a'', [0, 0, 0])]"
  "pl_config (example_loop ck sigs) = example_config"
  "pl_pending (example_loop ck sigs) = [task_pull ''id'' ''a'']"
  "pl_trigger_table (example_loop ck sigs) = example_table"
  "pl_t2n (example_loop ck sigs) = [(START, [''a'']), (''a'', [''a''])]"
  "pl_registration (example_loop ck sigs) = [(''a'', 0)]"
  "pl_checkpointer (example_loop ck sigs) = ck" "pl_interrupt_rx (example_loop ck sigs) = sigs"
  "pl_error_handlers (example_loop ck sigs) = []" "pl_fallbacks (example_loop ck sigs) = []"
  "pl_retries (example_loop ck sigs) = []" "pl_timeouts (example_loop ck sigs) = []"
  "pl_cb_configs (example_loop ck sigs) = []" "pl_cancelled (example_loop ck sigs) = False"
  "pl_step (example_loop ck sigs) = 0" "pl_budget (example_loop ck sigs) = None"
  "pl_prev_changed (example_loop ck sigs) = 0" "pl_saved (example_loop ck sigs) = []"
  by (simp_all add: example_loop_def pregel_new_def with_error_handlers_def tracker_new_def example_versions_def
      versions_seen_new_def compute_initial_tasks_def starts_from_START_def example_table_def from_trigger_table_def
      im_modify_def im_get_def hs_insert_def START_def numeral_3_eq_3)

lemma example_writes_none:
  "apply_writes (derived_impl example_specs) reg (executed_outputs example_world (example_result command_default)) s v = (s, bump_all 0 v, Ok 0)"
  by (simp add: apply_writes_def executed_outputs_def example_result_def example_output_def clone_output_def command_default_def
      check_replace_conflicts_from_state_def example_replace_fields field_writers_def writes_field_def sort_by_def)

lemma example_merge:
  "\<exists>pl1. merge_phase (derived_impl example_specs) example_world (example_result command_default) (example_loop ck sigs) = Some (pl1, Ok 0) \<and>
     pl_state pl1 = [[], [], []] \<and> pl_nodes pl1 = [(''a'', Ok command_default)] \<and> pl_trigger_table pl1 = example_table \<and>
     pl_t2n pl1 = [(START, [''a'']), (''a'', [''a''])] \<and> pl_error_handlers pl1 = [] \<and> pl_fallbacks pl1 = [] \<and>
     pl_config pl1 = example_config \<and> pl_checkpointer pl1 = ck \<and> pl_interrupt_rx pl1 = sigs \<and> pl_budget pl1 = None"
proof -
  have s: "st_reset_ephemeral (derived_impl example_specs) (consume_changed (derived_impl example_specs) 0 [[], [], []]) = [[], [], []]"
    by (simp add: derived_impl_def consume_changed_def derived_reset_ephemeral_def example_specs_def is_ephemeral_def)
  have m: "mark_all_consumed (map out_node (executed_outputs example_world (example_result command_default)))
      (vt_versions example_versions) [(''a'', [0, 0, 0])] = Some [(''a'', [0, 0, 0])]"
    by (simp add: executed_outputs_def example_result_def example_output_def clone_output_def mark_consumed_def im_get_def example_versions_def)
  show ?thesis
    by (simp add: merge_phase_def example_writes_none Let_def check_state_size_limit_def fc_is_empty_def example_config_def
        update_delta_counters_def s m)
qed

lemma example_schedule:
  assumes "pl_state pl1 = [[], [], []]" "pl_nodes pl1 = [(''a'', Ok command_default)]" "pl_trigger_table pl1 = example_table"
    "pl_t2n pl1 = [(START, [''a'']), (''a'', [''a''])]" "pl_error_handlers pl1 = []" "pl_fallbacks pl1 = []"
  shows "schedule_phase example_world (example_result command_default) pl1 = Ok [task_pull ''id'' ''a'']"
  using assms
  by (simp add: schedule_phase_def executed_outputs_def example_result_def example_output_def clone_output_def Let_def
      compute_next_tasks_def route_output_def command_default_def example_table_def im_get_def triggered_nodes_def
      process_edge_def hs_of_list_def hs_insert_def END_def START_def schedule_pull_def schedule_fallback_tasks_def
      schedule_error_handlers_filtered_def dedup_fallbacks_def example_world_def)

text \<open>The step after the example's superstep, up to its last phase.\<close>

lemma example_after_tick:
  "\<exists>pl3. after_tick (derived_impl example_specs) example_world (example_result command_default) (example_loop ck sigs) =
       Some (interrupt_phase (derived_impl example_specs) example_world (example_result command_default) pl3) \<and>
     pl_pending pl3 = [task_pull ''id'' ''a''] \<and> pl_config pl3 = example_config \<and> pl_interrupt_rx pl3 = sigs \<and> pl_budget pl3 = None"
proof -
  let ?S = "derived_impl example_specs"
  obtain pl1 where m: "merge_phase ?S example_world (example_result command_default) (example_loop ck sigs) = Some (pl1, Ok 0)"
    and f: "pl_state pl1 = [[], [], []]" "pl_nodes pl1 = [(''a'', Ok command_default)]" "pl_trigger_table pl1 = example_table"
      "pl_t2n pl1 = [(START, [''a'']), (''a'', [''a''])]" "pl_error_handlers pl1 = []" "pl_fallbacks pl1 = []"
    and g: "pl_config pl1 = example_config" "pl_interrupt_rx pl1 = sigs" "pl_budget pl1 = None"
    using example_merge [of ck sigs] by blast
  let ?p = "pl1\<lparr>pl_pending := [task_pull ''id'' ''a''], pl_prev_changed := 0\<rparr>"
  have "\<exists>pl3. save_superstep_checkpoint ?S example_world ?p = (pl3, Ok ()) \<and> pl_pending pl3 = [task_pull ''id'' ''a''] \<and>
      pl_config pl3 = example_config \<and> pl_interrupt_rx pl3 = sigs \<and> pl_budget pl3 = None"
    using g by (auto simp: save_superstep_checkpoint_def put_checkpoint_def example_world_def split: durability.splits)
  with m example_schedule [OF f] show ?thesis by (auto simp: after_tick_def Let_def)
qed

lemma example_inv: "loop_inv (\<lambda>s. length s = length example_specs) (example_loop ck sigs)"
  by (simp add: loop_inv_def example_specs_def tracker_inv_def example_versions_def u64_max_def im_get_def)

section \<open>Witnesses\<close>


theorem execute_keeps_state_witness:
  "\<exists>pl' res. loop_execute_superstep example_world (example_loop False []) = Some (pl', res) \<and> pl_state pl' = [[], [], []]"
proof -
  have "\<exists>pl' res. loop_execute_superstep example_world (example_loop False []) = Some (pl', res)"
    by (simp add: loop_execute_superstep_def task_pull_def check_circuit_breakers_def runner_env_def execute_superstep_def
        try_execute_single_task_inline_def im_contains_def im_get_def example_world_def command_default_def
        persist_writes_def Let_def)
  then obtain pl' res where "loop_execute_superstep example_world (example_loop False []) = Some (pl', res)" by blast
  with execute_keeps_state [OF this] show ?thesis by simp
qed

theorem size_limit_rolls_back_witness:
  "\<exists>e. after_tick (derived_impl example_specs) example_world (example_result (command_update [Some [1], None, None])) (example_loop False []) =
     Some (example_loop False [], Err (ExecutionError e))"
proof -
  let ?S = "derived_impl example_specs"
  let ?r = "example_result (command_update [Some [1], None, None])"
  have ex: "executed_outputs example_world ?r = [example_output ''a'' Pull (command_update [Some [1], None, None])]"
    by (simp add: executed_outputs_def example_result_def example_output_def clone_output_def)
  have no: "check_replace_conflicts_from_state ?S [example_output ''a'' Pull (command_update [Some [1], None, None])] = Ok ()"
    by (simp add: check_replace_conflicts_from_state_def example_replace_fields field_writers_def)
  have "\<exists>s' v' ch. apply_writes ?S [(''a'', 0)] (executed_outputs example_world ?r) [[], [], []] example_versions = (s', v', Ok ch) \<and>
      \<not> fc_is_empty ch"
    unfolding ex apply_writes_def no
    by (simp add: sort_by_def example_output_def command_update_def derived_impl_def derived_try_apply_def example_specs_def
        fc_is_empty_def set_field_def fc_bit_def)
  then obtain s' v' ch where aw: "apply_writes ?S [(''a'', 0)] (executed_outputs example_world ?r) [[], [], []] example_versions = (s', v', Ok ch)"
    and ne: "\<not> fc_is_empty ch" by blast
  let ?pl = "example_loop False []"
  have h: "apply_writes ?S (pl_registration ?pl) (executed_outputs example_world ?r) (pl_state ?pl) (pl_versions ?pl) = (s', v', Ok ch)"
    using aw by (simp only: example_loop_fields)
  have size: "w_size example_world s' = Some 10" "rc_max_state_size (pl_config ?pl) = Some 5" "(5::nat) < 10"
    by (simp_all add: example_world_def example_config_def)
  show ?thesis by (rule size_limit_rolls_back [OF h size(2) ne size(1,3)])
qed

theorem run_terminates_witness:
  "run_loop 3 (derived_impl example_specs) (\<lambda>_. example_world) 0 (example_loop False []) \<noteq> None"
  by (rule run_terminates) (simp_all add: example_config_def example_world_def)

theorem interrupt_not_counted_and_not_stopping_witness:
  "\<exists>pl'. after_tick (derived_impl example_specs) example_world (example_result command_default) (example_loop False
       [\<lparr>sig_index = 0, sig_id = None, sig_payload = JNull, sig_timestamp = 0\<rparr>]) = Some (pl', Ok ()) \<and>
     is_interrupted (pl_status pl') \<and> tick (derived_impl example_specs) example_world pl' = (pl', Ok True)"
proof -
  let ?S = "derived_impl example_specs"
  let ?sig = "\<lparr>sig_index = 0, sig_id = None, sig_payload = JNull, sig_timestamp = 0\<rparr>"
  obtain pl3 where a: "after_tick ?S example_world (example_result command_default) (example_loop False [?sig]) =
      Some (interrupt_phase ?S example_world (example_result command_default) pl3)"
    and f: "pl_pending pl3 = [task_pull ''id'' ''a'']" "pl_interrupt_rx pl3 = [?sig]" "pl_budget pl3 = None"
    using example_after_tick [of False "[?sig]"] by blast
  have "\<exists>pl'. interrupt_phase ?S example_world (example_result command_default) pl3 = (pl', Ok ()) \<and> pl_pending pl' \<noteq> [] \<and> pl_budget pl' = None"
    using f by (auto simp: interrupt_phase_def Let_def stop_with_interrupt_def save_interrupt_checkpoint_def put_checkpoint_def
        finish_all_channels_def example_world_def split: durability.splits)
  then obtain pl' where p: "interrupt_phase ?S example_world (example_result command_default) pl3 = (pl', Ok ())" "pl_pending pl' \<noteq> []" "pl_budget pl' = None"
    by blast
  with a have at: "after_tick ?S example_world (example_result command_default) (example_loop False [?sig]) = Some (pl', Ok ())" by simp
  have "is_interrupted (pl_status pl') \<and> pl_step pl' = pl_step (example_loop False [?sig]) \<and> tick ?S example_world pl' = (pl', Ok True)"
    by (rule interrupt_not_counted_and_not_stopping [OF at]) (use p in \<open>simp_all add: example_config_def\<close>)
  with at show ?thesis by blast
qed


end
