(* ===== verification/Checkpoints.thy ===== *)
theory Checkpoints
  imports Pregel "HOL-Library.Char_ord" "HOL-Library.List_Lexorder"
begin

text \<open>
  \<open>juncture-core/src/checkpoint.rs\<close>: checkpoint namespaces with their wire format and the records a
  checkpointer stores; \<open>juncture-checkpoint/src/types.rs\<close>: recovery of a full checkpoint from deltas.
  Strings compare lexicographically by character.
\<close>

section \<open>Namespaces\<close>

record namespace_segment =
  seg_node_name :: string
  seg_invocation_id :: string

definition segment_as_str :: "namespace_segment \<Rightarrow> string" where
  "segment_as_str s = seg_node_name s @ '':'' @ seg_invocation_id s"

type_synonym checkpoint_namespace = "namespace_segment list"

definition ns_root :: checkpoint_namespace where
  "ns_root = []"

definition ns_child :: "checkpoint_namespace \<Rightarrow> string \<Rightarrow> string \<Rightarrow> checkpoint_namespace" where
  "ns_child ns node_name invocation_id = ns @ [\<lparr>seg_node_name = node_name, seg_invocation_id = invocation_id\<rparr>]"

definition ns_parent :: "checkpoint_namespace \<Rightarrow> checkpoint_namespace option" where
  "ns_parent ns = (if ns = [] then None else Some (butlast ns))"

definition ns_is_root :: "checkpoint_namespace \<Rightarrow> bool" where
  "ns_is_root ns \<longleftrightarrow> ns = []"

definition ns_as_str :: "checkpoint_namespace \<Rightarrow> string" where
  "ns_as_str ns = foldl (\<lambda>acc s. acc @ ''|'' @ seg_node_name s @ '':'' @ seg_invocation_id s) [] ns"

text \<open>\<open>split_once\<close> at a character.\<close>

definition split_once :: "char \<Rightarrow> string \<Rightarrow> (string \<times> string) option" where
  "split_once c s = (if c \<in> set s then Some (takeWhile (\<lambda>x. x \<noteq> c) s, tl (dropWhile (\<lambda>x. x \<noteq> c) s)) else None)"

definition parse_segment :: "string \<Rightarrow> namespace_segment option" where
  "parse_segment seg = map_option (\<lambda>(n, i). \<lparr>seg_node_name = n, seg_invocation_id = i\<rparr>) (split_once CHR '':'' seg)"

definition ns_parse :: "string \<Rightarrow> checkpoint_namespace" where
  "ns_parse s = (if s = [] then ns_root
     else List.map_filter parse_segment (split_on CHR ''|'' (dropWhile (\<lambda>c. c = CHR ''|'') s)))"

section \<open>Stored checkpoints\<close>

record checkpoint_pending_task =
  cpt_id :: string
  cpt_node :: string
  cpt_triggers :: "string list"
  cpt_state_override :: "json option"

record serialized_send =
  ss_node :: string
  ss_state :: json

record stored_checkpoint =
  sck_id :: string
  sck_channel_values :: json
  sck_channel_versions :: "(string, nat) imap"
  sck_versions_seen :: "(string, (string, nat) imap) imap"
  sck_pending_tasks :: "checkpoint_pending_task list"
  sck_pending_sends :: "serialized_send list"
  sck_pending_interrupts :: "interrupt_signal list"
  sck_schema_version :: nat
  sck_created_at :: string
  sck_v :: nat
  sck_new_versions :: "(string, nat) imap"
  sck_counters :: "(string, delta_counters) imap"

record checkpoint_metadata =
  md_source :: checkpoint_source
  md_step :: int
  md_writes :: "(string, json) imap"
  md_parents :: "(string, string) imap"
  md_run_id :: string
  md_return_value :: "json option"

text \<open>The fields of a run configuration a checkpointer reads.\<close>

record saver_config =
  sc_thread_id :: "string option"
  sc_checkpoint_id :: "string option"
  sc_checkpoint_ns :: "checkpoint_namespace option"

record checkpoint_tuple =
  tp_config :: saver_config
  tp_checkpoint :: stored_checkpoint
  tp_metadata :: checkpoint_metadata
  tp_pending_writes :: "pending_write list"
  tp_parent_config :: "saver_config option"

record checkpoint_filter =
  cf_source :: "checkpoint_source option"
  cf_step_gte :: "int option"
  cf_step_lte :: "int option"
  cf_before :: "string option"
  cf_after :: "string option"
  cf_limit :: "nat option"

section \<open>Errors\<close>

datatype core_checkpoint_error =
    CkSerialize string
  | CkDeserialize string
  | CkNotFound string string
  | CkStorage string
  | CkOther string

datatype saver_error =
    SvSerialize string
  | SvSerialization string
  | SvDeserialize string
  | SvNotFound string string
  | SvStorage string
  | SvDatabase string
  | SvSchemaMigration nat nat string
  | SvPoolExhausted

fun map_checkpoint_error :: "saver_error \<Rightarrow> core_checkpoint_error" where
  "map_checkpoint_error (SvSerialize m) = CkSerialize m"
| "map_checkpoint_error (SvSerialization m) = CkSerialize m"
| "map_checkpoint_error (SvDeserialize m) = CkDeserialize m"
| "map_checkpoint_error (SvNotFound t i) = CkNotFound t i"
| "map_checkpoint_error (SvStorage m) = CkStorage m"
| "map_checkpoint_error (SvDatabase m) = CkStorage m"
| "map_checkpoint_error (SvSchemaMigration from to reason) =
     CkOther (''Schema migration: '' @ nat_to_string from @ '' -> '' @ nat_to_string to @ '': '' @ reason)"
| "map_checkpoint_error SvPoolExhausted = CkStorage ''Connection pool exhausted''"

section \<open>Recovery from deltas\<close>

definition is_full_snapshot :: "checkpoint_tuple \<Rightarrow> bool" where
  "is_full_snapshot t = (case as_object (sck_channel_values (tp_checkpoint t)) of Some obj \<Rightarrow> obj \<noteq> [] | None \<Rightarrow> False)"

text \<open>A map of \<open>serde_json\<close> is kept in key order; \<open>insert\<close> replaces or adds.\<close>

fun obj_insert :: "string \<Rightarrow> json \<Rightarrow> (string \<times> json) list \<Rightarrow> (string \<times> json) list" where
  "obj_insert k v [] = [(k, v)]"
| "obj_insert k v ((k', v') # m) =
     (if k' = k then (k, v) # m else if k < k' then (k, v) # (k', v') # m else (k', v') # obj_insert k v m)"

definition replay_write :: "pending_write \<Rightarrow> (string \<times> json) list \<Rightarrow> (string \<times> json) list" where
  "replay_write w obj = (case pw_value w of
       JArr vs \<Rightarrow>
         (let obj' = (if map_of obj (pw_channel w) = None then obj_insert (pw_channel w) (JArr []) obj else obj)
          in (case map_of obj' (pw_channel w) of Some (JArr arr) \<Rightarrow> obj_insert (pw_channel w) (JArr (arr @ vs)) obj' | _ \<Rightarrow> obj'))
     | v \<Rightarrow> obj_insert (pw_channel w) v obj)"

definition count_write :: "pending_write \<Rightarrow> (string, nat) imap \<Rightarrow> (string, nat) imap" where
  "count_write w m = im_modify (pw_channel w) 0 (\<lambda>n. n + 1) m"

definition str_cmp :: "string \<Rightarrow> string \<Rightarrow> ordering" where
  "str_cmp a b = (if a < b then Less else if a = b then Equal else Greater)"

text \<open>The writes of the checkpoints whose identifier is above that of the base, in the order of identifiers.\<close>

definition collect_deltas :: "string \<Rightarrow> checkpoint_tuple list \<Rightarrow> pending_write list" where
  "collect_deltas base_id relevant = map snd (sort_by (\<lambda>a b. str_cmp (fst a) (fst b))
     (concat (map (\<lambda>t. map (Pair (sck_id (tp_checkpoint t))) (tp_pending_writes t))
       (filter (\<lambda>t. \<not> sck_id (tp_checkpoint t) \<le> base_id) relevant))))"

fun position :: "('a \<Rightarrow> bool) \<Rightarrow> 'a list \<Rightarrow> nat option" where
  "position P [] = None"
| "position P (x # xs) = (if P x then Some 0 else map_option Suc (position P xs))"

definition recover_from_deltas :: "checkpoint_tuple list \<Rightarrow> string \<Rightarrow> (saver_error, stored_checkpoint option) result" where
  "recover_from_deltas checkpoints target = (case position (\<lambda>t. sck_id (tp_checkpoint t) = target) checkpoints of
       None \<Rightarrow> Ok None
     | Some i \<Rightarrow> (let relevant = take (i + 1) checkpoints in
         (case find is_full_snapshot (rev relevant) of
            None \<Rightarrow> Err (SvDeserialize ''No full snapshot found in checkpoint chain'')
          | Some base \<Rightarrow> (let ck = tp_checkpoint base; deltas = collect_deltas (sck_id ck) relevant in
              (case as_object (sck_channel_values ck) of
                 None \<Rightarrow> Err (SvDeserialize ''Base checkpoint channel_values is not an object'')
               | Some obj \<Rightarrow> (let modified = fold count_write deltas [] in
                   Ok (Some (ck\<lparr>sck_channel_values := JObj (fold replay_write deltas obj),
                     sck_channel_versions := fold (\<lambda>(c, n) vs. im_insert c ((case im_get vs c of Some v \<Rightarrow> v | None \<Rightarrow> 0) + n) vs)
                       modified (sck_channel_versions ck),
                     sck_new_versions := modified, sck_counters := []\<rparr>))))))))"

section \<open>The wire format\<close>

definition segment_ok :: "namespace_segment \<Rightarrow> bool" where
  "segment_ok s \<longleftrightarrow> CHR ''|'' \<notin> set (seg_node_name s) \<and> CHR '':'' \<notin> set (seg_node_name s) \<and> CHR ''|'' \<notin> set (seg_invocation_id s)"

lemma foldl_append_concat: "foldl (\<lambda>acc s. acc @ f s) a xs = a @ concat (map f xs)"
  by (induction xs arbitrary: a) auto

lemma ns_as_str_join: "ns_as_str ns = (if ns = [] then [] else CHR ''|'' # join_with ''|'' (map segment_as_str ns))"
proof -
  have "ns_as_str ns = concat (map (\<lambda>s. CHR ''|'' # segment_as_str s) ns)"
    using foldl_append_concat [of "\<lambda>s. CHR ''|'' # segment_as_str s" "[]" ns]
    by (simp add: ns_as_str_def segment_as_str_def)
  also have "concat (map (\<lambda>s. CHR ''|'' # segment_as_str s) ns) = (if ns = [] then [] else CHR ''|'' # join_with ''|'' (map segment_as_str ns))"
    by (induction ns) (auto simp: join_Cons)
  finally show ?thesis .
qed

lemma takeWhile_clean: "c \<notin> set a \<Longrightarrow> takeWhile (\<lambda>x. x \<noteq> c) (a @ c # b) = a \<and> dropWhile (\<lambda>x. x \<noteq> c) (a @ c # b) = c # b"
  by (induction a) auto

lemma split_once_app: "c \<notin> set a \<Longrightarrow> split_once c (a @ c # b) = Some (a, b)"
  by (simp add: split_once_def takeWhile_clean)

lemma parse_segment_as_str: "segment_ok s \<Longrightarrow> parse_segment (segment_as_str s) = Some s"
  using split_once_app [of "CHR '':''" "seg_node_name s" "seg_invocation_id s"]
  by (simp add: parse_segment_def segment_as_str_def segment_ok_def)

lemma map_filter_Some: "(\<And>x. x \<in> set xs \<Longrightarrow> f (g x) = Some x) \<Longrightarrow> List.map_filter f (map g xs) = xs"
  by (induction xs) (auto simp: List.map_filter_simps)

lemma ns_parse_as_str:
  assumes "\<forall>s \<in> set ns. segment_ok s"
  shows "ns_parse (ns_as_str ns) = ns"
proof (cases "ns = []")
  case False
  then obtain s ss where ns: "ns = s # ss" by (cases ns) auto
  have clean: "CHR ''|'' \<notin> set (segment_as_str s)" if "s \<in> set ns" for s
    using assms that by (auto simp: segment_as_str_def segment_ok_def)
  let ?j = "join_with ''|'' (map segment_as_str ns)"
  obtain c cs where c: "segment_as_str s = c # cs" by (cases "segment_as_str s") (auto simp: segment_as_str_def)
  have "c \<noteq> CHR ''|''" using clean [of s] ns c by auto
  moreover obtain r where "?j = c # r" using ns c by (cases ss) auto
  ultimately have "dropWhile (\<lambda>c. c = CHR ''|'') (CHR ''|'' # ?j) = ?j" by simp
  moreover have "split_on CHR ''|'' ?j = map segment_as_str ns"
    using clean False by (intro split_join) auto
  moreover have "List.map_filter parse_segment (map segment_as_str ns) = ns"
    using assms by (intro map_filter_Some) (simp add: parse_segment_as_str)
  ultimately show ?thesis using False by (simp add: ns_parse_def ns_as_str_join)
qed (simp add: ns_parse_def ns_as_str_def ns_root_def)

section \<open>Replay per channel\<close>

lemma map_of_obj_insert [simp]: "map_of (obj_insert k v m) = (map_of m)(k \<mapsto> v)"
  by (induction k v m rule: obj_insert.induct) auto

definition replay_value :: "json \<Rightarrow> json option \<Rightarrow> json option" where
  "replay_value v cur = (case v of
       JArr vs \<Rightarrow> (case cur of None \<Rightarrow> Some (JArr vs) | Some (JArr a) \<Rightarrow> Some (JArr (a @ vs)) | Some x \<Rightarrow> Some x)
     | _ \<Rightarrow> Some v)"

lemma map_of_replay_write:
  "map_of (replay_write w obj) c = (if c = pw_channel w then replay_value (pw_value w) (map_of obj c) else map_of obj c)"
  by (auto simp: replay_write_def replay_value_def Let_def split: json.splits option.splits)

definition channel_writes :: "string \<Rightarrow> pending_write list \<Rightarrow> json list" where
  "channel_writes c ws = map pw_value (filter (\<lambda>w. pw_channel w = c) ws)"

lemma map_of_replay: "map_of (fold replay_write ws obj) c = fold replay_value (channel_writes c ws) (map_of obj c)"
  by (induction ws arbitrary: obj) (auto simp: map_of_replay_write channel_writes_def)

lemma im_get_count: "im_get (fold count_write ws m) c =
    (if channel_writes c ws = [] then im_get m c else Some ((case im_get m c of Some n \<Rightarrow> n | None \<Rightarrow> 0) + length (channel_writes c ws)))"
  by (induction ws arbitrary: m) (auto simp: count_write_def channel_writes_def split: option.splits)

lemma im_wf_count: "im_wf m \<Longrightarrow> im_wf (fold count_write ws m)"
  by (induction ws arbitrary: m) (auto simp: count_write_def im_modify_def)

lemma im_get_versions:
  "im_wf modified \<Longrightarrow> im_get (fold (\<lambda>(c, n) vs. im_insert c ((case im_get vs c of Some v \<Rightarrow> v | None \<Rightarrow> 0) + n) vs) modified vs) c =
     (case im_get modified c of None \<Rightarrow> im_get vs c | Some n \<Rightarrow> Some ((case im_get vs c of Some v \<Rightarrow> v | None \<Rightarrow> 0) + n))"
proof (induction modified arbitrary: vs)
  case (Cons p modified)
  obtain c' n where p: "p = (c', n)" by (cases p)
  from Cons.prems p have "im_get modified c' = None" by (simp add: im_get_None_iff im_contains_def)
  with Cons p show ?case by (auto simp: im_get_Cons split: option.splits)
qed simp

lemma str_cmp_Greater: "str_cmp a b = Greater \<longleftrightarrow> \<not> a \<le> b"
  by (auto simp: str_cmp_def)

text \<open>Deltas collected from checkpoints in the order of their identifiers stay in that order.\<close>

lemma sort_by_str_sorted:
  "sorted (map fst xs) \<Longrightarrow> sort_by (\<lambda>a b. str_cmp (fst a) (fst b)) xs = xs"
  by (subst sort_by_key [where key = fst]) (simp_all add: str_cmp_Greater sort_key_id_if_sorted)

lemma collect_deltas_sorted:
  assumes "sorted_wrt (<) (map (sck_id \<circ> tp_checkpoint) (pre @ base # post))"
  shows "collect_deltas (sck_id (tp_checkpoint base)) (pre @ base # post) = concat (map tp_pending_writes post)"
proof -
  let ?i = "\<lambda>t. sck_id (tp_checkpoint t)"
  have "filter (\<lambda>t. \<not> ?i t \<le> ?i base) pre = []" and "filter (\<lambda>t. \<not> ?i t \<le> ?i base) post = post"
    using assms by (auto simp: sorted_wrt_append filter_empty_conv intro!: filter_True)
  then have "filter (\<lambda>t. \<not> ?i t \<le> ?i base) (pre @ base # post) = post" by simp
  moreover have "sorted (map fst (concat (map (\<lambda>t. map (Pair (?i t)) (tp_pending_writes t)) post)))"
  proof -
    have "sorted_wrt (<) (map ?i post)" using assms by (simp add: sorted_wrt_append comp_def)
    then show ?thesis
    proof (induction post)
      case (Cons t post)
      have "map fst (map (Pair (?i t)) (tp_pending_writes t)) = replicate (length (tp_pending_writes t)) (?i t)"
        by (simp add: comp_def map_replicate_const)
      with Cons show ?case by (auto simp: sorted_append less_imp_le simp del: map_map)
    qed simp
  qed
  ultimately show ?thesis
    by (simp add: collect_deltas_def sort_by_str_sorted map_concat comp_def)
qed

lemma position_Some: "P x \<Longrightarrow> \<forall>y \<in> set pre. \<not> P y \<Longrightarrow> position P (pre @ x # post) = Some (length pre)"
  by (induction pre) auto

lemma find_rev_last: "P x \<Longrightarrow> \<forall>y \<in> set post. \<not> P y \<Longrightarrow> find P (rev (pre @ x # post)) = Some x"
  by (induction post rule: rev_induct) auto

section \<open>Properties\<close>

text \<open>
  The wire format of a checkpoint namespace parses back to the namespace when no node name contains a separator
  and no invocation identifier a pipe, so such namespaces never collide; a child's parent is the namespace
  it was made from.
\<close>

theorem namespace_roundtrip:
  assumes "\<forall>s \<in> set ns. segment_ok s" and "\<forall>s \<in> set ns'. segment_ok s"
  shows "ns_parse (ns_as_str ns) = ns \<and> (ns_as_str ns = ns_as_str ns' \<longrightarrow> ns = ns') \<and> ns_parent (ns_child ns n i) = Some ns \<and>
     ns_as_str (ns_child ns n i) = ns_as_str ns @ ''|'' @ n @ '':'' @ i"
proof -
  have "ns = ns'" if "ns_as_str ns = ns_as_str ns'"
    using arg_cong [OF that, of ns_parse] unfolding ns_parse_as_str [OF assms(1)] ns_parse_as_str [OF assms(2)] .
  then show ?thesis
    using ns_parse_as_str [OF assms(1)] by (simp add: ns_parent_def ns_child_def ns_as_str_def)
qed

theorem namespace_roundtrip_witness:
  "ns_parse (ns_as_str (ns_child (ns_child ns_root ''review'' ''u1'') ''detail'' ''u:2'')) =
     ns_child (ns_child ns_root ''review'' ''u1'') ''detail'' ''u:2''"
  using namespace_roundtrip [of "ns_child (ns_child ns_root ''review'' ''u1'') ''detail'' ''u:2''" "[]"]
  by (simp add: segment_ok_def ns_child_def ns_root_def)

text \<open>
  The pipe is not among the characters the graph builder refuses in node names: a subgraph node with a pipe in its name
  gets a namespace that reads back as another node's.
\<close>

theorem namespace_pipe_misread: "ns_parse (ns_as_str (ns_child ns_root ''a|b'' ''u'')) = ns_child ns_root ''b'' ''u''"
  by code_simp


definition example_tuple :: "string \<Rightarrow> json \<Rightarrow> pending_write list \<Rightarrow> checkpoint_tuple" where
  "example_tuple i vals ws = \<lparr>tp_config = \<lparr>sc_thread_id = Some ''t'', sc_checkpoint_id = None, sc_checkpoint_ns = None\<rparr>,
     tp_checkpoint = \<lparr>sck_id = i, sck_channel_values = vals, sck_channel_versions = [], sck_versions_seen = [], sck_pending_tasks = [],
       sck_pending_sends = [], sck_pending_interrupts = [], sck_schema_version = 1, sck_created_at = i, sck_v = 1,
       sck_new_versions = [], sck_counters = []\<rparr>,
     tp_metadata = \<lparr>md_source = SourceLoop, md_step = 0, md_writes = [], md_parents = [], md_run_id = [], md_return_value = None\<rparr>,
     tp_pending_writes = ws, tp_parent_config = None\<rparr>"


end
