(* ===== verification/Run_Config.thy ===== *)
theory Run_Config
  imports Checkpoints
begin

text \<open>
  \<open>juncture-core/src/config.rs\<close>: the configuration of a run with its builder methods, and \<open>CachePolicy\<close>, the
  cache of node results that a compiled graph consults before it runs.  The clock is an argument; the key
  function, the JSON printer and the default hasher are parameters.  Callback objects and collectors are output only.
\<close>

section \<open>Run configuration\<close>

record runnable_config =
  cfg_saver :: saver_config
  cfg_run :: run_config
  cfg_max_parallel_tasks :: nat
  cfg_run_name :: "string option"
  cfg_graph_name :: "string option"
  cfg_run_id :: "string option"
  cfg_previous :: "json option"
  cfg_tags :: "string list"
  cfg_metadata :: "(string, json) imap"
  cfg_budget :: "budget_config option"
  cfg_resume_value :: "resume_value option"

definition config_new :: runnable_config where
  "config_new = \<lparr>cfg_saver = \<lparr>sc_thread_id = None, sc_checkpoint_id = None, sc_checkpoint_ns = None\<rparr>,
     cfg_run = \<lparr>rc_recursion_limit = 25, rc_interrupt_before = None, rc_interrupt_after = None, rc_max_state_size = None, rc_durability = None\<rparr>,
     cfg_max_parallel_tasks = 100, cfg_run_name = None, cfg_graph_name = None, cfg_run_id = None, cfg_previous = None,
     cfg_tags = [], cfg_metadata = [], cfg_budget = None, cfg_resume_value = None\<rparr>"

definition with_thread_id :: "string \<Rightarrow> runnable_config \<Rightarrow> runnable_config" where
  "with_thread_id i c = c\<lparr>cfg_saver := (cfg_saver c)\<lparr>sc_thread_id := Some i\<rparr>\<rparr>"

definition with_checkpoint_id :: "string \<Rightarrow> runnable_config \<Rightarrow> runnable_config" where
  "with_checkpoint_id i c = c\<lparr>cfg_saver := (cfg_saver c)\<lparr>sc_checkpoint_id := Some i\<rparr>\<rparr>"

definition with_checkpoint_ns :: "checkpoint_namespace \<Rightarrow> runnable_config \<Rightarrow> runnable_config" where
  "with_checkpoint_ns ns c = c\<lparr>cfg_saver := (cfg_saver c)\<lparr>sc_checkpoint_ns := Some ns\<rparr>\<rparr>"

definition with_run_id :: "string \<Rightarrow> runnable_config \<Rightarrow> runnable_config" where
  "with_run_id i c = c\<lparr>cfg_run_id := Some i\<rparr>"

definition with_recursion_limit :: "nat \<Rightarrow> runnable_config \<Rightarrow> runnable_config" where
  "with_recursion_limit n c = c\<lparr>cfg_run := (cfg_run c)\<lparr>rc_recursion_limit := n\<rparr>\<rparr>"

definition with_max_parallel_tasks :: "nat \<Rightarrow> runnable_config \<Rightarrow> runnable_config" where
  "with_max_parallel_tasks n c = c\<lparr>cfg_max_parallel_tasks := (if n < 1 then 1 else n)\<rparr>"

definition with_run_name :: "string \<Rightarrow> runnable_config \<Rightarrow> runnable_config" where
  "with_run_name n c = c\<lparr>cfg_run_name := Some n\<rparr>"

definition with_graph_name :: "string \<Rightarrow> runnable_config \<Rightarrow> runnable_config" where
  "with_graph_name n c = c\<lparr>cfg_graph_name := Some n\<rparr>"

definition with_tag :: "string \<Rightarrow> runnable_config \<Rightarrow> runnable_config" where
  "with_tag t c = c\<lparr>cfg_tags := cfg_tags c @ [t]\<rparr>"

definition with_metadata :: "string \<Rightarrow> json \<Rightarrow> runnable_config \<Rightarrow> runnable_config" where
  "with_metadata k v c = c\<lparr>cfg_metadata := im_insert k v (cfg_metadata c)\<rparr>"

definition with_budget :: "budget_config \<Rightarrow> runnable_config \<Rightarrow> runnable_config" where
  "with_budget b c = c\<lparr>cfg_budget := Some b\<rparr>"

definition with_interrupt_before :: "string list \<Rightarrow> runnable_config \<Rightarrow> runnable_config" where
  "with_interrupt_before ns c = c\<lparr>cfg_run := (cfg_run c)\<lparr>rc_interrupt_before := Some ns\<rparr>\<rparr>"

definition with_interrupt_after :: "string list \<Rightarrow> runnable_config \<Rightarrow> runnable_config" where
  "with_interrupt_after ns c = c\<lparr>cfg_run := (cfg_run c)\<lparr>rc_interrupt_after := Some ns\<rparr>\<rparr>"

definition with_resource_limits :: "nat option \<Rightarrow> runnable_config \<Rightarrow> runnable_config" where
  "with_resource_limits mx c = c\<lparr>cfg_run := (cfg_run c)\<lparr>rc_max_state_size := mx\<rparr>\<rparr>"

section \<open>The cache of results\<close>

record cache_policy =
  cp_key_func :: "(json \<Rightarrow> runnable_config \<Rightarrow> string) option"
  cp_ttl :: "nat option"
  cp_max_entries :: "nat option"
  cp_store :: "(string, json \<times> nat) imap"

definition default_policy :: cache_policy where
  "default_policy = \<lparr>cp_key_func = None, cp_ttl = None, cp_max_entries = None, cp_store = []\<rparr>"

definition policy_ttl :: "nat \<Rightarrow> cache_policy" where
  "policy_ttl d = default_policy\<lparr>cp_ttl := Some d\<rparr>"

definition custom_key :: "(json \<Rightarrow> runnable_config \<Rightarrow> string) \<Rightarrow> cache_policy" where
  "custom_key f = default_policy\<lparr>cp_key_func := Some f\<rparr>"

definition hex_digit :: "nat \<Rightarrow> char" where
  "hex_digit d = (if d < 10 then char_of (48 + d) else char_of (87 + d))"

fun nat_to_hex :: "nat \<Rightarrow> string" where
  "nat_to_hex n = (if n < 16 then [hex_digit n] else nat_to_hex (n div 16) @ [hex_digit (n mod 16)])"

declare nat_to_hex.simps [simp del]

definition generate_key ::
    "(json \<Rightarrow> string) \<Rightarrow> (string \<Rightarrow> string option \<Rightarrow> nat) \<Rightarrow> json \<Rightarrow> runnable_config \<Rightarrow> cache_policy \<Rightarrow> string" where
  "generate_key render hasher s c p = (case cp_key_func p of
       Some f \<Rightarrow> f s c
     | None \<Rightarrow> nat_to_hex (hasher (render s) (sc_thread_id (cfg_saver c))))"

text \<open>\<open>elapsed\<close> saturates at zero, as truncated subtraction does.\<close>

definition cache_get :: "nat \<Rightarrow> string \<Rightarrow> cache_policy \<Rightarrow> cache_policy \<times> json option" where
  "cache_get now key p = (case im_get (cp_store p) key of
       None \<Rightarrow> (p, None)
     | Some (v, inserted) \<Rightarrow> (case cp_ttl p of
           Some ttl \<Rightarrow> (if now - inserted > ttl then (p\<lparr>cp_store := im_remove key (cp_store p)\<rparr>, None) else (p, Some v))
         | None \<Rightarrow> (p, Some v)))"

definition cache_put :: "nat \<Rightarrow> string \<Rightarrow> json \<Rightarrow> cache_policy \<Rightarrow> cache_policy" where
  "cache_put now key v p = (let
     full = (case cp_max_entries p of Some mx \<Rightarrow> length (cp_store p) \<ge> mx \<and> \<not> im_contains (cp_store p) key | None \<Rightarrow> False);
     store = (if full then [] else cp_store p)
     in p\<lparr>cp_store := im_insert key (v, now) store\<rparr>)"

section \<open>Histories of the cache\<close>

datatype cache_event = CachePut nat string json | CacheGet nat string

fun cache_step :: "cache_event \<Rightarrow> cache_policy \<Rightarrow> cache_policy" where
  "cache_step (CachePut now k v) p = cache_put now k v p"
| "cache_step (CacheGet now k) p = fst (cache_get now k p)"

text \<open>What a history last stored under each key, and when.\<close>

fun last_put :: "cache_event \<Rightarrow> (string \<Rightarrow> (json \<times> nat) option) \<Rightarrow> string \<Rightarrow> (json \<times> nat) option" where
  "last_put (CachePut now k v) m = m(k \<mapsto> (v, now))"
| "last_put (CacheGet now k) m = m"

definition cache_bound :: "cache_policy \<Rightarrow> bool" where
  "cache_bound p \<longleftrightarrow> im_wf (cp_store p) \<and> (\<forall>mx. cp_max_entries p = Some mx \<longrightarrow> length (cp_store p) \<le> max 1 mx)"

lemma im_insert_length_le: "length (im_insert k v m) \<le> Suc (length m)"
  by (induction m) auto

lemma im_insert_length_present: "im_contains m k \<Longrightarrow> length (im_insert k v m) = length m"
  by (induction m) (auto simp: im_contains_def im_get_def split: if_splits)

lemma cache_put_fields [simp]:
  "cp_ttl (cache_put now k v p) = cp_ttl p" "cp_max_entries (cache_put now k v p) = cp_max_entries p"
  by (simp_all add: cache_put_def Let_def)

lemma cache_get_fields [simp]:
  "cp_ttl (fst (cache_get now k p)) = cp_ttl p" "cp_max_entries (fst (cache_get now k p)) = cp_max_entries p"
  by (auto simp: cache_get_def split: option.splits)

lemma cache_step_fields [simp]:
  "cp_ttl (cache_step e p) = cp_ttl p" "cp_max_entries (cache_step e p) = cp_max_entries p"
  by (cases e; simp)+

lemma cache_fold_fields [simp]:
  "cp_ttl (fold cache_step es p) = cp_ttl p" "cp_max_entries (fold cache_step es p) = cp_max_entries p"
  by (induction es arbitrary: p) simp_all

lemma im_remove_length_le: "length (im_remove k m) \<le> length m"
  by (simp add: im_remove_def)

interpretation cache_ts: transition_system "\<lambda>p. cp_store p = []" cache_step cache_bound
proof unfold_locales
  fix p e assume inv: "cache_bound p"
  show "cache_bound (cache_step e p)"
  proof (cases e)
    case (CachePut now k v)
    have "length (im_insert k x m) \<le> max 1 mx" if "im_contains m k \<or> length m < mx" "length m \<le> max 1 mx"
      for m :: "(string, json \<times> nat) imap" and x mx
      using that im_insert_length_le [of k x m] im_insert_length_present [of m k x] by (cases "im_contains m k") auto
    moreover have "length (im_insert k (v, now) (cp_store p)) \<le> mx" if "length (cp_store p) < mx" for mx
      using that im_insert_length_le [of k "(v, now)" "cp_store p"] by simp
    ultimately show ?thesis using inv
      unfolding CachePut cache_step.simps cache_bound_def cache_put_fields
      by (auto simp: cache_put_def Let_def not_le)
  next
    case (CacheGet now k)
    with inv im_remove_length_le [of k "cp_store p"] show ?thesis
      by (auto simp: cache_bound_def cache_get_def split: option.splits intro: order_trans)
  qed
qed (simp add: cache_bound_def)

text \<open>Everything in the store is the latest write under its key.\<close>

definition cache_agrees :: "cache_policy \<Rightarrow> (string \<Rightarrow> (json \<times> nat) option) \<Rightarrow> bool" where
  "cache_agrees p m \<longleftrightarrow> (\<forall>k x. im_get (cp_store p) k = Some x \<longrightarrow> m k = Some x)"

lemma cache_step_agrees: "cache_agrees p m \<Longrightarrow> cache_agrees (cache_step e p) (last_put e m)"
  by (cases e) (auto simp: cache_agrees_def cache_put_def cache_get_def Let_def split: option.splits if_splits)

lemma cache_fold_agrees: "cache_agrees p m \<Longrightarrow> cache_agrees (fold cache_step es p) (fold last_put es m)"
  by (induction es arbitrary: p m) (simp_all add: cache_step_agrees)

lemma cache_unlimited_exact:
  assumes "cp_ttl p = None" "cp_max_entries p = None"
  shows "im_get (cp_store (cache_step e p)) = last_put e (im_get (cp_store p))"
  using assms by (cases e) (auto simp: fun_eq_iff cache_put_def cache_get_def split: option.splits)

lemma cache_unlimited_fold:
  assumes "cp_ttl p = None" "cp_max_entries p = None"
  shows "im_get (cp_store (fold cache_step es p)) = fold last_put es (im_get (cp_store p))"
  using assms by (induction es arbitrary: p) (simp_all add: cache_unlimited_exact)

section \<open>Theorems\<close>

text \<open>
  However a result cache is used, a hit is the value last stored under that key and is not older than the
  lifetime, the store never holds more than the configured number of entries (a limit of zero still keeps one), and a cache with neither limit nor lifetime answers every key that was ever stored.
\<close>

theorem cache_exact:
  assumes "cp_store p = []"
  shows "(\<forall>v. snd (cache_get now k (fold cache_step es p)) = Some v \<longrightarrow>
      (\<exists>t. fold last_put es (\<lambda>_. None) k = Some (v, t) \<and> (\<forall>ttl. cp_ttl p = Some ttl \<longrightarrow> now - t \<le> ttl))) \<and>
    (\<forall>mx. cp_max_entries p = Some mx \<longrightarrow> length (cp_store (fold cache_step es p)) \<le> max 1 mx) \<and>
    (cp_ttl p = None \<and> cp_max_entries p = None \<longrightarrow>
      snd (cache_get now k (fold cache_step es p)) = map_option fst (fold last_put es (\<lambda>_. None) k))"
proof -
  let ?q = "fold cache_step es p"
  have agree: "cache_agrees ?q (fold last_put es (\<lambda>_. None))"
    using assms by (intro cache_fold_agrees) (simp add: cache_agrees_def)
  then have "\<forall>v. snd (cache_get now k ?q) = Some v \<longrightarrow>
      (\<exists>t. fold last_put es (\<lambda>_. None) k = Some (v, t) \<and> (\<forall>ttl. cp_ttl p = Some ttl \<longrightarrow> now - t \<le> ttl))"
    by (fastforce simp: cache_agrees_def cache_get_def split: option.splits if_splits)
  moreover have "cache_bound ?q" using cache_ts.inv_run [OF cache_ts.inv_init [OF assms]] by blast
  then have "\<forall>mx. cp_max_entries p = Some mx \<longrightarrow> length (cp_store ?q) \<le> max 1 mx" by (simp add: cache_bound_def)
  moreover have "cp_ttl p = None \<and> cp_max_entries p = None \<longrightarrow>
      snd (cache_get now k ?q) = map_option fst (fold last_put es (\<lambda>_. None) k)"
    using cache_unlimited_fold [of p es] assms by (auto simp: cache_get_def im_get_def [abs_def] split: option.splits)
  ultimately show ?thesis by blast
qed

theorem cache_exact_witness:
  "snd (cache_get 7 ''b'' (fold cache_step [CachePut 1 ''a'' JNull, CacheGet 2 ''a'', CachePut 5 ''b'' (JNum 4)]
     (policy_ttl 3))) = Some (JNum 4) \<and>
   length (cp_store (fold cache_step [CachePut 1 ''a'' JNull, CachePut 5 ''b'' (JNum 4)]
     (default_policy\<lparr>cp_max_entries := Some 0\<rparr>))) \<le> 1"
proof
  show "snd (cache_get 7 ''b'' (fold cache_step [CachePut 1 ''a'' JNull, CacheGet 2 ''a'', CachePut 5 ''b'' (JNum 4)]
     (policy_ttl 3))) = Some (JNum 4)"
    by (simp add: policy_ttl_def default_policy_def cache_get_def cache_put_def im_contains_def im_simps)
  let ?p = "default_policy\<lparr>cp_max_entries := Some 0\<rparr>"
  have "cp_store ?p = []" by (simp add: default_policy_def)
  from cache_exact [OF this, of 0 "[]" "[CachePut 1 ''a'' JNull, CachePut 5 ''b'' (JNum 4)]"]
  have "\<forall>mx. cp_max_entries ?p = Some mx \<longrightarrow> length (cp_store (fold cache_step [CachePut 1 ''a'' JNull, CachePut 5 ''b'' (JNum 4)] ?p)) \<le> max 1 mx"
    by (elim conjE)
  then show "length (cp_store (fold cache_step [CachePut 1 ''a'' JNull, CachePut 5 ''b'' (JNum 4)] ?p)) \<le> 1" by simp
qed

end
