(* ===== verification/Memory_Saver.thy ===== *)
theory Memory_Saver
  imports Checkpoints
begin

text \<open>
  \<open>juncture-checkpoint/src/memory.rs\<close>, the in-memory checkpointer, and the expiry rule of
  \<open>juncture-checkpoint/src/types.rs\<close>.  Parsing a timestamp (\<open>chrono\<close>) is the parameter \<open>parse\<close>, the clock
  reading the parameter \<open>now\<close>; each method runs between the lock operations of others.
\<close>

section \<open>Expiry\<close>

record saver_ttl =
  stt_default_ttl :: "nat option"
  stt_sweep_interval :: nat
  stt_max_checkpoints :: "nat option"

definition saver_ttl_disabled :: saver_ttl where
  "saver_ttl_disabled = \<lparr>stt_default_ttl = None, stt_sweep_interval = 3600 * 10 ^ 9, stt_max_checkpoints = None\<rparr>"

text \<open>A negative age does not convert to a duration and counts as the longest one.\<close>

definition ttl_is_expired :: "(string \<Rightarrow> int option) \<Rightarrow> int \<Rightarrow> saver_ttl \<Rightarrow> string \<Rightarrow> bool" where
  "ttl_is_expired parse now c created_at = (case stt_default_ttl c of
       None \<Rightarrow> False
     | Some ttl \<Rightarrow> (case parse created_at of
         None \<Rightarrow> False
       | Some t \<Rightarrow> (if now < t then DURATION_MAX else nat (now - t)) > ttl))"

section \<open>State\<close>

record memory_saver =
  sv_storage :: "(string, (string, checkpoint_tuple list) imap) imap"
  sv_writes :: "(string \<times> string \<times> string, pending_write list) imap"
  sv_ttl :: saver_ttl

definition memory_saver_new :: memory_saver where
  "memory_saver_new = \<lparr>sv_storage = [], sv_writes = [], sv_ttl = saver_ttl_disabled\<rparr>"

definition set_ttl_config :: "saver_ttl \<Rightarrow> memory_saver \<Rightarrow> memory_saver" where
  "set_ttl_config c s = s\<lparr>sv_ttl := c\<rparr>"

definition lookup_tuples :: "memory_saver \<Rightarrow> string \<Rightarrow> string \<Rightarrow> checkpoint_tuple list" where
  "lookup_tuples s tid ns = (case Option.bind (im_get (sv_storage s) tid) (\<lambda>m. im_get m ns) of Some ts \<Rightarrow> ts | None \<Rightarrow> [])"

text \<open>Writing to the entry of a thread and a namespace, created when missing.\<close>

definition set_tuples :: "string \<Rightarrow> string \<Rightarrow> checkpoint_tuple list \<Rightarrow> memory_saver \<Rightarrow> memory_saver" where
  "set_tuples tid ns ts s = s\<lparr>sv_storage := im_modify tid [] (im_insert ns ts) (sv_storage s)\<rparr>"

definition tuple_id :: "checkpoint_tuple \<Rightarrow> string" where
  "tuple_id t = sck_id (tp_checkpoint t)"

definition tuple_created :: "checkpoint_tuple \<Rightarrow> string" where
  "tuple_created t = sck_created_at (tp_checkpoint t)"

section \<open>Operations\<close>

definition lazy_cleanup :: "(string \<Rightarrow> int option) \<Rightarrow> int \<Rightarrow> string \<Rightarrow> string \<Rightarrow> memory_saver \<Rightarrow> memory_saver" where
  "lazy_cleanup parse now tid ns s = (let
     ts = lookup_tuples s tid ns;
     kept = filter (\<lambda>t. \<not> ttl_is_expired parse now (sv_ttl s) (tuple_created t)) ts;
     expired_count = length ts - length kept
     in (case stt_max_checkpoints (sv_ttl s) of
           None \<Rightarrow> set_tuples tid ns kept s
         | Some mx \<Rightarrow> (let kept' = take mx kept; s' = set_tuples tid ns kept' s in
             if expired_count > 0
             then s'\<lparr>sv_writes := filter (\<lambda>((thread, ns', i), _). thread = tid \<and> ns' = ns \<and> i \<in> tuple_id ` set kept') (sv_writes s')\<rparr>
             else s')))"

definition get_checkpoint_ns :: "saver_config \<Rightarrow> string" where
  "get_checkpoint_ns c = (case sc_checkpoint_ns c of Some ns \<Rightarrow> ns_as_str ns | None \<Rightarrow> [])"

definition get_thread_id :: "saver_config \<Rightarrow> (saver_error, string) result" where
  "get_thread_id c = (case sc_thread_id c of Some t \<Rightarrow> Ok t | None \<Rightarrow> Err (SvStorage ''thread_id is required''))"

definition tuple_cmp :: "checkpoint_tuple \<Rightarrow> checkpoint_tuple \<Rightarrow> ordering" where
  "tuple_cmp a b = (case str_cmp (tuple_created b) (tuple_created a) of
       Equal \<Rightarrow> str_cmp (tuple_id b) (tuple_id a)
     | o' \<Rightarrow> o')"

definition sort_checkpoints :: "checkpoint_tuple list \<Rightarrow> checkpoint_tuple list" where
  "sort_checkpoints ts = sort_by tuple_cmp ts"

definition select_tuple :: "saver_config \<Rightarrow> checkpoint_tuple list \<Rightarrow> checkpoint_tuple option" where
  "select_tuple c ts = (case sc_checkpoint_id c of
       None \<Rightarrow> (case ts of [] \<Rightarrow> None | t # _ \<Rightarrow> Some t)
     | Some i \<Rightarrow> find (\<lambda>t. tuple_id t = i) ts)"

definition saver_get_tuple ::
    "(string \<Rightarrow> int option) \<Rightarrow> int \<Rightarrow> saver_config \<Rightarrow> memory_saver \<Rightarrow> memory_saver \<times> (core_checkpoint_error, checkpoint_tuple option) result" where
  "saver_get_tuple parse now c s = (case get_thread_id c of
       Inl e \<Rightarrow> (s, Err (map_checkpoint_error e))
     | Inr tid \<Rightarrow> (let ns = get_checkpoint_ns c; s' = lazy_cleanup parse now tid ns s in
         (s', Ok (map_option (\<lambda>t. t\<lparr>tp_pending_writes := (case im_get (sv_writes s') (tid, tuple_id t, ns) of Some ws \<Rightarrow> ws | None \<Rightarrow> [])\<rparr>)
             (select_tuple c (lookup_tuples s' tid ns))))))"

definition filter_opt :: "('a \<Rightarrow> 'b \<Rightarrow> bool) \<Rightarrow> 'a option \<Rightarrow> 'b list \<Rightarrow> 'b list" where
  "filter_opt P o' xs = (case o' of Some a \<Rightarrow> filter (P a) xs | None \<Rightarrow> xs)"

definition apply_filter :: "checkpoint_filter \<Rightarrow> checkpoint_tuple list \<Rightarrow> checkpoint_tuple list" where
  "apply_filter f ts = (let
     t1 = filter_opt (\<lambda>src t. md_source (tp_metadata t) = src) (cf_source f) ts;
     t2 = filter_opt (\<lambda>n t. md_step (tp_metadata t) \<ge> n) (cf_step_gte f) t1;
     t3 = filter_opt (\<lambda>n t. md_step (tp_metadata t) \<le> n) (cf_step_lte f) t2;
     t4 = (case cf_before f of
             Some b \<Rightarrow> (case position (\<lambda>t. tuple_id t = b) t3 of Some p \<Rightarrow> take p t3 | None \<Rightarrow> t3)
           | None \<Rightarrow> t3);
     t5 = (case cf_after f of
             Some a \<Rightarrow> (case position (\<lambda>t. tuple_id t = a) t4 of Some p \<Rightarrow> drop (p + 1) t4 | None \<Rightarrow> t4)
           | None \<Rightarrow> t4)
     in (case cf_limit f of Some n \<Rightarrow> take n t5 | None \<Rightarrow> t5))"

definition saver_list ::
    "(string \<Rightarrow> int option) \<Rightarrow> int \<Rightarrow> saver_config \<Rightarrow> checkpoint_filter option \<Rightarrow> memory_saver
       \<Rightarrow> memory_saver \<times> (core_checkpoint_error, checkpoint_tuple list) result" where
  "saver_list parse now c f s = (case get_thread_id c of
       Inl e \<Rightarrow> (s, Err (map_checkpoint_error e))
     | Inr tid \<Rightarrow> (let ns = get_checkpoint_ns c; s' = lazy_cleanup parse now tid ns s; ts = lookup_tuples s' tid ns in
         (s', Ok (case f of Some f \<Rightarrow> apply_filter f ts | None \<Rightarrow> ts))))"

definition saver_put ::
    "saver_config \<Rightarrow> stored_checkpoint \<Rightarrow> checkpoint_metadata \<Rightarrow> memory_saver \<Rightarrow> memory_saver \<times> (core_checkpoint_error, saver_config) result" where
  "saver_put c ck md s = (case get_thread_id c of
       Inl e \<Rightarrow> (s, Err (map_checkpoint_error e))
     | Inr tid \<Rightarrow> (let ns = get_checkpoint_ns c;
           t = \<lparr>tp_config = c, tp_checkpoint = ck, tp_metadata = md, tp_pending_writes = [], tp_parent_config = None\<rparr>
         in (set_tuples tid ns (sort_checkpoints (lookup_tuples s tid ns @ [t])) s,
             Ok (c\<lparr>sc_checkpoint_id := Some (sck_id ck)\<rparr>))))"

definition saver_put_writes ::
    "saver_config \<Rightarrow> pending_write list \<Rightarrow> string \<Rightarrow> memory_saver \<Rightarrow> memory_saver \<times> (core_checkpoint_error, unit) result" where
  "saver_put_writes c ws task s = (case get_thread_id c of
       Inl e \<Rightarrow> (s, Err (map_checkpoint_error e))
     | Inr tid \<Rightarrow> (case sc_checkpoint_id c of
         None \<Rightarrow> (s, Err (CkStorage ''checkpoint_id is required''))
       | Some i \<Rightarrow> (s\<lparr>sv_writes := im_modify (tid, i, get_checkpoint_ns c) [] (\<lambda>old. old @ map (\<lambda>w. w\<lparr>pw_task_id := task\<rparr>) ws) (sv_writes s)\<rparr>, Ok ())))"

section \<open>Storage after each operation\<close>

lemma lookup_set_tuples [simp]:
  "lookup_tuples (set_tuples tid ns ts s) tid' ns' = (if tid' = tid \<and> ns' = ns then ts else lookup_tuples s tid' ns')"
  by (auto simp: lookup_tuples_def set_tuples_def split: option.splits)

lemma set_tuples_frame [simp]: "sv_writes (set_tuples tid ns ts s) = sv_writes s" "sv_ttl (set_tuples tid ns ts s) = sv_ttl s"
  by (simp_all add: set_tuples_def)

lemma lookup_writes [simp]: "lookup_tuples (s\<lparr>sv_writes := w\<rparr>) = lookup_tuples s" "lookup_tuples (s\<lparr>sv_ttl := c\<rparr>) = lookup_tuples s"
  by (simp_all add: fun_eq_iff lookup_tuples_def)

definition surviving :: "(string \<Rightarrow> int option) \<Rightarrow> int \<Rightarrow> memory_saver \<Rightarrow> string \<Rightarrow> string \<Rightarrow> checkpoint_tuple list" where
  "surviving parse now s tid ns = (let kept = filter (\<lambda>t. \<not> ttl_is_expired parse now (sv_ttl s) (tuple_created t)) (lookup_tuples s tid ns) in
     case stt_max_checkpoints (sv_ttl s) of Some mx \<Rightarrow> take mx kept | None \<Rightarrow> kept)"

lemma lookup_cleanup [simp]:
  "lookup_tuples (lazy_cleanup parse now tid ns s) tid' ns' =
     (if tid' = tid \<and> ns' = ns then surviving parse now s tid ns else lookup_tuples s tid' ns')"
  by (auto simp: lazy_cleanup_def surviving_def Let_def split: option.splits)

lemma cleanup_ttl [simp]: "sv_ttl (lazy_cleanup parse now tid ns s) = sv_ttl s"
  by (simp add: lazy_cleanup_def Let_def split: option.splits)

lemma cleanup_writes [simp]: "stt_max_checkpoints (sv_ttl s) = None \<Longrightarrow> sv_writes (lazy_cleanup parse now tid ns s) = sv_writes s"
  by (simp add: lazy_cleanup_def Let_def)

lemma surviving_disabled: "stt_default_ttl (sv_ttl s) = None \<Longrightarrow> stt_max_checkpoints (sv_ttl s) = None \<Longrightarrow> surviving parse now s tid ns = lookup_tuples s tid ns"
  by (simp add: surviving_def ttl_is_expired_def)

lemma set_surviving: "set (surviving parse now s tid ns) \<subseteq> set (lookup_tuples s tid ns)"
  by (auto simp: surviving_def Let_def split: option.splits dest: in_set_takeD)

lemma find_unique: "x \<in> set xs \<Longrightarrow> P x \<Longrightarrow> (\<And>y. y \<in> set xs \<Longrightarrow> P y \<Longrightarrow> y = x) \<Longrightarrow> find P xs = Some x"
proof (induction xs)
  case (Cons z zs)
  show ?case
  proof (cases "P z")
    case True
    then have "z = x" by (intro Cons.prems(3)) simp
    with True show ?thesis by simp
  next
    case False
    with Cons.prems(1,2) have "x \<in> set zs" by auto
    from Cons.IH [OF this Cons.prems(2) Cons.prems(3)] False show ?thesis by simp
  qed
qed simp

section \<open>Order\<close>

text \<open>Newest first: by creation time, then by identifier.\<close>

definition newer_eq :: "checkpoint_tuple \<Rightarrow> checkpoint_tuple \<Rightarrow> bool" where
  "newer_eq a b \<longleftrightarrow> tuple_created b < tuple_created a \<or> tuple_created b = tuple_created a \<and> tuple_id b \<le> tuple_id a"

lemma str_cmp_lex: "(case str_cmp x y of Equal \<Rightarrow> str_cmp u v | o' \<Rightarrow> o') \<noteq> Greater \<longleftrightarrow> x < y \<or> x = y \<and> u \<le> v"
proof (cases x y rule: linorder_cases)
  case equal
  then have "(case str_cmp x y of Equal \<Rightarrow> str_cmp u v | o' \<Rightarrow> o') = str_cmp u v" by (simp add: str_cmp_def)
  with equal show ?thesis by (simp add: str_cmp_Greater)
next
  case greater
  then have "\<not> x < y" "x \<noteq> y" by (auto dest: less_asym)
  then show ?thesis by (simp add: str_cmp_def)
qed (simp add: str_cmp_def)

lemma tuple_cmp_newer: "tuple_cmp a b \<noteq> Greater \<longleftrightarrow> newer_eq a b"
  unfolding tuple_cmp_def newer_eq_def by (rule str_cmp_lex)

lemma newer_eq_total: "newer_eq a b \<or> newer_eq b a"
  using less_linear [of "tuple_created a" "tuple_created b"] linear [of "tuple_id a" "tuple_id b"]
  unfolding newer_eq_def by metis

lemma newer_eq_trans: "newer_eq a b \<Longrightarrow> newer_eq b c \<Longrightarrow> newer_eq a c"
  using less_trans [of "tuple_created c" "tuple_created b" "tuple_created a"] order_trans [of "tuple_id c" "tuple_id b" "tuple_id a"]
  unfolding newer_eq_def by fastforce

lemma sort_checkpoints_sorted: "sorted_wrt newer_eq (sort_checkpoints ts)"
proof -
  have "sorted_wrt (\<lambda>a b. tuple_cmp a b \<noteq> Greater) (sort_checkpoints ts)"
    unfolding sort_checkpoints_def
    by (rule sort_by_sorted; unfold tuple_cmp_newer) (rule newer_eq_total, rule newer_eq_trans)
  then show ?thesis by (simp add: tuple_cmp_newer)
qed

lemma mset_sort_checkpoints [simp]: "mset (sort_checkpoints ts) = mset ts"
  by (simp add: sort_checkpoints_def)

lemma set_sort_checkpoints [simp]: "set (sort_checkpoints ts) = set ts"
  by (metis mset_sort_checkpoints set_mset_mset)

definition saver_inv :: "memory_saver \<Rightarrow> bool" where
  "saver_inv s \<longleftrightarrow> (\<forall>tid ns. sorted_wrt newer_eq (lookup_tuples s tid ns))"

lemma sorted_surviving: "saver_inv s \<Longrightarrow> sorted_wrt newer_eq (surviving parse now s tid ns)"
  by (auto simp: saver_inv_def surviving_def Let_def sorted_wrt_filter sorted_wrt_take split: option.splits)

datatype saver_event =
    SvPut saver_config stored_checkpoint checkpoint_metadata
  | SvPutWrites saver_config "pending_write list" string
  | SvGet int saver_config
  | SvList int saver_config "checkpoint_filter option"
  | SvSetTtl saver_ttl

definition saver_step :: "(string \<Rightarrow> int option) \<Rightarrow> saver_event \<Rightarrow> memory_saver \<Rightarrow> memory_saver" where
  "saver_step parse ev s = (case ev of
       SvPut c ck md \<Rightarrow> fst (saver_put c ck md s)
     | SvPutWrites c ws task \<Rightarrow> fst (saver_put_writes c ws task s)
     | SvGet now c \<Rightarrow> fst (saver_get_tuple parse now c s)
     | SvList now c f \<Rightarrow> fst (saver_list parse now c f s)
     | SvSetTtl c \<Rightarrow> set_ttl_config c s)"

lemmas saver_ops = saver_put_def saver_put_writes_def saver_get_tuple_def saver_list_def set_ttl_config_def

interpretation saver_ts: transition_system "\<lambda>s. s = memory_saver_new" "saver_step parse" saver_inv for parse
proof unfold_locales
  fix s ev assume inv: "saver_inv s"
  have put: "saver_inv (set_tuples tid ns (sort_checkpoints ts) s)" for tid ns ts
    using inv by (auto simp: saver_inv_def sort_checkpoints_sorted)
  have clean: "saver_inv (lazy_cleanup parse now tid ns s)" for now tid ns
    using inv sorted_surviving [OF inv] by (auto simp: saver_inv_def)
  have frame: "saver_inv (s\<lparr>sv_writes := w\<rparr>)" "saver_inv (s\<lparr>sv_ttl := c\<rparr>)" for w c
    using inv by (simp_all add: saver_inv_def)
  show "saver_inv (saver_step parse ev s)"
    using inv put clean frame
    by (auto simp: saver_step_def saver_ops Let_def split: saver_event.splits sum.splits option.splits)
qed (simp add: saver_inv_def memory_saver_new_def lookup_tuples_def)

section \<open>Saving again under an identifier\<close>

text \<open>A saved checkpoint is placed after every stored one that is at least as new.\<close>

lemma sort_checkpoints_snoc:
  "sorted_wrt newer_eq ts \<Longrightarrow>
     sort_checkpoints (ts @ [x]) = takeWhile (\<lambda>t. newer_eq t x) ts @ x # dropWhile (\<lambda>t. newer_eq t x) ts"
proof (induction ts)
  case (Cons t ts)
  have ins: "insert_by tuple_cmp t L = t # L" if "L = [] \<or> newer_eq t (hd L)" for L
    using that by (cases L) (auto simp: tuple_cmp_newer [symmetric])
  have IH: "sort_checkpoints (ts @ [x]) = takeWhile (\<lambda>t. newer_eq t x) ts @ x # dropWhile (\<lambda>t. newer_eq t x) ts"
    using Cons by simp
  have step: "sort_checkpoints ((t # ts) @ [x]) = insert_by tuple_cmp t (sort_checkpoints (ts @ [x]))"
    by (simp add: sort_checkpoints_def sort_by_def)
  show ?case
  proof (cases "newer_eq t x")
    case True
    have "newer_eq t (hd (takeWhile (\<lambda>t. newer_eq t x) ts @ x # dropWhile (\<lambda>t. newer_eq t x) ts))"
      using True Cons.prems by (cases ts) auto
    with True show ?thesis unfolding step IH by (simp add: ins)
  next
    case False
    have none: "takeWhile (\<lambda>t. newer_eq t x) ts = []" "dropWhile (\<lambda>t. newer_eq t x) ts = ts"
      using False Cons.prems newer_eq_trans [of t _ x] by (cases ts; fastforce)+
    have gt: "tuple_cmp t x = Greater" using False tuple_cmp_newer by blast
    have "insert_by tuple_cmp t ts = t # ts" using Cons.prems by (intro ins) (cases ts; simp)
    with False gt show ?thesis unfolding step IH none by simp
  qed
qed (simp add: sort_checkpoints_def sort_by_def)

lemma find_takeWhile:
  assumes "find P ts = Some t" and "Q t" and "sorted_wrt R ts" and "\<And>u. R u t \<Longrightarrow> Q u"
  shows "find P (takeWhile Q ts @ rest) = Some t"
  using assms(1,3)
proof (induction ts)
  case (Cons u us)
  show ?case
  proof (cases "P u")
    case False
    with Cons.prems have f: "find P us = Some t" by simp
    then have "t \<in> set us" by (auto simp: find_Some_iff)
    then have "Q u" using Cons.prems(2) assms(4) [of u] by simp
    with f False Cons show ?thesis by simp
  qed (use Cons.prems assms(2) in auto)
qed simp

text \<open>The selected checkpoint stays selected when another with its identifier and creation time is saved.\<close>

lemma select_tuple_duplicate:
  assumes "sorted_wrt newer_eq ts" and "select_tuple c ts = Some t"
    and "tuple_id x = tuple_id t" and "tuple_created x = tuple_created t"
  shows "select_tuple c (sort_checkpoints (ts @ [x])) = Some t"
    and "select_tuple (c\<lparr>sc_checkpoint_id := Some (tuple_id t)\<rparr>) (sort_checkpoints (ts @ [x])) = Some t"
proof -
  have tx: "newer_eq t x" using assms(3,4) by (simp add: newer_eq_def)
  have ux: "newer_eq u x" if "newer_eq u t" for u using newer_eq_trans that tx by blast
  have sel: "find P (sort_checkpoints (ts @ [x])) = Some t" if "find P ts = Some t" for P
    unfolding sort_checkpoints_snoc [OF assms(1)]
    by (rule find_takeWhile [where R = newer_eq]) (use that tx assms(1) ux in auto)
  have hd: "\<exists>rest. sort_checkpoints (ts @ [x]) = t # rest" if "ts = t # rest'" for rest'
    using that tx unfolding sort_checkpoints_snoc [OF assms(1)] by simp
  show "select_tuple c (sort_checkpoints (ts @ [x])) = Some t"
    using assms(2) hd sel by (auto simp: select_tuple_def split: option.splits list.splits)
  have "find (\<lambda>u. tuple_id u = tuple_id t) ts = Some t"
    using assms(2) by (auto simp: select_tuple_def find_Some_iff split: option.splits list.splits)
  from sel [OF this] show "select_tuple (c\<lparr>sc_checkpoint_id := Some (tuple_id t)\<rparr>) (sort_checkpoints (ts @ [x])) = Some t"
    by (simp add: select_tuple_def)
qed

lemma saver_put_Ok:
  assumes "sc_thread_id c = Some tid"
  shows "saver_put c ck md s =
     (set_tuples tid (get_checkpoint_ns c) (sort_checkpoints (lookup_tuples s tid (get_checkpoint_ns c) @
        [\<lparr>tp_config = c, tp_checkpoint = ck, tp_metadata = md, tp_pending_writes = [], tp_parent_config = None\<rparr>])) s,
      Ok (c\<lparr>sc_checkpoint_id := Some (sck_id ck)\<rparr>))"
  using assms by (simp add: saver_put_def get_thread_id_def Let_def)

text \<open>Loading with expiry and limits off.\<close>

definition attach_writes :: "memory_saver \<Rightarrow> string \<Rightarrow> string \<Rightarrow> checkpoint_tuple \<Rightarrow> checkpoint_tuple" where
  "attach_writes s tid ns t = t\<lparr>tp_pending_writes := (case im_get (sv_writes s) (tid, tuple_id t, ns) of Some ws \<Rightarrow> ws | None \<Rightarrow> [])\<rparr>"

lemma saver_get_disabled:
  assumes "sc_thread_id c = Some tid" and "sv_ttl s = saver_ttl_disabled"
  shows "saver_get_tuple parse now c s = (lazy_cleanup parse now tid (get_checkpoint_ns c) s,
     Ok (map_option (attach_writes s tid (get_checkpoint_ns c)) (select_tuple c (lookup_tuples s tid (get_checkpoint_ns c)))))"
proof -
  have off: "stt_default_ttl (sv_ttl s) = None" "stt_max_checkpoints (sv_ttl s) = None"
    using assms(2) by (simp_all add: saver_ttl_disabled_def)
  show ?thesis
    using assms(1) surviving_disabled [OF off] cleanup_writes [OF off(2)]
    by (simp add: saver_get_tuple_def get_thread_id_def Let_def attach_writes_def [abs_def])
qed

lemma attach_writes_fields [simp]:
  "tp_checkpoint (attach_writes s tid ns t) = tp_checkpoint t" "tp_metadata (attach_writes s tid ns t) = tp_metadata t"
  "tp_config (attach_writes s tid ns t) = tp_config t"
  by (simp_all add: attach_writes_def)

lemma get_checkpoint_ns_id [simp]: "get_checkpoint_ns (c\<lparr>sc_checkpoint_id := i\<rparr>) = get_checkpoint_ns c"
  by (simp add: get_checkpoint_ns_def)

lemma lookup_cleanup_disabled:
  "sv_ttl s = saver_ttl_disabled \<Longrightarrow> lookup_tuples (lazy_cleanup parse now tid ns s) = lookup_tuples s"
  by (auto simp: fun_eq_iff surviving_disabled saver_ttl_disabled_def)

lemma cleanup_writes_disabled [simp]:
  "sv_ttl s = saver_ttl_disabled \<Longrightarrow> sv_writes (lazy_cleanup parse now tid ns s) = sv_writes s"
  by (simp add: saver_ttl_disabled_def)

text \<open>A checkpoint saved under a new identifier is found under it.\<close>

lemma select_fresh:
  assumes "\<forall>t \<in> set ts. tuple_id t \<noteq> tuple_id x"
  shows "select_tuple (c\<lparr>sc_checkpoint_id := Some (tuple_id x)\<rparr>) (sort_checkpoints (ts @ [x])) = Some x"
proof -
  have "find (\<lambda>t. tuple_id t = tuple_id x) (sort_checkpoints (ts @ [x])) = Some x"
    using assms by (intro find_unique) auto
  then show ?thesis by (simp add: select_tuple_def)
qed

section \<open>Properties\<close>





text \<open>
  Operations on one thread and namespace leave the checkpoints of every other as they are.
\<close>

theorem saver_isolation:
  assumes "case ev of SvPut c _ _ \<Rightarrow> (sc_thread_id c, get_checkpoint_ns c) \<noteq> (Some tid, ns)
      | SvPutWrites _ _ _ \<Rightarrow> True | SvGet _ c \<Rightarrow> (sc_thread_id c, get_checkpoint_ns c) \<noteq> (Some tid, ns)
      | SvList _ c _ \<Rightarrow> (sc_thread_id c, get_checkpoint_ns c) \<noteq> (Some tid, ns) | SvSetTtl _ \<Rightarrow> True"
  shows "lookup_tuples (saver_step parse ev s) tid ns = lookup_tuples s tid ns"
  using assms
  by (auto simp: saver_step_def saver_ops get_thread_id_def Let_def split: saver_event.splits sum.splits option.splits)

text \<open>
  The cleanup of one thread destroys the recorded writes of all others: when a checkpoint limit is set and any
  checkpoint of a thread and namespace has expired, loading from it drops every recorded write whose thread is
  another or whose checkpoint identifier is not literally the namespace.
\<close>

theorem cleanup_loses_writes:
  assumes "stt_max_checkpoints (sv_ttl s) = Some mx" and "sc_thread_id c = Some tid"
    and "\<exists>t \<in> set (lookup_tuples s tid (get_checkpoint_ns c)). ttl_is_expired parse now (sv_ttl s) (tuple_created t)"
    and "thread \<noteq> tid \<or> i \<noteq> get_checkpoint_ns c"
  shows "im_get (sv_writes (fst (saver_get_tuple parse now c s))) (thread, i, ns) = None"
proof -
  let ?ts = "lookup_tuples s tid (get_checkpoint_ns c)"
  have "length (filter (\<lambda>t. \<not> ttl_is_expired parse now (sv_ttl s) (tuple_created t)) ?ts) < length ?ts"
    using assms(3) by (auto intro: length_filter_less)
  moreover have "im_get (filter (\<lambda>((th, n, k), _). th = tid \<and> n = get_checkpoint_ns c \<and> k \<in> K) m) (thread, i, ns) = None" for m :: "(string \<times> string \<times> string, pending_write list) imap" and K
    using assms(4) by (auto simp: im_get_None_iff im_contains_def im_keys_def)
  ultimately show ?thesis
    using assms(1,2) by (simp add: saver_get_tuple_def get_thread_id_def Let_def lazy_cleanup_def)
qed

theorem cleanup_loses_writes_witness:
  "\<exists>s. im_get (sv_writes s) (''other'', ''x'', []) = Some [\<lparr>pw_task_id = ''k'', pw_channel = ''m'', pw_value = JNum 1\<rparr>] \<and>
     im_get (sv_writes (fst (saver_get_tuple (\<lambda>_. Some 0) 9 (tp_config (example_tuple ''a'' JNull [])) s))) (''other'', ''x'', []) = None"
proof -
  let ?s = "\<lparr>sv_storage = [(''t'', [([], [example_tuple ''a'' JNull []])])],
     sv_writes = [((''other'', ''x'', []), [\<lparr>pw_task_id = ''k'', pw_channel = ''m'', pw_value = JNum 1\<rparr>])],
     sv_ttl = \<lparr>stt_default_ttl = Some 5, stt_sweep_interval = 1, stt_max_checkpoints = Some 10\<rparr>\<rparr>"
  have "im_get (sv_writes (fst (saver_get_tuple (\<lambda>_. Some 0) 9 (tp_config (example_tuple ''a'' JNull [])) ?s))) (''other'', ''x'', []) = None"
    by (rule cleanup_loses_writes [where mx = 10 and tid = "''t''"])
      (simp_all add: example_tuple_def lookup_tuples_def get_checkpoint_ns_def im_get_Cons ttl_is_expired_def)
  then show ?thesis by (intro exI [of _ ?s]) (simp add: im_get_Cons)
qed

text \<open>
  The \<open>before\<close> filter keeps what precedes the given checkpoint in the newest-first list, so it returns
  newer checkpoints, not older ones.
\<close>

theorem list_before_is_newer:
  assumes "saver_inv s" and "ts = lookup_tuples s tid ns" and "b \<in> set ts"
    and "f = \<lparr>cf_source = None, cf_step_gte = None, cf_step_lte = None, cf_before = Some (tuple_id b), cf_after = None, cf_limit = None\<rparr>"
  shows "\<exists>b' \<in> set ts. tuple_id b' = tuple_id b \<and> (\<forall>t \<in> set (apply_filter f ts). newer_eq t b')"
proof -
  obtain pre x post where ts: "ts = pre @ x # post" "tuple_id x = tuple_id b" "\<forall>y \<in> set pre. tuple_id y \<noteq> tuple_id b"
    using split_list_first_prop [of ts "\<lambda>t. tuple_id t = tuple_id b"] assms(3) by auto
  then have "position (\<lambda>t. tuple_id t = tuple_id b) ts = Some (length pre)" by (simp add: position_Some)
  then have "apply_filter f ts = pre" by (simp add: apply_filter_def assms(4) filter_opt_def ts(1))
  moreover have "sorted_wrt newer_eq ts" using assms(1,2) by (simp add: saver_inv_def)
  ultimately show ?thesis using ts by (auto simp: sorted_wrt_append)
qed

end
