(* ===== verification/Graph_Api.thy ===== *)
theory Graph_Api
  imports Run_Config Memory_Saver Engine
begin

text \<open>
  \<open>juncture-core/src/graph/compiled.rs\<close>: what a program does with a compiled graph -- run it (\<open>invoke\<close>, the
  streaming driver, \<open>resume\<close>) and read or change its stored state (\<open>get_state\<close>, \<open>get_state_history\<close>,
  \<open>update_state\<close>, \<open>bulk_update_state\<close>).  A checkpointer is a record of operations on a state of its own;
  the serializers of the state type are the record \<open>state_codec\<close>.  A panic is \<open>None\<close>.
\<close>

section \<open>Interfaces\<close>

record 's state_codec =
  sd_schema_version :: nat
  sd_migrate :: "nat \<Rightarrow> json \<Rightarrow> json"
  sd_decode :: "json \<Rightarrow> (string, 's) result"
  sd_encode :: "'s \<Rightarrow> (string, json) result"

record 'c saver_api =
  sa_get_tuple :: "saver_config \<Rightarrow> 'c \<Rightarrow> 'c \<times> (core_checkpoint_error, checkpoint_tuple option) result"
  sa_list :: "saver_config \<Rightarrow> checkpoint_filter option \<Rightarrow> 'c \<Rightarrow> 'c \<times> (core_checkpoint_error, checkpoint_tuple list) result"
  sa_put :: "saver_config \<Rightarrow> stored_checkpoint \<Rightarrow> checkpoint_metadata \<Rightarrow> 'c \<Rightarrow> 'c \<times> (core_checkpoint_error, saver_config) result"

fun checkpoint_error_display :: "core_checkpoint_error \<Rightarrow> string" where
  "checkpoint_error_display (CkSerialize m) = ''Serialization failed: '' @ m"
| "checkpoint_error_display (CkDeserialize m) = ''Deserialization failed: '' @ m"
| "checkpoint_error_display (CkNotFound t i) = ''Checkpoint not found: thread='' @ t @ '', id='' @ i"
| "checkpoint_error_display (CkStorage m) = ''Storage error: '' @ m"
| "checkpoint_error_display (CkOther m) = ''Checkpoint error: '' @ m"

definition checkpoint_err :: "(core_checkpoint_error, 'a) result \<Rightarrow> (juncture_error, 'a) result" where
  "checkpoint_err r = (case r of Inl e \<Rightarrow> Err (CheckpointError (checkpoint_error_display e)) | Inr v \<Rightarrow> Ok v)"

text \<open>The in-memory checkpointer behind that interface, at a time \<open>now\<close>.\<close>

definition memory_saver_api :: "(string \<Rightarrow> int option) \<Rightarrow> int \<Rightarrow> memory_saver saver_api" where
  "memory_saver_api parse now = \<lparr>sa_get_tuple = saver_get_tuple parse now, sa_list = saver_list parse now, sa_put = saver_put\<rparr>"

section \<open>Stored state\<close>

definition deserialize_with_migration :: "'s state_codec \<Rightarrow> stored_checkpoint \<Rightarrow> (juncture_error, 's) result" where
  "deserialize_with_migration cd ck = (let
     vs = (if sck_schema_version ck \<noteq> sd_schema_version cd then sd_migrate cd (sck_schema_version ck) (sck_channel_values ck)
           else sck_channel_values ck)
     in (case sd_decode cd vs of
           Inl e \<Rightarrow> Err (CheckpointError (''failed to deserialize state: '' @ e))
         | Inr s \<Rightarrow> Ok s))"

record 's state_snapshot =
  sn_values :: 's
  sn_next :: "string list"
  sn_config :: saver_config
  sn_metadata :: checkpoint_metadata
  sn_created_at :: string
  sn_parent_config :: "saver_config option"

definition snapshot_of :: "checkpoint_tuple \<Rightarrow> 's \<Rightarrow> 's state_snapshot" where
  "snapshot_of t s = \<lparr>sn_values = s, sn_next = map cpt_node (sck_pending_tasks (tp_checkpoint t)), sn_config = tp_config t,
     sn_metadata = tp_metadata t, sn_created_at = sck_created_at (tp_checkpoint t), sn_parent_config = tp_parent_config t\<rparr>"

definition get_state ::
    "'s state_codec \<Rightarrow> 'c saver_api option \<Rightarrow> saver_config \<Rightarrow> 'c \<Rightarrow> 'c \<times> (juncture_error, 's state_snapshot option) result" where
  "get_state cd cp config c = (case cp of
       None \<Rightarrow> (c, Err (CheckpointError ''no checkpointer configured for get_state''))
     | Some api \<Rightarrow> (case sa_get_tuple api config c of (c', r) \<Rightarrow>
         (c', try_bind (checkpoint_err r) (\<lambda>t. case t of
              None \<Rightarrow> Ok None
            | Some t \<Rightarrow> try_bind (deserialize_with_migration cd (tp_checkpoint t)) (\<lambda>s. Ok (Some (snapshot_of t s)))))))"

fun snapshots :: "'s state_codec \<Rightarrow> checkpoint_tuple list \<Rightarrow> (juncture_error, 's state_snapshot list) result" where
  "snapshots cd [] = Ok []"
| "snapshots cd (t # ts) = try_bind (deserialize_with_migration cd (tp_checkpoint t)) (\<lambda>s.
     try_bind (snapshots cd ts) (\<lambda>rest. Ok (snapshot_of t s # rest)))"

definition get_state_history ::
    "'s state_codec \<Rightarrow> 'c saver_api option \<Rightarrow> saver_config \<Rightarrow> checkpoint_filter option \<Rightarrow> 'c \<Rightarrow> 'c \<times> (juncture_error, 's state_snapshot list) result" where
  "get_state_history cd cp config f c = (case cp of
       None \<Rightarrow> (c, Err (CheckpointError ''no checkpointer configured for get_state_history''))
     | Some api \<Rightarrow> (case sa_list api config f c of (c', r) \<Rightarrow> (c', try_bind (checkpoint_err r) (snapshots cd))))"

record 'u state_update =
  su_update :: 'u
  su_label :: "string option"
  su_as_node :: "string option"

definition record_writer :: "'u state_update \<Rightarrow> (string, json) imap \<Rightarrow> (string, json) imap" where
  "record_writer u writes = (case su_as_node u of Some n \<Rightarrow> im_insert n JNull writes | None \<Rightarrow> writes)"

text \<open>\<open>metadata.step + 1\<close> on an \<open>i64\<close>.\<close>

definition next_step :: "int \<Rightarrow> int option" where
  "next_step n = (if n = 2 ^ 63 - 1 then None else Some (n + 1))"

definition put_updated ::
    "'s state_codec \<Rightarrow> 'c saver_api \<Rightarrow> string \<Rightarrow> saver_config \<Rightarrow> checkpoint_tuple \<Rightarrow> 's \<Rightarrow> (string, json) imap \<Rightarrow> 'c
       \<Rightarrow> ('c \<times> (juncture_error, saver_config) result) option" where
  "put_updated cd api what config t s writes c = (case sd_encode cd s of
       Inl e \<Rightarrow> Some (c, Err (CheckpointError (''failed to serialize '' @ what @ '' state: '' @ e)))
     | Inr v \<Rightarrow> map_option (\<lambda>step.
         case sa_put api config ((tp_checkpoint t)\<lparr>sck_channel_values := v\<rparr>)
           ((tp_metadata t)\<lparr>md_source := SourceUpdate, md_step := step, md_writes := writes\<rparr>) c of
           (c', r) \<Rightarrow> (c', checkpoint_err r)) (next_step (md_step (tp_metadata t))))"

definition update_state ::
    "('s, 'u) state_impl \<Rightarrow> 's state_codec \<Rightarrow> 'c saver_api option \<Rightarrow> saver_config \<Rightarrow> 'u state_update \<Rightarrow> 'c
       \<Rightarrow> ('c \<times> (juncture_error, saver_config) result) option" where
  "update_state S cd cp config u c = (case cp of
       None \<Rightarrow> Some (c, Err (CheckpointError ''no checkpointer configured for update_state''))
     | Some api \<Rightarrow> (case sa_get_tuple api config c of (c1, r) \<Rightarrow>
         (case checkpoint_err r of
            Inl e \<Rightarrow> Some (c1, Err e)
          | Inr None \<Rightarrow> Some (c1, Err (CheckpointError ''no checkpoint found for update_state''))
          | Inr (Some t) \<Rightarrow> (case deserialize_with_migration cd (tp_checkpoint t) of
                Inl e \<Rightarrow> Some (c1, Err e)
              | Inr s \<Rightarrow> put_updated cd api ''updated'' config t (fst (st_apply S s (su_update u)))
                  (record_writer u (md_writes (tp_metadata t))) c1))))"

definition bulk_update_state ::
    "('s, 'u) state_impl \<Rightarrow> 's state_codec \<Rightarrow> 'c saver_api option \<Rightarrow> saver_config \<Rightarrow> 'u state_update list \<Rightarrow> 'c
       \<Rightarrow> ('c \<times> (juncture_error, saver_config) result) option" where
  "bulk_update_state S cd cp config us c = (case cp of
       None \<Rightarrow> Some (c, Err (CheckpointError ''no checkpointer configured for bulk_update_state''))
     | Some api \<Rightarrow> (case sa_get_tuple api config c of (c1, r) \<Rightarrow>
         (case checkpoint_err r of
            Inl e \<Rightarrow> Some (c1, Err e)
          | Inr None \<Rightarrow> Some (c1, Err (CheckpointError ''no checkpoint found for bulk_update_state''))
          | Inr (Some t) \<Rightarrow> (case deserialize_with_migration cd (tp_checkpoint t) of
                Inl e \<Rightarrow> Some (c1, Err e)
              | Inr s \<Rightarrow> put_updated cd api ''bulk-updated'' config t (fold (\<lambda>u s. fst (st_apply S s (su_update u))) us s)
                  (fold record_writer us (md_writes (tp_metadata t))) c1))))"

section \<open>Building the loop of a run\<close>

type_synonym ('s, 'u) graph_loop = "('s, ('s, 'u) node) pregel_loop"

definition effective_config :: "('s, 'u, 'ck) compiled_graph \<Rightarrow> runnable_config \<Rightarrow> runnable_config" where
  "effective_config g config = (let
     rc = cfg_run config;
     rc1 = (if rc_interrupt_before rc = None \<and> cg_interrupt_before g \<noteq> [] then rc\<lparr>rc_interrupt_before := Some (cg_interrupt_before g)\<rparr> else rc);
     rc2 = (if rc_interrupt_after rc1 = None \<and> cg_interrupt_after g \<noteq> [] then rc1\<lparr>rc_interrupt_after := Some (cg_interrupt_after g)\<rparr> else rc1)
     in config\<lparr>cfg_run := rc2\<rparr>)"

definition wire_budget :: "nat \<Rightarrow> runnable_config \<Rightarrow> ('s, 'u) graph_loop \<Rightarrow> ('s, 'u) graph_loop" where
  "wire_budget now config pl = (case cfg_budget config of Some b \<Rightarrow> set_budget_tracker (budget_tracker_new now b) pl | None \<Rightarrow> pl)"

text \<open>The loop of \<open>stream_with_config\<close>: handlers, retries and timeouts, but neither checkpointer nor breakers nor fallbacks.\<close>

definition stream_loop ::
    "(nat \<Rightarrow> string) \<Rightarrow> nat \<Rightarrow> 's \<Rightarrow> ('s, 'u, 'ck) compiled_graph \<Rightarrow> runnable_config \<Rightarrow> ('s, 'u) graph_loop option" where
  "stream_loop fresh now s g config = map_option
     (\<lambda>pl. wire_budget now config (pl\<lparr>pl_retries := build_retry_policy_map g, pl_timeouts := build_timeout_policy_map g\<rparr>))
     (with_error_handlers fresh s (cg_nodes g) (cg_trigger_table g) (cfg_run config) 64 (build_error_handler_map g))"

text \<open>The loop of \<open>invoke_async_inner\<close> has breakers and fallbacks as well.\<close>

definition invoke_loop ::
    "(nat \<Rightarrow> string) \<Rightarrow> nat \<Rightarrow> 's \<Rightarrow> ('s, 'u, 'ck) compiled_graph \<Rightarrow> runnable_config \<Rightarrow> ('s, 'u) graph_loop option" where
  "invoke_loop fresh now s g config = map_option
     (\<lambda>pl. (set_circuit_breaker_policies (build_circuit_breaker_map g) pl)\<lparr>pl_fallbacks := build_fallback_map g\<rparr>)
     (stream_loop fresh now s g config)"

text \<open>The loop of \<open>resume\<close>, \<open>resume_stream\<close> and \<open>execute_with_emitter\<close> has the checkpointer.\<close>

definition resume_loop ::
    "(nat \<Rightarrow> string) \<Rightarrow> nat \<Rightarrow> 's \<Rightarrow> ('s, 'u, 'ck) compiled_graph \<Rightarrow> runnable_config \<Rightarrow> ('s, 'u) graph_loop option" where
  "resume_loop fresh now s g config = map_option (\<lambda>pl. pl\<lparr>pl_checkpointer := cg_checkpointer g \<noteq> None\<rparr>)
     (stream_loop fresh now s g config)"

section \<open>Running a graph\<close>

text \<open>
  What surrounds a run: the worlds of its iterations (nodes see the previous result), identifiers, the clock,
  the hasher and printer behind cache keys, and the conversion to the output type with its serializer.
\<close>

record ('s, 'u, 'o) run_world =
  rw_worlds :: "json option \<Rightarrow> nat \<Rightarrow> ('s, 'u, ('s, 'u) node) world"
  rw_fresh :: "nat \<Rightarrow> string"
  rw_run_id :: string
  rw_uuid :: string
  rw_start :: nat
  rw_finish :: nat
  rw_render :: "json \<Rightarrow> string"
  rw_hasher :: "string \<Rightarrow> string option \<Rightarrow> nat"
  rw_output :: "'s \<Rightarrow> 'o"
  rw_output_json :: "'o \<Rightarrow> json option"

record ('s, 'o) graph_output =
  go_value :: 's
  go_output :: 'o
  go_interrupts :: "(string \<times> json \<times> string option) list"
  go_steps :: nat
  go_run_id :: string
  go_checkpoint_id :: "string option"

definition to_option :: "('e, 'a) result \<Rightarrow> 'a option" where
  "to_option r = (case r of Inl _ \<Rightarrow> None | Inr v \<Rightarrow> Some v)"

text \<open>The input of the cache key, when there is a cache and the input serializes; then the lookup.\<close>

definition cache_lookup ::
    "('s, 'u, 'o) run_world \<Rightarrow> 's state_codec \<Rightarrow> runnable_config \<Rightarrow> 's \<Rightarrow> cache_policy option
       \<Rightarrow> cache_policy option \<times> string option \<times> json option" where
  "cache_lookup rw cd config s policy = (case (policy, to_option (sd_encode cd s)) of
       (Some p, Some v) \<Rightarrow> (let key = generate_key (rw_render rw) (rw_hasher rw) v config p in
         (case cache_get (rw_start rw) key p of (p', hit) \<Rightarrow> (Some p', Some key, hit)))
     | _ \<Rightarrow> (policy, None, None))"

definition load_previous :: "'c saver_api option \<Rightarrow> saver_config \<Rightarrow> json option \<Rightarrow> 'c \<Rightarrow> 'c \<times> json option" where
  "load_previous cp config prev c = (case cp of
       None \<Rightarrow> (c, prev)
     | Some api \<Rightarrow> (case sa_get_tuple api config c of
           (c', Inr (Some t)) \<Rightarrow> (c', md_return_value (tp_metadata t))
         | (c', _) \<Rightarrow> (c', prev)))"

definition cache_store :: "('s, 'u, 'o) run_world \<Rightarrow> 's state_codec \<Rightarrow> string option \<Rightarrow> 's \<Rightarrow> cache_policy option \<Rightarrow> cache_policy option" where
  "cache_store rw cd key s policy = (case (policy, key, to_option (sd_encode cd s)) of
       (Some p, Some k, Some v) \<Rightarrow> Some (cache_put (rw_finish rw) k v p)
     | _ \<Rightarrow> policy)"

definition store_return_value :: "'c saver_api option \<Rightarrow> saver_config \<Rightarrow> json option \<Rightarrow> 'c \<Rightarrow> 'c" where
  "store_return_value cp config rv c = (case (cp, rv) of
       (Some api, Some v) \<Rightarrow> (case sa_get_tuple api config c of
           (c', Inr (Some t)) \<Rightarrow> fst (sa_put api config (tp_checkpoint t) ((tp_metadata t)\<lparr>md_return_value := Some v\<rparr>) c')
         | (c', _) \<Rightarrow> c')
     | _ \<Rightarrow> c)"

text \<open>
  \<open>invoke_async_inner\<close>.  Outer \<open>None\<close>: out of fuel; \<open>Some None\<close>: a panic.  The loop has no checkpointer and so
  leaves the identifier in its configuration alone.
\<close>

definition invoke_async_inner ::
    "nat \<Rightarrow> ('s, 'u) state_impl \<Rightarrow> 's state_codec \<Rightarrow> ('s, 'u, 'o) run_world \<Rightarrow> ('s, 'u, 'c saver_api) compiled_graph \<Rightarrow> runnable_config
       \<Rightarrow> 's \<Rightarrow> 'c \<times> cache_policy option \<Rightarrow> (('c \<times> cache_policy option) \<times> checkpoint list \<times> (juncture_error, ('s, 'o) graph_output) result) option option" where
  "invoke_async_inner fuel S cd rw g config s env = (case env of (c, policy) \<Rightarrow>
     (case cache_lookup rw cd config s policy of
        (policy1, key, Some cached) \<Rightarrow> Some (Some ((c, policy1), [], (case sd_decode cd cached of
            Inl e \<Rightarrow> Err (ExecutionError (''node-result cache deserialize failed: '' @ e))
          | Inr s' \<Rightarrow> Ok \<lparr>go_value = s', go_output = rw_output rw s', go_interrupts = [], go_steps = 0,
                go_run_id = (case cfg_run_id config of Some i \<Rightarrow> i | None \<Rightarrow> rw_uuid rw), go_checkpoint_id = sc_checkpoint_id (cfg_saver config)\<rparr>)))
      | (policy1, key, None) \<Rightarrow> (case load_previous (cg_checkpointer g) (cfg_saver config) (cfg_previous config) c of (c1, prev) \<Rightarrow>
          (case invoke_loop (rw_fresh rw) (rw_start rw) s g (config\<lparr>cfg_previous := prev\<rparr>) of
             None \<Rightarrow> Some None
           | Some pl \<Rightarrow> (case run_loop fuel S (rw_worlds rw prev) 0 pl of
               None \<Rightarrow> None
             | Some None \<Rightarrow> Some None
             | Some (Some (pl', Inl e)) \<Rightarrow> Some (Some ((c1, policy1), pl_saved pl', Err e))
             | Some (Some (pl', Inr _)) \<Rightarrow> (let s' = pl_state pl'; out = rw_output rw s' in
                 Some (Some ((store_return_value (cg_checkpointer g) (cfg_saver config) (rw_output_json rw out) c1,
                              cache_store rw cd key s' policy1), pl_saved pl',
                   Ok \<lparr>go_value = s', go_output = out, go_interrupts = [], go_steps = pl_step pl', go_run_id = rw_run_id rw,
                       go_checkpoint_id = sc_checkpoint_id (cfg_saver config)\<rparr>)))))))) "

definition invoke ::
    "nat \<Rightarrow> ('s, 'u) state_impl \<Rightarrow> 's state_codec \<Rightarrow> ('s, 'u, 'o) run_world \<Rightarrow> ('s, 'u, 'c saver_api) compiled_graph \<Rightarrow> runnable_config
       \<Rightarrow> 's \<Rightarrow> 'c \<times> cache_policy option \<Rightarrow> (('c \<times> cache_policy option) \<times> checkpoint list \<times> (juncture_error, ('s, 'o) graph_output) result) option option" where
  "invoke fuel S cd rw g config s env = invoke_async_inner fuel S cd rw g (effective_config g config) s env"

section \<open>Resuming\<close>

text \<open>\<open>Debug\<close> output, for strings that need no escapes.\<close>

definition opt_debug :: "string option \<Rightarrow> string" where
  "opt_debug o' = (case o' of None \<Rightarrow> ''None'' | Some s \<Rightarrow> ''Some('' @ CHR 34 # s @ [CHR 34, CHR '')''])"

fun source_debug :: "checkpoint_source \<Rightarrow> string" where
  "source_debug SourceInput = ''Input''"
| "source_debug SourceLoop = ''Loop''"
| "source_debug SourceUpdate = ''Update''"
| "source_debug SourceFork = ''Fork''"
| "source_debug (SourceInterrupt n) = ''Interrupt { node: '' @ CHR 34 # n @ CHR 34 # '' }''"

fun is_interrupt_source :: "checkpoint_source \<Rightarrow> bool" where
  "is_interrupt_source (SourceInterrupt _) = True"
| "is_interrupt_source _ = False"

text \<open>Loading the checkpoint to resume from: \<open>what\<close> is the name of the entry point in the messages.\<close>

definition load_for_resume ::
    "string \<Rightarrow> 's state_codec \<Rightarrow> 'c saver_api option \<Rightarrow> saver_config \<Rightarrow> 'c \<Rightarrow> 'c \<times> (juncture_error, 's) result" where
  "load_for_resume what cd cp config c = (case cp of
       None \<Rightarrow> (c, Err (CheckpointError (''no checkpointer configured for '' @ what)))
     | Some api \<Rightarrow> (case sa_get_tuple api config c of
         (c', Inl e) \<Rightarrow> (c', Err (CheckpointError (''failed to load checkpoint: '' @ checkpoint_error_display e)))
       | (c', Inr None) \<Rightarrow> (c', Err (CheckpointError (''checkpoint not found: thread_id='' @ opt_debug (sc_thread_id config) @
             '', checkpoint_id='' @ opt_debug (sc_checkpoint_id config))))
       | (c', Inr (Some t)) \<Rightarrow> (c',
           if \<not> is_interrupt_source (md_source (tp_metadata t))
           then Err (CheckpointError (what @ ''() requires checkpoint from Interrupt source, got '' @ source_debug (md_source (tp_metadata t))))
           else deserialize_with_migration cd (tp_checkpoint t))))"

definition resume_config :: "string \<Rightarrow> ('s, 'u, 'ck) compiled_graph \<Rightarrow> runnable_config \<Rightarrow> resume_value \<Rightarrow> runnable_config" where
  "resume_config uuid g config rv = (let e = (effective_config g config)\<lparr>cfg_resume_value := Some rv\<rparr> in
     if cfg_run_id e = None then e\<lparr>cfg_run_id := Some uuid\<rparr> else e)"

definition resume ::
    "nat \<Rightarrow> ('s, 'u) state_impl \<Rightarrow> 's state_codec \<Rightarrow> ('s, 'u, 'o) run_world \<Rightarrow> ('s, 'u, 'c saver_api) compiled_graph \<Rightarrow> runnable_config
       \<Rightarrow> resume_value \<Rightarrow> 'c \<Rightarrow> ('c \<times> checkpoint list \<times> (juncture_error, ('s, 'o) graph_output) result) option option" where
  "resume fuel S cd rw g config rv c = (case load_for_resume ''resume'' cd (cg_checkpointer g) (cfg_saver config) c of
       (c1, Inl e) \<Rightarrow> Some (Some (c1, [], Err e))
     | (c1, Inr s) \<Rightarrow> (case resume_loop (rw_fresh rw) (rw_start rw) s g (resume_config (rw_uuid rw) g config rv) of
         None \<Rightarrow> Some None
       | Some pl \<Rightarrow> (case run_loop fuel S (rw_worlds rw (cfg_previous config)) 0 pl of
           None \<Rightarrow> None
         | Some None \<Rightarrow> Some None
         | Some (Some (pl', Inl e)) \<Rightarrow> Some (Some (c1, pl_saved pl', Err e))
         | Some (Some (pl', Inr _)) \<Rightarrow> Some (Some (c1, pl_saved pl',
             Ok \<lparr>go_value = pl_state pl', go_output = rw_output rw (pl_state pl'), go_interrupts = [], go_steps = pl_step pl',
                 go_run_id = rw_run_id rw, go_checkpoint_id = sc_checkpoint_id (cfg_saver config)\<rparr>)))))"

definition resume_single ::
    "nat \<Rightarrow> ('s, 'u) state_impl \<Rightarrow> 's state_codec \<Rightarrow> ('s, 'u, 'o) run_world \<Rightarrow> ('s, 'u, 'c saver_api) compiled_graph \<Rightarrow> runnable_config
       \<Rightarrow> json \<Rightarrow> 'c \<Rightarrow> ('c \<times> checkpoint list \<times> (juncture_error, ('s, 'o) graph_output) result) option option" where
  "resume_single fuel S cd rw g config v c = resume fuel S cd rw g config (ResumeSingle v) c"

section \<open>The streaming driver\<close>

text \<open>What \<open>spawn_streaming_loop\<close> and \<open>stream_with_config\<close> send themselves; events of the loop are relayed beside it.\<close>

datatype 's stream_item = ItemValues 's nat | ItemEnd 's | ItemErr juncture_error

definition values_item :: "bool \<Rightarrow> (nat \<Rightarrow> bool) \<Rightarrow> ('s, 'n) pregel_loop \<Rightarrow> 's stream_item list" where
  "values_item values_mode skip pl = (if values_mode \<and> \<not> skip (pl_step pl) then [ItemValues (pl_state pl) (pl_step pl)] else [])"

fun stream_run ::
    "nat \<Rightarrow> ('s, 'u) state_impl \<Rightarrow> (nat \<Rightarrow> ('s, 'u, 'n) world) \<Rightarrow> nat \<Rightarrow> bool \<Rightarrow> (nat \<Rightarrow> bool) \<Rightarrow> ('s, 'n) pregel_loop
       \<Rightarrow> 's stream_item list option option" where
  "stream_run 0 S worlds k vm skip pl = None"
| "stream_run (Suc fuel) S worlds k vm skip pl = (case tick S (worlds k) pl of
       (pl1, Inr True) \<Rightarrow> (case loop_execute_superstep (worlds k) pl1 of
           None \<Rightarrow> Some None
         | Some (pl2, Inl e) \<Rightarrow> Some (Some (values_item vm skip pl1 @ [ItemEnd (pl_state pl2), ItemErr e]))
         | Some (pl2, Inr r) \<Rightarrow> (case after_tick S (worlds k) r pl2 of
               None \<Rightarrow> Some None
             | Some (pl3, Inl e) \<Rightarrow> Some (Some (values_item vm skip pl1 @ [ItemEnd (pl_state pl3), ItemErr e]))
             | Some (pl3, Inr _) \<Rightarrow> map_option (map_option (\<lambda>items. values_item vm skip pl1 @ items))
                 (stream_run fuel S worlds (k + 1) vm skip pl3)))
     | (pl1, _) \<Rightarrow> Some (Some [ItemEnd (pl_state pl1)]))"

definition is_values :: "'s stream_item \<Rightarrow> bool" where
  "is_values i = (case i of ItemValues _ _ \<Rightarrow> True | _ \<Rightarrow> False)"

lemma values_item_values: "list_all is_values (values_item vm skip pl)"
  by (simp add: values_item_def is_values_def)

section \<open>What the checkpointer promises\<close>

text \<open>
  The law a client of a checkpointer relies on: a saved checkpoint is what loading by the returned configuration
  gives.  \<open>admits\<close> says for which stores, configurations and checkpoints a provider promises it.
\<close>

locale checkpointer =
  fixes api :: "'c saver_api"
    and admits :: "'c \<Rightarrow> saver_config \<Rightarrow> stored_checkpoint \<Rightarrow> bool"
  assumes put_get: "admits c config ck \<Longrightarrow> sa_put api config ck md c = (c', Inr config') \<Longrightarrow>
      \<exists>c'' t. sa_get_tuple api config' c' = (c'', Inr (Some t)) \<and> tp_checkpoint t = ck \<and> tp_metadata t = md"
begin

lemma get_state_after_put:
  assumes "admits c config ck" and "sa_put api config ck md c = (c', Inr config')"
    and "deserialize_with_migration cd ck = Inr s"
  shows "\<exists>sn. snd (get_state cd (Some api) config' c') = Inr (Some sn) \<and> sn_values sn = s \<and> sn_metadata sn = md \<and>
      sn_next sn = map cpt_node (sck_pending_tasks ck)"
proof -
  from put_get [OF assms(1,2)] obtain c'' t where
    "sa_get_tuple api config' c' = (c'', Inr (Some t))" "tp_checkpoint t = ck" "tp_metadata t = md" by blast
  with assms(3) show ?thesis by (simp add: get_state_def checkpoint_err_def snapshot_of_def)
qed

end

definition known_id :: "memory_saver \<Rightarrow> saver_config \<Rightarrow> string \<Rightarrow> bool" where
  "known_id c config i \<longleftrightarrow> (\<exists>tid t. sc_thread_id config = Some tid \<and> t \<in> set (lookup_tuples c tid (get_checkpoint_ns config)) \<and> tuple_id t = i)"

lemma put_requires_thread: "saver_put config ck md c = (c', Inr config') \<Longrightarrow> \<exists>tid. sc_thread_id config = Some tid"
  by (auto simp: saver_put_def get_thread_id_def split: option.splits)

interpretation memory: checkpointer "memory_saver_api parse now"
    "\<lambda>c config ck. sv_ttl c = saver_ttl_disabled \<and> \<not> known_id c config (sck_id ck)" for parse now
proof
  fix c config ck md c' config'
  assume admits: "sv_ttl c = saver_ttl_disabled \<and> \<not> known_id c config (sck_id ck)"
    and put: "sa_put (memory_saver_api parse now) config ck md c = (c', Inr config')"
  from admits have ttl: "sv_ttl c = saver_ttl_disabled" and new: "\<not> known_id c config (sck_id ck)" by simp_all
  from put have put': "saver_put config ck md c = (c', Inr config')" by (simp add: memory_saver_api_def)
  then obtain tid where tid: "sc_thread_id config = Some tid" using put_requires_thread by blast
  let ?ns = "get_checkpoint_ns config"
  let ?t = "\<lparr>tp_config = config, tp_checkpoint = ck, tp_metadata = md, tp_pending_writes = [], tp_parent_config = None\<rparr>"
  have c': "c' = set_tuples tid ?ns (sort_checkpoints (lookup_tuples c tid ?ns @ [?t])) c"
    and config': "config' = config\<lparr>sc_checkpoint_id := Some (tuple_id ?t)\<rparr>"
    using put' by (auto simp: saver_put_Ok [OF tid] tuple_id_def)
  have "select_tuple config' (lookup_tuples c' tid ?ns) = Some ?t"
    unfolding c' config' using select_fresh [of "lookup_tuples c tid ?ns" ?t config] new tid by (auto simp: known_id_def tuple_id_def)
  then have "saver_get_tuple parse now config' c' = (lazy_cleanup parse now tid ?ns c', Ok (Some (attach_writes c' tid ?ns ?t)))"
    using tid ttl by (subst saver_get_disabled [of config' tid]) (simp_all add: c' config')
  then show "\<exists>c'' t. sa_get_tuple (memory_saver_api parse now) config' c' = (c'', Inr (Some t)) \<and> tp_checkpoint t = ck \<and> tp_metadata t = md"
    by (simp add: memory_saver_api_def)
qed

section \<open>Saving under the loaded identifier\<close>

lemma memory_resave:
  assumes "sc_thread_id config = Some tid" and "sv_ttl c = saver_ttl_disabled" and "saver_inv c"
    and got: "saver_get_tuple parse now config c = (c1, Inr (Some t))"
    and same: "sck_id ck = sck_id (tp_checkpoint t)" "sck_created_at ck = sck_created_at (tp_checkpoint t)"
    and put: "saver_put config ck md c1 = (c', Inr config')"
  shows "snd (saver_get_tuple parse now' config c') = Inr (Some t) \<and> snd (saver_get_tuple parse now' config' c') = Inr (Some t) \<and>
    length (lookup_tuples c' tid (get_checkpoint_ns config)) = Suc (length (lookup_tuples c tid (get_checkpoint_ns config)))"
proof -
  let ?ns = "get_checkpoint_ns config" and ?x = "\<lparr>tp_config = config, tp_checkpoint = ck, tp_metadata = md, tp_pending_writes = [], tp_parent_config = None\<rparr>"
  let ?ts = "lookup_tuples c tid ?ns"
  from got obtain t0 where c1: "c1 = lazy_cleanup parse now tid ?ns c" and sel: "select_tuple config ?ts = Some t0"
    and t: "t = attach_writes c tid ?ns t0"
    unfolding saver_get_disabled [OF assms(1,2)] by auto
  have c': "c' = set_tuples tid ?ns (sort_checkpoints (?ts @ [?x])) c1" and config': "config' = config\<lparr>sc_checkpoint_id := Some (sck_id ck)\<rparr>"
    using put unfolding saver_put_Ok [OF assms(1)] by (auto simp: c1 lookup_cleanup_disabled [OF assms(2)])
  have srt: "sorted_wrt newer_eq ?ts" using assms(3) by (simp add: saver_inv_def)
  have key: "tuple_id ?x = tuple_id t0" "tuple_created ?x = tuple_created t0"
    using same by (simp_all add: t tuple_id_def tuple_created_def)
  note dup = select_tuple_duplicate [OF srt sel key]
  have lk: "lookup_tuples c' tid ?ns = sort_checkpoints (?ts @ [?x])" and ttl: "sv_ttl c' = saver_ttl_disabled"
    and wr: "attach_writes c' tid ?ns = attach_writes c tid ?ns"
    using assms(2) by (simp_all add: c' c1 attach_writes_def [abs_def])
  have "length (sort_checkpoints (?ts @ [?x])) = Suc (length ?ts)"
    by (metis length_append_singleton mset_sort_checkpoints size_mset)
  moreover have "sck_id ck = tuple_id t0" using key by (simp add: tuple_id_def)
  then have "sc_thread_id config' = Some tid" "get_checkpoint_ns config' = ?ns" "select_tuple config' (lookup_tuples c' tid ?ns) = Some t0"
    using assms(1) dup(2) by (simp_all add: config' lk)
  ultimately show ?thesis
    using dup(1) by (simp add: saver_get_disabled [OF assms(1) ttl] saver_get_disabled [of config' tid, OF _ ttl] lk wr t)
qed

lemma put_updated_Ok:
  assumes "put_updated cd api what config t s writes c = Some (c', Inr config')"
  shows "\<exists>v step. sd_encode cd s = Inr v \<and> next_step (md_step (tp_metadata t)) = Some step \<and>
     sa_put api config ((tp_checkpoint t)\<lparr>sck_channel_values := v\<rparr>)
       ((tp_metadata t)\<lparr>md_source := SourceUpdate, md_step := step, md_writes := writes\<rparr>) c = (c', Inr config')"
proof -
  from assms obtain v where v: "sd_encode cd s = Inr v" by (auto simp: put_updated_def split: sum.splits)
  from assms v obtain step where st: "next_step (md_step (tp_metadata t)) = Some step" by (auto simp: put_updated_def)
  obtain c2 r where p: "sa_put api config ((tp_checkpoint t)\<lparr>sck_channel_values := v\<rparr>)
       ((tp_metadata t)\<lparr>md_source := SourceUpdate, md_step := step, md_writes := writes\<rparr>) c = (c2, r)" by fastforce
  from assms v st p have "c2 = c'" "r = Inr config'"
    by (auto simp: put_updated_def checkpoint_err_def split: sum.splits)
  with v st p show ?thesis by blast
qed

lemma update_state_puts:
  assumes "update_state S cd (Some api) config u c = Some (c', Inr config')"
  shows "\<exists>c1 t s v step. sa_get_tuple api config c = (c1, Inr (Some t)) \<and> deserialize_with_migration cd (tp_checkpoint t) = Inr s \<and>
     sd_encode cd (fst (st_apply S s (su_update u))) = Inr v \<and> next_step (md_step (tp_metadata t)) = Some step \<and>
     sa_put api config ((tp_checkpoint t)\<lparr>sck_channel_values := v\<rparr>)
       ((tp_metadata t)\<lparr>md_source := SourceUpdate, md_step := step, md_writes := record_writer u (md_writes (tp_metadata t))\<rparr>) c1 = (c', Inr config')"
proof -
  obtain c1 r where g: "sa_get_tuple api config c = (c1, r)" by fastforce
  from assms g obtain t where r: "r = Inr (Some t)"
    by (auto simp: update_state_def checkpoint_err_def split: sum.splits option.splits)
  from assms g r obtain s where s: "deserialize_with_migration cd (tp_checkpoint t) = Inr s"
    by (auto simp: update_state_def checkpoint_err_def split: sum.splits)
  from assms g r s have pu: "put_updated cd api ''updated'' config t (fst (st_apply S s (su_update u)))
      (record_writer u (md_writes (tp_metadata t))) c1 = Some (c', Inr config')"
    by (simp add: update_state_def checkpoint_err_def)
  from put_updated_Ok [OF this] g r s show ?thesis by blast
qed

section \<open>Runs without a checkpointer\<close>

definition saves :: "('s, 'n) pregel_loop \<Rightarrow> bool \<times> checkpoint list" where
  "saves pl = (pl_checkpointer pl, pl_saved pl)"

named_theorems saves_simps \<open>operations that save nothing without a checkpointer\<close>

lemma saves_finish [simp]: "saves (finish_all_channels S pl) = saves pl"
  by (simp add: saves_def finish_all_channels_def)

lemma saves_interrupt [saves_simps]: "\<not> pl_checkpointer pl \<Longrightarrow> save_interrupt_checkpoint w n pl = (pl, Inr ())"
  by (simp add: save_interrupt_checkpoint_def)

lemma saves_superstep [saves_simps]: "\<not> pl_checkpointer pl \<Longrightarrow> save_superstep_checkpoint S w pl = (pl, Inr ())"
  by (simp add: save_superstep_checkpoint_def)

lemma saves_exit [saves_simps]: "\<not> pl_checkpointer pl \<Longrightarrow> save_exit_checkpoint w pl = pl"
  by (simp add: save_exit_checkpoint_def)

lemma finish_checkpointer [simp]: "pl_checkpointer (finish_all_channels S pl) = pl_checkpointer pl"
  by (simp add: finish_all_channels_def)

lemma saves_stop: "\<not> pl_checkpointer pl \<Longrightarrow> saves (fst (stop_with_interrupt S w pl)) = saves pl"
  by (simp add: stop_with_interrupt_def saves_simps)

lemma saves_complete: "\<not> pl_checkpointer pl \<Longrightarrow> saves (complete_step S w pl) = saves pl"
  by (simp add: complete_step_def Let_def saves_simps) (simp add: saves_def finish_all_channels_def)

lemma saves_merge: "merge_phase S w r pl = Some (pl', x) \<Longrightarrow> saves pl' = saves pl"
  by (auto simp: merge_phase_def Let_def saves_def update_delta_counters_def split: prod.splits sum.splits)

lemma saves_execute: "loop_execute_superstep w pl = Some (pl', x) \<Longrightarrow> saves pl' = saves pl"
  by (auto simp: loop_execute_superstep_def Let_def saves_def record_circuit_breaker_results_def check_circuit_breakers_def
      split: prod.splits sum.splits option.splits if_splits)

lemma saves_tick: "tick S w pl = (pl', x) \<Longrightarrow> saves pl' = saves pl"
  by (auto simp: tick_def Let_def saves_def finish_all_channels_def split: if_splits option.splits)

lemma saves_bubble_fold: "saves (fst (fold (handle_bubble_up S) bs acc)) = saves (fst acc)"
proof (induction bs arbitrary: acc)
  case (Cons b bs)
  have "saves (fst (handle_bubble_up S b acc)) = saves (fst acc)"
    by (cases acc; cases b) (auto simp: handle_bubble_up_def saves_def split: option.splits sum.splits)
  with Cons show ?case by simp
qed simp

lemma saves_after_check: "\<not> pl_checkpointer pl \<Longrightarrow> saves (fst (interrupt_after_check S w pl)) = saves pl"
  by (auto simp: interrupt_after_check_def Let_def saves_complete saves_stop split: option.splits) (simp add: saves_def)

lemma saves_interrupt_phase:
  assumes "\<not> pl_checkpointer pl"
  shows "saves (fst (interrupt_phase S w r pl)) = saves pl"
proof -
  let ?pl = "pl\<lparr>pl_interrupt_rx := []\<rparr>"
  obtain pl1 stop where hb: "handle_bubble_ups S (sr_bubble_ups r) ?pl = (pl1, stop)" by fastforce
  have "saves pl1 = saves ?pl" using saves_bubble_fold [of S "sr_bubble_ups r" "(?pl, False)"] hb by (simp add: handle_bubble_ups_def)
  then have s1: "saves pl1 = saves pl" "\<not> pl_checkpointer pl1" using assms by (simp_all add: saves_def)
  have s0: "saves (fst (interrupt_after_check S w ?pl)) = saves pl" using saves_after_check [of ?pl S w] assms by (simp add: saves_def)
  have st: "saves (fst (stop_with_interrupt S w (?pl\<lparr>pl_pending_interrupts := sg, pl_status := st\<rparr>))) = saves pl" for sg st
    using saves_stop [of "?pl\<lparr>pl_pending_interrupts := sg, pl_status := st\<rparr>" S w] assms by (simp add: saves_def)
  show ?thesis
    using s1 s0 st saves_stop [OF s1(2), of S w] saves_after_check [OF s1(2), of S w]
    by (cases stop) (simp_all add: interrupt_phase_def Let_def hb)
qed

lemma saves_after_tick:
  assumes "\<not> pl_checkpointer pl" and "after_tick S w r pl = Some (pl', x)"
  shows "saves pl' = saves pl"
proof -
  from assms(2) obtain pl1 y where m: "merge_phase S w r pl = Some (pl1, y)" by (auto simp: after_tick_def split: option.splits)
  then have s1: "saves pl1 = saves pl" by (rule saves_merge)
  then have nc: "\<not> pl_checkpointer pl1" using assms(1) by (simp add: saves_def)
  show ?thesis
  proof (cases y)
    case (Inr ch)
    show ?thesis
    proof (cases "schedule_phase w r pl1")
      case (Inr tasks)
      let ?pl2 = "pl1\<lparr>pl_pending := tasks, pl_prev_changed := ch\<rparr>"
      have "saves (fst (interrupt_phase S w r ?pl2)) = saves ?pl2" using nc by (intro saves_interrupt_phase) simp
      with assms(2) m \<open>y = Inr ch\<close> Inr s1 nc show ?thesis
        by (auto simp: after_tick_def saves_superstep saves_def)
    qed (use assms(2) m Inr s1 in \<open>simp add: after_tick_def\<close>)
  qed (use assms(2) m s1 in \<open>simp add: after_tick_def\<close>)
qed

lemma saves_run_loop: "\<not> pl_checkpointer pl \<Longrightarrow> run_loop fuel S worlds k pl = Some (Some (pl', r)) \<Longrightarrow> saves pl' = saves pl"
proof (induction fuel arbitrary: k pl)
  case (Suc fuel)
  obtain pl1 t where tk: "tick S (worlds k) pl = (pl1, t)" by fastforce
  have s1: "saves pl1 = saves pl" using saves_tick [OF tk] .
  consider (stop) "pl' = pl1" | (go) x where "loop_execute_superstep (worlds k) pl1 = Some x" "t = Inr True"
    using Suc.prems(2) tk by (auto split: sum.splits bool.splits option.splits)
  then show ?case
  proof cases
    case go
    obtain pl2 y where x: "x = (pl2, y)" by fastforce
    have s2: "saves pl2 = saves pl" using saves_execute go(1) x s1 by metis
    then have nc: "\<not> pl_checkpointer pl2" using Suc.prems(1) by (simp add: saves_def)
    show ?thesis
    proof (cases y)
      case (Inr res)
      from Suc.prems(2) tk go x Inr obtain pl3 z where at: "after_tick S (worlds k) res pl2 = Some (pl3, z)"
        by (auto split: option.splits)
      have s3: "saves pl3 = saves pl" using saves_after_tick [OF nc at] s2 by simp
      then have nc3: "\<not> pl_checkpointer pl3" using Suc.prems(1) by (simp add: saves_def)
      show ?thesis
      proof (cases z)
        case (Inr u)
        then have "run_loop fuel S worlds (k + 1) pl3 = Some (Some (pl', r))"
          using Suc.prems(2) tk go x \<open>y = Inr res\<close> at by simp
        from Suc.IH [OF nc3 this] s3 show ?thesis by simp
      qed (use Suc.prems(2) tk go x Inr at s3 in simp)
    qed (use Suc.prems(2) tk go x s2 in simp)
  qed (use s1 in simp)
qed simp

lemma wire_budget_saves [simp]: "saves (wire_budget now config pl) = saves pl"
  by (simp add: wire_budget_def set_budget_tracker_def saves_def split: option.splits)

lemma invoke_loop_saves: "invoke_loop fresh now s g config = Some pl \<Longrightarrow> saves pl = (False, [])"
proof -
  assume "invoke_loop fresh now s g config = Some pl"
  then obtain pl0 where "stream_loop fresh now s g config = Some pl0"
    and pl: "pl = (set_circuit_breaker_policies (build_circuit_breaker_map g) pl0)\<lparr>pl_fallbacks := build_fallback_map g\<rparr>"
    by (auto simp: invoke_loop_def)
  then have "saves pl0 = (False, [])"
    by (auto simp: stream_loop_def with_error_handlers_def) (simp add: saves_def)
  then show ?thesis by (simp add: pl saves_def set_circuit_breaker_policies_def)
qed

text \<open>The identifiers a checkpointer in memory holds.\<close>

definition ids :: "memory_saver \<Rightarrow> string \<Rightarrow> string \<Rightarrow> string set" where
  "ids c tid ns = tuple_id ` set (lookup_tuples c tid ns)"

lemma ids_get:
  assumes "saver_get_tuple parse now config c = (c', r)"
  shows "ids c' tid ns \<subseteq> ids c tid ns"
    and "r = Inr (Some t) \<Longrightarrow> sc_thread_id config = Some tid' \<Longrightarrow> sck_id (tp_checkpoint t) \<in> ids c' tid' (get_checkpoint_ns config)"
proof -
  have "ids (lazy_cleanup parse now tid' ns' c) tid ns \<subseteq> ids c tid ns" for tid' ns'
    using image_mono [OF set_surviving [of parse now c tid' ns'], of tuple_id] by (auto simp: ids_def)
  then show "ids c' tid ns \<subseteq> ids c tid ns" using assms by (auto simp: saver_get_tuple_def Let_def split: sum.splits)
  assume r: "r = Inr (Some t)" and tid: "sc_thread_id config = Some tid'"
  let ?ts = "lookup_tuples c' tid' (get_checkpoint_ns config)"
  obtain t0 where "select_tuple config ?ts = Some t0" "tp_checkpoint t = tp_checkpoint t0"
    using assms r tid by (auto simp: saver_get_tuple_def get_thread_id_def Let_def)
  then show "sck_id (tp_checkpoint t) \<in> ids c' tid' (get_checkpoint_ns config)"
    by (auto simp: select_tuple_def ids_def tuple_id_def [symmetric] find_Some_iff split: option.splits list.splits)
qed

lemma ids_put:
  assumes "sc_thread_id config = Some tid'"
  shows "ids (fst (saver_put config ck md c)) tid ns =
     (if tid = tid' \<and> ns = get_checkpoint_ns config then insert (sck_id ck) (ids c tid ns) else ids c tid ns)"
  by (auto simp: ids_def saver_put_Ok [OF assms] tuple_id_def)

lemma ids_load_previous: "ids (fst (load_previous (Some (memory_saver_api parse now)) config prev c)) tid ns \<subseteq> ids c tid ns"
proof -
  obtain c1 r where g: "saver_get_tuple parse now config c = (c1, r)" by fastforce
  then have "fst (load_previous (Some (memory_saver_api parse now)) config prev c) = c1"
    by (auto simp: load_previous_def memory_saver_api_def split: sum.splits option.splits)
  with ids_get(1) [OF g] show ?thesis by simp
qed

lemma ids_store_return: "ids (store_return_value (Some (memory_saver_api parse now)) config rv c) tid ns \<subseteq> ids c tid ns"
proof (cases rv)
  case (Some v)
  obtain c1 r where g: "saver_get_tuple parse now config c = (c1, r)" by fastforce
  show ?thesis
  proof (cases "\<exists>t. r = Inr (Some t)")
    case True
    then obtain t where r: "r = Inr (Some t)" by blast
    from g r obtain tid' where tid: "sc_thread_id config = Some tid'"
      by (auto simp: saver_get_tuple_def get_thread_id_def split: option.splits)
    have "store_return_value (Some (memory_saver_api parse now)) config rv c =
        fst (saver_put config (tp_checkpoint t) ((tp_metadata t)\<lparr>md_return_value := Some v\<rparr>) c1)"
      using g r Some by (simp add: store_return_value_def memory_saver_api_def)
    with ids_get [OF g] ids_get(2) [OF g r tid] show ?thesis by (auto simp: ids_put [OF tid])
  next
    case False
    then have "store_return_value (Some (memory_saver_api parse now)) config rv c = c1"
      using g Some by (auto simp: store_return_value_def memory_saver_api_def split: sum.splits option.splits)
    with ids_get(1) [OF g] show ?thesis by simp
  qed
qed (simp add: store_return_value_def)

text \<open>All that \<open>invoke\<close> does to the checkpointer: load the previous result, and save the new one on what it loads.\<close>

lemma invoke_effects:
  assumes "invoke fuel S cd rw g config s (c, policy) = Some (Some ((c', policy'), saved, r))"
  shows "\<exists>cfg prev rv. saved = [] \<and> c' \<in> {c, fst (load_previous (cg_checkpointer g) cfg prev c),
     store_return_value (cg_checkpointer g) cfg rv (fst (load_previous (cg_checkpointer g) cfg prev c))}"
proof -
  let ?cfg = "effective_config g config"
  obtain policy1 key hit where cl: "cache_lookup rw cd ?cfg s policy = (policy1, key, hit)" by (metis prod_cases3)
  obtain c1 prev where lp: "load_previous (cg_checkpointer g) (cfg_saver ?cfg) (cfg_previous ?cfg) c = (c1, prev)" by fastforce
  show ?thesis
  proof (cases hit)
    case None
    with assms cl lp obtain pl where pl: "invoke_loop (rw_fresh rw) (rw_start rw) s g (?cfg\<lparr>cfg_previous := prev\<rparr>) = Some pl"
      by (auto simp: invoke_def invoke_async_inner_def split: option.splits)
    with assms cl lp None obtain pl' y where rl: "run_loop fuel S (rw_worlds rw prev) 0 pl = Some (Some (pl', y))"
      by (auto simp: invoke_def invoke_async_inner_def split: option.splits)
    have "saves pl' = (False, [])" using saves_run_loop [OF _ rl] invoke_loop_saves [OF pl] by (simp add: saves_def)
    then have nil: "pl_saved pl' = []" by (simp add: saves_def)
    have "saved = [] \<and> (c' = c1 \<or> (\<exists>rv. c' = store_return_value (cg_checkpointer g) (cfg_saver ?cfg) rv c1))"
      using assms cl lp None pl rl nil by (cases y) (auto simp: invoke_def invoke_async_inner_def Let_def)
    then obtain rv where "saved = []" "c' \<in> {c1, store_return_value (cg_checkpointer g) (cfg_saver ?cfg) rv c1}" by blast
    then show ?thesis using lp
      by - (rule exI [of _ "cfg_saver ?cfg"], rule exI [of _ "cfg_previous ?cfg"], rule exI [of _ rv], simp)
  qed (use assms cl in \<open>auto simp: invoke_def invoke_async_inner_def\<close>)
qed

section \<open>Concrete values\<close>

definition example_codec :: "nat state_codec" where
  "example_codec = \<lparr>sd_schema_version = 1, sd_migrate = (\<lambda>_ v. v),
     sd_decode = (\<lambda>v. case as_u64 v of Some n \<Rightarrow> Ok n | None \<Rightarrow> Err ''not a number''), sd_encode = (\<lambda>n. Ok (JNum n))\<rparr>"

definition counter_impl :: "(nat, nat) state_impl" where
  "counter_impl = \<lparr>st_default = 0, st_apply = (\<lambda>s u. (s + u, 1)), st_try_apply = (\<lambda>s u. Ok (s + u, 1)), st_reset_ephemeral = (\<lambda>s. s),
     st_finish_field = (\<lambda>_ s. s), st_consume_field = (\<lambda>_ s. s), st_consume_field_indices = [], st_replace_field_indices = [],
     st_replace_after_finish_field_indices = [], st_field_is_set = (\<lambda>_ _. True), st_field_count = 1, st_field_names = [''n''],
     st_delta_channel_specs = []\<rparr>"

definition example_api :: "memory_saver saver_api" where
  "example_api = memory_saver_api (\<lambda>_. None) 0"

definition interrupted_tuple :: "checkpoint_pending_task list \<Rightarrow> checkpoint_tuple" where
  "interrupted_tuple ts = (let t = example_tuple ''a'' (JNum 1) [] in
     t\<lparr>tp_checkpoint := (tp_checkpoint t)\<lparr>sck_pending_tasks := ts\<rparr>, tp_metadata := (tp_metadata t)\<lparr>md_source := SourceInterrupt ''n''\<rparr>\<rparr>)"

definition saver_with :: "checkpoint_tuple \<Rightarrow> memory_saver" where
  "saver_with t = fst (saver_put (tp_config t) (tp_checkpoint t) (tp_metadata t) memory_saver_new)"

definition empty_graph :: "(nat, nat, memory_saver saver_api) compiled_graph" where
  "empty_graph = \<lparr>cg_nodes = [], cg_trigger_table = trigger_table_new, cg_metadata = [], cg_checkpointer = Some example_api,
     cg_interrupt_before = [], cg_interrupt_after = [], cg_subgraphs = []\<rparr>"

definition example_rw :: "(nat, nat, nat) run_world" where
  "example_rw = \<lparr>rw_worlds = (\<lambda>_ _. \<lparr>w_now = 0, w_fresh = (\<lambda>_ _. ''id''), w_hash = (\<lambda>n _. n), w_exec = (\<lambda>_ _ _ _. None),
       w_order = (\<lambda>ts. ts), w_cancelled = (\<lambda>_. False), w_signals = [], w_put_writes = (\<lambda>_ _. None), w_put = (\<lambda>_. None),
       w_update_value = (\<lambda>_. None), w_to_value = (\<lambda>_. None), w_from_value = (\<lambda>_. None), w_size = (\<lambda>_. None),
       w_display = (\<lambda>_. []), w_reason = (\<lambda>_. []), w_stored_writes = None\<rparr>),
     rw_fresh = (\<lambda>_. ''id''), rw_run_id = ''r'', rw_uuid = ''u'', rw_start = 0, rw_finish = 1, rw_render = (\<lambda>_. []),
     rw_hasher = (\<lambda>_ _. 0), rw_output = (\<lambda>s. s), rw_output_json = (\<lambda>n. Some (JNum n))\<rparr>"

lemmas saver_eval = saver_with_def saver_put_def get_thread_id_def memory_saver_new_def Let_def get_checkpoint_ns_def set_tuples_def
  lookup_tuples_def sort_checkpoints_def sort_by_def im_modify_def im_simps saver_get_tuple_def lazy_cleanup_def saver_ttl_disabled_def
  ttl_is_expired_def select_tuple_def tuple_id_def

lemma saver_with_get:
  "tp_config t = \<lparr>sc_thread_id = Some ''t'', sc_checkpoint_id = None, sc_checkpoint_ns = None\<rparr> \<Longrightarrow> tp_pending_writes t = [] \<Longrightarrow> tp_parent_config t = None \<Longrightarrow>
     sa_get_tuple example_api \<lparr>sc_thread_id = Some ''t'', sc_checkpoint_id = None, sc_checkpoint_ns = None\<rparr> (saver_with t) = (saver_with t, Inr (Some t))"
  by (simp add: example_api_def memory_saver_api_def saver_eval)

lemma saver_with_facts: "sv_ttl (saver_with t) = saver_ttl_disabled" "saver_inv (saver_with t)"
proof -
  show "sv_ttl (saver_with t) = saver_ttl_disabled" by (simp add: saver_with_def saver_put_def memory_saver_new_def Let_def split: sum.splits)
  have "saver_with t = saver_step (\<lambda>_. None) (SvPut (tp_config t) (tp_checkpoint t) (tp_metadata t)) memory_saver_new"
    by (simp add: saver_with_def saver_step_def)
  then show "saver_inv (saver_with t)"
    using saver_ts.inv_step [OF saver_ts.inv_init [OF refl]] by metis
qed

section \<open>Theorems\<close>

text \<open>
  A checkpoint saved under a new identifier can be read back: with expiry off, \<open>get_state\<close> on the returned
  configuration gives the state the checkpoint decodes to (migrated when its schema version is old), its metadata
  and the names of its pending tasks.
\<close>

theorem stored_state_readable:
  assumes "sv_ttl c = saver_ttl_disabled" and "\<not> known_id c config (sck_id ck)"
    and "saver_put config ck md c = (c', Inr config')" and "deserialize_with_migration cd ck = Inr s"
  shows "\<exists>sn. snd (get_state cd (Some (memory_saver_api parse now)) config' c') = Inr (Some sn) \<and> sn_values sn = s \<and>
     sn_metadata sn = md \<and> sn_next sn = map cpt_node (sck_pending_tasks ck)"
  using assms by (intro memory.get_state_after_put [of c config]) (simp_all add: memory_saver_api_def)

theorem stored_state_readable_witness:
  "\<exists>sn. snd (get_state example_codec (Some (memory_saver_api (\<lambda>_. None) 0))
       \<lparr>sc_thread_id = Some ''t'', sc_checkpoint_id = Some ''a'', sc_checkpoint_ns = None\<rparr> (saver_with (interrupted_tuple []))) = Inr (Some sn) \<and> sn_values sn = 1"
proof -
  let ?t = "interrupted_tuple []" and ?c = "\<lparr>sc_thread_id = Some ''t'', sc_checkpoint_id = Some ''a'', sc_checkpoint_ns = None\<rparr>"
  have put: "saver_put (tp_config ?t) (tp_checkpoint ?t) (tp_metadata ?t) memory_saver_new = (saver_with ?t, Inr ?c)"
    by (simp add: interrupted_tuple_def example_tuple_def saver_eval)
  have dec: "deserialize_with_migration example_codec (tp_checkpoint ?t) = Inr 1"
    by (simp add: interrupted_tuple_def example_tuple_def deserialize_with_migration_def example_codec_def u64_max_def Let_def)
  have new: "sv_ttl memory_saver_new = saver_ttl_disabled" "\<not> known_id memory_saver_new (tp_config ?t) (sck_id (tp_checkpoint ?t))"
    by (simp_all add: memory_saver_new_def known_id_def lookup_tuples_def)
  from stored_state_readable [OF new put dec] show ?thesis by blast
qed

text \<open>
  C17: A state update does not show: \<open>update_state\<close> saves the changed state under the identifier and creation time
  of the checkpoint it loaded, the checkpointer in memory keeps both, and every later \<open>get_state\<close>, on the given and
  on the returned configuration, still gives the old one.
\<close>

theorem update_state_invisible:
  assumes "sc_thread_id config = Some tid" and "sv_ttl c = saver_ttl_disabled" and "saver_inv c"
    and "update_state S cd (Some (memory_saver_api parse now)) config u c = Some (c', Inr config')"
  shows "snd (get_state cd (Some (memory_saver_api parse later)) config c') = snd (get_state cd (Some (memory_saver_api parse now)) config c) \<and>
    snd (get_state cd (Some (memory_saver_api parse later)) config' c') = snd (get_state cd (Some (memory_saver_api parse now)) config c) \<and>
    length (lookup_tuples c' tid (get_checkpoint_ns config)) = Suc (length (lookup_tuples c tid (get_checkpoint_ns config)))"
proof -
  from update_state_puts [OF assms(4)] obtain c1 t v md where
    got: "saver_get_tuple parse now config c = (c1, Inr (Some t))"
    and put: "saver_put config ((tp_checkpoint t)\<lparr>sck_channel_values := v\<rparr>) md c1 = (c', Inr config')"
    by (auto simp: memory_saver_api_def)
  from memory_resave [OF assms(1-3) got _ _ put, of later]
  show ?thesis using got by (auto simp: get_state_def memory_saver_api_def split: prod.splits)
qed

theorem update_state_invisible_witness:
  "\<exists>c' config'. update_state counter_impl example_codec (Some example_api) (tp_config (interrupted_tuple [])) \<lparr>su_update = 5, su_label = None, su_as_node = None\<rparr>
       (saver_with (interrupted_tuple [])) = Some (c', Inr config') \<and>
     snd (get_state example_codec (Some example_api) config' c') = Inr (Some (snapshot_of (interrupted_tuple []) 1))"
proof -
  let ?t = "interrupted_tuple []" and ?u = "\<lparr>su_update = 5 :: nat, su_label = None, su_as_node = None\<rparr>"
  have cfg: "tp_config ?t = \<lparr>sc_thread_id = Some ''t'', sc_checkpoint_id = None, sc_checkpoint_ns = None\<rparr>"
    by (simp add: interrupted_tuple_def example_tuple_def Let_def)
  have got: "sa_get_tuple example_api (tp_config ?t) (saver_with ?t) = (saver_with ?t, Inr (Some ?t))"
    unfolding cfg by (rule saver_with_get) (simp_all add: interrupted_tuple_def example_tuple_def Let_def)
  have dec: "deserialize_with_migration example_codec (tp_checkpoint ?t) = Inr 1"
    by (simp add: interrupted_tuple_def example_tuple_def deserialize_with_migration_def example_codec_def u64_max_def Let_def)
  have "md_step (tp_metadata ?t) = 0" by (simp add: interrupted_tuple_def example_tuple_def Let_def)
  then obtain c' config' where up: "update_state counter_impl example_codec (Some example_api) (tp_config ?t) ?u (saver_with ?t) = Some (c', Inr config')"
    using got dec by (simp add: update_state_def put_updated_def checkpoint_err_def next_step_def example_codec_def counter_impl_def
        example_api_def memory_saver_api_def saver_put_def get_thread_id_def cfg Let_def)
  moreover have "sc_thread_id (tp_config ?t) = Some ''t''" by (simp add: cfg)
  ultimately have "snd (get_state example_codec (Some example_api) config' c') = snd (get_state example_codec (Some example_api) (tp_config ?t) (saver_with ?t))"
    using update_state_invisible [of "tp_config ?t" "''t''" "saver_with ?t" counter_impl example_codec "\<lambda>_. None" 0 ?u c' config' 0] saver_with_facts [of ?t]
    unfolding example_api_def by blast
  with up got dec show ?thesis by (auto simp: get_state_def checkpoint_err_def)
qed

text \<open>
  A bulk update is one save of the state all updates were applied to in order, with every writer recorded and
  the step counted once; a bulk update of one succeeds exactly when the single update does, with the same effect.
\<close>

theorem bulk_update_exact:
  assumes "sa_get_tuple api config c = (c1, Inr (Some t))" and "deserialize_with_migration cd (tp_checkpoint t) = Inr s"
    and "sd_encode cd (fold (\<lambda>u s. fst (st_apply S s (su_update u))) us s) = Inr v" and "md_step (tp_metadata t) < 2 ^ 63 - 1"
  shows "bulk_update_state S cd (Some api) config us c = Some (
      case sa_put api config ((tp_checkpoint t)\<lparr>sck_channel_values := v\<rparr>)
        ((tp_metadata t)\<lparr>md_source := SourceUpdate, md_step := md_step (tp_metadata t) + 1,
           md_writes := fold record_writer us (md_writes (tp_metadata t))\<rparr>) c1 of (c', r) \<Rightarrow> (c', checkpoint_err r)) \<and>
    (bulk_update_state S cd (Some api) config [u] c = Some (c', Inr config') \<longleftrightarrow>
      update_state S cd (Some api) config u c = Some (c', Inr config'))"
proof
  show "bulk_update_state S cd (Some api) config us c = Some (
    case sa_put api config ((tp_checkpoint t)\<lparr>sck_channel_values := v\<rparr>)
      ((tp_metadata t)\<lparr>md_source := SourceUpdate, md_step := md_step (tp_metadata t) + 1,
         md_writes := fold record_writer us (md_writes (tp_metadata t))\<rparr>) c1 of (c', r) \<Rightarrow> (c', checkpoint_err r))"
    using assms by (simp add: bulk_update_state_def put_updated_def checkpoint_err_def next_step_def)
  show "bulk_update_state S cd (Some api) config [u] c = Some (c', Inr config') \<longleftrightarrow>
      update_state S cd (Some api) config u c = Some (c', Inr config')"
    using assms by (auto simp: bulk_update_state_def update_state_def put_updated_def checkpoint_err_def split: sum.splits)
qed

theorem bulk_update_exact_witness:
  "\<exists>c' config'. bulk_update_state counter_impl example_codec (Some example_api) (tp_config (interrupted_tuple []))
     [\<lparr>su_update = 5, su_label = None, su_as_node = Some ''x''\<rparr>, \<lparr>su_update = 2, su_label = None, su_as_node = None\<rparr>] (saver_with (interrupted_tuple [])) = Some (c', Inr config')"
proof -
  let ?t = "interrupted_tuple []"
  have cfg: "tp_config ?t = \<lparr>sc_thread_id = Some ''t'', sc_checkpoint_id = None, sc_checkpoint_ns = None\<rparr>"
    by (simp add: interrupted_tuple_def example_tuple_def Let_def)
  have got: "sa_get_tuple example_api (tp_config ?t) (saver_with ?t) = (saver_with ?t, Inr (Some ?t))"
    unfolding cfg by (rule saver_with_get) (simp_all add: interrupted_tuple_def example_tuple_def Let_def)
  have dec: "deserialize_with_migration example_codec (tp_checkpoint ?t) = Inr 1" "md_step (tp_metadata ?t) < 2 ^ 63 - 1"
    by (simp_all add: interrupted_tuple_def example_tuple_def deserialize_with_migration_def example_codec_def u64_max_def Let_def)
  have enc: "sd_encode example_codec s = Inr (JNum s)" for s by (simp add: example_codec_def)
  show ?thesis
    using bulk_update_exact [OF got dec(1) enc dec(2), of counter_impl]
    by (simp add: example_api_def memory_saver_api_def saver_put_def get_thread_id_def cfg Let_def checkpoint_err_def)
qed

text \<open>
  \<open>invoke\<close> saves no checkpoint: whatever the graph, its nodes and the outcome, the loop it runs stores nothing,
  and the checkpointer of the graph holds no identifier afterwards that it did not hold before.
\<close>

theorem invoke_saves_nothing:
  assumes "cg_checkpointer g = Some (memory_saver_api parse now)"
    and "invoke fuel S cd rw g config s (c, policy) = Some (Some ((c', policy'), saved, r))"
  shows "saved = [] \<and> (\<forall>tid ns. ids c' tid ns \<subseteq> ids c tid ns)"
proof -
  from invoke_effects [OF assms(2)] obtain cfg prev rv where nil: "saved = []"
    and c': "c' \<in> {c, fst (load_previous (cg_checkpointer g) cfg prev c), store_return_value (cg_checkpointer g) cfg rv (fst (load_previous (cg_checkpointer g) cfg prev c))}"
    by blast
  have "ids (fst (load_previous (cg_checkpointer g) cfg prev c)) tid ns \<subseteq> ids c tid ns" for tid ns
    unfolding assms(1) by (rule ids_load_previous)
  moreover have "ids (store_return_value (cg_checkpointer g) cfg rv d) tid ns \<subseteq> ids d tid ns" for d tid ns
    unfolding assms(1) by (rule ids_store_return)
  ultimately show ?thesis using nil c' by blast
qed

theorem invoke_saves_nothing_witness:
  "\<exists>c' policy' out. invoke 1 counter_impl example_codec example_rw empty_graph config_new 4 (memory_saver_new, None) = Some (Some ((c', policy'), [], Inr out)) \<and>
     go_value out = 4 \<and> ids c' ''t'' [] \<subseteq> ids memory_saver_new ''t'' []"
proof -
  obtain c' policy' saved out where run: "invoke 1 counter_impl example_codec example_rw empty_graph config_new 4 (memory_saver_new, None) = Some (Some ((c', policy'), saved, Inr out))"
    and val: "go_value out = 4"
    by (simp add: invoke_def invoke_async_inner_def cache_lookup_def load_previous_def empty_graph_def example_api_def memory_saver_api_def
        saver_get_tuple_def get_thread_id_def effective_config_def config_new_def invoke_loop_def stream_loop_def with_error_handlers_def
        tracker_new_def wire_budget_def set_circuit_breaker_policies_def build_circuit_breaker_map_def tick_def compute_initial_tasks_def
        trigger_table_new_def finish_all_channels_def counter_impl_def Let_def)
  have cp: "cg_checkpointer empty_graph = Some (memory_saver_api (\<lambda>_. None) 0)" by (simp add: empty_graph_def example_api_def)
  from invoke_saves_nothing [OF cp run] run val show ?thesis by blast
qed

text \<open>
  C18: A resumed run starts over: two interrupted checkpoints with the same values and schema version resume
  identically whatever their pending tasks, versions, step and pending interrupts say; the loop begins at step
  zero with the tasks of the entry point and knows of no interrupt, so values addressed by interrupt identifier
  or by namespace reach no node.
\<close>

theorem resume_starts_over:
  assumes "cg_checkpointer g = Some api" and "sa_get_tuple api (cfg_saver config) c = (c', Inr (Some t))"
    and "sa_get_tuple api (cfg_saver config) d = (d', Inr (Some u))"
    and "is_interrupt_source (md_source (tp_metadata t))" and "is_interrupt_source (md_source (tp_metadata u))"
    and "sck_channel_values (tp_checkpoint t) = sck_channel_values (tp_checkpoint u)"
    and "sck_schema_version (tp_checkpoint t) = sck_schema_version (tp_checkpoint u)"
  shows "map_option (map_option snd) (resume fuel S cd rw g config rv c) = map_option (map_option snd) (resume fuel S cd rw g config rv d) \<and>
    (\<forall>s. \<exists>pl. resume_loop (rw_fresh rw) (rw_start rw) s g config = Some pl \<and> pl_step pl = 0 \<and> pl_state pl = s \<and>
       pl_pending pl = compute_initial_tasks (rw_fresh rw) (cg_trigger_table g) \<and>
       (\<forall>m sp. match_resume_to_interrupts (Some (ResumeById m)) (pl_pending_interrupts pl) sp = [] \<and>
          match_resume_to_interrupts (Some (ResumeByNamespace m)) (pl_pending_interrupts pl) sp = []))"
proof
  have "deserialize_with_migration cd (tp_checkpoint t) = deserialize_with_migration cd (tp_checkpoint u)"
    using assms(6,7) by (simp add: deserialize_with_migration_def)
  then show "map_option (map_option snd) (resume fuel S cd rw g config rv c) = map_option (map_option snd) (resume fuel S cd rw g config rv d)"
    using assms(1-5) by (auto simp: resume_def load_for_resume_def split: sum.splits option.splits)
  show "\<forall>s. \<exists>pl. resume_loop (rw_fresh rw) (rw_start rw) s g config = Some pl \<and> pl_step pl = 0 \<and> pl_state pl = s \<and>
       pl_pending pl = compute_initial_tasks (rw_fresh rw) (cg_trigger_table g) \<and>
       (\<forall>m sp. match_resume_to_interrupts (Some (ResumeById m)) (pl_pending_interrupts pl) sp = [] \<and>
          match_resume_to_interrupts (Some (ResumeByNamespace m)) (pl_pending_interrupts pl) sp = [])"
    by (simp add: resume_loop_def stream_loop_def with_error_handlers_def tracker_new_def wire_budget_def set_budget_tracker_def
        match_resume_to_interrupts_def split: option.splits)
qed

theorem resume_starts_over_witness:
  "map_option (map_option snd) (resume 1 counter_impl example_codec example_rw empty_graph (with_thread_id ''t'' config_new) (ResumeSingle JNull) (saver_with (interrupted_tuple []))) =
   map_option (map_option snd) (resume 1 counter_impl example_codec example_rw empty_graph (with_thread_id ''t'' config_new) (ResumeSingle JNull)
     (saver_with (interrupted_tuple [\<lparr>cpt_id = ''k'', cpt_node = ''n'', cpt_triggers = [], cpt_state_override = None\<rparr>])))"
proof -
  have cfg: "cfg_saver (with_thread_id ''t'' config_new) = \<lparr>sc_thread_id = Some ''t'', sc_checkpoint_id = None, sc_checkpoint_ns = None\<rparr>"
    by (simp add: with_thread_id_def config_new_def)
  have got: "sa_get_tuple example_api (cfg_saver (with_thread_id ''t'' config_new)) (saver_with (interrupted_tuple ts)) =
      (saver_with (interrupted_tuple ts), Inr (Some (interrupted_tuple ts)))" for ts
    unfolding cfg by (rule saver_with_get) (simp_all add: interrupted_tuple_def example_tuple_def Let_def)
  have src: "is_interrupt_source (md_source (tp_metadata (interrupted_tuple ts)))"
    "sck_channel_values (tp_checkpoint (interrupted_tuple ts)) = JNum 1" "sck_schema_version (tp_checkpoint (interrupted_tuple ts)) = 1" for ts
    by (simp_all add: interrupted_tuple_def example_tuple_def Let_def)
  have cp: "cg_checkpointer empty_graph = Some example_api" by (simp add: empty_graph_def)
  have "sck_channel_values (tp_checkpoint (interrupted_tuple [])) = sck_channel_values (tp_checkpoint (interrupted_tuple ts))"
    "sck_schema_version (tp_checkpoint (interrupted_tuple [])) = sck_schema_version (tp_checkpoint (interrupted_tuple ts))" for ts
    by (simp_all add: src)
  from resume_starts_over [OF cp got got src(1) src(1) this] show ?thesis by blast
qed



end
