(* ===== verification/Sql_Savers.thy ===== *)
theory Sql_Savers
  imports Graph_Api Store_Sql
begin

text \<open>
  The checkpoint serializers (\<open>juncture-checkpoint/src/serde.rs\<close>) and the two database checkpointers
  (\<open>sqlite.rs\<close>, \<open>postgres.rs\<close>).  Both send the same statements and differ in how a column is written: the record
  \<open>sql_backend\<close> holds the encoding of each column.  A database is its two tables; each statement of the sources is
  given its SQL meaning on them, and the order a database gives rows with equal keys is a parameter.  A failure of
  the database is an argument of the operation and undoes its transaction.  The JSON and MessagePack libraries, the
  cipher and the schema migrator are parameters.  Connecting and creating the tables is not modelled.
\<close>

section \<open>Serializers\<close>

datatype serialization_format = MessagePack | Json

text \<open>The two libraries at one type; bytes are characters.\<close>

record 'a codec =
  cd_json_enc :: "'a \<Rightarrow> (string, string) result"
  cd_json_dec :: "string \<Rightarrow> (string, 'a) result"
  cd_mp_enc :: "'a \<Rightarrow> (string, string) result"
  cd_mp_dec :: "string \<Rightarrow> (string, 'a) result"

definition kind_serialize :: "serialization_format \<Rightarrow> 'a codec \<Rightarrow> 'a \<Rightarrow> (saver_error, string) result" where
  "kind_serialize kind cd v = map_err SvSerialize (case kind of MessagePack \<Rightarrow> cd_mp_enc cd v | Json \<Rightarrow> cd_json_enc cd v)"

definition kind_deserialize :: "serialization_format \<Rightarrow> 'a codec \<Rightarrow> string \<Rightarrow> (saver_error, 'a) result" where
  "kind_deserialize kind cd b = map_err SvDeserialize (case kind of MessagePack \<Rightarrow> cd_mp_dec cd b | Json \<Rightarrow> cd_json_dec cd b)"

definition is_ascii_whitespace :: "char \<Rightarrow> bool" where
  "is_ascii_whitespace c \<longleftrightarrow> c = CHR '' '' \<or> c = CHR 9 \<or> c = CHR 10 \<or> c = CHR 12 \<or> c = CHR 13"

definition detect_format :: "string \<Rightarrow> serialization_format" where
  "detect_format data = (case data of
       [] \<Rightarrow> Json
     | b # _ \<Rightarrow> (
         if b = CHR 0x7B \<or> b = CHR 0x5B \<or> is_ascii_whitespace b then Json
         else if of_char b \<ge> (128 :: nat) then MessagePack
         else Json))"

definition deserialize_auto :: "'a codec \<Rightarrow> string \<Rightarrow> (saver_error, 'a) result" where
  "deserialize_auto cd data = (case detect_format data of
       MessagePack \<Rightarrow> (case kind_deserialize MessagePack cd data of Inr v \<Rightarrow> Ok v | Inl _ \<Rightarrow> kind_deserialize Json cd data)
     | Json \<Rightarrow> kind_deserialize Json cd data)"

text \<open>\<open>EncryptedSerializer\<close>: \<open>inner\<close> is the wrapped serializer of JSON values, the nonce is drawn at random.\<close>

record cipher =
  ci_encrypt :: "string \<Rightarrow> string \<Rightarrow> (string, string) result"
  ci_decrypt :: "string \<Rightarrow> string \<Rightarrow> (string, string) result"

definition encrypted_serialize_value :: "cipher \<Rightarrow> string \<Rightarrow> (json \<Rightarrow> (saver_error, string) result) \<Rightarrow> json \<Rightarrow> (saver_error, string) result" where
  "encrypted_serialize_value ci nonce inner v = try_bind (inner v) (\<lambda>plain. case ci_encrypt ci nonce plain of
       Inl e \<Rightarrow> Err (SvSerialize (''Encryption failed: '' @ e))
     | Inr c \<Rightarrow> Ok (nonce @ c))"

definition encrypted_deserialize_value :: "cipher \<Rightarrow> (string \<Rightarrow> (saver_error, json) result) \<Rightarrow> string \<Rightarrow> (saver_error, json) result" where
  "encrypted_deserialize_value ci inner data = (if length data < 12 then Err (SvDeserialize ''Encrypted data too short'')
     else (case ci_decrypt ci (take 12 data) (drop 12 data) of
         Inl e \<Rightarrow> Err (SvDeserialize (''Decryption failed: '' @ e))
       | Inr plain \<Rightarrow> inner plain))"

section \<open>Tables\<close>

record 'c ck_row =
  cr_parent :: "string option"
  cr_values :: string
  cr_versions :: 'c
  cr_seen :: 'c
  cr_tasks :: "'c option"
  cr_sends :: "'c option"
  cr_interrupts :: "'c option"
  cr_schema :: int
  cr_metadata :: 'c
  cr_created :: string

text \<open>Keyed by thread, namespace and checkpoint; the writes by task and index too.\<close>

type_synonym ck_key = "string \<times> string \<times> string"
type_synonym write_row_key = "ck_key \<times> string \<times> nat"

record 'c sql_db =
  db_checkpoints :: "(ck_key, 'c ck_row) imap"
  db_writes :: "(write_row_key, string \<times> string) imap"

text \<open>A column: how a value is written and read, with the text of the error.\<close>

record ('a, 'c) column =
  col_enc :: "'a \<Rightarrow> (string, 'c) result"
  col_dec :: "'c \<Rightarrow> (string, 'a) result"

record 'c sql_backend =
  be_name :: string
  be_values :: "(json, string) column"
  be_versions :: "((string, nat) imap, 'c) column"
  be_seen :: "((string, (string, nat) imap) imap, 'c) column"
  be_tasks :: "(checkpoint_pending_task list, 'c option) column"
  be_sends :: "(serialized_send list, 'c option) column"
  be_interrupts :: "(interrupt_signal list, 'c option) column"
  be_metadata :: "(checkpoint_metadata, 'c) column"
  be_write :: "(json, string) column"
  be_migrator :: "(nat \<Rightarrow> nat \<Rightarrow> json \<Rightarrow> (string, json) result) option"

fun saver_error_display :: "saver_error \<Rightarrow> string" where
  "saver_error_display (SvSerialize m) = ''Serialization failed: '' @ m"
| "saver_error_display (SvSerialization m) = ''Serialization error: '' @ m"
| "saver_error_display (SvDeserialize m) = ''Deserialization failed: '' @ m"
| "saver_error_display (SvNotFound t i) = ''Checkpoint not found: thread='' @ t @ '', id='' @ i"
| "saver_error_display (SvStorage m) = ''Storage error: '' @ m"
| "saver_error_display (SvDatabase m) = ''Database error: '' @ m"
| "saver_error_display (SvSchemaMigration from to reason) =
     ''Schema migration failed: from version '' @ nat_to_string from @ '' to '' @ nat_to_string to @ '': '' @ reason"
| "saver_error_display SvPoolExhausted = ''Connection pool exhausted''"

subsection \<open>SQLite\<close>

definition blob_column :: "serialization_format \<Rightarrow> 'a codec \<Rightarrow> ('a, string) column" where
  "blob_column kind cd = \<lparr>col_enc = (\<lambda>v. map_err saver_error_display (kind_serialize kind cd v)),
     col_dec = (\<lambda>b. map_err saver_error_display (deserialize_auto cd b))\<rparr>"

definition optional_blob_column :: "serialization_format \<Rightarrow> 'a list codec \<Rightarrow> ('a list, string option) column" where
  "optional_blob_column kind cd = \<lparr>col_enc = (\<lambda>v. map_sum id Some (col_enc (blob_column kind cd) v)),
     col_dec = (\<lambda>o'. case o' of None \<Rightarrow> Ok [] | Some b \<Rightarrow> col_dec (blob_column kind cd) b)\<rparr>"

definition json_text_column :: "json codec \<Rightarrow> (json, string) column" where
  "json_text_column cd = \<lparr>col_enc = cd_json_enc cd, col_dec = cd_json_dec cd\<rparr>"

record codecs =
  cs_json :: "json codec"
  cs_versions :: "(string, nat) imap codec"
  cs_seen :: "(string, (string, nat) imap) imap codec"
  cs_tasks :: "checkpoint_pending_task list codec"
  cs_sends :: "serialized_send list codec"
  cs_interrupts :: "interrupt_signal list codec"
  cs_metadata :: "checkpoint_metadata codec"

definition sqlite_backend :: "serialization_format \<Rightarrow> codecs \<Rightarrow> (nat \<Rightarrow> nat \<Rightarrow> json \<Rightarrow> (string, json) result) option \<Rightarrow> string sql_backend" where
  "sqlite_backend kind cs migrator = \<lparr>be_name = ''SqliteSaver'', be_values = blob_column kind (cs_json cs),
     be_versions = blob_column kind (cs_versions cs), be_seen = blob_column kind (cs_seen cs),
     be_tasks = optional_blob_column kind (cs_tasks cs), be_sends = optional_blob_column kind (cs_sends cs),
     be_interrupts = optional_blob_column kind (cs_interrupts cs), be_metadata = blob_column kind (cs_metadata cs),
     be_write = json_text_column (cs_json cs), be_migrator = migrator\<rparr>"

subsection \<open>PostgreSQL\<close>

text \<open>Structured columns are JSONB: the value as \<open>to_value\<close> gives it; an empty list is stored as NULL.\<close>

definition optional_json_column :: "('a list, json) column \<Rightarrow> ('a list, json option) column" where
  "optional_json_column c = \<lparr>col_enc = (\<lambda>v. if v = [] then Ok None else map_sum id Some (col_enc c v)),
     col_dec = (\<lambda>o'. case o' of None \<Rightarrow> Ok [] | Some j \<Rightarrow> col_dec c j)\<rparr>"

record json_columns =
  js_versions :: "((string, nat) imap, json) column"
  js_seen :: "((string, (string, nat) imap) imap, json) column"
  js_tasks :: "(checkpoint_pending_task list, json) column"
  js_sends :: "(serialized_send list, json) column"
  js_interrupts :: "(interrupt_signal list, json) column"
  js_metadata :: "(checkpoint_metadata, json) column"

definition postgres_backend ::
    "serialization_format \<Rightarrow> json codec \<Rightarrow> json_columns \<Rightarrow> (nat \<Rightarrow> nat \<Rightarrow> json \<Rightarrow> (string, json) result) option \<Rightarrow> json sql_backend" where
  "postgres_backend kind cd js migrator = \<lparr>be_name = ''PostgresSaver'', be_values = blob_column kind cd,
     be_versions = js_versions js, be_seen = js_seen js, be_tasks = optional_json_column (js_tasks js),
     be_sends = optional_json_column (js_sends js), be_interrupts = optional_json_column (js_interrupts js),
     be_metadata = js_metadata js, be_write = blob_column kind cd, be_migrator = migrator\<rparr>"

section \<open>Reading a row\<close>

fun migrate_steps :: "'c sql_backend \<Rightarrow> string \<Rightarrow> nat list \<Rightarrow> json \<Rightarrow> (core_checkpoint_error, json) result" where
  "migrate_steps B i [] values = Ok values"
| "migrate_steps B i (from # rest) values = (case be_migrator B of
       Some f \<Rightarrow> (case f from (from + 1) values of
           Inl reason \<Rightarrow> Err (CkOther (''Checkpoint '' @ i @ '': schema migration v'' @ nat_to_string from @ '' -> v'' @ nat_to_string (from + 1) @ '' failed: '' @ reason))
         | Inr v \<Rightarrow> migrate_steps B i rest v)
     | None \<Rightarrow> Err (CkOther (''Checkpoint '' @ i @ '': no migration path from schema v'' @ nat_to_string from @ '' to v'' @ nat_to_string (from + 1)
         @ ''. Register a schema migrator via '' @ be_name B @ ''::with_schema_migrator().'')))"

definition migrate_checkpoint_schema :: "'c sql_backend \<Rightarrow> json \<Rightarrow> nat \<Rightarrow> string \<Rightarrow> (core_checkpoint_error, json) result" where
  "migrate_checkpoint_schema B values stored i = (
     if stored = 1 then Ok values
     else if stored > 1 then Err (CkOther (''Checkpoint '' @ i @ '' has schema version '' @ nat_to_string stored
         @ '', but current version is 1. Downgrade is not supported.''))
     else migrate_steps B i [stored..<1] values)"

text \<open>\<open>u32::try_from\<close> on the column; \<open>range\<close> stands for the text of its error.\<close>

definition schema_u32 :: "int \<Rightarrow> (core_checkpoint_error, nat) result" where
  "schema_u32 n = (if 0 \<le> n \<and> n < 2 ^ 32 then Ok (nat n) else Err (CkStorage ''out of range integral type conversion attempted''))"

definition dec_col :: "('a, 'c) column \<Rightarrow> 'c \<Rightarrow> (core_checkpoint_error, 'a) result" where
  "dec_col col c = map_err CkStorage (col_dec col c)"

definition deserialize_checkpoint :: "'c sql_backend \<Rightarrow> string \<Rightarrow> 'c ck_row \<Rightarrow> (core_checkpoint_error, stored_checkpoint) result" where
  "deserialize_checkpoint B i row =
     try_bind (dec_col (be_values B) (cr_values row)) (\<lambda>raw. try_bind (schema_u32 (cr_schema row)) (\<lambda>sv.
     try_bind (migrate_checkpoint_schema B raw sv i) (\<lambda>values. try_bind (dec_col (be_versions B) (cr_versions row)) (\<lambda>versions.
     try_bind (dec_col (be_seen B) (cr_seen row)) (\<lambda>seen. try_bind (dec_col (be_tasks B) (cr_tasks row)) (\<lambda>tasks.
     try_bind (dec_col (be_sends B) (cr_sends row)) (\<lambda>sends. try_bind (dec_col (be_interrupts B) (cr_interrupts row)) (\<lambda>interrupts.
       Ok \<lparr>sck_id = i, sck_channel_values = values, sck_channel_versions = versions, sck_versions_seen = seen, sck_pending_tasks = tasks,
         sck_pending_sends = sends, sck_pending_interrupts = interrupts, sck_schema_version = sv, sck_created_at = cr_created row, sck_v = 1,
         sck_new_versions = [], sck_counters = []\<rparr>))))))))"

definition row_to_tuple :: "'c sql_backend \<Rightarrow> saver_config \<Rightarrow> string \<Rightarrow> 'c ck_row \<Rightarrow> (core_checkpoint_error, checkpoint_tuple) result" where
  "row_to_tuple B c i row =
     try_bind (map_err (\<lambda>e. CkStorage (checkpoint_error_display e)) (deserialize_checkpoint B i row)) (\<lambda>ck.
     try_bind (dec_col (be_metadata B) (cr_metadata row)) (\<lambda>md.
       Ok \<lparr>tp_config = c, tp_checkpoint = ck, tp_metadata = md, tp_pending_writes = [], tp_parent_config = None\<rparr>))"

fun try_map :: "('a \<Rightarrow> ('e, 'b) result) \<Rightarrow> 'a list \<Rightarrow> ('e, 'b list) result" where
  "try_map f [] = Ok []"
| "try_map f (x # xs) = try_bind (f x) (\<lambda>y. try_bind (try_map f xs) (\<lambda>ys. Ok (y # ys)))"

section \<open>Operations\<close>

text \<open>The rows of a thread and namespace, with their identifiers.\<close>

definition thread_rows :: "string \<Rightarrow> string \<Rightarrow> 'c sql_db \<Rightarrow> (string \<times> 'c ck_row) list" where
  "thread_rows tid ns db = filter_map (\<lambda>((t, n, i), row). if t = tid \<and> n = ns then Some (i, row) else None) (db_checkpoints db)"

text \<open>The rows of \<open>checkpoint_writes\<close> for a checkpoint, \<open>ORDER BY task_id, idx\<close>.\<close>

definition write_row_cmp :: "(write_row_key \<times> string \<times> string) \<Rightarrow> (write_row_key \<times> string \<times> string) \<Rightarrow> ordering" where
  "write_row_cmp a b = (case (a, b) of (((_, ta, ia), _), ((_, tb, ib), _)) \<Rightarrow> (case str_cmp ta tb of
       Equal \<Rightarrow> (if ia < ib then Less else if ia = ib then Equal else Greater)
     | o' \<Rightarrow> o'))"

definition checkpoint_write_rows :: "ck_key \<Rightarrow> 'c sql_db \<Rightarrow> (write_row_key \<times> string \<times> string) list" where
  "checkpoint_write_rows k db = sort_by write_row_cmp (filter (\<lambda>((k', _, _), _). k' = k) (db_writes db))"

definition load_pending_writes :: "'c sql_backend \<Rightarrow> ck_key \<Rightarrow> 'c sql_db \<Rightarrow> (core_checkpoint_error, pending_write list) result" where
  "load_pending_writes B k db = try_map (\<lambda>((_, task, _), channel, v).
     try_bind (dec_col (be_write B) v) (\<lambda>j. Ok \<lparr>pw_task_id = task, pw_channel = channel, pw_value = j\<rparr>)) (checkpoint_write_rows k db)"

text \<open>What the database contributes: the order of rows (\<open>ORDER BY created_at DESC\<close>) and its failures.\<close>

record 'c sql_env =
  se_order :: "(string \<times> 'c ck_row) list \<Rightarrow> (string \<times> 'c ck_row) list"
  se_fault :: "string option"

definition required_thread :: "saver_config \<Rightarrow> (core_checkpoint_error, string) result" where
  "required_thread c = map_err (\<lambda>e. CkStorage (saver_error_display e)) (get_thread_id c)"

definition statement :: "'c sql_env \<Rightarrow> 'a \<Rightarrow> (core_checkpoint_error, 'a) result" where
  "statement E v = (case se_fault E of Some e \<Rightarrow> Err (CkStorage e) | None \<Rightarrow> Ok v)"

definition select_row :: "'c sql_env \<Rightarrow> string \<Rightarrow> saver_config \<Rightarrow> 'c sql_db \<Rightarrow> (string \<times> 'c ck_row) option" where
  "select_row E tid c db = (case sc_checkpoint_id c of
       Some i \<Rightarrow> map_option (Pair i) (im_get (db_checkpoints db) (tid, get_checkpoint_ns c, i))
     | None \<Rightarrow> (case se_order E (thread_rows tid (get_checkpoint_ns c) db) of [] \<Rightarrow> None | r # _ \<Rightarrow> Some r))"

definition sql_get_tuple :: "'c sql_backend \<Rightarrow> 'c sql_env \<Rightarrow> saver_config \<Rightarrow> 'c sql_db \<Rightarrow> (core_checkpoint_error, checkpoint_tuple option) result" where
  "sql_get_tuple B E c db = try_bind (required_thread c) (\<lambda>tid. try_bind (statement E (select_row E tid c db)) (\<lambda>row.
     case row of
       None \<Rightarrow> Ok None
     | Some (i, r) \<Rightarrow> try_bind (row_to_tuple B c i r) (\<lambda>t.
         try_bind (load_pending_writes B (tid, get_checkpoint_ns c, i) db) (\<lambda>ws. Ok (Some (t\<lparr>tp_pending_writes := ws\<rparr>))))))"

definition non_limit_filter :: "checkpoint_filter option \<Rightarrow> bool" where
  "non_limit_filter f = (case f of Some f \<Rightarrow> cf_source f \<noteq> None \<or> cf_step_gte f \<noteq> None \<or> cf_step_lte f \<noteq> None \<or> cf_before f \<noteq> None \<or> cf_after f \<noteq> None
     | None \<Rightarrow> False)"

definition sql_list :: "'c sql_backend \<Rightarrow> 'c sql_env \<Rightarrow> saver_config \<Rightarrow> checkpoint_filter option \<Rightarrow> 'c sql_db \<Rightarrow> (core_checkpoint_error, checkpoint_tuple list) result" where
  "sql_list B E c f db = try_bind (required_thread c) (\<lambda>tid. let
     rows = se_order E (thread_rows tid (get_checkpoint_ns c) db);
     limit = (case Option.bind f cf_limit of Some n \<Rightarrow> n | None \<Rightarrow> 10)
     in try_bind (if non_limit_filter f then Ok rows
          else if limit < 2 ^ 63 then Ok (take limit rows)
          else Err (CkStorage ''out of range integral type conversion attempted'')) (\<lambda>rows.
        try_bind (statement E rows) (\<lambda>rows.
        try_bind (map_err (\<lambda>e. CkStorage (checkpoint_error_display e)) (try_map (\<lambda>(i, r). row_to_tuple B c i r) rows)) (\<lambda>ts.
          Ok (case f of
              Some f' \<Rightarrow> (if non_limit_filter f then apply_filter f' ts else (case cf_limit f' of Some n \<Rightarrow> take n ts | None \<Rightarrow> ts))
            | None \<Rightarrow> ts)))))"

definition enc_col :: "('a, 'c) column \<Rightarrow> 'a \<Rightarrow> (core_checkpoint_error, 'c) result" where
  "enc_col col v = map_err CkStorage (col_enc col v)"

definition encode_row :: "'c sql_backend \<Rightarrow> stored_checkpoint \<Rightarrow> checkpoint_metadata \<Rightarrow> (core_checkpoint_error, 'c ck_row) result" where
  "encode_row B ck md =
     try_bind (enc_col (be_values B) (sck_channel_values ck)) (\<lambda>values. try_bind (enc_col (be_versions B) (sck_channel_versions ck)) (\<lambda>versions.
     try_bind (enc_col (be_seen B) (sck_versions_seen ck)) (\<lambda>seen. try_bind (enc_col (be_tasks B) (sck_pending_tasks ck)) (\<lambda>tasks.
     try_bind (enc_col (be_sends B) (sck_pending_sends ck)) (\<lambda>sends. try_bind (enc_col (be_interrupts B) (sck_pending_interrupts ck)) (\<lambda>interrupts.
     try_bind (enc_col (be_metadata B) md) (\<lambda>metadata.
       Ok \<lparr>cr_parent = im_get (md_parents md) [], cr_values = values, cr_versions = versions, cr_seen = seen, cr_tasks = tasks, cr_sends = sends,
         cr_interrupts = interrupts, cr_schema = int (sck_schema_version ck), cr_metadata = metadata, cr_created = sck_created_at ck\<rparr>)))))))"

text \<open>\<open>INSERT ... ON CONFLICT DO UPDATE\<close>: every column but the creation time is replaced.\<close>

definition upsert_row :: "ck_key \<Rightarrow> 'c ck_row \<Rightarrow> (ck_key, 'c ck_row) imap \<Rightarrow> (ck_key, 'c ck_row) imap" where
  "upsert_row k row m = im_insert k (case im_get m k of Some old \<Rightarrow> row\<lparr>cr_created := cr_created old\<rparr> | None \<Rightarrow> row) m"

definition sql_put ::
    "'c sql_backend \<Rightarrow> 'c sql_env \<Rightarrow> saver_config \<Rightarrow> stored_checkpoint \<Rightarrow> checkpoint_metadata \<Rightarrow> 'c sql_db \<Rightarrow> 'c sql_db \<times> (core_checkpoint_error, saver_config) result" where
  "sql_put B E c ck md db = (case required_thread c of
       Inl e \<Rightarrow> (db, Err e)
     | Inr tid \<Rightarrow> (case try_bind (encode_row B ck md) (statement E) of
         Inl e \<Rightarrow> (db, Err e)
       | Inr row \<Rightarrow> (let ns = get_checkpoint_ns c in
           (db\<lparr>db_checkpoints := upsert_row (tid, ns, sck_id ck) row (db_checkpoints db),
               db_writes := filter (\<lambda>(((t, n, _), _, _), _). \<not> (t = tid \<and> n = ns)) (db_writes db)\<rparr>,
            Ok (c\<lparr>sc_checkpoint_id := Some (sck_id ck)\<rparr>)))))"

definition sql_put_writes ::
    "'c sql_backend \<Rightarrow> 'c sql_env \<Rightarrow> saver_config \<Rightarrow> pending_write list \<Rightarrow> string \<Rightarrow> 'c sql_db \<Rightarrow> 'c sql_db \<times> (core_checkpoint_error, unit) result" where
  "sql_put_writes B E c ws task db = (case required_thread c of
       Inl e \<Rightarrow> (db, Err e)
     | Inr tid \<Rightarrow> (case sc_checkpoint_id c of
         None \<Rightarrow> (db, Err (CkStorage ''checkpoint_id is required''))
       | Some i \<Rightarrow> (case try_bind (try_map (\<lambda>w. try_bind (enc_col (be_write B) (pw_value w)) (\<lambda>v. Ok (pw_channel w, v))) ws) (statement E) of
           Inl e \<Rightarrow> (db, Err e)
         | Inr rows \<Rightarrow> (db\<lparr>db_writes := fold (\<lambda>(idx, row). im_insert ((tid, get_checkpoint_ns c, i), task, idx) row) (enumerate 0 rows) (db_writes db)\<rparr>, Ok ()))))"

subsection \<open>The PostgreSQL copies\<close>

text \<open>
  \<open>postgres.rs\<close> repeats the functions of \<open>sqlite.rs\<close>, statement by statement, on its own columns.  Its
  \<open>apply_list_filter\<close> is the filter of the checkpointer in memory.
\<close>

record postgres_saver =
  ps_serializer :: serialization_format
  ps_json :: "json codec"
  ps_columns :: json_columns
  ps_migrator :: "(nat \<Rightarrow> nat \<Rightarrow> json \<Rightarrow> (string, json) result) option"

definition pg :: "postgres_saver \<Rightarrow> json sql_backend" where
  "pg p = postgres_backend (ps_serializer p) (ps_json p) (ps_columns p) (ps_migrator p)"

definition postgres_with_serializer :: "serialization_format \<Rightarrow> postgres_saver \<Rightarrow> postgres_saver" where
  "postgres_with_serializer kind p = p\<lparr>ps_serializer := kind\<rparr>"

definition postgres_with_schema_migrator :: "(nat \<Rightarrow> nat \<Rightarrow> json \<Rightarrow> (string, json) result) \<Rightarrow> postgres_saver \<Rightarrow> postgres_saver" where
  "postgres_with_schema_migrator f p = p\<lparr>ps_migrator := Some f\<rparr>"

definition postgres_migrate_checkpoint_schema :: "postgres_saver \<Rightarrow> json \<Rightarrow> nat \<Rightarrow> string \<Rightarrow> (core_checkpoint_error, json) result" where
  "postgres_migrate_checkpoint_schema p = migrate_checkpoint_schema (pg p)"

definition postgres_deserialize_checkpoint :: "postgres_saver \<Rightarrow> string \<Rightarrow> json ck_row \<Rightarrow> (core_checkpoint_error, stored_checkpoint) result" where
  "postgres_deserialize_checkpoint p = deserialize_checkpoint (pg p)"

definition postgres_row_to_tuple :: "postgres_saver \<Rightarrow> saver_config \<Rightarrow> string \<Rightarrow> json ck_row \<Rightarrow> (core_checkpoint_error, checkpoint_tuple) result" where
  "postgres_row_to_tuple p = row_to_tuple (pg p)"

definition postgres_load_pending_writes :: "postgres_saver \<Rightarrow> ck_key \<Rightarrow> json sql_db \<Rightarrow> (core_checkpoint_error, pending_write list) result" where
  "postgres_load_pending_writes p = load_pending_writes (pg p)"

definition postgres_get_tuple :: "postgres_saver \<Rightarrow> json sql_env \<Rightarrow> saver_config \<Rightarrow> json sql_db \<Rightarrow> (core_checkpoint_error, checkpoint_tuple option) result" where
  "postgres_get_tuple p = sql_get_tuple (pg p)"

definition postgres_list ::
    "postgres_saver \<Rightarrow> json sql_env \<Rightarrow> saver_config \<Rightarrow> checkpoint_filter option \<Rightarrow> json sql_db \<Rightarrow> (core_checkpoint_error, checkpoint_tuple list) result" where
  "postgres_list p = sql_list (pg p)"

definition postgres_put ::
    "postgres_saver \<Rightarrow> json sql_env \<Rightarrow> saver_config \<Rightarrow> stored_checkpoint \<Rightarrow> checkpoint_metadata \<Rightarrow> json sql_db \<Rightarrow> json sql_db \<times> (core_checkpoint_error, saver_config) result" where
  "postgres_put p = sql_put (pg p)"

definition postgres_put_writes ::
    "postgres_saver \<Rightarrow> json sql_env \<Rightarrow> saver_config \<Rightarrow> pending_write list \<Rightarrow> string \<Rightarrow> json sql_db \<Rightarrow> json sql_db \<times> (core_checkpoint_error, unit) result" where
  "postgres_put_writes p = sql_put_writes (pg p)"

lemmas postgres_ops = postgres_get_tuple_def postgres_list_def postgres_put_def postgres_put_writes_def

section \<open>Columns and rows\<close>

text \<open>What the encoding of a column promises, for the values \<open>P\<close> allows.\<close>

definition col_ok :: "('a \<Rightarrow> bool) \<Rightarrow> ('a, 'c) column \<Rightarrow> bool" where
  "col_ok P col \<longleftrightarrow> (\<forall>v c. P v \<longrightarrow> col_enc col v = Ok c \<longrightarrow> col_dec col c = Ok v)"

definition is_composite :: "json \<Rightarrow> bool" where
  "is_composite v = (case v of JObj _ \<Rightarrow> True | JArr _ \<Rightarrow> True | _ \<Rightarrow> False)"

definition backend_ok :: "'c sql_backend \<Rightarrow> bool" where
  "backend_ok B \<longleftrightarrow> col_ok is_composite (be_values B) \<and> col_ok (\<lambda>_. True) (be_versions B) \<and> col_ok (\<lambda>_. True) (be_seen B) \<and>
     col_ok (\<lambda>_. True) (be_tasks B) \<and> col_ok (\<lambda>_. True) (be_sends B) \<and> col_ok (\<lambda>_. True) (be_interrupts B) \<and> col_ok (\<lambda>_. True) (be_metadata B)"

text \<open>
  What the two libraries promise: reading inverts writing, and MessagePack starts a value that \<open>P\<close> allows with a
  byte from 128 on, JSON with one below.
\<close>

definition codec_ok :: "('a \<Rightarrow> bool) \<Rightarrow> 'a codec \<Rightarrow> bool" where
  "codec_ok P cd \<longleftrightarrow> (\<forall>v b. cd_json_enc cd v = Ok b \<longrightarrow> cd_json_dec cd b = Ok v \<and> (\<exists>c rest. b = c # rest \<and> of_char c < (128 :: nat))) \<and>
     (\<forall>v b. P v \<longrightarrow> cd_mp_enc cd v = Ok b \<longrightarrow> cd_mp_dec cd b = Ok v \<and> (\<exists>c rest. b = c # rest \<and> of_char c \<ge> (128 :: nat)))"

lemma high_byte: "of_char c \<ge> (128 :: nat) \<Longrightarrow> detect_format (c # rest) = MessagePack"
  by (auto simp: detect_format_def is_ascii_whitespace_def)

lemma low_byte: "of_char c < (128 :: nat) \<Longrightarrow> detect_format (c # rest) = Json"
  by (auto simp: detect_format_def)

lemma blob_column_ok: "codec_ok P cd \<Longrightarrow> col_ok P (blob_column kind cd)"
proof -
  assume ok: "codec_ok P cd"
  have "deserialize_auto cd b = Ok v" if v: "P v" and ser: "kind_serialize kind cd v = Ok b" for v b
  proof (cases kind)
    case MessagePack
    then have "cd_mp_enc cd v = Ok b" using ser by (auto simp: kind_serialize_def map_err_def split: sum.splits)
    then obtain c rest where "cd_mp_dec cd b = Ok v" "b = c # rest" "of_char c \<ge> (128 :: nat)"
      using ok v unfolding codec_ok_def by meson
    then show ?thesis by (simp add: deserialize_auto_def high_byte kind_deserialize_def map_err_def)
  next
    case Json
    then have "cd_json_enc cd v = Ok b" using ser by (auto simp: kind_serialize_def map_err_def split: sum.splits)
    then obtain c rest where "cd_json_dec cd b = Ok v" "b = c # rest" "of_char c < (128 :: nat)"
      using ok unfolding codec_ok_def by meson
    then show ?thesis by (simp add: deserialize_auto_def low_byte kind_deserialize_def map_err_def)
  qed
  then show ?thesis by (auto simp: col_ok_def blob_column_def map_err_def split: sum.splits)
qed

lemma optional_blob_ok: "codec_ok (\<lambda>_. True) cd \<Longrightarrow> col_ok (\<lambda>_. True) (optional_blob_column kind cd)"
  using blob_column_ok [of "\<lambda>_. True" cd kind] by (auto simp: col_ok_def optional_blob_column_def map_sum_def split: sum.splits)

lemma optional_json_ok: "col_ok (\<lambda>_. True) c \<Longrightarrow> col_ok (\<lambda>_. True) (optional_json_column c)"
  by (auto simp: col_ok_def optional_json_column_def map_sum_def split: sum.splits if_splits)

definition codecs_ok :: "codecs \<Rightarrow> bool" where
  "codecs_ok cs \<longleftrightarrow> codec_ok is_composite (cs_json cs) \<and> codec_ok (\<lambda>_. True) (cs_versions cs) \<and> codec_ok (\<lambda>_. True) (cs_seen cs) \<and>
     codec_ok (\<lambda>_. True) (cs_tasks cs) \<and> codec_ok (\<lambda>_. True) (cs_sends cs) \<and> codec_ok (\<lambda>_. True) (cs_interrupts cs) \<and> codec_ok (\<lambda>_. True) (cs_metadata cs)"

lemma sqlite_backend_ok: "codecs_ok cs \<Longrightarrow> backend_ok (sqlite_backend kind cs migrator)"
  by (simp add: codecs_ok_def backend_ok_def sqlite_backend_def blob_column_ok optional_blob_ok)

definition json_columns_ok :: "json_columns \<Rightarrow> bool" where
  "json_columns_ok js \<longleftrightarrow> col_ok (\<lambda>_. True) (js_versions js) \<and> col_ok (\<lambda>_. True) (js_seen js) \<and> col_ok (\<lambda>_. True) (js_tasks js) \<and>
     col_ok (\<lambda>_. True) (js_sends js) \<and> col_ok (\<lambda>_. True) (js_interrupts js) \<and> col_ok (\<lambda>_. True) (js_metadata js)"

lemma postgres_backend_ok: "codec_ok is_composite cd \<Longrightarrow> json_columns_ok js \<Longrightarrow> backend_ok (postgres_backend kind cd js migrator)"
  by (simp add: json_columns_ok_def backend_ok_def postgres_backend_def blob_column_ok optional_json_ok)

lemma enc_col_OkD: "enc_col col v = Ok c \<Longrightarrow> col_ok P col \<Longrightarrow> P v \<Longrightarrow> dec_col col c = Ok v"
  by (auto simp: enc_col_def dec_col_def col_ok_def map_err_def split: sum.splits)

text \<open>Encryption keeps values when decrypting with the nonce in front inverts encrypting with it.\<close>

lemma encrypted_roundtrip:
  assumes "length nonce = 12" and "\<And>plain c. ci_encrypt ci nonce plain = Ok c \<Longrightarrow> ci_decrypt ci nonce c = Ok plain"
    and "\<And>b. ser v = Ok b \<Longrightarrow> des b = Ok v" and "encrypted_serialize_value ci nonce ser v = Ok b"
  shows "encrypted_deserialize_value ci des b = Ok v"
  using assms by (auto simp: encrypted_serialize_value_def encrypted_deserialize_value_def dest!: try_bind_OkD split: sum.splits)

text \<open>What is left of a checkpoint that was stored in a row created at \<open>t\<close>.\<close>

definition as_stored :: "string \<Rightarrow> stored_checkpoint \<Rightarrow> stored_checkpoint" where
  "as_stored t ck = ck\<lparr>sck_created_at := t, sck_v := 1, sck_new_versions := [], sck_counters := []\<rparr>"

lemma row_roundtrip:
  assumes ok: "backend_ok B" and enc: "encode_row B ck md = Ok row"
    and v: "is_composite (sck_channel_values ck)" "sck_schema_version ck = 1"
  shows "row_to_tuple B c (sck_id ck) (row\<lparr>cr_created := t\<rparr>) =
    Ok \<lparr>tp_config = c, tp_checkpoint = as_stored t ck, tp_metadata = md, tp_pending_writes = [], tp_parent_config = None\<rparr>"
proof -
  note B = ok [unfolded backend_ok_def]
  have "dec_col (be_values B) (cr_values row) = Ok (sck_channel_values ck)" "dec_col (be_versions B) (cr_versions row) = Ok (sck_channel_versions ck)"
    "dec_col (be_seen B) (cr_seen row) = Ok (sck_versions_seen ck)" "dec_col (be_tasks B) (cr_tasks row) = Ok (sck_pending_tasks ck)"
    "dec_col (be_sends B) (cr_sends row) = Ok (sck_pending_sends ck)" "dec_col (be_interrupts B) (cr_interrupts row) = Ok (sck_pending_interrupts ck)"
    "dec_col (be_metadata B) (cr_metadata row) = Ok md" "cr_schema row = 1"
    using enc B v by (auto simp: encode_row_def dest!: try_bind_OkD intro: enc_col_OkD)
  then show ?thesis
    using v(2) by (simp add: row_to_tuple_def deserialize_checkpoint_def schema_u32_def migrate_checkpoint_schema_def map_err_def as_stored_def)
qed

section \<open>Indexed writes\<close>

lemma sort_by_sorted_id: "sorted_wrt (\<lambda>a b. cmp a b \<noteq> Greater) xs \<Longrightarrow> sort_by cmp xs = xs"
proof (induction xs)
  case (Cons x xs)
  then have "sort_by cmp (x # xs) = insert_by cmp x xs" by (simp add: sort_by_def)
  also have "\<dots> = x # xs" using Cons.prems by (cases xs) auto
  finally show ?case .
qed simp

definition segment :: "(nat \<Rightarrow> 'k) \<Rightarrow> nat \<Rightarrow> 'v list \<Rightarrow> ('k, 'v) imap" where
  "segment key n rows = map (\<lambda>(i, r). (key i, r)) (enumerate n rows)"

lemma segment_simps [simp]: "segment key n [] = []" "segment key n (r # rs) = (key n, r) # segment key (Suc n) rs"
  by (simp_all add: segment_def)

lemma im_insert_append: "k \<notin> set (im_keys m) \<Longrightarrow> im_insert k v (m @ xs) = m @ im_insert k v xs"
  by (induction m) auto

lemma fold_insert_append:
  "\<forall>(i, _) \<in> set l. key i \<notin> set (im_keys m) \<Longrightarrow> fold (\<lambda>(i, r). im_insert (key i) r) l (m @ xs) = m @ fold (\<lambda>(i, r). im_insert (key i) r) l xs"
  by (induction l arbitrary: xs) (auto simp: im_insert_append)

lemma fold_insert_segment:
  "inj key \<Longrightarrow> fold (\<lambda>(i, r). im_insert (key i) r) (enumerate n new) (segment key n old) = segment key n (new @ drop (length new) old)"
proof (induction new arbitrary: n old)
  case (Cons r new)
  have later: "\<forall>(i, _) \<in> set (enumerate (Suc n) new). key i \<notin> set (im_keys [(key n, r)])"
    using Cons.prems by (auto simp: in_set_enumerate_eq inj_eq)
  have "im_insert (key n) r (segment key n old) = [(key n, r)] @ segment key (Suc n) (drop 1 old)"
    by (cases old) simp_all
  then have "fold (\<lambda>(i, r). im_insert (key i) r) (enumerate n (r # new)) (segment key n old)
      = [(key n, r)] @ fold (\<lambda>(i, r). im_insert (key i) r) (enumerate (Suc n) new) (segment key (Suc n) (drop 1 old))"
    using fold_insert_append [OF later] by simp
  then show ?case using Cons.IH [OF Cons.prems, of "Suc n" "drop 1 old"] by simp
qed simp

lemma segment_sorted: "sorted_wrt (\<lambda>a b. write_row_cmp a b \<noteq> Greater) (segment (\<lambda>i. (k, task, i)) n rows)"
proof (induction rows arbitrary: n)
  case (Cons r rows)
  have "write_row_cmp ((k, task, n), r) x \<noteq> Greater" if "x \<in> set (segment (\<lambda>i. (k, task, i)) (Suc n) rows)" for x
    using that by (auto simp: segment_def in_set_enumerate_eq write_row_cmp_def str_cmp_def)
  with Cons show ?case by simp
qed simp

lemma filter_segment: "filter (\<lambda>((k', _, _), _). k' = k) (segment (\<lambda>i. (k, task, i)) n rows) = segment (\<lambda>i. (k, task, i)) n rows"
  by (induction rows arbitrary: n) simp_all

lemma fold_segment_append:
  assumes "\<forall>(k', _) \<in> set m. fst k' \<noteq> k"
  shows "fold (\<lambda>(i, r). im_insert (k, task, i) r) (enumerate 0 new) (m @ segment (\<lambda>i. (k, task, i)) 0 old)
    = m @ segment (\<lambda>i. (k, task, i)) 0 (new @ drop (length new) old)"
proof -
  have "\<forall>(i, _) \<in> set (enumerate 0 new). (k, task, i) \<notin> set (im_keys m)" using assms by (auto simp: im_keys_def)
  from fold_insert_append [OF this] fold_insert_segment [of "\<lambda>i. (k, task, i)" 0 new old] show ?thesis by (simp add: inj_def)
qed

section \<open>Saving and loading\<close>

lemma try_map_list_all2: "try_map f xs = Ok ys \<longleftrightarrow> list_all2 (\<lambda>x y. f x = Ok y) xs ys"
proof (induction xs arbitrary: ys)
  case (Cons x xs)
  show ?case
  proof (cases "f x")
    case (Inr y)
    then show ?thesis using Cons.IH by (cases "try_map f xs") (auto simp: list_all2_Cons1)
  qed (auto simp: list_all2_Cons1)
qed auto

text \<open>What reading a written value gives, as a function \<open>f\<close> of the value.\<close>

definition reads_as :: "(json, string) column \<Rightarrow> (json \<Rightarrow> json) \<Rightarrow> pending_write \<Rightarrow> string \<times> string \<Rightarrow> bool" where
  "reads_as col f w row \<longleftrightarrow> fst row = pw_channel w \<and> dec_col col (snd row) = Ok (f (pw_value w))"

lemma load_segment:
  assumes "list_all2 (reads_as (be_write B) f) ws rows"
  shows "try_map (\<lambda>((_, task, _), channel, v). try_bind (dec_col (be_write B) v) (\<lambda>j. Ok \<lparr>pw_task_id = task, pw_channel = channel, pw_value = j\<rparr>))
      (segment (\<lambda>i. (k, task, i)) n rows) = Ok (map (\<lambda>w. w\<lparr>pw_task_id := task, pw_value := f (pw_value w)\<rparr>) ws)"
  using assms by (induction arbitrary: n) (auto simp: reads_as_def split: prod.splits)

definition write_rows :: "'c sql_backend \<Rightarrow> pending_write list \<Rightarrow> (core_checkpoint_error, (string \<times> string) list) result" where
  "write_rows B ws = try_map (\<lambda>w. try_bind (enc_col (be_write B) (pw_value w)) (\<lambda>v. Ok (pw_channel w, v))) ws"

lemma write_rows_read:
  assumes "write_rows B ws = Ok rows"
    and "\<forall>w \<in> set ws. \<forall>v. enc_col (be_write B) (pw_value w) = Ok v \<longrightarrow> dec_col (be_write B) v = Ok (f (pw_value w))"
  shows "list_all2 (reads_as (be_write B) f) ws rows"
proof -
  have "list_all2 (\<lambda>w row. try_bind (enc_col (be_write B) (pw_value w)) (\<lambda>v. Ok (pw_channel w, v)) = Ok row) ws rows"
    using assms(1) by (simp add: write_rows_def try_map_list_all2)
  then show ?thesis
    by (rule list.rel_mono_strong) (use assms(2) in \<open>auto simp: reads_as_def dest!: try_bind_OkD\<close>)
qed

lemma put_writes_Ok:
  assumes "sql_put_writes B E c ws task db = (db', Ok ())" and "sc_thread_id c = Some tid" and "sc_checkpoint_id c = Some i"
  shows "\<exists>rows. write_rows B ws = Ok rows \<and> db' = db\<lparr>db_writes :=
      fold (\<lambda>(idx, row). im_insert ((tid, get_checkpoint_ns c, i), task, idx) row) (enumerate 0 rows) (db_writes db)\<rparr>"
  using assms by (auto simp: sql_put_writes_def required_thread_def get_thread_id_def map_err_def write_rows_def statement_def
      split: sum.splits option.splits dest!: try_bind_OkD)

lemma put_Ok:
  assumes "sql_put B E c ck md db = (db', Ok c')"
  shows "\<exists>tid row. sc_thread_id c = Some tid \<and> encode_row B ck md = Ok row \<and> c' = c\<lparr>sc_checkpoint_id := Some (sck_id ck)\<rparr> \<and>
     db' = db\<lparr>db_checkpoints := upsert_row (tid, get_checkpoint_ns c, sck_id ck) row (db_checkpoints db),
       db_writes := filter (\<lambda>(((t, n, _), _, _), _). \<not> (t = tid \<and> n = get_checkpoint_ns c)) (db_writes db)\<rparr>"
  using assms by (auto simp: sql_put_def required_thread_def get_thread_id_def map_err_def Let_def statement_def
      split: sum.splits option.splits dest!: try_bind_OkD)

text \<open>The creation time of the row a checkpoint is saved to.\<close>

definition row_created :: "'c sql_db \<Rightarrow> saver_config \<Rightarrow> stored_checkpoint \<Rightarrow> string" where
  "row_created db c ck = (case Option.bind (sc_thread_id c) (\<lambda>tid. im_get (db_checkpoints db) (tid, get_checkpoint_ns c, sck_id ck)) of
       Some old \<Rightarrow> cr_created old
     | None \<Rightarrow> sck_created_at ck)"

lemma encode_row_created: "encode_row B ck md = Ok row \<Longrightarrow> cr_created row = sck_created_at ck"
  by (auto simp: encode_row_def dest!: try_bind_OkD)

lemma put_writes_get:
  assumes ok: "backend_ok B" and v: "is_composite (sck_channel_values ck)" "sck_schema_version ck = 1"
    and put: "sql_put B E c ck md db = (db1, Ok c')"
    and w1: "sql_put_writes B E1 c' ws1 task db1 = (db2, Ok ())" and w2: "sql_put_writes B E2 c' ws2 task db2 = (db3, Ok ())"
    and reads: "\<forall>w \<in> set ws1 \<union> set ws2. \<forall>v. enc_col (be_write B) (pw_value w) = Ok v \<longrightarrow> dec_col (be_write B) v = Ok (f (pw_value w))"
    and alive: "se_fault E3 = None"
  shows "sql_get_tuple B E3 c' db3 = Ok (Some \<lparr>tp_config = c', tp_checkpoint = as_stored (row_created db c ck) ck, tp_metadata = md,
     tp_pending_writes = map (\<lambda>w. w\<lparr>pw_task_id := task, pw_value := f (pw_value w)\<rparr>) (ws2 @ drop (length ws2) ws1), tp_parent_config = None\<rparr>)"
proof -
  from put_Ok [OF put] obtain tid row where tid: "sc_thread_id c = Some tid" and enc: "encode_row B ck md = Ok row"
    and c': "c' = c\<lparr>sc_checkpoint_id := Some (sck_id ck)\<rparr>"
    and db1: "db1 = db\<lparr>db_checkpoints := upsert_row (tid, get_checkpoint_ns c, sck_id ck) row (db_checkpoints db),
       db_writes := filter (\<lambda>(((t, n, _), _, _), _). \<not> (t = tid \<and> n = get_checkpoint_ns c)) (db_writes db)\<rparr>" by blast
  let ?k = "(tid, get_checkpoint_ns c, sck_id ck)" and ?seg = "\<lambda>rows. segment (\<lambda>i. ((tid, get_checkpoint_ns c, sck_id ck), task, i)) 0 rows"
  have cfg: "sc_thread_id c' = Some tid" "sc_checkpoint_id c' = Some (sck_id ck)" "get_checkpoint_ns c' = get_checkpoint_ns c"
    using tid by (simp_all add: c')
  from put_writes_Ok [OF w1 cfg(1,2)] obtain r1 where r1: "write_rows B ws1 = Ok r1"
    and db2: "db2 = db1\<lparr>db_writes := fold (\<lambda>(idx, row). im_insert (?k, task, idx) row) (enumerate 0 r1) (db_writes db1)\<rparr>"
    unfolding cfg(3) by blast
  from put_writes_Ok [OF w2 cfg(1,2)] obtain r2 where r2: "write_rows B ws2 = Ok r2"
    and db3: "db3 = db2\<lparr>db_writes := fold (\<lambda>(idx, row). im_insert (?k, task, idx) row) (enumerate 0 r2) (db_writes db2)\<rparr>"
    unfolding cfg(3) by blast
  have clean: "\<forall>(k', _) \<in> set (db_writes db1). fst k' \<noteq> ?k" by (auto simp: db1)
  have "db_writes db2 = db_writes db1 @ ?seg r1"
    using fold_segment_append [OF clean, of task r1 "[]"] by (simp add: db2)
  then have writes: "db_writes db3 = db_writes db1 @ ?seg (r2 @ drop (length r2) r1)"
    using fold_segment_append [OF clean, of task r2 r1] by (simp add: db3)
  have none: "filter (\<lambda>((k', _, _), _). k' = ?k) (db_writes db1) = []"
    using clean by (auto simp: filter_empty_conv)
  have rows: "checkpoint_write_rows ?k db3 = ?seg (r2 @ drop (length r2) r1)"
    unfolding checkpoint_write_rows_def writes filter_append none filter_segment
    by (simp only: append_Nil, rule sort_by_sorted_id, rule segment_sorted)
  have l1: "list_all2 (reads_as (be_write B) f) ws1 r1" and l2: "list_all2 (reads_as (be_write B) f) ws2 r2"
    using write_rows_read [OF r1, of f] write_rows_read [OF r2, of f] reads by auto
  have "length ws2 = length r2" using l2 by (rule list_all2_lengthD)
  then have "list_all2 (reads_as (be_write B) f) (ws2 @ drop (length ws2) ws1) (r2 @ drop (length r2) r1)"
    using l1 l2 by (auto intro: list_all2_appendI list_all2_dropI)
  from load_segment [OF this, where task = task and k = ?k and n = 0] have load:
    "load_pending_writes B ?k db3 = Ok (map (\<lambda>w. w\<lparr>pw_task_id := task, pw_value := f (pw_value w)\<rparr>) (ws2 @ drop (length ws2) ws1))"
    by (simp add: load_pending_writes_def rows)
  have stored: "im_get (db_checkpoints db3) ?k = Some (row\<lparr>cr_created := row_created db c ck\<rparr>)"
    using encode_row_created [OF enc] tid by (auto simp: db3 db2 db1 upsert_row_def row_created_def split: option.splits)
  show ?thesis
    using alive load stored row_roundtrip [OF ok enc v, of c' "row_created db c ck"]
    by (simp add: sql_get_tuple_def required_thread_def get_thread_id_def map_err_def cfg statement_def select_row_def)
qed

section \<open>Properties\<close>


text \<open>A concrete back end, with cells that keep the value itself; the text columns hold numbers in unary.\<close>

definition exact_column :: "('a \<Rightarrow> 'c) \<Rightarrow> ('c \<Rightarrow> 'a) \<Rightarrow> ('a, 'c) column" where
  "exact_column enc dec = \<lparr>col_enc = (\<lambda>v. Ok (enc v)), col_dec = (\<lambda>c. Ok (dec c))\<rparr>"

lemma exact_column_ok: "(\<And>v. dec (enc v) = v) \<Longrightarrow> col_ok P (exact_column enc dec)"
  by (auto simp: col_ok_def exact_column_def)

datatype cell =
    CellVersions "(string, nat) imap" | CellSeen "(string, (string, nat) imap) imap" | CellTasks "checkpoint_pending_task list"
  | CellSends "serialized_send list" | CellInterrupts "interrupt_signal list" | CellMetadata checkpoint_metadata

definition number_column :: "(json, string) column" where
  "number_column = \<lparr>col_enc = (\<lambda>v. case v of JNum n \<Rightarrow> Ok (replicate n CHR ''1'') | JObj [] \<Rightarrow> Ok ''{'' | JArr [] \<Rightarrow> Ok ''['' | _ \<Rightarrow> Err ''unsupported''),
     col_dec = (\<lambda>t. if t = ''{'' then Ok (JObj []) else if t = ''['' then Ok (JArr []) else Ok (JNum (length t)))\<rparr>"

definition cell_backend :: "cell sql_backend" where
  "cell_backend = \<lparr>be_name = ''cells'', be_values = number_column,
     be_versions = exact_column CellVersions (\<lambda>c. case c of CellVersions v \<Rightarrow> v | _ \<Rightarrow> []),
     be_seen = exact_column CellSeen (\<lambda>c. case c of CellSeen v \<Rightarrow> v | _ \<Rightarrow> []),
     be_tasks = exact_column (Some \<circ> CellTasks) (\<lambda>c. case c of Some (CellTasks v) \<Rightarrow> v | _ \<Rightarrow> []),
     be_sends = exact_column (Some \<circ> CellSends) (\<lambda>c. case c of Some (CellSends v) \<Rightarrow> v | _ \<Rightarrow> []),
     be_interrupts = exact_column (Some \<circ> CellInterrupts) (\<lambda>c. case c of Some (CellInterrupts v) \<Rightarrow> v | _ \<Rightarrow> []),
     be_metadata = exact_column CellMetadata (\<lambda>c. case c of CellMetadata v \<Rightarrow> v | _ \<Rightarrow> undefined),
     be_write = number_column, be_migrator = None\<rparr>"

lemma number_column_ok: "col_ok P number_column"
proof -
  have "col_dec number_column c = Ok v" if "col_enc number_column v = Ok c" for v c
  proof (cases v)
    case (JNum n)
    then have "c = replicate n CHR ''1''" using that by (simp add: number_column_def)
    then show ?thesis using JNum by (cases n) (auto simp: number_column_def)
  next
    case (JObj o')
    then show ?thesis using that by (cases o') (auto simp: number_column_def)
  next
    case (JArr xs)
    then show ?thesis using that by (cases xs) (auto simp: number_column_def)
  qed (use that in \<open>simp_all add: number_column_def\<close>)
  then show ?thesis by (simp add: col_ok_def)
qed

lemma cell_backend_ok: "backend_ok cell_backend"
  by (simp add: backend_ok_def cell_backend_def number_column_ok exact_column_ok)

definition example_env :: "'c sql_env" where
  "example_env = \<lparr>se_order = id, se_fault = None\<rparr>"

definition example_db :: "'c sql_db" where
  "example_db = \<lparr>db_checkpoints = [], db_writes = []\<rparr>"

definition example_stored :: stored_checkpoint where
  "example_stored = \<lparr>sck_id = ''a'', sck_channel_values = JObj [], sck_channel_versions = [], sck_versions_seen = [], sck_pending_tasks = [],
     sck_pending_sends = [], sck_pending_interrupts = [], sck_schema_version = 1, sck_created_at = ''now'', sck_v = 1, sck_new_versions = [], sck_counters = []\<rparr>"

definition example_md :: checkpoint_metadata where
  "example_md = \<lparr>md_source = SourceLoop, md_step = 0, md_writes = [], md_parents = [], md_run_id = ''r'', md_return_value = None\<rparr>"

definition example_config :: saver_config where
  "example_config = \<lparr>sc_thread_id = Some ''t'', sc_checkpoint_id = None, sc_checkpoint_ns = None\<rparr>"

definition example_write :: "json \<Rightarrow> pending_write" where
  "example_write v = \<lparr>pw_task_id = [], pw_channel = ''c'', pw_value = v\<rparr>"

lemmas example_sql_defs = sql_put_def sql_put_writes_def required_thread_def get_thread_id_def map_err_def statement_def encode_row_def enc_col_def
  example_env_def example_config_def example_stored_def example_md_def example_write_def


text \<open>
  PostgreSQL's pending writes change numbers.  With the default serializer a number from 48 to 57 is stored as the one
  byte MessagePack gives it, which is an ASCII digit; the reader takes that byte for JSON and gives back the digit.
\<close>

theorem postgres_numbers_change:
  assumes cd: "codec_ok is_composite (ps_json p)" "json_columns_ok (ps_columns p)" and d: "d < 10" and kind: "ps_serializer p = MessagePack"
    and fixint: "cd_mp_enc (ps_json p) (JNum (48 + d)) = Ok [char_of (48 + d)]" and digit: "cd_json_dec (ps_json p) [char_of (48 + d)] = Ok (JNum d)"
    and put: "postgres_put p E c ck md db = (db1, Ok c')"
    and ck: "is_composite (sck_channel_values ck)" "sck_schema_version ck = 1"
    and w: "postgres_put_writes p E c' [\<lparr>pw_task_id = task, pw_channel = ch, pw_value = JNum (48 + d)\<rparr>] task db1 = (db2, Ok ())"
    and alive: "se_fault E' = None"
  shows "\<exists>t. postgres_get_tuple p E' c' db2 = Ok (Some t) \<and>
     tp_pending_writes t = [\<lparr>pw_task_id = task, pw_channel = ch, pw_value = JNum d\<rparr>]"
proof -
  let ?B = "pg p" and ?w = "\<lparr>pw_task_id = task, pw_channel = ch, pw_value = JNum (48 + d)\<rparr>"
  have low: "detect_format [char_of (48 + d)] = Json" by (rule low_byte) (use d in simp)
  have "enc_col (be_write ?B) (JNum (48 + d)) = Ok v \<Longrightarrow> dec_col (be_write ?B) v = Ok (JNum d)" for v
    using fixint digit low kind
    by (auto simp: pg_def postgres_backend_def blob_column_def enc_col_def dec_col_def kind_serialize_def map_err_def deserialize_auto_def kind_deserialize_def)
  then have reads: "\<forall>w \<in> set [] \<union> set [?w]. \<forall>v. enc_col (be_write ?B) (pw_value w) = Ok v \<longrightarrow> dec_col (be_write ?B) v = Ok ((\<lambda>_. JNum d) (pw_value w))"
    by simp
  note put' = put [unfolded postgres_ops] and w' = w [unfolded postgres_ops]
  from put_Ok [OF put'] have "\<exists>tid. sc_thread_id c' = Some tid" "sc_checkpoint_id c' \<noteq> None" by auto
  then have w0: "sql_put_writes ?B \<lparr>se_order = id, se_fault = None\<rparr> c' [] task db1 = (db1, Ok ())"
    by (auto simp: sql_put_writes_def required_thread_def get_thread_id_def map_err_def statement_def)
  have "backend_ok ?B" unfolding pg_def by (rule postgres_backend_ok [OF cd])
  from put_writes_get [OF this ck put' w0 w' reads alive] show ?thesis by (simp add: postgres_ops)
qed

text \<open>Concrete libraries for numbers and the empty object, and JSON columns that hold one value.\<close>

definition tiny_codec :: "json codec" where
  "tiny_codec = \<lparr>
     cd_json_enc = (\<lambda>v. case v of JNum n \<Rightarrow> (if n < 10 then Ok [char_of (48 + n)] else Err ''unsupported'') | JObj [] \<Rightarrow> Ok [CHR 0x7B] | _ \<Rightarrow> Err ''unsupported''),
     cd_json_dec = (\<lambda>t. case t of [c] \<Rightarrow> (if c = CHR 0x7B then Ok (JObj []) else Ok (JNum (of_char c - 48))) | _ \<Rightarrow> Err ''bad''),
     cd_mp_enc = (\<lambda>v. case v of JNum n \<Rightarrow> (if n < 128 then Ok [char_of n] else Err ''unsupported'') | JObj [] \<Rightarrow> Ok [CHR 0x80] | _ \<Rightarrow> Err ''unsupported''),
     cd_mp_dec = (\<lambda>t. if t = [CHR 0x80] then Ok (JObj []) else Err ''bad'')\<rparr>"

lemma digit_char: "n < 10 \<Longrightarrow> (char_of (48 + n :: nat) :: char) \<noteq> CHR 0x7B"
proof
  assume n: "n < 10" and "(char_of (48 + n) :: char) = CHR 0x7B"
  then have "of_char (char_of (48 + n) :: char) = (of_char (CHR 0x7B) :: nat)" by simp
  with n show False by simp
qed

lemma tiny_codec_ok: "codec_ok is_composite tiny_codec"
proof -
  have "cd_json_dec tiny_codec b = Ok v \<and> (\<exists>c rest. b = c # rest \<and> of_char c < (128 :: nat))" if "cd_json_enc tiny_codec v = Ok b" for v b
    using that digit_char by (auto simp: tiny_codec_def split: json.splits if_splits list.splits)
  moreover have "cd_mp_dec tiny_codec b = Ok v \<and> (\<exists>c rest. b = c # rest \<and> of_char c \<ge> (128 :: nat))" if "is_composite v" "cd_mp_enc tiny_codec v = Ok b" for v b
    using that by (auto simp: tiny_codec_def is_composite_def split: json.splits list.splits)
  ultimately show ?thesis unfolding codec_ok_def by blast
qed

definition single_column :: "'a \<Rightarrow> ('a, json) column" where
  "single_column v0 = \<lparr>col_enc = (\<lambda>v. if v = v0 then Ok JNull else Err ''unsupported''), col_dec = (\<lambda>_. Ok v0)\<rparr>"

definition tiny_columns :: json_columns where
  "tiny_columns = \<lparr>js_versions = single_column [], js_seen = single_column [], js_tasks = single_column [], js_sends = single_column [],
     js_interrupts = single_column [], js_metadata = single_column example_md\<rparr>"

lemma tiny_columns_ok: "json_columns_ok tiny_columns"
  by (simp add: json_columns_ok_def tiny_columns_def col_ok_def single_column_def)

definition tiny_saver :: postgres_saver where
  "tiny_saver = \<lparr>ps_serializer = MessagePack, ps_json = tiny_codec, ps_columns = tiny_columns, ps_migrator = None\<rparr>"

lemma tiny_saver_fields: "ps_serializer tiny_saver = MessagePack" "ps_json tiny_saver = tiny_codec" "ps_columns tiny_saver = tiny_columns"
  by (simp_all add: tiny_saver_def)

theorem postgres_numbers_change_witness:
  "\<exists>db1 db2 c' t. postgres_put tiny_saver example_env example_config example_stored example_md example_db = (db1, Ok c') \<and>
     postgres_put_writes tiny_saver example_env c' [\<lparr>pw_task_id = ''k'', pw_channel = ''c'', pw_value = JNum 53\<rparr>] ''k'' db1 = (db2, Ok ()) \<and>
     postgres_get_tuple tiny_saver example_env c' db2 = Ok (Some t) \<and>
     tp_pending_writes t = [\<lparr>pw_task_id = ''k'', pw_channel = ''c'', pw_value = JNum 5\<rparr>]"
proof -
  obtain db1 c' where put: "postgres_put tiny_saver example_env example_config example_stored example_md example_db = (db1, Ok c')"
    by (simp add: postgres_ops pg_def tiny_saver_def example_sql_defs postgres_backend_def blob_column_def kind_serialize_def tiny_codec_def tiny_columns_def single_column_def optional_json_column_def Let_def)
  have c': "c' = example_config\<lparr>sc_checkpoint_id := Some ''a''\<rparr>" using put_Ok [OF put [unfolded postgres_ops]] by (auto simp: example_stored_def)
  obtain db2 where w: "postgres_put_writes tiny_saver example_env c' [\<lparr>pw_task_id = ''k'', pw_channel = ''c'', pw_value = JNum (48 + 5)\<rparr>] ''k'' db1 = (db2, Ok ())"
    by (simp add: postgres_ops pg_def tiny_saver_def example_sql_defs c' postgres_backend_def blob_column_def kind_serialize_def tiny_codec_def)
  have lib: "cd_mp_enc tiny_codec (JNum (48 + 5)) = Ok [char_of (48 + 5 :: nat)]" "cd_json_dec tiny_codec [char_of (48 + 5 :: nat)] = Ok (JNum 5)"
    using digit_char [of 5] by (simp_all add: tiny_codec_def)
  have s: "is_composite (sck_channel_values example_stored)" "sck_schema_version example_stored = 1" "se_fault (example_env :: json sql_env) = None"
    by (simp_all add: example_stored_def is_composite_def example_env_def)
  have "(5 :: nat) < 10" by simp
  from postgres_numbers_change [of tiny_saver, unfolded tiny_saver_fields, OF tiny_codec_ok tiny_columns_ok this refl lib put s(1,2) w s(3)] put w show ?thesis by auto
qed

section \<open>As a checkpointer\<close>

definition sql_saver_api :: "'c sql_backend \<Rightarrow> 'c sql_env \<Rightarrow> 'c sql_db saver_api" where
  "sql_saver_api B E = \<lparr>sa_get_tuple = (\<lambda>c db. (db, sql_get_tuple B E c db)), sa_list = (\<lambda>c f db. (db, sql_list B E c f db)), sa_put = sql_put B E\<rparr>"

text \<open>A checkpoint a row can hold entirely, saved under a new identifier on a database that answers.\<close>

definition sql_admits :: "'c sql_backend \<Rightarrow> 'c sql_env \<Rightarrow> 'c sql_db \<Rightarrow> saver_config \<Rightarrow> stored_checkpoint \<Rightarrow> bool" where
  "sql_admits B E db c ck \<longleftrightarrow> backend_ok B \<and> se_fault E = None \<and> is_composite (sck_channel_values ck) \<and> sck_schema_version ck = 1 \<and>
     as_stored (row_created db c ck) ck = ck"

interpretation sql: checkpointer "sql_saver_api B E" "sql_admits B E" for B E
proof
  fix db c ck md db' c'
  assume ok: "sql_admits B E db c ck" and "sa_put (sql_saver_api B E) c ck md db = (db', Inr c')"
  then have put: "sql_put B E c ck md db = (db', Ok c')" by (simp add: sql_saver_api_def)
  from put_Ok [OF put] have w0: "sql_put_writes B E c' [] [] db' = (db', Ok ())"
    using ok by (auto simp: sql_put_writes_def required_thread_def get_thread_id_def map_err_def statement_def sql_admits_def)
  have "sql_get_tuple B E c' db' = Ok (Some \<lparr>tp_config = c', tp_checkpoint = ck, tp_metadata = md, tp_pending_writes = [], tp_parent_config = None\<rparr>)"
    using ok put_writes_get [OF _ _ _ put w0 w0, where f = id and ?E3.0 = E] by (simp add: sql_admits_def)
  then show "\<exists>c'' t. sa_get_tuple (sql_saver_api B E) c' db' = (c'', Inr (Some t)) \<and> tp_checkpoint t = ck \<and> tp_metadata t = md"
    by (simp add: sql_saver_api_def)
qed

text \<open>So \<open>get_state\<close> reads a saved state back from a database as it does from the checkpointer in memory.\<close>

lemma database_state_readable:
  assumes "sql_admits B E db c ck" and "sql_put B E c ck md db = (db', Ok c')" and "deserialize_with_migration cd ck = Inr s"
  shows "\<exists>sn. snd (get_state cd (Some (sql_saver_api B E)) c' db') = Inr (Some sn) \<and> sn_values sn = s \<and>
     sn_metadata sn = md \<and> sn_next sn = map cpt_node (sck_pending_tasks ck)"
  using assms by (intro sql.get_state_after_put) (simp_all add: sql_saver_api_def)

text \<open>
  On a database checkpointer a state update shows: \<open>update_state\<close> overwrites the row of the checkpoint it loaded, and
  the state read by the returned configuration is the updated one, with one checkpoint as before.
\<close>

theorem sql_update_visible:
  assumes ok: "backend_ok B" and alive: "se_fault E = None"
    and up: "update_state S cd (Some (sql_saver_api B E)) config u db = Some (db', Inr config')"
    and rt: "\<And>s v. sd_encode cd s = Inr v \<Longrightarrow> sd_decode cd v = Inr s \<and> is_composite v"
    and version: "sd_schema_version cd = 1" "\<And>t. sql_get_tuple B E config db = Ok (Some t) \<Longrightarrow> sck_schema_version (tp_checkpoint t) = 1"
  shows "\<exists>t s sn. sql_get_tuple B E config db = Ok (Some t) \<and> deserialize_with_migration cd (tp_checkpoint t) = Inr s \<and>
     snd (get_state cd (Some (sql_saver_api B E)) config' db') = Inr (Some sn) \<and> sn_values sn = fst (st_apply S s (su_update u)) \<and>
     im_keys (db_checkpoints db') = (let k = (the (sc_thread_id config), get_checkpoint_ns config, sck_id (tp_checkpoint t)) in
       if im_contains (db_checkpoints db) k then im_keys (db_checkpoints db) else im_keys (db_checkpoints db) @ [k])"
proof -
  from update_state_puts [OF up] obtain t s v md where got: "sql_get_tuple B E config db = Ok (Some t)"
    and dec: "deserialize_with_migration cd (tp_checkpoint t) = Inr s" and v: "sd_encode cd (fst (st_apply S s (su_update u))) = Inr v"
    and put: "sql_put B E config ((tp_checkpoint t)\<lparr>sck_channel_values := v\<rparr>) md db = (db', Ok config')"
    by (auto simp: sql_saver_api_def)
  let ?ck = "(tp_checkpoint t)\<lparr>sck_channel_values := v\<rparr>"
  from put_Ok [OF put] obtain tid row where p: "sc_thread_id config = Some tid" "config' = config\<lparr>sc_checkpoint_id := Some (sck_id ?ck)\<rparr>"
    "db_checkpoints db' = upsert_row (tid, get_checkpoint_ns config, sck_id (tp_checkpoint t)) row (db_checkpoints db)" by auto
  have sv: "sck_schema_version ?ck = 1" "is_composite (sck_channel_values ?ck)" using version(2) [OF got] rt [OF v] by simp_all
  have w0: "sql_put_writes B \<lparr>se_order = id, se_fault = None\<rparr> config' [] [] db' = (db', Ok ())"
    using p by (simp add: sql_put_writes_def required_thread_def get_thread_id_def map_err_def statement_def)
  from put_writes_get [OF ok sv(2,1) put w0 w0 _ alive, where f = id]
  have loaded: "sql_get_tuple B E config' db' = Ok (Some \<lparr>tp_config = config', tp_checkpoint = as_stored (row_created db config ?ck) ?ck, tp_metadata = md,
      tp_pending_writes = [], tp_parent_config = None\<rparr>)" by simp
  have "deserialize_with_migration cd (as_stored (row_created db config ?ck) ?ck) = Inr (fst (st_apply S s (su_update u)))"
    using version(1) sv rt [OF v] by (simp add: deserialize_with_migration_def as_stored_def)
  then have "\<exists>sn. snd (get_state cd (Some (sql_saver_api B E)) config' db') = Inr (Some sn) \<and> sn_values sn = fst (st_apply S s (su_update u))"
    using loaded by (simp add: get_state_def checkpoint_err_def sql_saver_api_def snapshot_of_def)
  moreover have "im_keys (db_checkpoints db') = (let k = (the (sc_thread_id config), get_checkpoint_ns config, sck_id (tp_checkpoint t)) in
       if im_contains (db_checkpoints db) k then im_keys (db_checkpoints db) else im_keys (db_checkpoints db) @ [k])"
    by (simp add: p upsert_row_def im_keys_insert Let_def)
  ultimately show ?thesis using got dec by blast
qed

text \<open>A state of two values, stored as the empty object and the empty array.\<close>

definition flag_codec :: "nat state_codec" where
  "flag_codec = \<lparr>sd_schema_version = 1, sd_migrate = (\<lambda>_ v. v),
     sd_decode = (\<lambda>v. if v = JObj [] then Ok 0 else if v = JArr [] then Ok 1 else Err ''bad''),
     sd_encode = (\<lambda>n. if n = 0 then Ok (JObj []) else if n = 1 then Ok (JArr []) else Err ''bad'')\<rparr>"

theorem sql_update_visible_witness:
  "\<exists>db c db' config' sn. sql_put cell_backend example_env example_config example_stored example_md example_db = (db, Ok c) \<and>
     update_state counter_impl flag_codec (Some (sql_saver_api cell_backend example_env)) c \<lparr>su_update = 1, su_label = None, su_as_node = None\<rparr> db = Some (db', Inr config') \<and>
     snd (get_state flag_codec (Some (sql_saver_api cell_backend example_env)) config' db') = Inr (Some sn) \<and> sn_values sn = 1"
proof -
  let ?E = "example_env :: cell sql_env" and ?u = "\<lparr>su_update = 1 :: nat, su_label = None, su_as_node = None\<rparr>"
  obtain db c where put: "sql_put cell_backend ?E example_config example_stored example_md example_db = (db, Ok c)"
    by (simp add: example_sql_defs cell_backend_def exact_column_def number_column_def Let_def)
  have c: "c = example_config\<lparr>sc_checkpoint_id := Some ''a''\<rparr>" using put_Ok [OF put] by (auto simp: example_stored_def)
  have alive: "se_fault ?E = None" by (simp add: example_env_def)
  have stored: "is_composite (sck_channel_values example_stored)" "sck_schema_version example_stored = 1"
    by (simp_all add: example_stored_def is_composite_def)
  have w0: "sql_put_writes cell_backend ?E c [] [] db = (db, Ok ())" by (simp add: example_sql_defs c)
  from put_writes_get [OF cell_backend_ok stored put w0 w0 _ alive, where f = id]
  have got: "sql_get_tuple cell_backend ?E c db = Ok (Some \<lparr>tp_config = c, tp_checkpoint = as_stored (row_created (example_db :: cell sql_db) example_config example_stored) example_stored,
      tp_metadata = example_md, tp_pending_writes = [], tp_parent_config = None\<rparr>)" by simp
  have dec: "deserialize_with_migration flag_codec (as_stored t example_stored) = Inr 0" for t
    by (simp add: deserialize_with_migration_def as_stored_def example_stored_def flag_codec_def)
  obtain db' config' where up: "update_state counter_impl flag_codec (Some (sql_saver_api cell_backend ?E)) c ?u db = Some (db', Inr config')"
    using got dec by (simp add: update_state_def put_updated_def checkpoint_err_def next_step_def flag_codec_def counter_impl_def sql_saver_api_def
        example_sql_defs c cell_backend_def exact_column_def number_column_def as_stored_def Let_def)
  have rt: "sd_decode flag_codec v = Inr s \<and> is_composite v" if "sd_encode flag_codec s = Inr v" for s v
    using that by (auto simp: flag_codec_def is_composite_def split: if_splits)
  have version: "sd_schema_version flag_codec = 1" "sck_schema_version (tp_checkpoint t) = 1" if "sql_get_tuple cell_backend ?E c db = Ok (Some t)" for t
    using that got by (auto simp: flag_codec_def as_stored_def stored)
  note vis = sql_update_visible [OF cell_backend_ok alive up rt version(1) [OF got] version(2)]
  have "\<exists>sn. snd (get_state flag_codec (Some (sql_saver_api cell_backend ?E)) config' db') = Inr (Some sn) \<and> sn_values sn = 1"
    using vis got dec by (auto simp: counter_impl_def)
  with put up show ?thesis by blast
qed

end
