(* ===== verification/Drawing.thy ===== *)
theory Drawing
  imports Graph_Builder
begin

text \<open>
  The drawing part of \<open>juncture-core/src/graph/compiled.rs\<close>: the drawable graph with its X-ray expansion, the
  Mermaid, DOT, text and JSON renderings, and the HTML escaping of what is embedded in a page.  What a node shows
  when expanded is a parameter (\<open>Node::drawable_subgraph\<close>); the page template of \<open>to_html\<close> is fixed text.
\<close>

section \<open>Drawable graphs\<close>

record drawable_node =
  dn_name :: string
  dn_metadata :: "(string, json) imap"

record drawable_edge =
  de_from :: string
  de_to :: string
  de_conditional :: bool
  de_label :: "string option"

record drawable_graph =
  dg_nodes :: "drawable_node list"
  dg_edges :: "drawable_edge list"

fun draw_edge :: "string \<Rightarrow> 's compiled_edge \<Rightarrow> drawable_edge list" where
  "draw_edge from (CFixed target) = [\<lparr>de_from = from, de_to = target, de_conditional = False, de_label = None\<rparr>]"
| "draw_edge from (CConditional router pm) =
     map (\<lambda>(branch, target). \<lparr>de_from = from, de_to = target, de_conditional = True, de_label = Some branch\<rparr>) pm"

definition to_drawable :: "('s, 'u, 'ck) compiled_graph \<Rightarrow> drawable_graph" where
  "to_drawable cg = \<lparr>dg_nodes = map (\<lambda>n. \<lparr>dn_name = n, dn_metadata =
        (case Option.bind (im_get (cg_metadata cg) n) md_metadata of Some m \<Rightarrow> m | None \<Rightarrow> [])\<rparr>) (im_keys (cg_nodes cg)),
     dg_edges = concat (map (\<lambda>(from, es). concat (map (draw_edge from) es)) (tt_outgoing (cg_trigger_table cg)))\<rparr>"

definition in_namespace :: "string \<Rightarrow> drawable_graph \<Rightarrow> drawable_graph" where
  "in_namespace ns g = \<lparr>dg_nodes = map (\<lambda>n. n\<lparr>dn_name := ns @ ''/'' @ dn_name n\<rparr>) (dg_nodes g),
     dg_edges = map (\<lambda>e. e\<lparr>de_from := ns @ ''/'' @ de_from e, de_to := ns @ ''/'' @ de_to e\<rparr>) (dg_edges g)\<rparr>"

definition append_graph :: "drawable_graph \<Rightarrow> drawable_graph \<Rightarrow> drawable_graph" where
  "append_graph a b = \<lparr>dg_nodes = dg_nodes a @ dg_nodes b, dg_edges = dg_edges a @ dg_edges b\<rparr>"

definition get_graph ::
    "(('s, 'u) node \<Rightarrow> nat \<Rightarrow> drawable_graph option) \<Rightarrow> nat option \<Rightarrow> ('s, 'u, 'ck) compiled_graph \<Rightarrow> drawable_graph" where
  "get_graph sub xray cg = (case xray of
       None \<Rightarrow> to_drawable cg
     | Some depth \<Rightarrow> (if depth = 0 then to_drawable cg
         else fold (\<lambda>(n, node) g. case sub node (depth - 1) of
             Some inner \<Rightarrow> append_graph g (in_namespace n inner)
           | None \<Rightarrow> g) (cg_nodes cg) (to_drawable cg)))"

section \<open>Renderings\<close>

abbreviation newline :: string where
  "newline \<equiv> [CHR 10]"

abbreviation dquote :: string where
  "dquote \<equiv> [CHR 34]"

definition find_entry_point :: "('s, 'u, 'ck) compiled_graph \<Rightarrow> string option" where
  "find_entry_point cg = map_option fst (find (\<lambda>(target, sources). TrigEdge ''START'' \<in> set sources) (tt_incoming (cg_trigger_table cg)))"

definition all_edges :: "(string \<Rightarrow> string \<Rightarrow> string) \<Rightarrow> (string \<Rightarrow> string \<Rightarrow> string \<Rightarrow> string) \<Rightarrow> ('s, 'u, 'ck) compiled_graph \<Rightarrow> string list" where
  "all_edges fixed cond cg = concat (map (\<lambda>(from, es). concat (map (\<lambda>e. case e of
       CFixed target \<Rightarrow> [fixed from target]
     | CConditional _ pm \<Rightarrow> map (\<lambda>(branch, target). cond from branch target) pm) es)) (tt_outgoing (cg_trigger_table cg)))"

definition to_mermaid :: "('s, 'u, 'ck) compiled_graph \<Rightarrow> string" where
  "to_mermaid cg = join_with newline ([''graph TD''] @
     map (\<lambda>n. ''    '' @ n @ ''['' @ n @ '']'') (im_keys (cg_nodes cg)) @
     all_edges (\<lambda>f t. ''    '' @ f @ '' --> '' @ t) (\<lambda>f b t. ''    '' @ f @ '' -->|'' @ b @ ''| '' @ t) cg @
     (case find_entry_point cg of Some e \<Rightarrow> [''    START((start)) --> '' @ e] | None \<Rightarrow> []))"

definition to_dot :: "('s, 'u, 'ck) compiled_graph \<Rightarrow> string" where
  "to_dot cg = join_with newline ([''digraph juncture_graph {'', ''    rankdir=LR;'', ''    node [shape=box];'', ''    START [shape=circle];'',
       ''    END [shape=doublecircle];'', []] @
     map (\<lambda>n. ''    '' @ n @ '';'') (im_keys (cg_nodes cg)) @ [[]] @
     all_edges (\<lambda>f t. ''    '' @ f @ '' -> '' @ t @ '';'') (\<lambda>f b t. ''    '' @ f @ '' -> '' @ t @ '' [label='' @ dquote @ b @ dquote @ ''];'') cg @
     (case find_entry_point cg of Some e \<Rightarrow> [''    START -> '' @ e @ '';''] | None \<Rightarrow> []) @ [''}''])"

definition annotations :: "node_metadata option \<Rightarrow> string list" where
  "annotations md = (case md of None \<Rightarrow> []
     | Some m \<Rightarrow> (if md_retry_policies m \<noteq> [] then [''retry''] else []) @ (if md_timeout_policies m \<noteq> [] then [''timeout''] else []) @
         (if md_circuit_breaker m \<noteq> None then [''circuit-breaker''] else []) @ (if md_fallback_node m \<noteq> None then [''fallback''] else []))"

definition display_graph :: "('s, 'u, 'ck) compiled_graph \<Rightarrow> string" where
  "display_graph cg = join_with newline ([''Juncture Graph'', replicate 40 (CHR ''=''), []] @
     (case find_entry_point cg of Some e \<Rightarrow> [''Entry: '' @ e, []] | None \<Rightarrow> []) @ [''Nodes:''] @
     map (\<lambda>n. case annotations (im_get (cg_metadata cg) n) of
         [] \<Rightarrow> ''  - '' @ n
       | as \<Rightarrow> ''  - '' @ n @ '' ['' @ join_with '', '' as @ '']'') (im_keys (cg_nodes cg)) @ [[], ''Edges:''] @
     all_edges (\<lambda>f t. ''  '' @ f @ '' --> '' @ t) (\<lambda>f b t. ''  '' @ f @ '' -->|'' @ b @ ''| '' @ t) cg)"

text \<open>Objects list their members in the order of the keys.\<close>

definition drawable_json :: "drawable_graph \<Rightarrow> json" where
  "drawable_json g = JObj [
     (''edges'', JArr (map (\<lambda>e. JObj ([(''conditional'', JBool (de_conditional e)), (''from'', JStr (de_from e))] @
        (case de_label e of Some l \<Rightarrow> [(''label'', JStr l)] | None \<Rightarrow> []) @ [(''to'', JStr (de_to e))])) (dg_edges g))),
     (''nodes'', JArr (map (\<lambda>n. JObj [(''metadata'', JObj (dn_metadata n)), (''name'', JStr (dn_name n))]) (dg_nodes g)))]"

definition graph_to_json :: "('s, 'u, 'ck) compiled_graph \<Rightarrow> json" where
  "graph_to_json cg = drawable_json (to_drawable cg)"

section \<open>Escaping\<close>

definition replace_char :: "char \<Rightarrow> string \<Rightarrow> string \<Rightarrow> string" where
  "replace_char c r s = concat (map (\<lambda>x. if x = c then r else [x]) s)"

definition escape_html :: "string \<Rightarrow> string" where
  "escape_html s = replace_char (CHR 39) ''&#x27;'' (replace_char (CHR 34) ''&quot;'' (replace_char (CHR ''>'') ''&gt;''
     (replace_char (CHR ''<'') ''&lt;'' (replace_char (CHR ''&'') ''&amp;'' s))))"

section \<open>Escaping in one pass\<close>

definition escape_char :: "char \<Rightarrow> string" where
  "escape_char c = (if c = CHR ''&'' then ''&amp;'' else if c = CHR ''<'' then ''&lt;'' else if c = CHR ''>'' then ''&gt;''
     else if c = CHR 34 then ''&quot;'' else if c = CHR 39 then ''&#x27;'' else [c])"

lemma replace_char_simps [simp]:
  "replace_char c r [] = []" "replace_char c r (x # s) = (if x = c then r else [x]) @ replace_char c r s"
  "replace_char c r (s @ t) = replace_char c r s @ replace_char c r t"
  by (simp_all add: replace_char_def)

lemma escape_html_Cons: "escape_html (c # s) = escape_char c @ escape_html s"
  by (simp add: escape_html_def escape_char_def)

lemma escape_html_one_pass: "escape_html s = concat (map escape_char s)"
  by (induction s) (simp_all add: escape_html_Cons, simp add: escape_html_def)

lemma escape_char_prefix_free: "escape_char a @ x = escape_char b @ y \<Longrightarrow> a = b \<and> x = y"
  by (auto simp: escape_char_def split: if_splits)

lemma escape_html_inj: "escape_html s = escape_html t \<Longrightarrow> s = t"
proof (induction s arbitrary: t)
  case Nil
  then show ?case by (cases t) (auto simp: escape_html_one_pass escape_char_def split: if_splits)
next
  case (Cons c s)
  then obtain d t' where t: "t = d # t'"
    by (cases t) (auto simp: escape_html_one_pass escape_char_def split: if_splits)
  from Cons.prems have "escape_char c @ escape_html s = escape_char d @ escape_html t'" by (simp only: t escape_html_Cons)
  from escape_char_prefix_free [OF this] Cons.IH t show ?case by blast
qed

section \<open>Edges of the trigger table\<close>

lemma incoming_frame [simp]: "tt_outgoing (fold (\<lambda>x. add_incoming x src) ts t) = tt_outgoing t"
  by (induction ts arbitrary: t) (simp_all add: add_incoming_def)

lemma trigger_edge_wf: "im_wf (tt_outgoing t) \<Longrightarrow> im_wf (tt_outgoing (trigger_edge e t))"
  by (cases e) (auto simp: add_outgoing_def add_incoming_def im_modify_def)

lemma build_trigger_table_wf: "im_wf (tt_outgoing (build_trigger_table g))"
proof -
  have "im_wf (tt_outgoing t) \<Longrightarrow> im_wf (tt_outgoing (fold trigger_edge es t))" for es and t :: "'a trigger_table"
    by (induction es arbitrary: t) (simp_all add: trigger_edge_wf)
  then show ?thesis by (simp add: build_trigger_table_def trigger_table_new_def)
qed

lemma outgoing_pairs:
  assumes "im_wf (tt_outgoing t)"
  shows "(\<exists>es. (f, es) \<in> set (tt_outgoing t) \<and> ce \<in> set es) \<longleftrightarrow> ce \<in> set (outgoing_of t f)"
proof -
  have "(f, es) \<in> set (tt_outgoing t) \<longleftrightarrow> im_get (tt_outgoing t) f = Some es" for es
    using im_get_mem [OF assms] im_get_SomeD by metis
  then show ?thesis by (cases "im_get (tt_outgoing t) f") (simp_all add: outgoing_of_def)
qed

lemma outgoing_frame [simp]: "tt_incoming (add_outgoing f e t) = tt_incoming t"
  by (simp add: add_outgoing_def)

lemma incoming_wf_fold: "im_wf (tt_incoming t) \<Longrightarrow> im_wf (tt_incoming (fold (\<lambda>x. add_incoming x src) ts t))"
  by (induction ts arbitrary: t) (auto simp: add_incoming_def im_modify_def)

lemma build_incoming_wf: "im_wf (tt_incoming (build_trigger_table g))"
proof -
  have "im_wf (tt_incoming t) \<Longrightarrow> im_wf (tt_incoming (trigger_edge e t))" for e and t :: "'a trigger_table"
    by (cases e) (auto simp: incoming_wf_fold add_incoming_def im_modify_def)
  then have "im_wf (tt_incoming t) \<Longrightarrow> im_wf (tt_incoming (fold trigger_edge es t))" for es and t :: "'a trigger_table"
    by (induction es arbitrary: t) simp_all
  then show ?thesis by (simp add: build_trigger_table_def trigger_table_new_def)
qed

lemma edge_triggers_from: "edge_triggers e f t \<Longrightarrow> edge_from e = f"
  by (cases e) auto

text \<open>What a declared edge should look like in a drawing.\<close>

fun edge_drawn :: "'s edge \<Rightarrow> drawable_edge \<Rightarrow> bool" where
  "edge_drawn (EdgeFixed from to) d \<longleftrightarrow> from \<noteq> START \<and> to \<noteq> END \<and>
     d = \<lparr>de_from = from, de_to = to, de_conditional = False, de_label = None\<rparr>"
| "edge_drawn (EdgeConditional from _ pm) d \<longleftrightarrow> from \<noteq> START \<and>
     (\<exists>(branch, target) \<in> set pm. d = \<lparr>de_from = from, de_to = target, de_conditional = True, de_label = Some branch\<rparr>)"

lemma edge_drawn_iff: "edge_drawn e d \<longleftrightarrow> (\<exists>f ce. edge_compiles e f ce \<and> d \<in> set (draw_edge f ce))"
  by (cases e) (auto simp: image_iff split: prod.splits)

section \<open>Theorems\<close>

text \<open>
  The drawing of a compiled graph shows its nodes in registration order and exactly the declared edges, one per
  branch of a conditional edge with its label, apart from those that leave the start or lead straight to the end.
\<close>

theorem drawing_exact:
  assumes "compile_inner S cfg ck g = Some (Ok cg)"
  shows "map dn_name (dg_nodes (to_drawable cg)) = im_keys (sg_nodes g) \<and>
    set (dg_edges (to_drawable cg)) = {d. \<exists>e \<in> set (sg_edges g). edge_drawn e d}"
proof
  have cg: "cg_nodes cg = sg_nodes g" "cg_trigger_table cg = build_trigger_table g"
    using compile_inner_OkD [OF assms] by simp_all
  show "map dn_name (dg_nodes (to_drawable cg)) = im_keys (sg_nodes g)"
    by (simp add: to_drawable_def cg comp_def)
  let ?t = "build_trigger_table g"
  have out: "ce \<in> set (outgoing_of ?t f) \<longleftrightarrow> (\<exists>e \<in> set (sg_edges g). edge_compiles e f ce)" for f ce
    by (simp add: build_trigger_table_def trigger_table_outgoing)
  have "d \<in> set (dg_edges (to_drawable cg)) \<longleftrightarrow> (\<exists>f ce. (\<exists>es. (f, es) \<in> set (tt_outgoing ?t) \<and> ce \<in> set es) \<and> d \<in> set (draw_edge f ce))" for d
    by (auto simp: to_drawable_def cg)
  then have "d \<in> set (dg_edges (to_drawable cg)) \<longleftrightarrow> (\<exists>e \<in> set (sg_edges g). edge_drawn e d)" for d
    unfolding outgoing_pairs [OF build_trigger_table_wf] out edge_drawn_iff by blast
  then show "set (dg_edges (to_drawable cg)) = {d. \<exists>e \<in> set (sg_edges g). edge_drawn e d}" by blast
qed

theorem drawing_exact_witness:
  "\<exists>cg. compile_inner (derived_impl example_specs) compile_config_default (None :: unit option) example_graph = Some (Ok cg) \<and>
     map dn_name (dg_nodes (to_drawable cg)) = [''a''] \<and> dg_edges (to_drawable cg) = []"
proof -
  obtain cg where cg: "compile_inner (derived_impl example_specs) compile_config_default (None :: unit option) example_graph = Some (Ok cg)"
    using example_compiles by blast
  from drawing_exact [OF cg] have "map dn_name (dg_nodes (to_drawable cg)) = [''a'']" "set (dg_edges (to_drawable cg)) = {}"
    by (simp_all add: example_graph_fields)
  with cg show ?thesis by auto
qed

text \<open>
  The entry point is never drawn: the renderings look for an edge from \<open>START\<close> spelled out, while compiled graphs
  carry the reserved name, so unless a node happens to be called \<open>START\<close> no rendering mentions the entry point.
\<close>

theorem entry_never_drawn:
  assumes "compile_inner S cfg ck g = Some (Ok cg)" and "\<forall>e \<in> set (sg_edges g). edge_from e \<noteq> ''START''"
  shows "find_entry_point cg = None"
proof -
  have cg: "cg_trigger_table cg = build_trigger_table g" using compile_inner_OkD [OF assms(1)] by simp
  have wf: "im_wf (tt_incoming (build_trigger_table g))" by (rule build_incoming_wf)
  have "TrigEdge ''START'' \<notin> set sources" if "(target, sources) \<in> set (tt_incoming (build_trigger_table g))" for target sources
  proof -
    have "sources = incoming_of (build_trigger_table g) target"
      using im_get_mem [OF wf that] by (simp add: incoming_of_def)
    then have "set sources = {TrigEdge f | f. \<exists>e \<in> set (sg_edges g). edge_triggers e f target}"
      by (simp add: build_trigger_table_def trigger_table_incoming)
    with assms(2) show ?thesis by (auto simp: edge_triggers_from)
  qed
  then show ?thesis by (auto simp: find_entry_point_def cg find_None_iff)
qed

theorem entry_never_drawn_witness:
  "\<exists>cg. compile_inner (derived_impl example_specs) compile_config_default (None :: unit option) example_graph = Some (Ok cg) \<and>
     sg_entry_point example_graph = Some ''a'' \<and> find_entry_point cg = None"
proof -
  obtain cg where cg: "compile_inner (derived_impl example_specs) compile_config_default (None :: unit option) example_graph = Some (Ok cg)"
    using example_compiles by blast
  have "\<forall>e \<in> set (sg_edges example_graph). edge_from e \<noteq> ''START''" by (simp add: example_graph_fields START_def)
  from entry_never_drawn [OF cg this] cg show ?thesis by (auto simp: example_graph_fields)
qed

text \<open>
  HTML escaping is a single pass over the text, leaves no character with a meaning in markup other than the start
  of an entity, and loses nothing: two texts that escape to the same output are equal.
\<close>

theorem escape_html_exact:
  "escape_html s = concat (map escape_char s) \<and> set (escape_html s) \<inter> {CHR ''<'', CHR ''>'', CHR 34, CHR 39} = {} \<and> inj escape_html"
proof (intro conjI)
  show "escape_html s = concat (map escape_char s)" by (rule escape_html_one_pass)
  show "set (escape_html s) \<inter> {CHR ''<'', CHR ''>'', CHR 34, CHR 39} = {}"
    unfolding escape_html_one_pass by (auto simp: escape_char_def split: if_splits)
  show "inj escape_html" by (rule injI) (rule escape_html_inj)
qed

end
