(* ===== verification/Streaming.thy ===== *)
theory Streaming
  imports Messages Checkpoints
begin

text \<open>
  \<open>juncture-core/src/stream.rs\<close> with the relay of \<open>graph/compiled.rs\<close>: stream modes and events, which event a mode
  lets through, what the relay of a streamed run forwards, the assembly of a streamed model answer from its chunks,
  and the stream transformers.  Channels are the sequences of events sent into them; sums of token counts wrap at
  64 bits as in a build without overflow checks.
\<close>

section \<open>Modes and events\<close>

datatype stream_mode =
    ModeValues | ModeUpdates | ModeMessages | ModeCustom | ModeDebug | ModeTools | ModeCheckpoints | ModeTasks
  | ModeMulti "stream_mode list"

record tool_call_chunk =
  tcc_id :: "string option"
  tcc_name :: "string option"
  tcc_args_delta :: string
  tcc_index :: nat

record message_chunk =
  mc_content :: string
  mc_tool_call_chunks :: "tool_call_chunk list"
  mc_usage_delta :: "token_usage option"

record message_stream_metadata =
  msm_node :: string
  msm_model :: string
  msm_tags :: "string list"
  msm_ns :: "string list"

datatype debug_event =
    DebugGraphStart string json
  | DebugSuperstepStart nat "string list"
  | DebugSuperstepEnd nat nat
  | DebugNodeStart string nat
  | DebugNodeEnd string nat nat string
  | DebugNodeError string nat string
  | DebugChannelWrite string string string
  | DebugChannelUpdate string nat
  | DebugMerge nat "string list"
  | DebugEdgeTraversed string string string
  | DebugCheckpointSaved string nat string
  | DebugBudgetCheck nat rat rat
  | DebugGraphEnd nat nat

datatype tools_event =
    ToolStarted string string string json nat
  | ToolOutputDelta string string
  | ToolFinished string json nat bool
  | ToolError string string

datatype task_event_type = TaskStarted | TaskCompleted nat | TaskFailed string | TaskRetrying nat

record stream_budget_usage =
  sbu_tokens_used :: nat
  sbu_cost_usd :: rat
  sbu_duration_ms :: nat
  sbu_steps_completed :: nat

datatype ('s, 'u) stream_event =
    EvValues 's nat
  | EvFilteredValues json nat
  | EvUpdates string 'u nat
  | EvFilteredUpdates string json nat
  | EvMessages message_chunk message_stream_metadata
  | EvCustom string json "string list"
  | EvTaskStart string string nat
  | EvTaskEnd string string nat nat
  | EvInterrupt string json bool "string list"
  | EvBudgetExceeded budget_exceeded_reason stream_budget_usage
  | EvEnd 's
  | EvCancelled nat
  | EvDebug debug_event
  | EvTools tools_event
  | EvCheckpointSaved string checkpoint_metadata nat
  | EvTaskDetail string string nat nat task_event_type

fun event_namespace :: "('s, 'u) stream_event \<Rightarrow> string list" where
  "event_namespace (EvCustom _ _ ns) = ns"
| "event_namespace (EvMessages _ m) = msm_ns m"
| "event_namespace (EvInterrupt _ _ _ ns) = ns"
| "event_namespace _ = []"

fun mode_matches_single :: "stream_mode \<Rightarrow> ('s, 'u) stream_event \<Rightarrow> bool" where
  "mode_matches_single ModeValues ev = (case ev of EvValues _ _ \<Rightarrow> True | EvFilteredValues _ _ \<Rightarrow> True | EvEnd _ \<Rightarrow> True | _ \<Rightarrow> False)"
| "mode_matches_single ModeUpdates ev = (case ev of EvUpdates _ _ _ \<Rightarrow> True | EvFilteredUpdates _ _ _ \<Rightarrow> True | EvEnd _ \<Rightarrow> True | _ \<Rightarrow> False)"
| "mode_matches_single ModeMessages ev = (case ev of EvMessages _ _ \<Rightarrow> True | EvEnd _ \<Rightarrow> True | _ \<Rightarrow> False)"
| "mode_matches_single ModeCustom ev = (case ev of EvCustom _ _ _ \<Rightarrow> True | EvEnd _ \<Rightarrow> True | _ \<Rightarrow> False)"
| "mode_matches_single ModeDebug ev = True"
| "mode_matches_single ModeTools ev = (case ev of EvTools _ \<Rightarrow> True | EvEnd _ \<Rightarrow> True | _ \<Rightarrow> False)"
| "mode_matches_single ModeCheckpoints ev = (case ev of EvCheckpointSaved _ _ _ \<Rightarrow> True | EvEnd _ \<Rightarrow> True | _ \<Rightarrow> False)"
| "mode_matches_single ModeTasks ev = (case ev of EvTaskDetail _ _ _ _ _ \<Rightarrow> True | EvEnd _ \<Rightarrow> True | _ \<Rightarrow> False)"
| "mode_matches_single (ModeMulti _) ev = False"

definition mode_matches_multi :: "stream_mode list \<Rightarrow> ('s, 'u) stream_event \<Rightarrow> bool" where
  "mode_matches_multi modes ev = list_ex (\<lambda>m. mode_matches_single m ev) modes"

definition has_nostream_tag :: "message_stream_metadata \<Rightarrow> bool" where
  "has_nostream_tag m = list_ex (\<lambda>t. t = ''nostream'') (msm_tags m)"

fun should_emit :: "stream_mode \<Rightarrow> ('s, 'u) stream_event \<Rightarrow> bool" where
  "should_emit (ModeMulti modes) ev = mode_matches_multi modes ev"
| "should_emit ModeMessages ev = (case ev of EvMessages _ m \<Rightarrow> \<not> has_nostream_tag m | EvEnd _ \<Rightarrow> True | _ \<Rightarrow> False)"
| "should_emit mode ev = mode_matches_single mode ev"

definition stream_capacity :: "stream_mode \<Rightarrow> nat" where
  "stream_capacity mode = (case mode of
       ModeMessages \<Rightarrow> 256
     | ModeDebug \<Rightarrow> 256
     | ModeMulti modes \<Rightarrow> (if list_ex (\<lambda>m. m = ModeMessages \<or> m = ModeDebug) modes then 256 else 32)
     | _ \<Rightarrow> 32)"

section \<open>The relay\<close>

record stream_resumption =
  res_run_id :: string
  res_last_checkpoint_id :: "string option"
  res_last_step :: "nat option"

definition should_skip :: "stream_resumption \<Rightarrow> nat \<Rightarrow> bool" where
  "should_skip r step = (case res_last_step r of Some l \<Rightarrow> step \<le> l | None \<Rightarrow> False)"

record stream_config =
  scf_mode :: stream_mode
  scf_include_subgraphs :: bool
  scf_subgraph_filter :: "string list option"
  scf_output_keys :: "string list option"
  scf_resumption :: "stream_resumption option"

definition stream_config_new :: "stream_mode \<Rightarrow> stream_config" where
  "stream_config_new mode = \<lparr>scf_mode = mode, scf_include_subgraphs = False, scf_subgraph_filter = None, scf_output_keys = None, scf_resumption = None\<rparr>"

definition filter_json_by_keys :: "json \<Rightarrow> string list \<Rightarrow> json" where
  "filter_json_by_keys v keys = (if keys = [] then v
     else (case v of JObj m \<Rightarrow> JObj (filter (\<lambda>(k, _). k \<in> set keys) m) | other \<Rightarrow> other))"

fun event_step :: "('s, 'u) stream_event \<Rightarrow> nat option" where
  "event_step (EvValues _ n) = Some n"
| "event_step (EvFilteredValues _ n) = Some n"
| "event_step (EvUpdates _ _ n) = Some n"
| "event_step (EvFilteredUpdates _ _ n) = Some n"
| "event_step _ = None"

definition subgraph_hidden :: "stream_config \<Rightarrow> string list \<Rightarrow> bool" where
  "subgraph_hidden cfg ns = (case ns of [] \<Rightarrow> False
     | first # _ \<Rightarrow> \<not> scf_include_subgraphs cfg \<or> (case scf_subgraph_filter cfg of Some f \<Rightarrow> first \<notin> set f | None \<Rightarrow> False))"

definition already_seen :: "stream_config \<Rightarrow> ('s, 'u) stream_event \<Rightarrow> bool" where
  "already_seen cfg ev = (case (scf_resumption cfg, event_step ev) of (Some r, Some n) \<Rightarrow> should_skip r n | _ \<Rightarrow> False)"

text \<open>\<open>to_value\<close> is the serializer of the update type.\<close>

definition project_event :: "('u \<Rightarrow> json option) \<Rightarrow> stream_config \<Rightarrow> ('s, 'u) stream_event \<Rightarrow> ('s, 'u) stream_event" where
  "project_event to_value cfg ev = (case (scf_output_keys cfg, ev) of
       (Some keys, EvUpdates node u step) \<Rightarrow> (case to_value u of
           Some j \<Rightarrow> EvFilteredUpdates node (filter_json_by_keys j keys) step
         | None \<Rightarrow> ev)
     | _ \<Rightarrow> ev)"

definition relay :: "('u \<Rightarrow> json option) \<Rightarrow> stream_config \<Rightarrow> ('s, 'u) stream_event \<Rightarrow> ('s, 'u) stream_event option" where
  "relay to_value cfg ev =
     (if \<not> should_emit (scf_mode cfg) ev then None
      else if subgraph_hidden cfg (event_namespace ev) then None
      else if already_seen cfg ev then None
      else Some (project_event to_value cfg ev))"

section \<open>Assembling a streamed answer\<close>

definition empty_call :: tool_call where
  "empty_call = \<lparr>tcall_id = [], tcall_name = [], tcall_arguments = JNull\<rparr>"

definition grow_calls :: "nat \<Rightarrow> tool_call list \<Rightarrow> tool_call list" where
  "grow_calls i tcs = tcs @ replicate (Suc i - length tcs) empty_call"

definition push_args :: "string \<Rightarrow> json \<Rightarrow> json" where
  "push_args delta v = (if delta = [] then v else (case v of JStr s \<Rightarrow> JStr (s @ delta) | _ \<Rightarrow> JStr delta))"

definition apply_tool_chunk :: "tool_call_chunk \<Rightarrow> tool_call list \<Rightarrow> tool_call list" where
  "apply_tool_chunk ch tcs = (let
     tcs' = grow_calls (tcc_index ch) tcs;
     tc = tcs' ! tcc_index ch;
     tc1 = (case tcc_id ch of Some i \<Rightarrow> tc\<lparr>tcall_id := i\<rparr> | None \<Rightarrow> tc);
     tc2 = (case tcc_name ch of Some n \<Rightarrow> tc1\<lparr>tcall_name := n\<rparr> | None \<Rightarrow> tc1);
     tc3 = tc2\<lparr>tcall_arguments := push_args (tcc_args_delta ch) (tcall_arguments tc2)\<rparr>
     in tcs'[tcc_index ch := tc3])"

definition add_usage :: "token_usage option \<Rightarrow> token_usage \<Rightarrow> token_usage" where
  "add_usage d u = (case d of None \<Rightarrow> u
     | Some d \<Rightarrow> \<lparr>input_tokens = wrap_add64 (input_tokens u) (input_tokens d), output_tokens = wrap_add64 (output_tokens u) (output_tokens d),
         total_tokens = wrap_add64 (total_tokens u) (total_tokens d)\<rparr>)"

text \<open>\<open>parse\<close> reads and \<open>render\<close> prints JSON text.\<close>

definition parse_arguments :: "(string \<Rightarrow> json option) \<Rightarrow> (json \<Rightarrow> string) \<Rightarrow> tool_call \<Rightarrow> tool_call" where
  "parse_arguments parse render tc = (case tcall_arguments tc of
       JStr s \<Rightarrow> tc\<lparr>tcall_arguments := (case parse s of Some v \<Rightarrow> v | None \<Rightarrow> JStr (render (JStr s)))\<rparr>
     | _ \<Rightarrow> tc)"

record answer_state =
  as_content :: string
  as_calls :: "tool_call list"
  as_usage :: token_usage

definition apply_chunk :: "message_chunk \<Rightarrow> answer_state \<Rightarrow> answer_state" where
  "apply_chunk c a = \<lparr>as_content = as_content a @ mc_content c, as_calls = fold apply_tool_chunk (mc_tool_call_chunks c) (as_calls a),
     as_usage = add_usage (mc_usage_delta c) (as_usage a)\<rparr>"

fun consume_chunks ::
    "stream_mode \<Rightarrow> message_stream_metadata \<Rightarrow> ('e, message_chunk) result list \<Rightarrow> answer_state
       \<Rightarrow> ('s, 'u) stream_event list \<times> ('e, answer_state) result" where
  "consume_chunks mode md [] a = ([], Ok a)"
| "consume_chunks mode md (Inl e # cs) a = ([], Err e)"
| "consume_chunks mode md (Inr c # cs) a = (case consume_chunks mode md cs (apply_chunk c a) of
     (evs, r) \<Rightarrow> ((if should_emit mode (EvMessages c md :: ('s, 'u) stream_event) then [EvMessages c md] else []) @ evs, r))"

definition call_llm_streaming ::
    "(string \<Rightarrow> json option) \<Rightarrow> (json \<Rightarrow> string) \<Rightarrow> string \<Rightarrow> stream_mode \<Rightarrow> message_stream_metadata \<Rightarrow> ('e, ('e, message_chunk) result list) result
       \<Rightarrow> ('s, 'u) stream_event list \<times> ('e, message) result" where
  "call_llm_streaming parse render uuid mode md stream = (case stream of
       Inl e \<Rightarrow> ([], Err e)
     | Inr chunks \<Rightarrow> (case consume_chunks mode md chunks \<lparr>as_content = [], as_calls = [], as_usage = \<lparr>input_tokens = 0, output_tokens = 0, total_tokens = 0\<rparr>\<rparr> of
         (evs, Inl e) \<Rightarrow> (evs, Err e)
       | (evs, Inr a) \<Rightarrow> (evs, Ok \<lparr>msg_id = uuid, msg_role = Ai, msg_content = ContentText (as_content a),
             msg_tool_calls = map (parse_arguments parse render) (as_calls a), msg_tool_call_id = None, msg_name = None,
             msg_usage = Some ((as_usage a)\<lparr>total_tokens := wrap_add64 (input_tokens (as_usage a)) (output_tokens (as_usage a))\<rparr>)\<rparr>)))"

section \<open>Transformers\<close>

definition json_parse_transform :: "(string \<Rightarrow> json option) \<Rightarrow> json \<Rightarrow> json option" where
  "json_parse_transform parse v = (case v of JStr s \<Rightarrow> (case parse s of Some v' \<Rightarrow> Some v' | None \<Rightarrow> Some JNull) | _ \<Rightarrow> Some v)"

definition filter_fields_transform :: "string list \<Rightarrow> json \<Rightarrow> json option" where
  "filter_fields_transform fs v = (case v of JObj m \<Rightarrow> Some (JObj (filter (\<lambda>(k, _). k \<in> set fs) m)) | _ \<Rightarrow> Some v)"

record batch_transformer =
  bt_size :: nat
  bt_buffer :: "json list"

definition batch_new :: "nat \<Rightarrow> batch_transformer" where
  "batch_new n = \<lparr>bt_size = max n 1, bt_buffer = []\<rparr>"

definition batch_transform :: "json \<Rightarrow> batch_transformer \<Rightarrow> batch_transformer \<times> json option" where
  "batch_transform v b = (let buf = bt_buffer b @ [v] in
     if length buf \<ge> bt_size b then (b\<lparr>bt_buffer := []\<rparr>, Some (JArr buf)) else (b\<lparr>bt_buffer := buf\<rparr>, None))"

definition batch_flush :: "batch_transformer \<Rightarrow> batch_transformer \<times> json option" where
  "batch_flush b = (if bt_buffer b = [] then (b, None) else (b\<lparr>bt_buffer := []\<rparr>, Some (JArr (bt_buffer b))))"

section \<open>Sequences through a batching transformer\<close>

fun run_batch :: "json list \<Rightarrow> batch_transformer \<Rightarrow> batch_transformer \<times> json list" where
  "run_batch [] b = (b, [])"
| "run_batch (v # vs) b = (case batch_transform v b of (b1, out) \<Rightarrow>
     (case run_batch vs b1 of (b2, outs) \<Rightarrow> (b2, (case out of Some o' \<Rightarrow> [o'] | None \<Rightarrow> []) @ outs)))"

fun elements :: "json \<Rightarrow> json list" where
  "elements (JArr vs) = vs"
| "elements _ = []"

lemma run_batch_exact:
  assumes "bt_size b \<ge> 1" and "length (bt_buffer b) < bt_size b"
  shows "run_batch vs b = (b', outs) \<Longrightarrow> bt_buffer b @ vs = concat (map elements outs) @ bt_buffer b' \<and>
     (\<forall>o' \<in> set outs. \<exists>xs. o' = JArr xs \<and> length xs = bt_size b) \<and> length (bt_buffer b') < bt_size b \<and> bt_size b' = bt_size b"
  using assms
proof (induction vs arbitrary: b b' outs)
  case (Cons v vs)
  obtain b1 out where t: "batch_transform v b = (b1, out)" by fastforce
  obtain b2 outs2 where r: "run_batch vs b1 = (b2, outs2)" by fastforce
  have b1: "bt_size b1 = bt_size b" "length (bt_buffer b1) < bt_size b1"
    using t Cons.prems(2,3) by (auto simp: batch_transform_def Let_def split: if_splits)
  have IH: "bt_buffer b1 @ vs = concat (map elements outs2) @ bt_buffer b2" "\<forall>o' \<in> set outs2. \<exists>xs. o' = JArr xs \<and> length xs = bt_size b"
    "length (bt_buffer b2) < bt_size b" "bt_size b2 = bt_size b"
    using Cons.IH [OF r] b1 Cons.prems(2) by auto
  have eq: "b' = b2" "outs = (case out of Some o' \<Rightarrow> [o'] | None \<Rightarrow> []) @ outs2" using Cons.prems(1) t r by auto
  show ?case
  proof (cases out)
    case None
    then have "bt_buffer b1 = bt_buffer b @ [v]" using t by (auto simp: batch_transform_def Let_def split: if_splits)
    with IH eq None show ?thesis by simp
  next
    case (Some o')
    then have o': "o' = JArr (bt_buffer b @ [v])" "bt_buffer b1 = []" "length (bt_buffer b @ [v]) = bt_size b"
      using t Cons.prems(3) by (auto simp: batch_transform_def Let_def split: if_splits)
    with IH eq Some show ?thesis by simp
  qed
qed simp

section \<open>Tool calls from chunks\<close>

text \<open>What the chunks of one index say: the last identifier and name given, and all argument text in order.\<close>

definition chunks_at :: "nat \<Rightarrow> tool_call_chunk list \<Rightarrow> tool_call_chunk list" where
  "chunks_at i chs = filter (\<lambda>c. tcc_index c = i) chs"

definition last_given :: "(tool_call_chunk \<Rightarrow> string option) \<Rightarrow> tool_call_chunk list \<Rightarrow> string" where
  "last_given f chs = fold (\<lambda>c d. case f c of Some x \<Rightarrow> x | None \<Rightarrow> d) chs []"

definition args_text :: "tool_call_chunk list \<Rightarrow> string" where
  "args_text chs = concat (map tcc_args_delta chs)"

definition call_of :: "tool_call_chunk list \<Rightarrow> tool_call" where
  "call_of chs = \<lparr>tcall_id = last_given tcc_id chs, tcall_name = last_given tcc_name chs,
     tcall_arguments = (if args_text chs = [] then JNull else JStr (args_text chs))\<rparr>"

definition call_count :: "tool_call_chunk list \<Rightarrow> nat" where
  "call_count chs = fold (\<lambda>c n. max n (Suc (tcc_index c))) chs 0"

lemma call_of_Nil [simp]: "call_of [] = empty_call"
  by (simp add: call_of_def last_given_def args_text_def empty_call_def)

lemma length_apply_tool_chunk [simp]: "length (apply_tool_chunk c tcs) = max (length tcs) (Suc (tcc_index c))"
  by (simp add: apply_tool_chunk_def Let_def grow_calls_def)

lemma nth_grow: "i < length (grow_calls k tcs) \<Longrightarrow> grow_calls k tcs ! i = (if i < length tcs then tcs ! i else empty_call)"
  by (simp add: grow_calls_def nth_append)

lemma call_of_snoc:
  "call_of (chs @ [c]) = (let tc = call_of chs in
     \<lparr>tcall_id = (case tcc_id c of Some i \<Rightarrow> i | None \<Rightarrow> tcall_id tc), tcall_name = (case tcc_name c of Some n \<Rightarrow> n | None \<Rightarrow> tcall_name tc),
      tcall_arguments = push_args (tcc_args_delta c) (tcall_arguments tc)\<rparr>)"
proof -
  have "args_text (chs @ [c]) = args_text chs @ tcc_args_delta c" by (simp add: args_text_def)
  then show ?thesis
    by (cases "tcc_id c"; cases "tcc_name c"; cases "args_text chs = []")
      (simp_all add: call_of_def last_given_def push_args_def Let_def)
qed

lemma fold_apply_tool_chunk:
  "length (fold apply_tool_chunk chs []) = call_count chs \<and>
   (\<forall>i < call_count chs. fold apply_tool_chunk chs [] ! i = call_of (chunks_at i chs)) \<and> (\<forall>i \<ge> call_count chs. chunks_at i chs = [])"
proof (induction chs rule: rev_induct)
  case (snoc c chs)
  let ?tcs = "fold apply_tool_chunk chs []" and ?k = "tcc_index c"
  have cnt: "call_count (chs @ [c]) = max (call_count chs) (Suc ?k)" by (simp add: call_count_def)
  have at: "chunks_at i (chs @ [c]) = chunks_at i chs @ (if ?k = i then [c] else [])" for i by (simp add: chunks_at_def)
  have before: "grow_calls ?k ?tcs ! i = call_of (chunks_at i chs)" if "i < max (call_count chs) (Suc ?k)" for i
  proof -
    have "i < length (grow_calls ?k ?tcs)" using that snoc by (auto simp: grow_calls_def)
    then show ?thesis using snoc by (simp add: nth_grow not_less)
  qed
  have "apply_tool_chunk c ?tcs ! i = call_of (chunks_at i (chs @ [c]))" if i: "i < max (call_count chs) (Suc ?k)" for i
  proof (cases "i = ?k")
    case True
    have "?k < length (grow_calls ?k ?tcs)" by (simp add: grow_calls_def)
    then show ?thesis
      using before [OF i] True
      by (simp add: apply_tool_chunk_def Let_def at call_of_snoc split: option.splits)
  next
    case False
    then show ?thesis using before [OF i] by (simp add: apply_tool_chunk_def Let_def at)
  qed
  then show ?case using snoc by (simp add: cnt at)
qed (simp add: call_count_def chunks_at_def)

lemma fold_concat: "fold (\<lambda>c. fold f (g c)) cs a = fold f (concat (map g cs)) a"
  by (induction cs arbitrary: a) simp_all

lemma consume_ok:
  fixes mode :: stream_mode and md :: message_stream_metadata and cs :: "message_chunk list"
  shows "(consume_chunks mode md (map Inr cs) a :: ('s, 'u) stream_event list \<times> ('e, answer_state) result) =
     (map (\<lambda>c. EvMessages c md) (filter (\<lambda>c. should_emit mode (EvMessages c md :: ('s, 'u) stream_event)) cs), Inr (fold apply_chunk cs a))"
  by (induction cs arbitrary: a) simp_all

lemma fold_apply_chunk:
  "as_content (fold apply_chunk cs a) = as_content a @ concat (map mc_content cs)"
  "as_calls (fold apply_chunk cs a) = fold apply_tool_chunk (concat (map mc_tool_call_chunks cs)) (as_calls a)"
  "as_usage (fold apply_chunk cs a) = fold (\<lambda>c. add_usage (mc_usage_delta c)) cs (as_usage a)"
  by (induction cs arbitrary: a) (simp_all add: apply_chunk_def)

definition usage_sum :: "(token_usage \<Rightarrow> nat) \<Rightarrow> message_chunk list \<Rightarrow> nat" where
  "usage_sum f cs = sum_list (map (\<lambda>c. case mc_usage_delta c of Some u \<Rightarrow> f u | None \<Rightarrow> 0) cs)"

lemma fold_usage:
  "input_tokens u0 + usage_sum input_tokens cs < 2 ^ 64 \<Longrightarrow>
     input_tokens (fold (\<lambda>c. add_usage (mc_usage_delta c)) cs u0) = input_tokens u0 + usage_sum input_tokens cs"
  "output_tokens u0 + usage_sum output_tokens cs < 2 ^ 64 \<Longrightarrow>
     output_tokens (fold (\<lambda>c. add_usage (mc_usage_delta c)) cs u0) = output_tokens u0 + usage_sum output_tokens cs"
proof (induction cs arbitrary: u0)
  case (Cons c cs)
  {
    case 1
    then show ?case using Cons.IH(1) [of "add_usage (mc_usage_delta c) u0"]
      by (auto simp: usage_sum_def add_usage_def wrap_add64_exact ac_simps split: option.splits)
  next
    case 2
    then show ?case using Cons.IH(2) [of "add_usage (mc_usage_delta c) u0"]
      by (auto simp: usage_sum_def add_usage_def wrap_add64_exact ac_simps split: option.splits)
  }
qed (simp_all add: usage_sum_def)

lemma filter_keys_subset: "JObj m = filter_json_by_keys j keys \<Longrightarrow> keys \<noteq> [] \<Longrightarrow> (k, v) \<in> set m \<Longrightarrow> k \<in> set keys"
  by (cases j) (auto simp: filter_json_by_keys_def)

section \<open>Theorems\<close>



text \<open>
  A batching transformer loses, repeats and reorders nothing: the batches it emits, followed by what a final
  flush returns, are the inputs in order, and every emitted batch has exactly the configured size (at least one).
\<close>

theorem batching_lossless:
  "case run_batch vs (batch_new n) of (b, outs) \<Rightarrow>
     vs = concat (map elements outs) @ (case snd (batch_flush b) of Some v \<Rightarrow> elements v | None \<Rightarrow> []) \<and>
     (\<forall>o' \<in> set outs. \<exists>xs. o' = JArr xs \<and> length xs = max n 1) \<and> bt_buffer (fst (batch_flush b)) = []"
proof -
  obtain b outs where r: "run_batch vs (batch_new n) = (b, outs)" by fastforce
  from run_batch_exact [OF _ _ r] have "vs = concat (map elements outs) @ bt_buffer b" "\<forall>o' \<in> set outs. \<exists>xs. o' = JArr xs \<and> length xs = max n 1"
    by (simp_all add: batch_new_def)
  then show ?thesis unfolding r prod.case by (auto simp: batch_flush_def)
qed

text \<open>
  The relay of a streamed run only forwards what the mode admits, nothing of a hidden subgraph and no values or
  updates at or before the step the client has seen; with output keys a forwarded update carries no other key.
\<close>

theorem relay_sound:
  assumes "relay to_value cfg ev = Some ev'"
  shows "should_emit (scf_mode cfg) ev' \<and> \<not> subgraph_hidden cfg (event_namespace ev') \<and> event_step ev' = event_step ev \<and>
     (\<forall>r n l. scf_resumption cfg = Some r \<and> res_last_step r = Some l \<and> event_step ev' = Some n \<longrightarrow> l < n) \<and>
     (\<forall>keys node j n m. scf_output_keys cfg = Some keys \<and> keys \<noteq> [] \<and> ev' = EvFilteredUpdates node j n \<and> j = JObj m \<and> ev \<noteq> ev' \<longrightarrow> fst ` set m \<subseteq> set keys)"
proof -
  have ev': "ev' = project_event to_value cfg ev" and em: "should_emit (scf_mode cfg) ev" and sh: "\<not> subgraph_hidden cfg (event_namespace ev)"
    and sn: "\<not> already_seen cfg ev"
    using assms by (auto simp: relay_def split: if_splits)
  have same: "ev' = ev \<or> (\<exists>keys node u j n. scf_output_keys cfg = Some keys \<and> ev = EvUpdates node u n \<and> to_value u = Some j \<and>
      ev' = EvFilteredUpdates node (filter_json_by_keys j keys) n)"
    unfolding ev' by (auto simp: project_event_def split: option.splits stream_event.splits)
  have match: "mode_matches_single m (EvFilteredUpdates node j n :: ('a, 'b) stream_event)"
    if "mode_matches_single m (EvUpdates node u n :: ('a, 'b) stream_event)" for m node u n j
    using that by (cases m) auto
  have "should_emit (scf_mode cfg) ev'"
    using same em match by (cases "scf_mode cfg") (auto simp: mode_matches_multi_def list_ex_iff, blast)
  moreover have "\<not> subgraph_hidden cfg (event_namespace ev')" "event_step ev' = event_step ev" using same sh by auto
  moreover have "l < n" if "scf_resumption cfg = Some r" "res_last_step r = Some l" "event_step ev' = Some n" for r n l
    using sn that \<open>event_step ev' = event_step ev\<close> by (auto simp: already_seen_def should_skip_def)
  moreover have "fst ` set m \<subseteq> set keys"
    if "scf_output_keys cfg = Some keys" "keys \<noteq> []" "ev' = EvFilteredUpdates node j n" "j = JObj m" "ev \<noteq> ev'" for keys node j n m
    using same that by (auto dest: filter_keys_subset)
  ultimately show ?thesis by blast
qed

theorem relay_sound_witness:
  "relay (\<lambda>u. Some (JObj [(''a'', JNull), (''b'', u)])) ((stream_config_new ModeUpdates)\<lparr>scf_output_keys := Some [''b'']\<rparr>)
      (EvUpdates ''n'' (JNum 1) 3 :: (unit, json) stream_event) = Some (EvFilteredUpdates ''n'' (JObj [(''b'', JNum 1)]) 3) \<and>
   should_emit ModeUpdates (EvFilteredUpdates ''n'' (JObj [(''b'', JNum 1)]) 3 :: (unit, json) stream_event)"
proof -
  have r: "relay (\<lambda>u. Some (JObj [(''a'', JNull), (''b'', u)])) ((stream_config_new ModeUpdates)\<lparr>scf_output_keys := Some [''b'']\<rparr>)
      (EvUpdates ''n'' (JNum 1) 3 :: (unit, json) stream_event) = Some (EvFilteredUpdates ''n'' (JObj [(''b'', JNum 1)]) 3)"
    by (simp add: relay_def stream_config_new_def subgraph_hidden_def already_seen_def project_event_def filter_json_by_keys_def)
  from relay_sound [OF r] r show ?thesis by (simp add: stream_config_new_def)
qed

text \<open>
  The \<open>nostream\<close> tag works in one mode only: messages mode drops a tagged message, a combination that contains
  messages mode forwards it; and the end of a run reaches every consumer except a combination of no simple mode.
\<close>

theorem nostream_leaks_in_combination:
  "(has_nostream_tag md \<longrightarrow> \<not> should_emit ModeMessages (EvMessages c md :: ('s, 'u) stream_event) \<and>
      (ModeMessages \<in> set modes \<longrightarrow> should_emit (ModeMulti modes) (EvMessages c md :: ('s, 'u) stream_event))) \<and>
   (should_emit mode (EvEnd s :: ('s, 'u) stream_event) \<longleftrightarrow> (\<forall>ms. mode = ModeMulti ms \<longrightarrow> (\<exists>m \<in> set ms. \<forall>ms'. m \<noteq> ModeMulti ms')))"
proof -
  have single: "mode_matches_single m (EvEnd s :: ('s, 'u) stream_event) \<longleftrightarrow> (\<forall>ms'. m \<noteq> ModeMulti ms')" for m
    by (cases m) simp_all
  have multi: "ModeMessages \<in> set modes \<Longrightarrow> should_emit (ModeMulti modes) (EvMessages c md :: ('s, 'u) stream_event)"
    by (auto simp: mode_matches_multi_def list_ex_iff intro: bexI [of _ ModeMessages])
  have "should_emit mode (EvEnd s :: ('s, 'u) stream_event) \<longleftrightarrow> (\<forall>ms. mode = ModeMulti ms \<longrightarrow> (\<exists>m \<in> set ms. \<forall>ms'. m \<noteq> ModeMulti ms'))"
    by (cases mode) (auto simp: mode_matches_multi_def list_ex_iff single)
  then show ?thesis using multi by simp
qed

end
