(* ===== verification/Subgraphs.thy ===== *)
theory Subgraphs
  imports Graph_Api
begin

text \<open>
  \<open>juncture-core/src/subgraph.rs\<close>: a node that runs a compiled graph.  It gives the child a namespace of its own,
  asks the child's checkpointer whether the child was interrupted there, resumes or invokes it accordingly, and
  turns the outcome into a command of the parent.  The maps between the two states and the identifier drawn for an
  invocation are parameters.
\<close>

section \<open>Definitions\<close>

definition compute_child_namespace ::
    "subgraph_persistence \<Rightarrow> string \<Rightarrow> checkpoint_namespace option \<Rightarrow> string option \<Rightarrow> string \<Rightarrow> checkpoint_namespace option" where
  "compute_child_namespace persistence name parent_ns thread_id uuid = (let base = (case parent_ns of Some ns \<Rightarrow> ns | None \<Rightarrow> ns_root) in
     (case persistence of
        Stateless \<Rightarrow> None
      | PerThread \<Rightarrow> Some (ns_child base name (case thread_id of Some t \<Rightarrow> t | None \<Rightarrow> ''default''))
      | Inherit \<Rightarrow> Some (ns_child base name uuid)))"

record ('s, 'u, 'sub, 'v, 'c) subgraph_node =
  sub_graph :: "('sub, 'v, 'c saver_api) compiled_graph"
  sub_name :: string
  sub_input_map :: "'s \<Rightarrow> 'sub"
  sub_output_map :: "'sub \<Rightarrow> 'u"
  sub_persistence :: subgraph_persistence

definition child_config :: "string \<Rightarrow> ('s, 'u, 'sub, 'v, 'c) subgraph_node \<Rightarrow> runnable_config \<Rightarrow> runnable_config" where
  "child_config uuid n config = (let
     ns = compute_child_namespace (sub_persistence n) (sub_name n) (sc_checkpoint_ns (cfg_saver config)) (sc_thread_id (cfg_saver config)) uuid;
     c = config\<lparr>cfg_saver := (cfg_saver config)\<lparr>sc_checkpoint_ns := ns\<rparr>\<rparr>
     in if sub_persistence n = Stateless then c\<lparr>cfg_resume_value := None\<rparr> else c)"

definition should_resume :: "'c saver_api option \<Rightarrow> saver_config \<Rightarrow> 'c \<Rightarrow> 'c \<times> (juncture_error, bool) result" where
  "should_resume cp config c = (case cp of
       None \<Rightarrow> (c, Ok False)
     | Some api \<Rightarrow> (case sa_get_tuple api config c of (c', r) \<Rightarrow>
         (c', try_bind (checkpoint_err r) (\<lambda>t. Ok (case t of Some t \<Rightarrow> is_interrupt_source (md_source (tp_metadata t)) | None \<Rightarrow> False)))))"

definition subgraph_outcome :: "(juncture_error \<Rightarrow> string) \<Rightarrow> ('s, 'u, 'sub, 'v, 'c) subgraph_node \<Rightarrow> (juncture_error, ('sub, 'o) graph_output) result
       \<Rightarrow> (juncture_error, 'u command) result" where
  "subgraph_outcome display n r = (case r of
       Inr out \<Rightarrow> Ok (command_update (sub_output_map n (go_value out)))
     | Inl e \<Rightarrow> (case parent_command_target e of
           Some target \<Rightarrow> Ok (command_goto target)
         | None \<Rightarrow> if is_interrupt e then Err e else Err (SubgraphError (sub_name n @ '': '' @ display e))))"

text \<open>Outer \<open>None\<close>: the child ran out of fuel; \<open>Some None\<close>: it panicked.\<close>

definition subgraph_call ::
    "nat \<Rightarrow> ('sub, 'v) state_impl \<Rightarrow> 'sub state_codec \<Rightarrow> ('sub, 'v, 'o) run_world \<Rightarrow> string \<Rightarrow> (juncture_error \<Rightarrow> string)
       \<Rightarrow> ('s, 'u, 'sub, 'v, 'c) subgraph_node \<Rightarrow> runnable_config \<Rightarrow> 's \<Rightarrow> 'c \<times> cache_policy option
       \<Rightarrow> (('c \<times> cache_policy option) \<times> checkpoint list \<times> (juncture_error, 'u command) result) option option" where
  "subgraph_call fuel S cd rw uuid display n config s env = (case env of (c, policy) \<Rightarrow>
     let cc = child_config uuid n config in
     (case should_resume (cg_checkpointer (sub_graph n)) (cfg_saver cc) c of
        (c1, Inl e) \<Rightarrow> Some (Some ((c1, policy), [], Err e))
      | (c1, Inr True) \<Rightarrow> map_option (map_option (\<lambda>(c2, saved, r). ((c2, policy), saved, subgraph_outcome display n r)))
          (resume fuel S cd rw (sub_graph n) cc (case cfg_resume_value cc of Some v \<Rightarrow> v | None \<Rightarrow> ResumeSingle JNull) c1)
      | (c1, Inr False) \<Rightarrow> map_option (map_option (\<lambda>(env', saved, r). (env', saved, subgraph_outcome display n r)))
          (invoke fuel S cd rw (sub_graph n) cc (sub_input_map n s) (c1, policy))))"

section \<open>Checkpoints that only runs of the child can leave\<close>

text \<open>A checkpointer in memory without an interrupted checkpoint.\<close>

definition uninterrupted :: "memory_saver \<Rightarrow> bool" where
  "uninterrupted c \<longleftrightarrow> (\<forall>tid ns. \<forall>t \<in> set (lookup_tuples c tid ns). \<not> is_interrupt_source (md_source (tp_metadata t)))"

lemma uninterrupted_get:
  assumes "saver_get_tuple parse now config c = (c', r)" and "uninterrupted c"
  shows "uninterrupted c'" and "r = Inr (Some t) \<Longrightarrow> \<not> is_interrupt_source (md_source (tp_metadata t))"
proof -
  have keep: "uninterrupted (lazy_cleanup parse now tid' ns' c)" for tid' ns'
    using assms(2) set_surviving by (fastforce simp: uninterrupted_def)
  then show "uninterrupted c'" using assms by (auto simp: saver_get_tuple_def Let_def split: sum.splits)
  assume r: "r = Inr (Some t)"
  then obtain tid where tid: "sc_thread_id config = Some tid"
    using assms(1) by (auto simp: saver_get_tuple_def get_thread_id_def split: option.splits)
  then obtain t0 where "select_tuple config (lookup_tuples c' tid (get_checkpoint_ns config)) = Some t0" "tp_metadata t = tp_metadata t0"
    using assms(1) r by (auto simp: saver_get_tuple_def get_thread_id_def Let_def)
  moreover from this have "t0 \<in> set (lookup_tuples c' tid (get_checkpoint_ns config))"
    by (auto simp: select_tuple_def find_Some_iff split: option.splits list.splits)
  ultimately show "\<not> is_interrupt_source (md_source (tp_metadata t))"
    using \<open>uninterrupted c'\<close> by (auto simp: uninterrupted_def)
qed

lemma uninterrupted_put:
  assumes "uninterrupted c" and "\<not> is_interrupt_source (md_source md)"
  shows "uninterrupted (fst (saver_put config ck md c))"
  using assms by (auto simp: uninterrupted_def saver_put_def get_thread_id_def Let_def split: option.splits)

lemma uninterrupted_load_previous:
  "uninterrupted c \<Longrightarrow> uninterrupted (fst (load_previous (Some (memory_saver_api parse now)) config prev c))"
proof -
  assume u: "uninterrupted c"
  obtain c1 r where g: "saver_get_tuple parse now config c = (c1, r)" by fastforce
  then have "fst (load_previous (Some (memory_saver_api parse now)) config prev c) = c1"
    by (auto simp: load_previous_def memory_saver_api_def split: sum.splits option.splits)
  with uninterrupted_get(1) [OF g u] show ?thesis by simp
qed

lemma uninterrupted_store_return:
  assumes "uninterrupted c"
  shows "uninterrupted (store_return_value (Some (memory_saver_api parse now)) config rv c)"
proof (cases rv)
  case (Some v)
  obtain c1 r where g: "saver_get_tuple parse now config c = (c1, r)" by fastforce
  show ?thesis
  proof (cases "\<exists>t. r = Inr (Some t)")
    case True
    then obtain t where r: "r = Inr (Some t)" by blast
    have "store_return_value (Some (memory_saver_api parse now)) config rv c =
        fst (saver_put config (tp_checkpoint t) ((tp_metadata t)\<lparr>md_return_value := Some v\<rparr>) c1)"
      using g r Some by (simp add: store_return_value_def memory_saver_api_def)
    with uninterrupted_get(1) [OF g assms] uninterrupted_get(2) [OF g assms r] show ?thesis by (simp add: uninterrupted_put)
  next
    case False
    then have "store_return_value (Some (memory_saver_api parse now)) config rv c = c1"
      using g Some by (auto simp: store_return_value_def memory_saver_api_def split: sum.splits option.splits)
    with uninterrupted_get(1) [OF g assms] show ?thesis by simp
  qed
qed (use assms in \<open>simp add: store_return_value_def\<close>)

lemma uninterrupted_invoke:
  assumes "cg_checkpointer g = Some (memory_saver_api parse now)" and "uninterrupted c"
    and "invoke fuel S cd rw g config s (c, policy) = Some (Some ((c', policy'), saved, r))"
  shows "uninterrupted c'"
proof -
  from invoke_effects [OF assms(3)] obtain cfg prev rv where
    c': "c' \<in> {c, fst (load_previous (cg_checkpointer g) cfg prev c), store_return_value (cg_checkpointer g) cfg rv (fst (load_previous (cg_checkpointer g) cfg prev c))}"
    by blast
  have "uninterrupted (fst (load_previous (cg_checkpointer g) cfg prev c))"
    using uninterrupted_load_previous [OF assms(2)] assms(1) by simp
  with c' uninterrupted_store_return assms(1,2) show ?thesis by auto
qed

lemma should_resume_uninterrupted:
  assumes "uninterrupted c" and "should_resume (Some (memory_saver_api parse now)) config c = (c1, r)"
  shows "uninterrupted c1" and "r \<noteq> Inr True"
proof -
  obtain c2 q where g: "saver_get_tuple parse now config c = (c2, q)" by fastforce
  have c1: "c1 = c2" and r: "r = try_bind (checkpoint_err q) (\<lambda>t. Ok (case t of Some t \<Rightarrow> is_interrupt_source (md_source (tp_metadata t)) | None \<Rightarrow> False))"
    using assms(2) g by (auto simp: should_resume_def memory_saver_api_def)
  show "uninterrupted c1" using uninterrupted_get(1) [OF g assms(1)] c1 by simp
  show "r \<noteq> Inr True"
    using uninterrupted_get(2) [OF g assms(1)] r by (auto simp: checkpoint_err_def split: sum.splits option.splits)
qed

text \<open>The calls a parent makes on one child, with the clock of its checkpointer fixed per call.\<close>

record ('s, 'sub, 'v, 'o) child_call =
  call_fuel :: nat
  call_world :: "('sub, 'v, 'o) run_world"
  call_uuid :: string
  call_config :: runnable_config
  call_state :: 's

definition call_step ::
    "('sub, 'v) state_impl \<Rightarrow> 'sub state_codec \<Rightarrow> (juncture_error \<Rightarrow> string) \<Rightarrow> ('s, 'u, 'sub, 'v, 'c) subgraph_node
       \<Rightarrow> ('s, 'sub, 'v, 'o) child_call \<Rightarrow> 'c \<times> cache_policy option \<Rightarrow> 'c \<times> cache_policy option" where
  "call_step S cd display n k env = (case subgraph_call (call_fuel k) S cd (call_world k) (call_uuid k) display n (call_config k) (call_state k) env of
       Some (Some (env', _, _)) \<Rightarrow> env'
     | _ \<Rightarrow> env)"

lemma call_step_uninterrupted:
  assumes "cg_checkpointer (sub_graph n) = Some (memory_saver_api parse now)" and "uninterrupted (fst env)"
  shows "uninterrupted (fst (call_step S cd display n k env))"
proof -
  obtain c policy where env: "env = (c, policy)" by fastforce
  let ?cc = "child_config (call_uuid k) n (call_config k)"
  obtain c1 r where sr: "should_resume (cg_checkpointer (sub_graph n)) (cfg_saver ?cc) c = (c1, r)" by fastforce
  note sr' = should_resume_uninterrupted [of c parse now "cfg_saver ?cc" c1 r]
  have u: "uninterrupted c1" "r \<noteq> Inr True" using sr' sr assms env by simp_all
  show ?thesis
  proof (cases r)
    case (Inr b)
    with u have "r = Inr False" by (cases b) simp_all
    with sr u(1) uninterrupted_invoke [OF assms(1)] assms(2) env show ?thesis
      by (fastforce simp: call_step_def subgraph_call_def Let_def split: option.splits)
  qed (use sr u(1) env in \<open>simp add: call_step_def subgraph_call_def Let_def\<close>)
qed

definition example_child :: "subgraph_persistence \<Rightarrow> (nat, nat, nat, nat, memory_saver) subgraph_node" where
  "example_child p = \<lparr>sub_graph = empty_graph, sub_name = ''g'', sub_input_map = (\<lambda>s. s), sub_output_map = (\<lambda>s. s), sub_persistence = p\<rparr>"

section \<open>Theorems\<close>

text \<open>
  A subgraph never resumes: its checkpointer gets checkpoints only from its own runs, which save none when they
  are started by \<open>invoke\<close>; so after any number of calls from a checkpointer without an interrupted checkpoint the
  next call starts the child again from its mapped input instead of resuming it.
\<close>

theorem subgraph_never_resumes:
  assumes "cg_checkpointer (sub_graph n) = Some (memory_saver_api parse now)" and "uninterrupted c"
    and "fold (call_step S cd display n) calls (c, policy) = (c', policy')"
    and "should_resume (cg_checkpointer (sub_graph n)) (cfg_saver (child_config uuid n config)) c' = (c1, Inr b)"
  shows "\<not> b \<and> subgraph_call fuel S cd rw uuid display n config s (c', policy') =
     map_option (map_option (\<lambda>(env', saved, r). (env', saved, subgraph_outcome display n r)))
       (invoke fuel S cd rw (sub_graph n) (child_config uuid n config) (sub_input_map n s) (c1, policy'))"
proof -
  have "uninterrupted (fst (fold (call_step S cd display n) calls env))" if "uninterrupted (fst env)" for env
    using that by (induction calls arbitrary: env) (simp_all add: call_step_uninterrupted [OF assms(1)])
  with assms(2,3) have "uninterrupted c'" by (metis fst_conv)
  then have "\<not> b" using should_resume_uninterrupted(2) [of c'] assms(1,4) by (metis (full_types))
  with assms(4) show ?thesis by (simp add: subgraph_call_def Let_def)
qed

theorem subgraph_never_resumes_witness:
  "\<exists>c1. subgraph_call 1 counter_impl example_codec example_rw ''u'' (\<lambda>_. []) (example_child PerThread) (with_thread_id ''t'' config_new) 3 (memory_saver_new, None) =
     map_option (map_option (\<lambda>(env', saved, r). (env', saved, subgraph_outcome (\<lambda>_. []) (example_child PerThread) r)))
       (invoke 1 counter_impl example_codec example_rw empty_graph (child_config ''u'' (example_child PerThread) (with_thread_id ''t'' config_new)) 3 (c1, None))"
proof -
  let ?n = "example_child PerThread" and ?cfg = "with_thread_id ''t'' config_new"
  have cp: "cg_checkpointer (sub_graph ?n) = Some (memory_saver_api (\<lambda>_. None) 0)"
    by (simp add: example_child_def empty_graph_def example_api_def)
  have un: "uninterrupted memory_saver_new" by (simp add: uninterrupted_def memory_saver_new_def lookup_tuples_def)
  have nil: "fold (call_step counter_impl example_codec (\<lambda>_. []) ?n) ([] :: (nat, nat, nat, nat) child_call list) (memory_saver_new, None) = (memory_saver_new, None)"
    by simp
  obtain c1 b where sr: "should_resume (cg_checkpointer (sub_graph ?n)) (cfg_saver (child_config ''u'' ?n ?cfg)) memory_saver_new = (c1, Inr b)"
    unfolding cp by (auto simp: should_resume_def memory_saver_api_def saver_get_tuple_def get_thread_id_def child_config_def example_child_def
        with_thread_id_def config_new_def Let_def checkpoint_err_def)
  from subgraph_never_resumes [OF cp un nil sr, of 1 example_rw 3] show ?thesis
    by (auto simp: example_child_def)
qed

text \<open>
  A stateless child looks into the namespace of a top-level run: with a checkpointer shared with an interrupted
  run of the same thread at the top level, the stateless subgraph resumes from that run's checkpoint, with the null
  value, instead of being invoked on its own input.
\<close>

theorem stateless_child_resumes_parent:
  assumes "cg_checkpointer (sub_graph n) = Some api" and "sub_persistence n = Stateless"
    and "sa_get_tuple api ((cfg_saver config)\<lparr>sc_checkpoint_ns := None\<rparr>) c = (c1, Inr (Some t))"
    and "is_interrupt_source (md_source (tp_metadata t))"
  shows "subgraph_call fuel S cd rw uuid display n config s (c, policy) =
     map_option (map_option (\<lambda>(c2, saved, r). ((c2, policy), saved, subgraph_outcome display n r)))
       (resume fuel S cd rw (sub_graph n) (config\<lparr>cfg_saver := (cfg_saver config)\<lparr>sc_checkpoint_ns := None\<rparr>, cfg_resume_value := None\<rparr>) (ResumeSingle JNull) c1)"
  using assms
  by (simp add: subgraph_call_def child_config_def compute_child_namespace_def should_resume_def checkpoint_err_def Let_def)

theorem stateless_child_resumes_parent_witness:
  "subgraph_call 1 counter_impl example_codec example_rw ''u'' (\<lambda>_. []) (example_child Stateless) (with_thread_id ''t'' config_new) 3 (saver_with (interrupted_tuple []), None) =
     map_option (map_option (\<lambda>(c2, saved, r). ((c2, None), saved, subgraph_outcome (\<lambda>_. []) (example_child Stateless) r)))
       (resume 1 counter_impl example_codec example_rw empty_graph (with_thread_id ''t'' config_new) (ResumeSingle JNull) (saver_with (interrupted_tuple [])))"
proof -
  let ?n = "example_child Stateless" and ?cfg = "with_thread_id ''t'' config_new" and ?t = "interrupted_tuple []"
  have cp: "cg_checkpointer (sub_graph ?n) = Some example_api" and st: "sub_persistence ?n = Stateless"
    by (simp_all add: example_child_def empty_graph_def)
  have cfg: "(cfg_saver ?cfg)\<lparr>sc_checkpoint_ns := None\<rparr> = \<lparr>sc_thread_id = Some ''t'', sc_checkpoint_id = None, sc_checkpoint_ns = None\<rparr>"
    by (simp add: with_thread_id_def config_new_def)
  have got: "sa_get_tuple example_api ((cfg_saver ?cfg)\<lparr>sc_checkpoint_ns := None\<rparr>) (saver_with ?t) = (saver_with ?t, Inr (Some ?t))"
    unfolding cfg by (rule saver_with_get) (simp_all add: interrupted_tuple_def example_tuple_def Let_def)
  have src: "is_interrupt_source (md_source (tp_metadata ?t))" by (simp add: interrupted_tuple_def Let_def)
  have same: "?cfg\<lparr>cfg_saver := (cfg_saver ?cfg)\<lparr>sc_checkpoint_ns := None\<rparr>, cfg_resume_value := None\<rparr> = ?cfg"
    by (simp add: with_thread_id_def config_new_def)
  from stateless_child_resumes_parent [OF cp st got src, of 1 counter_impl example_codec example_rw "''u''" "\<lambda>_. []" 3 None]
  show ?thesis unfolding same by (simp add: example_child_def)
qed

text \<open>
  Namespaces of children are apart: below one parent two children, or two invocations of one child that is
  not persisted per thread, share a namespace only when names and invocation identifiers agree (neither containing
  a separator), while a child persisted per thread always gets the same one.
\<close>

theorem child_namespaces_apart:
  assumes "compute_child_namespace Inherit name ns tid uuid = Some child" and "compute_child_namespace Inherit name' ns tid' uuid' = Some child'"
    and "\<forall>s \<in> set (case ns of Some l \<Rightarrow> l | None \<Rightarrow> []). segment_ok s"
    and "segment_ok \<lparr>seg_node_name = name, seg_invocation_id = uuid\<rparr>" and "segment_ok \<lparr>seg_node_name = name', seg_invocation_id = uuid'\<rparr>"
  shows "(ns_as_str child = ns_as_str child' \<longleftrightarrow> name = name' \<and> uuid = uuid') \<and>
     compute_child_namespace PerThread name ns tid uuid = compute_child_namespace PerThread name ns tid uuid'"
proof -
  have ok: "\<forall>s \<in> set child. segment_ok s" "\<forall>s \<in> set child'. segment_ok s"
    using assms by (auto simp: compute_child_namespace_def Let_def ns_child_def ns_root_def split: option.splits)
  have "ns_as_str child = ns_as_str child' \<longleftrightarrow> child = child'"
    using ns_parse_as_str [OF ok(1)] ns_parse_as_str [OF ok(2)] by metis
  also have "\<dots> \<longleftrightarrow> name = name' \<and> uuid = uuid'"
    using assms(1,2) by (auto simp: compute_child_namespace_def Let_def ns_child_def)
  finally show ?thesis by (simp add: compute_child_namespace_def)
qed

theorem child_namespaces_apart_witness:
  "ns_as_str (ns_child [] ''a'' ''1'') \<noteq> ns_as_str (ns_child [] ''a'' ''2'')"
  using child_namespaces_apart [of "''a''" None None "''1''" "ns_child [] ''a'' ''1''" "''a''" None "''2''" "ns_child [] ''a'' ''2''"]
  by (simp add: compute_child_namespace_def ns_root_def segment_ok_def)

end
