(* ===== verification/Functional.thy ===== *)
theory Functional
  imports Graph_Api
begin

text \<open>
  The runtime context of nodes (\<open>juncture-core/src/runtime.rs\<close>), the adapters that turn closures into nodes
  (\<open>node/into_node.rs\<close>, \<open>node/trait.rs\<close>), the functional API (\<open>func/mod.rs\<close>, the task cache of
  \<open>pregel/budget.rs\<close>) and what the attribute macros \<open>#[task]\<close> and \<open>#[entrypoint]\<close> of \<open>juncture-derive\<close> generate.
  User functions, the clock, the random jitter, the serializer and the hasher are arguments.
  Stream writers are output only.
\<close>

section \<open>Runtime\<close>

record execution_info =
  ei_checkpoint_id :: string
  ei_checkpoint_ns :: string
  ei_task_id :: string
  ei_step :: nat
  ei_recursion_limit :: nat
  ei_thread_id :: "string option"
  ei_run_id :: "string option"
  ei_node_attempt :: nat
  ei_node_first_attempt_time :: "rat option"

record managed_values =
  mv_is_last_step :: bool
  mv_remaining_steps :: nat

text \<open>\<open>RunControl\<close>: clones share the cell, so the record stands for the shared cell.\<close>

record run_control =
  rctl_drain_reason :: "string option"

definition run_control_new :: run_control where
  "run_control_new = \<lparr>rctl_drain_reason = None\<rparr>"

definition request_drain :: "string \<Rightarrow> run_control \<Rightarrow> run_control" where
  "request_drain reason r = r\<lparr>rctl_drain_reason := Some reason\<rparr>"

definition drain_requested :: "run_control \<Rightarrow> bool" where
  "drain_requested r \<longleftrightarrow> rctl_drain_reason r \<noteq> None"

text \<open>The runtime over a context type \<open>'c\<close> and a store type \<open>'st\<close>.\<close>

record ('c, 'st) runtime =
  rt_context :: 'c
  rt_store :: "'st option"
  rt_previous :: "json option"
  rt_execution_info :: "execution_info option"
  rt_control :: "run_control option"

definition runtime_with_context :: "'c \<Rightarrow> ('c, 'st) runtime" where
  "runtime_with_context c = \<lparr>rt_context = c, rt_store = None, rt_previous = None, rt_execution_info = None, rt_control = None\<rparr>"

definition set_execution_info :: "execution_info \<Rightarrow> ('c, 'st) runtime \<Rightarrow> ('c, 'st) runtime" where
  "set_execution_info info rt = rt\<lparr>rt_execution_info := Some info\<rparr>"

definition managed_values_of :: "('c, 'st) runtime \<Rightarrow> managed_values" where
  "managed_values_of rt = (case rt_execution_info rt of
       None \<Rightarrow> \<lparr>mv_is_last_step = False, mv_remaining_steps = 25\<rparr>
     | Some info \<Rightarrow> (let remaining = ei_recursion_limit info - ei_step info in
         \<lparr>mv_is_last_step = remaining \<le> 1, mv_remaining_steps = min remaining (2 ^ 32 - 1)\<rparr>))"

subsection \<open>Heartbeats\<close>

text \<open>The channel between a node and its watcher: the beats not yet received, and whether the receiver still exists.\<close>

record beat_channel =
  bc_pending :: nat
  bc_open :: bool

definition heartbeat_ping :: "beat_channel \<Rightarrow> beat_channel \<times> bool" where
  "heartbeat_ping ch = (if bc_open ch then (ch\<lparr>bc_pending := bc_pending ch + 1\<rparr>, True) else (ch, False))"

text \<open>\<open>is_alive\<close> at one reading of the clock: every drained beat counts as received now.\<close>

definition watcher_is_alive :: "nat \<Rightarrow> nat \<Rightarrow> nat \<times> beat_channel \<Rightarrow> (nat \<times> beat_channel) \<times> bool" where
  "watcher_is_alive now idle w = (case w of (last_beat, ch) \<Rightarrow>
     (let last' = (if bc_pending ch > 0 then now else last_beat) in
        ((last', ch\<lparr>bc_pending := 0\<rparr>), now - last' < idle)))"

section \<open>Node adapters\<close>

text \<open>
  The task-locals a node function can read: \<open>PREVIOUS\<close> and \<open>TASK_CACHE_POLICY\<close>, the outer \<open>None\<close> when the runner has
  not scoped them.  The spawning path of the runner scopes both from the configuration, the inline path scopes neither.
\<close>

record task_locals =
  tl_previous :: "json option option"
  tl_task_cache :: "cache_policy option option"

definition spawned_locals :: "runnable_config \<Rightarrow> cache_policy option \<Rightarrow> task_locals" where
  "spawned_locals config policy = \<lparr>tl_previous = Some (cfg_previous config), tl_task_cache = Some policy\<rparr>"

definition inline_locals :: task_locals where
  "inline_locals = \<lparr>tl_previous = None, tl_task_cache = None\<rparr>"

definition scoped_previous :: "task_locals \<Rightarrow> json option" where
  "scoped_previous L = Option.bind (tl_previous L) id"

text \<open>
  A user function sees the task-locals and the number of the attempt.  \<open>call\<close> and \<open>call_arc\<close> of an adapter
  differ only in how the state is kept alive.
\<close>

type_synonym 'a body = "task_locals \<Rightarrow> nat \<Rightarrow> 'a"

definition as_update :: "('e, 'u) result \<Rightarrow> ('e, 'u command) result" where
  "as_update r = map_sum id command_update r"

definition update_only_call :: "('s \<Rightarrow> (juncture_error, 'u) result) body \<Rightarrow> task_locals \<Rightarrow> nat \<Rightarrow> 's \<Rightarrow> runnable_config \<Rightarrow> (juncture_error, 'u command) result" where
  "update_only_call f L k s config = as_update (f L k s)"

definition update_config_call ::
    "('s \<Rightarrow> runnable_config \<Rightarrow> (juncture_error, 'u) result) body \<Rightarrow> task_locals \<Rightarrow> nat \<Rightarrow> 's \<Rightarrow> runnable_config \<Rightarrow> (juncture_error, 'u command) result" where
  "update_config_call f L k s config = as_update (f L k s config)"

definition command_only_call :: "('s \<Rightarrow> (juncture_error, 'u command) result) body \<Rightarrow> task_locals \<Rightarrow> nat \<Rightarrow> 's \<Rightarrow> runnable_config \<Rightarrow> (juncture_error, 'u command) result" where
  "command_only_call f L k s config = f L k s"

definition command_config_call ::
    "('s \<Rightarrow> runnable_config \<Rightarrow> (juncture_error, 'u command) result) body \<Rightarrow> task_locals \<Rightarrow> nat \<Rightarrow> 's \<Rightarrow> runnable_config \<Rightarrow> (juncture_error, 'u command) result" where
  "command_config_call f L k s config = f L k s config"

definition merge_previous :: "task_locals \<Rightarrow> runnable_config \<Rightarrow> ('c, 'st) runtime \<Rightarrow> ('c, 'st) runtime" where
  "merge_previous L config rt = (if rt_previous rt = None
     then rt\<lparr>rt_previous := (case cfg_previous config of Some v \<Rightarrow> Some v | None \<Rightarrow> scoped_previous L)\<rparr> else rt)"

definition update_runtime_call ::
    "('s \<Rightarrow> ('c, 'st) runtime \<Rightarrow> (juncture_error, 'u) result) body \<Rightarrow> ('c, 'st) runtime \<Rightarrow> task_locals \<Rightarrow> nat \<Rightarrow> 's \<Rightarrow> runnable_config
       \<Rightarrow> (juncture_error, 'u command) result" where
  "update_runtime_call f rt L k s config = as_update (f L k s (merge_previous L config rt))"

definition update_config_runtime_call ::
    "('s \<Rightarrow> runnable_config \<Rightarrow> ('c, 'st) runtime \<Rightarrow> (juncture_error, 'u) result) body \<Rightarrow> ('c, 'st) runtime \<Rightarrow> task_locals \<Rightarrow> nat \<Rightarrow> 's \<Rightarrow> runnable_config
       \<Rightarrow> (juncture_error, 'u command) result" where
  "update_config_runtime_call f rt L k s config = as_update (f L k s config rt)"

definition command_runtime_call ::
    "('s \<Rightarrow> ('c, 'st) runtime \<Rightarrow> (juncture_error, 'u command) result) body \<Rightarrow> ('c, 'st) runtime \<Rightarrow> task_locals \<Rightarrow> nat \<Rightarrow> 's \<Rightarrow> runnable_config
       \<Rightarrow> (juncture_error, 'u command) result" where
  "command_runtime_call f rt L k s config = f L k s rt"

definition command_config_runtime_call ::
    "('s \<Rightarrow> runnable_config \<Rightarrow> ('c, 'st) runtime \<Rightarrow> (juncture_error, 'u command) result) body \<Rightarrow> ('c, 'st) runtime \<Rightarrow> task_locals \<Rightarrow> nat \<Rightarrow> 's \<Rightarrow> runnable_config
       \<Rightarrow> (juncture_error, 'u command) result" where
  "command_config_runtime_call f rt L k s config = f L k s config rt"

text \<open>The wrapper types of \<open>into_node.rs\<close> and the call of the node \<open>into_node\<close> makes of each.\<close>

datatype ('s, 'u, 'c, 'st) node_form =
    NodeFnUpdate "('s \<Rightarrow> (juncture_error, 'u) result) body"
  | NodeFnUpdateWithConfig "('s \<Rightarrow> runnable_config \<Rightarrow> (juncture_error, 'u) result) body"
  | NodeFnCommand "('s \<Rightarrow> (juncture_error, 'u command) result) body"
  | NodeFnCommandWithConfig "('s \<Rightarrow> runnable_config \<Rightarrow> (juncture_error, 'u command) result) body"
  | NodeFnUpdateWithRuntime "('s \<Rightarrow> ('c, 'st) runtime \<Rightarrow> (juncture_error, 'u) result) body" "('c, 'st) runtime"
  | NodeFnUpdateWithConfigAndRuntime "('s \<Rightarrow> runnable_config \<Rightarrow> ('c, 'st) runtime \<Rightarrow> (juncture_error, 'u) result) body" "('c, 'st) runtime"
  | NodeFnCommandWithRuntime "('s \<Rightarrow> ('c, 'st) runtime \<Rightarrow> (juncture_error, 'u command) result) body" "('c, 'st) runtime"
  | NodeFnCommandWithConfigAndRuntime "('s \<Rightarrow> runnable_config \<Rightarrow> ('c, 'st) runtime \<Rightarrow> (juncture_error, 'u command) result) body" "('c, 'st) runtime"

fun into_node :: "('s, 'u, 'c, 'st) node_form \<Rightarrow> task_locals \<Rightarrow> runnable_config \<Rightarrow> ('s, 'u) node_fn" where
  "into_node (NodeFnUpdate f) L config k s = update_only_call f L k s config"
| "into_node (NodeFnUpdateWithConfig f) L config k s = update_config_call f L k s config"
| "into_node (NodeFnCommand f) L config k s = command_only_call f L k s config"
| "into_node (NodeFnCommandWithConfig f) L config k s = command_config_call f L k s config"
| "into_node (NodeFnUpdateWithRuntime f rt) L config k s = update_runtime_call f rt L k s config"
| "into_node (NodeFnUpdateWithConfigAndRuntime f rt) L config k s = update_config_runtime_call f rt L k s config"
| "into_node (NodeFnCommandWithRuntime f rt) L config k s = command_runtime_call f rt L k s config"
| "into_node (NodeFnCommandWithConfigAndRuntime f rt) L config k s = command_config_runtime_call f rt L k s config"

section \<open>The functional runtime\<close>

record ('c, 'st, 'ck) func_runtime =
  fr_previous :: "json option"
  fr_checkpointer :: "'ck option"
  fr_store :: "'st option"
  fr_core :: "('c, 'st) runtime"

definition func_runtime_new :: "'c \<Rightarrow> ('c, 'st, 'ck) func_runtime" where
  "func_runtime_new c = \<lparr>fr_previous = None, fr_checkpointer = None, fr_store = None, fr_core = runtime_with_context c\<rparr>"

definition from_core :: "task_locals \<Rightarrow> ('c, 'st) runtime \<Rightarrow> ('c, 'st, 'ck) func_runtime" where
  "from_core L core = \<lparr>fr_previous = (case rt_previous core of Some v \<Rightarrow> Some v | None \<Rightarrow> scoped_previous L),
     fr_checkpointer = None, fr_store = rt_store core, fr_core = core\<rparr>"

record ('ck, 'st) entrypoint_config =
  ec_checkpointer :: "'ck option"
  ec_store :: "'st option"

definition from_entrypoint_config :: "'c \<Rightarrow> ('ck, 'st) entrypoint_config \<Rightarrow> ('c, 'st, 'ck) func_runtime" where
  "from_entrypoint_config c config = \<lparr>fr_previous = None, fr_checkpointer = ec_checkpointer config, fr_store = ec_store config,
     fr_core = runtime_with_context c\<rparr>"

section \<open>Entry points\<close>

record task_config =
  tc_retry_policy :: "retry_policy option"
  tc_cache_policy :: "cache_policy option"
  tc_timeout :: "nat option"
  tc_name :: "string option"

definition task_config_default :: task_config where
  "task_config_default = \<lparr>tc_retry_policy = None, tc_cache_policy = None, tc_timeout = None, tc_name = None\<rparr>"

definition entrypoint_name :: "task_config \<Rightarrow> string" where
  "entrypoint_name config = (case tc_name config of Some n \<Rightarrow> n | None \<Rightarrow> ''__entrypoint__'')"

definition entrypoint_retries :: "task_config \<Rightarrow> retry_policy list" where
  "entrypoint_retries config = (case tc_retry_policy config of Some p \<Rightarrow> [p] | None \<Rightarrow> [])"

definition timeout_policy_default :: timeout_policy where
  "timeout_policy_default = \<lparr>run_timeout = 300 * 10 ^ 9, idle_timeout = None, refresh_on = None\<rparr>"

definition entrypoint_timeouts :: "task_config \<Rightarrow> timeout_policy list" where
  "entrypoint_timeouts config = (case tc_timeout config of Some d \<Rightarrow> [timeout_policy_default\<lparr>run_timeout := d\<rparr>] | None \<Rightarrow> [])"

text \<open>The compiled graph with the cache policy of its results.\<close>

definition compile_entrypoint_with_config ::
    "('s, 'u) state_impl \<Rightarrow> ('s, 'u) node_fn \<Rightarrow> task_config \<Rightarrow> 'ck option
       \<Rightarrow> (topology_error, ('s, 'u, 'ck) compiled_graph \<times> cache_policy option) result option" where
  "compile_entrypoint_with_config S f config ck = (let n = entrypoint_name config in
     case add_node n f False None None (entrypoint_retries config) (entrypoint_timeouts config) state_graph_new of
       Inl e \<Rightarrow> Some (Err e)
     | Inr g \<Rightarrow> map_option (map_sum id (\<lambda>cg. (cg, tc_cache_policy config)))
         (compile_inner S compile_config_default ck (set_finish_point n (set_entry_point n g))))"

definition compile_entrypoint ::
    "('s, 'u) state_impl \<Rightarrow> ('s, 'u) node_fn \<Rightarrow> 'ck option \<Rightarrow> (topology_error, ('s, 'u, 'ck) compiled_graph \<times> cache_policy option) result option" where
  "compile_entrypoint S f ck = compile_entrypoint_with_config S f task_config_default ck"

section \<open>Tasks\<close>

text \<open>
  \<open>outcome k\<close> is the time the body needs at attempt \<open>k\<close> and what it returns; \<open>show_duration\<close> prints a duration.
\<close>

definition task_attempt ::
    "(nat \<Rightarrow> string) \<Rightarrow> nat option \<Rightarrow> nat \<times> (juncture_error, 'o) result \<Rightarrow> (juncture_error, 'o) result" where
  "task_attempt show_duration timeout outcome = (case timeout of
       Some d \<Rightarrow> (if fst outcome \<le> d then snd outcome else Err (ExecutionError (''task exceeded '' @ show_duration d @ '' timeout'')))
     | None \<Rightarrow> snd outcome)"

definition task_compute_delay :: "rat \<Rightarrow> nat \<Rightarrow> bool \<Rightarrow> nat \<Rightarrow> nat option" where
  "task_compute_delay = compute_delay"

fun task_loop ::
    "retry_policy option \<Rightarrow> nat \<Rightarrow> (nat \<Rightarrow> (juncture_error, 'o) result) \<Rightarrow> (nat \<Rightarrow> rat) \<Rightarrow> nat \<Rightarrow> nat \<Rightarrow> nat \<Rightarrow> juncture_error option \<Rightarrow> 'o retry_result" where
  "task_loop retry mx op rnd 0 attempt delay last_err =
     ([], Some (Err (case last_err of Some e \<Rightarrow> e | None \<Rightarrow> ExecutionError ''task produced no result'')))"
| "task_loop retry mx op rnd (Suc remaining) attempt delay last_err = (case op attempt of
       Inr v \<Rightarrow> ([], Some (Ok v))
     | Inl e \<Rightarrow> (
         if attempt + 1 \<ge> mx then ([], Some (Err e))
         else (case retry of
             None \<Rightarrow> task_loop retry mx op rnd remaining (attempt + 1) delay (Some e)
           | Some r \<Rightarrow> (case task_compute_delay (rnd attempt) delay (jitter r) (max_interval r) of
               None \<Rightarrow> ([], None)
             | Some actual \<Rightarrow> (case mul_f64 delay (backoff_factor r) of
                 None \<Rightarrow> ([actual], None)
               | Some d \<Rightarrow> (let (slept, res) = task_loop retry mx op rnd remaining (attempt + 1) (min d (max_interval r)) (Some e)
                   in (actual # slept, res)))))))"

definition run_task_fn ::
    "(nat \<Rightarrow> string) \<Rightarrow> retry_policy option \<Rightarrow> nat option \<Rightarrow> (nat \<Rightarrow> nat \<times> (juncture_error, 'o) result) \<Rightarrow> (nat \<Rightarrow> rat) \<Rightarrow> 'o retry_result" where
  "run_task_fn show_duration retry timeout outcome rnd = (let
     mx = (case retry of Some r \<Rightarrow> max (max_attempts r) 1 | None \<Rightarrow> 1);
     delay = (case retry of Some r \<Rightarrow> initial_interval r | None \<Rightarrow> 0)
     in task_loop retry mx (\<lambda>k. task_attempt show_duration timeout (outcome k)) rnd mx 0 delay None)"

subsection \<open>The task cache\<close>

definition hex16 :: "nat \<Rightarrow> string" where
  "hex16 n = replicate (16 - length (nat_to_hex n)) CHR ''0'' @ nat_to_hex n"

definition task_cache_key :: "(string \<Rightarrow> json \<Rightarrow> nat) \<Rightarrow> string \<Rightarrow> json \<Rightarrow> string" where
  "task_cache_key hasher namespace args = ''task:'' @ namespace @ '':'' @ hex16 (hasher namespace args)"

text \<open>How the values of the output type are written and read.\<close>

record 'o task_codec =
  tk_to_value :: "'o \<Rightarrow> (string, json) result"
  tk_from_value :: "json \<Rightarrow> (string, 'o) result"

definition policy_lookup :: "'o task_codec \<Rightarrow> nat \<Rightarrow> string \<Rightarrow> cache_policy \<Rightarrow> cache_policy \<times> 'o option" where
  "policy_lookup cd now key p = (case cache_get now key p of (p', hit) \<Rightarrow> (p', Option.bind hit (\<lambda>v. to_option (tk_from_value cd v))))"

definition policy_store :: "'o task_codec \<Rightarrow> nat \<Rightarrow> string \<Rightarrow> 'o \<Rightarrow> cache_policy \<Rightarrow> cache_policy" where
  "policy_store cd now key v p = (case tk_to_value cd v of Inr j \<Rightarrow> cache_put now key j p | Inl _ \<Rightarrow> p)"

text \<open>The graph-level cache is the scoped policy; without one the lookup misses and the store does nothing.\<close>

definition try_task_cache_lookup ::
    "(string \<Rightarrow> json \<Rightarrow> nat) \<Rightarrow> 'o task_codec \<Rightarrow> nat \<Rightarrow> string \<Rightarrow> json \<Rightarrow> cache_policy option \<Rightarrow> cache_policy option \<times> 'o option" where
  "try_task_cache_lookup hasher cd now namespace args scope = (case scope of
       None \<Rightarrow> (None, None)
     | Some p \<Rightarrow> apfst Some (policy_lookup cd now (task_cache_key hasher namespace args) p))"

definition try_task_cache_store ::
    "(string \<Rightarrow> json \<Rightarrow> nat) \<Rightarrow> 'o task_codec \<Rightarrow> nat \<Rightarrow> string \<Rightarrow> json \<Rightarrow> 'o \<Rightarrow> cache_policy option \<Rightarrow> cache_policy option" where
  "try_task_cache_store hasher cd now namespace args v scope = map_option (policy_store cd now (task_cache_key hasher namespace args) v) scope"

section \<open>The attribute macros\<close>

text \<open>The attribute is a list of keys with expressions \<open>'e\<close>; an unknown key is an error of the compiler.\<close>

record 'e task_args =
  ta_cache :: "'e option"
  ta_retry :: "'e option"
  ta_timeout :: "'e option"
  ta_name :: "'e option"

definition task_args_default :: "'e task_args" where
  "task_args_default = \<lparr>ta_cache = None, ta_retry = None, ta_timeout = None, ta_name = None\<rparr>"

fun parse_task_args :: "(string \<times> 'e) list \<Rightarrow> 'e task_args \<Rightarrow> (string, 'e task_args) result" where
  "parse_task_args [] args = Ok args"
| "parse_task_args ((key, e) # rest) args = (
     if key = ''cache'' then parse_task_args rest (args\<lparr>ta_cache := Some e\<rparr>)
     else if key = ''retry'' then parse_task_args rest (args\<lparr>ta_retry := Some e\<rparr>)
     else if key = ''timeout'' then parse_task_args rest (args\<lparr>ta_timeout := Some e\<rparr>)
     else if key = ''name'' then parse_task_args rest (args\<lparr>ta_name := Some e\<rparr>)
     else Err (''unknown #[task] argument `'' @ key @ ''`; expected one of: cache, retry, timeout, name''))"

record 'e entrypoint_args =
  ea_checkpointer :: "'e option"
  ea_task :: "'e task_args"

definition entrypoint_args_default :: "'e entrypoint_args" where
  "entrypoint_args_default = \<lparr>ea_checkpointer = None, ea_task = task_args_default\<rparr>"

fun parse_entrypoint_args :: "(string \<times> 'e) list \<Rightarrow> 'e entrypoint_args \<Rightarrow> (string, 'e entrypoint_args) result" where
  "parse_entrypoint_args [] args = Ok args"
| "parse_entrypoint_args ((key, e) # rest) args = (
     if key = ''checkpointer'' then parse_entrypoint_args rest (args\<lparr>ea_checkpointer := Some e\<rparr>)
     else if key = ''cache'' then parse_entrypoint_args rest (args\<lparr>ea_task := (ea_task args)\<lparr>ta_cache := Some e\<rparr>\<rparr>)
     else if key = ''retry'' then parse_entrypoint_args rest (args\<lparr>ea_task := (ea_task args)\<lparr>ta_retry := Some e\<rparr>\<rparr>)
     else if key = ''timeout'' then parse_entrypoint_args rest (args\<lparr>ea_task := (ea_task args)\<lparr>ta_timeout := Some e\<rparr>\<rparr>)
     else if key = ''name'' then parse_entrypoint_args rest (args\<lparr>ea_task := (ea_task args)\<lparr>ta_name := Some e\<rparr>\<rparr>)
     else Err (''unknown #[entrypoint] argument `'' @ key @ ''`; expected one of: checkpointer, cache, retry, timeout, name''))"

text \<open>The signature of the annotated function, as far as the macros look at it.\<close>

datatype syn_type = TyReference syn_type | TyPath "(string \<times> generic_argument list option) list" | TyOther
and generic_argument = GenType syn_type | GenOther

datatype fn_arg = Receiver | Typed string syn_type

definition extract_ok_type :: "syn_type option \<Rightarrow> (string, syn_type) result" where
  "extract_ok_type output = (case output of
       None \<Rightarrow> Err ''#[task] functions must return `Result<O, E>`''
     | Some (TyPath segs) \<Rightarrow> (if segs = [] then Err ''#[task] return type must be `Result<O, E>`''
         else (case snd (last segs) of
             Some (GenType t # _) \<Rightarrow> Ok t
           | _ \<Rightarrow> Err ''#[task] return type must be `Result<O, E>`''))
     | Some _ \<Rightarrow> Err ''#[task] return type must be `Result<O, E>`'')"

fun collect_param_patterns :: "fn_arg list \<Rightarrow> (string, string list) result" where
  "collect_param_patterns [] = Ok []"
| "collect_param_patterns (Typed p t # rest) = try_bind (collect_param_patterns rest) (\<lambda>ps. Ok (p # ps))"
| "collect_param_patterns (Receiver # rest) = Err ''#[task] is only supported on free functions, not methods (no `self`)''"

definition extract_state_type :: "fn_arg list \<Rightarrow> (string, syn_type) result" where
  "extract_state_type inputs = (case inputs of
       [] \<Rightarrow> Err ''#[entrypoint] fn must take `&S` as its first parameter''
     | Receiver # _ \<Rightarrow> Err ''#[entrypoint] is only supported on free functions, not methods (no `self`)''
     | Typed _ (TyReference t) # _ \<Rightarrow> Ok t
     | Typed _ _ # _ \<Rightarrow> Err ''#[entrypoint] fn's first parameter must be `&S` (a shared reference to the state)'')"

text \<open>What the expressions of the attribute evaluate to.\<close>

record ('e, 'ck) attr_eval =
  ev_cache :: "'e \<Rightarrow> cache_policy"
  ev_retry :: "'e \<Rightarrow> retry_policy"
  ev_timeout :: "'e \<Rightarrow> nat"
  ev_name :: "'e \<Rightarrow> string"
  ev_checkpointer :: "'e \<Rightarrow> 'ck"

definition entrypoint_task_config :: "('e, 'ck) attr_eval \<Rightarrow> string \<Rightarrow> 'e entrypoint_args \<Rightarrow> task_config" where
  "entrypoint_task_config E ident args = \<lparr>tc_retry_policy = map_option (ev_retry E) (ta_retry (ea_task args)),
     tc_cache_policy = map_option (ev_cache E) (ta_cache (ea_task args)), tc_timeout = map_option (ev_timeout E) (ta_timeout (ea_task args)),
     tc_name = Some (case ta_name (ea_task args) of Some e \<Rightarrow> ev_name E e | None \<Rightarrow> ident)\<rparr>"

text \<open>The generated \<open>compile\<close>: the function as a node that is given a fresh runtime, and the checkpointer of the attribute or of the caller.\<close>

definition entrypoint_compile ::
    "('e, 'ck) attr_eval \<Rightarrow> ('s, 'u) state_impl \<Rightarrow> string \<Rightarrow> 'e entrypoint_args \<Rightarrow> ('s \<Rightarrow> (unit, 'st) runtime \<Rightarrow> (juncture_error, 'u) result) body
       \<Rightarrow> task_locals \<Rightarrow> runnable_config \<Rightarrow> 'ck option \<Rightarrow> (topology_error, ('s, 'u, 'ck) compiled_graph \<times> cache_policy option) result option" where
  "entrypoint_compile E S ident args f L config given = compile_entrypoint_with_config S
     (into_node (NodeFnUpdateWithRuntime f (runtime_with_context ())) L config) (entrypoint_task_config E ident args)
     (case ea_checkpointer args of Some e \<Rightarrow> Some (ev_checkpointer E e) | None \<Rightarrow> given)"

text \<open>
  A call of a \<open>#[task]\<close> function that is awaited at once.  The caches are the scoped graph-level policy and the static
  policy of the task, initialised at its first use.  Arguments that do not serialize count as null.
\<close>

record ('e, 'a, 'o) task_fn =
  tf_ident :: string
  tf_args :: "'e task_args"
  tf_codec :: "'o task_codec"
  tf_args_value :: "'a \<Rightarrow> (string, json) result"
  tf_body :: "'a \<Rightarrow> nat \<Rightarrow> nat \<times> (juncture_error, 'o) result"

record task_env =
  te_hasher :: "string \<Rightarrow> json \<Rightarrow> nat"
  te_show_duration :: "nat \<Rightarrow> string"
  te_rnd :: "nat \<Rightarrow> rat"
  te_start :: nat
  te_finish :: nat

type_synonym task_caches = "cache_policy option \<times> cache_policy option"

definition task_namespace :: "('e, 'ck) attr_eval \<Rightarrow> ('e, 'a, 'o) task_fn \<Rightarrow> string" where
  "task_namespace E t = (case ta_name (tf_args t) of Some e \<Rightarrow> ev_name E e | None \<Rightarrow> tf_ident t)"

definition task_args_value :: "('e, 'a, 'o) task_fn \<Rightarrow> 'a \<Rightarrow> json" where
  "task_args_value t a = (case tf_args_value t a of Inr v \<Rightarrow> v | Inl _ \<Rightarrow> JNull)"

definition own_cache_lookup :: "('e, 'ck) attr_eval \<Rightarrow> task_env \<Rightarrow> ('e, 'a, 'o) task_fn \<Rightarrow> 'a \<Rightarrow> cache_policy option \<Rightarrow> cache_policy option \<times> 'o option" where
  "own_cache_lookup E W t a own = (case ta_cache (tf_args t) of
       None \<Rightarrow> (own, None)
     | Some e \<Rightarrow> (let p = (case own of Some p \<Rightarrow> p | None \<Rightarrow> ev_cache E e) in
         apfst Some (policy_lookup (tf_codec t) (te_start W) (task_cache_key (te_hasher W) (task_namespace E t) (task_args_value t a)) p)))"

definition task_store :: "('e, 'ck) attr_eval \<Rightarrow> task_env \<Rightarrow> ('e, 'a, 'o) task_fn \<Rightarrow> 'a \<Rightarrow> 'o \<Rightarrow> task_caches \<Rightarrow> task_caches" where
  "task_store E W t a v caches = (case caches of (graph, own) \<Rightarrow>
     (try_task_cache_store (te_hasher W) (tf_codec t) (te_finish W) (task_namespace E t) (task_args_value t a) v graph,
      (if ta_cache (tf_args t) = None then own
       else map_option (policy_store (tf_codec t) (te_finish W) (task_cache_key (te_hasher W) (task_namespace E t) (task_args_value t a)) v) own)))"

definition task_call :: "('e, 'ck) attr_eval \<Rightarrow> task_env \<Rightarrow> ('e, 'a, 'o) task_fn \<Rightarrow> 'a \<Rightarrow> task_caches \<Rightarrow> task_caches \<times> 'o retry_result" where
  "task_call E W t a caches = (case caches of (graph, own) \<Rightarrow>
     (case try_task_cache_lookup (te_hasher W) (tf_codec t) (te_start W) (task_namespace E t) (task_args_value t a) graph of
        (graph1, Some v) \<Rightarrow> ((graph1, own), [], Some (Ok v))
      | (graph1, None) \<Rightarrow> (case own_cache_lookup E W t a own of
          (own1, Some v) \<Rightarrow> ((graph1, own1), [], Some (Ok v))
        | (own1, None) \<Rightarrow> (let r = run_task_fn (te_show_duration W) (map_option (ev_retry E) (ta_retry (tf_args t)))
              (map_option (ev_timeout E) (ta_timeout (tf_args t))) (tf_body t a) (te_rnd W) in
            ((case snd r of Some (Inr v) \<Rightarrow> task_store E W t a v (graph1, own1) | _ \<Rightarrow> (graph1, own1)), r)))))"

section \<open>Lemmas\<close>

subsection \<open>Retried tasks\<close>

definition retries_all :: "retry_policy \<Rightarrow> retry_policy" where
  "retries_all p = p\<lparr>max_attempts := max (max_attempts p) 1, retry_on := Some (\<lambda>_. True)\<rparr>"

lemma retries_all_fields [simp]:
  "max_attempts (retries_all p) = max (max_attempts p) 1" "retry_on (retries_all p) = Some (\<lambda>_. True)" "jitter (retries_all p) = jitter p"
  "max_interval (retries_all p) = max_interval p" "backoff_factor (retries_all p) = backoff_factor p" "initial_interval (retries_all p) = initial_interval p"
  by (simp_all add: retries_all_def)

lemma task_loop_retry:
  assumes "0 < n" and "k + n = mx" and "mx = max (max_attempts p) 1"
  shows "task_loop (Some p) mx op rnd n k d le = retry_loop (retries_all p) op rnd node n k d le"
  using assms(1,2)
proof (induction n arbitrary: k d le)
  case (Suc n)
  have same: "max_attempts (retries_all p) = mx" using assms(3) by simp
  show ?case
  proof (cases "n = 0")
    case False
    then have "task_loop (Some p) mx op rnd n (k + 1) d' (Some e) = retry_loop (retries_all p) op rnd node n (k + 1) d' (Some e)" for d' e
      using Suc.IH [of "k + 1"] Suc.prems by simp
    then show ?thesis
      unfolding task_loop.simps retry_loop.simps same by (simp add: should_retry_def task_compute_delay_def cap_delay_def split: sum.splits option.splits)
  qed (use Suc.prems in \<open>unfold task_loop.simps retry_loop.simps same, simp add: should_retry_def split: sum.splits\<close>)
qed simp

lemma policy_safe_retries_all [simp]: "policy_safe (retries_all p) rnd = policy_safe p rnd"
  by (simp add: policy_safe_def)

subsection \<open>Entry points\<close>

lemma add_entry_node: "add_node n f False None None rs ts state_graph_new =
    Ok (state_graph_new\<lparr>sg_nodes := [(n, PlainNode f)], sg_metadata := [(n, node_metadata_default\<lparr>md_retry_policies := rs, md_timeout_policies := ts\<rparr>)]\<rparr>)"
  by (simp add: add_node_def insert_node_def state_graph_new_def im_contains_def node_metadata_default_def)

lemma one_node_validates:
  fixes f :: 'f and es :: "'s edge list"
  assumes "n \<noteq> START" "n \<noteq> END" "md_fallback_node md = None" and es: "es = [EdgeFixed START n, EdgeFixed n END]"
  shows "validate [(n, f)] es (Some n) [(n, md)] = Some (Ok ())"
proof -
  let ?n = "[(n, f)]" and ?e = es
  have a: "scc_adjacency ?n ?e = [(n, [])]"
    using assms by (simp add: scc_adjacency_def es adj_touch_def im_modify_def im_get_def)
  have "find_sccs ?n ?e = Some [[n]]"
    by (simp add: find_sccs_def a scc_fuel_def Let_def tarjan_new_def tarjan_enter_def tarjan_leave_def succs_def im_get_def im_contains_def hs_insert_def)
  then have "check_infinite_loops ?n ?e = Some (Ok ())" by (simp add: check_infinite_loops_def)
  moreover have "check_edge_targets ?n ?e = Ok ()"
    by (simp add: check_edge_targets_Ok es edge_valid_def im_contains_def)
  moreover have "check_reachability ?n ?e (Some n) [(n, md)] = Ok ()" by (simp add: check_reachability_Ok)
  moreover have "check_isolated_nodes ?n ?e = Ok ()"
    using assms by (simp add: es check_isolated_nodes_def Let_def hs_insert_def)
  ultimately show ?thesis by (simp add: validate_def check_entry_point_def)
qed

definition fields_ok :: "('s, 'u) state_impl \<Rightarrow> bool" where
  "fields_ok S \<longleftrightarrow> list_all (\<lambda>i. i < st_field_count S) (st_replace_field_indices S @ st_replace_after_finish_field_indices S)"

lemma first_err_Ok: "list_all (\<lambda>x. f x = None) xs \<Longrightarrow> first_err f xs = Ok ()"
  by (induction xs) auto

subsection \<open>A checkpointer without checkpoints\<close>

definition no_checkpoints :: "memory_saver \<Rightarrow> bool" where
  "no_checkpoints c \<longleftrightarrow> (\<forall>tid ns. lookup_tuples c tid ns = [])"

lemma no_checkpoints_new: "no_checkpoints memory_saver_new"
  by (simp add: no_checkpoints_def memory_saver_new_def lookup_tuples_def)

lemma no_checkpoints_get:
  assumes "no_checkpoints c" and "saver_get_tuple parse now config c = (c', r)"
  shows "no_checkpoints c' \<and> (\<forall>t. r \<noteq> Inr (Some t))"
proof (cases "get_thread_id config")
  case (Inr tid)
  have "surviving parse now c tid ns = []" for ns using set_surviving [of parse now c tid ns] assms(1) by (simp add: no_checkpoints_def)
  then show ?thesis
    using assms Inr by (auto simp: saver_get_tuple_def Let_def no_checkpoints_def select_tuple_def split: option.splits)
qed (use assms in \<open>auto simp: saver_get_tuple_def\<close>)

lemma no_checkpoints_load:
  assumes "no_checkpoints c"
  shows "\<exists>c'. load_previous (Some (memory_saver_api parse now)) cfg prev c = (c', prev) \<and> no_checkpoints c'"
proof -
  obtain c' r where g: "saver_get_tuple parse now cfg c = (c', r)" by fastforce
  with no_checkpoints_get [OF assms g] show ?thesis
    by (auto simp: load_previous_def memory_saver_api_def split: sum.splits option.splits)
qed

lemma no_checkpoints_store:
  assumes "no_checkpoints c"
  shows "no_checkpoints (store_return_value (Some (memory_saver_api parse now)) cfg rv c)"
proof -
  obtain c' r where g: "saver_get_tuple parse now cfg c = (c', r)" by fastforce
  with no_checkpoints_get [OF assms g] assms show ?thesis
    by (auto simp: store_return_value_def memory_saver_api_def split: sum.splits option.splits)
qed

text \<open>Runs of one graph after each other, on the checkpointer and the cache the runs before have left.\<close>

inductive runs_of ::
    "('s \<Rightarrow> 'o) \<Rightarrow> ('s, 'u) state_impl \<Rightarrow> 's state_codec \<Rightarrow> ('s, 'u, memory_saver saver_api) compiled_graph
       \<Rightarrow> memory_saver \<times> cache_policy option \<Rightarrow> memory_saver \<times> cache_policy option \<Rightarrow> bool"
  for out S cd g env where
  first_run: "runs_of out S cd g env env"
| next_run: "runs_of out S cd g env (c, policy) \<Longrightarrow> rw_output rw = out \<Longrightarrow> invoke fuel S cd rw g config s (c, policy) = Some (Some (env', saved, r)) \<Longrightarrow>
    runs_of out S cd g env env'"

lemma runs_no_checkpoints:
  assumes "runs_of out S cd g env env'" and "cg_checkpointer g = Some (memory_saver_api parse now)" and "no_checkpoints (fst env)"
  shows "no_checkpoints (fst env')"
  using assms
proof (induction rule: runs_of.induct)
  case (next_run c policy rw fuel config s env' saved r)
  then have c: "no_checkpoints c" by simp
  obtain c' policy' where env': "env' = (c', policy')" by fastforce
  from invoke_effects [OF next_run.hyps(3) [unfolded env']] obtain cfg prev rv where
    "c' \<in> {c, fst (load_previous (cg_checkpointer g) cfg prev c), store_return_value (cg_checkpointer g) cfg rv (fst (load_previous (cg_checkpointer g) cfg prev c))}"
    by blast
  moreover obtain c1 where "load_previous (cg_checkpointer g) cfg prev c = (c1, prev)" "no_checkpoints c1"
    using no_checkpoints_load [OF c] next_run.prems(1) by metis
  ultimately show ?case using c no_checkpoints_store [of c1] next_run.prems(1) by (auto simp: env')
qed

subsection \<open>Caches\<close>

lemma policy_store_lookup:
  assumes "tk_to_value cd v = Inr j" and "tk_from_value cd j = Inr v" and "cp_ttl p = None \<or> (\<exists>ttl. cp_ttl p = Some ttl \<and> later - now \<le> ttl)"
  shows "snd (policy_lookup cd later key (policy_store cd now key v p)) = Some v"
  using assms by (auto simp: policy_lookup_def policy_store_def cache_get_def cache_put_def Let_def to_option_def)

lemma hex_digit_not_t: "d < 16 \<Longrightarrow> hex_digit d \<noteq> CHR ''t''"
proof
  assume d: "d < 16" and "hex_digit d = CHR ''t''"
  then have "of_char (hex_digit d) = (of_char CHR ''t'' :: nat)" by simp
  with d show False by (simp add: hex_digit_def split: if_splits)
qed

lemma nat_to_hex_no_t: "CHR ''t'' \<notin> set (nat_to_hex n)"
proof (induction n rule: nat_to_hex.induct)
  case (1 n)
  then show ?case
    using hex_digit_not_t [of n, symmetric] hex_digit_not_t [of "n mod 16", symmetric] by (subst nat_to_hex.simps) simp
qed

text \<open>
  A graph with a cache policy keeps its own results and those of its tasks in one store; the default key of a result is a
  hexadecimal number and a task key is not, so the two never meet.
\<close>

lemma task_keys_disjoint: "cp_key_func p = None \<Longrightarrow> task_cache_key hasher namespace args \<noteq> generate_key render h s c p"
  using nat_to_hex_no_t [of "h (render s) (sc_thread_id (cfg_saver c))"]
  by (auto simp: task_cache_key_def generate_key_def) (metis list.set_intros(1))

subsection \<open>Macro arguments\<close>

definition last_value :: "string \<Rightarrow> (string \<times> 'e) list \<Rightarrow> 'e option" where
  "last_value key kvs = map_of (rev kvs) key"

lemma last_value_simps [simp]:
  "last_value key [] = None" "last_value key ((k, e) # rest) = (case last_value key rest of Some v \<Rightarrow> Some v | None \<Rightarrow> if k = key then Some e else None)"
  by (auto simp: last_value_def map_add_def split: option.splits)

definition given_or :: "'e option \<Rightarrow> 'e option \<Rightarrow> 'e option" where
  "given_or d o' = (case o' of Some v \<Rightarrow> Some v | None \<Rightarrow> d)"

lemma given_or_None [simp]: "given_or None o' = o'" "given_or d None = d" "given_or d (Some v) = Some v"
  by (auto simp: given_or_def split: option.splits)

lemma parse_task_args_known:
  "list_all (\<lambda>kv. fst kv \<in> {''cache'', ''retry'', ''timeout'', ''name''}) kvs \<Longrightarrow> parse_task_args kvs args =
     Ok \<lparr>ta_cache = given_or (ta_cache args) (last_value ''cache'' kvs), ta_retry = given_or (ta_retry args) (last_value ''retry'' kvs),
         ta_timeout = given_or (ta_timeout args) (last_value ''timeout'' kvs), ta_name = given_or (ta_name args) (last_value ''name'' kvs)\<rparr>"
proof (induction kvs arbitrary: args)
  case (Cons kv kvs)
  obtain k e where kv: "kv = (k, e)" by fastforce
  from Cons.prems consider "k = ''cache''" | "k = ''retry''" | "k = ''timeout''" | "k = ''name''" by (auto simp: kv)
  then show ?case
    by cases (use Cons in \<open>simp_all add: kv given_or_def split: option.splits\<close>)
qed simp

lemma parse_task_args_unknown:
  "\<not> list_all (\<lambda>kv. fst kv \<in> {''cache'', ''retry'', ''timeout'', ''name''}) kvs \<Longrightarrow> \<exists>e. parse_task_args kvs args = Err e"
proof (induction kvs arbitrary: args)
  case (Cons kv kvs)
  obtain k e where kv: "kv = (k, e)" by fastforce
  show ?case
  proof (cases "k \<in> {''cache'', ''retry'', ''timeout'', ''name''}")
    case True
    with Cons.prems have "\<not> list_all (\<lambda>kv. fst kv \<in> {''cache'', ''retry'', ''timeout'', ''name''}) kvs"
      unfolding kv list.pred_inject fst_conv by blast
    from Cons.IH [OF this] have rest: "\<exists>e. parse_task_args kvs args = Err e" for args .
    show ?thesis unfolding kv parse_task_args.simps using rest by simp
  qed (simp add: kv)
qed simp

section \<open>Theorems\<close>

text \<open>
  A \<open>#[task]\<close> retries every error.  \<open>run_task\<close> with a retry policy behaves exactly like the retry loop of nodes whose
  policy retries whatever it sees: the \<open>retry_on\<close> filter of the policy, and with it the rule that cancellations and
  interrupts are final, is not consulted, and at least one attempt is made.  Without a policy there is one attempt.
\<close>

theorem task_retries_everything:
  "run_task_fn sd (Some p) tmo outcome rnd = execute_with_retry node (retries_all p) (\<lambda>k. task_attempt sd tmo (outcome k)) rnd \<and>
   run_task_fn sd None tmo outcome rnd = ([], Some (task_attempt sd tmo (outcome 0)))"
proof
  let ?op = "\<lambda>k. task_attempt sd tmo (outcome k)" and ?mx = "max (max_attempts p) 1"
  have "task_loop (Some p) ?mx ?op rnd ?mx 0 (initial_interval p) None = retry_loop (retries_all p) ?op rnd node ?mx 0 (initial_interval p) None"
    by (rule task_loop_retry) auto
  then show "run_task_fn sd (Some p) tmo outcome rnd = execute_with_retry node (retries_all p) ?op rnd"
    by (simp add: run_task_fn_def execute_with_retry_def)
qed (simp add: run_task_fn_def Let_def split: sum.splits)

text \<open>
  An entry point compiles exactly to one node.  For a name that is not reserved and a state whose replace indices are
  fields, \<open>compile_entrypoint_with_config\<close> succeeds with the node under that name, with the retry and timeout policy of
  the configuration, no interrupt points and the cache policy; with a reserved character or an empty name it
  gives the naming error.
\<close>

theorem entrypoint_compiles:
  fixes S :: "('s, 'u) state_impl" and ck :: "'ck option"
  assumes "entrypoint_name config \<noteq> START" and "entrypoint_name config \<noteq> END" and "fields_ok S"
  shows "case node_name_error (entrypoint_name config) of
       Some e \<Rightarrow> compile_entrypoint_with_config S f config ck = Some (Err e)
     | None \<Rightarrow> (\<exists>cg. compile_entrypoint_with_config S f config ck = Some (Ok (cg, tc_cache_policy config)) \<and>
         cg_nodes cg = [(entrypoint_name config, PlainNode f)] \<and> cg_checkpointer cg = ck \<and> cg_interrupt_before cg = [] \<and> cg_interrupt_after cg = [] \<and>
         md_retry_policies (snd (hd (cg_metadata cg))) = entrypoint_retries config \<and>
         map run_timeout (md_timeout_policies (snd (hd (cg_metadata cg)))) = (case tc_timeout config of Some d \<Rightarrow> [d] | None \<Rightarrow> []))"
proof -
  let ?n = "entrypoint_name config"
  let ?md = "node_metadata_default\<lparr>md_retry_policies := entrypoint_retries config, md_timeout_policies := entrypoint_timeouts config\<rparr>"
  let ?g = "set_finish_point ?n (set_entry_point ?n ((state_graph_new :: ('s, 'u) state_graph)\<lparr>sg_nodes := [(?n, PlainNode f)], sg_metadata := [(?n, ?md)]\<rparr>))"
  have g: "sg_nodes ?g = [(?n, PlainNode f)]" "sg_edges ?g = [EdgeFixed START ?n, EdgeFixed ?n END]" "sg_entry_point ?g = Some ?n"
    "sg_finish_points ?g = [?n]" "sg_metadata ?g = [(?n, ?md)]" "sg_subgraphs ?g = []"
    by (simp_all add: set_finish_point_def set_entry_point_def state_graph_new_def)
  have v: "validate (sg_nodes ?g) (sg_edges ?g) (sg_entry_point ?g) (sg_metadata ?g) = Some (Ok ())"
    unfolding g by (rule one_node_validates [OF assms(1,2)]) (simp_all add: node_metadata_default_def)
  have keys: "validate_keys S ?g = (case node_name_error ?n of Some e \<Rightarrow> Err e | None \<Rightarrow> Ok ())"
  proof -
    have idx: "first_err (\<lambda>i. if i \<ge> st_field_count S then Some (E i) else None) (st_replace_field_indices S) = Ok ()"
      "first_err (\<lambda>i. if i \<ge> st_field_count S then Some (E i) else None) (st_replace_after_finish_field_indices S) = Ok ()" for E :: "nat \<Rightarrow> topology_error"
      using assms(3) by (auto simp: fields_ok_def list_all_iff ball_Un not_le [symmetric] simp del: not_le intro!: first_err_Ok)
    show ?thesis unfolding validate_keys_def g idx by (auto simp: im_contains_def split: option.splits)
  qed
  have run: "map run_timeout (entrypoint_timeouts config) = (case tc_timeout config of Some d \<Rightarrow> [d] | None \<Rightarrow> [])"
    by (simp add: entrypoint_timeouts_def split: option.splits)
  have eq: "compile_entrypoint_with_config S f config ck = map_option (map_sum id (\<lambda>cg. (cg, tc_cache_policy config))) (compile_inner S compile_config_default ck ?g)"
    by (simp add: compile_entrypoint_with_config_def add_entry_node Let_def)
  show ?thesis
  proof (cases "node_name_error ?n")
    case None
    then show ?thesis using run unfolding eq compile_inner_def v keys by (simp add: compile_config_default_def g(1,5))
  qed (simp add: eq compile_inner_def v keys)
qed

theorem entrypoint_compiles_witness:
  "(\<exists>cg. compile_entrypoint_with_config counter_impl (\<lambda>_ n. Ok (command_update n)) task_config_default (None :: unit option) = Some (Ok (cg, None))) \<and>
   (\<exists>e. compile_entrypoint_with_config counter_impl (\<lambda>_ n. Ok (command_update n)) (task_config_default\<lparr>tc_name := Some ''a:b''\<rparr>) (None :: unit option) = Some (Err e))"
proof -
  have f: "fields_ok counter_impl" by (simp add: fields_ok_def counter_impl_def)
  have "entrypoint_name task_config_default \<noteq> START" "entrypoint_name task_config_default \<noteq> END" "node_name_error (entrypoint_name task_config_default) = None"
    by (simp_all add: entrypoint_name_def task_config_default_def START_def END_def node_name_error_def)
  moreover have "entrypoint_name (task_config_default\<lparr>tc_name := Some ''a:b''\<rparr>) \<noteq> START" "entrypoint_name (task_config_default\<lparr>tc_name := Some ''a:b''\<rparr>) \<noteq> END"
    "\<exists>e. node_name_error (entrypoint_name (task_config_default\<lparr>tc_name := Some ''a:b''\<rparr>)) = Some e"
    by (simp_all add: entrypoint_name_def task_config_default_def START_def END_def node_name_error_def)
  moreover have "tc_cache_policy task_config_default = None" by (simp add: task_config_default_def)
  ultimately show ?thesis
    using entrypoint_compiles [of task_config_default counter_impl "\<lambda>_ n. Ok (command_update n)" "None :: unit option"]
      entrypoint_compiles [of "task_config_default\<lparr>tc_name := Some ''a:b''\<rparr>" counter_impl "\<lambda>_ n. Ok (command_update n)" "None :: unit option"] f
    by auto
qed

text \<open>
  The previous result never arrives.  However often an entry point with a checkpointer in memory is invoked, starting
  from an empty checkpointer, no run finds a previous result, and each runs as if the graph had no checkpointer:
  \<open>invoke\<close> stores its return value only on a checkpoint it finds, and nothing ever saves one.
\<close>

theorem previous_never_arrives:
  assumes "runs_of out S cd g (memory_saver_new, policy0) (c, policy)" and "cg_checkpointer g = Some (memory_saver_api parse now)"
  shows "snd (load_previous (cg_checkpointer g) cfg prev c) = prev \<and>
    map_option (map_option snd) (invoke fuel S cd rw g config s (c, policy)) =
    map_option (map_option snd) (invoke fuel S cd rw (g\<lparr>cg_checkpointer := None\<rparr>) config s (c, policy))"
proof -
  have "no_checkpoints c" using runs_no_checkpoints [OF assms] no_checkpoints_new by simp
  then have load: "snd (load_previous (cg_checkpointer g) cfg prev c) = prev" for cfg prev
    using no_checkpoints_load [of c parse now cfg prev] assms(2) by auto
  have none: "load_previous None cfg prev c = (c, prev)" for cfg prev and c :: memory_saver by (simp add: load_previous_def)
  obtain p1 key hit where cl: "cache_lookup rw cd (effective_config g config) s policy = (p1, key, hit)" by (metis prod_cases3)
  let ?cfg = "effective_config g config"
  obtain c1 where lp: "load_previous (cg_checkpointer g) (cfg_saver ?cfg) (cfg_previous ?cfg) c = (c1, cfg_previous ?cfg)"
    using load [of "cfg_saver ?cfg" "cfg_previous ?cfg"] by (metis prod.collapse)
  have same: "effective_config (g\<lparr>cg_checkpointer := None\<rparr>) config = ?cfg" by (simp add: effective_config_def Let_def)
  have loop: "invoke_loop fresh start s (g\<lparr>cg_checkpointer := None\<rparr>) k = invoke_loop fresh start s g k" for fresh start k
    by (simp add: invoke_loop_def stream_loop_def build_circuit_breaker_map_def build_fallback_map_def build_retry_policy_map_def
        build_timeout_policy_map_def build_error_handler_map_def)
  show ?thesis
    using load by (auto simp: invoke_def invoke_async_inner_def same cl lp none loop Let_def map_option_case split: option.splits sum.splits)
qed

theorem previous_never_arrives_witness:
  "\<exists>c policy. runs_of (\<lambda>n :: nat. n) counter_impl example_codec empty_graph (memory_saver_new, None) (c, policy) \<and>
     snd (load_previous (cg_checkpointer empty_graph) \<lparr>sc_thread_id = Some ''t'', sc_checkpoint_id = None, sc_checkpoint_ns = None\<rparr> None c) = None"
proof -
  have out: "rw_output example_rw = (\<lambda>n. n)" by (simp add: example_rw_def)
  obtain c' policy' saved r where run: "invoke 1 counter_impl example_codec example_rw empty_graph config_new 4 (memory_saver_new, None) = Some (Some ((c', policy'), saved, r))"
    by (simp add: invoke_def invoke_async_inner_def cache_lookup_def load_previous_def empty_graph_def example_api_def memory_saver_api_def
        saver_get_tuple_def get_thread_id_def effective_config_def config_new_def invoke_loop_def stream_loop_def with_error_handlers_def
        tracker_new_def wire_budget_def set_circuit_breaker_policies_def build_circuit_breaker_map_def tick_def compute_initial_tasks_def
        trigger_table_new_def finish_all_channels_def counter_impl_def Let_def)
  from next_run [OF first_run out run] have one: "runs_of (\<lambda>n. n) counter_impl example_codec empty_graph (memory_saver_new, None) (c', policy')" .
  have cp: "cg_checkpointer empty_graph = Some (memory_saver_api (\<lambda>_. None) 0)" by (simp add: empty_graph_def example_api_def)
  from previous_never_arrives [OF one cp] one show ?thesis by blast
qed

text \<open>
  Which node functions see the previous result, and where.  A function with a runtime that returns an update is given
  the previous result of the configuration on both paths of the runner.  The three other forms with a runtime are given
  the runtime as it was registered, so \<open>Runtime::from_core\<close> in them falls back to the task-local: that finds the
  previous result on the spawning path and nothing on the inline path.
\<close>

theorem previous_delivery:
  fixes rt :: "('c, 'st) runtime"
  assumes "rt_previous rt = None"
  shows "(\<forall>L \<in> {inline_locals, spawned_locals config policy}. \<exists>rt'. rt_previous rt' = cfg_previous config \<and> fr_previous (from_core L rt' :: ('c, 'st, unit) func_runtime) = cfg_previous config \<and>
       into_node (NodeFnUpdateWithRuntime f rt) L config k s = as_update (f L k s rt')) \<and>
    into_node (NodeFnUpdateWithConfigAndRuntime fc rt) L config k s = as_update (fc L k s config rt) \<and>
    into_node (NodeFnCommandWithRuntime h rt) L config k s = h L k s rt \<and>
    into_node (NodeFnCommandWithConfigAndRuntime hc rt) L config k s = hc L k s config rt \<and>
    fr_previous (from_core (spawned_locals config policy) rt :: ('c, 'st, unit) func_runtime) = cfg_previous config \<and> fr_previous (from_core inline_locals rt :: ('c, 'st, unit) func_runtime) = None"
proof -
  have "rt_previous (merge_previous L config rt) = cfg_previous config \<and> fr_previous (from_core L (merge_previous L config rt) :: ('c, 'st, unit) func_runtime) = cfg_previous config"
    if "L \<in> {inline_locals, spawned_locals config policy}" for L
    using that assms by (auto simp: merge_previous_def from_core_def scoped_previous_def inline_locals_def spawned_locals_def split: option.splits)
  moreover have "into_node (NodeFnUpdateWithRuntime f rt) L config k s = as_update (f L k s (merge_previous L config rt))" for L
    by (simp add: update_runtime_call_def)
  ultimately show ?thesis
    using assms by (auto simp: update_config_runtime_call_def command_runtime_call_def command_config_runtime_call_def from_core_def
        scoped_previous_def inline_locals_def spawned_locals_def)
qed

theorem previous_delivery_witness:
  "fr_previous (from_core inline_locals (runtime_with_context ()) :: (unit, unit, unit) func_runtime) = None \<and>
   fr_previous (from_core (spawned_locals (config_new\<lparr>cfg_previous := Some (JNum 1)\<rparr>) None) (runtime_with_context ()) :: (unit, unit, unit) func_runtime) = Some (JNum 1)"
proof -
  have "rt_previous (runtime_with_context () :: (unit, unit) runtime) = None" by (simp add: runtime_with_context_def)
  from previous_delivery [OF this, of "config_new\<lparr>cfg_previous := Some (JNum 1)\<rparr>" None, THEN conjunct2, THEN conjunct2, THEN conjunct2, THEN conjunct2]
  show ?thesis by simp
qed

text \<open>
  The cache of tasks answers by key alone.  After a call of a task that succeeded, with a value that serializes
  faithfully, a call with arguments of the same key within the lifetime gets that value without running the
  body, from the cache of the graph or, without one, from the cache of the task.  Arguments that cannot be serialized all
  count as null, so such a call is answered with the result for other arguments.
\<close>

theorem task_cache_answers:
  assumes call: "task_call E W t a (graph, own) = (caches, slept, Some (Ok v))" and miss: "snd (try_task_cache_lookup (te_hasher W) (tf_codec t) (te_start W) (task_namespace E t) (task_args_value t a) graph) = None"
      "snd (own_cache_lookup E W t a own) = None"
    and rt: "tk_to_value (tf_codec t) v = Inr j" "tk_from_value (tf_codec t) j = Inr v"
    and cached: "graph \<noteq> None \<or> ta_cache (tf_args t) \<noteq> None"
    and fresh: "\<forall>p. (graph = Some p \<or> (own = Some p \<or> own = None \<and> (\<exists>e. ta_cache (tf_args t) = Some e \<and> p = ev_cache E e))) \<longrightarrow>
      cp_ttl p = None \<or> (\<exists>ttl. cp_ttl p = Some ttl \<and> te_start W' - te_finish W \<le> ttl)"
    and same: "te_hasher W' = te_hasher W"
      "task_args_value t a = task_args_value t b \<or> (\<exists>e e'. tf_args_value t a = Inl e \<and> tf_args_value t b = Inl e')"
  shows "snd (task_call E W' t b caches) = ([], Some (Ok v))"
proof -
  have args: "task_args_value t b = task_args_value t a" using same(2) by (auto simp: task_args_value_def)
  let ?key = "task_cache_key (te_hasher W) (task_namespace E t) (task_args_value t a)"
  obtain graph1 where l1: "try_task_cache_lookup (te_hasher W) (tf_codec t) (te_start W) (task_namespace E t) (task_args_value t a) graph = (graph1, None)"
    using miss(1) by (metis prod.collapse)
  obtain own1 where l2: "own_cache_lookup E W t a own = (own1, None)" using miss(2) by (metis prod.collapse)
  have ttl: "cp_ttl (fst (cache_get now key p)) = cp_ttl p" for now key p by (auto simp: cache_get_def split: option.splits)
  have caches: "caches = task_store E W t a v (graph1, own1)"
    using call l1 l2 by (auto simp: task_call_def Let_def)
  show ?thesis
  proof (cases graph)
    case (Some p)
    with l1 have "graph1 = Some (fst (cache_get (te_start W) ?key p))"
      by (auto simp: try_task_cache_lookup_def policy_lookup_def split: prod.splits)
    then obtain p1 where g1: "graph1 = Some p1" "cp_ttl p1 = cp_ttl p" by (simp add: ttl)
    have "snd (policy_lookup (tf_codec t) (te_start W') ?key (policy_store (tf_codec t) (te_finish W) ?key v p1)) = Some v"
      using rt fresh Some g1 by (intro policy_store_lookup) auto
    then show ?thesis
      using g1 by (auto simp: caches task_store_def task_call_def try_task_cache_store_def try_task_cache_lookup_def same(1) args apfst_def map_prod_def split: prod.splits)
  next
    case None
    then have g1: "graph1 = None" using l1 by (simp add: try_task_cache_lookup_def)
    from None cached obtain e where e: "ta_cache (tf_args t) = Some e" by auto
    let ?p = "case own of Some p \<Rightarrow> p | None \<Rightarrow> ev_cache E e"
    have "own1 = Some (fst (cache_get (te_start W) ?key ?p))"
      using l2 e by (auto simp: own_cache_lookup_def policy_lookup_def Let_def split: prod.splits)
    then obtain p1 where o1: "own1 = Some p1" "cp_ttl p1 = cp_ttl ?p" by (simp add: ttl)
    have "snd (policy_lookup (tf_codec t) (te_start W') ?key (policy_store (tf_codec t) (te_finish W) ?key v p1)) = Some v"
      using rt fresh e o1 by (intro policy_store_lookup) (auto split: option.splits)
    then show ?thesis
      using g1 o1 e by (auto simp: caches task_store_def task_call_def try_task_cache_store_def try_task_cache_lookup_def own_cache_lookup_def same(1) args
          apfst_def map_prod_def Let_def split: prod.splits)
  qed
qed

text \<open>A task over pairs that cannot be serialized, in a graph with a cache without lifetime.\<close>

definition example_task :: "(unit, nat, nat) task_fn" where
  "example_task = \<lparr>tf_ident = ''t'', tf_args = task_args_default, tf_codec = \<lparr>tk_to_value = (\<lambda>n. Ok (JNum n)), tk_from_value = (\<lambda>v. case v of JNum n \<Rightarrow> Ok n | _ \<Rightarrow> Err ''bad'')\<rparr>,
     tf_args_value = (\<lambda>_. Err ''map keys must be strings''), tf_body = (\<lambda>n _. (0, Ok (n + 1)))\<rparr>"

definition example_task_env :: task_env where
  "example_task_env = \<lparr>te_hasher = (\<lambda>_ _. 0), te_show_duration = (\<lambda>_. []), te_rnd = (\<lambda>_. 1), te_start = 0, te_finish = 0\<rparr>"

theorem task_cache_answers_witness:
  "\<exists>caches. task_call (undefined :: (unit, unit) attr_eval) example_task_env example_task 1 (Some default_policy, None) = (caches, [], Some (Ok 2)) \<and>
     snd (task_call (undefined :: (unit, unit) attr_eval) example_task_env example_task 5 caches) = ([], Some (Ok 2))"
proof -
  let ?E = "undefined :: (unit, unit) attr_eval" and ?W = example_task_env and ?t = example_task
  have t: "ta_cache (tf_args ?t) = None" "ta_name (tf_args ?t) = None" "ta_retry (tf_args ?t) = None" "ta_timeout (tf_args ?t) = None"
    by (simp_all add: example_task_def task_args_default_def)
  have miss: "snd (try_task_cache_lookup (te_hasher ?W) (tf_codec ?t) (te_start ?W) (task_namespace ?E ?t) (task_args_value ?t 1) (Some default_policy)) = None"
    "snd (own_cache_lookup ?E ?W ?t 1 None) = None"
    by (simp_all add: try_task_cache_lookup_def policy_lookup_def cache_get_def default_policy_def own_cache_lookup_def t)
  obtain caches where call: "task_call ?E ?W ?t 1 (Some default_policy, None) = (caches, [], Some (Ok 2))"
    by (simp add: task_call_def try_task_cache_lookup_def policy_lookup_def cache_get_def default_policy_def own_cache_lookup_def t run_task_fn_def task_attempt_def Let_def)
      (simp add: example_task_def numeral_2_eq_2)
  have "snd (task_call ?E ?W ?t 5 caches) = ([], Some (Ok 2))"
    by (rule task_cache_answers [OF call miss, where j = "JNum 2"]) (auto simp: example_task_def default_policy_def task_args_default_def)
  with call show ?thesis by blast
qed

text \<open>
  The attribute of \<open>#[task]\<close> is accepted exactly when every key is known; each setting is the last value given for it.
\<close>

theorem task_attribute_exact:
  "parse_task_args kvs task_args_default =
     Ok \<lparr>ta_cache = last_value ''cache'' kvs, ta_retry = last_value ''retry'' kvs, ta_timeout = last_value ''timeout'' kvs, ta_name = last_value ''name'' kvs\<rparr>
     \<longleftrightarrow> list_all (\<lambda>kv. fst kv \<in> {''cache'', ''retry'', ''timeout'', ''name''}) kvs"
proof (cases "list_all (\<lambda>kv. fst kv \<in> {''cache'', ''retry'', ''timeout'', ''name''}) kvs")
  case True
  then show ?thesis unfolding parse_task_args_known [OF True] by (simp add: task_args_default_def)
next
  case False
  from parse_task_args_unknown [OF False] obtain e where "parse_task_args kvs task_args_default = Err e" by blast
  then show ?thesis using False by simp
qed

text \<open>
  The managed values of a node are exact below the width of the counter: the last step is the one that leaves at most
  one step, whatever the numbers, and a node outside an execution is told of 25 steps.
\<close>

theorem managed_values_exact:
  "(rt_execution_info rt = Some info \<longrightarrow> ei_recursion_limit info < 2 ^ 32 \<longrightarrow>
      mv_remaining_steps (managed_values_of rt) = ei_recursion_limit info - ei_step info \<and>
      (mv_is_last_step (managed_values_of rt) \<longleftrightarrow> ei_recursion_limit info \<le> ei_step info + 1)) \<and>
   (rt_execution_info rt = None \<longrightarrow> mv_remaining_steps (managed_values_of rt) = 25 \<and> \<not> mv_is_last_step (managed_values_of rt))"
  by (auto simp: managed_values_of_def Let_def)

text \<open>
  A watcher takes the time it drains a beat for the time of the beat: one beat since the last check makes the node alive
  at the check, however long ago it was.  Without a beat the node is alive exactly within the idle timeout.
\<close>

theorem watcher_verdict:
  "snd (watcher_is_alive now idle (last_beat, ch)) \<longleftrightarrow> (if bc_pending ch > 0 then 0 < idle else now - last_beat < idle)"
  by (simp add: watcher_is_alive_def Let_def)

end
