(* ===== verification/Model_Calls.thy ===== *)
theory Model_Calls
  imports Streaming Retry Budget
begin

text \<open>
  What every model call shares: call options and tool definitions (\<open>juncture-core/src/llm.rs\<close>), the response
  cache and its keys (\<open>juncture-core/src/observability.rs\<close> and the lookups of \<open>pregel/budget.rs\<close>), the wrapper that
  extracts structured output, and the price table (\<open>juncture/src/llm/pricing.rs\<close>).  The hasher, the bit pattern of
  a float, the JSON printer and reader and the clock are parameters.
\<close>

section \<open>Call options\<close>

datatype tool_choice = ChoiceAuto | ChoiceNone | ChoiceRequired | ChoiceSpecific string

datatype response_format = JsonObject | JsonSchemaFormat string json bool

record tool_definition =
  td_name :: string
  td_description :: string
  td_parameters :: json

record call_options =
  co_temperature :: "rat option"
  co_max_tokens :: "nat option"
  co_stop_sequences :: "string list option"
  co_top_p :: "rat option"
  co_model_override :: "string option"
  co_tool_choice :: "tool_choice option"
  co_response_format :: "response_format option"
  co_tags :: "string list"

definition call_options_default :: call_options where
  "call_options_default = \<lparr>co_temperature = None, co_max_tokens = None, co_stop_sequences = None, co_top_p = None,
     co_model_override = None, co_tool_choice = None, co_response_format = None, co_tags = []\<rparr>"

section \<open>Cache keys\<close>

record cache_key_input =
  cki_model :: string
  cki_messages :: "message list"
  cki_tools :: "tool_definition list"
  cki_config :: "call_options option"

text \<open>What one call of \<open>Hash::hash\<close> feeds the hasher.\<close>

datatype hash_atom = HStr string | HRole role | HOptStr "string option" | HU32 nat

fun part_atoms :: "content_part \<Rightarrow> hash_atom list" where
  "part_atoms (PartText t) = [HStr t]"
| "part_atoms (PartImage d) = [HStr (img_media_type d), HStr (case img_source d of Base64 b \<Rightarrow> b | Url u \<Rightarrow> u)]"
| "part_atoms (PartThinking t sig) = [HStr t, HOptStr sig]"

definition call_atoms :: "(json \<Rightarrow> string) \<Rightarrow> tool_call \<Rightarrow> hash_atom list" where
  "call_atoms render c = [HStr (tcall_id c), HStr (tcall_name c), HStr (render (tcall_arguments c))]"

definition message_atoms :: "(json \<Rightarrow> string) \<Rightarrow> message \<Rightarrow> hash_atom list" where
  "message_atoms render m = HRole (msg_role m) #
     (case msg_content m of ContentText t \<Rightarrow> [HStr t] | MultiPart ps \<Rightarrow> concat (map part_atoms ps)) @
     concat (map (call_atoms render) (msg_tool_calls m))"

definition tool_atoms :: "(json \<Rightarrow> string) \<Rightarrow> tool_definition \<Rightarrow> hash_atom list" where
  "tool_atoms render t = [HStr (td_name t), HStr (render (td_parameters t))]"

definition option_atoms :: "(rat \<Rightarrow> nat) \<Rightarrow> call_options \<Rightarrow> hash_atom list" where
  "option_atoms bits o' =
     (case co_temperature o' of Some t \<Rightarrow> [HU32 (bits t)] | None \<Rightarrow> []) @
     (case co_max_tokens o' of Some n \<Rightarrow> [HU32 n] | None \<Rightarrow> []) @
     (case co_top_p o' of Some p \<Rightarrow> [HU32 (bits p)] | None \<Rightarrow> [])"

definition key_atoms :: "(json \<Rightarrow> string) \<Rightarrow> (rat \<Rightarrow> nat) \<Rightarrow> cache_key_input \<Rightarrow> hash_atom list" where
  "key_atoms render bits k = HStr (cki_model k) # concat (map (message_atoms render) (cki_messages k)) @
     concat (map (tool_atoms render) (cki_tools k)) @ (case cki_config k of Some o' \<Rightarrow> option_atoms bits o' | None \<Rightarrow> [])"

record hash_env =
  he_render :: "json \<Rightarrow> string"
  he_bits :: "rat \<Rightarrow> nat"
  he_hasher :: "hash_atom list \<Rightarrow> nat"

definition key_hash :: "hash_env \<Rightarrow> cache_key_input \<Rightarrow> nat" where
  "key_hash E k = he_hasher E (key_atoms (he_render E) (he_bits E) k)"

section \<open>The response cache\<close>

record llm_cache =
  lc_key_func :: "(cache_key_input \<Rightarrow> string) option"
  lc_ttl :: "nat option"
  lc_store :: "(string, message \<times> nat) imap"

definition llm_cache_new :: llm_cache where
  "llm_cache_new = \<lparr>lc_key_func = None, lc_ttl = None, lc_store = []\<rparr>"

definition llm_cache_ttl :: "nat \<Rightarrow> llm_cache" where
  "llm_cache_ttl t = llm_cache_new\<lparr>lc_ttl := Some t\<rparr>"

definition llm_with_key_func :: "(cache_key_input \<Rightarrow> string) \<Rightarrow> llm_cache \<Rightarrow> llm_cache" where
  "llm_with_key_func f p = p\<lparr>lc_key_func := Some f\<rparr>"

definition llm_with_ttl :: "nat \<Rightarrow> llm_cache \<Rightarrow> llm_cache" where
  "llm_with_ttl t p = p\<lparr>lc_ttl := Some t\<rparr>"

definition llm_generate_key :: "hash_env \<Rightarrow> llm_cache \<Rightarrow> cache_key_input \<Rightarrow> string" where
  "llm_generate_key E p k = (case lc_key_func p of Some f \<Rightarrow> f k | None \<Rightarrow> cki_model k @ '':'' @ nat_to_string (key_hash E k))"

definition llm_cache_get :: "nat \<Rightarrow> string \<Rightarrow> llm_cache \<Rightarrow> llm_cache \<times> message option" where
  "llm_cache_get now key p = (case im_get (lc_store p) key of
       None \<Rightarrow> (p, None)
     | Some (m, inserted) \<Rightarrow> (case lc_ttl p of
           Some ttl \<Rightarrow> (if now - inserted > ttl then (p\<lparr>lc_store := im_remove key (lc_store p)\<rparr>, None) else (p, Some m))
         | None \<Rightarrow> (p, Some m)))"

definition llm_cache_put :: "nat \<Rightarrow> string \<Rightarrow> message \<Rightarrow> llm_cache \<Rightarrow> llm_cache" where
  "llm_cache_put now key m p = p\<lparr>lc_store := im_insert key (m, now) (lc_store p)\<rparr>"

text \<open>The task-local policy is \<open>None\<close> when no cache is configured.\<close>

definition try_llm_cache_lookup :: "hash_env \<Rightarrow> nat \<Rightarrow> cache_key_input \<Rightarrow> llm_cache option \<Rightarrow> llm_cache option \<times> message option" where
  "try_llm_cache_lookup E now k scope = (case scope of
       None \<Rightarrow> (None, None)
     | Some p \<Rightarrow> (case llm_cache_get now (llm_generate_key E p k) p of (p', r) \<Rightarrow> (Some p', r)))"

definition try_llm_cache_store :: "hash_env \<Rightarrow> nat \<Rightarrow> cache_key_input \<Rightarrow> message \<Rightarrow> llm_cache option \<Rightarrow> llm_cache option" where
  "try_llm_cache_store E now k m scope = map_option (\<lambda>p. llm_cache_put now (llm_generate_key E p k) m p) scope"

section \<open>Structured output\<close>

text \<open>\<open>from_value\<close> and \<open>from_str\<close> read a value of the target type, with the message of their error.\<close>

record 't structured_model =
  so_use_tool_based :: bool
  so_tool_name :: string
  so_tool_definition :: tool_definition
  so_from_value :: "json \<Rightarrow> (string, 't) result"
  so_from_str :: "string \<Rightarrow> (string, 't) result"

definition extract_from_tool_call :: "'t structured_model \<Rightarrow> message \<Rightarrow> (llm_error, 't) result" where
  "extract_from_tool_call so m = (case msg_tool_calls m of
       [] \<Rightarrow> Err (InvalidResponse ''No tool calls found in response for tool-based extraction'')
     | tc # _ \<Rightarrow> (case so_from_value so (tcall_arguments tc) of
           Inl e \<Rightarrow> Err (InvalidResponse (''Failed to parse tool call arguments as structured output: '' @ e))
         | Inr v \<Rightarrow> Ok v))"

definition extract_from_text :: "'t structured_model \<Rightarrow> message \<Rightarrow> (llm_error, 't) result" where
  "extract_from_text so m = (case msg_content m of
       MultiPart _ \<Rightarrow> Err (InvalidResponse ''Cannot extract structured output from multipart content'')
     | ContentText t \<Rightarrow> (case so_from_str so t of
           Inl e \<Rightarrow> Err (InvalidResponse (''Failed to parse structured output: '' @ e @ [CHR 10] @ ''Content: '' @ t))
         | Inr v \<Rightarrow> Ok v))"

definition extract_output :: "'t structured_model \<Rightarrow> message \<Rightarrow> (llm_error, 't) result" where
  "extract_output so m = (if msg_tool_calls m \<noteq> []
     then (case extract_from_tool_call so m of Inr v \<Rightarrow> Ok v | Inl _ \<Rightarrow> extract_from_text so m)
     else extract_from_text so m)"

text \<open>The inner model as a function of its bound tools (\<open>None\<close>: as it is), the messages and the options.\<close>

type_synonym inner_call = "tool_definition list option \<Rightarrow> message list \<Rightarrow> call_options option \<Rightarrow> (llm_error, message) result"

definition structured_invoke ::
    "'t structured_model \<Rightarrow> inner_call \<Rightarrow> message list \<Rightarrow> call_options option \<Rightarrow> (llm_error, message) result" where
  "structured_invoke so call ms options = (if so_use_tool_based so
     then (let merged = (case options of Some o' \<Rightarrow> o' | None \<Rightarrow> call_options_default)\<lparr>co_tool_choice := Some (ChoiceSpecific (so_tool_name so))\<rparr>
       in try_bind (call (Some [so_tool_definition so]) ms (Some merged)) (\<lambda>r.
         if msg_tool_calls r \<noteq> [] \<and> is_Ok (extract_from_tool_call so r) then Ok r
         else try_bind (extract_from_text so r) (\<lambda>_. Ok r)))
     else try_bind (call None ms options) (\<lambda>r. try_bind (extract_from_text so r) (\<lambda>_. Ok r)))"

section \<open>Prices\<close>

text \<open>Prices are dollars for a million tokens, input and output.\<close>

type_synonym pricing_table = "(string, rat \<times> rat) imap"

definition pricing_insert :: "string \<Rightarrow> rat \<Rightarrow> rat \<Rightarrow> pricing_table \<Rightarrow> pricing_table" where
  "pricing_insert m i o' t = im_insert m (i, o') t"

definition pricing_new :: pricing_table where
  "pricing_new = fold (\<lambda>(m, i, o'). pricing_insert m i o')
     [(''claude-3-opus-20240229'', 15, 75), (''claude-3-sonnet-20240229'', 3, 15), (''claude-3-haiku-20240307'', 1 / 4, 5 / 4),
      (''claude-3-5-sonnet-20241022'', 3, 15), (''claude-3-5-sonnet-20240620'', 3, 15), (''gpt-4o-2024-11-20'', 5 / 2, 10),
      (''gpt-4o-2024-08-06'', 5 / 2, 10), (''gpt-4o-mini-2024-07-18'', 15 / 100, 60 / 100), (''gpt-4-turbo-2024-04-09'', 10, 30),
      (''gpt-4-0125-preview'', 10, 30), (''gpt-4-1106-preview'', 10, 30), (''gpt-35-turbo-0125'', 1 / 2, 3 / 2),
      (''gpt-35-turbo-1106'', 1 / 2, 3 / 2), (''gpt-35-turbo-16k-0613'', 3 / 10, 6 / 10), (''gemini-2.0-flash-exp'', 75 / 1000, 30 / 100),
      (''gemini-1.5-pro-002'', 125 / 100, 5), (''gemini-1.5-flash-002'', 75 / 1000, 30 / 100), (''gemini-1.5-flash-8b-001'', 375 / 10000, 15 / 100)] []"

definition pricing_get :: "pricing_table \<Rightarrow> string \<Rightarrow> (rat \<times> rat) option" where
  "pricing_get t m = im_get t m"

definition pricing_contains :: "pricing_table \<Rightarrow> string \<Rightarrow> bool" where
  "pricing_contains t m = im_contains t m"

definition cost_for_usage :: "rat \<times> rat \<Rightarrow> token_usage \<Rightarrow> rat" where
  "cost_for_usage p u = of_nat (input_tokens u) * fst p / 1000000 + of_nat (output_tokens u) * snd p / 1000000"

section \<open>Theorems\<close>

text \<open>What a request \<open>b\<close> gets from a fresh cache in which only the answer \<open>m\<close> to \<open>a\<close> was stored.\<close>

definition cached_answer :: "hash_env \<Rightarrow> nat \<Rightarrow> nat \<Rightarrow> cache_key_input \<Rightarrow> cache_key_input \<Rightarrow> message \<Rightarrow> message option" where
  "cached_answer E now later a b m = snd (try_llm_cache_lookup E later b (try_llm_cache_store E now a m (Some llm_cache_new)))"

lemma lookup_after_store:
  assumes "key_atoms (he_render E) (he_bits E) a = key_atoms (he_render E) (he_bits E) b" and "cki_model a = cki_model b"
  shows "snd (try_llm_cache_lookup E later b (try_llm_cache_store E now a m (Some llm_cache_new))) = Some m"
  using assms by (simp add: try_llm_cache_lookup_def try_llm_cache_store_def llm_cache_put_def llm_cache_new_def
      llm_generate_key_def key_hash_def llm_cache_get_def im_get_Cons)

lemma concat_atoms_cong: "(\<And>m. m \<in> set ms \<Longrightarrow> message_atoms render (f m) = message_atoms render m) \<Longrightarrow>
    concat (map (message_atoms render) (map f ms)) = concat (map (message_atoms render) ms)"
  by (induction ms) auto

text \<open>
  The response cache answers requests it never saw, whatever the hash function.  The default key leaves out stop
  sequences, tool choice, response format and tags, descriptions of tools and the call a tool message answers, and it
  cannot tell a temperature from a nucleus limit: in each case a later request that differs gets the stored answer.
\<close>

theorem cache_confuses_requests:
  "cached_answer E now later (k\<lparr>cki_config := Some o'\<rparr>)
       (k\<lparr>cki_config := Some (o'\<lparr>co_stop_sequences := stop, co_tool_choice := choice, co_response_format := format, co_tags := tags\<rparr>)\<rparr>) m = Some m
    \<and> cached_answer E now later (k\<lparr>cki_config := Some (call_options_default\<lparr>co_temperature := Some x\<rparr>)\<rparr>)
       (k\<lparr>cki_config := Some (call_options_default\<lparr>co_top_p := Some x\<rparr>)\<rparr>) m = Some m
    \<and> cached_answer E now later k (k\<lparr>cki_messages := map (\<lambda>m. m\<lparr>msg_tool_call_id := f m\<rparr>) (cki_messages k)\<rparr>) m = Some m
    \<and> cached_answer E now later k (k\<lparr>cki_tools := map (\<lambda>t. t\<lparr>td_description := g t\<rparr>) (cki_tools k)\<rparr>) m = Some m"
proof -
  have tools: "concat (map (tool_atoms r) (map (\<lambda>t. t\<lparr>td_description := g t\<rparr>) ts)) = concat (map (tool_atoms r) ts)" for r ts
    by (induction ts) (auto simp: tool_atoms_def)
  have msgs: "concat (map (message_atoms r) (map (\<lambda>m. m\<lparr>msg_tool_call_id := f m\<rparr>) ms)) = concat (map (message_atoms r) ms)" for r ms
    by (rule concat_atoms_cong) (simp add: message_atoms_def)
  show ?thesis unfolding cached_answer_def
    by (intro conjI lookup_after_store) (simp_all only: key_atoms_def, simp_all add: option_atoms_def call_options_default_def tools msgs del: map_map)
qed

text \<open>
  An answer the structured-output wrapper accepts can be read as the target type.  It is what the inner model
  answered to one call on the given messages, with the extraction tool bound and forced in tool mode and all other
  options kept.
\<close>

theorem structured_answer_readable:
  assumes "structured_invoke so call ms options = Ok r"
  shows "is_Ok (extract_output so r) \<and>
    (if so_use_tool_based so
     then \<exists>o'. call (Some [so_tool_definition so]) ms (Some o') = Ok r \<and> co_tool_choice o' = Some (ChoiceSpecific (so_tool_name so)) \<and>
       o' = (case options of Some p \<Rightarrow> p | None \<Rightarrow> call_options_default)\<lparr>co_tool_choice := co_tool_choice o'\<rparr>
     else call None ms options = Ok r)"
proof (cases "so_use_tool_based so")
  case True
  define merged where "merged = (case options of Some o' \<Rightarrow> o' | None \<Rightarrow> call_options_default)\<lparr>co_tool_choice := Some (ChoiceSpecific (so_tool_name so))\<rparr>"
  from assms True have call: "call (Some [so_tool_definition so]) ms (Some merged) = Ok r"
    and read: "msg_tool_calls r \<noteq> [] \<and> is_Ok (extract_from_tool_call so r) \<or> is_Ok (extract_from_text so r)"
    by (auto simp: structured_invoke_def merged_def Let_def try_bind_def is_Ok_iff split: sum.splits if_splits)
  from read have "is_Ok (extract_output so r)" by (auto simp: extract_output_def is_Ok_iff split: sum.splits)
  with True call show ?thesis by (auto intro!: exI [of _ merged] simp: merged_def)
next
  case False
  with assms show ?thesis
    by (auto simp: structured_invoke_def extract_output_def is_Ok_iff try_bind_def split: sum.splits)
qed

definition example_structured :: "nat structured_model" where
  "example_structured = \<lparr>so_use_tool_based = True, so_tool_name = ''extract_n'',
     so_tool_definition = \<lparr>td_name = ''extract_n'', td_description = [], td_parameters = JNull\<rparr>,
     so_from_value = (\<lambda>v. case as_u64 v of Some n \<Rightarrow> Ok n | None \<Rightarrow> Err ''not a number''), so_from_str = (\<lambda>_. Err ''not a number'')\<rparr>"

definition example_reply :: message where
  "example_reply = message_ai_with_tool_calls ''m'' [] [\<lparr>tcall_id = ''c'', tcall_name = ''extract_n'', tcall_arguments = JNum 7\<rparr>]"

theorem structured_answer_readable_witness:
  "structured_invoke example_structured (\<lambda>_ _ _. Ok example_reply) [] None = Ok example_reply \<and> is_Ok (extract_output example_structured example_reply)"
proof -
  have "structured_invoke example_structured (\<lambda>_ _ _. Ok example_reply) [] None = Ok example_reply"
    by (simp add: structured_invoke_def example_structured_def example_reply_def message_ai_with_tool_calls_def plain_message_def
        extract_from_tool_call_def u64_max_def)
  with structured_answer_readable [OF this] show ?thesis by simp
qed

lemma cost_additive:
  "cost_for_usage p u + cost_for_usage p v = cost_for_usage p \<lparr>input_tokens = input_tokens u + input_tokens v,
     output_tokens = output_tokens u + output_tokens v, total_tokens = n\<rparr>"
  by (simp add: cost_for_usage_def field_simps)

end
