(* ===== verification/Conversation.thy ===== *)
theory Conversation
  imports Model_Calls Store
begin

text \<open>
  Conversation memory (\<open>juncture/src/memory/\<close>): the summarizer (\<open>summarizer.rs\<close>) and the fact extractor (\<open>fact.rs\<close>) that
  ask a model, and \<open>ConversationMemory\<close> (\<open>conversation.rs\<close>), which summarizes long conversations into a store.  The
  memory is generic in its store: what it relies on is the locale \<open>summary_store\<close>, interpreted on the store in memory.  The
  model, the reader of JSON, message identifiers, the clock and the text of errors are parameters; texts are ASCII.
\<close>

section \<open>Summaries\<close>

datatype memory_error = SummarizationFailed string | MemoryStoreError string | ExtractionFailed string | InsufficientContent

type_synonym plain_model = "message list \<Rightarrow> call_options option \<Rightarrow> (llm_error, message) result"

text \<open>The \<open>map_err\<close> both model clients use, for the kind of failure \<open>F\<close>.\<close>

definition model_failure :: "(llm_error \<Rightarrow> string) \<Rightarrow> (string \<Rightarrow> memory_error) \<Rightarrow> llm_error \<Rightarrow> memory_error" where
  "model_failure display F e = (case e of
       InvalidResponse m \<Rightarrow> F (''invalid response: '' @ m)
     | NetworkError m \<Rightarrow> F (''network error: '' @ m)
     | _ \<Rightarrow> F (''LLM error: '' @ display e))"

definition summary_prompt :: string where
  "summary_prompt = ''Summarize the following text concisely, preserving key facts and information. Output only the summary.''"

record llm_summarizer =
  ls_model :: plain_model
  ls_max_output_tokens :: nat

definition summarize :: "(nat \<Rightarrow> string) \<Rightarrow> (llm_error \<Rightarrow> string) \<Rightarrow> llm_summarizer \<Rightarrow> string \<Rightarrow> (memory_error, string) result" where
  "summarize uuid display z input = (let trimmed = trim input in
     if length trimmed < 50 then Err InsufficientContent
     else (case ls_model z [message_system (uuid 0) summary_prompt, message_human (uuid 1) trimmed]
               (Some (call_options_default\<lparr>co_max_tokens := Some (ls_max_output_tokens z)\<rparr>)) of
         Inl e \<Rightarrow> Err (model_failure display SummarizationFailed e)
       | Inr response \<Rightarrow> (if trim (content_text response) = [] then Err (SummarizationFailed ''LLM returned empty summary'')
           else Ok (content_text response))))"

section \<open>Facts\<close>

record fact =
  fa_topic :: string
  fa_claim :: string
  fa_source :: string
  fa_confidence :: rat
  fa_timestamp :: nat

text \<open>\<open>Fact::new\<close>; \<open>None\<close> is its panic.\<close>

definition fact_new :: "nat \<Rightarrow> string \<Rightarrow> string \<Rightarrow> string \<Rightarrow> rat \<Rightarrow> fact option" where
  "fact_new now topic claim src confidence = (if 0 \<le> confidence \<and> confidence \<le> 1
     then Some \<lparr>fa_topic = topic, fa_claim = claim, fa_source = src, fa_confidence = confidence, fa_timestamp = now\<rparr> else None)"

record raw_fact =
  rf_topic :: string
  rf_claim :: string
  rf_source :: string
  rf_confidence :: rat

definition fence :: string where
  "fence = ''```''"

definition clean_json_response :: "string \<Rightarrow> string" where
  "clean_json_response raw = (let
     s = trim raw;
     s1 = (case strip_prefix (fence @ ''json'') s of Some t \<Rightarrow> t | None \<Rightarrow> (case strip_prefix fence s of Some t \<Rightarrow> t | None \<Rightarrow> s));
     s2 = (case strip_suffix fence s1 of Some t \<Rightarrow> t | None \<Rightarrow> s1)
     in trim s2)"

definition extraction_prompt :: string where
  "extraction_prompt = ''Extract key facts from the following text. Return a JSON array of objects with fields: topic, claim, source, confidence (0.0-1.0). Output ONLY the JSON array, no other text.''"

text \<open>\<open>extract\<close>: \<open>from_str\<close> reads a list of raw facts; \<open>None\<close> is a panic.\<close>

definition extract_facts ::
    "(nat \<Rightarrow> string) \<Rightarrow> (llm_error \<Rightarrow> string) \<Rightarrow> (string \<Rightarrow> (string, raw_fact list) result) \<Rightarrow> nat \<Rightarrow> plain_model \<Rightarrow> string \<Rightarrow> (memory_error, fact list) result option" where
  "extract_facts uuid display from_str now model input = (let trimmed = trim input in
     if length trimmed < 50 then Some (Ok [])
     else (case model [message_system (uuid 0) extraction_prompt, message_human (uuid 1) trimmed] (Some (call_options_default\<lparr>co_max_tokens := Some 2000\<rparr>)) of
         Inl e \<Rightarrow> Some (Err (model_failure display ExtractionFailed e))
       | Inr response \<Rightarrow> (let json_str = clean_json_response (content_text response) in
           case from_str json_str of
             Inl e \<Rightarrow> Some (Err (ExtractionFailed (''failed to parse facts as JSON array: '' @ e @ [CHR 10] @ ''Response: '' @ json_str)))
           | Inr raws \<Rightarrow> map_option Inr (those (map (\<lambda>r. fact_new now (rf_topic r) (rf_claim r) (rf_source r) (rf_confidence r)) raws)))))"

section \<open>Conversations\<close>

text \<open>What the memory uses of a \<open>Store\<close>; \<open>None\<close> is a panic of the store.\<close>

record 's store_ops =
  so_put :: "string \<Rightarrow> string \<Rightarrow> json \<Rightarrow> 's \<Rightarrow> ('s \<times> (store_error, unit) result) option"
  so_get :: "string \<Rightarrow> string \<Rightarrow> 's \<Rightarrow> ('s \<times> (store_error, json option) result) option"

definition map_store_error :: "store_error \<Rightarrow> memory_error" where
  "map_store_error e = MemoryStoreError (case e of
       SerializeError m \<Rightarrow> ''serialization error: '' @ m
     | StorageError m \<Rightarrow> ''storage error: '' @ m
     | VectorSearchError m \<Rightarrow> ''vector search error: '' @ m)"

record conversation_memory =
  cm_summarizer :: "(string \<Rightarrow> (memory_error, string) result) option"
  cm_namespace :: string
  cm_max_messages :: nat

definition conversation_memory_new :: "string \<Rightarrow> conversation_memory" where
  "conversation_memory_new ns = \<lparr>cm_summarizer = None, cm_namespace = ns, cm_max_messages = 100\<rparr>"

definition with_summarizer :: "(string \<Rightarrow> (memory_error, string) result) \<Rightarrow> conversation_memory \<Rightarrow> conversation_memory" where
  "with_summarizer z m = m\<lparr>cm_summarizer := Some z\<rparr>"

definition with_max_messages :: "nat \<Rightarrow> conversation_memory \<Rightarrow> conversation_memory option" where
  "with_max_messages n m = (if n > 0 then Some (m\<lparr>cm_max_messages := n\<rparr>) else None)"

definition should_summarize :: "conversation_memory \<Rightarrow> message list \<Rightarrow> bool" where
  "should_summarize m ms \<longleftrightarrow> length ms > cm_max_messages m"

definition summary_key :: "string \<Rightarrow> string" where
  "summary_key tid = ''summary:'' @ tid"

definition store_summary :: "'s store_ops \<Rightarrow> string \<Rightarrow> conversation_memory \<Rightarrow> string \<Rightarrow> string \<Rightarrow> 's \<Rightarrow> ('s \<times> (memory_error, unit) result) option" where
  "store_summary ops stored_at m tid summary s = map_option (apsnd (map_sum map_store_error id))
     (so_put ops (cm_namespace m) (summary_key tid) (JObj [(''summary'', JStr summary), (''stored_at'', JStr stored_at)]) s)"

definition get_summary :: "'s store_ops \<Rightarrow> conversation_memory \<Rightarrow> string \<Rightarrow> 's \<Rightarrow> ('s \<times> (memory_error, string option) result) option" where
  "get_summary ops m tid s = map_option (apsnd (\<lambda>r. try_bind (map_sum map_store_error id r) (\<lambda>item. case item of
       None \<Rightarrow> Ok None
     | Some v \<Rightarrow> (case Option.bind (json_member ''summary'' v) as_str of
           Some t \<Rightarrow> Ok (Some t)
         | None \<Rightarrow> Err (MemoryStoreError ''invalid summary data: missing 'summary' field'')))))
     (so_get ops (cm_namespace m) (summary_key tid) s)"

fun role_debug :: "role \<Rightarrow> string" where
  "role_debug System = ''System''"
| "role_debug Human = ''Human''"
| "role_debug Ai = ''Ai''"
| "role_debug Tool = ''Tool''"

definition message_line :: "message \<Rightarrow> string" where
  "message_line m = ''['' @ role_debug (msg_role m) @ '']: '' @ content_text m"

definition older_text :: "conversation_memory \<Rightarrow> message list \<Rightarrow> string" where
  "older_text m ms = join_with [CHR 10, CHR 10] (map message_line (take (length ms - cm_max_messages m div 2) ms))"

definition summarize_messages ::
    "'s store_ops \<Rightarrow> string \<Rightarrow> conversation_memory \<Rightarrow> string \<Rightarrow> message list \<Rightarrow> 's \<Rightarrow> ('s \<times> (memory_error, string option) result) option" where
  "summarize_messages ops stored_at m tid ms s = (if \<not> should_summarize m ms then Some (s, Ok None)
     else (case cm_summarizer m of
         None \<Rightarrow> Some (s, Ok None)
       | Some z \<Rightarrow> (case z (older_text m ms) of
           Inl e \<Rightarrow> Some (s, Err e)
         | Inr summary \<Rightarrow> map_option (apsnd (\<lambda>r. try_bind r (\<lambda>_. Ok (Some summary)))) (store_summary ops stored_at m tid summary s))))"

section \<open>Lemmas\<close>

lemma dropWhile_stop: "xs = [] \<or> \<not> P (hd xs) \<Longrightarrow> dropWhile P xs = xs"
  by (cases xs) auto

lemma trim_pad:
  assumes "list_all is_space u" "list_all is_space w" "v \<noteq> []" "\<not> is_space (hd v)" "\<not> is_space (last v)"
  shows "trim (u @ v @ w) = v"
proof -
  have "trim_start (u @ v @ w) = v @ w"
    using assms by (simp add: trim_start_def list_all_iff dropWhile_append2 dropWhile_stop)
  moreover have "dropWhile is_space (rev w @ rev v) = rev v"
    using assms by (subst dropWhile_append2) (auto simp: list_all_iff dropWhile_stop hd_rev)
  then have "trim_end (v @ w) = v" by (simp add: trim_end_def)
  ultimately show ?thesis by (simp add: trim_def)
qed

text \<open>A client of a store that keeps what is put under a key until it is put again.\<close>

locale summary_store =
  fixes ops :: "'s store_ops" and ok :: "'s \<Rightarrow> bool"
  assumes put_ok: "ok s \<Longrightarrow> \<exists>s'. so_put ops ns key v s = Some (s', Ok ()) \<and> ok s'"
    and get_put: "ok s \<Longrightarrow> so_put ops ns key v s = Some (s', Ok ()) \<Longrightarrow> \<exists>s''. so_get ops ns key s' = Some (s'', Ok (Some v))"
    and get_other: "ok s \<Longrightarrow> so_put ops ns key v s = Some (s', Ok ()) \<Longrightarrow> (ns', key') \<noteq> (ns, key) \<Longrightarrow>
      map_option snd (so_get ops ns' key' s') = map_option snd (so_get ops ns' key' s)"
begin

lemma summary_kept:
  assumes "ok s" and "should_summarize m ms" and "cm_summarizer m = Some z" and "z (older_text m ms) = Ok summary"
  shows "\<exists>s' s''. summarize_messages ops stamp m tid ms s = Some (s', Ok (Some summary)) \<and> ok s' \<and>
     get_summary ops m tid s' = Some (s'', Ok (Some summary)) \<and>
     (\<forall>other. other \<noteq> tid \<longrightarrow> map_option snd (get_summary ops m other s') = map_option snd (get_summary ops m other s))"
proof -
  let ?v = "JObj [(''summary'', JStr summary), (''stored_at'', JStr stamp)]"
  from put_ok [OF assms(1), of "cm_namespace m" "summary_key tid" ?v] obtain s' where
    put: "so_put ops (cm_namespace m) (summary_key tid) ?v s = Some (s', Ok ())" and ok': "ok s'" by blast
  from get_put [OF assms(1) put] obtain s'' where got: "so_get ops (cm_namespace m) (summary_key tid) s' = Some (s'', Ok (Some ?v))" by blast
  have sum: "summarize_messages ops stamp m tid ms s = Some (s', Ok (Some summary))"
    using assms(2-4) put by (simp add: summarize_messages_def store_summary_def)
  have "get_summary ops m tid s' = Some (s'', Ok (Some summary))"
    using got by (simp add: get_summary_def json_member_def)
  moreover have "map_option snd (get_summary ops m other s') = map_option snd (get_summary ops m other s)" if "other \<noteq> tid" for other
  proof -
    have "map_option snd (so_get ops (cm_namespace m) (summary_key other) s') = map_option snd (so_get ops (cm_namespace m) (summary_key other) s)"
      using get_other [OF assms(1) put] that by (simp add: summary_key_def)
    then show ?thesis
      by (cases "so_get ops (cm_namespace m) (summary_key other) s'"; cases "so_get ops (cm_namespace m) (summary_key other) s") (auto simp: get_summary_def)
  qed
  ultimately show ?thesis using sum ok' by blast
qed

end

text \<open>The store in memory, without lifetimes and without a vector index.\<close>

definition memory_store_ops :: "(json \<Rightarrow> string) \<Rightarrow> (nat \<Rightarrow> nat \<Rightarrow> nat option) \<Rightarrow> nat \<Rightarrow> memory_store store_ops" where
  "memory_store_ops render add now = \<lparr>so_put = (\<lambda>ns key v. store_put render add now ns key v None),
     so_get = (\<lambda>ns key s. map_option (\<lambda>(s', it). (s', Ok (map_option it_value it))) (store_get add now now ns key s))\<rparr>"

definition plain_store :: "memory_store \<Rightarrow> bool" where
  "plain_store s \<longleftrightarrow> default_ttl (mst_ttl_config s) = None \<and> mst_index_config s = None"

lemma plain_put: "plain_store s \<Longrightarrow> store_put render add now ns key v None s =
    Some (put_item ns key (new_item now ns key v None None (lookup_item s ns key)) s, Ok ())"
  by (simp add: plain_store_def store_put_def put_embedding_def expiry_def)

lemma plain_get: "plain_store s \<Longrightarrow> map_option snd (store_get add now now ns key s) =
    Some (Option.bind (lookup_item s ns key) (\<lambda>it. if is_expired now it then None else Some it))"
  by (cases "refresh_on_read (mst_ttl_config s)") (simp_all add: plain_store_def store_get_def get_check_def get_finish_def split: option.splits)

interpretation memory_summaries: summary_store "memory_store_ops render add now" plain_store for render add now
proof
  fix s ns key v
  assume s: "plain_store s"
  then show "\<exists>s'. so_put (memory_store_ops render add now) ns key v s = Some (s', Ok ()) \<and> plain_store s'"
    by (simp add: memory_store_ops_def plain_put plain_store_def)
  fix s'
  assume put: "so_put (memory_store_ops render add now) ns key v s = Some (s', Ok ())"
  then have s': "s' = put_item ns key (new_item now ns key v None None (lookup_item s ns key)) s"
    using plain_put [OF s] by (simp add: memory_store_ops_def)
  then have p': "plain_store s'" using s by (simp add: plain_store_def)
  show "\<exists>s''. so_get (memory_store_ops render add now) ns key s' = Some (s'', Ok (Some v))"
    using plain_get [OF p', of add now ns key] by (auto simp: memory_store_ops_def s' new_item_def is_expired_def)
  fix ns' key'
  assume "(ns', key') \<noteq> (ns, key)"
  then have "lookup_item s' ns' key' = lookup_item s ns' key'" by (auto simp: s')
  then have "map_option snd (store_get add now now ns' key' s') = map_option snd (store_get add now now ns' key' s)"
    unfolding plain_get [OF p'] plain_get [OF s] by simp
  then show "map_option snd (so_get (memory_store_ops render add now) ns' key' s') = map_option snd (so_get (memory_store_ops render add now) ns' key' s)"
    by (cases "store_get add now now ns' key' s'"; cases "store_get add now now ns' key' s") (auto simp: memory_store_ops_def)
qed

section \<open>Theorems\<close>

text \<open>
  Long conversations are summarized and the summary is found again.  When the messages exceed the limit and the
  summarizer succeeds, it was given exactly the lines of the oldest messages, leaving the newest \<open>max_messages / 2\<close> out; the summary
  is stored and read back for its thread, and the summaries of all other threads are as before.
\<close>

theorem summaries_kept:
  assumes "plain_store s" and "length ms > cm_max_messages m" and "cm_summarizer m = Some z" and "z (older_text m ms) = Ok summary"
  shows "\<exists>s' s''. summarize_messages (memory_store_ops render add now) stamp m tid ms s = Some (s', Ok (Some summary)) \<and> plain_store s' \<and>
     get_summary (memory_store_ops render add now) m tid s' = Some (s'', Ok (Some summary)) \<and>
     (\<forall>other. other \<noteq> tid \<longrightarrow> map_option snd (get_summary (memory_store_ops render add now) m other s') =
        map_option snd (get_summary (memory_store_ops render add now) m other s)) \<and>
     (\<exists>older newer. ms = older @ newer \<and> length newer = cm_max_messages m div 2 \<and> older_text m ms = join_with [CHR 10, CHR 10] (map message_line older))"
proof -
  let ?k = "length ms - cm_max_messages m div 2"
  have "ms = take ?k ms @ drop ?k ms" "length (drop ?k ms) = cm_max_messages m div 2"
    "older_text m ms = join_with [CHR 10, CHR 10] (map message_line (take ?k ms))"
    using assms(2) by (simp_all add: older_text_def)
  moreover have "should_summarize m ms" using assms(2) by (simp add: should_summarize_def)
  ultimately show ?thesis using memory_summaries.summary_kept [OF assms(1) _ assms(3,4)] by blast
qed

theorem summaries_kept_witness:
  "\<exists>s' s''. summarize_messages (memory_store_ops (\<lambda>_. []) (\<lambda>_ _. None) 0) ''now'' (with_summarizer (\<lambda>t. Ok (take 3 t)) ((conversation_memory_new ''ns'')\<lparr>cm_max_messages := 1\<rparr>))
       ''t'' [message_human ''1'' ''hello'', message_ai ''2'' ''hi''] memory_store_new = Some (s', Ok (Some ''[Hu'')) \<and>
     get_summary (memory_store_ops (\<lambda>_. []) (\<lambda>_ _. None) 0) (with_summarizer (\<lambda>t. Ok (take 3 t)) ((conversation_memory_new ''ns'')\<lparr>cm_max_messages := 1\<rparr>)) ''t'' s'
       = Some (s'', Ok (Some ''[Hu''))"
proof -
  let ?m = "with_summarizer (\<lambda>t. Ok (take 3 t)) ((conversation_memory_new ''ns'')\<lparr>cm_max_messages := 1\<rparr>)" and ?ms = "[message_human ''1'' ''hello'', message_ai ''2'' ''hi'']"
  have p: "plain_store memory_store_new" by (simp add: plain_store_def memory_store_new_def ttl_config_default_def)
  have len: "length ?ms > cm_max_messages ?m" and z: "cm_summarizer ?m = Some (\<lambda>t. Ok (take 3 t))" by (simp_all add: with_summarizer_def)
  have t: "(\<lambda>t. Ok (take 3 t)) (older_text ?m ?ms) = Ok ''[Hu''"
    by (simp add: older_text_def message_line_def with_summarizer_def message_human_def plain_message_def)
  from summaries_kept [OF p len z t] show ?thesis by blast
qed

text \<open>
  A model that reports a confidence outside the unit interval crashes the extraction.  When the answer reads as a list
  of facts, \<open>extract\<close> returns them all in order if every confidence lies between zero and one, and panics instead of
  returning an error as soon as one does not.
\<close>

theorem extraction_exact:
  assumes "length (trim input) \<ge> 50"
    and "model [message_system (uuid 0) extraction_prompt, message_human (uuid 1) (trim input)] (Some (call_options_default\<lparr>co_max_tokens := Some 2000\<rparr>)) = Ok response"
    and "from_str (clean_json_response (content_text response)) = Ok raws"
  shows "extract_facts uuid display from_str now model input = (if list_all (\<lambda>r. 0 \<le> rf_confidence r \<and> rf_confidence r \<le> 1) raws
     then Some (Ok (map (\<lambda>r. \<lparr>fa_topic = rf_topic r, fa_claim = rf_claim r, fa_source = rf_source r, fa_confidence = rf_confidence r, fa_timestamp = now\<rparr>) raws))
     else None)"
proof -
  have "those (map (\<lambda>r. fact_new now (rf_topic r) (rf_claim r) (rf_source r) (rf_confidence r)) raws) =
      (if list_all (\<lambda>r. 0 \<le> rf_confidence r \<and> rf_confidence r \<le> 1) raws
       then Some (map (\<lambda>r. \<lparr>fa_topic = rf_topic r, fa_claim = rf_claim r, fa_source = rf_source r, fa_confidence = rf_confidence r, fa_timestamp = now\<rparr>) raws) else None)"
    by (induction raws) (auto simp: fact_new_def)
  with assms show ?thesis by (simp add: extract_facts_def Let_def)
qed

theorem extraction_exact_witness:
  "extract_facts (\<lambda>_. []) (\<lambda>_. []) (\<lambda>_. Ok [\<lparr>rf_topic = ''t'', rf_claim = ''c'', rf_source = [], rf_confidence = 2\<rparr>]) 0 (\<lambda>_ _. Ok (message_ai ''a'' ''[]'')) (replicate 60 CHR ''x'') = None"
proof -
  have "trim (replicate 60 CHR ''x'') = replicate 60 CHR ''x''"
    using trim_pad [of "[]" "[]" "replicate 60 CHR ''x''"] by (simp add: is_space_def numeral_eq_Suc)
  then have "length (trim (replicate 60 CHR ''x'')) \<ge> 50" by simp
  from extraction_exact [OF this, where model = "\<lambda>_ _. Ok (message_ai ''a'' ''[]'')" and response = "message_ai ''a'' ''[]''"
      and from_str = "\<lambda>_. Ok [\<lparr>rf_topic = ''t'', rf_claim = ''c'', rf_source = [], rf_confidence = 2\<rparr>]"
      and raws = "[\<lparr>rf_topic = ''t'', rf_claim = ''c'', rf_source = [], rf_confidence = 2\<rparr>]"]
  show ?thesis by simp
qed

text \<open>
  Cleaning an answer removes exactly its fence: JSON between fences, with or without the language tag and with any white
  space around it, is given back as it is.
\<close>

theorem fenced_json_cleaned:
  assumes "list_all is_space u" "list_all is_space v" "list_all is_space w" "list_all is_space x" and "tag = ''json'' \<or> tag = [] \<and> v \<noteq> []"
    and "j \<noteq> []" "\<not> is_space (hd j)" "\<not> is_space (last j)"
  shows "clean_json_response (u @ fence @ tag @ v @ j @ w @ fence @ x) = j"
proof -
  let ?in = "fence @ tag @ v @ j @ w @ fence"
  have "trim (u @ ?in @ x) = ?in"
    by (rule trim_pad [OF assms(1,4)]) (simp_all add: fence_def is_space_def)
  then have t: "trim (u @ fence @ tag @ v @ j @ w @ fence @ x) = ?in" by simp
  have first: "v \<noteq> [] \<Longrightarrow> \<not> starts_with ''json'' (v @ j @ w @ fence)"
    using assms(2) by (cases v) (auto simp: starts_with_iff is_space_def)
  have s1: "(case strip_prefix (fence @ ''json'') ?in of Some t \<Rightarrow> t | None \<Rightarrow> (case strip_prefix fence ?in of Some t \<Rightarrow> t | None \<Rightarrow> ?in)) = v @ j @ w @ fence"
  proof (cases "tag = ''json''")
    case True
    then have "strip_prefix (fence @ ''json'') ?in = Some (v @ j @ w @ fence)" unfolding strip_prefix_iff by simp
    then show ?thesis by simp
  next
    case False
    with assms(5) have tag: "tag = []" "v \<noteq> []" by auto
    have "strip_prefix (fence @ ''json'') ?in = None"
      using first [OF tag(2)] by (cases "strip_prefix (fence @ ''json'') ?in") (auto simp: strip_prefix_iff tag(1) starts_with_iff)
    moreover have "strip_prefix fence ?in = Some (v @ j @ w @ fence)" unfolding strip_prefix_iff by (simp add: tag)
    ultimately show ?thesis by simp
  qed
  have s2: "strip_suffix fence (v @ j @ w @ fence) = Some (v @ j @ w)"
    unfolding strip_suffix_def ends_with_iff by auto
  show ?thesis unfolding clean_json_response_def t Let_def s1 s2 using trim_pad [OF assms(2,3,6-8)] by simp
qed

theorem fenced_json_cleaned_witness: "clean_json_response (fence @ ''json'' @ [CHR 10] @ ''[]'' @ [CHR 10] @ fence) = ''[]''"
  using fenced_json_cleaned [of "[]" "[CHR 10]" "[CHR 10]" "[]" "''json''" "''[]''"] by (simp add: is_space_def)

end
