(* ===== verification/Model_Middleware.thy ===== *)
theory Model_Middleware
  imports Model_Calls Breakers
begin

text \<open>
  The middleware of model calls (\<open>juncture/src/llm/middleware.rs\<close>): the pipeline of \<open>MiddlewareModel\<close>, the logging and
  metrics middleware, the circuit breaker of \<open>circuit_breaker.rs\<close> as a middleware, and the mock model (\<open>mock.rs\<close>).
  Hooks read and change a world \<open>'w\<close> that holds the atomics and thread-locals they share.  Log events are output only.
  Streaming passes by the middleware.
\<close>

section \<open>The pipeline\<close>

text \<open>\<open>pre_invoke\<close> gives the changed messages and options or aborts; \<open>post_invoke\<close> changes the result or replaces it by an error.\<close>

record 'w llm_middleware =
  lm_pre :: "message list \<Rightarrow> call_options \<Rightarrow> 'w \<Rightarrow> 'w \<times> (llm_error, message list \<times> call_options) result"
  lm_post :: "(llm_error, message) result \<Rightarrow> 'w \<Rightarrow> 'w \<times> (llm_error, (llm_error, message) result) result"

type_synonym 'w world_model = "message list \<Rightarrow> call_options option \<Rightarrow> 'w \<Rightarrow> 'w \<times> (llm_error, message) result"

definition default_middleware :: "'w llm_middleware" where
  "default_middleware = \<lparr>lm_pre = (\<lambda>ms opts w. (w, Ok (ms, opts))), lm_post = (\<lambda>r w. (w, Ok r))\<rparr>"

fun run_pre :: "'w llm_middleware list \<Rightarrow> message list \<Rightarrow> call_options \<Rightarrow> 'w \<Rightarrow> 'w \<times> (llm_error, message list \<times> call_options) result" where
  "run_pre [] ms opts w = (w, Ok (ms, opts))"
| "run_pre (m # rest) ms opts w = (case lm_pre m ms opts w of
       (w1, Inl e) \<Rightarrow> (w1, Err e)
     | (w1, Inr (ms1, opts1)) \<Rightarrow> run_pre rest ms1 opts1 w1)"

fun run_post :: "'w llm_middleware list \<Rightarrow> (llm_error, message) result \<Rightarrow> 'w \<Rightarrow> 'w \<times> (llm_error, (llm_error, message) result) result" where
  "run_post [] r w = (w, Ok r)"
| "run_post (m # rest) r w = (case lm_post m r w of
       (w1, Inl e) \<Rightarrow> (w1, Err e)
     | (w1, Inr r1) \<Rightarrow> run_post rest r1 w1)"

record 'w middleware_model =
  mm_inner :: "'w world_model"
  mm_middleware :: "'w llm_middleware list"

definition middleware_model_new :: "'w world_model \<Rightarrow> 'w middleware_model" where
  "middleware_model_new inner = \<lparr>mm_inner = inner, mm_middleware = []\<rparr>"

definition with_middleware :: "'w llm_middleware \<Rightarrow> 'w middleware_model \<Rightarrow> 'w middleware_model" where
  "with_middleware m model = model\<lparr>mm_middleware := mm_middleware model @ [m]\<rparr>"

definition with_middlewares :: "'w llm_middleware list \<Rightarrow> 'w middleware_model \<Rightarrow> 'w middleware_model" where
  "with_middlewares ms model = model\<lparr>mm_middleware := mm_middleware model @ ms\<rparr>"

definition middleware_invoke :: "'w middleware_model \<Rightarrow> 'w world_model" where
  "middleware_invoke model ms options w = (case run_pre (mm_middleware model) ms (case options of Some o' \<Rightarrow> o' | None \<Rightarrow> call_options_default) w of
       (w1, Inl e) \<Rightarrow> (w1, Err e)
     | (w1, Inr (ms1, opts1)) \<Rightarrow> (case mm_inner model ms1 (Some opts1) w1 of (w2, r) \<Rightarrow>
         (case run_post (rev (mm_middleware model)) r w2 of
            (w3, Inl e) \<Rightarrow> (w3, Err e)
          | (w3, Inr r') \<Rightarrow> (w3, r'))))"

section \<open>Logging and metrics\<close>

definition logging_middleware :: "'w llm_middleware" where
  "logging_middleware = default_middleware"

record metrics_middleware =
  mx_invoke_count :: nat
  mx_error_count :: nat
  mx_total_duration_ms :: nat

record llm_metrics =
  lx_invoke_count :: nat
  lx_error_count :: nat
  lx_avg_duration_ms :: nat
  lx_total_duration_ms :: nat

definition metrics_new :: metrics_middleware where
  "metrics_new = \<lparr>mx_invoke_count = 0, mx_error_count = 0, mx_total_duration_ms = 0\<rparr>"

definition metrics_reset :: "metrics_middleware \<Rightarrow> metrics_middleware" where
  "metrics_reset m = m\<lparr>mx_invoke_count := 0, mx_error_count := 0, mx_total_duration_ms := 0\<rparr>"

definition metrics_of :: "metrics_middleware \<Rightarrow> llm_metrics" where
  "metrics_of m = \<lparr>lx_invoke_count = mx_invoke_count m, lx_error_count = mx_error_count m,
     lx_avg_duration_ms = (if mx_invoke_count m = 0 then 0 else mx_total_duration_ms m div mx_invoke_count m),
     lx_total_duration_ms = mx_total_duration_ms m\<rparr>"

text \<open>The world of a thread: its clock in milliseconds, the shared start cell, the counters and the breaker.\<close>

record call_world =
  cw_now :: nat
  cw_start :: "nat option"
  cw_metrics :: "nat \<Rightarrow> metrics_middleware"
  cw_breaker :: llm_breaker

definition metrics_post :: "nat \<Rightarrow> (llm_error, message) result \<Rightarrow> metrics_middleware \<Rightarrow> metrics_middleware" where
  "metrics_post duration r m = (case r of
       Inr _ \<Rightarrow> m\<lparr>mx_invoke_count := wrap_add64 (mx_invoke_count m) 1, mx_total_duration_ms := wrap_add64 (mx_total_duration_ms m) duration\<rparr>
     | Inl _ \<Rightarrow> m\<lparr>mx_error_count := wrap_add64 (mx_error_count m) 1\<rparr>)"

text \<open>\<open>k\<close> is the handle of the counters; clones share it.\<close>

definition metrics_mw :: "nat \<Rightarrow> call_world llm_middleware" where
  "metrics_mw k = \<lparr>lm_pre = (\<lambda>ms opts w. (w\<lparr>cw_start := Some (cw_now w)\<rparr>, Ok (ms, opts))),
     lm_post = (\<lambda>r w. (let duration = (case cw_start w of Some t \<Rightarrow> min (cw_now w - t) u64_max | None \<Rightarrow> 0) in
       (w\<lparr>cw_start := None, cw_metrics := (cw_metrics w)(k := metrics_post duration r (cw_metrics w k))\<rparr>, Ok r)))\<rparr>"

section \<open>The breaker as a middleware\<close>

definition breaker_mw :: "call_world llm_middleware" where
  "breaker_mw = \<lparr>lm_pre = (\<lambda>ms opts w. (case pre_invoke (cw_now w) (cw_breaker w) of
         (b, True) \<Rightarrow> (w\<lparr>cw_breaker := b\<rparr>, Ok (ms, opts))
       | (b, False) \<Rightarrow> (w\<lparr>cw_breaker := b\<rparr>, Err (OtherError ''circuit breaker is open'')))),
     lm_post = (\<lambda>r w. (w\<lparr>cw_breaker := post_invoke (cw_now w) (case r of Inr _ \<Rightarrow> True | Inl _ \<Rightarrow> False) (cw_breaker w)\<rparr>, Ok r))\<rparr>"

section \<open>The mock model\<close>

record mock_chat_model =
  mk_model_name :: string
  mk_response :: "string option"
  mk_tool_calls :: "tool_call list"
  mk_tools :: "tool_definition list"
  mk_should_error :: bool

definition mock_new :: "string \<Rightarrow> mock_chat_model" where
  "mock_new n = \<lparr>mk_model_name = n, mk_response = None, mk_tool_calls = [], mk_tools = [], mk_should_error = False\<rparr>"

definition mock_with_response :: "string \<Rightarrow> mock_chat_model \<Rightarrow> mock_chat_model" where
  "mock_with_response t m = m\<lparr>mk_response := Some t\<rparr>"

definition mock_with_tool_calls :: "tool_call list \<Rightarrow> mock_chat_model \<Rightarrow> mock_chat_model" where
  "mock_with_tool_calls cs m = m\<lparr>mk_tool_calls := cs\<rparr>"

definition mock_with_error :: "mock_chat_model \<Rightarrow> mock_chat_model" where
  "mock_with_error m = m\<lparr>mk_should_error := True\<rparr>"

definition mock_bind_tools :: "tool_definition list \<Rightarrow> mock_chat_model \<Rightarrow> mock_chat_model" where
  "mock_bind_tools ts m = m\<lparr>mk_tools := ts\<rparr>"

definition mock_text :: "mock_chat_model \<Rightarrow> string" where
  "mock_text m = (case mk_response m of Some t \<Rightarrow> t | None \<Rightarrow> [])"

definition mock_invoke :: "string \<Rightarrow> mock_chat_model \<Rightarrow> (llm_error, message) result" where
  "mock_invoke uuid m = (if mk_should_error m then Err (OtherError ''Mock error'')
     else Ok (message_ai_with_tool_calls uuid (mock_text m) (mk_tool_calls m)))"

definition mock_chunk :: "(json \<Rightarrow> string) \<Rightarrow> mock_chat_model \<Rightarrow> message_chunk" where
  "mock_chunk render m = \<lparr>mc_content = mock_text m,
     mc_tool_call_chunks = map (\<lambda>(i, c). \<lparr>tcc_id = Some (tcall_id c), tcc_name = Some (tcall_name c), tcc_args_delta = render (tcall_arguments c), tcc_index = i\<rparr>)
       (enumerate 0 (mk_tool_calls m)),
     mc_usage_delta = None\<rparr>"

definition mock_stream :: "(json \<Rightarrow> string) \<Rightarrow> mock_chat_model \<Rightarrow> (llm_error, (llm_error, message_chunk) result list) result" where
  "mock_stream render m = Ok [if mk_should_error m then Err (OtherError ''Mock error'') else Ok (mock_chunk render m)]"

section \<open>The pipeline nests its middleware\<close>

text \<open>The reference: each middleware wraps those added after it; an abort further in skips its own \<open>post_invoke\<close>.\<close>

fun onion :: "'w world_model \<Rightarrow> 'w llm_middleware list \<Rightarrow> message list \<Rightarrow> call_options \<Rightarrow> 'w \<Rightarrow> 'w \<times> (llm_error, (llm_error, message) result) result" where
  "onion inner [] ms opts w = (case inner ms (Some opts) w of (w1, r) \<Rightarrow> (w1, Ok r))"
| "onion inner (m # rest) ms opts w = (case lm_pre m ms opts w of
       (w1, Inl e) \<Rightarrow> (w1, Err e)
     | (w1, Inr (ms1, opts1)) \<Rightarrow> (case onion inner rest ms1 opts1 w1 of
         (w2, Inl e) \<Rightarrow> (w2, Err e)
       | (w2, Inr r) \<Rightarrow> lm_post m r w2))"

lemma run_post_snoc: "run_post (xs @ [m]) r w = (case run_post xs r w of (w1, Inl e) \<Rightarrow> (w1, Err e) | (w1, Inr r1) \<Rightarrow> lm_post m r1 w1)"
  by (induction xs arbitrary: r w) (auto split: prod.splits sum.splits)

lemma onion_loops:
  "onion inner mws ms opts w = (case run_pre mws ms opts w of
       (w1, Inl e) \<Rightarrow> (w1, Err e)
     | (w1, Inr (ms1, opts1)) \<Rightarrow> (case inner ms1 (Some opts1) w1 of (w2, r) \<Rightarrow> run_post (rev mws) r w2))"
  by (induction mws arbitrary: ms opts w) (auto simp: run_post_snoc split: prod.splits sum.splits)

text \<open>
  the two loops of \<open>MiddlewareModel::invoke\<close>, forward over \<open>pre_invoke\<close> and backward over \<open>post_invoke\<close>, nest the middleware:
  the first added is the outermost layer around the call, sees the request first and the result last, and is passed over
  on the way out when a layer inside it aborts.
\<close>

theorem call_middleware_nests:
  "middleware_invoke (with_middlewares mws (middleware_model_new inner)) ms options w =
     (case onion inner mws ms (case options of Some o' \<Rightarrow> o' | None \<Rightarrow> call_options_default) w of
        (w', Inl e) \<Rightarrow> (w', Err e)
      | (w', Inr r) \<Rightarrow> (w', r))"
  unfolding onion_loops middleware_invoke_def with_middlewares_def middleware_model_new_def
  by (auto split: prod.splits sum.splits)

section \<open>A breaker in front of a middleware that rejects\<close>

definition aborts :: "llm_error \<Rightarrow> 'w llm_middleware \<Rightarrow> bool" where
  "aborts e m \<longleftrightarrow> (\<forall>ms opts w. lm_pre m ms opts w = (w, Err e))"

definition breaker_then :: "call_world llm_middleware \<Rightarrow> call_world world_model \<Rightarrow> call_world middleware_model" where
  "breaker_then m inner = with_middlewares [breaker_mw, m] (middleware_model_new inner)"

text \<open>The calls made at the given times, each with the same request.\<close>

definition calls_at :: "call_world middleware_model \<Rightarrow> message list \<Rightarrow> nat list \<Rightarrow> call_world \<Rightarrow> call_world" where
  "calls_at model ms ts w = fold (\<lambda>t w. fst (middleware_invoke model ms None (w\<lparr>cw_now := t\<rparr>))) ts w"

lemma breaker_then_run:
  "middleware_invoke (breaker_then m inner) ms options w =
     (case onion inner [breaker_mw, m] ms (case options of Some o' \<Rightarrow> o' | None \<Rightarrow> call_options_default) w of
        (w', Inl e) \<Rightarrow> (w', Err e)
      | (w', Inr r) \<Rightarrow> (w', r))"
  unfolding onion_loops breaker_then_def middleware_invoke_def with_middlewares_def middleware_model_new_def
  by (auto split: prod.splits sum.splits)

lemma aborted_trial:
  assumes "aborts e m" "lb_state (cw_breaker w) = HalfOpen" "half_open_calls (cw_breaker w) < half_open_max_calls (lb_config (cw_breaker w))"
    "half_open_max_calls (lb_config (cw_breaker w)) < 2 ^ 32"
  shows "middleware_invoke (breaker_then m inner) ms options w =
    (w\<lparr>cw_breaker := (cw_breaker w)\<lparr>half_open_calls := Suc (half_open_calls (cw_breaker w))\<rparr>\<rparr>, Err e)"
  using assms by (simp add: breaker_then_run breaker_mw_def aborts_def pre_invoke_def llm_state_def wrap_add32_def)

lemma spent_trials:
  assumes "lb_state (cw_breaker w) = HalfOpen" "half_open_calls (cw_breaker w) = half_open_max_calls (lb_config (cw_breaker w))"
  shows "middleware_invoke (breaker_then m inner) ms options w = (w, Err (OtherError ''circuit breaker is open''))"
  using assms by (simp add: breaker_then_run breaker_mw_def pre_invoke_def llm_state_def)

lemma aborted_trials:
  assumes "aborts e m" "lb_state (cw_breaker w) = HalfOpen" "half_open_max_calls (lb_config (cw_breaker w)) < 2 ^ 32"
    "half_open_calls (cw_breaker w) \<le> half_open_max_calls (lb_config (cw_breaker w))"
    "half_open_max_calls (lb_config (cw_breaker w)) \<le> half_open_calls (cw_breaker w) + length ts"
  shows "cw_breaker (calls_at (breaker_then m inner) ms ts w) =
    (cw_breaker w)\<lparr>half_open_calls := half_open_max_calls (lb_config (cw_breaker w))\<rparr>"
  using assms
proof (induction ts arbitrary: w)
  case (Cons t ts)
  show ?case
  proof (cases "half_open_calls (cw_breaker w) < half_open_max_calls (lb_config (cw_breaker w))")
    case True
    then show ?thesis using Cons by (simp add: calls_at_def aborted_trial [of e])
  next
    case False
    then show ?thesis using Cons by (simp add: calls_at_def spent_trials)
  qed
qed (simp add: calls_at_def)

text \<open>
  trial calls that a later middleware rejects are never given back.  When the breaker is half-open and a middleware
  added after it aborts as many calls as trials are left (one by default), the breaker stays half-open with its trials
  spent: from then on it refuses every call at every time, even when the rejecting middleware lets them pass and the
  model would answer.
\<close>

theorem breaker_trial_leak:
  fixes w :: call_world
  assumes "aborts e m" "lb_state (cw_breaker w) = HalfOpen" "half_open_max_calls (lb_config (cw_breaker w)) < 2 ^ 32"
    "half_open_calls (cw_breaker w) \<le> half_open_max_calls (lb_config (cw_breaker w))"
    "half_open_max_calls (lb_config (cw_breaker w)) \<le> half_open_calls (cw_breaker w) + length ts"
  shows "snd (middleware_invoke (breaker_then m' inner') ms' options
             (calls_at (breaker_then m' inner') ms' later (calls_at (breaker_then m inner) ms ts w)\<lparr>cw_now := now\<rparr>)) =
           Err (OtherError ''circuit breaker is open'')"
proof -
  let ?stuck = "(cw_breaker w)\<lparr>half_open_calls := half_open_max_calls (lb_config (cw_breaker w))\<rparr>"
  have spent: "cw_breaker (calls_at (breaker_then m inner) ms ts w) = ?stuck" by (rule aborted_trials [OF assms])
  have "cw_breaker (calls_at (breaker_then m' inner') ms' later v) = ?stuck" if "cw_breaker v = ?stuck" for v
    using that by (induction later arbitrary: v) (simp_all add: calls_at_def spent_trials assms(2))
  from this [OF spent] show ?thesis
    using assms(2) by (simp add: spent_trials)
qed

definition half_open_world :: call_world where
  "half_open_world = \<lparr>cw_now = 0, cw_start = None, cw_metrics = (\<lambda>_. metrics_new),
     cw_breaker = (llm_breaker_new llm_breaker_config_default)\<lparr>lb_state := HalfOpen\<rparr>\<rparr>"

definition rejecting_mw :: "call_world llm_middleware" where
  "rejecting_mw = default_middleware\<lparr>lm_pre := \<lambda>ms opts w. (w, Err (OtherError ''no''))\<rparr>"

theorem breaker_trial_leak_witness:
  "snd (middleware_invoke (breaker_then default_middleware (\<lambda>ms o' w. (w, Ok (message_ai ''u'' ''fine'')))) [] None
     (calls_at (breaker_then default_middleware (\<lambda>ms o' w. (w, Ok (message_ai ''u'' ''fine'')))) [] [100000, 200000]
       (calls_at (breaker_then rejecting_mw (\<lambda>ms o' w. (w, Ok (message_ai ''u'' ''fine'')))) [] [7] half_open_world)\<lparr>cw_now := 300000\<rparr>)) =
     Err (OtherError ''circuit breaker is open'')"
  by (rule breaker_trial_leak [of "OtherError ''no''"])
    (simp_all add: aborts_def rejecting_mw_def half_open_world_def llm_breaker_new_def llm_breaker_config_default_def)

section \<open>Metrics\<close>

text \<open>
  the start time of a call is one cell per thread.  With two metrics middlewares around a model that takes \<open>d\<close>
  milliseconds and answers, both count the call, but only the inner one records its duration: the outer one finds the cell
  emptied and adds 0.  A failed call adds to the error counters and to no duration.
\<close>

theorem nested_metrics_exact:
  assumes "j \<noteq> k" and "d \<le> u64_max"
    and "\<And>o' w. inner ms o' w = (w\<lparr>cw_now := cw_now w + d\<rparr>, r)"
  shows "middleware_invoke (with_middleware (metrics_mw k) (with_middleware (metrics_mw j) (middleware_model_new inner))) ms options w =
    (w\<lparr>cw_now := cw_now w + d, cw_start := None,
       cw_metrics := (cw_metrics w)(k := metrics_post d r (cw_metrics w k), j := metrics_post 0 r (cw_metrics w j))\<rparr>, r)"
  using assms by (simp add: middleware_invoke_def with_middleware_def middleware_model_new_def metrics_mw_def Let_def)

theorem nested_metrics_exact_witness:
  "middleware_invoke (with_middleware (metrics_mw 1) (with_middleware (metrics_mw 0) (middleware_model_new
      (\<lambda>ms o' w. (w\<lparr>cw_now := cw_now w + 12\<rparr>, mock_invoke ''u'' (mock_new ''m'')))))) [] None half_open_world =
    (half_open_world\<lparr>cw_now := cw_now half_open_world + 12, cw_start := None,
       cw_metrics := (cw_metrics half_open_world)(1 := metrics_post 12 (mock_invoke ''u'' (mock_new ''m'')) (cw_metrics half_open_world 1),
         0 := metrics_post 0 (mock_invoke ''u'' (mock_new ''m'')) (cw_metrics half_open_world 0))\<rparr>, mock_invoke ''u'' (mock_new ''m''))"
  by (rule nested_metrics_exact) (simp_all add: u64_max_def)

section \<open>The mock streams what it answers\<close>

definition shown_call :: "(json \<Rightarrow> string) \<Rightarrow> tool_call \<Rightarrow> tool_call" where
  "shown_call render c = c\<lparr>tcall_arguments := JStr (render (tcall_arguments c))\<rparr>"

lemma fold_mock_chunks:
  "(\<And>c. c \<in> set cs \<Longrightarrow> render (tcall_arguments c) \<noteq> []) \<Longrightarrow>
   fold apply_tool_chunk (map (\<lambda>(i, c). \<lparr>tcc_id = Some (tcall_id c), tcc_name = Some (tcall_name c), tcc_args_delta = render (tcall_arguments c), tcc_index = i\<rparr>)
      (enumerate (length acc) cs)) acc = acc @ map (shown_call render) cs"
proof (induction cs arbitrary: acc)
  case (Cons c cs)
  have "apply_tool_chunk \<lparr>tcc_id = Some (tcall_id c), tcc_name = Some (tcall_name c), tcc_args_delta = render (tcall_arguments c), tcc_index = length acc\<rparr> acc
      = acc @ [shown_call render c]"
    using Cons.prems by (simp add: apply_tool_chunk_def grow_calls_def Let_def empty_call_def push_args_def shown_call_def)
  then show ?case using Cons.IH [of "acc @ [shown_call render c]"] Cons.prems by simp
qed simp

text \<open>
  the message a streaming node assembles from the mock's stream has the text and the tool calls of the mock's answer to
  \<open>invoke\<close> (given a printer of JSON that never prints the empty text and a reader that reads what it prints), and a mock
  told to fail fails in both ways with the same error.
\<close>

theorem mock_stream_agrees:
  fixes parse :: "string \<Rightarrow> json option"
  assumes "\<And>c. c \<in> set (mk_tool_calls m) \<Longrightarrow> render (tcall_arguments c) \<noteq> [] \<and> parse (render (tcall_arguments c)) = Some (tcall_arguments c)"
  shows "map_sum id (\<lambda>a. (content_text a, msg_tool_calls a)) (snd (call_llm_streaming parse render uuid mode md (mock_stream render m)
             :: ('s, 'u) stream_event list \<times> (llm_error, message) result)) =
         map_sum id (\<lambda>a. (content_text a, msg_tool_calls a)) (mock_invoke uuid' m)"
proof (cases "mk_should_error m")
  case False
  have "map (parse_arguments parse render \<circ> shown_call render) (mk_tool_calls m) = mk_tool_calls m"
    by (rule map_idI) (simp add: shown_call_def parse_arguments_def assms)
  moreover have "as_calls (apply_chunk (mock_chunk render m) \<lparr>as_content = [], as_calls = [], as_usage = u\<rparr>) = map (shown_call render) (mk_tool_calls m)" for u
    using fold_mock_chunks [of "mk_tool_calls m" render "[]"] assms by (simp add: apply_chunk_def mock_chunk_def)
  moreover have "as_content (apply_chunk (mock_chunk render m) \<lparr>as_content = [], as_calls = [], as_usage = u\<rparr>) = mock_text m" for u
    by (simp add: apply_chunk_def mock_chunk_def)
  ultimately show ?thesis
    using False by (simp add: mock_stream_def mock_invoke_def call_llm_streaming_def message_ai_with_tool_calls_def content_text_def plain_message_def)
qed (simp add: mock_stream_def mock_invoke_def call_llm_streaming_def)

theorem mock_stream_agrees_witness:
  "map_sum id (\<lambda>a. (content_text a, msg_tool_calls a)) (snd (call_llm_streaming (\<lambda>t. if t = ''null'' then Some JNull else None) (\<lambda>_. ''null'') ''u'' ModeMessages
        \<lparr>msm_node = [], msm_model = [], msm_tags = [], msm_ns = []\<rparr>
        (mock_stream (\<lambda>_. ''null'') (mock_with_tool_calls [\<lparr>tcall_id = ''1'', tcall_name = ''f'', tcall_arguments = JNull\<rparr>] (mock_new ''m'')))
             :: (unit, unit) stream_event list \<times> (llm_error, message) result)) =
     Ok ([], [\<lparr>tcall_id = ''1'', tcall_name = ''f'', tcall_arguments = JNull\<rparr>])"
  by (subst mock_stream_agrees [where uuid' = "''v''"])
    (simp_all add: mock_invoke_def mock_new_def mock_with_tool_calls_def mock_text_def message_ai_with_tool_calls_def content_text_def plain_message_def)

end
