(* ===== verification/Providers.thy ===== *)
theory Providers
  imports Model_Calls
begin

text \<open>
  The model providers (\<open>juncture/src/llm/anthropic.rs\<close>, \<open>openai.rs\<close>, \<open>ollama.rs\<close>): conversion of messages to the
  request of each service, reading of its answers and errors, the call with response cache and budget reports,
  and the streams of chunks.  The network is a function from the number of the request to a reply; the JSON reader
  and printer and the lossy decoding of bytes are parameters.  What \<open>serde\<close> derives for the answer types is written
  out as readers of JSON objects.  Spans, metrics, the headers of a request and the budget report of a stream's last
  Ollama line are not modelled.
\<close>

section \<open>Reading JSON\<close>

text \<open>Readers of a field: required, optional (absent and null alike), a 64-bit number.\<close>

definition req_field :: "string \<Rightarrow> (json \<Rightarrow> 'a option) \<Rightarrow> json \<Rightarrow> 'a option" where
  "req_field k f v = Option.bind (json_member k v) f"

definition opt_field :: "string \<Rightarrow> (json \<Rightarrow> 'a option) \<Rightarrow> json \<Rightarrow> 'a option option" where
  "opt_field k f v = (case json_member k v of None \<Rightarrow> Some None | Some JNull \<Rightarrow> Some None | Some w \<Rightarrow> map_option Some (f w))"

fun all_some :: "'a option list \<Rightarrow> 'a list option" where
  "all_some [] = Some []"
| "all_some (x # xs) = Option.bind x (\<lambda>y. map_option (Cons y) (all_some xs))"

definition list_of :: "(json \<Rightarrow> 'a option) \<Rightarrow> json \<Rightarrow> 'a list option" where
  "list_of f v = Option.bind (as_array v) (\<lambda>vs. all_some (map f vs))"

definition read_usage :: "json \<Rightarrow> token_usage option" where
  "read_usage v = Option.bind (req_field ''input_tokens'' as_u64 v) (\<lambda>i. Option.bind (req_field ''output_tokens'' as_u64 v) (\<lambda>o'.
     Option.bind (req_field ''total_tokens'' as_u64 v) (\<lambda>t. Some \<lparr>input_tokens = i, output_tokens = o', total_tokens = t\<rparr>)))"

definition unwrap_str :: "string option \<Rightarrow> string" where
  "unwrap_str o' = (case o' of Some s \<Rightarrow> s | None \<Rightarrow> [])"

section \<open>Anthropic requests\<close>

datatype anthropic_tool_choice = AnthAuto | AnthNone | AnthAny | AnthTool string

datatype content_block =
    BlockText string
  | BlockImage string string
  | BlockToolUse string string json
  | BlockToolResult string string

datatype anthropic_content = AnthText string | AnthBlocks "content_block list"

record anthropic_request =
  ar_model :: string
  ar_messages :: "(string \<times> anthropic_content) list"
  ar_system :: "string option"
  ar_max_tokens :: nat
  ar_temperature :: "rat option"
  ar_top_p :: "rat option"
  ar_stop_sequences :: "string list option"
  ar_tools :: "tool_definition list option"
  ar_tool_choice :: "anthropic_tool_choice option"
  ar_stream :: bool

record chat_anthropic =
  ca_model :: string
  ca_max_tokens :: nat
  ca_temperature :: "rat option"
  ca_top_p :: "rat option"
  ca_tools :: "tool_definition list"

definition chat_anthropic_new :: chat_anthropic where
  "chat_anthropic_new = \<lparr>ca_model = ''claude-3-5-sonnet-20241022'', ca_max_tokens = 4096, ca_temperature = None, ca_top_p = None, ca_tools = []\<rparr>"

definition anthropic_with_model :: "string \<Rightarrow> chat_anthropic \<Rightarrow> chat_anthropic" where
  "anthropic_with_model m c = c\<lparr>ca_model := m\<rparr>"

definition anthropic_with_max_tokens :: "nat \<Rightarrow> chat_anthropic \<Rightarrow> chat_anthropic" where
  "anthropic_with_max_tokens n c = c\<lparr>ca_max_tokens := n\<rparr>"

definition anthropic_with_temperature :: "rat \<Rightarrow> chat_anthropic \<Rightarrow> chat_anthropic" where
  "anthropic_with_temperature t c = c\<lparr>ca_temperature := Some t\<rparr>"

definition anthropic_bind_tools :: "tool_definition list \<Rightarrow> chat_anthropic \<Rightarrow> chat_anthropic" where
  "anthropic_bind_tools ts c = c\<lparr>ca_tools := ts\<rparr>"

fun anthropic_convert_tool_choice :: "tool_choice \<Rightarrow> anthropic_tool_choice" where
  "anthropic_convert_tool_choice ChoiceAuto = AnthAuto"
| "anthropic_convert_tool_choice ChoiceNone = AnthNone"
| "anthropic_convert_tool_choice ChoiceRequired = AnthAny"
| "anthropic_convert_tool_choice (ChoiceSpecific n) = AnthTool n"

fun convert_role_to_anthropic :: "role \<Rightarrow> string" where
  "convert_role_to_anthropic Human = ''user''"
| "convert_role_to_anthropic Ai = ''assistant''"
| "convert_role_to_anthropic Tool = ''user''"
| "convert_role_to_anthropic System = ''user''"

fun part_block :: "content_part \<Rightarrow> (llm_error, content_block) result" where
  "part_block (PartText t) = Ok (BlockText t)"
| "part_block (PartImage d) = (case img_source d of
     Base64 b \<Rightarrow> Ok (BlockImage (img_media_type d) b)
   | Url _ \<Rightarrow> Err (InvalidResponse ''URL images not supported for Anthropic API''))"
| "part_block (PartThinking t _) = Ok (BlockText t)"

fun part_blocks :: "content_part list \<Rightarrow> (llm_error, content_block list) result" where
  "part_blocks [] = Ok []"
| "part_blocks (p # ps) = try_bind (part_block p) (\<lambda>b. try_bind (part_blocks ps) (\<lambda>bs. Ok (b # bs)))"

definition anthropic_convert_content :: "content \<Rightarrow> tool_call list \<Rightarrow> (llm_error, anthropic_content) result" where
  "anthropic_convert_content c tcs = (if tcs \<noteq> []
     then Ok (AnthBlocks (map (\<lambda>tc. BlockToolUse (tcall_id tc) (tcall_name tc) (tcall_arguments tc)) tcs))
     else (case c of ContentText t \<Rightarrow> Ok (AnthText t) | MultiPart ps \<Rightarrow> try_bind (part_blocks ps) (\<lambda>bs. Ok (AnthBlocks bs))))"

fun anthropic_messages :: "message list \<Rightarrow> (llm_error, (string \<times> anthropic_content) list) result" where
  "anthropic_messages [] = Ok []"
| "anthropic_messages (m # ms) = try_bind (anthropic_convert_content (msg_content m) (msg_tool_calls m)) (\<lambda>c.
     try_bind (anthropic_messages ms) (\<lambda>cs. Ok ((convert_role_to_anthropic (msg_role m), c) # cs)))"

definition anthropic_system :: "message list \<Rightarrow> string option" where
  "anthropic_system ms = (case filter (\<lambda>m. msg_role m = System) ms of
       [] \<Rightarrow> None
     | m # _ \<Rightarrow> (case msg_content m of ContentText t \<Rightarrow> Some t | MultiPart _ \<Rightarrow> Some []))"

definition opt_of :: "(call_options \<Rightarrow> 'a option) \<Rightarrow> call_options option \<Rightarrow> 'a option" where
  "opt_of f options = Option.bind options f"

definition or_else :: "'a option \<Rightarrow> 'a option \<Rightarrow> 'a option" where
  "or_else a b = (case a of Some x \<Rightarrow> Some x | None \<Rightarrow> b)"

definition anthropic_build ::
    "chat_anthropic \<Rightarrow> bool \<Rightarrow> message list \<Rightarrow> call_options option \<Rightarrow> (llm_error, anthropic_request) result" where
  "anthropic_build c streaming ms options =
     try_bind (anthropic_messages (filter (\<lambda>m. msg_role m \<noteq> System) ms)) (\<lambda>converted. Ok
       \<lparr>ar_model = (case opt_of co_model_override options of Some m \<Rightarrow> m | None \<Rightarrow> ca_model c), ar_messages = converted, ar_system = anthropic_system ms,
        ar_max_tokens = (case opt_of co_max_tokens options of Some n \<Rightarrow> n | None \<Rightarrow> ca_max_tokens c),
        ar_temperature = or_else (opt_of co_temperature options) (ca_temperature c), ar_top_p = or_else (opt_of co_top_p options) (ca_top_p c),
        ar_stop_sequences = opt_of co_stop_sequences options, ar_tools = (if ca_tools c = [] then None else Some (ca_tools c)),
        ar_tool_choice = map_option anthropic_convert_tool_choice (opt_of co_tool_choice options), ar_stream = streaming\<rparr>)"

section \<open>Anthropic answers\<close>

datatype response_block = RespText string | RespToolUse string string json

record anthropic_response =
  arp_content :: "response_block list"
  arp_usage :: "token_usage option"

definition read_response_block :: "json \<Rightarrow> response_block option" where
  "read_response_block v = Option.bind (req_field ''type'' as_str v) (\<lambda>ty.
     if ty = ''text'' then map_option RespText (req_field ''text'' as_str v)
     else if ty = ''tool_use'' then Option.bind (req_field ''id'' as_str v) (\<lambda>i. Option.bind (req_field ''name'' as_str v) (\<lambda>n.
       map_option (RespToolUse i n) (json_member ''input'' v)))
     else None)"

definition read_anthropic_response :: "json \<Rightarrow> anthropic_response option" where
  "read_anthropic_response v = Option.bind (req_field ''id'' as_str v) (\<lambda>_. Option.bind (req_field ''role'' as_str v) (\<lambda>_.
     Option.bind (req_field ''content'' (list_of read_response_block) v) (\<lambda>c. Option.bind (opt_field ''usage'' read_usage v) (\<lambda>u.
     Option.bind (opt_field ''stop_reason'' as_str v) (\<lambda>_. Some \<lparr>arp_content = c, arp_usage = u\<rparr>)))))"

definition block_text :: "response_block \<Rightarrow> string" where
  "block_text b = (case b of RespText t \<Rightarrow> t | RespToolUse _ _ _ \<Rightarrow> [])"

definition block_call :: "response_block \<Rightarrow> tool_call list" where
  "block_call b = (case b of RespText _ \<Rightarrow> [] | RespToolUse i n v \<Rightarrow> [\<lparr>tcall_id = i, tcall_name = n, tcall_arguments = v\<rparr>])"

definition anthropic_convert_response :: "string \<Rightarrow> anthropic_response \<Rightarrow> message" where
  "anthropic_convert_response uuid r = (message_ai_with_tool_calls uuid (concat (map block_text (arp_content r)))
     (concat (map block_call (arp_content r))))\<lparr>msg_usage := arp_usage r\<rparr>"

definition http_error :: "nat \<Rightarrow> string \<Rightarrow> llm_error" where
  "http_error status body = InvalidResponse (''HTTP '' @ nat_to_string status @ '': '' @ body)"

definition parse_anthropic_error :: "(string \<Rightarrow> json option) \<Rightarrow> nat \<Rightarrow> string \<Rightarrow> llm_error" where
  "parse_anthropic_error parse status body = (case Option.bind (parse body) (req_field ''error'' (\<lambda>e.
       Option.bind (opt_field ''type'' as_str e) (\<lambda>ty. map_option (Pair ty) (req_field ''message'' as_str e)))) of
     None \<Rightarrow> http_error status body
   | Some (ty, msg) \<Rightarrow>
       if ty = Some ''authentication_error'' then AuthError msg
       else if ty = Some ''rate_limit_error'' then RateLimited None
       else if ty = Some ''invalid_request_error''
         then (if contains_str ''context'' msg then ContextLengthExceeded 0 0 else InvalidResponse msg)
       else InvalidResponse msg)"

section \<open>Anthropic stream events\<close>

record delta_content =
  dc_type :: string
  dc_text :: "string option"
  dc_partial_json :: "string option"

datatype anthropic_sse_event =
    MessageStart
  | ContentBlockStart nat "json option"
  | ContentBlockDelta nat delta_content
  | ContentBlockStop nat
  | MessageDelta "token_usage option"
  | MessageStop
  | StreamError string string

text \<open>The field is called \<open>type_\<close> in the struct and has no \<open>rename\<close>, so that is the name read.\<close>

definition read_delta_content :: "json \<Rightarrow> delta_content option" where
  "read_delta_content v = Option.bind (req_field ''type_'' as_str v) (\<lambda>ty. Option.bind (opt_field ''text'' as_str v) (\<lambda>t.
     Option.bind (opt_field ''partial_json'' as_str v) (\<lambda>p. Some \<lparr>dc_type = ty, dc_text = t, dc_partial_json = p\<rparr>)))"

definition read_delta_message :: "json \<Rightarrow> unit option" where
  "read_delta_message v = Option.bind (as_object v) (\<lambda>_. Option.bind (opt_field ''stop_reason'' as_str v) (\<lambda>_.
     Option.bind (opt_field ''stop_sequence'' as_str v) (\<lambda>_. Some ())))"

definition read_sse_event :: "json \<Rightarrow> anthropic_sse_event option" where
  "read_sse_event v = Option.bind (req_field ''type'' as_str v) (\<lambda>ty.
     if ty = ''message_start'' then Some MessageStart
     else if ty = ''content_block_start'' then Option.bind (req_field ''index'' as_u64 v) (\<lambda>i. map_option (ContentBlockStart i) (opt_field ''content_block'' Some v))
     else if ty = ''content_block_delta'' then Option.bind (req_field ''index'' as_u64 v) (\<lambda>i. map_option (ContentBlockDelta i) (req_field ''delta'' read_delta_content v))
     else if ty = ''content_block_stop'' then map_option ContentBlockStop (req_field ''index'' as_u64 v)
     else if ty = ''message_delta'' then Option.bind (req_field ''delta'' read_delta_message v) (\<lambda>_. map_option MessageDelta (opt_field ''usage'' read_usage v))
     else if ty = ''message_stop'' then Some MessageStop
     else if ty = ''error'' then req_field ''error'' (\<lambda>e. Option.bind (req_field ''type'' as_str e) (\<lambda>t. map_option (StreamError t) (req_field ''message'' as_str e))) v
     else None)"

definition empty_chunk :: message_chunk where
  "empty_chunk = \<lparr>mc_content = [], mc_tool_call_chunks = [], mc_usage_delta = None\<rparr>"

fun convert_sse_event :: "anthropic_sse_event \<Rightarrow> (llm_error, message_chunk) result" where
  "convert_sse_event (ContentBlockStart i b) = Ok (empty_chunk\<lparr>mc_tool_call_chunks :=
     (case b of Some v \<Rightarrow> (if Option.bind (json_member ''type'' v) as_str = Some ''tool_use''
         then [\<lparr>tcc_id = Option.bind (json_member ''id'' v) as_str, tcc_name = Option.bind (json_member ''name'' v) as_str, tcc_args_delta = [], tcc_index = i\<rparr>]
         else [])
      | None \<Rightarrow> [])\<rparr>)"
| "convert_sse_event (ContentBlockDelta i d) = Ok \<lparr>mc_content = (if dc_type d = ''text'' then unwrap_str (dc_text d) else []),
     mc_tool_call_chunks = (if dc_type d = ''tool_use''
       then [\<lparr>tcc_id = None, tcc_name = None, tcc_args_delta = unwrap_str (dc_partial_json d), tcc_index = i\<rparr>] else []),
     mc_usage_delta = None\<rparr>"
| "convert_sse_event (MessageDelta u) = Ok (empty_chunk\<lparr>mc_usage_delta := u\<rparr>)"
| "convert_sse_event (StreamError t m) = Err (InvalidResponse (''Anthropic stream error: '' @ t @ '' - '' @ m))"
| "convert_sse_event _ = Ok empty_chunk"

section \<open>Streams of lines\<close>

text \<open>
  What a line of a stream does: nothing, give an item (\<open>True\<close>: and end the stream after it), or end the stream at once.
\<close>

datatype line_action = Skip | Yield "(llm_error, message_chunk) result" bool | Finish

definition has_payload :: "message_chunk \<Rightarrow> bool" where
  "has_payload c \<longleftrightarrow> mc_content c \<noteq> [] \<or> mc_tool_call_chunks c \<noteq> [] \<or> mc_usage_delta c \<noteq> None"

definition yield_chunk :: "(llm_error, message_chunk) result \<Rightarrow> line_action" where
  "yield_chunk r = (case r of Inl e \<Rightarrow> Yield (Err e) True | Inr c \<Rightarrow> (if has_payload c then Yield (Ok c) False else Skip))"

definition anthropic_line :: "(string \<Rightarrow> json option) \<Rightarrow> (string \<Rightarrow> string) \<Rightarrow> string \<Rightarrow> line_action" where
  "anthropic_line parse lossy raw = (let line = trim (lossy raw) in
     if line = [] \<or> starts_with '':'' line then Skip
     else (case Option.bind (strip_prefix ''data: '' line) (\<lambda>d. Option.bind (parse d) read_sse_event) of
         None \<Rightarrow> Skip
       | Some ev \<Rightarrow> yield_chunk (convert_sse_event ev)))"

definition nl :: char where
  "nl = CHR 10"

text \<open>The loop over the complete lines of the buffer; the rest stays in the buffer.\<close>

function drain :: "(string \<Rightarrow> line_action) \<Rightarrow> string \<Rightarrow> string \<times> line_action" where
  "drain act buf = (if nl \<in> set buf
     then (case act (takeWhile (\<lambda>c. c \<noteq> nl) buf) of
         Skip \<Rightarrow> drain act (drop 1 (dropWhile (\<lambda>c. c \<noteq> nl) buf))
       | a \<Rightarrow> (drop 1 (dropWhile (\<lambda>c. c \<noteq> nl) buf), a))
     else (buf, Skip))"
  by pat_completeness auto
termination
proof (relation "measure (length \<circ> snd)", goal_cases)
  case (2 act buf)
  then have "dropWhile (\<lambda>c. c \<noteq> nl) buf \<noteq> []" by auto
  then have "length (drop 1 (dropWhile (\<lambda>c. c \<noteq> nl) buf)) < length (dropWhile (\<lambda>c. c \<noteq> nl) buf)" by (cases "dropWhile (\<lambda>c. c \<noteq> nl) buf") auto
  then show ?case using length_dropWhile_le [of "\<lambda>c. c \<noteq> nl" buf] by simp
qed simp

declare drain.simps [simp del]

text \<open>The loop over what the network delivers: the buffer, the undelivered rest and what ended the loop.\<close>

fun read_body :: "(string \<Rightarrow> line_action) \<Rightarrow> string \<Rightarrow> (string, string) result list \<Rightarrow> string \<times> (string, string) result list \<times> line_action" where
  "read_body act buf [] = (buf, [], Finish)"
| "read_body act buf (Inl e # cs) = (buf, cs, Yield (Err (NetworkError e)) True)"
| "read_body act buf (Inr b # cs) = (case drain act (buf @ b) of
     (buf', Skip) \<Rightarrow> read_body act buf' cs
   | (buf', a) \<Rightarrow> (buf', cs, a))"

datatype http_reply = SendFailed string | Refused nat "(string, string) result" | Body "(string, string) result list"

definition refused_error :: "(nat \<Rightarrow> string \<Rightarrow> llm_error) \<Rightarrow> nat \<Rightarrow> (string, string) result \<Rightarrow> llm_error" where
  "refused_error on_error status body = (case body of Inl e \<Rightarrow> NetworkError e | Inr t \<Rightarrow> on_error status t)"

text \<open>The stream of Anthropic and Ollama: every item is asked for with a request of its own.\<close>

record repost_state =
  rs_done :: bool
  rs_buffer :: string
  rs_requests :: nat

definition poll_repost ::
    "(nat \<Rightarrow> string \<Rightarrow> llm_error) \<Rightarrow> (string \<Rightarrow> line_action) \<Rightarrow> (nat \<Rightarrow> http_reply) \<Rightarrow> repost_state
       \<Rightarrow> ((llm_error, message_chunk) result \<times> repost_state) option" where
  "poll_repost on_error act post st = (if rs_done st then None
     else (let st1 = st\<lparr>rs_requests := rs_requests st + 1\<rparr> in
       (case post (rs_requests st) of
          SendFailed e \<Rightarrow> Some (Err (NetworkError e), st1\<lparr>rs_done := True\<rparr>)
        | Refused status body \<Rightarrow> Some (Err (refused_error on_error status body), st1\<lparr>rs_done := True\<rparr>)
        | Body cs \<Rightarrow> (case read_body act (rs_buffer st) cs of
              (buf, _, Yield r d) \<Rightarrow> Some (r, st1\<lparr>rs_buffer := buf, rs_done := d\<rparr>)
            | _ \<Rightarrow> None))))"

text \<open>The stream of OpenAI: one request, then the body as it comes.\<close>

datatype openai_state = Pending | Active "(string, string) result list" | Done

definition openai_active :: "(string \<Rightarrow> line_action) \<Rightarrow> string \<Rightarrow> (string, string) result list
       \<Rightarrow> ((llm_error, message_chunk) result \<times> openai_state \<times> string) option" where
  "openai_active act buf cs = (case read_body act buf cs of
       (buf', cs', Yield r d) \<Rightarrow> Some (r, (if d then Done else Active cs'), buf')
     | _ \<Rightarrow> None)"

definition poll_openai ::
    "(nat \<Rightarrow> string \<Rightarrow> llm_error) \<Rightarrow> (string \<Rightarrow> line_action) \<Rightarrow> http_reply \<Rightarrow> openai_state \<times> string
       \<Rightarrow> ((llm_error, message_chunk) result \<times> openai_state \<times> string) option" where
  "poll_openai on_error act reply st = (case st of
       (Done, buf) \<Rightarrow> None
     | (Active cs, buf) \<Rightarrow> openai_active act buf cs
     | (Pending, buf) \<Rightarrow> (case reply of
           SendFailed e \<Rightarrow> Some (Err (NetworkError e), Done, buf)
         | Refused status body \<Rightarrow> Some (Err (refused_error on_error status body), Done, buf)
         | Body cs \<Rightarrow> openai_active act buf cs))"

text \<open>The first items of a stream, as \<open>stream::unfold\<close> gives them.\<close>

fun take_items :: "('st \<Rightarrow> ('r \<times> 'st) option) \<Rightarrow> nat \<Rightarrow> 'st \<Rightarrow> 'r list" where
  "take_items poll 0 st = []"
| "take_items poll (Suc n) st = (case poll st of None \<Rightarrow> [] | Some (r, st') \<Rightarrow> r # take_items poll n st')"

section \<open>OpenAI\<close>

datatype openai_tool_choice = OaAuto | OaNone | OaRequired | OaFunction string

datatype openai_part = OaText string | OaImageUrl string

datatype openai_content = OaContent string | OaParts "openai_part list"

record openai_tool_call =
  otc_id :: string
  otc_name :: string
  otc_arguments :: string

record openai_message =
  om_role :: string
  om_content :: openai_content
  om_tool_calls :: "openai_tool_call list option"
  om_tool_call_id :: "string option"

record openai_request =
  orq_model :: string
  orq_messages :: "openai_message list"
  orq_temperature :: "rat option"
  orq_max_tokens :: "nat option"
  orq_top_p :: "rat option"
  orq_stop :: "string list option"
  orq_tools :: "tool_definition list option"
  orq_tool_choice :: "openai_tool_choice option"
  orq_stream :: bool

record chat_openai =
  cop_model :: string
  cop_max_tokens :: "nat option"
  cop_temperature :: "rat option"
  cop_top_p :: "rat option"
  cop_tools :: "tool_definition list"

definition chat_openai_new :: chat_openai where
  "chat_openai_new = \<lparr>cop_model = ''gpt-4o'', cop_max_tokens = None, cop_temperature = None, cop_top_p = None, cop_tools = []\<rparr>"

definition openai_with_model :: "string \<Rightarrow> chat_openai \<Rightarrow> chat_openai" where
  "openai_with_model m c = c\<lparr>cop_model := m\<rparr>"

definition openai_with_max_tokens :: "nat \<Rightarrow> chat_openai \<Rightarrow> chat_openai" where
  "openai_with_max_tokens n c = c\<lparr>cop_max_tokens := Some n\<rparr>"

definition openai_with_temperature :: "rat \<Rightarrow> chat_openai \<Rightarrow> chat_openai" where
  "openai_with_temperature t c = c\<lparr>cop_temperature := Some t\<rparr>"

definition openai_bind_tools :: "tool_definition list \<Rightarrow> chat_openai \<Rightarrow> chat_openai" where
  "openai_bind_tools ts c = c\<lparr>cop_tools := ts\<rparr>"

fun openai_convert_tool_choice :: "tool_choice \<Rightarrow> openai_tool_choice" where
  "openai_convert_tool_choice ChoiceAuto = OaAuto"
| "openai_convert_tool_choice ChoiceNone = OaNone"
| "openai_convert_tool_choice ChoiceRequired = OaRequired"
| "openai_convert_tool_choice (ChoiceSpecific n) = OaFunction n"

text \<open>\<open>#[serde(untagged)]\<close>: a variant without fields is printed as null.\<close>

fun openai_tool_choice_json :: "openai_tool_choice \<Rightarrow> json" where
  "openai_tool_choice_json (OaFunction n) = JObj [(''name'', JStr n)]"
| "openai_tool_choice_json _ = JNull"

fun openai_role :: "role \<Rightarrow> string" where
  "openai_role System = ''system''"
| "openai_role Human = ''user''"
| "openai_role Ai = ''assistant''"
| "openai_role Tool = ''tool''"

fun openai_convert_part :: "content_part \<Rightarrow> openai_part" where
  "openai_convert_part (PartText t) = OaText t"
| "openai_convert_part (PartImage d) = OaImageUrl (case img_source d of
     Base64 b \<Rightarrow> ''data:'' @ img_media_type d @ '';base64,'' @ b
   | Url u \<Rightarrow> u)"
| "openai_convert_part (PartThinking t _) = OaText t"

definition openai_call :: "(json \<Rightarrow> string) \<Rightarrow> tool_call \<Rightarrow> openai_tool_call" where
  "openai_call render tc = \<lparr>otc_id = tcall_id tc, otc_name = tcall_name tc, otc_arguments = render (tcall_arguments tc)\<rparr>"

definition openai_convert_message :: "(json \<Rightarrow> string) \<Rightarrow> message \<Rightarrow> openai_message" where
  "openai_convert_message render m = \<lparr>om_role = openai_role (msg_role m),
     om_content = (case msg_content m of ContentText t \<Rightarrow> OaContent t | MultiPart ps \<Rightarrow> OaParts (map openai_convert_part ps)),
     om_tool_calls = (if msg_tool_calls m = [] then None else Some (map (openai_call render) (msg_tool_calls m))),
     om_tool_call_id = msg_tool_call_id m\<rparr>"

definition openai_build :: "(json \<Rightarrow> string) \<Rightarrow> chat_openai \<Rightarrow> bool \<Rightarrow> message list \<Rightarrow> call_options option \<Rightarrow> openai_request" where
  "openai_build render c streaming ms options =
     \<lparr>orq_model = (case opt_of co_model_override options of Some m \<Rightarrow> m | None \<Rightarrow> cop_model c), orq_messages = map (openai_convert_message render) ms,
      orq_temperature = or_else (opt_of co_temperature options) (cop_temperature c), orq_max_tokens = or_else (opt_of co_max_tokens options) (cop_max_tokens c),
      orq_top_p = or_else (opt_of co_top_p options) (cop_top_p c), orq_stop = opt_of co_stop_sequences options,
      orq_tools = (if cop_tools c = [] then None else Some (cop_tools c)),
      orq_tool_choice = map_option openai_convert_tool_choice (opt_of co_tool_choice options), orq_stream = streaming\<rparr>"

definition read_openai_usage :: "json \<Rightarrow> token_usage option" where
  "read_openai_usage v = Option.bind (req_field ''prompt_tokens'' as_u64 v) (\<lambda>i. Option.bind (req_field ''completion_tokens'' as_u64 v) (\<lambda>o'.
     Option.bind (req_field ''total_tokens'' as_u64 v) (\<lambda>t. Some \<lparr>input_tokens = i, output_tokens = o', total_tokens = t\<rparr>)))"

record openai_choice =
  och_content :: "string option"
  och_tool_calls :: "openai_tool_call list option"

record openai_response =
  ors_choices :: "openai_choice list"
  ors_usage :: "token_usage option"

definition read_openai_call :: "json \<Rightarrow> openai_tool_call option" where
  "read_openai_call v = Option.bind (req_field ''id'' as_str v) (\<lambda>i. Option.bind (json_member ''function'' v) (\<lambda>f.
     Option.bind (req_field ''name'' as_str f) (\<lambda>n. Option.bind (req_field ''arguments'' as_str f) (\<lambda>a.
       Some \<lparr>otc_id = i, otc_name = n, otc_arguments = a\<rparr>))))"

definition read_openai_choice :: "json \<Rightarrow> openai_choice option" where
  "read_openai_choice v = Option.bind (json_member ''message'' v) (\<lambda>m. Option.bind (req_field ''role'' as_str m) (\<lambda>_.
     Option.bind (opt_field ''content'' as_str m) (\<lambda>c. Option.bind (opt_field ''tool_calls'' (list_of read_openai_call) m) (\<lambda>t.
       Option.bind (opt_field ''finish_reason'' as_str v) (\<lambda>_. Some \<lparr>och_content = c, och_tool_calls = t\<rparr>)))))"

definition read_openai_response :: "json \<Rightarrow> openai_response option" where
  "read_openai_response v = Option.bind (req_field ''choices'' (list_of read_openai_choice) v) (\<lambda>cs.
     Option.bind (opt_field ''usage'' read_openai_usage v) (\<lambda>u. Some \<lparr>ors_choices = cs, ors_usage = u\<rparr>))"

fun openai_calls :: "(string \<Rightarrow> (string, json) result) \<Rightarrow> openai_tool_call list \<Rightarrow> (llm_error, tool_call list) result" where
  "openai_calls parse [] = Ok []"
| "openai_calls parse (c # cs) = (case parse (otc_arguments c) of
       Inl e \<Rightarrow> Err (InvalidResponse (''Failed to parse tool arguments: '' @ e))
     | Inr v \<Rightarrow> try_bind (openai_calls parse cs) (\<lambda>tcs. Ok (\<lparr>tcall_id = otc_id c, tcall_name = otc_name c, tcall_arguments = v\<rparr> # tcs)))"

definition openai_convert_response :: "(string \<Rightarrow> (string, json) result) \<Rightarrow> string \<Rightarrow> openai_response \<Rightarrow> (llm_error, message) result" where
  "openai_convert_response parse uuid r = (case ors_choices r of
       [] \<Rightarrow> Err (InvalidResponse ''No choices in response'')
     | ch # _ \<Rightarrow> try_bind (case och_tool_calls ch of Some cs \<Rightarrow> openai_calls parse cs | None \<Rightarrow> Ok []) (\<lambda>tcs.
         Ok ((message_ai_with_tool_calls uuid (unwrap_str (och_content ch)) tcs)\<lparr>msg_usage := ors_usage r\<rparr>)))"

definition parse_openai_error :: "(string \<Rightarrow> json option) \<Rightarrow> nat \<Rightarrow> string \<Rightarrow> llm_error" where
  "parse_openai_error parse status body = (case Option.bind (parse body) (req_field ''error'' (\<lambda>e.
       Option.bind (req_field ''message'' as_str e) (\<lambda>m. map_option (Pair m) (opt_field ''code'' as_str e)))) of
     None \<Rightarrow> http_error status body
   | Some (msg, code) \<Rightarrow>
       if code = Some ''invalid_api_key'' \<or> code = Some ''401'' then AuthError msg
       else if code = Some ''rate_limit'' \<or> code = Some ''429'' then RateLimited None
       else if code = Some ''context_length_exceeded'' then ContextLengthExceeded 0 0
       else InvalidResponse msg)"

record openai_delta =
  od_content :: "string option"
  od_tool_calls :: "tool_call_chunk list option"

definition read_openai_call_chunk :: "json \<Rightarrow> tool_call_chunk option" where
  "read_openai_call_chunk v = Option.bind (req_field ''index'' as_u64 v) (\<lambda>i. Option.bind (opt_field ''id'' as_str v) (\<lambda>k.
     Option.bind (opt_field ''type'' as_str v) (\<lambda>_. Option.bind (opt_field ''function'' (\<lambda>f. Option.bind (opt_field ''name'' as_str f) (\<lambda>n.
       map_option (Pair n) (opt_field ''arguments'' as_str f))) v) (\<lambda>f.
       Some \<lparr>tcc_id = k, tcc_name = Option.bind f fst, tcc_args_delta = unwrap_str (Option.bind f snd), tcc_index = i\<rparr>))))"

definition read_openai_delta :: "json \<Rightarrow> openai_delta option" where
  "read_openai_delta v = Option.bind (req_field ''index'' as_u64 v) (\<lambda>_. Option.bind (json_member ''delta'' v) (\<lambda>d. Option.bind (as_object d) (\<lambda>_.
     Option.bind (opt_field ''role'' as_str d) (\<lambda>_. Option.bind (opt_field ''content'' as_str d) (\<lambda>c.
       Option.bind (opt_field ''tool_calls'' (list_of read_openai_call_chunk) d) (\<lambda>t. Option.bind (opt_field ''finish_reason'' as_str v) (\<lambda>_.
         Some \<lparr>od_content = c, od_tool_calls = t\<rparr>)))))))"

definition read_openai_chunk :: "json \<Rightarrow> (openai_delta list \<times> token_usage option) option" where
  "read_openai_chunk v = Option.bind (req_field ''id'' as_str v) (\<lambda>_. Option.bind (req_field ''object'' as_str v) (\<lambda>_.
     Option.bind (req_field ''created'' as_u64 v) (\<lambda>_. Option.bind (req_field ''model'' as_str v) (\<lambda>_.
       Option.bind (req_field ''choices'' (list_of read_openai_delta) v) (\<lambda>cs. map_option (Pair cs) (opt_field ''usage'' read_openai_usage v))))))"

definition convert_openai_sse_chunk :: "openai_delta list \<times> token_usage option \<Rightarrow> (llm_error, message_chunk) result" where
  "convert_openai_sse_chunk ch = (case fst ch of
       [] \<Rightarrow> Err (InvalidResponse ''No choices in SSE chunk'')
     | d # _ \<Rightarrow> Ok \<lparr>mc_content = unwrap_str (od_content d), mc_tool_call_chunks = (case od_tool_calls d of Some ts \<Rightarrow> ts | None \<Rightarrow> []),
         mc_usage_delta = snd ch\<rparr>)"

definition openai_line :: "(string \<Rightarrow> json option) \<Rightarrow> (string \<Rightarrow> string) \<Rightarrow> string \<Rightarrow> line_action" where
  "openai_line parse lossy raw = (let line = trim (lossy raw) in
     if line = [] \<or> starts_with '':'' line then Skip
     else (case strip_prefix ''data: '' line of
         None \<Rightarrow> Skip
       | Some d \<Rightarrow> (if d = ''[DONE]'' then Finish
           else (case Option.bind (parse d) read_openai_chunk of
               None \<Rightarrow> Skip
             | Some ch \<Rightarrow> yield_chunk (convert_openai_sse_chunk ch)))))"

section \<open>Ollama\<close>

record ollama_message =
  olm_role :: string
  olm_content :: string
  olm_images :: "string list"

record ollama_request =
  olr_model :: string
  olr_messages :: "ollama_message list"
  olr_stream :: bool
  olr_temperature :: "rat option"
  olr_top_p :: "rat option"
  olr_tools :: "tool_definition list option"

record chat_ollama =
  col_model :: string
  col_temperature :: "rat option"
  col_top_p :: "rat option"
  col_tools :: "tool_definition list"

definition chat_ollama_new :: "string \<Rightarrow> chat_ollama" where
  "chat_ollama_new model = \<lparr>col_model = model, col_temperature = None, col_top_p = None, col_tools = []\<rparr>"

definition ollama_with_temperature :: "rat \<Rightarrow> chat_ollama \<Rightarrow> chat_ollama" where
  "ollama_with_temperature t c = c\<lparr>col_temperature := Some t\<rparr>"

definition ollama_bind_tools :: "tool_definition list \<Rightarrow> chat_ollama \<Rightarrow> chat_ollama" where
  "ollama_bind_tools ts c = c\<lparr>col_tools := ts\<rparr>"

fun text_of_part :: "content_part \<Rightarrow> string option" where
  "text_of_part (PartText t) = Some t"
| "text_of_part (PartThinking t _) = Some t"
| "text_of_part (PartImage _) = None"

definition extract_text_content :: "content \<Rightarrow> string" where
  "extract_text_content c = (case c of ContentText t \<Rightarrow> t | MultiPart ps \<Rightarrow> join_with '' '' (List.map_filter text_of_part ps))"

fun image_of_part :: "content_part \<Rightarrow> string option" where
  "image_of_part (PartImage d) = (case img_source d of Base64 b \<Rightarrow> Some b | Url _ \<Rightarrow> None)"
| "image_of_part _ = None"

definition extract_images :: "content \<Rightarrow> string list" where
  "extract_images c = (case c of ContentText _ \<Rightarrow> [] | MultiPart ps \<Rightarrow> List.map_filter image_of_part ps)"

definition ollama_build :: "chat_ollama \<Rightarrow> bool \<Rightarrow> message list \<Rightarrow> call_options option \<Rightarrow> ollama_request" where
  "ollama_build c streaming ms options =
     \<lparr>olr_model = (case opt_of co_model_override options of Some m \<Rightarrow> m | None \<Rightarrow> col_model c),
      olr_messages = map (\<lambda>m. \<lparr>olm_role = openai_role (msg_role m), olm_content = extract_text_content (msg_content m), olm_images = extract_images (msg_content m)\<rparr>) ms,
      olr_stream = streaming, olr_temperature = or_else (opt_of co_temperature options) (col_temperature c),
      olr_top_p = or_else (opt_of co_top_p options) (col_top_p c), olr_tools = (if col_tools c = [] then None else Some (col_tools c))\<rparr>"

record ollama_response =
  olp_content :: string
  olp_tool_calls :: "tool_call list"
  olp_done :: bool
  olp_prompt_eval_count :: "nat option"
  olp_eval_count :: "nat option"

definition ollama_tool_call :: "string \<Rightarrow> json \<Rightarrow> tool_call" where
  "ollama_tool_call name arguments = \<lparr>tcall_id = ''ollama-'' @ name, tcall_name = name, tcall_arguments = arguments\<rparr>"

definition read_ollama_call :: "json \<Rightarrow> tool_call option" where
  "read_ollama_call v = Option.bind (json_member ''function'' v) (\<lambda>f. Option.bind (req_field ''name'' as_str f) (\<lambda>n.
     Some (ollama_tool_call n (case json_member ''arguments'' f of Some a \<Rightarrow> a | None \<Rightarrow> JNull))))"

definition read_bool_default :: "string \<Rightarrow> json \<Rightarrow> bool option" where
  "read_bool_default k v = (case json_member k v of None \<Rightarrow> Some False | Some (JBool b) \<Rightarrow> Some b | Some _ \<Rightarrow> None)"

definition read_ollama_response :: "json \<Rightarrow> ollama_response option" where
  "read_ollama_response v = Option.bind (json_member ''message'' v) (\<lambda>m. Option.bind (req_field ''role'' as_str m) (\<lambda>_.
     Option.bind (req_field ''content'' as_str m) (\<lambda>c. Option.bind (opt_field ''tool_calls'' (list_of read_ollama_call) m) (\<lambda>t.
       Option.bind (read_bool_default ''done'' v) (\<lambda>d. Option.bind (opt_field ''prompt_eval_count'' as_u64 v) (\<lambda>p. Option.bind (opt_field ''eval_count'' as_u64 v) (\<lambda>e.
         Some \<lparr>olp_content = c, olp_tool_calls = (case t of Some ts \<Rightarrow> ts | None \<Rightarrow> []), olp_done = d, olp_prompt_eval_count = p, olp_eval_count = e\<rparr>)))))))"

definition ollama_usage :: "nat option \<Rightarrow> nat option \<Rightarrow> token_usage option" where
  "ollama_usage p e = map_option (\<lambda>o'. let i = (case p of Some n \<Rightarrow> n | None \<Rightarrow> 0) in
     \<lparr>input_tokens = i, output_tokens = o', total_tokens = wrap_add64 i o'\<rparr>) e"

definition ollama_convert_response :: "string \<Rightarrow> ollama_response \<Rightarrow> message" where
  "ollama_convert_response uuid r = (message_ai_with_tool_calls uuid (olp_content r) (olp_tool_calls r))
     \<lparr>msg_usage := ollama_usage (olp_prompt_eval_count r) (olp_eval_count r)\<rparr>"

definition ollama_chunk :: "(json \<Rightarrow> string) \<Rightarrow> ollama_response \<Rightarrow> message_chunk" where
  "ollama_chunk render r = \<lparr>mc_content = olp_content r,
     mc_tool_call_chunks = map (\<lambda>(i, tc). \<lparr>tcc_id = Some (tcall_id tc), tcc_name = Some (tcall_name tc), tcc_args_delta = render (tcall_arguments tc), tcc_index = i\<rparr>)
       (enumerate 0 (olp_tool_calls r)),
     mc_usage_delta = (if olp_done r then ollama_usage (olp_prompt_eval_count r) (olp_eval_count r) else None)\<rparr>"

definition ollama_line :: "(string \<Rightarrow> json option) \<Rightarrow> (json \<Rightarrow> string) \<Rightarrow> (string \<Rightarrow> string) \<Rightarrow> string \<Rightarrow> line_action" where
  "ollama_line parse render lossy raw = (let line = trim (lossy raw) in
     if line = [] then Skip
     else (case Option.bind (parse line) read_ollama_response of
         None \<Rightarrow> Skip
       | Some r \<Rightarrow> (let c = ollama_chunk render r in
           if olp_done r then (if mc_content c \<noteq> [] \<or> mc_usage_delta c \<noteq> None then Yield (Ok c) True else Finish)
           else if mc_content c \<noteq> [] then Yield (Ok c) False
           else Skip)))"

section \<open>Calls\<close>

text \<open>
  What surrounds a call: the JSON reader with its error text, the error text of a value of the wrong shape, the
  hash function of the cache, the clock, the identifier of the answer and the measured duration.
\<close>

record provider_env =
  pe_parse :: "string \<Rightarrow> (string, json) result"
  pe_shape_error :: "string \<Rightarrow> string"
  pe_hash :: hash_env
  pe_now :: nat
  pe_uuid :: string
  pe_duration_ms :: nat

definition parse_opt :: "provider_env \<Rightarrow> string \<Rightarrow> json option" where
  "parse_opt E t = (case pe_parse E t of Inl _ \<Rightarrow> None | Inr v \<Rightarrow> Some v)"

datatype http_text = TextFailed string | TextReply nat "(string, string) result"

definition read_as :: "provider_env \<Rightarrow> (json \<Rightarrow> 'r option) \<Rightarrow> string \<Rightarrow> (llm_error, 'r) result" where
  "read_as E reader t = (case pe_parse E t of
       Inl e \<Rightarrow> Err (InvalidResponse (''Failed to parse response: '' @ e))
     | Inr v \<Rightarrow> (case reader v of
           None \<Rightarrow> Err (InvalidResponse (''Failed to parse response: '' @ pe_shape_error E t))
         | Some r \<Rightarrow> Ok r))"

definition model_reply ::
    "(nat \<Rightarrow> string \<Rightarrow> llm_error) \<Rightarrow> (string \<Rightarrow> (llm_error, 'r) result) \<Rightarrow> http_text \<Rightarrow> (llm_error, 'r) result" where
  "model_reply on_error read h = (case h of
       TextFailed e \<Rightarrow> Err (NetworkError e)
     | TextReply status (Inl e) \<Rightarrow> Err (NetworkError e)
     | TextReply status (Inr t) \<Rightarrow> (if 200 \<le> status \<and> status < 300 then read t else Err (on_error status t)))"

definition apply_report ::
    "(budget_tracker option \<Rightarrow> (budget_report_error, budget_tracker) result) \<Rightarrow> budget_tracker option \<Rightarrow> budget_tracker option" where
  "apply_report f scope = (case f scope of Inr t \<Rightarrow> Some t | Inl _ \<Rightarrow> scope)"

definition report_answer :: "provider_env \<Rightarrow> message \<Rightarrow> budget_tracker option \<Rightarrow> budget_tracker option" where
  "report_answer E m scope = (let
     s1 = (case msg_usage m of
         Some u \<Rightarrow> apply_report (with_tracker (report_output_tokens (output_tokens u)))
           (apply_report (try_report_model_call (input_tokens u) (output_tokens u)) scope)
       | None \<Rightarrow> scope)
     in apply_report try_report_llm_call (apply_report (try_report_llm_duration (pe_duration_ms E)) s1))"

type_synonym call_scope = "llm_cache option \<times> budget_tracker option"

definition cached_call ::
    "provider_env \<Rightarrow> cache_key_input \<Rightarrow> (llm_error, message) result \<Rightarrow> call_scope \<Rightarrow> call_scope \<times> (llm_error, message) result" where
  "cached_call E k fetch st = (case st of (cache, budget) \<Rightarrow>
     (case try_llm_cache_lookup (pe_hash E) (pe_now E) k cache of
        (cache1, Some m) \<Rightarrow> ((cache1, budget), Ok m)
      | (cache1, None) \<Rightarrow> (case fetch of
            Inl e \<Rightarrow> ((cache1, budget), Err e)
          | Inr m \<Rightarrow> ((try_llm_cache_store (pe_hash E) (pe_now E) k m cache1, report_answer E m budget), Ok m))))"

definition key_input :: "string \<Rightarrow> tool_definition list \<Rightarrow> message list \<Rightarrow> call_options option \<Rightarrow> cache_key_input" where
  "key_input model tools ms options = \<lparr>cki_model = (case opt_of co_model_override options of Some m \<Rightarrow> m | None \<Rightarrow> model),
     cki_messages = ms, cki_tools = tools, cki_config = options\<rparr>"

definition anthropic_invoke ::
    "provider_env \<Rightarrow> chat_anthropic \<Rightarrow> (anthropic_request \<Rightarrow> http_text) \<Rightarrow> message list \<Rightarrow> call_options option \<Rightarrow> call_scope
       \<Rightarrow> call_scope \<times> (llm_error, message) result" where
  "anthropic_invoke E c send ms options = cached_call E (key_input (ca_model c) (ca_tools c) ms options)
     (try_bind (anthropic_build c False ms options) (\<lambda>req.
        try_bind (model_reply (parse_anthropic_error (parse_opt E)) (read_as E read_anthropic_response) (send req)) (\<lambda>r.
          Ok (anthropic_convert_response (pe_uuid E) r))))"

definition openai_invoke ::
    "provider_env \<Rightarrow> chat_openai \<Rightarrow> (openai_request \<Rightarrow> http_text) \<Rightarrow> message list \<Rightarrow> call_options option \<Rightarrow> call_scope
       \<Rightarrow> call_scope \<times> (llm_error, message) result" where
  "openai_invoke E c send ms options = cached_call E (key_input (cop_model c) (cop_tools c) ms options)
     (try_bind (model_reply (parse_openai_error (parse_opt E)) (read_as E read_openai_response)
          (send (openai_build (he_render (pe_hash E)) c False ms options)))
        (openai_convert_response (pe_parse E) (pe_uuid E)))"

definition ollama_invoke ::
    "provider_env \<Rightarrow> chat_ollama \<Rightarrow> (ollama_request \<Rightarrow> http_text) \<Rightarrow> message list \<Rightarrow> call_options option \<Rightarrow> call_scope
       \<Rightarrow> call_scope \<times> (llm_error, message) result" where
  "ollama_invoke E c send ms options = cached_call E (key_input (col_model c) (col_tools c) ms options)
     (try_bind (model_reply http_error (read_as E read_ollama_response) (send (ollama_build c False ms options))) (\<lambda>r.
        Ok (ollama_convert_response (pe_uuid E) r)))"

section \<open>Lines and items\<close>

definition text_of :: "string list \<Rightarrow> string" where
  "text_of ls = concat (map (\<lambda>l. l @ [nl]) ls)"

fun first_action :: "(string \<Rightarrow> line_action) \<Rightarrow> string list \<Rightarrow> string list \<times> line_action" where
  "first_action act [] = ([], Skip)"
| "first_action act (l # ls) = (case act l of Skip \<Rightarrow> first_action act ls | a \<Rightarrow> (ls, a))"

text \<open>The items of a sequence of lines when none is lost.\<close>

fun line_items :: "(string \<Rightarrow> line_action) \<Rightarrow> string list \<Rightarrow> (llm_error, message_chunk) result list" where
  "line_items act [] = []"
| "line_items act (l # ls) = (case act l of
     Skip \<Rightarrow> line_items act ls
   | Yield r d \<Rightarrow> r # (if d then [] else line_items act ls)
   | Finish \<Rightarrow> [])"

lemma line_items_first:
  "line_items act ls = (case first_action act ls of (rest, Yield r d) \<Rightarrow> r # (if d then [] else line_items act rest) | _ \<Rightarrow> [])"
  by (induction ls) (auto split: line_action.splits)

lemma split_line: "nl \<notin> set l \<Longrightarrow> takeWhile (\<lambda>c. c \<noteq> nl) (l @ nl # rest) = l \<and> dropWhile (\<lambda>c. c \<noteq> nl) (l @ nl # rest) = nl # rest"
  by (induction l) auto

lemma drain_line: "nl \<notin> set l \<Longrightarrow> drain act (l @ nl # rest) = (case act l of Skip \<Rightarrow> drain act rest | a \<Rightarrow> (rest, a))"
  by (subst drain.simps) (simp add: split_line split: line_action.split)

lemma drain_partial: "nl \<notin> set l \<Longrightarrow> drain act l = (l, Skip)"
  by (subst drain.simps) simp

lemma drain_text:
  assumes "\<forall>l \<in> set ls. nl \<notin> set l" and "nl \<notin> set tail"
  shows "drain act (text_of ls @ tail) = (case first_action act ls of (rest, a) \<Rightarrow> (text_of rest @ tail, a))"
  using assms(1)
proof (induction ls)
  case (Cons l ls)
  then show ?case by (auto simp: text_of_def drain_line split: line_action.splits)
qed (simp add: text_of_def drain_partial [OF assms(2)])

lemma read_body_lines:
  "\<forall>l \<in> set ls. nl \<notin> set l \<Longrightarrow> read_body act [] (map (\<lambda>l. Inr (l @ [nl])) ls) =
     (case first_action act ls of (rest, Skip) \<Rightarrow> ([], [], Finish) | (rest, a) \<Rightarrow> ([], map (\<lambda>l. Inr (l @ [nl])) rest, a))"
proof (induction ls)
  case (Cons l ls)
  then show ?case by (auto simp: drain_line [where rest = "[]"] drain_partial split: line_action.splits)
qed simp

lemma first_action_set: "first_action act ls = (rest, a) \<Longrightarrow> set rest \<subseteq> set ls"
  by (induction ls) (auto split: line_action.splits)

lemma read_body_progress: "read_body act buf cs = (buf', cs', Yield r d) \<Longrightarrow> length cs' < length cs"
  by (induction act buf cs rule: read_body.induct) (auto split: prod.splits line_action.splits)

lemma text_of_append [simp]: "text_of (xs @ ys) = text_of xs @ text_of ys"
  by (simp add: text_of_def)

lemma line_items_append: "(\<forall>l \<in> set xs. act l = Skip \<or> (\<exists>c. act l = Yield (Ok c) False)) \<Longrightarrow>
    line_items act (xs @ ys) = line_items act xs @ line_items act ys"
  by (induction xs) (auto split: line_action.splits)

lemma first_action_yields:
  assumes "\<forall>l \<in> set ls. act l = Skip \<or> (\<exists>c. act l = Yield (Ok c) False)" and "\<exists>l \<in> set ls. act l \<noteq> Skip"
  shows "\<exists>rest c. first_action act ls = (rest, Yield (Ok c) False)"
  using assms by (induction ls) (auto split: line_action.splits)

lemma poll_openai_simps [simp]:
  "poll_openai on_error act rep (Done, buf) = None"
  "poll_openai on_error act rep (Active cs, buf) = openai_active act buf cs"
  "poll_openai on_error act (Body cs) (Pending, buf) = openai_active act buf cs"
  by (simp_all add: poll_openai_def)

section \<open>Theorems\<close>

text \<open>
  The OpenAI stream gives at most one item for each read from the network.  When every read is one line, it gives
  exactly the items of the answer in order; when the whole answer arrives in one read, it gives the first item and
  loses all others.
\<close>

theorem openai_stream_delivery:
  assumes clean: "\<forall>l \<in> set ls. nl \<notin> set l" and tail: "nl \<notin> set tail"
  shows "take_items (poll_openai on_error act (Body (map (\<lambda>l. Inr (l @ [nl])) ls))) n (Pending, []) = take n (line_items act ls) \<and>
    take_items (poll_openai on_error act (Body [Inr (text_of ls @ tail)])) n (Pending, []) = take (min n 1) (line_items act ls) \<and>
    length (take_items (poll_openai on_error act (Body cs)) n (Pending, [])) \<le> length cs"
proof (intro conjI)
  have pend: "take_items (poll_openai on_error act (Body cs)) n (Pending, []) = take_items (poll_openai on_error act (Body cs)) n (Active cs, [])" for cs n
    by (cases n) auto
  let ?chunks = "map (\<lambda>l. Inr (l @ [nl]))"
  have fin: "take_items (poll_openai on_error act rep) n (Done, buf) = []" for rep n buf
    by (cases n) auto
  have lines: "take_items (poll_openai on_error act rep) n (Active (?chunks xs), []) = take n (line_items act xs)"
    if "\<forall>l \<in> set xs. nl \<notin> set l" for rep n xs
    using that
  proof (induction n arbitrary: xs)
    case (Suc n)
    obtain rest a where f: "first_action act xs = (rest, a)" by fastforce
    then have "\<forall>l \<in> set rest. nl \<notin> set l" using Suc.prems first_action_set by fastforce
    then show ?case
      using f Suc by (cases a) (auto simp: openai_active_def read_body_lines line_items_first [of act xs] fin)
  qed simp
  show "take_items (poll_openai on_error act (Body (?chunks ls))) n (Pending, []) = take n (line_items act ls)"
    unfolding pend by (rule lines [OF clean])
  obtain rest a where f: "first_action act ls = (rest, a)" by fastforce
  have none: "take_items (poll_openai on_error act rep) k (Active [], buf) = []" for rep k buf
    by (cases k) (auto simp: openai_active_def)
  show "take_items (poll_openai on_error act (Body [Inr (text_of ls @ tail)])) n (Pending, []) = take (min n 1) (line_items act ls)"
    unfolding pend
    by (cases n; cases a) (auto simp: openai_active_def drain_text [OF clean tail] f line_items_first [of act ls] none fin)
  have "length (take_items (poll_openai on_error act rep) n (Active ds, buf)) \<le> length ds" for rep n ds buf
  proof (induction n arbitrary: ds buf)
    case (Suc n)
    show ?case
      using Suc.IH fin
      by (auto simp: openai_active_def dest!: read_body_progress split: prod.splits line_action.splits if_splits)
         (meson Suc_leI le_trans not_less_eq_eq)
  qed simp
  then show "length (take_items (poll_openai on_error act (Body cs)) n (Pending, [])) \<le> length cs"
    unfolding pend .
qed

text \<open>
  The Anthropic and Ollama streams ask the service again for every item.  Against a service that gives
  the same answer to the same request, an answer that arrives line by line never gets past its first item, and an
  answer that arrives in one read is repeated for ever: the first \<open>n\<close> items are those of the answer over and over,
  for one request each.
\<close>

theorem reposting_stream_repeats:
  assumes clean: "\<forall>l \<in> set ls. nl \<notin> set l"
    and plain: "\<forall>l \<in> set ls. act l = Skip \<or> (\<exists>c. act l = Yield (Ok c) False)" and some: "\<exists>l \<in> set ls. act l \<noteq> Skip"
  shows "take_items (poll_repost on_error act (\<lambda>_. Body [Inr (text_of ls)])) n \<lparr>rs_done = False, rs_buffer = [], rs_requests = 0\<rparr>
      = take n (concat (replicate n (line_items act ls))) \<and>
    take_items (poll_repost on_error act (\<lambda>_. Body (map (\<lambda>l. Inr (l @ [nl])) ls))) n \<lparr>rs_done = False, rs_buffer = [], rs_requests = 0\<rparr>
      = replicate n (hd (line_items act ls))"
proof (intro conjI)
  let ?poll = "poll_repost on_error act (\<lambda>_. Body [Inr (text_of ls)])"
  have "take_items ?poll n \<lparr>rs_done = False, rs_buffer = text_of bs, rs_requests = k\<rparr>
      = take n (line_items act bs @ concat (replicate n (line_items act ls)))" if "set bs \<subseteq> set ls" for bs k
    using that
  proof (induction n arbitrary: bs k)
    case (Suc n)
    have b: "\<forall>l \<in> set (bs @ ls). act l = Skip \<or> (\<exists>c. act l = Yield (Ok c) False)" "\<exists>l \<in> set (bs @ ls). act l \<noteq> Skip" "\<forall>l \<in> set (bs @ ls). nl \<notin> set l"
      using Suc.prems plain some clean by auto
    obtain rest c where f: "first_action act (bs @ ls) = (rest, Yield (Ok c) False)"
      using first_action_yields [OF b(1,2)] by blast
    have "set rest \<subseteq> set ls" using first_action_set [OF f] Suc.prems by auto
    note IH = Suc.IH [OF this]
    have d: "drain act (text_of bs @ text_of ls) = (text_of rest, Yield (Ok c) False)"
      using drain_text [OF b(3), of "[]" act] f by simp
    have "line_items act (bs @ ls) = Ok c # line_items act rest" by (subst line_items_first) (simp add: f)
    moreover have "line_items act (bs @ ls) = line_items act bs @ line_items act ls"
      using b(1) by (intro line_items_append) simp
    ultimately have eq: "line_items act bs @ concat (replicate (Suc n) (line_items act ls)) = Ok c # line_items act rest @ concat (replicate n (line_items act ls))"
      by (simp flip: append_assoc)
    have "?poll \<lparr>rs_done = False, rs_buffer = text_of bs, rs_requests = k\<rparr> = Some (Ok c, \<lparr>rs_done = False, rs_buffer = text_of rest, rs_requests = Suc k\<rparr>)"
      by (simp add: poll_repost_def d Let_def)
    then show ?case unfolding eq by (simp add: IH)
  qed simp
  from this [of "[]" 0] show "take_items ?poll n \<lparr>rs_done = False, rs_buffer = [], rs_requests = 0\<rparr> = take n (concat (replicate n (line_items act ls)))"
    by (simp add: text_of_def)
  obtain rest c where f: "first_action act ls = (rest, Yield (Ok c) False)" using first_action_yields [OF plain some] by blast
  then have h: "hd (line_items act ls) = Ok c" by (subst line_items_first) simp
  have p: "poll_repost on_error act (\<lambda>_. Body (map (\<lambda>l. Inr (l @ [nl])) ls)) \<lparr>rs_done = False, rs_buffer = [], rs_requests = k\<rparr>
      = Some (Ok c, \<lparr>rs_done = False, rs_buffer = [], rs_requests = Suc k\<rparr>)" for k
    by (simp add: poll_repost_def read_body_lines [OF clean] f Let_def)
  have "take_items (poll_repost on_error act (\<lambda>_. Body (map (\<lambda>l. Inr (l @ [nl])) ls))) n \<lparr>rs_done = False, rs_buffer = [], rs_requests = k\<rparr> = replicate n (Ok c)" for k
    by (induction n arbitrary: k) (simp_all add: p)
  then show "take_items (poll_repost on_error act (\<lambda>_. Body (map (\<lambda>l. Inr (l @ [nl])) ls))) n \<lparr>rs_done = False, rs_buffer = [], rs_requests = 0\<rparr>
      = replicate n (hd (line_items act ls))" by (simp add: h)
qed

text \<open>Examples: a reader that knows three lines.\<close>

definition example_text_event :: json where
  "example_text_event = JObj [(''type'', JStr ''content_block_start''), (''index'', JNum 0),
     (''content_block'', JObj [(''type'', JStr ''tool_use''), (''id'', JStr ''c1''), (''name'', JStr ''f'')])]"

definition example_parse :: "string \<Rightarrow> json option" where
  "example_parse t = (if t = ''T'' then Some example_text_event else None)"

definition example_items :: "(llm_error, message_chunk) result list" where
  "example_items = [Ok (empty_chunk\<lparr>mc_tool_call_chunks := [\<lparr>tcc_id = Some ''c1'', tcc_name = Some ''f'', tcc_args_delta = [], tcc_index = 0\<rparr>]\<rparr>)]"

lemma example_line: "anthropic_line example_parse id ''data: T'' = Yield (hd example_items) False"
proof -
  have "trim ''data: T'' = ''data: T''" by code_simp
  then show ?thesis
    by (simp add: anthropic_line_def starts_with_def strip_prefix_def example_parse_def example_text_event_def read_sse_event_def req_field_def
        opt_field_def json_member_def u64_max_def yield_chunk_def has_payload_def example_items_def empty_chunk_def)
qed

theorem reposting_stream_repeats_witness:
  "take_items (poll_repost http_error (anthropic_line example_parse id) (\<lambda>_. Body [Inr (text_of [''data: T''])])) 3 \<lparr>rs_done = False, rs_buffer = [], rs_requests = 0\<rparr>
     = replicate 3 (hd example_items)"
proof -
  have "line_items (anthropic_line example_parse id) [''data: T''] = example_items" by (simp add: example_line) (simp add: example_items_def)
  moreover have "take 3 (concat (replicate 3 example_items)) = replicate 3 (hd example_items)"
    by (simp add: example_items_def eval_nat_numeral)
  moreover have "hd example_items = Ok (empty_chunk\<lparr>mc_tool_call_chunks := [\<lparr>tcc_id = Some ''c1'', tcc_name = Some ''f'', tcc_args_delta = [], tcc_index = 0\<rparr>]\<rparr>)"
    by (simp add: example_items_def)
  ultimately show ?thesis
    using reposting_stream_repeats [of "[''data: T'']" "anthropic_line example_parse id" http_error 3] example_line by (simp add: nl_def)
qed

theorem openai_stream_delivery_witness:
  "take_items (poll_openai http_error (anthropic_line example_parse id) (Body [Inr (text_of [''data: T'', ''data: T''])])) 5 (Pending, []) = example_items"
proof -
  have "line_items (anthropic_line example_parse id) [''data: T'', ''data: T''] = [hd example_items, hd example_items]"
    by (simp add: example_line)
  moreover have "[hd example_items] = example_items" by (simp add: example_items_def)
  ultimately show ?thesis
    using openai_stream_delivery [of "[''data: T'', ''data: T'']" "[]" http_error "anthropic_line example_parse id" 5 "[]"] by (simp add: nl_def)
qed

text \<open>
  The Anthropic reader does not read the service's documented answers: a response whose usage has no total is
  refused, and a delta event, whose kind the service writes in the field \<open>type\<close>, is skipped, so that no text and no
  argument of a call ever comes out of a stream.
\<close>

theorem anthropic_wire_mismatch:
  "(\<forall>v u. json_member ''usage'' v = Some (JObj u) \<and> map_of u ''total_tokens'' = None \<longrightarrow> read_anthropic_response v = None) \<and>
   (\<forall>v d. json_member ''type'' v = Some (JStr ''content_block_delta'') \<and> json_member ''delta'' v = Some (JObj d) \<and> map_of d ''type_'' = None
      \<longrightarrow> read_sse_event v = None) \<and>
   (\<forall>parse lossy raw d v. trim (lossy raw) = ''data: '' @ d \<and> parse d = Some v \<and> read_sse_event v = None \<longrightarrow> anthropic_line parse lossy raw = Skip)"
proof (intro conjI allI impI)
  fix v u
  assume "json_member ''usage'' v = Some (JObj u) \<and> map_of u ''total_tokens'' = None"
  then have "opt_field ''usage'' read_usage v = None"
    by (auto simp: opt_field_def read_usage_def req_field_def json_member_def [of _ "JObj u"] Option.bind_eq_None_conv)
  then show "read_anthropic_response v = None"
    by (auto simp: read_anthropic_response_def Option.bind_eq_None_conv)
next
  fix v d
  assume "json_member ''type'' v = Some (JStr ''content_block_delta'') \<and> json_member ''delta'' v = Some (JObj d) \<and> map_of d ''type_'' = None"
  then show "read_sse_event v = None"
    by (auto simp: read_sse_event_def req_field_def read_delta_content_def json_member_def [of _ "JObj d"] Option.bind_eq_None_conv)
next
  fix parse :: "string \<Rightarrow> json option" and lossy :: "string \<Rightarrow> string" and raw d v
  assume "trim (lossy raw) = ''data: '' @ d \<and> parse d = Some v \<and> read_sse_event v = None"
  then show "anthropic_line parse lossy raw = Skip"
    by (auto simp: anthropic_line_def Let_def strip_prefix_def starts_with_def)
qed

theorem anthropic_wire_mismatch_witness:
  "read_sse_event (JObj [(''type'', JStr ''content_block_delta''), (''index'', JNum 0),
     (''delta'', JObj [(''type'', JStr ''text_delta''), (''text'', JStr ''Hi'')])]) = None"
  using anthropic_wire_mismatch by (simp add: json_member_def)

text \<open>
  What a request to Anthropic leaves out: the call a tool message answers, and all text of a model message that
  calls tools; conversations that differ in nothing else become the same request.
\<close>

theorem anthropic_request_forgets:
  "anthropic_build c streaming (map (\<lambda>m. m\<lparr>msg_tool_call_id := f m, msg_content := (if has_tool_calls m \<and> msg_role m \<noteq> System then g m else msg_content m)\<rparr>) ms) options
    = anthropic_build c streaming ms options"
proof -
  define h where "h = (\<lambda>m. m\<lparr>msg_tool_call_id := f m, msg_content := (if has_tool_calls m \<and> msg_role m \<noteq> System then g m else msg_content m)\<rparr>)"
  have "anthropic_messages (filter (\<lambda>m. msg_role m \<noteq> System) (map h ms)) = anthropic_messages (filter (\<lambda>m. msg_role m \<noteq> System) ms)" for ms
    by (induction ms) (auto simp: h_def anthropic_convert_content_def has_tool_calls_def)
  moreover have "anthropic_system (map h ms) = anthropic_system ms" for ms
    by (induction ms) (auto simp: h_def anthropic_system_def)
  ultimately show ?thesis unfolding h_def [symmetric] anthropic_build_def by simp
qed

text \<open>
  Tool calls survive the OpenAI format: when the JSON reader reads back the printed arguments, a model message sent
  to the service and returned by it as its first choice comes back with the same text and the same calls.
\<close>

theorem openai_calls_roundtrip:
  assumes "\<forall>tc \<in> set (msg_tool_calls m). parse (render (tcall_arguments tc)) = Inr (tcall_arguments tc)" and "msg_content m = ContentText t"
    and "om = openai_convert_message render m"
    and "om_content om = OaContent t'" and "r = \<lparr>ors_choices = \<lparr>och_content = Some t', och_tool_calls = om_tool_calls om\<rparr> # others, ors_usage = u\<rparr>"
  shows "openai_convert_response parse uuid r = Ok ((message_ai_with_tool_calls uuid t (msg_tool_calls m))\<lparr>msg_usage := u\<rparr>)"
proof -
  have calls: "\<forall>tc \<in> set tcs. parse (render (tcall_arguments tc)) = Inr (tcall_arguments tc) \<Longrightarrow> openai_calls parse (map (openai_call render) tcs) = Ok tcs" for tcs
    by (induction tcs) (auto simp: openai_call_def)
  have "t' = t" using assms(2-4) by (simp add: openai_convert_message_def)
  then show ?thesis using assms(2,3,5) calls [OF assms(1)] by (auto simp: openai_convert_response_def openai_convert_message_def unwrap_str_def)
qed

definition example_call_message :: message where
  "example_call_message = message_ai_with_tool_calls ''m'' ''hi'' [\<lparr>tcall_id = ''c'', tcall_name = ''f'', tcall_arguments = JNum 1\<rparr>]"

theorem openai_calls_roundtrip_witness:
  "openai_convert_response (\<lambda>s. if s = ''1'' then Inr (JNum 1) else Inl ''bad'') ''u''
     \<lparr>ors_choices = [\<lparr>och_content = Some ''hi'', och_tool_calls = om_tool_calls (openai_convert_message (\<lambda>_. ''1'') example_call_message)\<rparr>], ors_usage = None\<rparr>
    = Ok ((message_ai_with_tool_calls ''u'' ''hi'' (msg_tool_calls example_call_message))\<lparr>msg_usage := None\<rparr>)"
  by (rule openai_calls_roundtrip [OF _ _ refl _ refl])
    (simp_all add: example_call_message_def message_ai_with_tool_calls_def plain_message_def openai_convert_message_def)

lemma cached_call_repeat:
  assumes "cached_call E k fetch (Some p, b) = ((cache, b'), Ok m)" and "lc_ttl p = None"
  shows "cached_call E k fetch' (cache, b') = ((cache, b'), Ok m)"
  using assms
  by (auto simp: cached_call_def try_llm_cache_lookup_def try_llm_cache_store_def llm_cache_get_def llm_cache_put_def llm_generate_key_def
      split: prod.splits option.splits sum.splits)

text \<open>
  With a response cache without lifetime a repeated call to any provider costs nothing: it gives the same answer,
  whatever the service would say now, and leaves cache and budget as they are.
\<close>

theorem repeated_call_free:
  assumes "lc_ttl p = None"
  shows "(\<forall>c send send' ms o' cache b' m. anthropic_invoke E c send ms o' (Some p, b) = ((cache, b'), Ok m) \<longrightarrow>
        anthropic_invoke E c send' ms o' (cache, b') = ((cache, b'), Ok m)) \<and>
     (\<forall>c send send' ms o' cache b' m. openai_invoke E c send ms o' (Some p, b) = ((cache, b'), Ok m) \<longrightarrow>
        openai_invoke E c send' ms o' (cache, b') = ((cache, b'), Ok m)) \<and>
     (\<forall>c send send' ms o' cache b' m. ollama_invoke E c send ms o' (Some p, b) = ((cache, b'), Ok m) \<longrightarrow>
        ollama_invoke E c send' ms o' (cache, b') = ((cache, b'), Ok m))"
  unfolding anthropic_invoke_def openai_invoke_def ollama_invoke_def using cached_call_repeat [OF _ assms] by blast

definition example_provider :: provider_env where
  "example_provider = \<lparr>pe_parse = (\<lambda>_. Inl ''bad''), pe_shape_error = (\<lambda>_. []), pe_hash = \<lparr>he_render = (\<lambda>_. []), he_bits = (\<lambda>_. 0), he_hasher = length\<rparr>,
     pe_now = 0, pe_uuid = ''u'', pe_duration_ms = 0\<rparr>"

definition example_cache :: llm_cache where
  "example_cache = llm_cache_put 0 (llm_generate_key (pe_hash example_provider) llm_cache_new (key_input ''llama3'' [] [] None)) (message_ai ''m'' ''hello'') llm_cache_new"

theorem repeated_call_free_witness:
  "ollama_invoke example_provider (chat_ollama_new ''llama3'') (\<lambda>_. TextFailed ''down'') [] None (Some example_cache, None)
     = ((Some example_cache, None), Ok (message_ai ''m'' ''hello''))"
proof -
  have hit: "ollama_invoke example_provider (chat_ollama_new ''llama3'') send [] None (Some example_cache, None) = ((Some example_cache, None), Ok (message_ai ''m'' ''hello''))" for send
    by (simp add: ollama_invoke_def cached_call_def try_llm_cache_lookup_def example_cache_def llm_cache_put_def llm_cache_new_def chat_ollama_new_def
        llm_generate_key_def llm_cache_get_def im_get_Cons)
  have "lc_ttl example_cache = None" by (simp add: example_cache_def llm_cache_put_def llm_cache_new_def)
  note free = repeated_call_free [OF this, of example_provider None, THEN conjunct2, THEN conjunct2]
  show ?thesis by (rule free [rule_format, OF hit])
qed

end
