(* ===== verification/Agents.thy ===== *)
theory Agents
  imports Providers Tools Scheduler
begin

text \<open>
  The prebuilt agents of \<open>juncture/src/prebuilt/\<close>: the agent and tool nodes, the router and the graph of
  \<open>react.rs\<close>, the middleware chain with its two built-in members (\<open>agent_middleware.rs\<close>) and the factory that
  combines them (\<open>agent_factory.rs\<close>).  The state is the derived \<open>MessagesState\<close> of \<open>messages_state.rs\<close>: one
  field whose reducer is \<open>messages_reducer\<close>.  The model, the tools, user hooks, the text of a model error, fresh
  identifiers and the order in which tool calls finish are parameters.
\<close>

section \<open>The state\<close>

type_synonym agent_state = "message list list"
type_synonym agent_update = "message list option list"

definition agent_state_specs :: "message list field_spec list" where
  "agent_state_specs = [\<lparr>fs_name = ''messages'', fs_reducer = RCustom messages_reducer, fs_extend = (@), fs_default = []\<rparr>]"

definition agent_messages :: "agent_state \<Rightarrow> message list" where
  "agent_messages s = (case s of ms # _ \<Rightarrow> ms | [] \<Rightarrow> [])"

definition agent_update_of :: "message list \<Rightarrow> agent_update" where
  "agent_update_of ms = [Some ms]"

section \<open>The agent node\<close>

datatype prompt_source = PromptStatic string | PromptDynamic "message list \<Rightarrow> string"

definition build_messages :: "string \<Rightarrow> prompt_source option \<Rightarrow> agent_state \<Rightarrow> message list" where
  "build_messages uuid prompt s = (case prompt of
       Some (PromptStatic t) \<Rightarrow> message_system uuid t # agent_messages s
     | Some (PromptDynamic f) \<Rightarrow> message_system uuid (f (agent_messages s)) # agent_messages s
     | None \<Rightarrow> agent_messages s)"

text \<open>A model call reads and updates the response cache and the tracker of its task.\<close>

type_synonym chat_model = "message list \<Rightarrow> call_options option \<Rightarrow> call_scope \<Rightarrow> call_scope \<times> (llm_error, message) result"

record model_hooks =
  mh_pre_model :: "(agent_state \<Rightarrow> agent_state) option"
  mh_post_model :: "(agent_state \<Rightarrow> message \<Rightarrow> message) option"
  mh_selector :: "(agent_state \<Rightarrow> call_options) option"

record agent_node =
  an_model :: chat_model
  an_prompt :: "prompt_source option"
  an_hooks :: model_hooks

definition agent_node_new :: "chat_model \<Rightarrow> prompt_source option \<Rightarrow> agent_node" where
  "agent_node_new m p = \<lparr>an_model = m, an_prompt = p,
     an_hooks = \<lparr>mh_pre_model = None, mh_post_model = None, mh_selector = None\<rparr>\<rparr>"

definition apply_pre :: "model_hooks \<Rightarrow> agent_state \<Rightarrow> agent_state" where
  "apply_pre h s = (case mh_pre_model h of Some f \<Rightarrow> f s | None \<Rightarrow> s)"

definition apply_post :: "model_hooks \<Rightarrow> agent_state \<Rightarrow> message \<Rightarrow> message" where
  "apply_post h s r = (case mh_post_model h of Some f \<Rightarrow> f s r | None \<Rightarrow> r)"

text \<open>
  The tracker of the run's configuration is the one the runner makes task-local, so the node reports to the tracker
  the model call left.
\<close>

definition report_response :: "message \<Rightarrow> call_scope \<Rightarrow> call_scope" where
  "report_response r scope = (case msg_usage r of
       Some u \<Rightarrow> (fst scope, map_option (report_model_call (input_tokens u) (output_tokens u)) (snd scope))
     | None \<Rightarrow> scope)"

definition agent_call ::
    "(llm_error \<Rightarrow> string) \<Rightarrow> string \<Rightarrow> agent_node \<Rightarrow> agent_state \<Rightarrow> call_scope
       \<Rightarrow> call_scope \<times> (juncture_error, agent_update command) result" where
  "agent_call display uuid node state scope = (let
     s = apply_pre (an_hooks node) state;
     ms = build_messages uuid (an_prompt node) s;
     options = map_option (\<lambda>sel. sel s) (mh_selector (an_hooks node))
     in (case an_model node ms options scope of
       (scope1, Inl e) \<Rightarrow> (scope1, Err (ExecutionError (display e)))
     | (scope1, Inr r0) \<Rightarrow> (let r = apply_post (an_hooks node) s r0
         in (report_response r scope1, Ok (command_update (agent_update_of [r]))))))"

definition agent_route :: "agent_state router" where
  "agent_route s = Ok (RouteOne (case rev (agent_messages s) of
       [] \<Rightarrow> END
     | m # _ \<Rightarrow> (if has_tool_calls m then ''tools'' else END)))"

section \<open>The tool node\<close>

record agent_tool =
  at_definition :: tool_definition
  at_run :: "json \<Rightarrow> (tool_error, string) result option"

definition agent_tool_node :: "agent_tool list \<Rightarrow> agent_state tool_node" where
  "agent_tool_node tools = tool_node_new
     (map (\<lambda>t. (td_name (at_definition t), Tools.Stateless (td_parameters (at_definition t)) (at_run t))) tools)"

text \<open>What a run of the tool node meets: the order in which calls finish, the text of a panic, fresh identifiers.\<close>

record tool_env =
  te_order :: "(tool_call \<times> string \<times> agent_state tool_entry) list \<Rightarrow> (tool_call \<times> string \<times> agent_state tool_entry) list"
  te_panic :: string
  te_fresh :: "nat \<Rightarrow> string"

definition run_tools :: "tool_env \<Rightarrow> agent_state tool_node \<Rightarrow> agent_state \<Rightarrow> (juncture_error, message list) result" where
  "run_tools T node s = (case execute_with_state node (te_order T) (te_panic T) (te_fresh T) (agent_messages s) (Some s) of
       Inl e \<Rightarrow> Err (ExecutionError (tool_error_display e))
     | Inr ms \<Rightarrow> Ok ms)"

definition tool_adapter_call :: "tool_env \<Rightarrow> agent_state tool_node \<Rightarrow> agent_state \<Rightarrow> (juncture_error, agent_update command) result" where
  "tool_adapter_call T node s = try_bind (run_tools T node s) (\<lambda>ms. Ok (command_update (agent_update_of ms)))"

section \<open>The agent graph\<close>

text \<open>Both factories wire the same graph around their two nodes.\<close>

definition agent_topology ::
    "(agent_state, agent_update) node_fn \<Rightarrow> (agent_state, agent_update) node_fn \<Rightarrow> (agent_state, agent_update) build_result" where
  "agent_topology agent tools =
     try_bind (add_node_simple ''agent'' agent state_graph_new) (\<lambda>g1.
     try_bind (add_node_simple ''tools'' tools g1) (\<lambda>g2.
       Ok (add_edge ''tools'' ''agent''
         (add_conditional_edges ''agent'' agent_route (path_map_of_pairs [(''tools'', ''tools''), (END, END)])
           (set_entry_point ''agent'' g2)))))"

definition compile_agent ::
    "(agent_state, agent_update) build_result \<Rightarrow> (topology_error, (agent_state, agent_update, unit) compiled_graph) result option" where
  "compile_agent r = (case r of Inl e \<Rightarrow> Some (Err e) | Inr g \<Rightarrow> compile_graph (derived_impl agent_state_specs) g)"

record react_agent_config =
  rac_system_message :: "string option"
  rac_max_iterations :: "nat option"
  rac_interrupt_before_tools :: bool
  rac_hooks :: model_hooks

definition react_agent_config_default :: react_agent_config where
  "react_agent_config_default = \<lparr>rac_system_message = None, rac_max_iterations = None, rac_interrupt_before_tools = False,
     rac_hooks = \<lparr>mh_pre_model = None, mh_post_model = None, mh_selector = None\<rparr>\<rparr>"

text \<open>What the \<open>i\<close>-th attempt of a node meets; \<open>model\<close> is the chat model as a function of the tools bound to it.\<close>

record agent_env =
  ae_display :: "llm_error \<Rightarrow> string"
  ae_uuid :: "nat \<Rightarrow> string"
  ae_scope :: "nat \<Rightarrow> call_scope"
  ae_tools :: "nat \<Rightarrow> tool_env"

definition tool_definitions :: "agent_tool list \<Rightarrow> tool_definition list" where
  "tool_definitions tools = map at_definition tools"

definition create_agent_with_config ::
    "agent_env \<Rightarrow> (tool_definition list \<Rightarrow> nat \<Rightarrow> chat_model) \<Rightarrow> agent_tool list \<Rightarrow> react_agent_config
       \<Rightarrow> (topology_error, (agent_state, agent_update, unit) compiled_graph) result option" where
  "create_agent_with_config E model tools cfg = (let
     prompt = map_option PromptStatic (rac_system_message cfg);
     node = (\<lambda>i. (agent_node_new (model (tool_definitions tools) i) prompt)\<lparr>an_hooks := rac_hooks cfg\<rparr>);
     tool_node = agent_tool_node tools
     in compile_agent (agent_topology
          (\<lambda>i s. snd (agent_call (ae_display E) (ae_uuid E i) (node i) s (ae_scope E i)))
          (\<lambda>i s. tool_adapter_call (ae_tools E i) tool_node s)))"

definition create_agent ::
    "agent_env \<Rightarrow> (tool_definition list \<Rightarrow> nat \<Rightarrow> chat_model) \<Rightarrow> agent_tool list
       \<Rightarrow> (topology_error, (agent_state, agent_update, unit) compiled_graph) result option" where
  "create_agent E model tools = create_agent_with_config E model tools react_agent_config_default"

section \<open>Middleware\<close>

datatype middleware_action = MwContinue | MwShortCircuit message

text \<open>\<open>before_model\<close> of the loop detector can panic (\<open>None\<close>), so the hook is partial.\<close>

record agent_middleware =
  mw_before_model :: "agent_state \<Rightarrow> middleware_action option"
  mw_after_model :: "agent_state \<Rightarrow> message \<Rightarrow> message"
  mw_before_tool :: "string \<Rightarrow> json \<Rightarrow> middleware_action"
  mw_after_tool :: "string \<Rightarrow> message \<Rightarrow> message"
  mw_on_error :: "string \<Rightarrow> message option"

definition nop_middleware :: agent_middleware where
  "nop_middleware = \<lparr>mw_before_model = (\<lambda>_. Some MwContinue), mw_after_model = (\<lambda>_ r. r), mw_before_tool = (\<lambda>_ _. MwContinue),
     mw_after_tool = (\<lambda>_ r. r), mw_on_error = (\<lambda>_. None)\<rparr>"

definition first_calls :: "message list \<Rightarrow> (string \<times> json) list" where
  "first_calls ms = filter_map (\<lambda>m. case msg_tool_calls m of tc # _ \<Rightarrow> Some (tcall_name tc, tcall_arguments tc) | [] \<Rightarrow> None) ms"

definition loop_message :: "string \<Rightarrow> string \<Rightarrow> nat \<Rightarrow> message" where
  "loop_message uuid name n = message_ai uuid (''Loop detected: tool '' @ quoted name @ '' called '' @ nat_to_string n @ '' times with identical arguments. Stopping.'')"

definition loop_before_model :: "nat \<Rightarrow> string \<Rightarrow> agent_state \<Rightarrow> middleware_action option" where
  "loop_before_model n uuid s = (let ms = agent_messages s in
     if length ms < n * 2 then Some MwContinue
     else (let recent = take (n * 2) (rev ms) in
       if length recent < n * 2 then Some MwContinue
       else (let calls = first_calls recent in
         if length calls \<ge> n
         then (case calls of
             [] \<Rightarrow> None
           | c # _ \<Rightarrow> (if list_all (\<lambda>tc. fst tc = fst c \<and> snd tc = snd c) calls then Some (MwShortCircuit (loop_message uuid (fst c) n)) else Some MwContinue))
         else Some MwContinue)))"

definition loop_detection :: "nat \<Rightarrow> string \<Rightarrow> agent_middleware" where
  "loop_detection n uuid = nop_middleware\<lparr>mw_before_model := loop_before_model n uuid\<rparr>"

definition error_after_tool :: "string \<Rightarrow> string \<Rightarrow> message \<Rightarrow> message" where
  "error_after_tool uuid name r = (case msg_content r of
       ContentText t \<Rightarrow> (if starts_with ''Error:'' t \<or> starts_with ''error:'' t
         then message_tool_result uuid (case msg_tool_call_id r of Some i \<Rightarrow> i | None \<Rightarrow> [])
           (''Tool '' @ quoted name @ '' failed: '' @ t @ [CHR 10] @ ''Please try a different approach or tool.'')
         else r)
     | MultiPart _ \<Rightarrow> r)"

definition tool_error_handling :: "string \<Rightarrow> agent_middleware" where
  "tool_error_handling uuid = nop_middleware\<lparr>mw_after_tool := error_after_tool uuid,
     mw_on_error := (\<lambda>e. Some (message_ai uuid (''An error occurred: '' @ e @ [CHR 10] @ ''Let me try a different approach.'')))\<rparr>"

type_synonym middleware_chain = "agent_middleware list"

definition chain_with :: "agent_middleware \<Rightarrow> middleware_chain \<Rightarrow> middleware_chain" where
  "chain_with m chain = chain @ [m]"

fun run_before_model :: "middleware_chain \<Rightarrow> agent_state \<Rightarrow> middleware_action option" where
  "run_before_model [] s = Some MwContinue"
| "run_before_model (m # ms) s = (case mw_before_model m s of
       None \<Rightarrow> None
     | Some MwContinue \<Rightarrow> run_before_model ms s
     | Some (MwShortCircuit msg) \<Rightarrow> Some (MwShortCircuit msg))"

definition run_after_model :: "middleware_chain \<Rightarrow> agent_state \<Rightarrow> message \<Rightarrow> message" where
  "run_after_model chain s r = fold (\<lambda>m r. mw_after_model m s r) (rev chain) r"

fun run_before_tool :: "middleware_chain \<Rightarrow> string \<Rightarrow> json \<Rightarrow> middleware_action" where
  "run_before_tool [] name args = MwContinue"
| "run_before_tool (m # ms) name args = (case mw_before_tool m name args of
       MwContinue \<Rightarrow> run_before_tool ms name args
     | MwShortCircuit msg \<Rightarrow> MwShortCircuit msg)"

definition run_after_tool :: "middleware_chain \<Rightarrow> string \<Rightarrow> message \<Rightarrow> message" where
  "run_after_tool chain name r = fold (\<lambda>m r. mw_after_tool m name r) (rev chain) r"

fun run_on_error :: "middleware_chain \<Rightarrow> string \<Rightarrow> message option" where
  "run_on_error [] e = None"
| "run_on_error (m # ms) e = (case mw_on_error m e of Some r \<Rightarrow> Some r | None \<Rightarrow> run_on_error ms e)"

section \<open>The factory with middleware\<close>

record agent_config =
  ac_system_message :: "string option"
  ac_middleware :: middleware_chain
  ac_max_iterations :: "nat option"
  ac_interrupt_before_tools :: bool
  ac_hooks :: model_hooks

text \<open>A panic of a node reaches the run as the runner's error for panicked tasks.\<close>

definition middleware_agent ::
    "(llm_error \<Rightarrow> string) \<Rightarrow> string \<Rightarrow> agent_config \<Rightarrow> chat_model \<Rightarrow> call_scope \<Rightarrow> agent_state
       \<Rightarrow> call_scope \<times> (juncture_error, agent_update) result" where
  "middleware_agent display uuid cfg model scope state = (let s = apply_pre (ac_hooks cfg) state in
     case run_before_model (ac_middleware cfg) s of
       None \<Rightarrow> (scope, Err (ExecutionError ''Task panicked''))
     | Some (MwShortCircuit msg) \<Rightarrow> (scope, Ok (agent_update_of [msg]))
     | Some MwContinue \<Rightarrow> (let
         ms = build_messages uuid (map_option PromptStatic (ac_system_message cfg)) s;
         options = map_option (\<lambda>sel. sel s) (mh_selector (ac_hooks cfg))
         in (case model ms options scope of
           (scope1, Inl e) \<Rightarrow> (scope1, Err (ExecutionError (display e)))
         | (scope1, Inr r0) \<Rightarrow> (scope1, Ok (agent_update_of
             [run_after_model (ac_middleware cfg) s (apply_post (ac_hooks cfg) s r0)])))))"

fun before_tools :: "middleware_chain \<Rightarrow> tool_call list \<Rightarrow> message option" where
  "before_tools chain [] = None"
| "before_tools chain (tc # tcs) = (case run_before_tool chain (tcall_name tc) (tcall_arguments tc) of
       MwShortCircuit msg \<Rightarrow> Some msg
     | MwContinue \<Rightarrow> before_tools chain tcs)"

definition middleware_tools ::
    "tool_env \<Rightarrow> agent_config \<Rightarrow> agent_state tool_node \<Rightarrow> agent_state \<Rightarrow> (juncture_error, agent_update) result" where
  "middleware_tools T cfg node s = (
     case (case rev (agent_messages s) of m # _ \<Rightarrow> before_tools (ac_middleware cfg) (msg_tool_calls m) | [] \<Rightarrow> None) of
       Some msg \<Rightarrow> Ok (agent_update_of [msg])
     | None \<Rightarrow> try_bind (run_tools T node s) (\<lambda>ms. Ok (agent_update_of
         (map (\<lambda>m. run_after_tool (ac_middleware cfg) (case msg_tool_call_id m of Some i \<Rightarrow> i | None \<Rightarrow> ''unknown'') m) ms))))"

definition create_agent_with_middleware ::
    "agent_env \<Rightarrow> (tool_definition list \<Rightarrow> nat \<Rightarrow> chat_model) \<Rightarrow> agent_tool list \<Rightarrow> agent_config
       \<Rightarrow> (topology_error, (agent_state, agent_update, unit) compiled_graph) result option" where
  "create_agent_with_middleware E model tools cfg = (let tool_node = agent_tool_node tools
     in compile_agent (agent_topology
          (\<lambda>i s. map_sum id command_update (snd (middleware_agent (ae_display E) (ae_uuid E i) cfg (model (tool_definitions tools) i) (ae_scope E i) s)))
          (\<lambda>i s. map_sum id command_update (middleware_tools (ae_tools E i) cfg tool_node s))))"

section \<open>The graph that is built\<close>

definition agent_pm :: path_map where
  "agent_pm = [(''tools'', ''tools''), (END, END)]"

lemma agent_pm_of_pairs: "path_map_of_pairs [(''tools'', ''tools''), (END, END)] = agent_pm"
  by (simp add: path_map_of_pairs_def agent_pm_def END_def)

definition agent_edges :: "agent_state edge list" where
  "agent_edges = [EdgeFixed START ''agent'', EdgeConditional ''agent'' agent_route agent_pm, EdgeFixed ''tools'' ''agent'']"

definition agent_graph :: "(agent_state, agent_update) node_fn \<Rightarrow> (agent_state, agent_update) node_fn \<Rightarrow> (agent_state, agent_update) state_graph" where
  "agent_graph a t = \<lparr>sg_nodes = [(''agent'', PlainNode a), (''tools'', PlainNode t)], sg_edges = agent_edges, sg_entry_point = Some ''agent'',
     sg_finish_points = [], sg_metadata = [(''agent'', node_metadata_default), (''tools'', node_metadata_default)], sg_subgraphs = []\<rparr>"

lemma agent_topology_graph: "agent_topology a t = Ok (agent_graph a t)"
  by (simp add: agent_topology_def agent_graph_def add_node_simple_def add_node_def insert_node_def state_graph_new_def im_contains_def
      set_entry_point_def add_conditional_edges_def add_edge_def agent_edges_def agent_pm_of_pairs node_metadata_default_def)

lemma agent_sccs: "find_sccs [(''agent'', a), (''tools'', t)] agent_edges = Some [[''tools'', ''agent'']]"
proof -
  have adj: "scc_adjacency [(''agent'', a), (''tools'', t)] agent_edges = [(''agent'', [''tools'']), (''tools'', [''agent''])]"
    by (simp add: scc_adjacency_def agent_edges_def agent_pm_def adj_touch_def adj_push_def im_modify_def im_get_def START_def END_def)
  show ?thesis
    by (simp add: find_sccs_def adj scc_fuel_def Let_def tarjan_new_def tarjan_enter_def tarjan_leave_def succs_def im_get_def
        im_contains_def lower_lowlink_def get_or_0_def hs_insert_def numeral_eq_Suc)
qed

lemma agent_validates:
  "validate (sg_nodes (agent_graph a t)) (sg_edges (agent_graph a t)) (sg_entry_point (agent_graph a t)) (sg_metadata (agent_graph a t)) = Some (Ok ())"
proof -
  let ?n = "[(''agent'', PlainNode a), (''tools'', PlainNode t)]"
  let ?md = "[(''agent'', node_metadata_default), (''tools'', node_metadata_default)]"
  have "scc_has_exit agent_edges [''tools'', ''agent'']"
    by (simp add: scc_has_exit_def agent_edges_def agent_pm_def)
  then have "check_infinite_loops ?n agent_edges = Some (Ok ())"
    by (simp add: check_infinite_loops_def agent_sccs)
  moreover have "check_edge_targets ?n agent_edges = Ok ()"
    by (simp add: check_edge_targets_Ok edge_valid_def im_contains_def agent_edges_def agent_pm_def)
  moreover have "check_reachability ?n agent_edges (Some ''agent'') ?md = Ok ()"
  proof -
    have "graph_arrow agent_edges ?md ''agent'' ''tools''"
      by (simp add: graph_arrow_def agent_edges_def agent_pm_def START_def END_def)
    then show ?thesis by (auto simp: check_reachability_Ok)
  qed
  moreover have "check_isolated_nodes ?n agent_edges = Ok ()"
    by (simp add: check_isolated_nodes_def Let_def hs_insert_def agent_edges_def agent_pm_def START_def END_def)
  ultimately show ?thesis by (simp add: validate_def check_entry_point_def agent_graph_def)
qed

definition agent_compiled :: "(agent_state, agent_update) node_fn \<Rightarrow> (agent_state, agent_update) node_fn \<Rightarrow> (agent_state, agent_update, unit) compiled_graph" where
  "agent_compiled a t = \<lparr>cg_nodes = [(''agent'', PlainNode a), (''tools'', PlainNode t)], cg_trigger_table = build_trigger_table (agent_graph a t),
     cg_metadata = [(''agent'', node_metadata_default), (''tools'', node_metadata_default)], cg_checkpointer = None,
     cg_interrupt_before = [], cg_interrupt_after = [], cg_subgraphs = []\<rparr>"

lemma agent_compiles: "compile_agent (agent_topology a t) = Some (Ok (agent_compiled a t))"
proof -
  have "validate_keys (derived_impl agent_state_specs) (agent_graph a t) = Ok ()"
    by (simp add: validate_keys_def agent_graph_def node_name_error_def im_contains_def derived_impl_def agent_state_specs_def
        replace_field_indices_def indices_where_def replace_after_finish_field_indices_def is_replace_def is_replace_after_finish_def)
  then show ?thesis
    using agent_validates [of a t]
    by (simp add: compile_agent_def agent_topology_graph compile_graph_def compile_inner_def compile_config_default_def agent_compiled_def agent_graph_def)
qed

section \<open>Where the agent goes next\<close>

lemma agent_table:
  "im_get (tt_outgoing (build_trigger_table (agent_graph a t))) ''agent'' = Some [CConditional agent_route agent_pm]"
  "im_get (tt_outgoing (build_trigger_table (agent_graph a t))) ''tools'' = Some [CFixed ''agent'']"
  "''agent'' \<in> set (triggered_nodes (from_trigger_table (build_trigger_table (agent_graph a t))) [''tools''])"
proof -
  show "im_get (tt_outgoing (build_trigger_table (agent_graph a t))) ''agent'' = Some [CConditional agent_route agent_pm]"
    and out: "im_get (tt_outgoing (build_trigger_table (agent_graph a t))) ''tools'' = Some [CFixed ''agent'']"
    by (simp_all add: build_trigger_table_def agent_graph_def agent_edges_def agent_pm_def add_outgoing_def add_incoming_def
        trigger_table_new_def im_modify_def im_get_def START_def END_def)
  have "CFixed ''agent'' \<in> set (outgoing_of (build_trigger_table (agent_graph a t)) ''tools'')"
    using out by (simp add: outgoing_of_def)
  then show "''agent'' \<in> set (triggered_nodes (from_trigger_table (build_trigger_table (agent_graph a t))) [''tools''])"
    using compiled_fixed_edge_fires by blast
qed

definition wants_tools :: "agent_state \<Rightarrow> bool" where
  "wants_tools s \<longleftrightarrow> agent_messages s \<noteq> [] \<and> has_tool_calls (last (agent_messages s))"

lemma agent_route_wants: "agent_route s = Ok (RouteOne (if wants_tools s then ''tools'' else END))"
  by (cases "agent_messages s" rule: rev_cases) (simp_all add: agent_route_def wants_tools_def)

lemma agent_next:
  assumes "cmd_goto (out_command out) = GotoNone" and "out_node out \<in> {''agent'', ''tools''}"
  shows "\<exists>ts. compute_next_tasks fresh [out] (cg_trigger_table (agent_compiled a t)) (from_trigger_table (cg_trigger_table (agent_compiled a t)))
       (cg_nodes (agent_compiled a t)) s = Ok ts \<and>
     map task_node ts = (if out_node out = ''tools'' then [''agent''] else if wants_tools s then [''tools''] else [])"
  using assms agent_table [of a t]
  by (auto simp: compute_next_tasks_def route_output_def agent_compiled_def process_edge_def agent_route_wants route_targets_def
      resolve_label_def agent_pm_def im_get_def im_contains_def schedule_pull_def task_pull_def END_def Let_def)

lemma limits_unread:
  "ac_system_message (cfg\<lparr>ac_max_iterations := n, ac_interrupt_before_tools := b\<rparr>) = ac_system_message cfg"
  "ac_middleware (cfg\<lparr>ac_max_iterations := n, ac_interrupt_before_tools := b\<rparr>) = ac_middleware cfg"
  "ac_hooks (cfg\<lparr>ac_max_iterations := n, ac_interrupt_before_tools := b\<rparr>) = ac_hooks cfg"
  by simp_all

text \<open>
  C32: Both agent factories always give a graph, and it alternates as documented: after the agent node the tools run
  exactly when the newest message asks for tool calls, otherwise the run ends; after the tools the agent runs again.
  The iteration limit and the interrupt switch of the configuration change nothing, and no interrupt point is set.
\<close>

theorem agent_graph_exact:
  assumes "r = create_agent_with_config E model tools cfg \<or> r = create_agent_with_middleware E model tools mcfg"
  shows "\<exists>cg. r = Some (Ok cg) \<and> im_keys (cg_nodes cg) = [''agent'', ''tools''] \<and> cg_interrupt_before cg = [] \<and> cg_interrupt_after cg = [] \<and>
     (\<forall>out fresh s. cmd_goto (out_command out) = GotoNone \<and> out_node out \<in> {''agent'', ''tools''} \<longrightarrow>
        (\<exists>ts. compute_next_tasks fresh [out] (cg_trigger_table cg) (from_trigger_table (cg_trigger_table cg)) (cg_nodes cg) s = Ok ts \<and>
          map task_node ts = (if out_node out = ''tools'' then [''agent''] else if wants_tools s then [''tools''] else []))) \<and>
     create_agent_with_config E model tools (cfg\<lparr>rac_max_iterations := n, rac_interrupt_before_tools := b\<rparr>) = create_agent_with_config E model tools cfg \<and>
     create_agent_with_middleware E model tools (mcfg\<lparr>ac_max_iterations := n, ac_interrupt_before_tools := b\<rparr>) = create_agent_with_middleware E model tools mcfg"
proof -
  obtain a t where r: "r = Some (Ok (agent_compiled a t))"
    using assms unfolding create_agent_with_config_def create_agent_with_middleware_def Let_def agent_compiles by blast
  have "im_keys (cg_nodes (agent_compiled a t)) = [''agent'', ''tools'']" "cg_interrupt_before (agent_compiled a t) = []"
    "cg_interrupt_after (agent_compiled a t) = []" by (simp_all add: agent_compiled_def)
  moreover have "create_agent_with_config E model tools (cfg\<lparr>rac_max_iterations := n, rac_interrupt_before_tools := b\<rparr>) = create_agent_with_config E model tools cfg"
    by (simp add: create_agent_with_config_def)
  moreover have "create_agent_with_middleware E model tools (mcfg\<lparr>ac_max_iterations := n, ac_interrupt_before_tools := b\<rparr>) = create_agent_with_middleware E model tools mcfg"
    unfolding create_agent_with_middleware_def middleware_agent_def middleware_tools_def limits_unread by (rule refl)
  ultimately show ?thesis using r agent_next [of _ _ a t] by blast
qed

definition example_agent_env :: agent_env where
  "example_agent_env = \<lparr>ae_display = (\<lambda>_. ''failed''), ae_uuid = (\<lambda>_. ''u''), ae_scope = (\<lambda>_. (None, None)),
     ae_tools = (\<lambda>_. \<lparr>te_order = id, te_panic = [], te_fresh = (\<lambda>k. nat_to_string k)\<rparr>)\<rparr>"

definition example_model :: "tool_definition list \<Rightarrow> nat \<Rightarrow> chat_model" where
  "example_model tools i ms o' scope = (scope, Ok (message_ai ''m'' ''done''))"

theorem agent_graph_exact_witness:
  "\<exists>cg ts. create_agent example_agent_env example_model [] = Some (Ok cg) \<and>
     compute_next_tasks (\<lambda>_. ''id'') [example_output ''agent'' Pull (command_update (agent_update_of []))]
       (cg_trigger_table cg) (from_trigger_table (cg_trigger_table cg)) (cg_nodes cg) [[example_answer]] = Ok ts \<and>
     map task_node ts = [''tools'']"
proof -
  let ?out = "example_output ''agent'' Pull (command_update (agent_update_of []))"
  have "cmd_goto (out_command ?out) = GotoNone" "out_node ?out = ''agent''" "wants_tools [[example_answer]]"
    by (simp_all add: example_output_def command_update_def wants_tools_def agent_messages_def has_tool_calls_def example_answer_def)
  moreover note agent_graph_exact [OF disjI1 [OF refl], of example_agent_env example_model "[]" react_agent_config_default]
  ultimately show ?thesis unfolding create_agent_def by fastforce
qed

section \<open>What an answer costs\<close>

lemma report_answer_tokens:
  "msg_usage m = Some u \<Longrightarrow> \<exists>t'. report_answer E m (Some t) = Some t' \<and>
     tokens_used t' = wrap_add64 (tokens_used t) (wrap_add64 (input_tokens u) (output_tokens u))"
  by (simp add: report_answer_def apply_report_def with_tracker_def try_report_model_call_def try_report_llm_duration_def
      try_report_llm_call_def report_defs report_llm_duration_def)

lemma agent_counts_call:
  assumes "mh_post_model (an_hooks node) = None"
    and "an_model node ms o' (None, Some t) = ((None, report_answer E r (Some t)), Ok r)" and u: "msg_usage r = Some u"
    and "ms = build_messages uuid (an_prompt node) (apply_pre (an_hooks node) s)"
    and "o' = map_option (\<lambda>sel. sel (apply_pre (an_hooks node) s)) (mh_selector (an_hooks node))"
  shows "\<exists>t'. agent_call display uuid node s (None, Some t) = ((None, Some t'), Ok (command_update (agent_update_of [r]))) \<and>
     tokens_used t' = wrap_add64 (wrap_add64 (tokens_used t) (wrap_add64 (input_tokens u) (output_tokens u))) (wrap_add64 (input_tokens u) (output_tokens u))"
  using assms report_answer_tokens [OF u, of E t]
  by (auto simp: agent_call_def Let_def apply_post_def report_response_def report_model_call_def)

lemma cached_call_miss:
  "cached_call E k fetch (None, b) = ((None, case fetch of Inl _ \<Rightarrow> b | Inr m \<Rightarrow> report_answer E m b), fetch)"
  by (auto simp: cached_call_def try_llm_cache_lookup_def try_llm_cache_store_def split: sum.splits)

text \<open>
  An agent whose model is one of the providers charges every answer twice: the provider reports the tokens of
  the answer to the task's tracker, and the agent node reports them again to the same tracker.
\<close>

theorem agent_tokens_counted_twice:
  assumes model: "an_model node = anthropic_invoke E ca send_a \<or> an_model node = openai_invoke E co send_o \<or> an_model node = ollama_invoke E cl send_l"
    and post: "mh_post_model (an_hooks node) = None"
    and call: "agent_call display uuid node s (None, Some t) = (scope', Ok (command_update (agent_update_of [r])))"
    and usage: "msg_usage r = Some u"
  shows "\<exists>t'. scope' = (None, Some t') \<and>
     tokens_used t' = wrap_add64 (wrap_add64 (tokens_used t) (wrap_add64 (input_tokens u) (output_tokens u))) (wrap_add64 (input_tokens u) (output_tokens u))"
proof -
  let ?s = "apply_pre (an_hooks node) s"
  let ?ms = "build_messages uuid (an_prompt node) ?s" and ?o = "map_option (\<lambda>sel. sel ?s) (mh_selector (an_hooks node))"
  have "\<exists>fetch. an_model node ?ms ?o (None, Some t) = ((None, case fetch of Inl _ \<Rightarrow> Some t | Inr m \<Rightarrow> report_answer E m (Some t)), fetch)"
    using model
    by (elim disjE) (simp only: anthropic_invoke_def openai_invoke_def ollama_invoke_def cached_call_miss, rule exI, rule refl)+
  then obtain fetch where f: "an_model node ?ms ?o (None, Some t) = ((None, case fetch of Inl _ \<Rightarrow> Some t | Inr m \<Rightarrow> report_answer E m (Some t)), fetch)"
    by blast
  have "fetch = Ok r"
  proof (cases fetch)
    case (Inl e)
    then show ?thesis using call f by (simp add: agent_call_def Let_def)
  next
    case (Inr m)
    then show ?thesis using call f post
      by (auto simp: agent_call_def Let_def apply_post_def command_update_def agent_update_of_def split: prod.splits)
  qed
  then have "an_model node ?ms ?o (None, Some t) = ((None, report_answer E r (Some t)), Ok r)" using f by simp
  from agent_counts_call [OF post this usage refl refl, of display] show ?thesis unfolding call by auto
qed

definition example_reply :: provider_env where
  "example_reply = example_provider\<lparr>pe_parse := (\<lambda>_. Ok (JObj [(''message'', JObj [(''role'', JStr ''assistant''), (''content'', JStr ''hi'')]),
     (''done'', JBool True), (''prompt_eval_count'', JNum 7), (''eval_count'', JNum 3)]))\<rparr>"

theorem agent_tokens_counted_twice_witness:
  "tokens_used (the (snd (fst (agent_call (\<lambda>_. []) ''u''
     (agent_node_new (ollama_invoke example_reply (chat_ollama_new ''llama3'') (\<lambda>_. TextReply 200 (Ok ''{}''))) None)
     [[]] (None, Some (budget_tracker_new 0 budget_config_new)))))) = 20"
proof -
  let ?node = "agent_node_new (ollama_invoke example_reply (chat_ollama_new ''llama3'') (\<lambda>_. TextReply 200 (Ok ''{}''))) None"
  let ?r = "ollama_convert_response ''u'' \<lparr>olp_content = ''hi'', olp_tool_calls = [], olp_done = True, olp_prompt_eval_count = Some 7, olp_eval_count = Some 3\<rparr>"
  have read: "model_reply http_error (read_as example_reply read_ollama_response) (TextReply 200 (Ok ''{}'')) =
      Ok \<lparr>olp_content = ''hi'', olp_tool_calls = [], olp_done = True, olp_prompt_eval_count = Some 7, olp_eval_count = Some 3\<rparr>"
    by (simp add: model_reply_def read_as_def example_reply_def example_provider_def read_ollama_response_def req_field_def opt_field_def
        json_member_def read_bool_default_def u64_max_def)
  have uuid: "pe_uuid example_reply = ''u''" by (simp add: example_reply_def example_provider_def)
  obtain scope' where call: "agent_call (\<lambda>_. []) ''u'' ?node [[]] (None, Some (budget_tracker_new 0 budget_config_new)) =
      (scope', Ok (command_update (agent_update_of [?r])))"
    by (simp add: agent_call_def agent_node_new_def ollama_invoke_def cached_call_miss read uuid apply_post_def Let_def)
  have "msg_usage ?r = Some \<lparr>input_tokens = 7, output_tokens = 3, total_tokens = wrap_add64 7 3\<rparr>"
    by (simp add: ollama_convert_response_def ollama_usage_def)
  note twice = agent_tokens_counted_twice [OF disjI2 [OF disjI2] _ call this]
  have "an_model ?node = ollama_invoke example_reply (chat_ollama_new ''llama3'') (\<lambda>_. TextReply 200 (Ok ''{}''))"
    "mh_post_model (an_hooks ?node) = None" by (simp_all add: agent_node_new_def)
  from twice [OF this] show ?thesis unfolding call by (auto simp: budget_tracker_new_def wrap_add64_def)
qed

section \<open>What the loop detector sees\<close>

text \<open>A round of the agent: an answer whose first call is the given one, and the results, which call nothing.\<close>

definition is_round :: "string \<Rightarrow> json \<Rightarrow> message list \<Rightarrow> bool" where
  "is_round name args r = (case r of
       [] \<Rightarrow> False
     | a # ts \<Rightarrow> (case msg_tool_calls a of tc # _ \<Rightarrow> tcall_name tc = name \<and> tcall_arguments tc = args | [] \<Rightarrow> False) \<and> list_all (\<lambda>t. msg_tool_calls t = []) ts)"

lemma first_calls_append [simp]: "first_calls (xs @ ys) = first_calls xs @ first_calls ys"
  by (simp add: first_calls_def filter_map_def)

lemma first_calls_quiet: "list_all (\<lambda>t. msg_tool_calls t = []) ts \<Longrightarrow> first_calls ts = []"
  by (induction ts) (auto simp: first_calls_def filter_map_def)

lemma quiet_take: "list_all P ts \<Longrightarrow> list_all P (take m (rev ts))"
  by (auto simp: list_all_iff dest: in_set_takeD)

lemma round_split:
  assumes "is_round name args r"
  obtains a ts where "r = a # ts" "list_all (\<lambda>t. msg_tool_calls t = []) ts" "first_calls [a] = [(name, args)]"
  using assms by (cases r) (auto simp: is_round_def first_calls_def filter_map_def split: list.splits)

lemma short_rounds_calls:
  "\<forall>r \<in> set rounds. is_round name args r \<and> length r = 2 \<Longrightarrow>
     first_calls (rev (concat rounds)) = replicate (length rounds) (name, args) \<and> length (concat rounds) = length rounds * 2"
proof (induction rounds)
  case (Cons r rounds)
  then obtain a ts where r: "r = a # ts" "list_all (\<lambda>t. msg_tool_calls t = []) ts" "first_calls [a] = [(name, args)]"
    using round_split [of name args r] by auto
  have "first_calls (rev ts) = []" using r(2) by (intro first_calls_quiet) simp
  with Cons r(1,3) show ?case by (simp add: replicate_append_same)
qed (simp add: first_calls_def filter_map_def)

lemma long_rounds_calls:
  "\<forall>r \<in> set rounds. is_round name args r \<and> length r \<ge> 3 \<Longrightarrow>
     length (first_calls (take m (rev (concat rounds)))) \<le> m div 3 \<and> length (concat rounds) \<ge> length rounds * 3"
proof (induction rounds arbitrary: m rule: rev_induct)
  case (snoc r rounds)
  then obtain a ts where r: "r = a # ts" "list_all (\<lambda>t. msg_tool_calls t = []) ts" "first_calls [a] = [(name, args)]"
    using round_split [of name args r] by auto
  have len: "length ts \<ge> 2" using snoc.prems r(1) by simp
  have quiet: "first_calls (take k (rev ts)) = []" for k
    by (rule first_calls_quiet, rule quiet_take, rule r(2))
  have IH: "length (first_calls (take k (rev (concat rounds)))) \<le> k div 3" "length (concat rounds) \<ge> length rounds * 3" for k
    using snoc by simp_all
  have "length (first_calls (take m (rev (concat (rounds @ [r]))))) \<le> m div 3"
  proof (cases "m \<le> length ts")
    case True
    then have "take m (rev (concat (rounds @ [r]))) = take m (rev ts)" by (simp add: r(1))
    then show ?thesis by (simp add: quiet)
  next
    case False
    then obtain k where k: "m = length ts + 1 + k" by (metis add.commute add_Suc le_Suc_ex not_less_eq_eq plus_1_eq_Suc)
    have "take m (rev (concat (rounds @ [r]))) = rev ts @ [a] @ take k (rev (concat rounds))" by (simp add: r(1) k)
    moreover have "first_calls (rev ts) = []" using quiet [of "length ts"] by simp
    ultimately have "length (first_calls (take m (rev (concat (rounds @ [r]))))) = 1 + length (first_calls (take k (rev (concat rounds))))"
      using r(3) by (simp only: first_calls_append list.simps append_Nil length_append list.size)
    also have "\<dots> \<le> 1 + k div 3" using IH(1) by simp
    also have "\<dots> \<le> m div 3" using len k by simp
    finally show ?thesis .
  qed
  moreover have "length (concat (rounds @ [r])) \<ge> length (rounds @ [r]) * 3" using IH(2) len r(1) by simp
  ultimately show ?case by blast
qed (simp add: first_calls_def filter_map_def)

text \<open>
  After \<open>n\<close> rounds with the same first call and one result each, the loop detector answers for the model with a
  message that calls no tool.  When every round has two or more results it lets the loop go on, whatever the calls
  are: the last \<open>2 n\<close> messages then hold fewer than \<open>n\<close> answers.  A limit of zero panics.
\<close>

theorem loop_detection_rounds:
  assumes n: "n > 0" and ms: "agent_messages s = pre @ concat rounds" and len: "length rounds = n"
    and rounds: "\<forall>r \<in> set rounds. is_round name args r"
    and cfg: "ac_middleware cfg = [loop_detection n uuid]" "mh_pre_model (ac_hooks cfg) = None"
  shows "((\<forall>r \<in> set rounds. length r = 2) \<longrightarrow>
       middleware_agent display u cfg model scope s = (scope, Ok (agent_update_of [loop_message uuid name n])) \<and>
       \<not> wants_tools [agent_messages s @ [loop_message uuid name n]]) \<and>
    ((\<forall>r \<in> set rounds. length r \<ge> 3) \<longrightarrow> loop_before_model n uuid s = Some MwContinue) \<and>
    loop_before_model 0 uuid s = None"
proof (intro conjI impI)
  assume two: "\<forall>r \<in> set rounds. length r = 2"
  have c: "first_calls (rev (concat rounds)) = replicate n (name, args)" "length (concat rounds) = n * 2"
    using short_rounds_calls [of rounds name args] rounds two len by auto
  have "take (n * 2) (rev (agent_messages s)) = rev (concat rounds)" using c(2) by (simp add: ms)
  moreover obtain k where "n = Suc k" using n by (cases n) auto
  ultimately have "loop_before_model n uuid s = Some (MwShortCircuit (loop_message uuid name n))"
    using c by (simp add: loop_before_model_def ms Let_def list_all_iff)
  then show "middleware_agent display u cfg model scope s = (scope, Ok (agent_update_of [loop_message uuid name n]))"
    using cfg by (simp add: middleware_agent_def apply_pre_def loop_detection_def nop_middleware_def Let_def)
  show "\<not> wants_tools [agent_messages s @ [loop_message uuid name n]]"
    by (simp add: wants_tools_def agent_messages_def has_tool_calls_def loop_message_def message_ai_def plain_message_def)
next
  assume "\<forall>r \<in> set rounds. length r \<ge> 3"
  with long_rounds_calls [of rounds name args "n * 2"] rounds len have c:
    "length (first_calls (take (n * 2) (rev (concat rounds)))) \<le> n * 2 div 3" "length (concat rounds) \<ge> n * 3" by auto
  have "take (n * 2) (rev (agent_messages s)) = take (n * 2) (rev (concat rounds))" using c(2) by (simp add: ms)
  moreover have "\<not> n \<le> length (first_calls (take (n * 2) (rev (concat rounds))))" using c(1) n by linarith
  ultimately show "loop_before_model n uuid s = Some MwContinue" by (simp add: loop_before_model_def Let_def)
next
  show "loop_before_model 0 uuid s = None" by (simp add: loop_before_model_def first_calls_def filter_map_def Let_def)
qed

definition example_round :: "message list" where
  "example_round = [message_ai_with_tool_calls ''a'' [] [example_call ''c1'' ''search'' JNull, example_call ''c2'' ''search'' JNull],
     message_tool_result ''t1'' ''c1'' ''none'', message_tool_result ''t2'' ''c2'' ''none'']"

theorem loop_detection_rounds_witness:
  "loop_before_model 3 ''u'' [example_round @ example_round @ example_round] = Some MwContinue"
proof -
  let ?cfg = "\<lparr>ac_system_message = None, ac_middleware = [loop_detection 3 ''u''], ac_max_iterations = None, ac_interrupt_before_tools = False,
     ac_hooks = \<lparr>mh_pre_model = None, mh_post_model = None, mh_selector = None\<rparr>\<rparr>"
  have "is_round ''search'' JNull example_round" "length example_round = 3"
    by (simp_all add: is_round_def example_round_def message_ai_with_tool_calls_def message_tool_result_def plain_message_def example_call_def)
  then show ?thesis
    using loop_detection_rounds [of 3 "[example_round @ example_round @ example_round]" "[]" "[example_round, example_round, example_round]" "''search''" JNull ?cfg "''u''"]
    by (simp add: agent_messages_def)
qed

section \<open>The chain\<close>

lemma run_before_model_append:
  "run_before_model (xs @ ys) s = (case run_before_model xs s of Some MwContinue \<Rightarrow> run_before_model ys s | r \<Rightarrow> r)"
  by (induction xs) (auto split: option.splits middleware_action.splits)

lemma run_after_append:
  "run_after_model (xs @ ys) s r = run_after_model xs s (run_after_model ys s r)"
  "run_after_tool (xs @ ys) name r = run_after_tool xs name (run_after_tool ys name r)"
  by (simp_all add: run_after_model_def run_after_tool_def)

text \<open>
  Middleware nests: of two chains the first sees the state before the second, which runs only when the first lets
  the call through, and sees the model's answer and a tool's result after it; the empty chain changes nothing.
\<close>

theorem middleware_nests:
  "run_before_model (xs @ ys) s = (case run_before_model xs s of Some MwContinue \<Rightarrow> run_before_model ys s | r \<Rightarrow> r) \<and>
   run_after_model (xs @ ys) s r = run_after_model xs s (run_after_model ys s r) \<and>
   run_after_tool (xs @ ys) name r = run_after_tool xs name (run_after_tool ys name r) \<and>
   run_before_model [] s = Some MwContinue \<and> run_after_model [] s r = r \<and> run_after_tool [] name r = r"
  by (simp add: run_before_model_append run_after_append, simp add: run_after_model_def run_after_tool_def)

end
