(* ===== verification/Delegation.thy ===== *)
theory Delegation
  imports Agents Graph_Api
begin

text \<open>
  Delegation to sub-agents (\<open>juncture/src/prebuilt/subagent.rs\<close>): the registry of agents, the entry that wraps a
  compiled graph, and the tool \<open>task\<close> that an orchestrating agent calls.  A sub-agent's run is an option: \<open>None\<close> when it
  panics or does not return.  The text of an engine error and fresh identifiers are parameters.
\<close>

section \<open>Entries\<close>

datatype subagent_error = AgentNotFound string | InvocationFailed string | RegistryEmpty

fun subagent_error_display :: "subagent_error \<Rightarrow> string" where
  "subagent_error_display (AgentNotFound n) = ''agent not found: '' @ n"
| "subagent_error_display (InvocationFailed m) = ''agent invocation failed: '' @ m"
| "subagent_error_display RegistryEmpty = ''no agents registered''"

type_synonym agent_invoke_fn = "agent_state \<Rightarrow> runnable_config \<Rightarrow> (subagent_error, agent_state) result option"

record agent_entry =
  en_description :: string
  en_invoke_fn :: agent_invoke_fn

definition agent_entry_new :: "string \<Rightarrow> agent_invoke_fn \<Rightarrow> agent_entry" where
  "agent_entry_new d f = \<lparr>en_description = d, en_invoke_fn = f\<rparr>"

text \<open>What \<open>IntoAgentEntry\<close> asks of a graph.\<close>

record into_agent_entry =
  ie_description :: string
  ie_invoke_boxed :: agent_invoke_fn

definition entry_from_graph :: "into_agent_entry \<Rightarrow> agent_entry" where
  "entry_from_graph graph = \<lparr>en_description = ie_description graph,
     en_invoke_fn = (\<lambda>state config. map_option (map_sum (\<lambda>e. InvocationFailed (subagent_error_display e)) id) (ie_invoke_boxed graph state config))\<rparr>"

definition entry_invoke :: "agent_entry \<Rightarrow> agent_invoke_fn" where
  "entry_invoke entry state config = en_invoke_fn entry state config"

definition graph_agent ::
    "(juncture_error \<Rightarrow> string) \<Rightarrow> nat \<Rightarrow> agent_state state_codec \<Rightarrow> (agent_state, agent_update, 'o) run_world
       \<Rightarrow> (agent_state, agent_update, 'c saver_api) compiled_graph \<Rightarrow> 'c \<times> cache_policy option \<Rightarrow> into_agent_entry" where
  "graph_agent display fuel cd rw g env = \<lparr>ie_description = ''Compiled agent graph'',
     ie_invoke_boxed = (\<lambda>state config. (case invoke fuel (derived_impl agent_state_specs) cd rw g config state env of
         Some (Some (_, _, r)) \<Rightarrow> Some (map_sum (\<lambda>e. InvocationFailed (display e)) go_value r)
       | _ \<Rightarrow> None))\<rparr>"

section \<open>The registry\<close>

record agent_registry = ar_agents :: "(string, agent_entry) imap"

definition registry_new :: agent_registry where
  "registry_new = \<lparr>ar_agents = []\<rparr>"

definition registry_get :: "agent_registry \<Rightarrow> string \<Rightarrow> agent_entry option" where
  "registry_get r name = im_get (ar_agents r) name"

definition registry_list :: "agent_registry \<Rightarrow> string list" where
  "registry_list r = im_keys (ar_agents r)"

definition registry_register :: "string \<Rightarrow> agent_entry \<Rightarrow> agent_registry \<Rightarrow> agent_registry" where
  "registry_register name entry r = r\<lparr>ar_agents := im_insert name entry (ar_agents r)\<rparr>"

section \<open>The tool\<close>

definition subagent_schema :: json where
  "subagent_schema = JObj [(''type'', JStr ''object''),
     (''properties'', JObj [
        (''subagent_type'', JObj [(''type'', JStr ''string''), (''description'', JStr ''The type/name of the sub-agent to invoke'')]),
        (''task'', JObj [(''type'', JStr ''string''), (''description'', JStr ''The task description to delegate to the sub-agent'')])]),
     (''required'', JArr [JStr ''subagent_type'', JStr ''task''])]"

definition joined_text :: "message \<Rightarrow> string" where
  "joined_text m = (case msg_content m of
       ContentText t \<Rightarrow> t
     | MultiPart parts \<Rightarrow> join_with '' '' (List.map_filter part_text parts))"

definition result_text :: "agent_state \<Rightarrow> string" where
  "result_text s = (case find (\<lambda>m. msg_role m = Ai) (rev (agent_messages s)) of
       Some m \<Rightarrow> joined_text m
     | None \<Rightarrow> ''Sub-agent completed with no output'')"

text \<open>The derived \<open>RunnableConfig::default()\<close>: unlike \<open>RunnableConfig::new()\<close>, its numbers are zero.\<close>

definition config_default :: runnable_config where
  "config_default = \<lparr>cfg_saver = \<lparr>sc_thread_id = None, sc_checkpoint_id = None, sc_checkpoint_ns = None\<rparr>,
     cfg_run = \<lparr>rc_recursion_limit = 0, rc_interrupt_before = None, rc_interrupt_after = None, rc_max_state_size = None, rc_durability = None\<rparr>,
     cfg_max_parallel_tasks = 0, cfg_run_name = None, cfg_graph_name = None, cfg_run_id = None, cfg_previous = None,
     cfg_tags = [], cfg_metadata = [], cfg_budget = None, cfg_resume_value = None\<rparr>"

definition string_field :: "string \<Rightarrow> json \<Rightarrow> string option" where
  "string_field k v = Option.bind (json_member k v) as_str"

definition subagent_invoke :: "string \<Rightarrow> agent_registry \<Rightarrow> json \<Rightarrow> (tool_error, string) result option" where
  "subagent_invoke uuid registry input = (case string_field ''subagent_type'' input of
       None \<Rightarrow> Some (Err (InvalidInput ''Missing 'subagent_type' field''))
     | Some subagent_type \<Rightarrow> (case string_field ''task'' input of
         None \<Rightarrow> Some (Err (InvalidInput ''Missing 'task' field''))
       | Some task \<Rightarrow> (case registry_get registry subagent_type of
           None \<Rightarrow> Some (Err (ExecutionFailed (''Sub-agent not found: '' @ subagent_type)))
         | Some entry \<Rightarrow> map_option (map_sum (\<lambda>e. ExecutionFailed (subagent_error_display e)) result_text)
             (entry_invoke entry [[message_human uuid task]] config_default))))"

definition subagent_tool :: "string \<Rightarrow> agent_registry \<Rightarrow> agent_tool" where
  "subagent_tool uuid registry = \<lparr>at_definition = \<lparr>td_name = ''task'',
       td_description = ''Delegate a task to a specialized sub-agent. Available agents are listed in the registry.'',
       td_parameters = subagent_schema\<rparr>,
     at_run = subagent_invoke uuid registry\<rparr>"

section \<open>What the registry holds\<close>

text \<open>
  After any sequence of registrations an agent's name finds the entry registered last under it, and the listing has every
  registered name once.
\<close>

theorem registry_last_wins:
  "registry_get (fold (\<lambda>(n, e). registry_register n e) es registry_new) name = map_of (rev es) name \<and>
   set (registry_list (fold (\<lambda>(n, e). registry_register n e) es registry_new)) = fst ` set es \<and>
   distinct (registry_list (fold (\<lambda>(n, e). registry_register n e) es registry_new))"
proof (induction es rule: rev_induct)
  case (snoc x es)
  obtain n e where x: "x = (n, e)" by (cases x)
  show ?case using snoc.IH by (auto simp: x registry_get_def registry_list_def registry_register_def)
qed (simp add: registry_new_def registry_get_def registry_list_def)

section \<open>What a delegation answers\<close>

lemma string_field_JObj: "string_field k (JObj obj) = Some t \<longleftrightarrow> map_of obj k = Some (JStr t)"
proof -
  have "as_str v = Some t \<longleftrightarrow> v = JStr t" for v by (cases v) auto
  then show ?thesis by (auto simp: string_field_def json_member_def bind_eq_Some_conv)
qed

lemma schema_fields:
  assumes "validate_arguments_against_schema input subagent_schema = Ok ()"
  shows "\<exists>name task. string_field ''subagent_type'' input = Some name \<and> string_field ''task'' input = Some task"
proof -
  have run: "validate_arguments_against_schema input subagent_schema = validate_object_arguments input subagent_schema"
    by (simp add: validate_arguments_against_schema_def subagent_schema_def json_member_def)
  show ?thesis
  proof (cases input)
    case (JObj obj)
    have "try_bind r f = Ok () \<longleftrightarrow> r = Ok () \<and> f () = Ok ()" for r :: "(tool_error, unit) result" and f
      by (cases r) auto
    then have "map_of obj ''subagent_type'' \<noteq> None" "map_of obj ''task'' \<noteq> None"
      "\<forall>v. map_of obj ''subagent_type'' = Some v \<longrightarrow> type_matches ''string'' v" "\<forall>v. map_of obj ''task'' = Some v \<longrightarrow> type_matches ''string'' v"
      using assms unfolding run
      by (simp_all add: JObj validate_object_arguments_def subagent_schema_def json_member_def as_array_def check_required_iff check_properties_iff del: check_required.simps check_properties.simps)
    moreover have "type_matches ''string'' v \<Longrightarrow> \<exists>t. v = JStr t" for v by (cases v) (simp_all add: type_matches_def)
    ultimately show ?thesis unfolding JObj string_field_JObj by (metis option.exhaust)
  qed (use assms run in \<open>simp_all add: validate_object_arguments_def\<close>)
qed

text \<open>
  A delegation whose arguments pass the tool's schema runs the agent registered under the name on a fresh state that has
  the task as its only message, with the default configuration: neither the caller's messages nor its limits reach it.  The
  answer is the text of the newest model message the agent leaves; an unknown name and a failed run are execution errors,
  and the argument errors of the tool never occur.
\<close>

theorem delegation_exact:
  assumes "validate_arguments_against_schema input subagent_schema = Ok ()"
  shows "\<exists>name task. string_field ''subagent_type'' input = Some name \<and> string_field ''task'' input = Some task \<and>
    subagent_invoke uuid registry input = (case registry_get registry name of
        None \<Rightarrow> Some (Err (ExecutionFailed (''Sub-agent not found: '' @ name)))
      | Some entry \<Rightarrow> (case en_invoke_fn entry [[message_human uuid task]] config_default of
          None \<Rightarrow> None
        | Some (Inl e) \<Rightarrow> Some (Err (ExecutionFailed (subagent_error_display e)))
        | Some (Inr s) \<Rightarrow> Some (Ok (result_text s))))"
proof -
  obtain name task where "string_field ''subagent_type'' input = Some name" "string_field ''task'' input = Some task"
    using schema_fields [OF assms] by blast
  then show ?thesis by (auto simp: subagent_invoke_def entry_invoke_def split: option.splits sum.splits)
qed

definition echo_entry :: agent_entry where
  "echo_entry = agent_entry_new ''echo'' (\<lambda>s config. Some (Ok [agent_messages s @ [message_ai ''r'' ''fine'']]))"

definition echo_request :: json where
  "echo_request = JObj [(''subagent_type'', JStr ''echo''), (''task'', JStr ''hi'')]"

lemma echo_valid: "validate_arguments_against_schema echo_request subagent_schema = Ok ()"
  by (simp add: validate_arguments_against_schema_def validate_object_arguments_def subagent_schema_def echo_request_def json_member_def
      as_array_def validate_property_type_def type_matches_def)

theorem delegation_exact_witness:
  "subagent_invoke ''u'' (registry_register ''echo'' echo_entry registry_new) echo_request = Some (Ok ''fine'')"
proof -
  from delegation_exact [OF echo_valid, of "''u''" "registry_register ''echo'' echo_entry registry_new"] show ?thesis
    by (auto simp: string_field_JObj echo_request_def registry_get_def registry_register_def registry_new_def echo_entry_def agent_entry_new_def
        im_get_Cons result_text_def agent_messages_def message_ai_def plain_message_def joined_text_def message_human_def)
qed

section \<open>Graphs as sub-agents\<close>

lemma limit_zero:
  assumes "rc_recursion_limit (cfg_run config) = 0"
  shows "\<exists>c'. invoke (Suc fuel) S cd rw g config s (c, None) = Some (Some ((c', None), [], Err (RecursionLimit 0 0)))"
proof -
  have limit: "rc_recursion_limit (cfg_run (effective_config g config)) = 0"
    using assms by (simp add: effective_config_def Let_def)
  obtain c' prev where prev: "load_previous (cg_checkpointer g) (cfg_saver (effective_config g config)) (cfg_previous (effective_config g config)) c = (c', prev)"
    by (metis surj_pair)
  obtain pl where pl: "invoke_loop (rw_fresh rw) (rw_start rw) s g ((effective_config g config)\<lparr>cfg_previous := prev\<rparr>) = Some pl"
    and frame: "rc_recursion_limit (pl_config pl) = 0" "pl_step pl = 0" "pl_saved pl = []"
    using limit by (auto simp: invoke_loop_def stream_loop_def with_error_handlers_def tracker_new_def set_circuit_breaker_policies_def wire_budget_def
        set_budget_tracker_def split: option.splits)
  have "run_loop (Suc fuel) S (rw_worlds rw prev) 0 pl = Some (Some (finish_all_channels S (pl\<lparr>pl_status := OutOfSteps\<rparr>), Err (RecursionLimit 0 0)))"
    using frame by (simp add: tick_def)
  moreover have "pl_saved (finish_all_channels S (pl\<lparr>pl_status := OutOfSteps\<rparr>)) = []"
    using frame by (simp add: finish_all_channels_def)
  ultimately show ?thesis
    by (simp add: invoke_def invoke_async_inner_def cache_lookup_def prev pl)
qed

lemma no_steps: "rc_recursion_limit (cfg_run config_default) = 0"
  by (simp add: config_default_def)

text \<open>
  C33: A compiled graph never runs as a sub-agent.  The tool invokes it with \<open>RunnableConfig::default()\<close>, whose recursion limit is
  zero, so the first tick of the loop gives up: whatever the graph, its nodes and the task, the delegation fails with the
  recursion limit, reported twice over as a failed invocation.
\<close>

theorem graph_subagents_never_run:
  assumes "validate_arguments_against_schema input subagent_schema = Ok ()"
    and "\<And>name. string_field ''subagent_type'' input = Some name \<Longrightarrow>
       registry_get registry name = Some (entry_from_graph (graph_agent display (Suc fuel) cd rw g (c, None)))"
  shows "subagent_invoke uuid registry input =
    Some (Err (ExecutionFailed (''agent invocation failed: agent invocation failed: '' @ display (RecursionLimit 0 0))))"
proof -
  obtain name task where "string_field ''subagent_type'' input = Some name" "string_field ''task'' input = Some task"
    using schema_fields [OF assms(1)] by blast
  moreover obtain c' where "invoke (Suc fuel) (derived_impl agent_state_specs) cd rw g config_default [[message_human uuid task]] (c, None)
      = Some (Some ((c', None), [], Err (RecursionLimit 0 0)))"
    using limit_zero [OF no_steps, of fuel "derived_impl agent_state_specs" cd rw g "[[message_human uuid task]]" c] by blast
  ultimately show ?thesis
    using assms(2) by (simp add: subagent_invoke_def entry_invoke_def entry_from_graph_def graph_agent_def)
qed

definition example_subagent :: "(agent_state, agent_update, unit saver_api) compiled_graph" where
  "example_subagent = (let g = agent_graph (\<lambda>_ _. Ok (command_update (agent_update_of [message_ai ''r'' ''fine'']))) (\<lambda>_ _. Ok (command_update (agent_update_of []))) in
     \<lparr>cg_nodes = sg_nodes g, cg_trigger_table = build_trigger_table g, cg_metadata = sg_metadata g, cg_checkpointer = None,
      cg_interrupt_before = [], cg_interrupt_after = [], cg_subgraphs = []\<rparr>)"

definition agent_codec :: "agent_state state_codec" where
  "agent_codec = \<lparr>sd_schema_version = 1, sd_migrate = (\<lambda>_ v. v), sd_decode = (\<lambda>_. Err []), sd_encode = (\<lambda>_. Err [])\<rparr>"

definition agent_world :: "(agent_state, agent_update, agent_state) run_world" where
  "agent_world = \<lparr>rw_worlds = (\<lambda>_ _. \<lparr>w_now = 0, w_fresh = (\<lambda>_ _. ''id''), w_hash = (\<lambda>n _. n), w_exec = (\<lambda>_ _ _ _. None),
       w_order = (\<lambda>ts. ts), w_cancelled = (\<lambda>_. False), w_signals = [], w_put_writes = (\<lambda>_ _. None), w_put = (\<lambda>_. None),
       w_update_value = (\<lambda>_. None), w_to_value = (\<lambda>_. None), w_from_value = (\<lambda>_. None), w_size = (\<lambda>_. None),
       w_display = (\<lambda>_. []), w_reason = (\<lambda>_. []), w_stored_writes = None\<rparr>),
     rw_fresh = (\<lambda>_. ''id''), rw_run_id = ''r'', rw_uuid = ''u'', rw_start = 0, rw_finish = 1, rw_render = (\<lambda>_. []),
     rw_hasher = (\<lambda>_ _. 0), rw_output = (\<lambda>s. s), rw_output_json = (\<lambda>_. None)\<rparr>"

theorem graph_subagents_never_run_witness:
  "subagent_invoke ''u'' (registry_register ''echo''
       (entry_from_graph (graph_agent (\<lambda>_. ''recursion limit'') 100 agent_codec agent_world example_subagent ((), None))) registry_new) echo_request =
     Some (Err (ExecutionFailed ''agent invocation failed: agent invocation failed: recursion limit''))"
proof -
  from graph_subagents_never_run [OF echo_valid, of "registry_register ''echo'' (entry_from_graph (graph_agent (\<lambda>_. ''recursion limit'') 100 agent_codec agent_world example_subagent ((), None))) registry_new"
      "\<lambda>_. ''recursion limit''" 99 agent_codec agent_world example_subagent "()" "''u''"]
  show ?thesis by (simp add: string_field_JObj echo_request_def registry_get_def registry_register_def registry_new_def im_get_Cons)
qed

end
