(* ===== verification/Spec2Isabelle.thy ===== *)
theory Spec2Isabelle
  imports Store_Db Remote Checkpoint_Cache Builtin_Tools Web_Api Engine Messages Sql_Savers Drawing Streaming Subgraphs Functional Conversation Model_Middleware Delegation
begin

text \<open>
  A verification development for Juncture, a graph-execution engine for agent workflows written in Rust.

  \<^bold>\<open>The program.\<close>  A user describes a state (fields with reducers), nodes (functions from the state to a
  command) and edges, and compiles them to a graph.  The engine runs the graph in supersteps.  It checks the
  limits (\<open>tick\<close>), runs the pending tasks concurrently (\<open>execute_superstep\<close>), then merges their writes into the
  state by the reducers, bumps the versions of the changed fields, routes along the edges to the
  next tasks, recovers failed tasks by fallbacks and handlers, saves a checkpoint and looks for interrupts
  (\<open>after_tick\<close>).  Retries, timeouts, circuit breakers and a resource budget guard the calls.  Around the engine are
  checkpoint savers (in memory, SQLite, PostgreSQL), key-value stores, the API of compiled graphs (invoke, resume, stream,
  read and update the state), subgraphs, the functional interface of tasks and entry points, model providers with their
  middleware, tools, prebuilt agents with delegation and conversation memory, and the recording of telemetry.

  \<^bold>\<open>Theories and the code they model\<close> (paths below \<open>src/crates/\<close>).

  The foundation:
  \<^item> \<open>Prelude\<close>: results, saturating and wrapping arithmetic, insertion-ordered maps, hash sets, JSON values; the
    locales \<open>transition_system\<close> (an invariant kept by every step holds along every run) and \<open>kv_store\<close> (a store read by key).
    \<open>Strings\<close>: splitting, joining and number formatting of the standard library.
  \<^item> \<open>Errors\<close>: \<open>juncture-core/src/error.rs\<close>.
  \<^item> \<open>State_Trait\<close>: \<open>state/trait_.rs\<close>.  The trait is the record \<open>state_impl\<close> of its methods; what the engine relies
    on is the locale \<open>state_base\<close>, what a derived implementation promises beyond it is \<open>state_contract\<close>.
  \<^item> \<open>Derived_State\<close>: \<open>juncture-derive/src/state_derive.rs\<close>, the implementation the macro generates; an
    interpretation of \<open>state_contract\<close>.
  \<^item> \<open>Channels\<close>: \<open>state/channel.rs\<close>, all reducers and channels; each channel interprets \<open>channel_contract\<close>, the
    batchable reducers interpret \<open>batchable_reducer\<close>.
  \<^item> \<open>Messages\<close>: \<open>state/messages.rs\<close>, the message reducer and \<open>MessagesState\<close> (interprets \<open>state_base\<close>).

  The engine:
  \<^item> \<open>Budget\<close>: \<open>pregel/budget.rs\<close>.  \<open>Breakers\<close>: the node breaker of \<open>graph/builder.rs\<close> and the model breaker of
    \<open>juncture/src/llm/circuit_breaker.rs\<close>, both interpretations of \<open>breaker_machine\<close>.  \<open>Retry\<close>: the retry and
    timeout wrappers of \<open>graph/builder.rs\<close> and \<open>juncture/src/llm/retry.rs\<close>.
  \<^item> \<open>Commands\<close>: \<open>command.rs\<close>, \<open>edge/types.rs\<close>, \<open>edge/compiled.rs\<close>, \<open>pregel/types.rs\<close>, the data of
    \<open>interrupt/mod.rs\<close>.
  \<^item> \<open>Topology\<close>: \<open>graph/topology.rs\<close>.  \<open>Graph_Builder\<close>: \<open>graph/builder.rs\<close> and the policy maps of
    \<open>graph/compiled.rs\<close>.
  \<^item> \<open>Versions\<close> and \<open>Scheduler\<close>: \<open>pregel/scheduler.rs\<close>.
  \<^item> \<open>Interrupts\<close>: \<open>interrupt/mod.rs\<close>, \<open>interrupt/context.rs\<close> and the resume matching of \<open>pregel/runner.rs\<close>.
  \<^item> \<open>Runner\<close>: \<open>pregel/runner.rs\<close>, one superstep, on the inline and the spawning path.
  \<^item> \<open>Pregel\<close> and \<open>Engine\<close>: \<open>pregel/loop_.rs\<close> and the driver loop of \<open>graph/compiled.rs\<close>.  \<open>pregel_loop\<close> is the struct
    \<open>PregelLoop\<close>; \<open>after_tick\<close> is composed of \<open>merge_phase\<close>, \<open>schedule_phase\<close>, \<open>interrupt_phase\<close> and \<open>complete_step\<close>,
    consecutive stretches of the code's \<open>after_tick\<close>.

  Persistence:
  \<^item> \<open>Checkpoints\<close>: the checkpoint data and namespaces of \<open>checkpoint.rs\<close> and \<open>juncture-checkpoint/src/types.rs\<close>, delta recovery.
  \<^item> \<open>Memory_Saver\<close>: \<open>juncture-checkpoint/src/memory.rs\<close> (interprets \<open>transition_system\<close>).
  \<^item> \<open>Sql_Savers\<close>: \<open>sqlite.rs\<close>, \<open>postgres.rs\<close> and \<open>serde.rs\<close> of the same crate.  A table is an association list from primary keys
    to rows and each statement has its SQL meaning on it; \<open>sql_backend\<close> holds the column codecs, by which the two savers
    differ.
  \<^item> \<open>Checkpoint_Cache\<close>: \<open>cache.rs\<close> of the same crate; the LRU table behind it is the parameter \<open>lru_ops\<close> with the laws \<open>lru_laws\<close>.
  \<^item> \<open>Store\<close> and \<open>Store_Sql\<close>: \<open>store.rs\<close>, the store in memory (reads split at their lock boundaries; interprets \<open>kv_store\<close>) and
    the SQL the database stores send with the reading of its answers.  \<open>Store_Db\<close>: the operations of both database stores on their
    tables; the locale \<open>point_store\<close> is interpreted on all three stores.

  The API:
  \<^item> \<open>Run_Config\<close>: \<open>config.rs\<close> with the result cache.  \<open>Graph_Api\<close>: \<open>invoke\<close>, \<open>resume\<close>, the streaming driver, \<open>get_state\<close>,
    \<open>get_state_history\<close>, \<open>update_state\<close> and \<open>bulk_update_state\<close> of \<open>graph/compiled.rs\<close>, generic in the saver; what they rely on is the
    locale \<open>checkpointer\<close>, interpreted on the saver in memory there and on the database savers in \<open>Sql_Savers\<close>.
  \<^item> \<open>Drawing\<close>: the diagrams of \<open>graph/compiled.rs\<close>.  \<open>Streaming\<close>: \<open>stream.rs\<close> and the relay of events.  \<open>Subgraphs\<close>: \<open>subgraph.rs\<close>.
  \<^item> \<open>Functional\<close>: \<open>func/mod.rs\<close>, \<open>runtime.rs\<close>, the node wrappers of \<open>node/into_node.rs\<close> and what the \<open>task\<close> and \<open>entrypoint\<close>
    attributes of \<open>juncture-derive\<close> expand to.
  \<^item> \<open>Remote\<close>: \<open>client.rs\<close> and \<open>graph/remote.rs\<close>, the requests of the clients and the reading of the replies.

  Models and agents:
  \<^item> \<open>Model_Calls\<close>: call options, structured output, response cache and pricing (\<open>llm.rs\<close>, \<open>observability.rs\<close>, \<open>juncture/src/llm/pricing.rs\<close>).
    \<open>Providers\<close>: requests, answers and streams of \<open>anthropic.rs\<close>, \<open>openai.rs\<close> and \<open>ollama.rs\<close>.  \<open>Model_Middleware\<close>: \<open>middleware.rs\<close>,
    \<open>mock.rs\<close> and the breaker as a middleware.
  \<^item> \<open>Tools\<close>: \<open>juncture/src/tools/\<close>, the tool node with validation, hooks and permissions.  \<open>Builtin_Tools\<close>: the tools of
    \<open>tools/builtin/\<close>.
  \<^item> \<open>Agents\<close>: the agent graphs and agent middleware of \<open>juncture/src/prebuilt/\<close>.  \<open>Delegation\<close>: \<open>prebuilt/subagent.rs\<close>.
  \<^item> \<open>Conversation\<close>: \<open>juncture/src/memory/\<close>; its store is the locale \<open>summary_store\<close>, interpreted on the store in memory.

  Telemetry:
  \<^item> \<open>Trace_Store\<close>: \<open>juncture-telemetry/src/models.rs\<close>, \<open>trace_store.rs\<close> and \<open>sqlite_store.rs\<close>, the SQLite store of traces, observations
    and sessions with its queries and statistics.
  \<^item> \<open>Telemetry\<close>: \<open>batch_writer.rs\<close>, \<open>collector.rs\<close> and \<open>langfuse.rs\<close>.  The writer relies on the locale \<open>trace_sink\<close>, interpreted on
    the SQLite store; its buffer interprets \<open>transition_system\<close>.  \<open>batch_writer\<close> runs its operations one after the other, \<open>flight_writer\<close>
    lets the batches drained from the buffer be written in any interleaving.
  \<^item> \<open>Web_Api\<close>: the embedded server, \<open>web/api.rs\<close>, \<open>otlp/mod.rs\<close>, \<open>otlp/http.rs\<close> and \<open>config.rs\<close>.  \<open>serve\<close> handles one request: credentials, route,
    handler.

  \<^bold>\<open>Conventions.\<close>  \<open>Err\<close> and \<open>Ok\<close> are the injections of a sum, a panic is \<open>None\<close> of an option.  \<open>usize\<close> and \<open>u64\<close>
  are naturals with saturation or wrap-around written out where the code can reach it; the changed-field mask is
  a \<open>64 word\<close>; \<open>f64\<close> is a rational (rounding is not modelled).  A hash map or hash set is an
  association or distinct list, whose order stands for the unspecified iteration order; bytes are characters.  Code outside the
  repository and the outside world are parameters: node behaviour, routers, the JSON and MessagePack libraries, ciphers, clock,
  random identifiers and jitter, hash functions, network answers, database failures and the order of rows with equal sort keys,
  and the order in which concurrent tasks finish.  They are gathered in records such as \<open>run_env\<close> (one superstep), \<open>world\<close> (one iteration
  of the driver loop), \<open>run_world\<close> (one run) and \<open>sql_env\<close> (one statement).

  \<^bold>\<open>What is shown.\<close>
  \<^item> Merging: the merge of a superstep is exactly the fold of the reducers in sort-key order, independent of
    completion order when the keys are distinct; conflicting replace writes reject it atomically; versions grow exactly for
    written fields; a derived state applies updates exactly.
  \<^item> Scheduling: next tasks are exactly the routed ones; the two halves of the trigger table agree; activation follows
    unseen versions; each failure is recovered at most once.
  \<^item> Execution: outcome of a superstep for every completion order, agreement of the inline path with the
    spawning path and where it breaks, persistence of writes; executing leaves the merged state alone;
    breaker-blocked tasks are inert.
  \<^item> The loop: \<open>after_tick\<close> never panics and keeps the loop invariant; runs without interrupts end within
    the recursion limit; synchronous checkpoints capture the step; interrupted steps are not counted.
  \<^item> Graphs: compilation accepts only sound graphs; the reachability check is exact; validation terminates;
    the builder keeps its tables in step; diagrams show exactly the graph.
  \<^item> Interrupts: replay on resume, exact coverage check, exact firing of configured interrupts.
  \<^item> Guards: breakers follow their state diagram, open at the threshold, admit exactly their trial calls and recover;
    retries settle within their bound; budget totals and checks are exact.
  \<^item> Channels and messages: checkpoint round trips, delta replay, ring and barrier behaviour, unique message
    identifiers, refinement of the message reducer to a map.
  \<^item> Persistence: the savers give back what was saved and the newest checkpoint first; namespaces and deltas are
    recovered; the store refines a timed map and searches exactly; the three stores agree on batches over single items; the savers agree
    behind \<open>get_state\<close> (below).
  \<^item> The API: streaming goes through the supersteps of \<open>invoke\<close>; what a run saves, what a resumed run starts from, when an update
    is visible; what a subgraph call resumes; how the cache of tasks answers and when a previous result arrives.
  \<^item> Models and agents: assembled streams, the delivery of provider streams, nesting of middleware, cache keys; the tool node
    answers every call; agent graphs alternate as documented; delegation and the configuration it runs with; summaries are kept.
  \<^item> Telemetry: batching gives the database direct writes give, traces are read back with their observations, nothing is lost or
    doubled on the way to the store, two batches in flight can lose an observation; queries and their pages are exact, percentiles in bounds;
    what an export to the embedded server leaves there, whom it lets write, what becomes of OpenTelemetry spans.
  \<^item> Around: the checkpoint cache refines a lossy map; remote graphs cannot authenticate; the text of a page is its words outside tags.

  \<^bold>\<open>Bounds and fuel.\<close>  Tarjan's recursion (\<open>visit\<close>) has the fuel \<open>scc_fuel\<close>, the number of nodes and edge
  targets, proved to be enough for every graph.  The driver loop \<open>run_loop\<close> has a fuel argument because the code's
  loop has no bound of its own; the remaining steps of the recursion limit plus one are proved to be
  enough for runs without interrupts.  \<open>invoke\<close>, \<open>resume\<close>, \<open>stream_run\<close>, \<open>subgraph_call\<close> and \<open>graph_agent\<close> pass that fuel on: the outer \<open>None\<close> is a run that
  has not ended, \<open>Some None\<close> a panic.  Every other loop recurses on its data or, for a model stream, on the polls made of it.

  \<^bold>\<open>Not modelled.\<close>  Metrics, tracing spans and callbacks (output only); the page of the web dashboard, sockets, database
  connections and schema creation (I/O through third-party code); parsing and printing of token streams in the macros; the asynchronous channels under streams; real
  parallelism inside one operation, except where the code releases a lock between two steps.
\<close>

section \<open>Savers behind the graph API\<close>

text \<open>The part of a snapshot that does not depend on the saver.\<close>

definition snapshot_core :: "(juncture_error, 's state_snapshot option) result \<Rightarrow> (juncture_error, ('s \<times> checkpoint_metadata \<times> string list) option) result" where
  "snapshot_core r = map_sum id (map_option (\<lambda>sn. (sn_values sn, sn_metadata sn, sn_next sn))) r"

lemma get_state_core:
  "sa_get_tuple api config c = (c', Inr (Some t)) \<Longrightarrow>
     snapshot_core (snd (get_state cd (Some api) config c)) =
       map_sum id (\<lambda>s. Some (s, tp_metadata t, map cpt_node (sck_pending_tasks (tp_checkpoint t)))) (deserialize_with_migration cd (tp_checkpoint t))"
  by (cases "deserialize_with_migration cd (tp_checkpoint t)") (simp_all add: get_state_def checkpoint_err_def snapshot_core_def snapshot_of_def)



end
